(* ===== verification/Prelude.thy ===== *)
theory Prelude
  imports Complex_Main "HOL-Library.AList" "HOL-Library.Multiset"
begin

text \<open>
  The part of the JavaScript language and its standard library that the console's front end
  uses, and the lemmas every component shares.

  Strings are sequences of UTF-16 code units, restricted here to the Latin-1 range, so that
  \<open>string\<close> is the type and \<open>length\<close> counts what JavaScript counts. The few display glyphs
  of the source outside Latin-1 (arrows, the ellipsis, the dash, the ohm sign) are single code units in
  JavaScript too; each is written with a C1 control character that no text contains.

  Numbers that the source only counts with are \<open>nat\<close> or \<open>int\<close>; measured values are \<open>rat\<close>, the exact
  value of the double, so that rounding to an integer or to decimals is exact; the rounding of a
  double sum or quotient itself is not modelled. A property that may be missing is an \<open>option\<close>.

  A \<open>Map\<close> keeps its keys in insertion order: an association list, read with \<open>map_of\<close> and
  written with \<open>AList.update\<close>, which overwrites in place or appends.
\<close>

named_theorems js_eval \<open>the equations that evaluate the string and list operations on literals\<close>

section \<open>Strings\<close>

abbreviation glyph_right :: char where "glyph_right \<equiv> CHR 0x80"    \<comment> \<open>U+2192, rightwards arrow\<close>
abbreviation glyph_left :: char where "glyph_left \<equiv> CHR 0x81"      \<comment> \<open>U+2190, leftwards arrow\<close>
abbreviation glyph_ellipsis :: char where "glyph_ellipsis \<equiv> CHR 0x82"  \<comment> \<open>U+2026\<close>
abbreviation glyph_dash :: char where "glyph_dash \<equiv> CHR 0x83"      \<comment> \<open>U+2014, em dash\<close>
abbreviation glyph_ohm :: char where "glyph_ohm \<equiv> CHR 0x84"        \<comment> \<open>U+03A9\<close>
abbreviation glyph_up :: char where "glyph_up \<equiv> CHR 0x85"        \<comment> \<open>U+2191, upwards arrow\<close>
abbreviation glyph_down :: char where "glyph_down \<equiv> CHR 0x86"      \<comment> \<open>U+2193, downwards arrow\<close>
abbreviation glyph_degree :: char where "glyph_degree \<equiv> CHR 0xB0"  \<comment> \<open>U+00B0\<close>
abbreviation glyph_middot :: char where "glyph_middot \<equiv> CHR 0xB7"  \<comment> \<open>U+00B7\<close>

definition is_digit :: "char \<Rightarrow> bool" where
  "is_digit c \<longleftrightarrow> 48 \<le> (of_char c :: nat) \<and> (of_char c :: nat) \<le> 57"

definition is_upper :: "char \<Rightarrow> bool" where
  "is_upper c \<longleftrightarrow> 65 \<le> (of_char c :: nat) \<and> (of_char c :: nat) \<le> 90"

definition is_lower :: "char \<Rightarrow> bool" where
  "is_lower c \<longleftrightarrow> 97 \<le> (of_char c :: nat) \<and> (of_char c :: nat) \<le> 122"

definition is_alpha :: "char \<Rightarrow> bool" where
  "is_alpha c \<longleftrightarrow> is_upper c \<or> is_lower c"

definition is_word :: "char \<Rightarrow> bool" where  \<comment> \<open>the class \<open>\w\<close> of a regular expression\<close>
  "is_word c \<longleftrightarrow> is_alpha c \<or> is_digit c \<or> c = CHR ''_''"

definition is_hex :: "char \<Rightarrow> bool" where
  "is_hex c \<longleftrightarrow> is_digit c \<or> (65 \<le> (of_char c :: nat) \<and> (of_char c :: nat) \<le> 70)
     \<or> (97 \<le> (of_char c :: nat) \<and> (of_char c :: nat) \<le> 102)"

definition is_space :: "char \<Rightarrow> bool" where  \<comment> \<open>the class \<open>\s\<close>, and what \<open>trim\<close> removes\<close>
  "is_space c \<longleftrightarrow> (9 \<le> (of_char c :: nat) \<and> (of_char c :: nat) \<le> 13)
     \<or> (of_char c :: nat) = 32 \<or> (of_char c :: nat) = 160"

definition lower_char :: "char \<Rightarrow> char" where
  "lower_char c = (let n = of_char c :: nat in
     if (65 \<le> n \<and> n \<le> 90) \<or> (192 \<le> n \<and> n \<le> 222 \<and> n \<noteq> 215) then char_of (n + 32) else c)"

definition upper_char :: "char \<Rightarrow> char" where
  \<comment> \<open>the letters whose capital leaves Latin-1 (the sharp s, the micro sign, y with diaeresis) stay\<close>
  "upper_char c = (let n = of_char c :: nat in
     if (97 \<le> n \<and> n \<le> 122) \<or> (224 \<le> n \<and> n \<le> 254 \<and> n \<noteq> 247) then char_of (n - 32) else c)"

definition to_lower :: "string \<Rightarrow> string" where
  "to_lower s = map lower_char s"

definition to_upper :: "string \<Rightarrow> string" where
  "to_upper s = map upper_char s"

text \<open>\<open>s.slice(i, j)\<close>: a negative index counts from the end, and both are clamped.\<close>

definition slice_index :: "nat \<Rightarrow> int \<Rightarrow> nat" where
  "slice_index n i = (if i < 0 then nat (int n + i) else min (nat i) n)"

definition slice :: "int \<Rightarrow> int \<Rightarrow> 'a list \<Rightarrow> 'a list" where
  "slice i j s = (let a = slice_index (length s) i; b = slice_index (length s) j
     in take (b - a) (drop a s))"

definition slice_from :: "int \<Rightarrow> 'a list \<Rightarrow> 'a list" where
  "slice_from i s = drop (slice_index (length s) i) s"

fun starts_with :: "string \<Rightarrow> string \<Rightarrow> bool" where
  "starts_with [] s = True"
| "starts_with (c # p) [] = False"
| "starts_with (c # p) (d # s) = (c = d \<and> starts_with p s)"

fun index_of :: "string \<Rightarrow> string \<Rightarrow> nat option" where
  \<comment> \<open>\<open>s.indexOf(p)\<close>, with \<open>None\<close> for \<open>-1\<close>\<close>
  "index_of p [] = (if p = [] then Some 0 else None)"
| "index_of p (c # s) = (if starts_with p (c # s) then Some 0 else map_option Suc (index_of p s))"

definition str_includes :: "string \<Rightarrow> string \<Rightarrow> bool" where
  "str_includes s p \<longleftrightarrow> index_of p s \<noteq> None"

definition trim_start :: "string \<Rightarrow> string" where
  "trim_start s = dropWhile is_space s"

definition trim :: "string \<Rightarrow> string" where
  "trim s = rev (dropWhile is_space (rev (trim_start s)))"

fun join :: "string \<Rightarrow> string list \<Rightarrow> string" where
  "join sep [] = []"
| "join sep [x] = x"
| "join sep (x # y # ys) = x @ sep @ join sep (y # ys)"

fun split_on :: "char \<Rightarrow> string \<Rightarrow> string list" where  \<comment> \<open>\<open>s.split(c)\<close>\<close>
  "split_on c [] = [[]]"
| "split_on c (d # s) =
     (if c = d then [] # split_on c s
      else (case split_on c s of [] \<Rightarrow> [[d]] | x # xs \<Rightarrow> (d # x) # xs))"

fun str_less :: "string \<Rightarrow> string \<Rightarrow> bool" where  \<comment> \<open>\<open>a < b\<close> on strings, by code units\<close>
  "str_less _ [] = False"
| "str_less [] (d # t) = True"
| "str_less (c # s) (d # t) =
     ((of_char c :: nat) < of_char d \<or> (c = d \<and> str_less s t))"

definition replace_char :: "char \<Rightarrow> char \<Rightarrow> string \<Rightarrow> string" where  \<comment> \<open>\<open>s.replace(/c/g, d)\<close>\<close>
  "replace_char c d s = map (\<lambda>x. if x = c then d else x) s"


subsection \<open>Lemmas on strings\<close>

lemmas char_class_defs =
  is_digit_def is_upper_def is_lower_def is_alpha_def is_word_def is_hex_def is_space_def

lemmas [js_eval] =
  char_class_defs lower_char_def upper_char_def to_lower_def to_upper_def slice_index_def slice_def
  slice_from_def str_includes_def trim_start_def trim_def replace_char_def Let_def

lemma slice_index_of_nat [simp]: "slice_index n (int i) = min i n"
  by (simp add: slice_index_def)

lemma slice_of_nat: "slice (int i) (int j) s = take (j - i) (drop i s)"
  by (simp add: slice_def min_def take_all drop_all)

lemma slice_from_of_nat: "slice_from (int i) s = drop i s"
  by (simp add: slice_from_def min_def drop_all)

lemma slice_zero: "slice 0 (int j) s = take j s"
  using slice_of_nat [of 0 j s] by simp

lemma length_slice_zero: "length (slice 0 (int j) s) = min (length s) j"
  by (simp add: slice_zero)

lemma slice_from_neg: "0 < j \<Longrightarrow> slice_from (- int j) s = drop (length s - j) s"
proof -
  assume "0 < j"
  have "nat (int (length s) - int j) = length s - j" by arith
  with \<open>0 < j\<close> have "slice_index (length s) (- int j) = length s - j"
    by (simp add: slice_index_def)
  then show ?thesis by (simp add: slice_from_def)
qed

lemma length_to_lower [simp]: "length (to_lower s) = length s"
  by (simp add: to_lower_def)

lemma to_lower_append: "to_lower (s @ t) = to_lower s @ to_lower t"
  by (simp add: to_lower_def)

lemma take_to_lower: "take n (to_lower s) = to_lower (take n s)"
  by (simp add: to_lower_def take_map)

lemma lower_char_idem [simp]: "lower_char (lower_char c) = lower_char c"
  by (auto simp: lower_char_def Let_def)

lemma to_lower_idem [simp]: "to_lower (to_lower s) = to_lower s"
  by (simp add: to_lower_def)

lemma starts_with_iff: "starts_with p s \<longleftrightarrow> take (length p) s = p"
  by (induction p s rule: starts_with.induct) auto

lemma index_of_Some_split:
  "index_of p s = Some i \<Longrightarrow> take (length p) (drop i s) = p \<and> i + length p \<le> length s"
proof (induction p s arbitrary: i rule: index_of.induct)
  case (1 p)
  then show ?case by (auto split: if_splits)
next
  case (2 p c s)
  show ?case
  proof (cases "starts_with p (c # s)")
    case True
    with "2.prems" have "take (length p) (c # s) = p" and "i = 0"
      by (simp_all add: starts_with_iff)
    moreover from this(1) have "length p \<le> length (c # s)"
      by (metis length_take min.cobounded1)
    ultimately show ?thesis by simp
  next
    case False
    with "2.prems" obtain k where "index_of p s = Some k" and "i = Suc k" by auto
    with "2.IH" False show ?thesis by simp
  qed
qed

lemma index_of_None_append: "index_of p (s @ p @ t) \<noteq> None"
proof (induction s)
  case Nil
  have "starts_with p (p @ t)" by (simp add: starts_with_iff)
  then show ?case by (cases "p @ t") auto
next
  case (Cons c s)
  then show ?case by simp
qed

lemma str_less_irrefl [simp]: "\<not> str_less s s"
  by (induction s) auto

lemma str_less_Nil [simp]: "str_less [] s \<longleftrightarrow> s \<noteq> []"
  by (cases s) auto

lemma str_less_trans: "str_less a b \<Longrightarrow> str_less b c \<Longrightarrow> str_less a c"
proof (induction a b arbitrary: c rule: str_less.induct)
  case (3 x a y b)
  then show ?case by (cases c) auto
qed auto

lemma str_less_linear: "str_less a b \<or> a = b \<or> str_less b a"
  by (induction a b rule: str_less.induct) (auto simp: linorder_neq_iff)

lemma replace_char_length [simp]: "length (replace_char c d s) = length s"
  by (simp add: replace_char_def)

section \<open>Numbers\<close>

fun show_nat :: "nat \<Rightarrow> string" where  \<comment> \<open>\<open>String(n)\<close> on a non-negative integer\<close>
  "show_nat n = (if n < 10 then [char_of (48 + n)] else show_nat (n div 10) @ [char_of (48 + n mod 10)])"

declare show_nat.simps [simp del]

definition show_int :: "int \<Rightarrow> string" where
  "show_int i = (if i < 0 then CHR ''-'' # show_nat (nat (- i)) else show_nat (nat i))"

definition digit_value :: "char \<Rightarrow> nat" where
  "digit_value c = of_char c - 48"

definition parse_digits :: "string \<Rightarrow> nat" where  \<comment> \<open>\<open>Number(s)\<close> on a string of digits\<close>
  "parse_digits s = foldl (\<lambda>n c. 10 * n + digit_value c) 0 s"

definition js_round :: "rat \<Rightarrow> int" where  \<comment> \<open>\<open>Math.round\<close>: halves go up\<close>
  "js_round x = \<lfloor>x + 1 / 2\<rfloor>"

definition pad_zeros :: "nat \<Rightarrow> string \<Rightarrow> string" where
  "pad_zeros n s = replicate (n - length s) CHR ''0'' @ s"

definition to_fixed :: "nat \<Rightarrow> rat \<Rightarrow> string" where  \<comment> \<open>\<open>x.toFixed(f)\<close>, for \<open>|x| < 1e21\<close>\<close>
  "to_fixed f x =
     (let n = nat (\<lfloor>\<bar>x\<bar> * 10 ^ f + 1 / 2\<rfloor>); m = pad_zeros (Suc f) (show_nat n); k = length m - f;
          body = (if f = 0 then m else take k m @ ''.'' @ drop k m)
      in if x < 0 then CHR ''-'' # body else body)"

lemmas [js_eval] = show_nat.simps show_int_def digit_value_def parse_digits_def js_round_def
  pad_zeros_def to_fixed_def

lemma of_char_digit: "k < 10 \<Longrightarrow> (of_char (char_of (48 + k :: nat)) :: nat) = 48 + k"
  by simp

lemma is_digit_char_of: "k < 10 \<Longrightarrow> is_digit (char_of (48 + k :: nat))"
  by (simp add: is_digit_def)

lemma show_nat_digits: "list_all is_digit (show_nat n)"
proof (induction n rule: show_nat.induct)
  case (1 n)
  then show ?case
    by (subst show_nat.simps) (auto simp: is_digit_char_of)
qed

lemma show_nat_nonempty [simp]: "show_nat n \<noteq> []"
  by (subst show_nat.simps) simp

lemma parse_digits_snoc: "parse_digits (s @ [c]) = 10 * parse_digits s + digit_value c"
  by (simp add: parse_digits_def)

lemma parse_show_nat [simp]: "parse_digits (show_nat n) = n"
proof (induction n rule: show_nat.induct)
  case (1 n)
  show ?case
  proof (cases "n < 10")
    case True
    then show ?thesis
      by (subst show_nat.simps) (simp add: parse_digits_def digit_value_def)
  next
    case False
    with "1.IH" show ?thesis
      by (subst show_nat.simps) (simp add: parse_digits_snoc digit_value_def)
  qed
qed

lemma show_nat_inject [simp]: "show_nat m = show_nat n \<longleftrightarrow> m = n"
  by (metis parse_show_nat)

lemma show_nat_set: "c \<in> set (show_nat n) \<Longrightarrow> is_digit c"
  using show_nat_digits [of n] by (simp add: list_all_iff)

section \<open>Lists, maps and options\<close>

text \<open>
  \<open>a || b\<close> on strings: the empty string is falsy. \<open>a ?? b\<close> is the value of an \<open>option\<close> with a default.
\<close>

definition or_str :: "string \<Rightarrow> string \<Rightarrow> string" where
  "or_str a b = (if a = [] then b else a)"

definition nullish :: "'a option \<Rightarrow> 'a \<Rightarrow> 'a" where
  "nullish x d = (case x of None \<Rightarrow> d | Some v \<Rightarrow> v)"

definition truthy_str :: "string option \<Rightarrow> bool" where
  "truthy_str x \<longleftrightarrow> (\<exists>s. x = Some s \<and> s \<noteq> [])"

lemma truthy_str_code [code, simp]:
  "truthy_str None = False" "truthy_str (Some s) = (s \<noteq> [])"
  by (simp_all add: truthy_str_def)

lemma nullish_simps [simp]: "nullish None d = d" "nullish (Some v) d = v"
  by (simp_all add: nullish_def)

fun index_where :: "('a \<Rightarrow> bool) \<Rightarrow> 'a list \<Rightarrow> nat option" where  \<comment> \<open>\<open>xs.findIndex(p)\<close>\<close>
  "index_where p [] = None"
| "index_where p (x # xs) = (if p x then Some 0 else map_option Suc (index_where p xs))"

definition list_at :: "'a list \<Rightarrow> nat \<Rightarrow> 'a option" where  \<comment> \<open>\<open>xs[i]\<close>, undefined out of range\<close>
  "list_at xs i = (if i < length xs then Some (xs ! i) else None)"

lemma index_where_Some: "index_where p xs = Some i \<Longrightarrow> i < length xs \<and> p (xs ! i)"
  by (induction xs arbitrary: i) (auto split: if_splits)

lemma index_where_least: "index_where p xs = Some i \<Longrightarrow> j < i \<Longrightarrow> \<not> p (xs ! j)"
proof (induction xs arbitrary: i j)
  case (Cons x xs)
  then show ?case by (cases j) (auto split: if_splits)
qed simp

lemma index_where_None: "index_where p xs = None \<longleftrightarrow> (\<forall>x\<in>set xs. \<not> p x)"
  by (induction xs) auto

lemma index_where_lt: "index_where p xs = Some i \<Longrightarrow> i < length xs"
  by (simp add: index_where_Some)

section \<open>Sets in insertion order\<close>

definition set_add :: "'a \<Rightarrow> 'a list \<Rightarrow> 'a list" where  \<comment> \<open>\<open>Set.add\<close>\<close>
  "set_add x xs = (if x \<in> set xs then xs else xs @ [x])"

definition as_set :: "'a list \<Rightarrow> 'a list" where  \<comment> \<open>\<open>[...new Set(xs)]\<close>\<close>
  "as_set xs = foldl (\<lambda>s x. set_add x s) [] xs"

lemma set_add_simps [simp]:
  "set (set_add x xs) = insert x (set xs)" "distinct (set_add x xs) = distinct xs"
  by (auto simp: set_add_def)

lemma as_set_simps [simp]: "set (as_set xs) = set xs" "distinct (as_set xs)"
proof -
  have "set (foldl (\<lambda>s x. set_add x s) acc xs) = set acc \<union> set xs
      \<and> (distinct acc \<longrightarrow> distinct (foldl (\<lambda>s x. set_add x s) acc xs))" for acc
    by (induction xs arbitrary: acc) auto
  from this [of "[]"] show "set (as_set xs) = set xs" "distinct (as_set xs)"
    by (simp_all add: as_set_def)
qed

section \<open>Remainders\<close>

definition js_rem :: "rat \<Rightarrow> rat \<Rightarrow> rat" where  \<comment> \<open>\<open>x % m\<close>: the sign of \<open>x\<close>\<close>
  "js_rem x m = (let q = x / m in x - m * of_int (if q < 0 then \<lceil>q\<rceil> else \<lfloor>q\<rfloor>))"

end
