(* ===== verification/ErrEvents.thy ===== *)
theory ErrEvents
  imports Prelude "HOL-Library.Word"
begin

unbundle bit_operations_syntax

text \<open>
  \<open>lib/errEvents.ts\<close> and \<open>components/ErrEventBadges.tsx\<close>: the firmware's sticky error flags. JavaScript's bitwise operators work on the
  32-bit two's complement value of a number (\<open>ToInt32\<close>), so the mask is a \<open>32 word\<close>.
\<close>

type_synonym i32 = "32 word"

definition to_int32 :: "int \<Rightarrow> i32" where
  "to_int32 n = word_of_int n"

record err_flag =
  flag_bit :: i32
  flag_label :: string
  flag_name :: string

definition ERR_EVENT_FLAGS :: "err_flag list" where
  "ERR_EVENT_FLAGS =
     [\<lparr>flag_bit = push_bit 0 1, flag_label = ''Queue full'', flag_name = ''ERR_EVENT_FULL''\<rparr>,
      \<lparr>flag_bit = push_bit 1 1, flag_label = ''CAD timeout'', flag_name = ''ERR_EVENT_CAD_TIMEOUT''\<rparr>,
      \<lparr>flag_bit = push_bit 2 1, flag_label = ''RX-start timeout'', flag_name = ''ERR_EVENT_STARTRX_TIMEOUT''\<rparr>]"

definition KNOWN_BITS :: i32 where
  "KNOWN_BITS = foldl (\<lambda>acc f. acc OR flag_bit f) 0 ERR_EVENT_FLAGS"

definition decodeErrEvents :: "int \<Rightarrow> err_flag list" where
  "decodeErrEvents m = filter (\<lambda>f. to_int32 m AND flag_bit f \<noteq> 0) ERR_EVENT_FLAGS"

definition unknownErrBits :: "int \<Rightarrow> int" where
  "unknownErrBits m = sint (to_int32 m AND NOT KNOWN_BITS)"

lemma known_bits: "KNOWN_BITS = 7"
  by (simp add: KNOWN_BITS_def ERR_EVENT_FLAGS_def)

definition or_bits :: "err_flag list \<Rightarrow> i32" where  \<comment> \<open>the mask a list of flags stands for\<close>
  "or_bits fs = foldr (\<lambda>f acc. flag_bit f OR acc) fs 0"

lemma bit_split: "(x AND 1) OR (x AND 2) OR (x AND 4) = x AND (7 :: i32)"
proof -
  have "(x AND 1) OR (x AND 2) OR (x AND 4) = x AND (1 OR 2 OR (4 :: i32))"
    by (simp only: and.commute [of x] bit.conj_disj_distrib2)
  then show ?thesis by simp
qed

lemma and_bit_cases: "x AND 1 = 0 \<or> x AND 1 = (1 :: i32)" "x AND 2 = 0 \<or> x AND 2 = (2 :: i32)"
  "x AND 4 = 0 \<or> x AND 4 = (4 :: i32)"
proof -
  have one: "x AND push_bit n 1 = (if bit x n then push_bit n 1 else 0)" if "n < 32" for n
    using that by (intro bit_word_eqI) (auto simp: bit_and_iff bit_push_bit_iff bit_1_iff bit_exp_iff)
  show "x AND 1 = 0 \<or> x AND 1 = (1 :: i32)" using one [of 0] by (auto split: if_splits)
  show "x AND 2 = 0 \<or> x AND 2 = (2 :: i32)" using one [of 1] by (auto split: if_splits)
  show "x AND 4 = 0 \<or> x AND 4 = (4 :: i32)" using one [of 2] by (auto split: if_splits)
qed

lemma or_bits_decode: "or_bits (decodeErrEvents m) = to_int32 m AND KNOWN_BITS"
proof -
  let ?x = "to_int32 m"
  have "or_bits (decodeErrEvents m) = (?x AND 1) OR (?x AND 2) OR (?x AND 4)"
    using and_bit_cases [of ?x] by (auto simp: decodeErrEvents_def ERR_EVENT_FLAGS_def or_bits_def)
  then show ?thesis by (simp only: bit_split known_bits)
qed

lemma int32_split: "or_bits (decodeErrEvents m) OR word_of_int (unknownErrBits m) = to_int32 m"
proof -
  have "word_of_int (unknownErrBits m) = to_int32 m AND NOT KNOWN_BITS"
    by (simp add: unknownErrBits_def)
  moreover have "(to_int32 m AND KNOWN_BITS) OR (to_int32 m AND NOT KNOWN_BITS) = to_int32 m"
    by (intro bit_word_eqI) (auto simp: bit_simps)
  ultimately show ?thesis by (simp only: or_bits_decode)
qed

section \<open>Badges\<close>

text \<open>The chips drawn for a mask, by their text: \<open>None\<close> where the component renders nothing.\<close>

fun show_hex :: "nat \<Rightarrow> string" where
  "show_hex n = (let d = (\<lambda>k. if k < 10 then char_of (48 + k) else char_of (87 + k)) (n mod 16)
     in if n < 16 then [d] else show_hex (n div 16) @ [d])"

declare show_hex.simps [simp del]

definition to_string_16 :: "int \<Rightarrow> string" where  \<comment> \<open>\<open>n.toString(16)\<close>\<close>
  "to_string_16 i = (if i < 0 then CHR ''-'' # show_hex (nat (- i)) else show_hex (nat i))"

definition ErrEventBadges :: "int \<Rightarrow> string list option" where
  "ErrEventBadges m =
     (let flags = decodeErrEvents m; unknown = unknownErrBits m in
      if length flags = 0 \<and> unknown = 0 then None
      else Some (map flag_label flags @ (if unknown \<noteq> 0 then [''0x'' @ to_string_16 unknown] else [])))"

lemma badges_none_iff: "ErrEventBadges m = None \<longleftrightarrow> to_int32 m = 0"
proof
  assume "ErrEventBadges m = None"
  then have "decodeErrEvents m = []" and "unknownErrBits m = 0"
    by (auto simp: ErrEventBadges_def Let_def split: if_splits)
  with int32_split [of m] show "to_int32 m = 0" by (simp add: or_bits_def)
next
  assume "to_int32 m = 0"
  then show "ErrEventBadges m = None"
    by (simp add: ErrEventBadges_def decodeErrEvents_def unknownErrBits_def)
qed

section \<open>Properties\<close>

text \<open>Decoding an error mask loses no bit: the flags shown and the unknown bits shown make up the mask's 32-bit value, and
  nothing is shown exactly for a zero mask.\<close>
theorem err_mask_complete:
  "or_bits (decodeErrEvents m) OR word_of_int (unknownErrBits m) = to_int32 m
     \<and> (ErrEventBadges m = None \<longleftrightarrow> to_int32 m = 0)"
  using int32_split badges_none_iff by simp

end
