(* ===== verification/Http.thy ===== *)
theory Http
  imports Prelude
begin

text \<open>
  What the front end says to the server and hears back: JSON values, requests, the outcome of a
  \<open>fetch\<close>, and \<open>encodeURIComponent\<close>. A response carries both readings of its body: the text, which
  may fail to arrive, and the value \<open>json()\<close> yields, which may fail to parse. The server itself is
  outside the front end: every client operation is the request it makes and what it
  does with each outcome.
\<close>

datatype json =
    JNull
  | JBool bool
  | JNum rat
  | JStr string
  | JArr "json list"
  | JObj "(string \<times> json) list"

fun json_field :: "string \<Rightarrow> json \<Rightarrow> json option" where  \<comment> \<open>\<open>v?.k\<close>; \<open>None\<close> is undefined\<close>
  "json_field k (JObj fs) = map_of (rev fs) k"
| "json_field k _ = None"

fun json_truthy_str :: "json option \<Rightarrow> string option" where
  \<comment> \<open>a non-empty string, the only value the error handlers take as a message\<close>
  "json_truthy_str (Some (JStr s)) = (if s = [] then None else Some s)"
| "json_truthy_str _ = None"

datatype http_method = GET | POST | PUT | PATCH | DELETE

record http_request =
  req_method :: http_method
  req_url :: string
  req_body :: "json option"

record http_response =
  resp_status :: nat
  resp_text :: "string option"
  resp_json :: "json option"

definition resp_ok :: "http_response \<Rightarrow> bool" where
  "resp_ok r \<longleftrightarrow> 200 \<le> resp_status r \<and> resp_status r \<le> 299"

text \<open>A fetch is rejected (the network failed) or answered; an operation of the client fails with an
  \<open>Error\<close> whose message is shown, or returns.\<close>

datatype api_error = NetworkFailure | ApiError string | JsonFailure

type_synonym fetch_outcome = "http_response option"

definition on_response ::
    "fetch_outcome \<Rightarrow> (http_response \<Rightarrow> api_error + 'a) \<Rightarrow> api_error + 'a" where
  "on_response out k = (case out of None \<Rightarrow> Inl NetworkFailure | Some r \<Rightarrow> k r)"

lemma on_response_simps [simp]:
  "on_response None k = Inl NetworkFailure" "on_response (Some r) k = k r"
  by (simp_all add: on_response_def)

definition read_json :: "http_response \<Rightarrow> api_error + json" where  \<comment> \<open>\<open>await r.json()\<close>\<close>
  "read_json r = (case resp_json r of None \<Rightarrow> Inl JsonFailure | Some j \<Rightarrow> Inr j)"

section \<open>Percent encoding\<close>

text \<open>
  \<open>encodeURIComponent\<close> leaves letters, digits and \<open>- _ . ! ~ * ' ( )\<close>, and writes any other code
  point as the percent escapes of its UTF-8 bytes: one byte below 128, two in the rest of Latin-1.
\<close>

definition hex_digit :: "nat \<Rightarrow> char" where
  "hex_digit n = (if n < 10 then char_of (48 + n) else char_of (55 + n))"

definition hex_value :: "char \<Rightarrow> nat" where
  "hex_value c = (let n = of_char c in if n < 58 then n - 48 else if n < 71 then n - 55 else n - 87)"

definition uri_unreserved :: "char \<Rightarrow> bool" where
  "uri_unreserved c \<longleftrightarrow> is_alpha c \<or> is_digit c \<or> c \<in> set (''-_.!~*()'' @ [CHR 0x27])"

definition percent_byte :: "nat \<Rightarrow> string" where
  "percent_byte b = [CHR ''%'', hex_digit (b div 16), hex_digit (b mod 16)]"

definition encode_char :: "char \<Rightarrow> string" where
  "encode_char c = (let n = of_char c :: nat in
     if uri_unreserved c then [c]
     else if n < 128 then percent_byte n
     else percent_byte (192 + n div 64) @ percent_byte (128 + n mod 64))"

definition encode_uri :: "string \<Rightarrow> string" where  \<comment> \<open>\<open>encodeURIComponent\<close>\<close>
  "encode_uri s = concat (map encode_char s)"

text \<open>The decoder a server applies to one path segment, used only to state that encoding loses
  nothing.\<close>

fun decode_bytes :: "string \<Rightarrow> nat list" where
  "decode_bytes [] = []"
| "decode_bytes (c # s) =
     (case s of h # l # rest \<Rightarrow>
        if c = CHR ''%'' then (16 * hex_value h + hex_value l) # decode_bytes rest
        else of_char c # decode_bytes s
      | _ \<Rightarrow> of_char c # decode_bytes s)"

fun decode_utf8 :: "nat list \<Rightarrow> string" where
  "decode_utf8 [] = []"
| "decode_utf8 [b] = [char_of b]"
| "decode_utf8 (b # c # bs) =
     (if b < 128 then char_of b # decode_utf8 (c # bs)
      else char_of ((b - 192) * 64 + (c - 128)) # decode_utf8 bs)"

definition decode_uri :: "string \<Rightarrow> string" where
  "decode_uri s = decode_utf8 (decode_bytes s)"

definition utf8_bytes :: "char \<Rightarrow> nat list" where
  "utf8_bytes c = (let n = of_char c in
     if n < 128 then [n] else [192 + n div 64, 128 + n mod 64])"

lemma hex_value_digit [simp]: "n < 16 \<Longrightarrow> hex_value (hex_digit n) = n"
  by (auto simp: hex_value_def hex_digit_def Let_def)

lemma decode_percent_byte: "b < 256 \<Longrightarrow> decode_bytes (percent_byte b @ s) = b # decode_bytes s"
  by (simp add: percent_byte_def)

lemma unreserved_not_percent: "uri_unreserved c \<Longrightarrow> c \<noteq> CHR ''%''"
  by (auto simp: uri_unreserved_def char_class_defs)

lemma unreserved_ascii: "uri_unreserved c \<Longrightarrow> (of_char c :: nat) < 128"
  by (auto simp: uri_unreserved_def char_class_defs)

lemma decode_plain: "c \<noteq> CHR ''%'' \<Longrightarrow> decode_bytes (c # s) = of_char c # decode_bytes s"
  by (auto split: list.split)

lemma lead_byte: "192 + (of_char c :: nat) div 64 < 256"
proof -
  have "(of_char c :: nat) < 4 * 64" by simp
  then have "(of_char c :: nat) div 64 < 4" by (rule less_mult_imp_div_less)
  then show ?thesis by linarith
qed

lemma decode_encode_char: "decode_bytes (encode_char c @ s) = utf8_bytes c @ decode_bytes s"
proof -
  show ?thesis
  proof (cases "uri_unreserved c")
    case True
    then have "encode_char c @ s = c # s" by (simp add: encode_char_def)
    with True show ?thesis
      by (simp only: decode_plain [OF unreserved_not_percent [OF True]])
        (simp add: utf8_bytes_def Let_def unreserved_ascii)
  next
    case False
    then show ?thesis
      by (auto simp: encode_char_def utf8_bytes_def Let_def decode_percent_byte lead_byte
          simp del: decode_bytes.simps)
  qed
qed

lemma decode_utf8_bytes: "decode_utf8 (utf8_bytes c @ bs) = c # decode_utf8 bs"
  by (cases bs) (auto simp: utf8_bytes_def Let_def)

lemma decode_encode_uri: "decode_uri (encode_uri s) = s"
proof -
  have "decode_bytes (encode_uri s) = concat (map utf8_bytes s)"
    by (induction s) (simp_all add: encode_uri_def decode_encode_char del: decode_bytes.simps,
      simp)
  moreover have "decode_utf8 (concat (map utf8_bytes s)) = s"
    by (induction s) (simp_all add: decode_utf8_bytes)
  ultimately show ?thesis by (simp add: decode_uri_def)
qed

lemma encode_uri_inject: "encode_uri s = encode_uri t \<longleftrightarrow> s = t"
  by (metis decode_encode_uri)

lemma hex_digit_plain: "n < 16 \<Longrightarrow> is_hex (hex_digit n)"
  by (auto simp: hex_digit_def char_class_defs)

lemma encode_char_safe:
  assumes "x \<in> set (encode_char c)"
  shows "uri_unreserved x \<or> x = CHR ''%''"
proof -
  have hex: "uri_unreserved x" if "n < 16" and "x = hex_digit n" for n
    using hex_digit_plain [OF that(1)] that(2) by (auto simp: uri_unreserved_def char_class_defs)
  have byte: "uri_unreserved x \<or> x = CHR ''%''" if "x \<in> set (percent_byte k)" and "k < 256" for k
    using that hex by (auto simp: percent_byte_def)
  show ?thesis
    using assms byte lead_byte [of c] by (auto simp: encode_char_def Let_def split: if_splits)
qed

lemma encode_uri_safe: "x \<in> set (encode_uri s) \<Longrightarrow> uri_unreserved x \<or> x = CHR ''%''"
  by (auto simp: encode_uri_def dest: encode_char_safe)

lemma encode_uri_no_reserved:
  "CHR ''/'' \<notin> set (encode_uri s)" "CHR ''?'' \<notin> set (encode_uri s)"
  "CHR ''&'' \<notin> set (encode_uri s)" "CHR ''#'' \<notin> set (encode_uri s)"
  by (auto dest!: encode_uri_safe simp: uri_unreserved_def char_class_defs)

end
