(* ===== verification/LinkPath.thy ===== *)
theory LinkPath
  imports Prelude Http
begin

text \<open>
  \<open>lib/linkPath.ts\<close>: a path's hex string is cut into hop hashes, and a hash names a peer only where a
  repeater's public key starts with it. A peer list's entries are distinct objects, so
  the identity test of the source is a test of positions.
\<close>

record path_peer =
  pp_pubkey :: string
  pp_name :: string
  pp_type :: "string option"
  pp_lastSeen :: "string option"

record resolved_hop =
  rh_hash :: string
  rh_peer :: "path_peer option"
  rh_alternatives :: "path_peer list"

section \<open>Resolving one hop\<close>

text \<open>The \<open>reduce\<close> keeps the leftmost of the most recently heard; it runs over positions here.\<close>

definition later_seen :: "path_peer \<Rightarrow> path_peer \<Rightarrow> bool" where
  "later_seen b a \<longleftrightarrow> str_less (nullish (pp_lastSeen a) '''') (nullish (pp_lastSeen b) '''')"

fun best_from :: "path_peer \<Rightarrow> nat \<Rightarrow> nat \<Rightarrow> path_peer list \<Rightarrow> nat" where
  "best_from a ia i [] = ia"
| "best_from a ia i (b # bs) =
     (if later_seen b a then best_from b i (Suc i) bs else best_from a ia (Suc i) bs)"

definition remove_at :: "nat \<Rightarrow> 'a list \<Rightarrow> 'a list" where
  "remove_at i xs = take i xs @ drop (Suc i) xs"

definition resolveHopPeer :: "string \<Rightarrow> path_peer list option \<Rightarrow> resolved_hop" where
  "resolveHopPeer h candidates =
     (let repeaters = filter (\<lambda>c. pp_type c = Some ''REPEATER'') (nullish candidates []) in
      case repeaters of
        [] \<Rightarrow> \<lparr>rh_hash = h, rh_peer = None, rh_alternatives = []\<rparr>
      | a # bs \<Rightarrow> (let i = best_from a 0 1 bs in
          \<lparr>rh_hash = h, rh_peer = Some (repeaters ! i), rh_alternatives = remove_at i repeaters\<rparr>))"

section \<open>Which ends of a path we are on\<close>

record path_ends =
  weLead :: bool
  weTrail :: bool
  aheadOnly :: bool

definition pathEnds :: "string option \<Rightarrow> string option \<Rightarrow> path_ends" where
  "pathEnds direction route =
     (let ahead = (case route of None \<Rightarrow> False | Some r \<Rightarrow> str_includes r ''DIRECT'')
            \<and> direction \<noteq> Some ''tx'' in
      \<lparr>weLead = (direction = Some ''tx'' \<or> direction = Some ''echo''),
       weTrail = (direction \<noteq> Some ''tx'' \<and> \<not> ahead),
       aheadOnly = ahead\<rparr>)"

section \<open>Paths\<close>

function hop_chunks :: "nat \<Rightarrow> string \<Rightarrow> string list" where
  "hop_chunks step s =
     (if step = 0 \<or> length s < step then []
      else to_lower (take step s) # hop_chunks step (drop step s))"
  by pat_completeness auto
termination
  by (relation "measure (\<lambda>(step, s). length s)") auto

declare hop_chunks.simps [simp del]

definition hexToHopHashes :: "string \<Rightarrow> int \<Rightarrow> string list" where
  "hexToHopHashes pathHex hashSize =
     (let step = hashSize * 2 in if step \<le> 0 then [] else hop_chunks (nat step) pathHex)"

definition add_candidate ::
    "int \<Rightarrow> (string \<times> path_peer list) list \<Rightarrow> path_peer \<Rightarrow> (string \<times> path_peer list) list" where
  "add_candidate hashSize m p =
     (let k = to_lower (slice 0 (hashSize * 2) (pp_pubkey p)) in
      case map_of m k of
        Some ps \<Rightarrow> AList.update k (ps @ [p]) m
      | None \<Rightarrow> AList.update k [p] m)"

definition buildPeerCandidatesByHash :: "path_peer list \<Rightarrow> int \<Rightarrow> (string \<times> path_peer list) list" where
  "buildPeerCandidatesByHash peers hashSize = foldl (add_candidate hashSize) [] peers"

definition resolveHops :: "string \<Rightarrow> int option \<Rightarrow> path_peer list \<Rightarrow> resolved_hop list" where
  "resolveHops pathHex hashSize peers =
     (let size = max 1 (nullish hashSize 1); byHash = buildPeerCandidatesByHash peers size in
      map (\<lambda>h. resolveHopPeer h (map_of byHash h)) (hexToHopHashes pathHex size))"

definition hop_name :: "(string \<times> path_peer list) list \<Rightarrow> string \<Rightarrow> string" where
  \<comment> \<open>\<open>nameFor\<close>\<close>
  "hop_name byHash h =
     (let r = resolveHopPeer h (map_of byHash h) in
      case rh_peer r of
        None \<Rightarrow> h
      | Some p \<Rightarrow> if length (rh_alternatives r) > 0
          then pp_name p @ '' +'' @ show_nat (length (rh_alternatives r)) else pp_name p)"

definition hopDirectionLabel :: "string \<Rightarrow> int \<Rightarrow> path_peer list \<Rightarrow> string \<Rightarrow> int \<Rightarrow> string" where
  "hopDirectionLabel pathHex hashSize peers originName hop =
     (let hashes = hexToHopHashes pathHex hashSize;
          byHash = buildPeerCandidatesByHash peers hashSize in
      if hop < 1 \<or> int (length hashes) < hop then ''Hop '' @ show_int hop
      else (let to = hop_name byHash (hashes ! nat (hop - 1));
                from = (if hop = 1 then originName else hop_name byHash (hashes ! nat (hop - 2)))
            in from @ '' '' @ [glyph_right] @ '' '' @ to))"

section \<open>Metric filters\<close>

abbreviation FIRST_HOP_METRIC :: string where "FIRST_HOP_METRIC \<equiv> ''snr_hop1''"
abbreviation LAST_SNR_METRIC :: string where "LAST_SNR_METRIC \<equiv> ''last_snr''"

definition filterMetrics :: "(string \<times> rat) list \<Rightarrow> bool \<Rightarrow> bool \<Rightarrow> (string \<times> rat) list" where
  "filterMetrics metrics ignoreFirstHop hideLastSnr =
     (let out = (if ignoreFirstHop \<and> map_of metrics FIRST_HOP_METRIC \<noteq> None
                 then AList.delete FIRST_HOP_METRIC metrics else metrics) in
      if hideLastSnr \<and> map_of out LAST_SNR_METRIC \<noteq> None
      then AList.delete LAST_SNR_METRIC out else out)"

definition filterMetricNames :: "string list \<Rightarrow> bool \<Rightarrow> bool \<Rightarrow> string list" where
  "filterMetricNames names ignoreFirstHop hideLastSnr =
     (if \<not> ignoreFirstHop \<and> \<not> hideLastSnr then names
      else filter (\<lambda>n. \<not> (ignoreFirstHop \<and> n = FIRST_HOP_METRIC)
                     \<and> \<not> (hideLastSnr \<and> n = LAST_SNR_METRIC)) names)"

section \<open>Map links\<close>

text \<open>\<open>URLSearchParams\<close> writes \<open>application/x-www-form-urlencoded\<close>: a space is \<open>+\<close>, and only letters,
  digits and \<open>* - . _\<close> stay.\<close>

definition form_encode_char :: "char \<Rightarrow> string" where
  "form_encode_char c = (let n = of_char c :: nat in
     if c = CHR '' '' then ''+''
     else if is_word c \<or> c \<in> set ''*-.'' then [c]
     else if n < 128 then percent_byte n
     else percent_byte (192 + n div 64) @ percent_byte (128 + n mod 64))"

definition form_encode :: "(string \<times> string) list \<Rightarrow> string" where
  "form_encode ps = join ''&'' (map (\<lambda>(k, v).
     concat (map form_encode_char k) @ ''='' @ concat (map form_encode_char v)) ps)"

record map_path_link =
  l_path :: string
  l_hashSize :: "int option"
  l_origin :: "string option"
  l_direction :: "string option"
  l_route :: "string option"

definition opt_param :: "string \<Rightarrow> string option \<Rightarrow> (string \<times> string) list" where
  "opt_param k v = (if truthy_str v then [(k, the v)] else [])"

definition mapPathHref :: "map_path_link \<Rightarrow> string" where
  "mapPathHref l =
     (let q = [(''path'', l_path l)]
            @ (case l_hashSize l of None \<Rightarrow> []
               | Some n \<Rightarrow> if n \<noteq> 0 then [(''hs'', show_int n)] else [])
            @ opt_param ''origin'' (l_origin l) @ opt_param ''dir'' (l_direction l)
            @ opt_param ''route'' (l_route l)
      in ''/map?'' @ form_encode q)"

section \<open>Lemmas\<close>

subsection \<open>The hop resolver\<close>

lemma later_trans: "later_seen c b \<Longrightarrow> later_seen b a \<Longrightarrow> later_seen c a"
  unfolding later_seen_def by (rule str_less_trans)

lemma later_irrefl [simp]: "\<not> later_seen a a"
  by (simp add: later_seen_def)

text \<open>The loop invariant of the \<open>reduce\<close>: the value carried is the element at its position, and
  nothing seen so far was heard later.\<close>

lemma best_from_inv:
  assumes "ia < i" "i + length bs = length xs" "drop i xs = bs" "xs ! ia = a"
    "\<forall>j<i. \<not> later_seen (xs ! j) a"
  shows "best_from a ia i bs < length xs
     \<and> (\<forall>j<length xs. \<not> later_seen (xs ! j) (xs ! best_from a ia i bs))"
  using assms
proof (induction bs arbitrary: a ia i)
  case (Cons b bs)
  from Cons.prems(2,3) have b: "xs ! i = b" and bs: "drop (Suc i) xs = bs"
    by (metis nth_via_drop, metis Cons_nth_drop_Suc add_Suc_right length_Cons less_add_Suc1 list.inject)
  show ?case
  proof (cases "later_seen b a")
    case True
    have "\<forall>j<Suc i. \<not> later_seen (xs ! j) b"
      using Cons.prems(5) b True later_trans by (auto simp: less_Suc_eq)
    with Cons.IH [of i "Suc i" b] Cons.prems b bs True show ?thesis by simp
  next
    case False
    have "\<forall>j<Suc i. \<not> later_seen (xs ! j) a"
      using Cons.prems(5) b False by (auto simp: less_Suc_eq)
    with Cons.IH [of ia "Suc i" a] Cons.prems b bs False show ?thesis by simp
  qed
qed simp

lemma best_from_start:
  "best_from a 0 1 bs < length (a # bs)
     \<and> (\<forall>x\<in>set (a # bs). \<not> later_seen x ((a # bs) ! best_from a 0 1 bs))"
  using best_from_inv [of 0 1 bs "a # bs" a] by (metis One_nat_def drop0 drop_Suc_Cons in_set_conv_nth
      length_Cons later_irrefl less_one nth_Cons_0 plus_1_eq_Suc)

lemma mset_remove_at: "i < length xs \<Longrightarrow> add_mset (xs ! i) (mset (remove_at i xs)) = mset xs"
  by (metis add_mset_add_single id_take_nth_drop mset.simps(2) mset_append remove_at_def
      union_mset_add_mset_right)

definition repeaters_of :: "path_peer list option \<Rightarrow> path_peer list" where
  "repeaters_of candidates = filter (\<lambda>c. pp_type c = Some ''REPEATER'') (nullish candidates [])"

lemma resolveHopPeer_None:
  "rh_peer (resolveHopPeer h cs) = None \<longleftrightarrow> repeaters_of cs = []"
  by (auto simp: resolveHopPeer_def repeaters_of_def Let_def split: list.split)

lemma resolveHopPeer_hash [simp]: "rh_hash (resolveHopPeer h cs) = h"
  by (auto simp: resolveHopPeer_def Let_def split: list.split)

lemma resolveHopPeer_Some:
  assumes "rh_peer (resolveHopPeer h cs) = Some p"
  shows "p \<in> set (repeaters_of cs)"
    and "add_mset p (mset (rh_alternatives (resolveHopPeer h cs))) = mset (repeaters_of cs)"
    and "\<forall>q\<in>set (repeaters_of cs). \<not> later_seen q p"
proof -
  obtain a bs where r: "repeaters_of cs = a # bs"
    using assms resolveHopPeer_None [of h cs] by (cases "repeaters_of cs") auto
  define i where "i = best_from a 0 1 bs"
  from best_from_start [of a bs]
  have i: "i < length (a # bs)" "\<forall>x\<in>set (a # bs). \<not> later_seen x ((a # bs) ! i)"
    by (auto simp: i_def)
  from assms r have p: "p = (a # bs) ! i"
    and alt: "rh_alternatives (resolveHopPeer h cs) = remove_at i (a # bs)"
    by (simp_all add: resolveHopPeer_def repeaters_of_def i_def Let_def)
  show "p \<in> set (repeaters_of cs)" using i(1) p r by (metis nth_mem)
  show "add_mset p (mset (rh_alternatives (resolveHopPeer h cs))) = mset (repeaters_of cs)"
    using mset_remove_at [OF i(1)] p alt r by simp
  show "\<forall>q\<in>set (repeaters_of cs). \<not> later_seen q p" using i(2) p r by simp
qed

subsection \<open>Cutting a path\<close>

lemma hop_chunks_Nil: "step = 0 \<or> length s < step \<Longrightarrow> hop_chunks step s = []"
  by (subst hop_chunks.simps) simp

lemma hop_chunks_Cons:
  "step \<noteq> 0 \<Longrightarrow> step \<le> length s
     \<Longrightarrow> hop_chunks step s = to_lower (take step s) # hop_chunks step (drop step s)"
  by (subst hop_chunks.simps) simp

lemma length_hop_chunks: "0 < step \<Longrightarrow> length (hop_chunks step s) = length s div step"
proof (induction step s rule: hop_chunks.induct)
  case (1 step s)
  show ?case
  proof (cases "length s < step")
    case True
    then show ?thesis by (simp add: hop_chunks_Nil)
  next
    case False
    with 1 show ?thesis by (simp add: hop_chunks_Cons le_div_geq)
  qed
qed

lemma hop_chunks_nth:
  "0 < step \<Longrightarrow> i < length s div step
     \<Longrightarrow> hop_chunks step s ! i = to_lower (take step (drop (i * step) s))"
proof (induction step s arbitrary: i rule: hop_chunks.induct)
  case (1 step s)
  show ?case
  proof (cases "length s < step")
    case True
    with "1.prems" show ?thesis by simp
  next
    case False
    then have "length s div step = Suc ((length s - step) div step)"
      using "1.prems"(1) by (simp add: le_div_geq)
    with 1 False show ?thesis
      by (cases i) (simp_all add: hop_chunks_Cons add.commute)
  qed
qed

lemma concat_hop_chunks:
  "0 < step \<Longrightarrow> concat (hop_chunks step s) = to_lower (take (length s div step * step) s)"
proof (induction step s rule: hop_chunks.induct)
  case (1 step s)
  show ?case
  proof (cases "length s < step")
    case True
    then show ?thesis by (simp add: hop_chunks_Nil to_lower_def)
  next
    case False
    then have "length s div step = Suc ((length s - step) div step)"
      using "1.prems" by (simp add: le_div_geq)
    with 1 False show ?thesis
      by (simp add: hop_chunks_Cons take_add flip: to_lower_append)
  qed
qed

subsection \<open>The candidate index\<close>

definition peer_key :: "int \<Rightarrow> path_peer \<Rightarrow> string" where
  "peer_key hashSize p = to_lower (slice 0 (hashSize * 2) (pp_pubkey p))"

definition group_of :: "int \<Rightarrow> path_peer list \<Rightarrow> string \<Rightarrow> path_peer list option" where
  "group_of n ps k = (let g = filter (\<lambda>p. peer_key n p = k) ps in if g = [] then None else Some g)"

lemma add_candidate_lookup:
  "map_of (add_candidate n m p) k =
     (if k = peer_key n p then Some (nullish (map_of m k) [] @ [p]) else map_of m k)"
  by (auto simp: add_candidate_def peer_key_def Let_def update_conv' split: option.split)

lemma buildPeerCandidates_lookup:
  "map_of (buildPeerCandidatesByHash ps n) k = group_of n ps k"
proof (induction ps rule: rev_induct)
  case Nil
  show ?case by (simp add: buildPeerCandidatesByHash_def group_of_def)
next
  case (snoc p ps)
  then show ?case
    by (auto simp: buildPeerCandidatesByHash_def add_candidate_lookup group_of_def Let_def)
qed

lemma candidates_sound:
  assumes "p \<in> set (repeaters_of (map_of (buildPeerCandidatesByHash ps n) k))"
  shows "p \<in> set ps \<and> peer_key n p = k \<and> pp_type p = Some ''REPEATER''"
  using assms
  by (auto simp: buildPeerCandidates_lookup repeaters_of_def group_of_def Let_def split: if_splits)

lemma repeaters_of_group:
  "repeaters_of (map_of (buildPeerCandidatesByHash ps n) k)
     = filter (\<lambda>p. peer_key n p = k \<and> pp_type p = Some ''REPEATER'') ps"
  by (simp add: buildPeerCandidates_lookup repeaters_of_def group_of_def Let_def filter_empty_conv conj_commute)

subsection \<open>Metric filters\<close>

lemma delete_keys_filter:
  "map fst (AList.delete k xs) = filter (\<lambda>n. n \<noteq> k) (map fst xs)"
  by (simp add: delete_keys removeAll_filter_not_eq eq_commute)

lemma absent_key_filter:
  "map_of xs k = None \<Longrightarrow> filter (\<lambda>n. n \<noteq> k) (map fst xs) = map fst xs"
  by (rule filter_True) (auto simp: map_of_eq_None_iff)

definition drop_metric :: "bool \<Rightarrow> string \<Rightarrow> (string \<times> rat) list \<Rightarrow> (string \<times> rat) list" where
  "drop_metric b k xs = (if b \<and> map_of xs k \<noteq> None then AList.delete k xs else xs)"

lemma drop_metric_keys:
  "map fst (drop_metric b k xs) = filter (\<lambda>n. \<not> (b \<and> n = k)) (map fst xs)"
  by (cases b; cases "map_of xs k")
    (simp_all add: drop_metric_def delete_keys_filter absent_key_filter)

lemma filterMetrics_drop:
  "filterMetrics ms i h = drop_metric h LAST_SNR_METRIC (drop_metric i FIRST_HOP_METRIC ms)"
  by (simp add: filterMetrics_def drop_metric_def Let_def)

lemma filterMetrics_keys:
  "map fst (filterMetrics ms i h) = filterMetricNames (map fst ms) i h"
  by (auto simp: filterMetrics_drop drop_metric_keys filterMetricNames_def filter_True
      intro!: filter_cong)

lemma filterMetrics_values:
  "k \<in> set (map fst (filterMetrics ms i h)) \<Longrightarrow> map_of (filterMetrics ms i h) k = map_of ms k"
proof -
  have keep: "\<not> (b \<and> k = n) \<Longrightarrow> map_of (drop_metric b n xs) k = map_of xs k" for b n xs
    by (auto simp: drop_metric_def)
  assume "k \<in> set (map fst (filterMetrics ms i h))"
  then have "\<not> (h \<and> k = LAST_SNR_METRIC)" and "\<not> (i \<and> k = FIRST_HOP_METRIC)"
    by (auto simp only: filterMetrics_drop drop_metric_keys set_filter mem_Collect_eq)
  note this [THEN keep]
  then show ?thesis by (simp only: filterMetrics_drop)
qed

section \<open>Properties\<close>

text \<open>A path's hex is cut into consecutive hop hashes: hash i is the lower-cased i-th segment of
  twice the hash size, every whole segment is there, and together they spell the path up to a last incomplete
  segment.\<close>
theorem hop_hashes_cut:
  assumes "0 < n"
  shows "length (hexToHopHashes s (int n)) = length s div (2 * n)
    \<and> (\<forall>i < length s div (2 * n).
         hexToHopHashes s (int n) ! i = to_lower (take (2 * n) (drop (i * (2 * n)) s)))
    \<and> concat (hexToHopHashes s (int n)) = to_lower (take (length s div (2 * n) * (2 * n)) s)"
proof -
  have "hexToHopHashes s (int n) = hop_chunks (2 * n) s"
    using assms by (simp add: hexToHopHashes_def nat_mult_distrib mult.commute)
  with assms show ?thesis
    by (simp add: length_hop_chunks hop_chunks_nth concat_hop_chunks)
qed

theorem hop_hashes_cut_witness:
  "length (hexToHopHashes ''AB12c'' (int 1)) = 2
    \<and> concat (hexToHopHashes ''AB12c'' (int 1)) = to_lower ''AB12''"
  using hop_hashes_cut [of 1 "''AB12c''"] by simp

definition hop_sound :: "int \<Rightarrow> path_peer list \<Rightarrow> resolved_hop \<Rightarrow> bool" where
  "hop_sound n peers r =
     (let matching = filter (\<lambda>p. to_lower (slice 0 (n * 2) (pp_pubkey p)) = rh_hash r
                               \<and> pp_type p = Some ''REPEATER'') peers in
      case rh_peer r of
        None \<Rightarrow> matching = [] \<and> rh_alternatives r = []
      | Some p \<Rightarrow> p \<in> set matching \<and> (\<forall>q\<in>set matching. \<not> later_seen q p)
          \<and> add_mset p (mset (rh_alternatives r)) = mset matching)"

lemma resolveHop_sound:
  "hop_sound n peers (resolveHopPeer h (map_of (buildPeerCandidatesByHash peers n) h))"
proof -
  define cs where "cs = map_of (buildPeerCandidatesByHash peers n) h"
  have m: "filter (\<lambda>p. to_lower (slice 0 (n * 2) (pp_pubkey p)) = h
      \<and> pp_type p = Some ''REPEATER'') peers = repeaters_of cs"
    by (simp add: cs_def repeaters_of_group peer_key_def)
  show ?thesis
  proof (cases "rh_peer (resolveHopPeer h cs)")
    case None
    then have "repeaters_of cs = []" by (simp add: resolveHopPeer_None)
    moreover from this have "rh_alternatives (resolveHopPeer h cs) = []"
      by (simp add: resolveHopPeer_def repeaters_of_def)
    ultimately show ?thesis using None by (simp add: hop_sound_def m Let_def flip: cs_def)
  next
    case (Some p)
    from resolveHopPeer_Some [OF Some] Some show ?thesis
      by (simp add: hop_sound_def m Let_def flip: cs_def)
  qed
qed

text \<open>Every hop a path resolves to a peer is one the packet may really have used: the peer is one of the
  known peers, a repeater, its key starts with the hop's hash, no other such repeater was heard
  more recently, and the alternatives are exactly the other repeaters with that hash. A hop stays unnamed only
  where no known repeater has the hash.\<close>
theorem resolved_hops_sound:
  "list_all (hop_sound (max 1 (nullish hashSize 1)) peers) (resolveHops pathHex hashSize peers)
     \<and> map rh_hash (resolveHops pathHex hashSize peers)
         = hexToHopHashes pathHex (max 1 (nullish hashSize 1))"
  by (simp add: resolveHops_def Let_def list_all_iff resolveHop_sound comp_def)

definition sample_peers :: "path_peer list" where
  "sample_peers =
     [\<lparr>pp_pubkey = ''ab01'', pp_name = ''phone'', pp_type = Some ''CHAT'', pp_lastSeen = Some ''9''\<rparr>,
      \<lparr>pp_pubkey = ''AB02'', pp_name = ''hill'', pp_type = Some ''REPEATER'', pp_lastSeen = Some ''3''\<rparr>,
      \<lparr>pp_pubkey = ''ab03'', pp_name = ''tower'', pp_type = Some ''REPEATER'', pp_lastSeen = Some ''5''\<rparr>]"

theorem resolved_hops_example:
  "map rh_peer (resolveHops ''AB7f'' (Some 1) sample_peers) = [Some (sample_peers ! 2), None]"
  by code_simp

text \<open>The two metric filters agree: hiding readings from a record of metrics leaves exactly the names that hiding them
  from the list of names leaves, in the same order.\<close>
theorem metric_filters_agree:
  "map fst (filterMetrics metrics ignoreFirstHop hideLastSnr)
     = filterMetricNames (map fst metrics) ignoreFirstHop hideLastSnr"
  by (rule filterMetrics_keys)

end
