(* ===== verification/CompanionRef.thy ===== *)
theory CompanionRef
  imports Prelude Http
begin

text \<open>
  \<open>lib/companionRef.ts\<close>, \<open>lib/routes.ts\<close> and the reference resolution of \<open>hooks/useCompanions.ts\<close>:
  a companion's URL token is its id and a slug of its name. The id decides, the slug is decoration.
\<close>

record companion =
  cid :: nat
  cname :: string

section \<open>The slug\<close>

definition is_slug_char :: "char \<Rightarrow> bool" where
  "is_slug_char c \<longleftrightarrow> is_lower c \<or> is_digit c"

fun collapse :: "string \<Rightarrow> string" where  \<comment> \<open>\<open>.replace(/[^a-z0-9]+/g, "-")\<close>\<close>
  "collapse [] = []"
| "collapse [c] = (if is_slug_char c then [c] else ''-'')"
| "collapse (c # d # s) =
     (if is_slug_char c then c # collapse (d # s)
      else if is_slug_char d then CHR ''-'' # collapse (d # s)
      else collapse (d # s))"

definition strip_dashes :: "string \<Rightarrow> string" where  \<comment> \<open>\<open>.replace(/^-+|-+$/g, "")\<close>\<close>
  "strip_dashes s = rev (dropWhile (\<lambda>c. c = CHR ''-'') (rev (dropWhile (\<lambda>c. c = CHR ''-'') s)))"

definition slug :: "string \<Rightarrow> string" where
  "slug nm = strip_dashes (collapse (to_lower nm))"

definition companionRef :: "companion \<Rightarrow> string" where
  "companionRef c = (let s = slug (cname c) in
     if s \<noteq> [] then show_nat (cid c) @ ''-'' @ s else show_nat (cid c))"

section \<open>Reading a token\<close>

text \<open>The pattern \<open>^(\d+)(?:-|$)\<close>: a shorter run of digits would leave a digit where the dash or the end has to be.\<close>

definition companionIdFromRef :: "string \<Rightarrow> nat option" where
  "companionIdFromRef r =
     (let ds = takeWhile is_digit r; rest = dropWhile is_digit r in
      if ds \<noteq> [] \<and> (rest = [] \<or> hd rest = CHR ''-'') then Some (parse_digits ds) else None)"

definition companionPath :: "companion \<Rightarrow> string \<Rightarrow> string" where
  "companionPath c rest = ''/companions/'' @ companionRef c @ rest"

definition findByRef :: "string \<Rightarrow> companion list \<Rightarrow> companion option" where
  "findByRef seg companions =
     (case find (\<lambda>c. cname c = seg) companions of
        Some named \<Rightarrow> Some named
      | None \<Rightarrow> (case companionIdFromRef seg of
          None \<Rightarrow> None
        | Some i \<Rightarrow> find (\<lambda>c. cid c = i) companions))"

record companion_ref =
  cr_ref :: string
  cr_id :: "nat option"
  cr_name :: string

definition useCompanionRef :: "string option \<Rightarrow> companion list \<Rightarrow> companion_ref" where
  "useCompanionRef r companions =
     (let seg = nullish r '''' in
      case findByRef seg companions of
        Some c \<Rightarrow> \<lparr>cr_ref = seg, cr_id = Some (cid c), cr_name = cname c\<rparr>
      | None \<Rightarrow> (let i = companionIdFromRef seg in
          \<lparr>cr_ref = seg, cr_id = i, cr_name = (if i = None then seg else '''')\<rparr>))"

section \<open>Detail pages\<close>

definition adminPage :: "string \<Rightarrow> string option" where
  "adminPage t = map_of [(''REPEATER'', ''repeaters''), (''ROOM'', ''rooms''), (''SENSOR'', ''sensors'')] t"

definition contactDetailPath :: "string \<Rightarrow> string \<Rightarrow> string option \<Rightarrow> string" where
  "contactDetailPath companion pk peerType =
     (let page = nullish (adminPage (to_upper (nullish peerType ''''))) ''contacts'' in
      ''/companions/'' @ encode_uri companion @ ''/'' @ page @ ''/'' @ pk)"

section \<open>Lemmas\<close>

lemma takeWhile_show_nat_dash:
  "takeWhile is_digit (show_nat n @ CHR ''-'' # s) = show_nat n"
  "dropWhile is_digit (show_nat n @ CHR ''-'' # s) = CHR ''-'' # s"
proof -
  have "\<not> is_digit CHR ''-''" by (simp add: is_digit_def)
  moreover have "\<And>c. c \<in> set (show_nat n) \<Longrightarrow> is_digit c" by (rule show_nat_set)
  ultimately show "takeWhile is_digit (show_nat n @ CHR ''-'' # s) = show_nat n"
    "dropWhile is_digit (show_nat n @ CHR ''-'' # s) = CHR ''-'' # s"
    by (simp_all add: takeWhile_append2 dropWhile_append2)
qed

lemma takeWhile_show_nat:
  "takeWhile is_digit (show_nat n) = show_nat n" "dropWhile is_digit (show_nat n) = []"
  using show_nat_set [of _ n] by (simp_all add: takeWhile_eq_all_conv)

lemma show_nat_all_digits [simp]: "Ball (set (show_nat n)) is_digit"
  by (auto dest: show_nat_set)

lemma companionIdFromRef_companionRef: "companionIdFromRef (companionRef c) = Some (cid c)"
  by (simp add: companionIdFromRef_def companionRef_def Let_def takeWhile_show_nat_dash takeWhile_show_nat)

lemma find_unique:
  assumes "distinct (map f xs)" "x \<in> set xs"
  shows "find (\<lambda>y. f y = f x) xs = Some x"
  using assms by (induction xs) (auto simp: image_iff)

lemma find_None_all: "(\<And>x. x \<in> set xs \<Longrightarrow> \<not> P x) \<Longrightarrow> find P xs = None"
  by (simp add: find_None_iff)

lemma findByRef_companionRef:
  assumes "distinct (map cid cs)" "c \<in> set cs" "\<forall>d\<in>set cs. cname d \<noteq> companionRef c"
  shows "findByRef (companionRef c) cs = Some c"
proof -
  have "find (\<lambda>d. cname d = companionRef c) cs = None" using assms(3) by (simp add: find_None_all)
  then show ?thesis
    using find_unique [OF assms(1,2)] by (simp add: findByRef_def companionIdFromRef_companionRef)
qed

lemma findByRef_exact_name:
  "findByRef (cname c) (pre @ c # post) = Some (if \<exists>d\<in>set pre. cname d = cname c
     then the (find (\<lambda>d. cname d = cname c) pre) else c)"
proof -
  have "find (\<lambda>d. cname d = cname c) (pre @ c # post)
      = Some (if \<exists>d\<in>set pre. cname d = cname c then the (find (\<lambda>d. cname d = cname c) pre) else c)"
    by (induction pre) auto
  then show ?thesis by (simp add: findByRef_def)
qed

text \<open>A slug is readable: lower-case letters, digits and single dashes, none of them at an end.\<close>

lemma set_collapse: "x \<in> set (collapse s) \<Longrightarrow> is_slug_char x \<or> x = CHR ''-''"
  by (induction s rule: collapse.induct) (auto split: if_splits)

lemma set_strip: "x \<in> set (strip_dashes s) \<Longrightarrow> x \<in> set s"
  by (metis set_dropWhileD set_rev strip_dashes_def)

lemma strip_ends:
  "strip_dashes s \<noteq> [] \<Longrightarrow> hd (strip_dashes s) \<noteq> CHR ''-'' \<and> last (strip_dashes s) \<noteq> CHR ''-''"
proof -
  let ?P = "\<lambda>c. c = CHR ''-''"
  define t where "t = dropWhile ?P s"
  assume "strip_dashes s \<noteq> []"
  then have u: "dropWhile ?P (rev t) \<noteq> []" by (simp add: strip_dashes_def t_def)
  then have l: "hd (dropWhile ?P (rev t)) \<noteq> CHR ''-''" by (metis (mono_tags) hd_dropWhile)
  obtain v where v: "rev t = v @ dropWhile ?P (rev t)" by (metis takeWhile_dropWhile_id)
  then have t: "t = rev (dropWhile ?P (rev t)) @ rev v" by (metis rev_append rev_rev_ident)
  have "t \<noteq> []" using u by auto
  then have "hd t \<noteq> CHR ''-''" unfolding t_def by (metis (mono_tags) hd_dropWhile)
  moreover have "hd t = hd (rev (dropWhile ?P (rev t)))" using t u by (metis hd_append2 rev_is_Nil_conv)
  ultimately show ?thesis
    using l u by (simp add: strip_dashes_def last_rev flip: t_def)
qed

lemma slug_readable:
  "list_all (\<lambda>x. is_slug_char x \<or> x = CHR ''-'') (slug nm)
     \<and> (slug nm \<noteq> [] \<longrightarrow> hd (slug nm) \<noteq> CHR ''-'' \<and> last (slug nm) \<noteq> CHR ''-'')"
  using strip_ends [of "collapse (to_lower nm)"] set_strip set_collapse
  by (fastforce simp: slug_def list_all_iff)

section \<open>Properties\<close>

text \<open>A companion's link survives a rename: whatever the name, the id is read back from the token the link carries, so a
  token made under one name and read under another still gives the same id.\<close>
theorem ref_roundtrip:
  "companionIdFromRef (companionRef \<lparr>cid = i, cname = nm\<rparr>) = Some i"
  using companionIdFromRef_companionRef [of "\<lparr>cid = i, cname = nm\<rparr>"] by simp

text \<open>Resolving a companion's own token among companions with distinct ids finds that companion, unless some companion's
  name is literally the token; the page then shows its current name and id.\<close>
theorem ref_resolves:
  assumes "distinct (map cid cs)" and "c \<in> set cs" and "\<forall>d\<in>set cs. cname d \<noteq> companionRef c"
  shows "useCompanionRef (Some (companionRef c)) cs
     = \<lparr>cr_ref = companionRef c, cr_id = Some (cid c), cr_name = cname c\<rparr>"
  by (simp add: useCompanionRef_def findByRef_companionRef [OF assms])

theorem ref_resolves_witness:
  "useCompanionRef (Some (companionRef \<lparr>cid = 7, cname = ''Base Camp!''\<rparr>))
      [\<lparr>cid = 3, cname = ''7''\<rparr>, \<lparr>cid = 7, cname = ''Base Camp!''\<rparr>]
     = \<lparr>cr_ref = ''7-base-camp'', cr_id = Some 7, cr_name = ''Base Camp!''\<rparr>"
proof -
  have r: "companionRef \<lparr>cid = 7, cname = ''Base Camp!''\<rparr> = ''7-base-camp''" by code_simp
  show ?thesis
    using ref_resolves [of "[\<lparr>cid = 3, cname = ''7''\<rparr>, \<lparr>cid = 7, cname = ''Base Camp!''\<rparr>]"
        "\<lparr>cid = 7, cname = ''Base Camp!''\<rparr>"] by (simp add: r)
qed

end
