(* ===== verification/CompanionsCache.thy ===== *)
theory CompanionsCache
  imports CompanionRef
begin

text \<open>
  The companion list every page shares (\<open>hooks/useCompanions.ts\<close>) and the notice that it changed
  (\<open>lib/companionsChanged.ts\<close>): a module-level cache, at most one request that new mounts join, and the
  lists the mounted pages show. A notice makes every mounted page start a request of its own.
\<close>

record companions =
  cc_cache :: "companion list option"
  cc_inflight :: "nat option"                 \<comment> \<open>the request \<open>inflight\<close> holds\<close>
  cc_next :: nat                              \<comment> \<open>requests made so far\<close>
  cc_shown :: "(nat \<times> companion list) list"  \<comment> \<open>the subscribed pages and what each shows\<close>
  cc_waits :: "(nat \<times> nat) list"             \<comment> \<open>\<open>fetchCompanions().then(update)\<close>: request, page\<close>

definition companions_start :: companions where
  "companions_start = \<lparr>cc_cache = None, cc_inflight = None, cc_next = 0, cc_shown = [], cc_waits = []\<rparr>"

definition fetchCompanions :: "companions \<Rightarrow> companions" where
  "fetchCompanions st =
     (case cc_inflight st of
        Some n \<Rightarrow> st
      | None \<Rightarrow> st\<lparr>cc_inflight := Some (cc_next st), cc_next := cc_next st + 1\<rparr>)"

definition mount :: "nat \<Rightarrow> companions \<Rightarrow> companions" where
  "mount h st =
     (let st1 = fetchCompanions (st\<lparr>cc_shown := AList.update h (nullish (cc_cache st) []) (cc_shown st)\<rparr>)
      in st1\<lparr>cc_waits := (the (cc_inflight st1), h) # cc_waits st1\<rparr>)"

definition unmount :: "nat \<Rightarrow> companions \<Rightarrow> companions" where
  "unmount h st = st\<lparr>cc_shown := AList.delete h (cc_shown st)\<rparr>"

definition refreshCompanions :: "companions \<Rightarrow> companions" where
  "refreshCompanions st = fetchCompanions (st\<lparr>cc_inflight := None\<rparr>)"

definition notifyCompanionsChanged :: "companions \<Rightarrow> companions" where
  "notifyCompanionsChanged st = foldl (\<lambda>s h. refreshCompanions s) st (cc_shown st)"

definition show_to :: "(nat \<Rightarrow> bool) \<Rightarrow> companion list \<Rightarrow> companions \<Rightarrow> companions" where
  "show_to p cs st = st\<lparr>cc_shown := map (\<lambda>(h, shown). (h, if p h then cs else shown)) (cc_shown st)\<rparr>"

text \<open>A status outside 200..299 resolves to the empty list; \<open>None\<close> is a rejected fetch or body.\<close>

datatype roster_answer = RosterFailed | RosterRefused | Roster "companion list option"

definition settled :: "nat \<Rightarrow> roster_answer \<Rightarrow> companions \<Rightarrow> companions" where
  "settled n out st =
     (let waiting = (\<lambda>h. (n, h) \<in> set (cc_waits st));
          take = (\<lambda>cs. show_to waiting cs (show_to (\<lambda>_. True) cs (st\<lparr>cc_cache := Some cs\<rparr>)))
      in (case out of
           Roster cs \<Rightarrow> take (nullish cs [])
         | RosterRefused \<Rightarrow> take []
         | RosterFailed \<Rightarrow> show_to waiting (nullish (cc_cache st) []) st)\<lparr>cc_inflight := None\<rparr>)"

datatype roster_event = Mounted nat | Unmounted nat | Changed | Settled nat roster_answer

fun roster_step :: "companions \<Rightarrow> roster_event \<Rightarrow> companions" where
  "roster_step st (Mounted h) = mount h st"
| "roster_step st (Unmounted h) = unmount h st"
| "roster_step st Changed = notifyCompanionsChanged st"
| "roster_step st (Settled n out) = settled n out st"

definition roster_run :: "roster_event list \<Rightarrow> companions" where
  "roster_run evs = foldl roster_step companions_start evs"

section \<open>Lemmas\<close>

definition agree :: "companions \<Rightarrow> bool" where
  "agree st \<longleftrightarrow> list_all (\<lambda>(h, shown). shown = nullish (cc_cache st) []) (cc_shown st)"

lemma agree_fetch [simp]: "agree (fetchCompanions st) = agree st"
  by (simp add: fetchCompanions_def agree_def split: option.split)

lemma agree_inflight [simp]: "agree (st\<lparr>cc_inflight := x\<rparr>) = agree st" "agree (st\<lparr>cc_waits := w\<rparr>) = agree st"
  by (simp_all add: agree_def)

lemma agree_refresh [simp]: "agree (refreshCompanions st) = agree st"
  by (simp add: refreshCompanions_def)

lemma agree_notify [simp]: "agree (notifyCompanionsChanged st) = agree st"
proof -
  have "agree (foldl (\<lambda>s h. refreshCompanions s) st xs) = agree st" for xs :: "(nat \<times> companion list) list"
    by (induction xs arbitrary: st) simp_all
  then show ?thesis by (simp add: notifyCompanionsChanged_def)
qed

lemma list_all_alist_update: "list_all (\<lambda>(h, v). P v) al \<Longrightarrow> P v \<Longrightarrow> list_all (\<lambda>(h, v). P v) (AList.update h v al)"
  by (induction al) auto

lemma list_all_alist_delete: "list_all P al \<Longrightarrow> list_all P (AList.delete h al)"
  by (induction al) auto

lemma agree_mount: "agree st \<Longrightarrow> agree (mount h st)"
proof -
  assume "agree st"
  then have "agree (st\<lparr>cc_shown := AList.update h (nullish (cc_cache st) []) (cc_shown st)\<rparr>)"
    by (simp add: agree_def list_all_alist_update [where P = "\<lambda>v. v = nullish (cc_cache st) []"])
  then show ?thesis by (simp add: mount_def Let_def)
qed

lemma agree_unmount: "agree st \<Longrightarrow> agree (unmount h st)"
  by (simp add: agree_def unmount_def list_all_alist_delete)

lemma agree_settled: "agree st \<Longrightarrow> agree (settled n out st)"
  by (cases out) (auto simp: agree_def settled_def show_to_def Let_def list_all_iff nullish_def)

lemma agree_step: "agree st \<Longrightarrow> agree (roster_step st ev)"
  by (cases ev) (simp_all add: agree_mount agree_unmount agree_settled)

section \<open>Properties\<close>

text \<open>C40: every mounted page shows the same companion list, the cached one (or none while there is none),
  whatever mounts, renames and answers there were in what order.\<close>

theorem pages_agree: "agree (roster_run evs)"
proof -
  have "agree st \<Longrightarrow> agree (foldl roster_step st evs)" for st
    by (induction evs arbitrary: st) (simp_all add: agree_step)
  moreover have "agree companions_start" by (simp add: agree_def companions_start_def)
  ultimately show ?thesis by (simp add: roster_run_def)
qed

text \<open>A rename starts a new request without forgetting the old one: the old answer, arriving last, puts the
  old name back.\<close>

lemma old_name_returns:
  "map snd (cc_shown (roster_run [Mounted 0, Changed, Settled 1 (Roster (Some [\<lparr>cid = 1, cname = ''new''\<rparr>])),
      Settled 0 (Roster (Some [\<lparr>cid = 1, cname = ''old''\<rparr>]))])) = [[\<lparr>cid = 1, cname = ''old''\<rparr>]]"
  by code_simp

text \<open>A rejected request keeps what was shown; one the server refuses empties every page.\<close>

lemma refused_empties:
  "map snd (cc_shown (roster_run [Mounted 0, Settled 0 (Roster (Some [\<lparr>cid = 1, cname = ''home''\<rparr>])),
      Changed, Settled 1 RosterRefused])) = [[]]"
  by code_simp

end
