(* ===== verification/Dates.thy ===== *)
theory Dates
  imports Prelude
begin

text \<open>
  \<open>Date\<close>: the ECMAScript date-time format, read as milliseconds since 1970 UTC. \<open>None\<close> stands for
  \<open>NaN\<close>, the time of a string in no such form. The server writes every time stamp in this form
  (RFC 3339 with any number of fraction digits; the digits past the third are dropped).
\<close>

definition days_from_civil :: "int \<Rightarrow> int \<Rightarrow> int \<Rightarrow> int" where
  "days_from_civil y m d =
     (let y' = (if m \<le> 2 then y - 1 else y); era = y' div 400; yoe = y' mod 400;
          mp = (if m > 2 then m - 3 else m + 9); doy = (153 * mp + 2) div 5 + d - 1;
          doe = yoe * 365 + yoe div 4 - yoe div 100 + doy
      in era * 146097 + doe - 719468)"

definition leap_year :: "int \<Rightarrow> bool" where
  "leap_year y \<longleftrightarrow> 4 dvd y \<and> (\<not> 100 dvd y \<or> 400 dvd y)"

definition days_in_month :: "int \<Rightarrow> int \<Rightarrow> int" where
  "days_in_month y m =
     (if m = 2 then (if leap_year y then 29 else 28) else if m \<in> {4, 6, 9, 11} then 30 else 31)"

text \<open>A field of exactly \<open>n\<close> digits, then what follows it.\<close>

definition digits_field :: "nat \<Rightarrow> string \<Rightarrow> (int \<times> string) option" where
  "digits_field n s =
     (if n \<le> length s \<and> list_all is_digit (take n s)
      then Some (int (parse_digits (take n s)), drop n s) else None)"

fun expect :: "char \<Rightarrow> string \<Rightarrow> string option" where
  "expect c [] = None"
| "expect c (d # s) = (if c = d then Some s else None)"

definition parse_fraction :: "string \<Rightarrow> (int \<times> string) option" where
  \<comment> \<open>an optional \<open>.ddd\<close> as milliseconds\<close>
  "parse_fraction s =
     (case expect CHR ''.'' s of
        None \<Rightarrow> Some (0, s)
      | Some t \<Rightarrow>
          (let ds = takeWhile is_digit t in
           if ds = [] then None
           else Some (int (parse_digits (take 3 (ds @ ''000''))), drop (length ds) t)))"

definition parse_zone :: "string \<Rightarrow> int option" where
  \<comment> \<open>\<open>Z\<close> or an offset, as minutes east\<close>
  "parse_zone s =
     (case s of
        [] \<Rightarrow> None
      | c # t \<Rightarrow>
          if c = CHR ''Z'' then (if t = [] then Some 0 else None)
          else if c = CHR ''+'' \<or> c = CHR ''-'' then
            (case digits_field 2 t of None \<Rightarrow> None
             | Some (h, t1) \<Rightarrow> (case expect CHR '':'' t1 of None \<Rightarrow> None
             | Some t2 \<Rightarrow> (case digits_field 2 t2 of None \<Rightarrow> None
             | Some (m, t3) \<Rightarrow>
                 if t3 = [] \<and> h \<le> 23 \<and> m \<le> 59
                 then Some ((if c = CHR ''-'' then - 1 else 1) * (60 * h + m)) else None)))
          else None)"

definition parse_clock :: "string \<Rightarrow> int option" where
  \<comment> \<open>\<open>THH:mm:ss[.f]zone\<close>, as milliseconds after the day's start in UTC\<close>
  "parse_clock s =
     (case expect CHR ''T'' s of None \<Rightarrow> None
      | Some s0 \<Rightarrow> (case digits_field 2 s0 of None \<Rightarrow> None
      | Some (h, s1) \<Rightarrow> (case expect CHR '':'' s1 of None \<Rightarrow> None
      | Some s2 \<Rightarrow> (case digits_field 2 s2 of None \<Rightarrow> None
      | Some (mi, s3) \<Rightarrow> (case expect CHR '':'' s3 of None \<Rightarrow> None
      | Some s4 \<Rightarrow> (case digits_field 2 s4 of None \<Rightarrow> None
      | Some (sec, s5) \<Rightarrow> (case parse_fraction s5 of None \<Rightarrow> None
      | Some (ms, s6) \<Rightarrow> (case parse_zone s6 of None \<Rightarrow> None
      | Some z \<Rightarrow>
          if h \<le> 23 \<and> mi \<le> 59 \<and> sec \<le> 59
          then Some (((h * 60 + mi - z) * 60 + sec) * 1000 + ms) else None))))))))"

definition date_ms :: "string \<Rightarrow> int option" where
  \<comment> \<open>\<open>new Date(s).getTime()\<close>; a date alone is its midnight in UTC\<close>
  "date_ms s =
     (case digits_field 4 s of None \<Rightarrow> None
      | Some (y, s1) \<Rightarrow> (case expect CHR ''-'' s1 of None \<Rightarrow> None
      | Some s2 \<Rightarrow> (case digits_field 2 s2 of None \<Rightarrow> None
      | Some (m, s3) \<Rightarrow> (case expect CHR ''-'' s3 of None \<Rightarrow> None
      | Some s4 \<Rightarrow> (case digits_field 2 s4 of None \<Rightarrow> None
      | Some (d, s5) \<Rightarrow>
          if 1 \<le> m \<and> m \<le> 12 \<and> 1 \<le> d \<and> d \<le> days_in_month y m then
            (if s5 = [] then Some (days_from_civil y m d * 86400000)
             else map_option (\<lambda>t. days_from_civil y m d * 86400000 + t) (parse_clock s5))
          else None)))))"

lemmas date_defs = date_ms_def parse_clock_def parse_zone_def parse_fraction_def digits_field_def
  days_from_civil_def days_in_month_def leap_year_def

lemmas [js_eval] = date_defs

lemma date_ms_epoch: "date_ms ''1970-01-01T00:00:00Z'' = Some 0"
  by code_simp

lemma date_ms_example: "date_ms ''2024-02-29T12:34:56.789+01:00'' = Some 1709206496789"
  by code_simp

lemma date_ms_empty [simp]: "date_ms [] = None"
  by (simp add: date_ms_def digits_field_def)

end
