(* ===== verification/JsSort.thy ===== *)
theory JsSort
  imports Prelude
begin

text \<open>
  \<open>Array.prototype.sort\<close> with a comparator: a stable sort. The comparator is the interface: a
  client gets the sort's laws (a permutation, in order, ties as they were) from the comparator
  being a consistent total preorder, which is what the language asks of it.
\<close>

fun insert_by :: "('a \<Rightarrow> 'a \<Rightarrow> rat) \<Rightarrow> 'a \<Rightarrow> 'a list \<Rightarrow> 'a list" where
  "insert_by cmp x [] = [x]"
| "insert_by cmp x (y # ys) = (if cmp x y \<le> 0 then x # y # ys else y # insert_by cmp x ys)"

definition js_sort :: "('a \<Rightarrow> 'a \<Rightarrow> rat) \<Rightarrow> 'a list \<Rightarrow> 'a list" where
  "js_sort cmp xs = foldr (insert_by cmp) xs []"

lemma js_sort_simps [simp]:
  "js_sort cmp [] = []" "js_sort cmp (x # xs) = insert_by cmp x (js_sort cmp xs)"
  by (simp_all add: js_sort_def)

lemma mset_insert_by [simp]: "mset (insert_by cmp x xs) = add_mset x (mset xs)"
  by (induction xs) auto

lemma mset_js_sort [simp]: "mset (js_sort cmp xs) = mset xs"
  by (induction xs) auto

lemma set_js_sort [simp]: "set (js_sort cmp xs) = set xs"
  by (metis mset_js_sort set_mset_mset)

lemma set_insert_by [simp]: "set (insert_by cmp x xs) = insert x (set xs)"
  by (induction xs) auto

lemma length_js_sort [simp]: "length (js_sort cmp xs) = length xs"
  by (metis mset_js_sort size_mset)

lemma distinct_map_js_sort: "distinct (map f (js_sort cmp xs)) = distinct (map f xs)"
  by (metis mset_js_sort mset_map distinct_count_atmost_1 mset_eq_imp_distinct_iff)

text \<open>A sort that has nothing to move returns its input, whatever the comparator.\<close>

lemma js_sort_id: "sorted_wrt (\<lambda>x y. cmp x y \<le> 0) xs \<Longrightarrow> js_sort cmp xs = xs"
proof (induction xs)
  case (Cons x xs)
  then show ?case by (cases xs) auto
qed simp

text \<open>A sort reads its comparator on the elements only.\<close>

lemma insert_by_cong:
  "(\<And>y. y \<in> set xs \<Longrightarrow> f x y = g x y) \<Longrightarrow> insert_by f x xs = insert_by g x xs"
  by (induction xs) auto

locale js_comparator =
  fixes cmp :: "'a \<Rightarrow> 'a \<Rightarrow> rat"
  assumes cmp_swap: "cmp x y \<le> 0 \<or> cmp y x \<le> 0"
    and cmp_trans: "cmp x y \<le> 0 \<Longrightarrow> cmp y z \<le> 0 \<Longrightarrow> cmp x z \<le> 0"
begin

definition ties :: "'a \<Rightarrow> 'a \<Rightarrow> bool" where
  "ties x y \<longleftrightarrow> cmp x y \<le> 0 \<and> cmp y x \<le> 0"

lemma sorted_insert_by:
  "sorted_wrt (\<lambda>x y. cmp x y \<le> 0) xs \<Longrightarrow> sorted_wrt (\<lambda>x y. cmp x y \<le> 0) (insert_by cmp x xs)"
proof (induction xs)
  case (Cons y ys)
  show ?case
  proof (cases "cmp x y \<le> 0")
    case True
    with Cons.prems show ?thesis by (auto intro: cmp_trans)
  next
    case False
    with cmp_swap have "cmp y x \<le> 0" by blast
    with False Cons show ?thesis by auto
  qed
qed simp

theorem sorted_js_sort: "sorted_wrt (\<lambda>x y. cmp x y \<le> 0) (js_sort cmp xs)"
  by (induction xs) (auto intro: sorted_insert_by)

lemma filter_insert_by_tie:
  assumes "ties a x" and "sorted_wrt (\<lambda>x y. cmp x y \<le> 0) xs"
  shows "filter (ties a) (insert_by cmp x xs) = x # filter (ties a) xs"
  using assms(2)
proof (induction xs)
  case Nil
  with assms(1) show ?case by simp
next
  case (Cons y ys)
  have "\<not> ties a y" if "\<not> cmp x y \<le> 0"
    using that assms(1) cmp_trans by (auto simp: ties_def)
  with Cons assms(1) show ?case by auto
qed

lemma filter_insert_by_other:
  "\<not> ties a x \<Longrightarrow> filter (ties a) (insert_by cmp x xs) = filter (ties a) xs"
  by (induction xs) auto

theorem stable_js_sort: "filter (ties a) (js_sort cmp xs) = filter (ties a) xs"
proof (induction xs)
  case (Cons x xs)
  then show ?case
    by (cases "ties a x") (simp_all add: filter_insert_by_tie filter_insert_by_other sorted_js_sort)
qed simp

lemma js_sort_append_sorted:
  assumes "sorted_wrt (\<lambda>x y. cmp x y \<le> 0) (xs @ ys)"
  shows "js_sort cmp (xs @ ys) = xs @ ys"
  using assms by (rule js_sort_id)

lemma js_sort_idem [simp]: "js_sort cmp (js_sort cmp xs) = js_sort cmp xs"
  by (rule js_sort_id, rule sorted_js_sort)

end

text \<open>A comparator that subtracts a number from another, in either direction.\<close>

lemma js_comparator_key: "js_comparator (\<lambda>x y. f x - f y)"
  by unfold_locales auto

lemma js_comparator_key_desc: "js_comparator (\<lambda>x y. f y - f x)"
  by unfold_locales auto

text \<open>\<open>first(a, b) || second(a, b)\<close>: the second comparator breaks the first one's ties.\<close>

definition cmp_then :: "('a \<Rightarrow> 'a \<Rightarrow> rat) \<Rightarrow> ('a \<Rightarrow> 'a \<Rightarrow> rat) \<Rightarrow> 'a \<Rightarrow> 'a \<Rightarrow> rat" where
  "cmp_then f g x y = (if f x y \<noteq> 0 then f x y else g x y)"

lemma js_comparator_then_key:
  assumes g: "js_comparator g"
  shows "js_comparator (cmp_then (\<lambda>x y. f x - f y) g)"
proof
  fix x y z
  show "cmp_then (\<lambda>x y. f x - f y) g x y \<le> 0 \<or> cmp_then (\<lambda>x y. f x - f y) g y x \<le> 0"
    using js_comparator.cmp_swap [OF g, of x y] by (force simp: cmp_then_def)
  assume "cmp_then (\<lambda>x y. f x - f y) g x y \<le> 0" and "cmp_then (\<lambda>x y. f x - f y) g y z \<le> 0"
  then show "cmp_then (\<lambda>x y. f x - f y) g x z \<le> 0"
    using js_comparator.cmp_trans [OF g, of x y z] by (fastforce simp: cmp_then_def split: if_splits)
qed

text \<open>The same with the number subtracted the other way.\<close>

lemma js_comparator_then_key_desc:
  assumes g: "js_comparator g"
  shows "js_comparator (cmp_then (\<lambda>x y. f y - f x) g)"
  using js_comparator_then_key [OF g, of "\<lambda>x. - f x"] by simp

text \<open>A sort by a comparator that is consistent on the elements at hand.\<close>

lemma js_sort_cong:
  "(\<And>x y. x \<in> set xs \<Longrightarrow> y \<in> set xs \<Longrightarrow> f x y = g x y) \<Longrightarrow> js_sort f xs = js_sort g xs"
proof (induction xs)
  case (Cons x xs)
  then have "js_sort f xs = js_sort g xs" by simp
  then show ?case using Cons.prems by (auto intro: insert_by_cong)
qed simp

lemma sorted_js_sort_on:
  assumes "js_comparator g" and eq: "\<And>x y. x \<in> set xs \<Longrightarrow> y \<in> set xs \<Longrightarrow> f x y = g x y"
  shows "sorted_wrt (\<lambda>x y. f x y \<le> 0) (js_sort f xs)"
proof -
  have "sorted_wrt (\<lambda>x y. g x y \<le> 0) (js_sort g xs)" using assms(1) by (rule js_comparator.sorted_js_sort)
  then have "sorted_wrt (\<lambda>x y. f x y \<le> 0) (js_sort g xs)"
    by (rule sorted_wrt_mono_rel [rotated]) (simp add: eq)
  then show ?thesis using js_sort_cong [of xs f g] eq by simp
qed

end
