(* ===== verification/ChatMessages.thy ===== *)
theory ChatMessages
  imports Dates JsSort
begin

text \<open>
  The message list of \<open>pages/CompanionDetailPage.tsx\<close>: \<open>mergeMessages\<close>, \<open>groupMessages\<close>,
  \<open>mapChanged\<close> and the time helpers. An optional property of a message may be missing, undefined,
  null or a value: spreading \<open>{...old, ...new}\<close> overwrites with every property the new object has,
  undefined included, so the four are kept apart.
\<close>

section \<open>Messages\<close>

datatype 'a jsfield = Missing | Undefined | Null | Val 'a

fun spread_prop :: "'a jsfield \<Rightarrow> 'a jsfield \<Rightarrow> 'a jsfield" where
  "spread_prop old Missing = old"
| "spread_prop old new = new"

fun prop_or :: "'a jsfield \<Rightarrow> 'a jsfield \<Rightarrow> 'a jsfield" where  \<comment> \<open>\<open>a ?? b\<close>\<close>
  "prop_or (Val a) b = Val a"
| "prop_or _ b = b"

record message =
  m_id :: "int jsfield"
  m_channel :: string
  m_sender :: string
  m_text :: string
  m_direction :: string
  m_timestamp :: string
  m_receivedAt :: string
  m_snr :: "rat jsfield"
  m_rssi :: "rat jsfield"
  m_repeatCount :: "int jsfield"
  m_hops :: "int jsfield"
  m_pathHashSize :: "int jsfield"
  m_status :: "string jsfield"
  m_floodScope :: "string jsfield"

definition spread_message :: "message \<Rightarrow> message \<Rightarrow> message" where  \<comment> \<open>\<open>{ ...old, ...new }\<close>\<close>
  "spread_message old new =
     \<lparr>m_id = spread_prop (m_id old) (m_id new),
      m_channel = m_channel new, m_sender = m_sender new, m_text = m_text new,
      m_direction = m_direction new, m_timestamp = m_timestamp new, m_receivedAt = m_receivedAt new,
      m_snr = spread_prop (m_snr old) (m_snr new),
      m_rssi = spread_prop (m_rssi old) (m_rssi new),
      m_repeatCount = spread_prop (m_repeatCount old) (m_repeatCount new),
      m_hops = spread_prop (m_hops old) (m_hops new),
      m_pathHashSize = spread_prop (m_pathHashSize old) (m_pathHashSize new),
      m_status = spread_prop (m_status old) (m_status new),
      m_floodScope = spread_prop (m_floodScope old) (m_floodScope new)\<rparr>"

fun num_id :: "int jsfield \<Rightarrow> int option" where  \<comment> \<open>\<open>typeof m.id === "number"\<close>\<close>
  "num_id (Val i) = Some i"
| "num_id _ = None"

definition real_id :: "message \<Rightarrow> int option" where  \<comment> \<open>\<open>typeof m.id === "number" && m.id > 0\<close>\<close>
  "real_id m = (case m_id m of Val i \<Rightarrow> if i > 0 then Some i else None | _ \<Rightarrow> None)"

definition tsValue :: "string option \<Rightarrow> int" where
  "tsValue ts = (case ts of None \<Rightarrow> 0 | Some s \<Rightarrow> if s = [] then 0 else nullish (date_ms s) 0)"

definition sentByTheirClock :: "message \<Rightarrow> bool" where
  "sentByTheirClock m \<longleftrightarrow> m_direction m = ''rx''
     \<and> \<bar>tsValue (Some (m_timestamp m)) - tsValue (Some (m_receivedAt m))\<bar> > 60000"

definition lastIdOf :: "message list \<Rightarrow> int" where
  "lastIdOf arr = foldl (\<lambda>mx m. case num_id (m_id m) of
      Some i \<Rightarrow> if i > mx then i else mx | None \<Rightarrow> mx) 0 arr"

text \<open>\<open>mapChanged\<close> returns the original array (\<open>None\<close> here) when no element changed.\<close>

definition mapChanged :: "message list \<Rightarrow> (message \<Rightarrow> message option) \<Rightarrow> message list option" where
  "mapChanged arr fn =
     (if list_ex (\<lambda>m. fn m \<noteq> None) arr then Some (map (\<lambda>m. nullish (fn m) m) arr) else None)"

section \<open>Merging\<close>

definition msg_key :: "message \<Rightarrow> string" where
  "msg_key m = m_timestamp m @ '':'' @ m_sender m @ '':'' @ m_text m"

record merge_state =
  ms_out :: "message list"
  ms_byId :: "(int \<times> nat) list"
  ms_byKey :: "(string \<times> nat) list"
  ms_appended :: bool

definition index_message :: "merge_state \<Rightarrow> nat \<Rightarrow> message \<Rightarrow> merge_state" where
  "index_message st i m =
     (case real_id m of
        Some k \<Rightarrow> st\<lparr>ms_byId := AList.update k i (ms_byId st)\<rparr>
      | None \<Rightarrow> st\<lparr>ms_byKey := AList.update (msg_key m) i (ms_byKey st)\<rparr>)"

fun index_all :: "merge_state \<Rightarrow> nat \<Rightarrow> message list \<Rightarrow> merge_state" where
  "index_all st i [] = st"
| "index_all st i (m # ms) = index_all (index_message st i m) (Suc i) ms"

definition merge_one :: "merge_state \<Rightarrow> message \<Rightarrow> merge_state" where
  "merge_one st m =
     (case Option.bind (real_id m) (map_of (ms_byId st)) of
        Some i \<Rightarrow> st\<lparr>ms_out := (ms_out st)[i := spread_message (ms_out st ! i) m]\<rparr>
      | None \<Rightarrow>
          (case map_of (ms_byKey st) (msg_key m) of
             Some i \<Rightarrow> st\<lparr>ms_out := (ms_out st)[i := spread_message (ms_out st ! i) m]\<rparr>
           | None \<Rightarrow>
               index_message (st\<lparr>ms_out := ms_out st @ [m], ms_appended := True\<rparr>)
                 (length (ms_out st)) m))"

abbreviation MAX_SAFE_INTEGER :: int where "MAX_SAFE_INTEGER \<equiv> 9007199254740991"

definition order_id :: "message \<Rightarrow> int" where
  "order_id m = nullish (real_id m) MAX_SAFE_INTEGER"

definition message_order :: "message \<Rightarrow> message \<Rightarrow> rat" where
  "message_order a b =
     cmp_then (\<lambda>a b. of_int (order_id a) - of_int (order_id b))
       (\<lambda>a b. of_int (tsValue (Some (m_receivedAt a))) - of_int (tsValue (Some (m_receivedAt b)))) a b"

definition merge_run :: "message list \<Rightarrow> message list \<Rightarrow> merge_state" where
  "merge_run existing incoming =
     foldl merge_one
       (index_all \<lparr>ms_out = existing, ms_byId = [], ms_byKey = [], ms_appended = False\<rparr> 0 existing)
       incoming"

definition mergeMessages :: "message list \<Rightarrow> message list \<Rightarrow> message list" where
  "mergeMessages existing incoming =
     (if incoming = [] then existing
      else (let st = merge_run existing incoming in
        if ms_appended st then js_sort message_order (ms_out st) else ms_out st))"

section \<open>Grouping\<close>

record message_group =
  g_sender :: string
  g_direction :: string
  g_messages :: "message list"

definition within_group :: "message \<Rightarrow> message \<Rightarrow> bool" where
  \<comment> \<open>a time that cannot be read compares false with everything\<close>
  "within_group m prev =
     (case (date_ms (m_receivedAt m), date_ms (m_receivedAt prev)) of
        (Some a, Some b) \<Rightarrow> \<bar>a - b\<bar> < 5 * 60 * 1000 | _ \<Rightarrow> False)"

definition joins_group :: "message_group \<Rightarrow> message \<Rightarrow> bool" where
  "joins_group g m \<longleftrightarrow> g_sender g = m_sender m \<and> g_direction g = m_direction m
     \<and> within_group m (last (g_messages g))"

fun group_onto :: "message_group list \<Rightarrow> message list \<Rightarrow> message_group list" where
  \<comment> \<open>the output list is kept reversed: its head is \<open>out[out.length - 1]\<close>\<close>
  "group_onto out [] = rev out"
| "group_onto [] (m # ms) =
     group_onto [\<lparr>g_sender = m_sender m, g_direction = m_direction m, g_messages = [m]\<rparr>] ms"
| "group_onto (g # out) (m # ms) =
     (if joins_group g m then group_onto (g\<lparr>g_messages := g_messages g @ [m]\<rparr> # out) ms
      else group_onto (\<lparr>g_sender = m_sender m, g_direction = m_direction m, g_messages = [m]\<rparr> # g # out) ms)"

definition groupMessages :: "message list \<Rightarrow> message_group list" where
  "groupMessages ms = group_onto [] ms"

section \<open>The message order as a comparator\<close>

interpretation message_order: js_comparator message_order
proof -
  have g: "js_comparator (\<lambda>a b. of_int (tsValue (Some (m_receivedAt a)))
      - of_int (tsValue (Some (m_receivedAt b))))"
    by (rule js_comparator_key)
  have eq: "message_order = cmp_then (\<lambda>a b. of_int (order_id a) - of_int (order_id b))
      (\<lambda>a b. of_int (tsValue (Some (m_receivedAt a))) - of_int (tsValue (Some (m_receivedAt b))))"
    by (simp add: fun_eq_iff message_order_def)
  show "js_comparator message_order"
    unfolding eq by (rule js_comparator_then_key [OF g])
qed

lemma message_order_id: "message_order a b \<le> 0 \<Longrightarrow> order_id a \<le> order_id b"
  by (auto simp: message_order_def cmp_then_def split: if_splits)

section \<open>Merging messages that have ids\<close>

text \<open>
  The abstract view of a loaded thread: which message, if any, has an id. Merging a batch is then
  updating the map by each message in turn.
\<close>

definition id_list :: "message list \<Rightarrow> int list" where
  "id_list ms = map (\<lambda>m. the (real_id m)) ms"

definition all_real :: "message list \<Rightarrow> bool" where
  "all_real ms \<longleftrightarrow> list_all (\<lambda>m. real_id m \<noteq> None) ms"

definition view :: "message list \<Rightarrow> int \<Rightarrow> message option" where
  "view ms k = find (\<lambda>m. real_id m = Some k) ms"

definition update_view :: "(int \<Rightarrow> message option) \<Rightarrow> message \<Rightarrow> int \<Rightarrow> message option" where
  "update_view v m = (let k = the (real_id m) in
     v(k \<mapsto> (case v k of None \<Rightarrow> m | Some old \<Rightarrow> spread_message old m)))"

lemma all_real_simps [simp]:
  "all_real []" "all_real (m # ms) \<longleftrightarrow> real_id m \<noteq> None \<and> all_real ms"
  "all_real (xs @ ys) \<longleftrightarrow> all_real xs \<and> all_real ys"
  by (simp_all add: all_real_def)

lemma all_real_set: "all_real ms \<longleftrightarrow> (\<forall>m\<in>set ms. real_id m \<noteq> None)"
  by (simp add: all_real_def list_all_iff)

lemma id_list_simps [simp]:
  "id_list [] = []" "id_list (m # ms) = the (real_id m) # id_list ms"
  "id_list (xs @ ys) = id_list xs @ id_list ys" "length (id_list ms) = length ms"
  by (simp_all add: id_list_def)

lemma id_list_nth: "i < length ms \<Longrightarrow> id_list ms ! i = the (real_id (ms ! i))"
  by (simp add: id_list_def)

lemma real_id_spread: "real_id m = Some k \<Longrightarrow> real_id (spread_message old m) = Some k"
  by (auto simp: real_id_def spread_message_def split: jsfield.splits if_splits)

lemma view_None: "all_real ms \<Longrightarrow> view ms k = None \<longleftrightarrow> k \<notin> set (id_list ms)"
  by (force simp: view_def find_None_iff id_list_def all_real_set image_iff)

lemma in_id_list: "x \<in> set ms \<Longrightarrow> real_id x = Some k \<Longrightarrow> k \<in> set (id_list ms)"
  by (force simp: id_list_def image_iff)

lemma in_id_list_nth:
  assumes "all_real ms"
  shows "k \<in> set (id_list ms) \<longleftrightarrow> (\<exists>i<length ms. real_id (ms ! i) = Some k)"
proof -
  have *: "id_list ms ! i = k \<longleftrightarrow> real_id (ms ! i) = Some k" if "i < length ms" for i
    using assms that nth_mem [OF that] by (fastforce simp: all_real_set id_list_nth)
  show ?thesis unfolding in_set_conv_nth id_list_simps(4) using * by blast
qed

lemma view_append: "view (xs @ ys) k = (case view xs k of Some m \<Rightarrow> Some m | None \<Rightarrow> view ys k)"
  by (induction xs) (auto simp: view_def)

lemma view_nth:
  assumes "all_real ms" "distinct (id_list ms)" "i < length ms" "real_id (ms ! i) = Some k"
  shows "view ms k = Some (ms ! i)"
proof -
  have "j = i" if "j < length ms" "real_id (ms ! j) = Some k" for j
    using assms that by (metis id_list_nth id_list_simps(4) nth_eq_iff_index_eq)
  then show ?thesis
    unfolding view_def using assms by (subst find_Some_iff) (metis less_trans nat_neq_iff)
qed

lemma view_mset:
  assumes "mset xs = mset ys" "all_real xs" "distinct (id_list xs)"
  shows "view xs = view ys"
proof
  fix k
  have ry: "all_real ys" using assms(1,2) by (metis all_real_set mset_eq_setD)
  have dy: "distinct (id_list ys)"
    using assms(1,3) by (metis id_list_def mset_eq_imp_distinct_iff mset_map)
  show "view xs k = view ys k"
  proof (cases "k \<in> set (id_list xs)")
    case True
    then obtain i where i: "i < length xs" "real_id (xs ! i) = Some k"
      using assms(2) by (auto simp: in_set_conv_nth id_list_def all_real_set)
    then have "xs ! i \<in> set ys" using assms(1) by (metis mset_eq_setD nth_mem)
    then obtain j where "j < length ys" "ys ! j = xs ! i" by (auto simp: in_set_conv_nth)
    with i show ?thesis
      using view_nth [OF assms(2,3)] view_nth [OF ry dy] by metis
  next
    case False
    moreover have "set (id_list xs) = set (id_list ys)"
      using assms(1) by (metis id_list_def mset_map set_mset_mset)
    ultimately show ?thesis using assms(2) ry by (metis view_None)
  qed
qed

subsection \<open>The loop's invariant\<close>

definition merge_inv :: "merge_state \<Rightarrow> bool" where
  "merge_inv st \<longleftrightarrow> all_real (ms_out st) \<and> distinct (id_list (ms_out st)) \<and> ms_byKey st = []
     \<and> (\<forall>k i. map_of (ms_byId st) k = Some i
           \<longleftrightarrow> i < length (ms_out st) \<and> real_id (ms_out st ! i) = Some k)"

lemma index_all_out [simp]:
  "ms_out (index_all st i ms) = ms_out st" "ms_appended (index_all st i ms) = ms_appended st"
  by (induction st i ms rule: index_all.induct)
    (simp_all add: index_message_def split: option.split)

lemma index_all_byKey: "all_real ms \<Longrightarrow> ms_byKey (index_all st i ms) = ms_byKey st"
  by (induction st i ms rule: index_all.induct) (auto simp: index_message_def)

lemma index_all_byId:
  assumes "all_real ms" "distinct (id_list ms)"
  shows "map_of (ms_byId (index_all st i ms)) k =
    (case index_where (\<lambda>m. real_id m = Some k) ms of
       Some j \<Rightarrow> Some (i + j) | None \<Rightarrow> map_of (ms_byId st) k)"
  using assms
proof (induction st i ms rule: index_all.induct)
  case (2 st i m ms)
  from "2.prems" obtain k' where k': "real_id m = Some k'" by auto
  have abs: "index_where (\<lambda>m. real_id m = Some k') ms = None"
    using "2.prems" k' by (auto simp: index_where_None dest: in_id_list)
  from "2.IH" "2.prems" k' abs show ?case
    by (auto simp: index_message_def update_conv' split: option.split)
qed simp

lemma merge_inv_start:
  assumes "all_real es" "distinct (id_list es)"
  shows "merge_inv (index_all \<lparr>ms_out = es, ms_byId = [], ms_byKey = [], ms_appended = False\<rparr> 0 es)"
proof -
  have "index_where (\<lambda>m. real_id m = Some k) es = Some i \<longleftrightarrow> i < length es \<and> real_id (es ! i) = Some k"
    for k i
  proof
    assume "i < length es \<and> real_id (es ! i) = Some k"
    moreover from this obtain j where j: "index_where (\<lambda>m. real_id m = Some k) es = Some j"
      using index_where_None [of "\<lambda>m. real_id m = Some k" es] by (cases "index_where (\<lambda>m. real_id m = Some k) es") auto
    ultimately show "index_where (\<lambda>m. real_id m = Some k) es = Some i"
      using assms index_where_Some [OF j]
      by (metis id_list_nth id_list_simps(4) nth_eq_iff_index_eq)
  qed (auto dest: index_where_Some)
  moreover have "map_of (ms_byId (index_all \<lparr>ms_out = es, ms_byId = [], ms_byKey = [], ms_appended = False\<rparr> 0 es)) k
      = index_where (\<lambda>m. real_id m = Some k) es" for k
    using assms by (simp add: index_all_byId split: option.split)
  ultimately show ?thesis
    using assms by (simp add: merge_inv_def index_all_byKey)
qed

lemma merge_inv_lookup:
  assumes "merge_inv st"
  shows "map_of (ms_byId st) k = Some i \<longleftrightarrow> i < length (ms_out st) \<and> real_id (ms_out st ! i) = Some k"
    and "map_of (ms_byId st) k = None \<longleftrightarrow> k \<notin> set (id_list (ms_out st))"
proof -
  show *: "map_of (ms_byId st) k = Some i \<longleftrightarrow> i < length (ms_out st) \<and> real_id (ms_out st ! i) = Some k" for i
    using assms by (simp add: merge_inv_def)
  have "all_real (ms_out st)" using assms by (simp add: merge_inv_def)
  then have "k \<in> set (id_list (ms_out st)) \<longleftrightarrow> (\<exists>i<length (ms_out st). real_id (ms_out st ! i) = Some k)"
    by (rule in_id_list_nth)
  then show "map_of (ms_byId st) k = None \<longleftrightarrow> k \<notin> set (id_list (ms_out st))"
    using * by (metis not_None_eq)
qed

text \<open>One incoming message either updates the message with its id in place or is appended.\<close>

lemma merge_one_cases:
  assumes inv: "merge_inv st" and m: "real_id m = Some k"
  obtains (update) i where "i < length (ms_out st)" "real_id (ms_out st ! i) = Some k"
      "merge_one st m = st\<lparr>ms_out := (ms_out st)[i := spread_message (ms_out st ! i) m]\<rparr>"
  | (append) "k \<notin> set (id_list (ms_out st))"
      "merge_one st m = st\<lparr>ms_out := ms_out st @ [m], ms_appended := True,
         ms_byId := AList.update k (length (ms_out st)) (ms_byId st)\<rparr>"
proof (cases "map_of (ms_byId st) k")
  case None
  have "ms_byKey st = []" using inv by (simp add: merge_inv_def)
  with None m have "merge_one st m = st\<lparr>ms_out := ms_out st @ [m], ms_appended := True,
         ms_byId := AList.update k (length (ms_out st)) (ms_byId st)\<rparr>"
    by (simp add: merge_one_def index_message_def)
  with None append show ?thesis using merge_inv_lookup(2) [OF inv] by blast
next
  case (Some i)
  with m have "merge_one st m = st\<lparr>ms_out := (ms_out st)[i := spread_message (ms_out st ! i) m]\<rparr>"
    by (simp add: merge_one_def)
  moreover have "i < length (ms_out st)" "real_id (ms_out st ! i) = Some k"
    using merge_inv_lookup(1) [OF inv] Some by simp_all
  ultimately show ?thesis using update by blast
qed

lemma id_list_update:
  assumes "i < length ms" "real_id (ms ! i) = real_id m'"
  shows "id_list (ms[i := m']) = id_list ms"
proof -
  have "id_list (ms[i := m']) = (id_list ms)[i := the (real_id m')]"
    by (simp add: id_list_def map_update)
  also have "\<dots> = id_list ms"
    using assms by (simp add: id_list_nth flip: assms(2)) (metis id_list_nth list_update_id)
  finally show ?thesis .
qed

lemma merge_one_inv:
  assumes inv: "merge_inv st" and m: "real_id m = Some k"
  shows "merge_inv (merge_one st m)"
    and "set (id_list (ms_out (merge_one st m))) = insert k (set (id_list (ms_out st)))"
    and "view (ms_out (merge_one st m)) = update_view (view (ms_out st)) m"
    and "\<not> ms_appended (merge_one st m) \<Longrightarrow> id_list (ms_out (merge_one st m)) = id_list (ms_out st)"
    and "ms_appended st \<Longrightarrow> ms_appended (merge_one st m)"
proof -
  have r: "all_real (ms_out st)" and d: "distinct (id_list (ms_out st))"
    using inv by (simp_all add: merge_inv_def)
  have "merge_inv (merge_one st m)
    \<and> set (id_list (ms_out (merge_one st m))) = insert k (set (id_list (ms_out st)))
    \<and> view (ms_out (merge_one st m)) = update_view (view (ms_out st)) m
    \<and> (\<not> ms_appended (merge_one st m) \<longrightarrow> id_list (ms_out (merge_one st m)) = id_list (ms_out st))
    \<and> (ms_appended st \<longrightarrow> ms_appended (merge_one st m))"
    using inv m
  proof (cases rule: merge_one_cases)
    case (update i)
    define m' where "m' = spread_message (ms_out st ! i) m"
    define out' where "out' = (ms_out st)[i := m']"
    have st: "merge_one st m = st\<lparr>ms_out := out'\<rparr>" by (simp add: update out'_def m'_def)
    have rm': "real_id m' = Some k" unfolding m'_def by (rule real_id_spread [OF m])
    have ids: "id_list out' = id_list (ms_out st)"
      unfolding out'_def by (rule id_list_update) (use update rm' in auto)
    have r': "all_real out'"
      using r rm' set_update_subset_insert [of "ms_out st" i m'] by (auto simp: all_real_set out'_def)
    have same: "real_id (out' ! j) = real_id (ms_out st ! j)" for j
      using update rm' by (cases "j = i") (auto simp: out'_def)
    have "merge_inv (merge_one st m)"
      using inv r' ids same by (simp add: merge_inv_def st) (simp add: out'_def)
    moreover have k: "k \<in> set (id_list (ms_out st))"
      using update by (metis id_list_nth id_list_simps(4) nth_mem option.sel)
    moreover have "view out' = update_view (view (ms_out st)) m"
    proof
      fix j
      show "view out' j = update_view (view (ms_out st)) m j"
      proof (cases "j = k")
        case True
        have "view out' k = Some m'"
          using view_nth [OF r', of i k] ids d update rm' by (simp add: out'_def)
        moreover have "view (ms_out st) k = Some (ms_out st ! i)"
          using view_nth [OF r d] update by simp
        ultimately show ?thesis using True m by (simp add: update_view_def m'_def)
      next
        case False
        have "view out' j = view (ms_out st) j"
        proof (cases "j \<in> set (id_list (ms_out st))")
          case True
          then obtain l where l: "l < length (ms_out st)" "real_id (ms_out st ! l) = Some j"
            using in_id_list_nth [OF r] by blast
          then have "out' ! l = ms_out st ! l" using False update by (auto simp: out'_def nth_list_update)
          with l show ?thesis
            using view_nth [OF r', of l j] view_nth [OF r d, of l j] ids d same by (simp add: out'_def)
        next
          case False
          then show ?thesis using r r' ids by (metis view_None)
        qed
        with False m show ?thesis by (simp add: update_view_def)
      qed
    qed
    ultimately show ?thesis using ids by (auto simp: st)
  next
    case append
    define out' where "out' = ms_out st @ [m]"
    have st: "ms_out (merge_one st m) = out'" "ms_appended (merge_one st m)"
      "ms_byKey (merge_one st m) = ms_byKey st"
      "ms_byId (merge_one st m) = AList.update k (length (ms_out st)) (ms_byId st)"
      by (simp_all add: append out'_def)
    have "merge_inv (merge_one st m)"
      using inv m append(1) merge_inv_lookup [OF inv]
      by (auto simp: merge_inv_def st out'_def update_conv' nth_append less_Suc_eq id_list_nth
          in_set_conv_nth)
    moreover have "view out' = update_view (view (ms_out st)) m"
      using append(1) m view_None [OF r, of k]
      by (auto simp: fun_eq_iff update_view_def view_append out'_def view_def [of "[m]"] Let_def
          split: option.split)
    ultimately show ?thesis using m by (simp add: st out'_def insert_commute)
  qed
  then show "merge_inv (merge_one st m)"
    and "set (id_list (ms_out (merge_one st m))) = insert k (set (id_list (ms_out st)))"
    and "view (ms_out (merge_one st m)) = update_view (view (ms_out st)) m"
    and "\<not> ms_appended (merge_one st m) \<Longrightarrow> id_list (ms_out (merge_one st m)) = id_list (ms_out st)"
    and "ms_appended st \<Longrightarrow> ms_appended (merge_one st m)"
    by blast+
qed

subsection \<open>The whole merge\<close>

lemma merge_one_appended: "ms_appended st \<Longrightarrow> ms_appended (merge_one st m)"
  by (auto simp: merge_one_def index_message_def split: option.split)

lemma merge_fold_appended: "ms_appended st \<Longrightarrow> ms_appended (foldl merge_one st ds)"
  by (induction ds arbitrary: st) (auto intro: merge_one_appended)

lemma merge_fold:
  assumes "merge_inv st" "all_real ds"
  shows "merge_inv (foldl merge_one st ds)"
    and "set (id_list (ms_out (foldl merge_one st ds))) = set (id_list (ms_out st)) \<union> set (id_list ds)"
    and "view (ms_out (foldl merge_one st ds)) = foldl update_view (view (ms_out st)) ds"
    and "\<not> ms_appended (foldl merge_one st ds) \<Longrightarrow> id_list (ms_out (foldl merge_one st ds)) = id_list (ms_out st)"
  using assms
proof (induction ds arbitrary: st)
  case (Cons m ds)
  {
    case 1
    then show ?case using merge_one_inv(1) Cons.IH(1) by auto
  next
    case 2
    then obtain k where k: "real_id m = Some k" by auto
    from 2 k Cons.IH(2) merge_one_inv(1,2) [OF "2"(1) k] show ?case by auto
  next
    case 3
    then obtain k where k: "real_id m = Some k" by auto
    from 3 k Cons.IH(3) merge_one_inv(1,3) [OF "3"(1) k] show ?case by auto
  next
    case 4
    then obtain k where k: "real_id m = Some k" by auto
    have "\<not> ms_appended (merge_one st m)" using "4"(1) merge_fold_appended by auto
    with 4 k Cons.IH(4) merge_one_inv(1,4) [OF _ k] show ?case by auto
  }
qed simp_all

lemma merge_run_facts:
  assumes "all_real es" "distinct (id_list es)" "all_real ds"
  shows "merge_inv (merge_run es ds)"
    and "set (id_list (ms_out (merge_run es ds))) = set (id_list es) \<union> set (id_list ds)"
    and "view (ms_out (merge_run es ds)) = foldl update_view (view es) ds"
    and "\<not> ms_appended (merge_run es ds) \<Longrightarrow> id_list (ms_out (merge_run es ds)) = id_list es"
  unfolding merge_run_def
  using merge_fold [OF merge_inv_start [OF assms(1,2)] assms(3)] by simp_all

lemma sorted_id_list:
  assumes "all_real ms" "sorted_wrt (\<lambda>a b. message_order a b \<le> 0) ms"
  shows "sorted (id_list ms)"
proof -
  have "sorted_wrt (\<lambda>a b. the (real_id a) \<le> the (real_id b)) ms"
    using assms(2)
  proof (rule sorted_wrt_mono_rel [rotated])
    fix a b assume "a \<in> set ms" "b \<in> set ms" "message_order a b \<le> 0"
    with assms(1) obtain i j where "real_id a = Some i" "real_id b = Some j"
      by (fastforce simp: all_real_set)
    with message_order_id [OF \<open>message_order a b \<le> 0\<close>] show "the (real_id a) \<le> the (real_id b)"
      by (simp add: order_id_def)
  qed
  then show ?thesis by (simp add: id_list_def sorted_wrt_map)
qed

lemma mergeMessages_facts:
  assumes "all_real es" "distinct (id_list es)" "all_real ds"
  shows "all_real (mergeMessages es ds)"
    and "distinct (id_list (mergeMessages es ds))"
    and "set (id_list (mergeMessages es ds)) = set (id_list es) \<union> set (id_list ds)"
    and "view (mergeMessages es ds) = foldl update_view (view es) ds"
proof -
  define out where "out = ms_out (merge_run es ds)"
  note r = merge_run_facts [OF assms]
  have out: "all_real out" "distinct (id_list out)" using r(1) by (simp_all add: merge_inv_def out_def)
  have m: "mset (mergeMessages es ds) = mset out" if "ds \<noteq> []"
    using that by (simp add: mergeMessages_def out_def Let_def)
  have "all_real (mergeMessages es ds) \<and> distinct (id_list (mergeMessages es ds))
    \<and> set (id_list (mergeMessages es ds)) = set (id_list es) \<union> set (id_list ds)
    \<and> view (mergeMessages es ds) = foldl update_view (view es) ds"
  proof (cases "ds = []")
    case True
    with assms show ?thesis by (simp add: mergeMessages_def)
  next
    case False
    note m = m [OF False]
    have "mset (id_list (mergeMessages es ds)) = mset (id_list out)"
      by (simp add: m id_list_def)
    moreover have "view out = view (mergeMessages es ds)" using m out by (intro view_mset) auto
    moreover have "all_real (mergeMessages es ds)" using m out(1) by (metis all_real_set mset_eq_setD)
    ultimately show ?thesis
      using r(2,3) out by (metis mset_eq_imp_distinct_iff mset_eq_setD out_def)
  qed
  then show "all_real (mergeMessages es ds)" and "distinct (id_list (mergeMessages es ds))"
    and "set (id_list (mergeMessages es ds)) = set (id_list es) \<union> set (id_list ds)"
    and "view (mergeMessages es ds) = foldl update_view (view es) ds"
    by simp_all
qed

lemma mergeMessages_sorted:
  assumes "all_real es" "distinct (id_list es)" "all_real ds" "sorted (id_list es)"
  shows "sorted (id_list (mergeMessages es ds))"
proof (cases "ds = [] \<or> \<not> ms_appended (merge_run es ds)")
  case True
  then show ?thesis
    using assms merge_run_facts(4) [OF assms(1-3)] by (auto simp: mergeMessages_def Let_def)
next
  case False
  then have "mergeMessages es ds = js_sort message_order (ms_out (merge_run es ds))"
    by (simp add: mergeMessages_def)
  then show ?thesis
    using sorted_id_list [OF mergeMessages_facts(1) [OF assms(1-3)]]
    by (simp add: message_order.sorted_js_sort)
qed

lemma mergeMessages_ids:
  assumes "all_real es" "sorted_wrt (<) (id_list es)" "all_real ds"
  shows "id_list (mergeMessages es ds) = sorted_list_of_set (set (id_list es) \<union> set (id_list ds))"
proof -
  have d: "distinct (id_list es)" and s: "sorted (id_list es)"
    using assms(2) by (simp_all add: strict_sorted_iff)
  have "sorted (id_list (mergeMessages es ds))"
    by (rule mergeMessages_sorted [OF assms(1) d assms(3) s])
  then show ?thesis
    using mergeMessages_facts(2,3) [OF assms(1) d assms(3)]
    by (intro sorted_distinct_set_unique) auto
qed

subsection \<open>Re-delivery\<close>

lemma spread_prop_idem [simp]:
  "spread_prop (spread_prop a b) b = spread_prop a b" "spread_prop a a = a"
  by (cases b; simp) (cases a; simp)

lemma spread_message_idem [simp]:
  "spread_message (spread_message a b) b = spread_message a b" "spread_message m m = m"
  by (simp_all add: spread_message_def)

lemma fold_update_view:
  assumes "all_real ds" "distinct (id_list ds)"
  shows "foldl update_view v ds k =
    (case view ds k of None \<Rightarrow> v k
     | Some m \<Rightarrow> Some (case v k of None \<Rightarrow> m | Some old \<Rightarrow> spread_message old m))"
  using assms
proof (induction ds arbitrary: v)
  case Nil
  show ?case by (simp add: view_def)
next
  case (Cons m ds)
  then obtain j where j: "real_id m = Some j" by auto
  have v: "view (m # ds) k = (if k = j then Some m else view ds k)" using j by (auto simp: view_def)
  have "view ds j = None" using Cons.prems j by (simp add: view_None)
  with Cons j v show ?case by (auto simp: update_view_def split: option.split)
qed

lemma list_by_view:
  assumes "all_real ms" "distinct (id_list ms)"
  shows "ms = map (\<lambda>k. the (view ms k)) (id_list ms)"
proof (rule nth_equalityI)
  fix i assume i: "i < length ms"
  then obtain k where k: "real_id (ms ! i) = Some k"
    using assms(1) nth_mem by (fastforce simp: all_real_set)
  with i show "ms ! i = map (\<lambda>k. the (view ms k)) (id_list ms) ! i"
    using view_nth [OF assms i k] by (simp add: id_list_nth)
qed simp

lemma mergeMessages_twice:
  assumes "all_real es" "sorted_wrt (<) (id_list es)" "all_real ds" "distinct (id_list ds)"
  shows "mergeMessages (mergeMessages es ds) ds = mergeMessages es ds"
proof -
  define ms where "ms = mergeMessages es ds"
  have d: "distinct (id_list es)" using assms(2) by (simp add: strict_sorted_iff)
  note f = mergeMessages_facts [OF assms(1) d assms(3), folded ms_def]
  have "id_list ms = sorted_list_of_set (set (id_list es) \<union> set (id_list ds))"
    unfolding ms_def by (rule mergeMessages_ids [OF assms(1-3)])
  then have s: "sorted_wrt (<) (id_list ms)" by (simp add: strict_sorted_list_of_set)
  note f2 = mergeMessages_facts [OF f(1,2) assms(3)]
  have "view (mergeMessages ms ds) = view ms"
    by (rule ext) (simp add: f2(4) f(4) fold_update_view [OF assms(3,4)] split: option.split)
  moreover have "id_list (mergeMessages ms ds) = id_list ms"
    using mergeMessages_ids [OF f(1) s assms(3)] mergeMessages_ids [OF assms(1-3), folded ms_def] f(3)
    by (simp add: Un_absorb2 sup.absorb1)
  ultimately have "mergeMessages ms ds = ms"
    by (metis f(1,2) f2(1,2) list_by_view)
  then show ?thesis by (simp add: ms_def)
qed

section \<open>Grouping a thread\<close>

definition group_ok :: "message_group \<Rightarrow> bool" where
  "group_ok g \<longleftrightarrow> g_messages g \<noteq> []
     \<and> list_all (\<lambda>m. m_sender m = g_sender g \<and> m_direction m = g_direction g) (g_messages g)
     \<and> successively (\<lambda>a b. within_group b a) (g_messages g)"

definition group_break :: "message_group \<Rightarrow> message_group \<Rightarrow> bool" where
  "group_break g h \<longleftrightarrow> \<not> joins_group g (hd (g_messages h))"

lemma concat_group_onto:
  "concat (map g_messages (group_onto out ms)) = concat (map g_messages (rev out)) @ ms"
  by (induction out ms rule: group_onto.induct) auto

lemma group_ok_extend: "group_ok g \<Longrightarrow> joins_group g m \<Longrightarrow> group_ok (g\<lparr>g_messages := g_messages g @ [m]\<rparr>)"
  by (auto simp: group_ok_def joins_group_def successively_append_iff)

lemma group_break_extend:
  "group_ok h \<Longrightarrow> group_break g (h\<lparr>g_messages := g_messages h @ ms\<rparr>) = group_break g h"
  by (simp add: group_break_def group_ok_def)

lemma group_onto_ok:
  "list_all group_ok out \<Longrightarrow> successively (\<lambda>h g. group_break g h) out
     \<Longrightarrow> list_all group_ok (group_onto out ms) \<and> successively group_break (group_onto out ms)"
proof (induction out ms rule: group_onto.induct)
  case (1 out)
  then show ?case by (simp add: list_all_iff successively_rev)
next
  case (2 m ms)
  then show ?case by (simp add: group_ok_def)
next
  case (3 g out m ms)
  show ?case
  proof (cases "joins_group g m")
    case True
    with 3 show ?thesis
      by (cases out) (simp_all add: group_ok_extend group_break_extend)
  next
    case False
    with 3 show ?thesis by (simp add: group_ok_def group_break_def)
  qed
qed

section \<open>Properties\<close>

text \<open>C2: Merging a batch into a loaded thread of stored messages gives exactly the thread with every id of either, once and in
  increasing order, and as a map from ids to messages it is the old map with each incoming message spread
  over what was there: nothing is lost, duplicated or reordered.\<close>
theorem merge_refines_map_update:
  assumes "all_real existing" and "sorted_wrt (<) (id_list existing)" and "all_real incoming"
  shows "id_list (mergeMessages existing incoming)
      = sorted_list_of_set (set (id_list existing) \<union> set (id_list incoming))
    \<and> view (mergeMessages existing incoming) = foldl update_view (view existing) incoming"
  using mergeMessages_ids [OF assms] mergeMessages_facts(4) [OF assms(1) _ assms(3)] assms(2)
  by (simp add: strict_sorted_iff)

definition sample_message :: "int \<Rightarrow> string \<Rightarrow> message" where
  "sample_message i t =
     \<lparr>m_id = Val i, m_channel = ''#a'', m_sender = ''bob'', m_text = t, m_direction = ''rx'',
      m_timestamp = ''2024-01-01T00:00:00Z'', m_receivedAt = ''2024-01-01T00:00:01Z'',
      m_snr = Missing, m_rssi = Missing, m_repeatCount = Val 0, m_hops = Null, m_pathHashSize = Missing,
      m_status = Missing, m_floodScope = Missing\<rparr>"

lemma real_id_sample [simp]: "real_id (sample_message i t) = (if i > 0 then Some i else None)"
  by (simp add: real_id_def sample_message_def)

theorem merge_refines_map_update_witness:
  "id_list (mergeMessages [sample_message 3 ''c'', sample_message 7 ''g'']
      [sample_message 5 ''e'', sample_message 3 ''c2'']) = [3, 5, 7]"
proof -
  have "sorted_list_of_set {3, 5, 7 :: int} = [3, 5, 7]" by code_simp
  moreover have "{3, 7, 5, 3} = {3, 5, 7 :: int}" by auto
  ultimately show ?thesis
    using merge_refines_map_update [of "[sample_message 3 ''c'', sample_message 7 ''g'']"
        "[sample_message 5 ''e'', sample_message 3 ''c2'']"] by (simp add: insert_commute)
qed

text \<open>Delivering the same batch of stored messages a second time changes nothing at all, so a reload that overlaps the live
  stream cannot duplicate or alter a thread.\<close>
theorem merge_redelivery:
  assumes "all_real existing" and "sorted_wrt (<) (id_list existing)"
    and "all_real incoming" and "distinct (id_list incoming)"
  shows "mergeMessages (mergeMessages existing incoming) incoming = mergeMessages existing incoming"
  using assms by (rule mergeMessages_twice)

theorem merge_redelivery_witness:
  "mergeMessages (mergeMessages [sample_message 3 ''c''] [sample_message 5 ''e'', sample_message 3 ''c2''])
      [sample_message 5 ''e'', sample_message 3 ''c2'']
     = mergeMessages [sample_message 3 ''c''] [sample_message 5 ''e'', sample_message 3 ''c2'']"
  using merge_redelivery [of "[sample_message 3 ''c'']" "[sample_message 5 ''e'', sample_message 3 ''c2'']"]
  by simp

text \<open>C39: Grouping shows every message once and in order; each group is a non-empty run of one sender and one direction with less
  than five minutes between neighbours, and two adjacent groups could not have been one.\<close>
theorem groups_partition_thread:
  "concat (map g_messages (groupMessages ms)) = ms
     \<and> list_all group_ok (groupMessages ms) \<and> successively group_break (groupMessages ms)"
  using concat_group_onto [of "[]" ms] group_onto_ok [of "[]" ms] by (simp add: groupMessages_def)

end
