(* ===== verification/ChatText.thy ===== *)
theory ChatText
  imports Prelude
begin

text \<open>
  How the chat page renders a message's text (\<open>MessageText\<close>, \<open>parseCoord\<close>, \<open>splitTrailingPunct\<close> and
  \<open>channelKey\<close> of \<open>pages/CompanionDetailPage.tsx\<close>). The token pattern is a regular expression
  of five alternatives tried in order at each position; each is a scanner here that returns how many
  characters it takes. None of the alternatives can match two lengths at one position that
  backtracking would choose between: each repeated class excludes the character that has to follow it.
\<close>

section \<open>The five alternatives\<close>

fun match_contact :: "string \<Rightarrow> nat option" where
  \<comment> \<open>\<open><[0-9a-fA-F]{64}:[1-4]:[^>]*>\<close>\<close>
  "match_contact [] = None"
| "match_contact (c # t) =
     (let h = take 64 t; r = drop 64 t; nm = takeWhile (\<lambda>x. x \<noteq> CHR ''>'') (drop 3 r) in
      if c = CHR ''<'' \<and> length h = 64 \<and> list_all is_hex h
         \<and> (\<exists>k\<in>set ''1234''. take 3 r = [CHR '':'', k, CHR '':'']) \<and> drop (3 + length nm) r \<noteq> []
      then Some (69 + length nm) else None)"

definition url_char :: "char \<Rightarrow> bool" where
  "url_char c \<longleftrightarrow> \<not> is_space c \<and> c \<noteq> CHR ''<'' \<and> c \<noteq> CHR ''>''"

definition match_url :: "string \<Rightarrow> nat option" where  \<comment> \<open>\<open>https?:\/\/[^\s<>]+\<close>\<close>
  "match_url s =
     (let scheme = (if starts_with ''https://'' s then 8 else if starts_with ''http://'' s then 7 else 0);
          n = length (takeWhile url_char (drop scheme s)) in
      if scheme \<noteq> 0 \<and> n \<noteq> 0 then Some (scheme + n) else None)"

definition match_number :: "string \<Rightarrow> nat option" where  \<comment> \<open>\<open>-?\d{1,3}\.\d+\<close>\<close>
  "match_number s =
     (let sg = (if starts_with ''-'' s then 1 else 0); s1 = drop sg s;
          n = length (takeWhile is_digit s1); s2 = drop n s1;
          f = length (takeWhile is_digit (drop 1 s2)) in
      if 1 \<le> n \<and> n \<le> 3 \<and> starts_with ''.'' s2 \<and> f \<noteq> 0 then Some (sg + n + 1 + f) else None)"

definition match_pair :: "string \<Rightarrow> (string \<times> string \<times> nat) option" where
  \<comment> \<open>two numbers around a comma: their texts and the length taken\<close>
  "match_pair s =
     (case match_number s of None \<Rightarrow> None
      | Some n \<Rightarrow>
          (let s1 = drop n s; w1 = length (takeWhile is_space s1); s2 = drop w1 s1 in
           if \<not> starts_with '','' s2 then None
           else (let s3 = drop 1 s2; w2 = length (takeWhile is_space s3); s4 = drop w2 s3 in
             case match_number s4 of None \<Rightarrow> None
             | Some k \<Rightarrow> Some (take n s, take k s4, n + w1 + 1 + w2 + k))))"

definition digit_or_dot :: "char \<Rightarrow> bool" where
  "digit_or_dot c \<longleftrightarrow> is_digit c \<or> c = CHR ''.''"

definition match_coord :: "char option \<Rightarrow> string \<Rightarrow> nat option" where
  \<comment> \<open>\<open>(?<![\d.]) number \s*,\s* number (?![\d.])\<close>\<close>
  "match_coord prev s =
     (case match_pair s of None \<Rightarrow> None
      | Some (_, _, n) \<Rightarrow>
          if (case prev of None \<Rightarrow> True | Some p \<Rightarrow> \<not> digit_or_dot p)
             \<and> (case drop n s of [] \<Rightarrow> True | c # _ \<Rightarrow> \<not> digit_or_dot c)
          then Some n else None)"

definition match_mention :: "string \<Rightarrow> nat option" where  \<comment> \<open>\<open>@\[[^\]]+\]\<close>\<close>
  "match_mention s =
     (let n = length (takeWhile (\<lambda>c. c \<noteq> CHR '']'') (drop 2 s)) in
      if starts_with ''@['' s \<and> n \<noteq> 0 \<and> drop (2 + n) s \<noteq> [] then Some (3 + n) else None)"

definition match_channel :: "char option \<Rightarrow> string \<Rightarrow> nat option" where
  \<comment> \<open>\<open>(?<![\w#])#\w[\w-]*\<close>\<close>
  "match_channel prev s =
     (case s of c # d # t \<Rightarrow>
        if c = CHR ''#'' \<and> is_word d
           \<and> (case prev of None \<Rightarrow> True | Some p \<Rightarrow> \<not> is_word p \<and> p \<noteq> CHR ''#'')
        then Some (2 + length (takeWhile (\<lambda>x. is_word x \<or> x = CHR ''-'') t)) else None
      | _ \<Rightarrow> None)"

datatype token_kind = KContact | KUrl | KCoord | KMention | KChannel

definition match_token :: "char option \<Rightarrow> string \<Rightarrow> (token_kind \<times> nat) option" where  \<comment> \<open>\<open>TOKEN_RE\<close>\<close>
  "match_token prev s =
     (case match_contact s of Some n \<Rightarrow> Some (KContact, n) | None \<Rightarrow>
     (case match_url s of Some n \<Rightarrow> Some (KUrl, n) | None \<Rightarrow>
     (case match_coord prev s of Some n \<Rightarrow> Some (KCoord, n) | None \<Rightarrow>
     (case match_mention s of Some n \<Rightarrow> Some (KMention, n) | None \<Rightarrow>
     (case match_channel prev s of Some n \<Rightarrow> Some (KChannel, n) | None \<Rightarrow> None)))))"

text \<open>\<open>text.matchAll(TOKEN_RE)\<close>: at a match, the scan goes on behind it; elsewhere one character on.
  The text between matches is kept, character by character.\<close>

datatype segment = Plain char | Token token_kind string

function scan :: "char option \<Rightarrow> string \<Rightarrow> segment list" where
  "scan prev [] = []"
| "scan prev (c # s) =
     (case match_token prev (c # s) of
        Some (k, n) \<Rightarrow> Token k (c # take (n - 1) s) # scan (Some (last (c # take (n - 1) s))) (drop (n - 1) s)
      | None \<Rightarrow> Plain c # scan (Some c) s)"
  by pat_completeness auto
termination
  by (relation "measure (\<lambda>(prev, s). length s)") auto

declare scan.simps [simp del]

section \<open>What each token becomes\<close>

definition channelKey :: "string \<Rightarrow> string" where
  "channelKey nm = to_lower (if starts_with ''#'' nm then drop 1 nm else nm)"

definition parse_decimal :: "string \<Rightarrow> rat" where  \<comment> \<open>\<open>parseFloat\<close> of \<open>-?d+.d+\<close>\<close>
  "parse_decimal s =
     (let neg = starts_with ''-'' s; u = (if neg then drop 1 s else s);
          ip = takeWhile is_digit u; fp = takeWhile is_digit (drop (length ip + 1) u);
          v = of_nat (parse_digits ip) + of_nat (parse_digits fp) / 10 ^ length fp
      in if neg then - v else v)"

definition parseCoord :: "string \<Rightarrow> (rat \<times> rat) option" where
  "parseCoord s =
     (let t = trim s in
      case match_pair t of None \<Rightarrow> None
      | Some (a, b, n) \<Rightarrow>
          if n \<noteq> length t then None
          else (let lat = parse_decimal a; lon = parse_decimal b in
            if lat < - 90 \<or> lat > 90 \<or> lon < - 180 \<or> lon > 180 then None else Some (lat, lon)))"

definition trailing_punct :: "char \<Rightarrow> bool" where
  "trailing_punct c \<longleftrightarrow> c \<in> set (''.,;:!?'' @ [CHR 0x27, CHR 0x22] @ '')]}'')"

definition splitTrailingPunct :: "string \<Rightarrow> string \<times> string" where
  "splitTrailingPunct url =
     (let k = length (takeWhile trailing_punct (rev url)) in
      (take (length url - k) url, drop (length url - k) url))"

datatype contact_type = CHAT | REPEATER | ROOM | SENSOR

definition CONTACT_TYPE_BY_INT :: "char \<Rightarrow> contact_type option" where
  "CONTACT_TYPE_BY_INT c = map_of [(CHR ''1'', CHAT), (CHR ''2'', REPEATER), (CHR ''3'', ROOM), (CHR ''4'', SENSOR)] c"

datatype part =
    TextPart string
  | ContactPart string char string    \<comment> \<open>public key, type digit, name\<close>
  | UrlPart string
  | CoordPart rat rat string
  | MentionPart string bool           \<comment> \<open>name, whether it is us\<close>
  | ChannelPart string                \<comment> \<open>the raw token\<close>

definition token_parts :: "string \<Rightarrow> token_kind \<Rightarrow> string \<Rightarrow> part list" where
  "token_parts ownName k token =
     (case k of
        KContact \<Rightarrow>
          if match_contact token = Some (length token)
          then [ContactPart (to_lower (take 64 (drop 1 token))) (token ! 66) (slice 68 (- 1) token)]
          else [TextPart token]
      | KUrl \<Rightarrow> (case splitTrailingPunct token of (url, trailing) \<Rightarrow>
          UrlPart url # (if trailing \<noteq> [] then [TextPart trailing] else []))
      | KCoord \<Rightarrow> (case parseCoord token of
          Some (lat, lon) \<Rightarrow> [CoordPart lat lon token] | None \<Rightarrow> [])
      | KMention \<Rightarrow> (let target = slice 2 (- 1) token in [MentionPart target (target = ownName)])
      | KChannel \<Rightarrow> [ChannelPart token])"

definition flush_text :: "string \<Rightarrow> part list" where
  "flush_text pend = (if pend \<noteq> [] then [TextPart pend] else [])"

text \<open>The loop over the matches: \<open>pend\<close> is the text from \<open>last\<close> up to here. A coordinate out of range is
  skipped without being consumed, so it stays in the pending text.\<close>

fun render :: "string \<Rightarrow> string \<Rightarrow> segment list \<Rightarrow> part list" where
  "render ownName pend [] = flush_text pend"
| "render ownName pend (Plain c # rest) = render ownName (pend @ [c]) rest"
| "render ownName pend (Token k token # rest) =
     (if k = KCoord \<and> parseCoord token = None then render ownName (pend @ token) rest
      else flush_text pend @ token_parts ownName k token @ render ownName [] rest)"

definition MessageText :: "string \<Rightarrow> string \<Rightarrow> part list" where
  "MessageText ownName txt = render ownName [] (scan None txt)"

section \<open>The elements\<close>

datatype chip_action = OpenChannel string | AddChannel string

definition ChannelChip :: "(string \<times> string) list \<Rightarrow> string \<Rightarrow> chip_action" where
  "ChannelChip targets raw =
     (case map_of targets (channelKey raw) of
        Some target \<Rightarrow> OpenChannel target | None \<Rightarrow> AddChannel (slice_from 1 raw))"

definition channel_targets :: "string list \<Rightarrow> (string \<times> string) list" where
  "channel_targets configured = foldl (\<lambda>m nm. AList.update (channelKey nm) nm m) [] configured"

record contact_card =
  cc_self :: bool
  cc_name :: string
  cc_prefill :: "string \<times> string \<times> contact_type option"

definition ContactCard :: "string option \<Rightarrow> string \<Rightarrow> char \<Rightarrow> string \<Rightarrow> contact_card" where
  "ContactCard ownPubkey pk ty nm =
     \<lparr>cc_self = (truthy_str ownPubkey \<and> to_lower pk = to_lower (the ownPubkey)),
      cc_name = or_str (trim nm) ''unknown'',
      cc_prefill = (pk, trim nm, CONTACT_TYPE_BY_INT ty)\<rparr>"

definition reply_text :: "string \<Rightarrow> string \<Rightarrow> string \<Rightarrow> string \<Rightarrow> string" where  \<comment> \<open>\<open>handleReply\<close>\<close>
  "reply_text companionName direction sender txt =
     (if direction = ''tx'' \<or> sender = companionName
      then join [CHR 0x0A] (map (\<lambda>line. ''> '' @ line) (split_on (CHR 0x0A) txt)) @ [CHR 0x0A]
      else ''@['' @ sender @ ''] '')"

section \<open>Lemmas\<close>

fun seg_text :: "segment \<Rightarrow> string" where
  "seg_text (Plain c) = [c]"
| "seg_text (Token k raw) = raw"

fun part_text :: "part \<Rightarrow> string" where
  "part_text (TextPart t) = t"
| "part_text (ContactPart pk ty nm) = ''<'' @ pk @ '':'' @ [ty] @ '':'' @ nm @ ''>''"
| "part_text (UrlPart u) = u"
| "part_text (CoordPart lat lon raw) = raw"
| "part_text (MentionPart nm self) = ''@['' @ nm @ '']''"
| "part_text (ChannelPart raw) = raw"

lemma scan_text: "concat (map seg_text (scan prev s)) = s"
proof (induction prev s rule: scan.induct)
  case (2 prev c s)
  show ?case
  proof (cases "match_token prev (c # s)")
    case None
    with 2 show ?thesis by (simp add: scan.simps)
  next
    case (Some kn)
    then obtain k n where "match_token prev (c # s) = Some (k, n)" by (cases kn) auto
    with 2 show ?thesis by (simp add: scan.simps)
  qed
qed (simp add: scan.simps)

text \<open>Every token of the scan is a match at its position.\<close>

lemma match_contact_pos: "match_contact s = Some n \<Longrightarrow> 0 < n"
  by (cases s) (auto simp: Let_def split: if_splits)

lemma match_url_pos: "match_url s = Some n \<Longrightarrow> 0 < n"
  by (simp add: match_url_def Let_def split: if_splits)

lemma match_coord_pos: "match_coord p s = Some n \<Longrightarrow> 0 < n"
  by (auto simp: match_coord_def match_pair_def Let_def split: option.splits if_splits)

lemma match_mention_pos: "match_mention s = Some n \<Longrightarrow> 0 < n"
  by (simp add: match_mention_def Let_def split: if_splits)

lemma match_channel_pos: "match_channel p s = Some n \<Longrightarrow> 0 < n"
  by (simp add: match_channel_def split: list.splits if_splits)

lemma match_token_pos: "match_token prev s = Some (k, n) \<Longrightarrow> 0 < n"
  by (auto simp: match_token_def split: option.splits
      dest: match_contact_pos match_url_pos match_coord_pos match_mention_pos match_channel_pos)

lemma scan_token:
  "Token k raw \<in> set (scan prev s)
     \<Longrightarrow> \<exists>p t n. match_token p t = Some (k, n) \<and> raw = take n t"
proof (induction prev s rule: scan.induct)
  case (2 prev c s)
  show ?case
  proof (cases "match_token prev (c # s)")
    case None
    with 2 show ?thesis by (auto simp: scan.simps)
  next
    case (Some kn)
    then obtain k' n where kn: "match_token prev (c # s) = Some (k', n)" by (cases kn) auto
    from match_token_pos [OF kn] obtain n' where n': "n = Suc n'" by (cases n) auto
    show ?thesis
    proof (cases "k = k' \<and> raw = c # take (n - 1) s")
      case True
      then have "match_token prev (c # s) = Some (k, n) \<and> raw = take n (c # s)" using kn n' by simp
      then show ?thesis by blast
    next
      case False
      with "2.prems" kn have "Token k raw \<in> set (scan (Some (last (c # take (n - 1) s))) (drop (n - 1) s))"
        by (auto simp: scan.simps)
      with "2.IH"(2) [OF kn refl] show ?thesis by blast
    qed
  qed
qed (simp add: scan.simps)

lemma match_token_kind:
  "match_token p t = Some (KUrl, n) \<Longrightarrow> match_url t = Some n"
  "match_token p t = Some (KMention, n) \<Longrightarrow> match_mention t = Some n"
  by (auto simp: match_token_def split: option.splits)

lemma dropWhile_Cons_hd: "dropWhile P xs = y # ys \<Longrightarrow> \<not> P y"
  by (metis hd_dropWhile list.sel(1) list.distinct(1))

lemma match_contact_shape:
  assumes "match_contact s = Some n"
  obtains h k nm r where "s = CHR ''<'' # h @ [CHR '':'', k, CHR '':''] @ nm @ CHR ''>'' # r"
    "length h = 64" "n = 69 + length nm"
proof (cases s)
  case Nil
  with assms show ?thesis by simp
next
  case (Cons c t)
  define r where "r = drop 64 t"
  define nm where "nm = takeWhile (\<lambda>x. x \<noteq> CHR ''>'') (drop 3 r)"
  from assms Cons have c: "c = CHR ''<''" "length (take 64 t) = 64" "n = 69 + length nm"
    "drop (3 + length nm) r \<noteq> []" and "\<exists>k. take 3 r = [CHR '':'', k, CHR '':'']"
    by (auto simp: Let_def r_def nm_def split: if_splits)
  then obtain k where k: "take 3 r = [CHR '':'', k, CHR '':'']" by blast
  have d: "drop 3 r = nm @ dropWhile (\<lambda>x. x \<noteq> CHR ''>'') (drop 3 r)" by (simp add: nm_def)
  have "drop (3 + length nm) r = dropWhile (\<lambda>x. x \<noteq> CHR ''>'') (drop 3 r)"
    by (metis append_eq_conv_conj d drop_drop add.commute)
  with c(4) obtain y ys where y: "dropWhile (\<lambda>x. x \<noteq> CHR ''>'') (drop 3 r) = y # ys"
    by (cases "dropWhile (\<lambda>x. x \<noteq> CHR ''>'') (drop 3 r)") auto
  have "t = take 64 t @ take 3 r @ drop 3 r" by (metis append_take_drop_id r_def)
  then have "t = take 64 t @ [CHR '':'', k, CHR '':''] @ nm @ CHR ''>'' # ys"
    using k d y dropWhile_Cons_hd [OF y] by simp
  with c Cons that show ?thesis by blast
qed

lemma slice_to_last: "slice (int i) (- 1) (xs @ [y]) = drop i xs"
  by (cases "i \<le> length xs")
    (simp_all add: slice_def slice_index_def Let_def nat_add_distrib min_def take_drop)

lemma contact_parts:
  assumes "match_contact raw = Some (length raw)"
  shows "to_lower (part_text (ContactPart (to_lower (take 64 (drop 1 raw))) (raw ! 66) (slice 68 (- 1) raw)))
     = to_lower raw"
proof -
  obtain h k nm r where s: "raw = CHR ''<'' # h @ [CHR '':'', k, CHR '':''] @ nm @ CHR ''>'' # r"
    and h: "length h = 64" and n: "length raw = 69 + length nm"
    by (rule match_contact_shape [OF assms])
  from s h n have "r = []" by simp
  with s have raw: "raw = (CHR ''<'' # h @ [CHR '':'', k, CHR '':''] @ nm) @ [CHR ''>'']" by simp
  have "slice 68 (- 1) raw = nm"
    using slice_to_last [of 68 "CHR ''<'' # h @ [CHR '':'', k, CHR '':''] @ nm" "CHR ''>''"] h
    by (simp add: raw)
  moreover have "raw ! 66 = k" using h by (simp add: raw nth_append nth_Cons')
  moreover have "take 64 (drop 1 raw) = h" using h by (simp add: raw)
  ultimately show ?thesis by (simp add: raw to_lower_append) (simp add: to_lower_def)
qed

lemma mention_shape:
  assumes "match_mention t = Some n"
  shows "\<exists>nm. take n t = ''@['' @ nm @ '']''"
proof -
  define nm where "nm = takeWhile (\<lambda>c. c \<noteq> CHR '']'') (drop 2 t)"
  have n: "n = 3 + length nm" "starts_with ''@['' t" "drop (2 + length nm) t \<noteq> []"
    using assms by (auto simp: match_mention_def Let_def nm_def split: if_splits)
  have d: "drop 2 t = nm @ dropWhile (\<lambda>c. c \<noteq> CHR '']'') (drop 2 t)" by (simp add: nm_def)
  have "drop (2 + length nm) t = dropWhile (\<lambda>c. c \<noteq> CHR '']'') (drop 2 t)"
    by (metis append_eq_conv_conj d drop_drop add.commute)
  with n(3) obtain y ys where y: "dropWhile (\<lambda>c. c \<noteq> CHR '']'') (drop 2 t) = y # ys"
    by (cases "dropWhile (\<lambda>c. c \<noteq> CHR '']'') (drop 2 t)") auto
  have u: "t = ''@['' @ drop 2 t"
    using n(2) append_take_drop_id [of 2 t] by (simp add: starts_with_iff numeral_2_eq_2)
  then have "t = ''@['' @ nm @ CHR '']'' # ys"
    using d y dropWhile_Cons_hd [OF y] by simp
  then have "take n t = ''@['' @ nm @ '']''" using n(1) by (simp add: eval_nat_numeral)
  then show ?thesis by blast
qed

lemma url_parts_text: "concat (map part_text (token_parts own KUrl url)) = url"
proof -
  obtain u v where uv: "splitTrailingPunct url = (u, v)" by fastforce
  then have "u @ v = url" by (auto simp: splitTrailingPunct_def Let_def)
  with uv show ?thesis by (auto simp: token_parts_def)
qed

lemma token_parts_text:
  assumes "match_token p t = Some (k, n)" and "k = KCoord \<longrightarrow> parseCoord (take n t) \<noteq> None"
  shows "to_lower (concat (map part_text (token_parts own k (take n t)))) = to_lower (take n t)"
proof (cases k)
  case KContact
  then show ?thesis using contact_parts [of "take n t"] by (simp add: token_parts_def)
next
  case KUrl
  then show ?thesis by (simp only: url_parts_text)
next
  case KCoord
  with assms(2) show ?thesis by (auto simp: token_parts_def)
next
  case KMention
  with assms(1) obtain nm where nm: "take n t = ''@['' @ nm @ '']''"
    using mention_shape match_token_kind(2) by blast
  have "slice 2 (- 1) ((''@['' @ nm) @ [CHR '']'']) = nm" using slice_to_last [of 2 "''@['' @ nm"] by simp
  with KMention nm show ?thesis by (simp add: token_parts_def Let_def)
next
  case KChannel
  then show ?thesis by (simp add: token_parts_def)
qed

definition genuine :: "segment \<Rightarrow> bool" where
  "genuine sg \<longleftrightarrow> (case sg of Plain c \<Rightarrow> True
     | Token k raw \<Rightarrow> \<exists>p t n. match_token p t = Some (k, n) \<and> raw = take n t)"

lemma scan_genuine: "list_all genuine (scan prev s)"
  by (auto simp: list_all_iff genuine_def split: segment.split dest: scan_token)

lemma render_text:
  "list_all genuine segs \<Longrightarrow>
    to_lower (concat (map part_text (render own pend segs))) = to_lower (pend @ concat (map seg_text segs))"
proof (induction own pend segs rule: render.induct)
  case (1 own pend)
  then show ?case by (simp add: flush_text_def)
next
  case (2 own pend c rest)
  then show ?case by simp
next
  case (3 own pend k token rest)
  have flush: "concat (map part_text (flush_text pend)) = pend" by (simp add: flush_text_def)
  show ?case
  proof (cases "k = KCoord \<and> parseCoord token = None")
    case True
    with 3 show ?thesis by simp
  next
    case False
    from "3.prems" obtain p t n where t: "match_token p t = Some (k, n)" "token = take n t"
      by (auto simp: genuine_def)
    have "to_lower (concat (map part_text (token_parts own k token))) = to_lower token"
      using token_parts_text [OF t(1)] t(2) False by auto
    moreover have "render own pend (Token k token # rest)
        = flush_text pend @ token_parts own k token @ render own [] rest"
      using False by (simp only: render.simps if_False)
    ultimately show ?thesis
      using False 3 flush by (simp add: to_lower_append)
  qed
qed

text \<open>C11: rendering a message loses nothing: the texts of the parts, put side by side, are the message
  again, up to the case of a contact's public key (which the card shows in lower case).\<close>

lemma MessageText_lossless: "to_lower (concat (map part_text (MessageText own txt))) = to_lower txt"
  using render_text [OF scan_genuine, of own "[]" None "txt"] by (simp add: MessageText_def scan_text)

text \<open>What a rendered part may be handed to: a link opens only with the scheme it was matched with, a
  coordinate is a point of the globe.\<close>

fun safe_part :: "part \<Rightarrow> bool" where
  "safe_part (UrlPart u) \<longleftrightarrow> (starts_with ''http://'' u \<or> starts_with ''https://'' u) \<and> list_all url_char u"
| "safe_part (CoordPart lat lon raw) \<longleftrightarrow> - 90 \<le> lat \<and> lat \<le> 90 \<and> - 180 \<le> lon \<and> lon \<le> 180"
| "safe_part _ \<longleftrightarrow> True"

lemma splitTrailingPunct_prefix:
  assumes "\<not> trailing_punct (last p)" "p \<noteq> []"
  shows "\<exists>v. fst (splitTrailingPunct (p @ w)) = p @ v \<and> set v \<subseteq> set w"
proof -
  define k where "k = length (takeWhile trailing_punct (rev (p @ w)))"
  have "k \<le> length w"
  proof (rule ccontr)
    assume "\<not> k \<le> length w"
    then have "takeWhile trailing_punct (rev (p @ w)) ! length w = rev (p @ w) ! length w"
      and "length w < length (takeWhile trailing_punct (rev (p @ w)))"
      by (auto simp: k_def takeWhile_nth)
    then have "trailing_punct (rev (p @ w) ! length w)"
      by (metis nth_mem set_takeWhileD)
    moreover have "rev (p @ w) ! length w = last p"
      using assms(2) by (simp add: nth_append last_rev [symmetric] hd_rev hd_conv_nth [symmetric])
    ultimately show False using assms(1) by simp
  qed
  then have "fst (splitTrailingPunct (p @ w)) = p @ take (length w - k) w"
    by (simp add: splitTrailingPunct_def Let_def k_def [symmetric, unfolded rev_append])
  then show ?thesis by (meson set_take_subset)
qed

lemma match_url_shape:
  assumes "match_url s = Some n"
  shows "\<exists>p w. take n s = p @ w \<and> (p = ''http://'' \<or> p = ''https://'') \<and> list_all url_char w"
proof -
  define p where "p = (if starts_with ''https://'' s then ''https://'' else ''http://'')"
  have len: "length p = (if starts_with ''https://'' s then 8 else 7)" by (simp add: p_def)
  have "starts_with p s" and n: "n = length p + length (takeWhile url_char (drop (length p) s))"
    using assms by (auto simp: match_url_def Let_def len) (auto simp: p_def split: if_splits)
  then have p: "take (length p) s = p" "p = ''http://'' \<or> p = ''https://''"
    "n = length p + length (takeWhile url_char (drop (length p) s))"
    by (simp_all add: starts_with_iff) (simp add: p_def)
  have "take n s = take (length p) s @ take (n - length p) (drop (length p) s)"
    using p(3) by (metis add_diff_cancel_left' take_add)
  also have "take (n - length p) (drop (length p) s) = takeWhile url_char (drop (length p) s)"
    by (simp add: p(3) takeWhile_eq_take [symmetric])
  finally show ?thesis using p(1,2) by (auto simp: list_all_iff dest: set_takeWhileD)
qed

lemma token_parts_safe:
  assumes "match_token p t = Some (k, n)"
  shows "list_all safe_part (token_parts own k (take n t))"
proof (cases k)
  case KUrl
  with assms obtain q w where w: "take n t = q @ w" "q = ''http://'' \<or> q = ''https://''" "list_all url_char w"
    using match_url_shape match_token_kind(1) by blast
  from w(2) have q: "\<not> trailing_punct (last q)" "q \<noteq> []" "list_all url_char q"
    by (auto simp: trailing_punct_def url_char_def char_class_defs)
  obtain v where "fst (splitTrailingPunct (q @ w)) = q @ v" "set v \<subseteq> set w"
    using splitTrailingPunct_prefix [OF q(1,2)] by blast
  then have "safe_part (UrlPart (fst (splitTrailingPunct (take n t))))"
    using w q(3) by (auto simp: starts_with_iff list_all_iff)
  with KUrl show ?thesis by (auto simp: token_parts_def split: prod.splits)
next
  case KCoord
  then show ?thesis by (auto simp: token_parts_def parseCoord_def Let_def split: option.splits if_splits)
qed (simp_all add: token_parts_def Let_def)

lemma render_safe:
  "list_all genuine segs \<Longrightarrow> list_all safe_part (render own pend segs)"
proof (induction own pend segs rule: render.induct)
  case (3 own pend k token rest)
  from "3.prems" obtain p t n where t: "match_token p t = Some (k, n)" "token = take n t"
    by (auto simp: genuine_def)
  with 3 token_parts_safe [OF t(1)] show ?case by (auto simp: flush_text_def)
qed (auto simp: flush_text_def)

text \<open>C12: whatever text a message carries, every link rendered from it starts with \<open>http://\<close> or
  \<open>https://\<close> and holds no whitespace or angle bracket, and every map pin is a point of the globe.\<close>

lemma MessageText_safe: "list_all safe_part (MessageText own text)"
  unfolding MessageText_def by (rule render_safe [OF scan_genuine])

lemma channel_targets_lookup:
  "map_of (foldl (\<lambda>m nm. AList.update (channelKey nm) nm m) acc cs) k
     = (case map_of (map (\<lambda>nm. (channelKey nm, nm)) (rev cs)) k of None \<Rightarrow> map_of acc k | Some v \<Rightarrow> Some v)"
  by (induction cs arbitrary: acc) (auto simp: update_conv' map_add_def split: option.splits)

text \<open>a channel chip opens a channel of the companion exactly when one is configured under that
  name, a hash sign and the case of letters aside; otherwise it offers to add the channel it names.\<close>

lemma chip_resolves:
  "case ChannelChip (channel_targets cs) raw of
     OpenChannel nm \<Rightarrow> nm \<in> set cs \<and> channelKey nm = channelKey raw
   | AddChannel nm \<Rightarrow> channelKey raw \<notin> channelKey ` set cs \<and> nm = slice_from 1 raw"
proof (cases "map_of (channel_targets cs) (channelKey raw)")
  case None
  then have "channelKey raw \<notin> fst ` set (map (\<lambda>nm. (channelKey nm, nm)) (rev cs))"
    by (auto simp: channel_targets_def channel_targets_lookup map_of_eq_None_iff split: option.splits)
  with None show ?thesis by (auto simp: ChannelChip_def image_image)
next
  case (Some nm)
  then have "map_of (map (\<lambda>nm. (channelKey nm, nm)) (rev cs)) (channelKey raw) = Some nm"
    by (auto simp: channel_targets_def channel_targets_lookup split: option.splits)
  then have "(channelKey raw, nm) \<in> set (map (\<lambda>nm. (channelKey nm, nm)) (rev cs))" by (rule map_of_SomeD)
  with Some show ?thesis by (auto simp: ChannelChip_def)
qed

end
