(* ===== verification/ChatList.thy ===== *)
theory ChatList
  imports ChatMessages ChatText
begin

text \<open>
  The roster of the chat page and what it shows of a thread (\<open>pages/CompanionDetailPage.tsx\<close>): the
  conversation list with its three orders, the searches, the people a mention may name, the hearings
  of one message, the character limit. \<open>localeCompare\<close> belongs to the browser's locale data and is
  the parameter \<open>loc\<close>, used only as a comparison.
\<close>

section \<open>Conversations\<close>

record last_message =
  lm_text :: string
  lm_sender :: string
  lm_direction :: string
  lm_timestamp :: string

record conversation =
  cv_id :: string
  cv_type :: string
  cv_name :: string
  cv_channel :: string
  cv_lastMessage :: "last_message option"
  cv_unreadCount :: int
  cv_lastActive :: "string option"
  cv_lastMessageId :: "int option"
  cv_peerType :: "string option"
  cv_isRepeater :: bool
  cv_pubkey :: "string option"

definition convRecency :: "conversation \<Rightarrow> conversation \<Rightarrow> rat" where
  "convRecency a b =
     (if nullish (cv_lastMessageId a) 0 \<noteq> 0 \<and> nullish (cv_lastMessageId b) 0 \<noteq> 0
      then of_int (the (cv_lastMessageId b)) - of_int (the (cv_lastMessageId a))
      else of_int (tsValue (cv_lastActive b)) - of_int (tsValue (cv_lastActive a)))"

definition isPublic :: "conversation \<Rightarrow> bool" where
  "isPublic c \<longleftrightarrow> to_lower (cv_name c) = ''public'' \<or> to_lower (cv_channel c) = ''public''"

definition pinPublic :: "conversation \<Rightarrow> conversation \<Rightarrow> rat" where
  "pinPublic a b = (if isPublic a then 0 else 1) - (if isPublic b then 0 else 1)"

datatype sort_mode = ByRecent | ByName | ByUnread

definition by_unread :: "conversation \<Rightarrow> conversation \<Rightarrow> rat" where
  "by_unread a b =
     (if cv_unreadCount a \<noteq> cv_unreadCount b then of_int (cv_unreadCount b) - of_int (cv_unreadCount a)
      else convRecency a b)"

definition conv_order :: "(string \<Rightarrow> string \<Rightarrow> rat) \<Rightarrow> sort_mode \<Rightarrow> conversation \<Rightarrow> conversation \<Rightarrow> rat" where
  "conv_order loc mode a b =
     cmp_then pinPublic (case mode of
         ByName \<Rightarrow> (\<lambda>a b. loc (cv_name a) (cv_name b))
       | ByUnread \<Rightarrow> by_unread
       | ByRecent \<Rightarrow> convRecency) a b"

definition conv_matches :: "string \<Rightarrow> conversation \<Rightarrow> bool" where
  "conv_matches q c \<longleftrightarrow> str_includes (to_lower (cv_name c)) q
     \<or> (case cv_lastMessage c of None \<Rightarrow> False | Some lm \<Rightarrow> str_includes (to_lower (lm_text lm)) q)"

definition filteredConversations ::
    "(string \<Rightarrow> string \<Rightarrow> rat) \<Rightarrow> conversation list \<Rightarrow> string \<Rightarrow> sort_mode \<Rightarrow> conversation list" where
  "filteredConversations loc convs search mode =
     (let q = to_lower (trim search);
          arr = filter (\<lambda>c. \<not> cv_isRepeater c) convs;
          arr = (if q \<noteq> [] then filter (conv_matches q) arr else arr)
      in js_sort (conv_order loc mode) arr)"

definition threadCount :: "conversation list \<Rightarrow> nat" where
  "threadCount convs = length (filter (\<lambda>c. \<not> cv_isRepeater c) convs)"

definition activeConversation :: "conversation list \<Rightarrow> string option \<Rightarrow> conversation option" where
  "activeConversation convs active =
     (case active of None \<Rightarrow> None | Some ch \<Rightarrow> find (\<lambda>c. cv_channel c = ch) convs)"

datatype open_target = ContactPage string string | Thread string

definition openConversation :: "conversation \<Rightarrow> open_target" where
  "openConversation c =
     (if cv_isRepeater c \<and> truthy_str (cv_pubkey c)
      then ContactPage (the (cv_pubkey c)) (nullish (cv_peerType c) ''REPEATER'')
      else Thread (cv_channel c))"

section \<open>The thread\<close>

definition filteredMessages :: "message list \<Rightarrow> string \<Rightarrow> message list" where
  "filteredMessages ms msgSearch =
     (if trim msgSearch = [] then ms
      else (let q = to_lower msgSearch in
        filter (\<lambda>m. str_includes (to_lower (m_text m)) q \<or> str_includes (to_lower (m_sender m)) q) ms))"

definition mentionNames ::
    "(string \<Rightarrow> string \<Rightarrow> rat) \<Rightarrow> bool \<Rightarrow> string list \<Rightarrow> message list \<Rightarrow> string \<Rightarrow> string list" where
  "mentionNames loc mentionEnabled fetched ms companionName =
     (if \<not> mentionEnabled then []
      else js_sort loc (foldl (\<lambda>names m.
          if m_direction m = ''rx'' \<and> m_sender m \<noteq> [] \<and> m_sender m \<noteq> companionName
          then set_add (m_sender m) names else names)
        (foldl (\<lambda>names p. set_add p names) [] fetched) ms))"

definition charLimit :: "conversation option \<Rightarrow> string \<Rightarrow> int" where
  "charLimit conv companionName =
     (case conv of
        Some c \<Rightarrow>
          if cv_peerType c = Some ''ROOM'' then 151
          else if cv_type c = ''contact'' then 155
          else max 0 (153 - int (length companionName))
      | None \<Rightarrow> max 0 (153 - int (length companionName)))"

definition insertAtCursor :: "string \<Rightarrow> nat option \<Rightarrow> nat option \<Rightarrow> string \<Rightarrow> string \<times> nat" where
  \<comment> \<open>the value of the field, its selection, the text: the new value and caret\<close>
  "insertAtCursor val selStart selEnd text =
     (let st = nullish selStart (length val); en = nullish selEnd (length val)
      in (slice 0 (int st) val @ text @ slice_from (int en) val, st + length text))"

section \<open>Hearings\<close>

record path_hop =
  ph_hash :: string
  ph_peerNames :: "string list"

record path_info =
  pi_hops :: "int option"
  pi_path :: "path_hop list"

record echo_entry =
  ee_id :: int
  ee_receivedAt :: string
  ee_hops :: int
  ee_path :: "path_hop list"
  ee_snr :: "rat jsfield"

record hearing =
  h_key :: string
  h_receivedAt :: string
  h_hops :: "int option"
  h_path :: "path_hop list"
  h_snr :: "rat jsfield"
  h_isOriginal :: bool

definition hearingVia :: "path_hop list \<Rightarrow> int option \<Rightarrow> string" where
  "hearingVia path hops =
     (if path = [] then (if hops = None then ''Direct route '' @ [glyph_middot] @ '' hops unknown'' else ''Direct'')
      else (let l = last path in
        case ph_peerNames l of nm # _ \<Rightarrow> if nm \<noteq> [] then nm else ''#'' @ ph_hash l
        | [] \<Rightarrow> ''#'' @ ph_hash l))"

definition buildHearings :: "path_info option \<Rightarrow> echo_entry list option \<Rightarrow> message option \<Rightarrow> hearing list" where
  "buildHearings path echoes msg =
     js_sort (\<lambda>a b. of_int (tsValue (Some (h_receivedAt a))) - of_int (tsValue (Some (h_receivedAt b))))
       ((case (path, msg) of
           (Some p, Some m) \<Rightarrow>
             [\<lparr>h_key = ''rx'', h_receivedAt = m_receivedAt m, h_hops = pi_hops p, h_path = pi_path p,
               h_snr = m_snr m, h_isOriginal = True\<rparr>]
         | _ \<Rightarrow> [])
        @ map (\<lambda>e. \<lparr>h_key = ''echo-'' @ show_int (ee_id e), h_receivedAt = ee_receivedAt e,
            h_hops = Some (ee_hops e), h_path = ee_path e, h_snr = ee_snr e, h_isOriginal = False\<rparr>)
          (nullish echoes []))"

section \<open>Lemmas\<close>

text \<open>Recency compares row ids where both have one and times otherwise. On a roster where every thread
  has a row id it is one comparison of ids.\<close>

definition numbered :: "conversation \<Rightarrow> bool" where
  "numbered c \<longleftrightarrow> nullish (cv_lastMessageId c) 0 \<noteq> 0"

definition recency_by_id :: "conversation \<Rightarrow> conversation \<Rightarrow> rat" where
  "recency_by_id a b = of_int (nullish (cv_lastMessageId b) 0) - of_int (nullish (cv_lastMessageId a) 0)"

lemma convRecency_numbered: "numbered a \<Longrightarrow> numbered b \<Longrightarrow> convRecency a b = recency_by_id a b"
  by (auto simp: numbered_def convRecency_def recency_by_id_def nullish_def split: option.splits)

definition roster_order :: "(string \<Rightarrow> string \<Rightarrow> rat) \<Rightarrow> sort_mode \<Rightarrow> conversation \<Rightarrow> conversation \<Rightarrow> rat" where
  "roster_order loc mode =
     cmp_then (\<lambda>a b. (if isPublic a then 0 else 1) - (if isPublic b then 0 else 1)) (case mode of
         ByName \<Rightarrow> (\<lambda>a b. loc (cv_name a) (cv_name b))
       | ByUnread \<Rightarrow> cmp_then (\<lambda>a b. of_int (cv_unreadCount b) - of_int (cv_unreadCount a)) recency_by_id
       | ByRecent \<Rightarrow> recency_by_id)"

lemma conv_order_numbered:
  "numbered a \<Longrightarrow> numbered b \<Longrightarrow> conv_order loc mode a b = roster_order loc mode a b"
  by (cases mode) (auto simp: conv_order_def roster_order_def cmp_then_def pinPublic_def by_unread_def
      convRecency_numbered)

lemma js_comparator_recency: "js_comparator recency_by_id"
  unfolding recency_by_id_def by (rule js_comparator_key_desc)

lemma js_comparator_roster:
  assumes "js_comparator loc"
  shows "js_comparator (roster_order loc mode)"
proof -
  have nm: "js_comparator (\<lambda>a b. loc (cv_name a) (cv_name b))"
    using assms by (unfold_locales) (auto dest: js_comparator.cmp_swap js_comparator.cmp_trans)
  have un: "js_comparator (cmp_then (\<lambda>a b. of_int (cv_unreadCount b) - of_int (cv_unreadCount a)) recency_by_id)"
    by (rule js_comparator_then_key_desc [OF js_comparator_recency])
  show ?thesis
    unfolding roster_order_def
    by (rule js_comparator_then_key) (cases mode; simp add: nm un js_comparator_recency)
qed

section \<open>Properties\<close>

text \<open>the roster shows every thread that is not a repeater's and matches the search, each once,
  the public channel first and the rest in the chosen order, when every thread has a last message id.\<close>

theorem roster_sorted:
  assumes "js_comparator loc" and "list_all numbered convs"
  shows "mset (filteredConversations loc convs search mode)
      = mset (filter (\<lambda>c. \<not> cv_isRepeater c \<and> (to_lower (trim search) = [] \<or> conv_matches (to_lower (trim search)) c)) convs)
    \<and> sorted_wrt (\<lambda>a b. conv_order loc mode a b \<le> 0) (filteredConversations loc convs search mode)"
proof -
  define arr where "arr = filter (\<lambda>c. \<not> cv_isRepeater c
    \<and> (to_lower (trim search) = [] \<or> conv_matches (to_lower (trim search)) c)) convs"
  have eq: "filteredConversations loc convs search mode = js_sort (conv_order loc mode) arr"
    by (auto simp: filteredConversations_def arr_def Let_def conj_commute intro!: arg_cong [where f = "js_sort _"] filter_cong)
  have "sorted_wrt (\<lambda>a b. conv_order loc mode a b \<le> 0) (js_sort (conv_order loc mode) arr)"
    by (rule sorted_js_sort_on [OF js_comparator_roster [OF assms(1), of mode]], rule conv_order_numbered)
      (use assms(2) in \<open>auto simp: arr_def list_all_iff\<close>)
  then show ?thesis by (simp add: eq arr_def)
qed

definition sample_conv :: "string \<Rightarrow> int option \<Rightarrow> string \<Rightarrow> conversation" where
  "sample_conv nm newest active =
     \<lparr>cv_id = nm, cv_type = ''channel'', cv_name = nm, cv_channel = nm, cv_lastMessage = None,
      cv_unreadCount = 0, cv_lastActive = Some active, cv_lastMessageId = newest, cv_peerType = None,
      cv_isRepeater = False, cv_pubkey = None\<rparr>"

lemma roster_sorted_witness:
  "map cv_name (filteredConversations (\<lambda>a b. of_nat (length a) - of_nat (length b))
      [sample_conv ''#a'' (Some 3) ''2024-01-01T00:00:00Z'', sample_conv ''Public'' (Some 1) ''2024-01-01T00:00:00Z'',
       sample_conv ''#bc'' (Some 7) ''2024-01-01T00:00:00Z''] [] ByRecent) = [''Public'', ''#bc'', ''#a'']
   \<and> sorted_wrt (\<lambda>a b. conv_order (\<lambda>a b. of_nat (length a) - of_nat (length b)) ByRecent a b \<le> 0)
      (filteredConversations (\<lambda>a b. of_nat (length a) - of_nat (length b))
      [sample_conv ''#a'' (Some 3) ''2024-01-01T00:00:00Z'', sample_conv ''Public'' (Some 1) ''2024-01-01T00:00:00Z'',
       sample_conv ''#bc'' (Some 7) ''2024-01-01T00:00:00Z''] [] ByRecent)"
proof (rule conjI)
  have "list_all numbered [sample_conv ''#a'' (Some 3) ''2024-01-01T00:00:00Z'',
      sample_conv ''Public'' (Some 1) ''2024-01-01T00:00:00Z'', sample_conv ''#bc'' (Some 7) ''2024-01-01T00:00:00Z'']"
    by code_simp
  from roster_sorted [OF js_comparator_key this, THEN conjunct2]
  show "sorted_wrt (\<lambda>a b. conv_order (\<lambda>a b. of_nat (length a) - of_nat (length b)) ByRecent a b \<le> 0)
      (filteredConversations (\<lambda>a b. of_nat (length a) - of_nat (length b))
      [sample_conv ''#a'' (Some 3) ''2024-01-01T00:00:00Z'', sample_conv ''Public'' (Some 1) ''2024-01-01T00:00:00Z'',
       sample_conv ''#bc'' (Some 7) ''2024-01-01T00:00:00Z''] [] ByRecent)" .
qed code_simp

text \<open>A roster where one thread has no last message id has no such order: recency then goes round.\<close>

lemma recency_cycle:
  "convRecency (sample_conv ''a'' (Some 2) ''2024-01-01T00:00:00Z'') (sample_conv ''c'' (Some 1) ''2024-03-01T00:00:00Z'') < 0
   \<and> convRecency (sample_conv ''c'' (Some 1) ''2024-03-01T00:00:00Z'') (sample_conv ''b'' None ''2024-02-01T00:00:00Z'') < 0
   \<and> convRecency (sample_conv ''b'' None ''2024-02-01T00:00:00Z'') (sample_conv ''a'' (Some 2) ''2024-01-01T00:00:00Z'') < 0"
  by code_simp

text \<open>what is offered for a mention is every fetched participant and every other sender heard in the
  thread, each once.\<close>

lemma mention_names_complete:
  "set (mentionNames loc True fetched ms me)
      = set fetched \<union> {m_sender m |m. m \<in> set ms \<and> m_direction m = ''rx'' \<and> m_sender m \<noteq> [] \<and> m_sender m \<noteq> me}
    \<and> distinct (mentionNames loc True fetched ms me)"
proof -
  let ?add = "\<lambda>names m. if m_direction m = ''rx'' \<and> m_sender m \<noteq> [] \<and> m_sender m \<noteq> me
      then set_add (m_sender m) names else names"
  have f: "set (foldl (\<lambda>names p. set_add p names) acc xs) = set acc \<union> set xs
      \<and> (distinct acc \<longrightarrow> distinct (foldl (\<lambda>names p. set_add p names) acc xs))" for acc xs :: "string list"
    by (induction xs arbitrary: acc) (auto simp: set_add_def)
  have g: "set (foldl ?add acc ms) = set acc
      \<union> {m_sender m |m. m \<in> set ms \<and> m_direction m = ''rx'' \<and> m_sender m \<noteq> [] \<and> m_sender m \<noteq> me}
      \<and> (distinct acc \<longrightarrow> distinct (foldl ?add acc ms))" for acc
    by (induction ms arbitrary: acc) (auto simp: set_add_def)
  show ?thesis
    using f [of "[]" fetched] g [of "foldl (\<lambda>names p. set_add p names) [] fetched"]
      distinct_map_js_sort [of id loc]
    by (simp add: mentionNames_def)
qed

end
