(* ===== verification/ChatState.thy ===== *)
theory ChatState
  imports ChatList Http
begin

text \<open>
  The chat page as a state machine (\<open>CompanionChat\<close> in \<open>pages/CompanionDetailPage.tsx\<close>): the rendered
  state, the references that outlive a render, and the requests in flight, each holding what its
  closure captured. A step is one browser event (a channel is opened, a response arrives, a WebSocket
  message, a scroll, a click) followed by the effects React runs for it. Responses arrive in any order: an
  event names the request it answers by its position among those in flight.

  Effects are re-run when a rendered value they depend on changed; values are compared here, where React
  compares references. Text properties a payload leaves out are empty strings.
\<close>

section \<open>State\<close>

record pane =  \<comment> \<open>the scroll container, as measured\<close>
  pn_scrollHeight :: int
  pn_scrollTop :: int
  pn_clientHeight :: int

datatype pending =
    ConversationsReq bool
  | InitialReq string
  | BackfillReq string int "message list" "string option"
      \<comment> \<open>channel, afterId, and the captured \<open>existing\<close> and \<open>activeChannel\<close>\<close>
  | OlderReq string int "message list" "string option" "(int \<times> int) option"
      \<comment> \<open>channel, beforeId, \<open>existing\<close>, \<open>activeChannel\<close>, previous scroll metrics\<close>
  | ReadReq string int
  | SendReq string string
  | DeleteReq message
  | RetryReq message

datatype answer =  \<comment> \<open>a rejected fetch or body, a status outside 200..299, or the body; a null list is \<open>[]\<close>\<close>
    Threw
  | NotOk
  | GotConversations "conversation list"
  | GotMessages "message list"
  | Done

record chat =
  ch_ref :: string
  ch_id :: "int option"
  ch_name :: string
  ch_active :: "string option"                      \<comment> \<open>\<open>activeChannel\<close>\<close>
  ch_conversations :: "conversation list"
  ch_messages :: "message list"
  ch_loadingList :: bool
  ch_loadingMsgs :: bool
  ch_loadingOlder :: bool
  ch_listError :: "string option"
  ch_composer :: string
  ch_sending :: bool
  ch_unreadBelow :: nat
  ch_cache :: "(string \<times> message list) list"       \<comment> \<open>\<open>messageCacheRef\<close>\<close>
  ch_reachedStart :: "string list"                  \<comment> \<open>\<open>reachedStartRef\<close>\<close>
  ch_reported :: "(string \<times> int) list"             \<comment> \<open>\<open>reportedReadRef\<close>\<close>
  ch_prepend :: "(int \<times> int) option"               \<comment> \<open>\<open>pendingPrependRef\<close>\<close>
  ch_skipAuto :: bool                               \<comment> \<open>\<open>skipAutoScrollRef\<close>\<close>
  ch_scrollDone :: bool                             \<comment> \<open>\<open>initialScrollDoneRef\<close>\<close>
  ch_lastAuto :: int                                \<comment> \<open>\<open>lastAutoScrollIdRef\<close>\<close>
  ch_paneHeight :: int                              \<comment> \<open>\<open>lastPaneHeightRef\<close>\<close>
  ch_pending :: "pending list"
  ch_reads :: "(string \<times> int) list"                \<comment> \<open>every read mark posted, oldest first\<close>
  ch_toasts :: "string list"

definition chat_start :: "string \<Rightarrow> int option \<Rightarrow> string \<Rightarrow> chat" where
  "chat_start ref cid nm =
     \<lparr>ch_ref = ref, ch_id = cid, ch_name = nm, ch_active = None, ch_conversations = [], ch_messages = [],
      ch_loadingList = True, ch_loadingMsgs = False, ch_loadingOlder = False, ch_listError = None,
      ch_composer = [], ch_sending = False, ch_unreadBelow = 0, ch_cache = [], ch_reachedStart = [],
      ch_reported = [], ch_prepend = None, ch_skipAuto = False, ch_scrollDone = False, ch_lastAuto = 0,
      ch_paneHeight = 0, ch_pending = [], ch_reads = [], ch_toasts = []\<rparr>"

abbreviation cached :: "chat \<Rightarrow> string \<Rightarrow> message list option" where
  "cached st ch \<equiv> map_of (ch_cache st) ch"

definition set_cache :: "string \<Rightarrow> message list \<Rightarrow> chat \<Rightarrow> chat" where
  "set_cache ch ms st = st\<lparr>ch_cache := AList.update ch ms (ch_cache st)\<rparr>"

definition toast :: "string \<Rightarrow> chat \<Rightarrow> chat" where
  "toast t st = st\<lparr>ch_toasts := ch_toasts st @ [t]\<rparr>"

definition start_request :: "pending \<Rightarrow> chat \<Rightarrow> chat" where
  "start_request r st = st\<lparr>ch_pending := ch_pending st @ [r]\<rparr>"

definition current :: "chat \<Rightarrow> conversation option" where  \<comment> \<open>\<open>activeConversation\<close>\<close>
  "current st = activeConversation (ch_conversations st) (ch_active st)"

section \<open>What goes over the wire\<close>

definition companion_url :: "string \<Rightarrow> string \<Rightarrow> string" where
  "companion_url ref rest = ''/api/companions/'' @ encode_uri ref @ rest"

fun wire :: "string \<Rightarrow> pending \<Rightarrow> http_request" where
  "wire ref (ConversationsReq silent) =
     \<lparr>req_method = GET, req_url = companion_url ref ''/conversations'', req_body = None\<rparr>"
| "wire ref (InitialReq ch) =
     \<lparr>req_method = GET, req_url = companion_url ref (''/messages?channel='' @ encode_uri ch @ ''&limit=100''),
      req_body = None\<rparr>"
| "wire ref (BackfillReq ch afterId existing act) =
     \<lparr>req_method = GET, req_url = companion_url ref
        (''/messages?channel='' @ encode_uri ch @ ''&afterId='' @ show_int afterId @ ''&limit=500''),
      req_body = None\<rparr>"
| "wire ref (OlderReq ch oldest existing act pos) =
     \<lparr>req_method = GET, req_url = companion_url ref
        (''/messages?channel='' @ encode_uri ch @ ''&beforeId='' @ show_int oldest @ ''&limit=100''),
      req_body = None\<rparr>"
| "wire ref (ReadReq conv highest) =
     \<lparr>req_method = POST, req_url = companion_url ref (''/conversations/'' @ encode_uri conv @ ''/read''),
      req_body = Some (JObj [(''lastReadId'', JNum (of_int highest))])\<rparr>"
| "wire ref (SendReq ch txt) =
     \<lparr>req_method = POST, req_url = companion_url ref ''/messages'',
      req_body = Some (JObj [(''channel'', JStr ch), (''text'', JStr txt)])\<rparr>"
| "wire ref (DeleteReq m) =
     \<lparr>req_method = DELETE, req_url = ''/api/messages/'' @ show_int (nullish (num_id (m_id m)) 0),
      req_body = None\<rparr>"
| "wire ref (RetryReq m) =
     \<lparr>req_method = POST, req_url = companion_url ref
        (''/messages/'' @ show_int (nullish (num_id (m_id m)) 0) @ ''/retry''), req_body = None\<rparr>"

section \<open>Loading\<close>

definition loadConversations :: "bool \<Rightarrow> chat \<Rightarrow> chat" where
  "loadConversations silent st =
     (if ch_ref st = [] then st
      else start_request (ConversationsReq silent)
        (if silent then st else st\<lparr>ch_loadingList := True, ch_listError := None\<rparr>))"

definition conversations_answered :: "bool \<Rightarrow> answer \<Rightarrow> chat \<Rightarrow> chat" where
  "conversations_answered silent ans st =
     (let st1 = (case ans of
          GotConversations data \<Rightarrow> st\<lparr>ch_conversations := data, ch_listError := None\<rparr>
        | _ \<Rightarrow> if silent then st else st\<lparr>ch_listError := Some ''Failed to load conversations''\<rparr>)
      in if silent then st1 else st1\<lparr>ch_loadingList := False\<rparr>)"

definition initialLoadMessages :: "string \<Rightarrow> chat \<Rightarrow> chat" where
  "initialLoadMessages ch st =
     (if ch_ref st = [] then st else start_request (InitialReq ch) (st\<lparr>ch_loadingMsgs := True\<rparr>))"

definition initial_answered :: "string \<Rightarrow> answer \<Rightarrow> chat \<Rightarrow> chat" where
  "initial_answered ch ans st =
     (case ans of
        GotMessages data \<Rightarrow> set_cache ch (rev data) (st\<lparr>ch_messages := rev data\<rparr>)
      | _ \<Rightarrow> toast ''Failed to load messages'' st)\<lparr>ch_loadingMsgs := False\<rparr>"

definition backfillMessages :: "string \<Rightarrow> chat \<Rightarrow> chat" where
  "backfillMessages ch st =
     (if ch_ref st = [] then st
      else (let existing = nullish (cached st ch) []; afterId = lastIdOf existing in
        if afterId \<le> 0 then initialLoadMessages ch st
        else start_request (BackfillReq ch afterId existing (ch_active st)) st))"

definition backfill_answered ::
    "string \<Rightarrow> message list \<Rightarrow> string option \<Rightarrow> answer \<Rightarrow> chat \<Rightarrow> chat" where
  "backfill_answered ch existing act ans st =
     (case ans of
        GotMessages delta \<Rightarrow>
          if delta = [] then st
          else (let merged = mergeMessages existing delta; st1 = set_cache ch merged st
            in if Some ch = act then st1\<lparr>ch_messages := merged\<rparr> else st1)
      | _ \<Rightarrow> st)"

definition first_id :: "message list \<Rightarrow> int" where  \<comment> \<open>the first positive id, or 0\<close>
  "first_id ms = (case List.find (\<lambda>m. real_id m \<noteq> None) ms of Some m \<Rightarrow> the (real_id m) | None \<Rightarrow> 0)"

definition loadOlderMessages :: "pane option \<Rightarrow> string \<Rightarrow> chat \<Rightarrow> chat" where
  "loadOlderMessages el ch st =
     (if ch_ref st = [] \<or> ch \<in> set (ch_reachedStart st) then st
      else (let existing = nullish (cached st ch) []; oldest = first_id existing in
        if oldest \<le> 0 then st
        else start_request (OlderReq ch oldest existing (ch_active st)
            (map_option (\<lambda>p. (pn_scrollHeight p, pn_scrollTop p)) el)) (st\<lparr>ch_loadingOlder := True\<rparr>)))"

definition reached_start :: "string \<Rightarrow> chat \<Rightarrow> chat" where
  "reached_start ch st = st\<lparr>ch_reachedStart := set_add ch (ch_reachedStart st)\<rparr>"

definition older_answered ::
    "string \<Rightarrow> message list \<Rightarrow> string option \<Rightarrow> (int \<times> int) option \<Rightarrow> answer \<Rightarrow> chat \<Rightarrow> chat" where
  "older_answered ch existing act pos ans st =
     (case ans of
        GotMessages older \<Rightarrow>
          if older = [] then reached_start ch st
          else (let st1 = (if length older < 100 then reached_start ch st else st);
                    merged = mergeMessages (rev older) existing;
                    st2 = set_cache ch merged st1
            in if Some ch = act
               then (if pos \<noteq> None then st2\<lparr>ch_prepend := pos, ch_skipAuto := True\<rparr> else st2)
                 \<lparr>ch_messages := merged\<rparr>
               else st2)
      | _ \<Rightarrow> st)\<lparr>ch_loadingOlder := False\<rparr>"

abbreviation BOTTOM_SLACK_PX :: int where "BOTTOM_SLACK_PX \<equiv> 80"

definition handleMessagesScroll :: "pane option \<Rightarrow> chat \<Rightarrow> chat" where
  "handleMessagesScroll el st =
     (case (el, ch_active st) of
        (Some p, Some ch) \<Rightarrow>
          if ch = [] then st
          else (let st1 = (if pn_scrollHeight p - pn_scrollTop p - pn_clientHeight p \<le> BOTTOM_SLACK_PX
                  then st\<lparr>ch_unreadBelow := 0\<rparr> else st)
            in if pn_scrollTop p \<le> 80 \<and> \<not> ch_loadingOlder st \<and> \<not> ch_loadingMsgs st
                  \<and> ch \<notin> set (ch_reachedStart st)
               then loadOlderMessages el ch st1 else st1)
      | _ \<Rightarrow> st)"

section \<open>Reading\<close>

definition highest_id :: "message list \<Rightarrow> int" where
  "highest_id ms = foldl (\<lambda>mx m. case num_id (m_id m) of
      Some i \<Rightarrow> if i \<noteq> 0 \<and> i > mx then i else mx | None \<Rightarrow> mx) 0 ms"

definition mark_read :: "conversation option \<Rightarrow> message list \<Rightarrow> chat \<Rightarrow> chat" where
  \<comment> \<open>the effect, run for a render with this \<open>activeConversation\<close> and these \<open>messages\<close>\<close>
  "mark_read conv ms st =
     (case conv of
        None \<Rightarrow> st
      | Some c \<Rightarrow>
          (let highest = highest_id ms in
            if \<not> truthy_str (ch_active st) then st
            else if highest = 0 then st
            else if nullish (map_of (ch_reported st) (cv_id c)) 0 \<ge> highest then st
            else start_request (ReadReq (cv_id c) highest)
              (st\<lparr>ch_reported := AList.update (cv_id c) highest (ch_reported st),
                 ch_reads := ch_reads st @ [(cv_id c, highest)],
                 ch_conversations := (if cv_unreadCount c \<noteq> 0
                    then map (\<lambda>x. if cv_id x = cv_id c then x\<lparr>cv_unreadCount := 0\<rparr> else x) (ch_conversations st)
                    else ch_conversations st)\<rparr>)))"

definition read_answered :: "string \<Rightarrow> answer \<Rightarrow> chat \<Rightarrow> chat" where
  "read_answered conv ans st =
     (if ans = Threw then st\<lparr>ch_reported := AList.delete conv (ch_reported st)\<rparr> else st)"

section \<open>WebSocket messages\<close>

record payload =
  pl_message :: message
  pl_companion :: "string option"
  pl_companionId :: "int option"
  pl_action :: "string option"

fun as_present :: "'a jsfield \<Rightarrow> 'a jsfield" where
  \<comment> \<open>\<open>x: payload.x\<close> makes a property of the new object even when there was none\<close>
  "as_present Missing = Undefined"
| "as_present v = v"

definition payload_mine :: "chat \<Rightarrow> payload \<Rightarrow> bool" where
  "payload_mine st p =
     (case (pl_companionId p, ch_id st) of
        (Some a, Some b) \<Rightarrow> a = b
      | _ \<Rightarrow> pl_companion p = Some (ch_name st) \<or> pl_companion p = Some (ch_ref st))"

definition update_repeat :: "message \<Rightarrow> message \<Rightarrow> message option" where
  "update_repeat p m =
     (if m_id m = m_id p then Some (m\<lparr>m_repeatCount := as_present (prop_or (m_repeatCount p) (m_repeatCount m))\<rparr>)
      else None)"

definition update_status :: "message \<Rightarrow> message \<Rightarrow> message option" where
  "update_status p m =
     (if m_id m = m_id p then Some (m\<lparr>m_status := as_present (prop_or (m_status p) (m_status m))\<rparr>) else None)"

definition patch_thread :: "string \<Rightarrow> (message \<Rightarrow> message option) \<Rightarrow> chat \<Rightarrow> chat" where
  "patch_thread ch fn st =
     (let st1 = (case (if ch \<noteq> [] then cached st ch else None) of
          Some arr \<Rightarrow> set_cache ch (nullish (mapChanged arr fn) arr) st | None \<Rightarrow> st)
      in if Some ch = ch_active st
         then st1\<lparr>ch_messages := nullish (mapChanged (ch_messages st1) fn) (ch_messages st1)\<rparr> else st1)"

definition incoming_of :: "message \<Rightarrow> message" where
  "incoming_of p = p\<lparr>m_id := as_present (m_id p), m_snr := as_present (m_snr p), m_rssi := as_present (m_rssi p),
      m_repeatCount := as_present (m_repeatCount p), m_hops := as_present (m_hops p),
      m_pathHashSize := as_present (m_pathHashSize p), m_status := as_present (m_status p),
      m_floodScope := as_present (m_floodScope p)\<rparr>"

definition merge_incoming :: "message \<Rightarrow> chat \<Rightarrow> chat" where
  "merge_incoming m st =
     (let st1 = (case cached st (m_channel m) of
          Some arr \<Rightarrow> set_cache (m_channel m) (mergeMessages arr [m]) st | None \<Rightarrow> st)
      in if Some (m_channel m) = ch_active st
         then st1\<lparr>ch_messages := mergeMessages (ch_messages st1) [m]\<rparr> else st1)"

definition bump_conversation :: "string option \<Rightarrow> message \<Rightarrow> conversation \<Rightarrow> conversation" where
  "bump_conversation act m c =
     c\<lparr>cv_lastMessage := Some \<lparr>lm_text = m_text m, lm_sender = m_sender m, lm_direction = m_direction m,
         lm_timestamp = m_timestamp m\<rparr>,
       cv_lastActive := Some (m_receivedAt m),
       cv_lastMessageId := (case num_id (m_id m) of Some i \<Rightarrow> Some i | None \<Rightarrow> cv_lastMessageId c),
       cv_unreadCount := (if m_direction m = ''rx'' \<and> Some (m_channel m) \<noteq> act
          then cv_unreadCount c + 1 else cv_unreadCount c)\<rparr>"

definition bump_roster :: "string option \<Rightarrow> message \<Rightarrow> conversation list \<Rightarrow> conversation list" where
  "bump_roster act m convs =
     (case index_where (\<lambda>c. cv_channel c = m_channel m) convs of
        None \<Rightarrow> convs | Some i \<Rightarrow> convs[i := bump_conversation act m (convs ! i)])"

definition handleWsMessage :: "payload \<Rightarrow> chat \<Rightarrow> chat" where
  "handleWsMessage p st =
     (let pm = pl_message p; has_id = (num_id (m_id pm) \<noteq> None) in
      if \<not> payload_mine st p then st
      else if pl_action p = Some ''repeatCount'' \<and> has_id then patch_thread (m_channel pm) (update_repeat pm) st
      else if pl_action p = Some ''status'' \<and> has_id then patch_thread (m_channel pm) (update_status pm) st
      else (let m = incoming_of pm in
        if m_channel m = [] \<or> m_receivedAt m = [] then st
        else (let st1 = merge_incoming m st in
          if m_channel m \<notin> cv_channel ` set (ch_conversations st) then loadConversations True st1
          else st1\<lparr>ch_conversations := bump_roster (ch_active st) m (ch_conversations st1)\<rparr>)))"

section \<open>Sending, deleting, retrying\<close>

definition answer_ok :: "answer \<Rightarrow> bool" where
  "answer_ok ans \<longleftrightarrow> ans \<noteq> Threw \<and> ans \<noteq> NotOk"

definition send :: "chat \<Rightarrow> chat" where
  "send st =
     (case current st of
        None \<Rightarrow> st
      | Some c \<Rightarrow>
          (let txt = trim (ch_composer st); limit = charLimit (current st) (ch_name st) in
            if txt = [] \<or> ch_sending st then st
            else if int (length txt) > limit
            then toast (''Message too long ('' @ show_nat (length txt) @ ''/'' @ show_int limit @ '')'') st
            else start_request (SendReq (cv_channel c) txt) (st\<lparr>ch_sending := True\<rparr>)))"

definition send_answered :: "answer \<Rightarrow> chat \<Rightarrow> chat" where
  "send_answered ans st =
     (if answer_ok ans then st\<lparr>ch_composer := []\<rparr> else toast ''Send failed'' st)\<lparr>ch_sending := False\<rparr>"

definition truthy_id :: "message \<Rightarrow> bool" where  \<comment> \<open>\<open>!!m.id\<close>\<close>
  "truthy_id m \<longleftrightarrow> (case num_id (m_id m) of Some i \<Rightarrow> i \<noteq> 0 | None \<Rightarrow> False)"

definition drop_message :: "message \<Rightarrow> chat \<Rightarrow> chat" where
  "drop_message m st =
     (let st1 = st\<lparr>ch_messages := filter (\<lambda>x. m_id x \<noteq> m_id m) (ch_messages st)\<rparr> in
      case cached st (m_channel m) of
        Some arr \<Rightarrow> set_cache (m_channel m) (filter (\<lambda>x. m_id x \<noteq> m_id m) arr) st1 | None \<Rightarrow> st1)"

definition handleDelete :: "message \<Rightarrow> chat \<Rightarrow> chat" where
  "handleDelete m st = (if truthy_id m then start_request (DeleteReq m) st else st)"

definition handleRetry :: "message \<Rightarrow> chat \<Rightarrow> chat" where
  "handleRetry m st = (if truthy_id m then start_request (RetryReq m) st else st)"

definition delete_answered :: "message \<Rightarrow> answer \<Rightarrow> chat \<Rightarrow> chat" where
  "delete_answered m ans st =
     (if answer_ok ans then toast ''Deleted'' (drop_message m st) else toast ''Delete failed'' st)"

definition retry_answered :: "message \<Rightarrow> answer \<Rightarrow> chat \<Rightarrow> chat" where
  "retry_answered m ans st = (if answer_ok ans then drop_message m st else toast ''Retry failed'' st)"

section \<open>Effects\<close>

definition activate :: "chat \<Rightarrow> chat" where
  "activate st =
     (if \<not> truthy_str (ch_active st) then st\<lparr>ch_messages := []\<rparr>
      else (let ch = the (ch_active st) in
        case cached st ch of
          Some ms \<Rightarrow> backfillMessages ch (st\<lparr>ch_messages := ms, ch_loadingMsgs := False\<rparr>)
        | None \<Rightarrow> initialLoadMessages ch st))"

definition reset_scroll :: "chat \<Rightarrow> chat" where
  "reset_scroll st = st\<lparr>ch_scrollDone := False, ch_lastAuto := 0, ch_paneHeight := 0, ch_unreadBelow := 0\<rparr>"

definition auto_scroll :: "pane option \<Rightarrow> chat \<Rightarrow> chat" where
  "auto_scroll el st =
     (if ch_loadingMsgs st \<or> ch_messages st = [] then st
      else (let
          wasAtEnd = (case el of None \<Rightarrow> True
            | Some p \<Rightarrow> ch_paneHeight st = 0
                \<or> ch_paneHeight st - pn_scrollTop p - pn_clientHeight p \<le> BOTTOM_SLACK_PX);
          st1 = (case el of None \<Rightarrow> st | Some p \<Rightarrow> st\<lparr>ch_paneHeight := pn_scrollHeight p\<rparr>);
          newest = lastIdOf (ch_messages st)
        in if ch_skipAuto st then st1\<lparr>ch_skipAuto := False\<rparr>
           else if newest \<noteq> 0 \<and> newest \<le> ch_lastAuto st then st1
           else (let previous = ch_lastAuto st; st2 = st1\<lparr>ch_lastAuto := newest\<rparr> in
             if \<not> ch_scrollDone st then st2\<lparr>ch_scrollDone := True, ch_unreadBelow := 0\<rparr>
             else if wasAtEnd \<or> m_direction (last (ch_messages st)) = ''tx'' then st2\<lparr>ch_unreadBelow := 0\<rparr>
             else st2\<lparr>ch_unreadBelow := ch_unreadBelow st2
                 + length (filter (\<lambda>m. case num_id (m_id m) of Some i \<Rightarrow> i > previous | None \<Rightarrow> False)
                     (ch_messages st))\<rparr>)))"

text \<open>The effects of the render from \<open>old\<close> to \<open>st\<close>. Marking read changes the roster, and the render that
  follows finds the mark already made.\<close>

definition settle :: "pane option \<Rightarrow> chat \<Rightarrow> chat \<Rightarrow> chat" where
  "settle el old st =
     (let st1 = (if ch_messages st \<noteq> ch_messages old then st\<lparr>ch_prepend := None\<rparr> else st);
          st2 = (if ch_messages st \<noteq> ch_messages old \<or> current st \<noteq> current old
                 then mark_read (current st) (ch_messages st) st1 else st1)
      in if ch_messages st \<noteq> ch_messages old \<or> ch_loadingMsgs st \<noteq> ch_loadingMsgs old
         then auto_scroll el st2 else st2)"

text \<open>Opening a channel commits twice: the first commit still shows the messages of the channel left
  behind, and its effects run with those.\<close>

definition open_channel :: "pane option \<Rightarrow> string option \<Rightarrow> chat \<Rightarrow> chat" where
  "open_channel el ch st =
     (if ch = ch_active st then st
      else (let st0 = st\<lparr>ch_active := ch\<rparr>;
                st1 = mark_read (current st0) (ch_messages st0) (activate st0)
        in settle el st0 (reset_scroll st1)))"

section \<open>Steps\<close>

datatype event =
    Opened "string option"
  | Answered nat answer
  | WsMessage payload
  | Resumed
  | Scrolled
  | Typed string
  | SendPressed
  | DeletePressed message
  | RetryPressed message

fun answered :: "pending \<Rightarrow> answer \<Rightarrow> chat \<Rightarrow> chat" where
  "answered (ConversationsReq silent) ans st = conversations_answered silent ans st"
| "answered (InitialReq ch) ans st = initial_answered ch ans st"
| "answered (BackfillReq ch afterId existing act) ans st = backfill_answered ch existing act ans st"
| "answered (OlderReq ch oldest existing act pos) ans st = older_answered ch existing act pos ans st"
| "answered (ReadReq conv highest) ans st = read_answered conv ans st"
| "answered (SendReq ch txt) ans st = send_answered ans st"
| "answered (DeleteReq m) ans st = delete_answered m ans st"
| "answered (RetryReq m) ans st = retry_answered m ans st"

definition resumed :: "chat \<Rightarrow> chat" where
  "resumed st = loadConversations True
     (if truthy_str (ch_active st) then backfillMessages (the (ch_active st)) st else st)"

fun handle :: "pane option \<Rightarrow> event \<Rightarrow> chat \<Rightarrow> chat" where
  "handle el (Opened ch) st = st"  \<comment> \<open>see \<open>open_channel\<close>\<close>
| "handle el (Answered i ans) st =
     (if i < length (ch_pending st)
      then answered (ch_pending st ! i) ans
        (st\<lparr>ch_pending := take i (ch_pending st) @ drop (Suc i) (ch_pending st)\<rparr>) else st)"
| "handle el (WsMessage p) st = handleWsMessage p st"
| "handle el Resumed st = resumed st"
| "handle el Scrolled st = handleMessagesScroll el st"
| "handle el (Typed txt) st = st\<lparr>ch_composer := txt\<rparr>"
| "handle el SendPressed st = send st"
| "handle el (DeletePressed m) st = handleDelete m st"
| "handle el (RetryPressed m) st = handleRetry m st"

definition step :: "pane option \<times> event \<Rightarrow> chat \<Rightarrow> chat" where
  "step pe st = (case pe of
       (el, Opened ch) \<Rightarrow> open_channel el ch st
     | (el, ev) \<Rightarrow> settle el st (handle el ev st))"

definition chat_run :: "chat \<Rightarrow> (pane option \<times> event) list \<Rightarrow> chat" where
  "chat_run st evs = foldl (\<lambda>s e. step e s) st evs"

definition chat_mount :: "string \<Rightarrow> int option \<Rightarrow> string \<Rightarrow> chat" where
  "chat_mount ref cid nm = loadConversations False (chat_start ref cid nm)"

section \<open>Every thread in memory is in order\<close>

definition thread_ok :: "message list \<Rightarrow> bool" where
  "thread_ok ms \<longleftrightarrow> all_real ms \<and> sorted_wrt (<) (id_list ms)"

fun request_ok :: "pending \<Rightarrow> bool" where
  "request_ok (BackfillReq ch afterId existing act) = thread_ok existing"
| "request_ok (OlderReq ch oldest existing act pos) = thread_ok existing"
| "request_ok _ = True"

definition chat_ok :: "chat \<Rightarrow> bool" where
  "chat_ok st \<longleftrightarrow> thread_ok (ch_messages st) \<and> list_all (\<lambda>kv. thread_ok (snd kv)) (ch_cache st)
     \<and> list_all request_ok (ch_pending st)"

text \<open>What the server promises: stored messages have ids; a page is newest first, each id once.\<close>

fun answer_served :: "pending \<Rightarrow> answer \<Rightarrow> bool" where
  "answer_served (InitialReq ch) (GotMessages data) = thread_ok (rev data)"
| "answer_served (BackfillReq ch afterId existing act) (GotMessages data) = all_real data"
| "answer_served (OlderReq ch oldest existing act pos) (GotMessages data) = thread_ok (rev data)"
| "answer_served _ _ = True"

fun event_served :: "chat \<Rightarrow> event \<Rightarrow> bool" where
  "event_served st (Answered i ans) = (if i < length (ch_pending st) then answer_served (ch_pending st ! i) ans else True)"
| "event_served st (WsMessage p) = (real_id (pl_message p) \<noteq> None)"
| "event_served st _ = True"

fun served :: "chat \<Rightarrow> (pane option \<times> event) list \<Rightarrow> bool" where
  "served st [] = True"
| "served st (e # es) = (event_served st (snd e) \<and> served (step e st) es)"

lemma thread_ok_Nil [simp]: "thread_ok []"
  by (simp add: thread_ok_def)

lemma thread_ok_merge [intro]:
  assumes "thread_ok es" "all_real ds"
  shows "thread_ok (mergeMessages es ds)"
proof -
  have "distinct (id_list es)" using assms(1) by (simp add: thread_ok_def strict_sorted_iff)
  then show ?thesis
    using mergeMessages_ids [of es ds] mergeMessages_facts(1) [of es ds] assms
    by (simp add: thread_ok_def)
qed

lemma thread_ok_all_real [dest]: "thread_ok ms \<Longrightarrow> all_real ms"
  by (simp add: thread_ok_def)

lemma thread_ok_filter [intro]: "thread_ok ms \<Longrightarrow> thread_ok (filter P ms)"
  by (induction ms) (auto simp: thread_ok_def id_list_def image_iff)

lemma thread_ok_patch [intro]:
  assumes "thread_ok ms" and "\<And>m m'. fn m = Some m' \<Longrightarrow> m_id m' = m_id m"
  shows "thread_ok (nullish (mapChanged ms fn) ms)"
proof -
  have same: "real_id (nullish (fn m) m) = real_id m" for m
    using assms(2) [of m] by (cases "fn m") (auto simp: nullish_def real_id_def)
  then have "id_list (map (\<lambda>m. nullish (fn m) m) ms) = id_list ms" by (simp add: id_list_def)
  moreover have "all_real (map (\<lambda>m. nullish (fn m) m) ms) = all_real ms"
    by (simp add: all_real_def list_all_iff same)
  ultimately show ?thesis
    using assms(1) by (auto simp: thread_ok_def mapChanged_def nullish_def)
qed

lemma list_all_update [intro]: "P (k, v) \<Longrightarrow> list_all P al \<Longrightarrow> list_all P (AList.update k v al)"
  by (induction al) auto

lemma cached_ok [dest]: "chat_ok st \<Longrightarrow> cached st ch = Some ms \<Longrightarrow> thread_ok ms"
  by (drule map_of_SomeD) (force simp: chat_ok_def list_all_iff)

lemma set_cache_sel [simp]:
  "ch_messages (set_cache ch ms st) = ch_messages st" "ch_active (set_cache ch ms st) = ch_active st"
  "ch_conversations (set_cache ch ms st) = ch_conversations st"
  "ch_pending (set_cache ch ms st) = ch_pending st" "ch_reads (set_cache ch ms st) = ch_reads st"
  "ch_reported (set_cache ch ms st) = ch_reported st"
  "cached (set_cache ch ms st) k = (if k = ch then Some ms else cached st k)"
  by (simp_all add: set_cache_def update_conv')

lemma cached_ok_or_Nil [simp]: "chat_ok st \<Longrightarrow> thread_ok (nullish (cached st ch) [])"
  by (cases "cached st ch") (auto simp: nullish_def)

lemma chat_ok_set_cache [intro]: "chat_ok st \<Longrightarrow> thread_ok ms \<Longrightarrow> chat_ok (set_cache ch ms st)"
  by (auto simp: chat_ok_def set_cache_def)

lemma chat_ok_messages [intro]: "chat_ok st \<Longrightarrow> thread_ok ms \<Longrightarrow> chat_ok (st\<lparr>ch_messages := ms\<rparr>)"
  by (simp add: chat_ok_def)

lemma chat_ok_request [intro]: "chat_ok st \<Longrightarrow> request_ok r \<Longrightarrow> chat_ok (start_request r st)"
  by (simp add: chat_ok_def start_request_def)

lemma chat_ok_view [dest]: "chat_ok st \<Longrightarrow> thread_ok (ch_messages st)"
  by (simp add: chat_ok_def)

lemma chat_ok_others [simp]:
  "chat_ok (st\<lparr>ch_active := a\<rparr>) = chat_ok st" "chat_ok (st\<lparr>ch_conversations := cs\<rparr>) = chat_ok st"
  "chat_ok (st\<lparr>ch_loadingList := b\<rparr>) = chat_ok st" "chat_ok (st\<lparr>ch_loadingMsgs := b\<rparr>) = chat_ok st"
  "chat_ok (st\<lparr>ch_loadingOlder := b\<rparr>) = chat_ok st" "chat_ok (st\<lparr>ch_listError := e\<rparr>) = chat_ok st"
  "chat_ok (st\<lparr>ch_composer := s\<rparr>) = chat_ok st" "chat_ok (st\<lparr>ch_sending := b\<rparr>) = chat_ok st"
  "chat_ok (st\<lparr>ch_unreadBelow := n\<rparr>) = chat_ok st" "chat_ok (st\<lparr>ch_reachedStart := rs\<rparr>) = chat_ok st"
  "chat_ok (st\<lparr>ch_reported := rp\<rparr>) = chat_ok st" "chat_ok (st\<lparr>ch_prepend := p\<rparr>) = chat_ok st"
  "chat_ok (st\<lparr>ch_skipAuto := b\<rparr>) = chat_ok st" "chat_ok (st\<lparr>ch_scrollDone := b\<rparr>) = chat_ok st"
  "chat_ok (st\<lparr>ch_lastAuto := i\<rparr>) = chat_ok st" "chat_ok (st\<lparr>ch_paneHeight := i\<rparr>) = chat_ok st"
  "chat_ok (st\<lparr>ch_reads := rd\<rparr>) = chat_ok st" "chat_ok (toast t st) = chat_ok st"
  by (simp_all add: chat_ok_def toast_def)

lemma chat_ok_mark_read [intro]: "chat_ok st \<Longrightarrow> chat_ok (mark_read c ms st)"
  by (auto simp: mark_read_def Let_def split: option.split)

lemma chat_ok_auto_scroll [intro]: "chat_ok st \<Longrightarrow> chat_ok (auto_scroll el st)"
  by (auto simp: auto_scroll_def Let_def split: option.split)

lemma chat_ok_settle [intro]: "chat_ok st \<Longrightarrow> chat_ok (settle el old st)"
  unfolding settle_def Let_def by (auto intro!: chat_ok_auto_scroll chat_ok_mark_read)

lemma chat_ok_initialLoad [intro]: "chat_ok st \<Longrightarrow> chat_ok (initialLoadMessages ch st)"
  by (auto simp: initialLoadMessages_def)

lemma chat_ok_backfill [intro]: "chat_ok st \<Longrightarrow> chat_ok (backfillMessages ch st)"
  by (auto simp: backfillMessages_def Let_def)

lemma chat_ok_loadConversations [intro]: "chat_ok st \<Longrightarrow> chat_ok (loadConversations b st)"
  by (auto simp: loadConversations_def)

lemma chat_ok_activate [intro]: "chat_ok st \<Longrightarrow> chat_ok (activate st)"
  by (auto simp: activate_def Let_def split: option.split intro!: chat_ok_backfill chat_ok_messages)

lemma chat_ok_open [intro]: "chat_ok st \<Longrightarrow> chat_ok (open_channel el ch st)"
  unfolding open_channel_def Let_def reset_scroll_def
  by (auto intro!: chat_ok_settle chat_ok_mark_read chat_ok_activate)

lemma chat_ok_patch [intro]:
  assumes "chat_ok st" "\<And>m m'. fn m = Some m' \<Longrightarrow> m_id m' = m_id m"
  shows "chat_ok (patch_thread ch fn st)"
  unfolding patch_thread_def Let_def using assms
  by (auto split: option.split intro!: chat_ok_messages chat_ok_set_cache thread_ok_patch)

lemma chat_ok_merge_incoming [intro]:
  assumes "chat_ok st" "real_id m \<noteq> None"
  shows "chat_ok (merge_incoming m st)"
  unfolding merge_incoming_def Let_def using assms
  by (auto split: option.split intro!: chat_ok_messages chat_ok_set_cache thread_ok_merge)

lemma chat_ok_drop [intro]: "chat_ok st \<Longrightarrow> chat_ok (drop_message m st)"
  unfolding drop_message_def Let_def
  by (auto split: option.split intro!: chat_ok_messages chat_ok_set_cache)

lemma real_id_incoming [simp]: "real_id (incoming_of m) = real_id m"
  by (cases "m_id m") (simp_all add: incoming_of_def real_id_def)

lemma chat_ok_ws [intro]:
  assumes "chat_ok st" "real_id (pl_message p) \<noteq> None"
  shows "chat_ok (handleWsMessage p st)"
  unfolding handleWsMessage_def Let_def using assms
  by (auto intro!: chat_ok_patch chat_ok_loadConversations chat_ok_merge_incoming
      simp: update_repeat_def update_status_def split: if_splits)

lemma chat_ok_answered [intro]:
  assumes "chat_ok st" "request_ok r" "answer_served r ans"
  shows "chat_ok (answered r ans st)"
  using assms
  by (cases r; cases ans)
    (auto simp: conversations_answered_def initial_answered_def backfill_answered_def older_answered_def
      reached_start_def read_answered_def send_answered_def delete_answered_def retry_answered_def Let_def
      intro!: chat_ok_messages chat_ok_set_cache thread_ok_merge)

lemma chat_ok_unqueue [intro]:
  "chat_ok st \<Longrightarrow> chat_ok (st\<lparr>ch_pending := take i (ch_pending st) @ drop (Suc i) (ch_pending st)\<rparr>)"
  by (auto simp: chat_ok_def list_all_iff dest: in_set_takeD in_set_dropD)

lemma chat_ok_scroll [intro]: "chat_ok st \<Longrightarrow> chat_ok (handleMessagesScroll el st)"
  unfolding handleMessagesScroll_def loadOlderMessages_def Let_def
  by (auto split: option.split intro!: chat_ok_request)

lemma chat_ok_handle [intro]:
  assumes "chat_ok st" "event_served st ev"
  shows "chat_ok (handle el ev st)"
proof (cases ev)
  case (Answered i ans)
  show ?thesis
  proof (cases "i < length (ch_pending st)")
    case True
    then have "request_ok (ch_pending st ! i)" using assms(1) by (simp add: chat_ok_def list_all_iff)
    with True Answered assms show ?thesis by (auto intro!: chat_ok_answered chat_ok_unqueue)
  qed (use Answered assms in simp)
next
  case Resumed
  with assms show ?thesis by (auto simp: resumed_def intro!: chat_ok_loadConversations)
next
  case SendPressed
  with assms show ?thesis by (auto simp: send_def Let_def split: option.split)
qed (use assms in \<open>auto simp: handleDelete_def handleRetry_def\<close>)

lemma step_cases:
  obtains (opened) ch where "ev = Opened ch" "step (el, ev) st = open_channel el ch st"
  | (handled) "step (el, ev) st = settle el st (handle el ev st)"
  by (cases ev) (auto simp: step_def simp del: handle.simps)

lemma chat_ok_step:
  assumes "chat_ok st" "event_served st (snd e)"
  shows "chat_ok (step e st)"
proof -
  obtain el ev where e: "e = (el, ev)" by (cases e)
  show ?thesis unfolding e
    by (rule step_cases [of ev el st]; simp del: handle.simps)
      (use assms in \<open>auto simp: e simp del: handle.simps event_served.simps\<close>)
qed

lemma chat_ok_run: "chat_ok st \<Longrightarrow> served st evs \<Longrightarrow> chat_ok (chat_run st evs)"
  by (induction evs arbitrary: st) (auto simp: chat_run_def intro: chat_ok_step)

lemma chat_ok_mount: "chat_ok (chat_mount ref cid nm)"
  by (auto simp: chat_mount_def chat_ok_def chat_start_def loadConversations_def start_request_def)

section \<open>Read marks only rise\<close>

definition reads_of :: "string \<Rightarrow> chat \<Rightarrow> int list" where
  "reads_of conv st = map snd (filter (\<lambda>r. fst r = conv) (ch_reads st))"

definition marks :: "chat \<Rightarrow> (string \<times> int) list \<times> (string \<times> int) list" where
  "marks st = (ch_reads st, ch_reported st)"

definition marks_ok :: "(string \<times> int) list \<times> (string \<times> int) list \<Rightarrow> bool" where
  "marks_ok rr \<longleftrightarrow> (\<forall>conv. let xs = map snd (filter (\<lambda>r. fst r = conv) (fst rr)) in
     sorted_wrt (<) (0 # xs) \<and> last (0 # xs) \<le> nullish (map_of (snd rr) conv) 0)"

lemma sorted_snoc: "sorted_wrt (<) (xs @ [y]) \<longleftrightarrow> sorted_wrt (<) xs \<and> (\<forall>x\<in>set xs. x < (y :: int))"
  by (auto simp: sorted_wrt_append)

lemma sorted_last: "sorted_wrt (<) xs \<Longrightarrow> z \<in> set xs \<Longrightarrow> z \<le> (last xs :: int)"
  by (cases xs rule: rev_cases) (auto simp: sorted_wrt_append)

lemma highest_id_nonneg: "0 \<le> highest_id ms"
proof -
  have "0 \<le> acc \<Longrightarrow> 0 \<le> foldl (\<lambda>mx m. case num_id (m_id m) of
      Some i \<Rightarrow> if i \<noteq> 0 \<and> i > mx then i else mx | None \<Rightarrow> mx) acc ms" for acc
  proof (induction ms arbitrary: acc)
    case (Cons m ms)
    then show ?case by (cases "num_id (m_id m)") simp_all
  qed simp
  then show ?thesis by (simp add: highest_id_def)
qed

lemma marks_ok_append:
  assumes "marks_ok (rd, rp)" "0 < h" "nullish (map_of rp c) 0 < h"
  shows "marks_ok (rd @ [(c, h)], AList.update c h rp)"
  unfolding marks_ok_def Let_def fst_conv snd_conv
proof
  fix conv
  define xs where "xs = map snd (filter (\<lambda>r. fst r = conv) rd)"
  have xs: "sorted_wrt (<) (0 # xs)" "last (0 # xs) \<le> nullish (map_of rp conv) 0"
    using assms(1) by (auto simp: marks_ok_def Let_def xs_def simp del: sorted_wrt.simps last.simps)
  show "sorted_wrt (<) (0 # map snd (filter (\<lambda>r. fst r = conv) (rd @ [(c, h)])))
    \<and> last (0 # map snd (filter (\<lambda>r. fst r = conv) (rd @ [(c, h)])))
        \<le> nullish (map_of (AList.update c h rp) conv) 0"
  proof (cases "conv = c")
    case True
    have "z < h" if "z \<in> set (0 # xs)" for z
      using order_trans [OF sorted_last [OF xs(1) that] xs(2)] assms(3) True by simp
    then have "sorted_wrt (<) ((0 # xs) @ [h])" using xs(1) by (simp only: sorted_snoc) blast
    then show ?thesis using True by (simp add: xs_def update_conv' nullish_def)
  next
    case False
    then show ?thesis using xs by (simp add: xs_def update_conv')
  qed
qed

lemma marks_mark_read: "marks_ok (marks st) \<Longrightarrow> marks_ok (marks (mark_read c ms st))"
  using highest_id_nonneg [of ms]
  by (auto simp: mark_read_def marks_def start_request_def Let_def intro!: marks_ok_append split: option.split)

lemma marks_fields [simp]:
  "marks (st\<lparr>ch_active := a\<rparr>) = marks st" "marks (st\<lparr>ch_conversations := cs\<rparr>) = marks st"
  "marks (st\<lparr>ch_messages := ms\<rparr>) = marks st" "marks (st\<lparr>ch_cache := kv\<rparr>) = marks st"
  "marks (st\<lparr>ch_loadingList := b\<rparr>) = marks st" "marks (st\<lparr>ch_loadingMsgs := b\<rparr>) = marks st"
  "marks (st\<lparr>ch_loadingOlder := b\<rparr>) = marks st" "marks (st\<lparr>ch_listError := e\<rparr>) = marks st"
  "marks (st\<lparr>ch_composer := s\<rparr>) = marks st" "marks (st\<lparr>ch_sending := b\<rparr>) = marks st"
  "marks (st\<lparr>ch_unreadBelow := n\<rparr>) = marks st" "marks (st\<lparr>ch_reachedStart := rs\<rparr>) = marks st"
  "marks (st\<lparr>ch_prepend := p\<rparr>) = marks st" "marks (st\<lparr>ch_pending := q\<rparr>) = marks st"
  "marks (st\<lparr>ch_skipAuto := b\<rparr>) = marks st" "marks (st\<lparr>ch_scrollDone := b\<rparr>) = marks st"
  "marks (st\<lparr>ch_lastAuto := i\<rparr>) = marks st" "marks (st\<lparr>ch_paneHeight := i\<rparr>) = marks st"
  "marks (st\<lparr>ch_toasts := ts\<rparr>) = marks st"
  by (simp_all add: marks_def)

lemma marks_unchanged [simp]:
  "marks (start_request r st) = marks st" "marks (toast t st) = marks st"
  "marks (loadConversations b st) = marks st" "marks (initialLoadMessages ch st) = marks st"
  "marks (backfillMessages ch st) = marks st" "marks (activate st) = marks st"
  "marks (auto_scroll el st) = marks st" "marks (reset_scroll st) = marks st"
  "marks (set_cache ch ms st) = marks st" "marks (drop_message m st) = marks st"
  by (simp_all add: start_request_def toast_def loadConversations_def initialLoadMessages_def
      backfillMessages_def activate_def auto_scroll_def reset_scroll_def set_cache_def drop_message_def
      Let_def split: option.split)

lemma marks_settle: "marks_ok (marks st) \<Longrightarrow> marks_ok (marks (settle el old st))"
  by (simp add: settle_def Let_def marks_mark_read)

lemma marks_open: "marks_ok (marks st) \<Longrightarrow> marks_ok (marks (open_channel el ch st))"
  by (simp add: open_channel_def Let_def marks_settle marks_mark_read)

definition read_fails :: "pane option \<times> event \<Rightarrow> bool" where
  "read_fails e \<longleftrightarrow> (case e of (_, Answered i Threw) \<Rightarrow> True | _ \<Rightarrow> False)"

lemma marks_answered: "ans \<noteq> Threw \<Longrightarrow> marks (answered r ans st) = marks st"
  by (cases r; cases ans)
    (simp_all add: conversations_answered_def initial_answered_def backfill_answered_def
      older_answered_def reached_start_def read_answered_def send_answered_def delete_answered_def
      retry_answered_def Let_def)

lemma marks_ws: "marks (handleWsMessage p st) = marks st"
proof -
  have "marks (patch_thread ch fn st) = marks st" for ch fn
    by (simp add: patch_thread_def Let_def split: option.split)
  moreover have "marks (merge_incoming m st) = marks st" for m
    by (simp add: merge_incoming_def Let_def split: option.split)
  ultimately show ?thesis by (simp add: handleWsMessage_def Let_def)
qed

lemma marks_handle: "\<not> read_fails (el, ev) \<Longrightarrow> marks (handle el ev st) = marks st"
proof (cases ev)
  case (Answered i ans)
  assume "\<not> read_fails (el, ev)"
  then have "ans \<noteq> Threw" using Answered by (auto simp: read_fails_def)
  then show ?thesis using Answered by (simp add: marks_answered)
next
  case (WsMessage p)
  then show ?thesis by (simp add: marks_ws)
next
  case Scrolled
  then show ?thesis
    by (auto simp: handleMessagesScroll_def loadOlderMessages_def Let_def split: option.split)
next
  case SendPressed
  then show ?thesis by (auto simp: send_def Let_def split: option.split)
qed (auto simp: resumed_def handleDelete_def handleRetry_def)

lemma marks_step:
  assumes "marks_ok (marks st)" "\<not> read_fails e"
  shows "marks_ok (marks (step e st))"
proof -
  obtain el ev where e: "e = (el, ev)" by (cases e)
  show ?thesis unfolding e
    by (rule step_cases [of ev el st]; simp del: handle.simps)
      (use assms in \<open>auto simp: e marks_handle marks_settle marks_open simp del: handle.simps\<close>)
qed

lemma marks_run:
  "marks_ok (marks st) \<Longrightarrow> list_all (\<lambda>e. \<not> read_fails e) evs \<Longrightarrow> marks_ok (marks (chat_run st evs))"
  by (induction evs arbitrary: st) (auto simp: chat_run_def marks_step)

lemma marks_mount: "marks_ok (marks (chat_mount ref cid nm))"
  by (simp add: chat_mount_def) (simp add: marks_def marks_ok_def chat_start_def nullish_def)

section \<open>What is shown is what is kept\<close>

text \<open>The thread on screen and its cached copy are changed by separate statements. They agree as long as
  no answer to a load or a delete arrives: every other event keeps them equal.\<close>

definition coherent :: "chat \<Rightarrow> bool" where
  "coherent st \<longleftrightarrow> (case ch_active st of None \<Rightarrow> True
     | Some ch \<Rightarrow> (case cached st ch of None \<Rightarrow> True | Some ms \<Rightarrow> ch = [] \<or> ch_messages st = ms))"

definition thread_state :: "chat \<Rightarrow> string option \<times> (string \<times> message list) list \<times> message list" where
  "thread_state st = (ch_active st, ch_cache st, ch_messages st)"

lemma coherent_cong: "thread_state s = thread_state t \<Longrightarrow> coherent s = coherent t"
  by (simp add: thread_state_def coherent_def split: option.split)

lemma thread_state_fields [simp]:
  "thread_state (st\<lparr>ch_conversations := cs\<rparr>) = thread_state st" "thread_state (st\<lparr>ch_loadingList := b\<rparr>) = thread_state st"
  "thread_state (st\<lparr>ch_loadingMsgs := b\<rparr>) = thread_state st" "thread_state (st\<lparr>ch_loadingOlder := b\<rparr>) = thread_state st"
  "thread_state (st\<lparr>ch_listError := e\<rparr>) = thread_state st" "thread_state (st\<lparr>ch_composer := s\<rparr>) = thread_state st"
  "thread_state (st\<lparr>ch_sending := b\<rparr>) = thread_state st" "thread_state (st\<lparr>ch_unreadBelow := n\<rparr>) = thread_state st"
  "thread_state (st\<lparr>ch_reachedStart := rs\<rparr>) = thread_state st" "thread_state (st\<lparr>ch_reported := rp\<rparr>) = thread_state st"
  "thread_state (st\<lparr>ch_prepend := p\<rparr>) = thread_state st" "thread_state (st\<lparr>ch_pending := q\<rparr>) = thread_state st"
  "thread_state (st\<lparr>ch_skipAuto := b\<rparr>) = thread_state st" "thread_state (st\<lparr>ch_scrollDone := b\<rparr>) = thread_state st"
  "thread_state (st\<lparr>ch_lastAuto := i\<rparr>) = thread_state st" "thread_state (st\<lparr>ch_paneHeight := i\<rparr>) = thread_state st"
  "thread_state (st\<lparr>ch_reads := rd\<rparr>) = thread_state st" "thread_state (st\<lparr>ch_toasts := ts\<rparr>) = thread_state st"
  by (simp_all add: thread_state_def)

lemma thread_state_unchanged [simp]:
  "thread_state (start_request r st) = thread_state st" "thread_state (toast t st) = thread_state st"
  "thread_state (loadConversations b st) = thread_state st" "thread_state (initialLoadMessages ch st) = thread_state st"
  "thread_state (backfillMessages ch st) = thread_state st" "thread_state (mark_read c ms st) = thread_state st"
  "thread_state (auto_scroll el st) = thread_state st" "thread_state (reset_scroll st) = thread_state st"
  by (simp_all add: start_request_def toast_def loadConversations_def initialLoadMessages_def
      backfillMessages_def mark_read_def auto_scroll_def reset_scroll_def Let_def split: option.split)

lemma thread_state_settle [simp]: "thread_state (settle el old st) = thread_state st"
  by (simp add: settle_def Let_def)

lemma coherent_settle [simp]: "coherent (settle el old st) = coherent st"
  by (rule coherent_cong) simp

lemma coherent_activate: "coherent (activate st)"
proof (cases "truthy_str (ch_active st)")
  case True
  then obtain ch where ch: "ch_active st = Some ch" "ch \<noteq> []" by (cases "ch_active st") (auto simp: truthy_str_def)
  show ?thesis
  proof (cases "cached st ch")
    case None
    then have "coherent st" using ch by (simp add: coherent_def)
    then show ?thesis using True None ch
      by (simp add: activate_def Let_def coherent_cong [of "initialLoadMessages ch st" st])
  next
    case (Some ms)
    define st' where "st' = st\<lparr>ch_messages := ms, ch_loadingMsgs := False\<rparr>"
    have "coherent st'" using Some ch by (simp add: coherent_def st'_def)
    then show ?thesis using True Some ch
      by (simp add: activate_def Let_def coherent_cong [of "backfillMessages ch st'" st'] flip: st'_def)
  qed
next
  case False
  then show ?thesis by (auto simp: activate_def coherent_def truthy_str_def split: option.splits)
qed

lemma coherent_open: "coherent st \<Longrightarrow> coherent (open_channel el ch st)"
proof -
  define st0 where "st0 = st\<lparr>ch_active := ch\<rparr>"
  have "coherent (reset_scroll (mark_read (current st0) (ch_messages st0) (activate st0)))"
    using coherent_activate [of st0] by (subst coherent_cong [of _ "activate st0"]) simp_all
  then show "coherent st \<Longrightarrow> coherent (open_channel el ch st)"
    by (simp add: open_channel_def Let_def flip: st0_def)
qed

lemma coherent_patch: "coherent st \<Longrightarrow> coherent (patch_thread ch fn st)"
  by (auto simp: patch_thread_def coherent_def Let_def set_cache_def update_conv' split: option.splits if_splits)

lemma coherent_merge: "coherent st \<Longrightarrow> coherent (merge_incoming m st)"
  by (auto simp: merge_incoming_def coherent_def Let_def set_cache_def update_conv' split: option.splits if_splits)

lemma coherent_ws:
  assumes "coherent st"
  shows "coherent (handleWsMessage p st)"
proof -
  define s1 where "s1 = merge_incoming (incoming_of (pl_message p)) st"
  have s1: "coherent s1" using assms by (simp add: s1_def coherent_merge)
  moreover have "coherent (loadConversations True s1)" "coherent (s1\<lparr>ch_conversations := cs\<rparr>)" for cs
    using s1 by (simp_all add: coherent_cong [of "loadConversations True s1" s1]
        coherent_cong [of "s1\<lparr>ch_conversations := cs\<rparr>" s1])
  ultimately show ?thesis
    using assms coherent_patch by (simp add: handleWsMessage_def Let_def flip: s1_def)
qed

fun loads_or_deletes :: "pending \<Rightarrow> bool" where
  "loads_or_deletes (ConversationsReq b) = False"
| "loads_or_deletes (ReadReq c h) = False"
| "loads_or_deletes (SendReq c t) = False"
| "loads_or_deletes _ = True"

fun settled_event :: "chat \<Rightarrow> event \<Rightarrow> bool" where
  "settled_event st (Answered i ans) = (\<not> (i < length (ch_pending st) \<and> loads_or_deletes (ch_pending st ! i)))"
| "settled_event st _ = True"

lemma thread_state_handle:
  assumes "settled_event st ev" "\<And>p. ev \<noteq> WsMessage p"
  shows "thread_state (handle el ev st) = thread_state st"
proof (cases ev)
  case (Answered i ans)
  show ?thesis
  proof (cases "i < length (ch_pending st)")
    case True
    with Answered assms(1) have "\<not> loads_or_deletes (ch_pending st ! i)" by simp
    then have "thread_state (answered (ch_pending st ! i) ans s) = thread_state s" for s
      by (cases "ch_pending st ! i"; cases ans)
        (simp_all add: conversations_answered_def read_answered_def send_answered_def Let_def)
    with True Answered show ?thesis by simp
  qed (use Answered in simp)
next
  case Scrolled
  then show ?thesis
    by (auto simp: handleMessagesScroll_def loadOlderMessages_def Let_def split: option.split)
next
  case SendPressed
  then show ?thesis by (auto simp: send_def Let_def split: option.split)
qed (use assms in \<open>auto simp: resumed_def handleDelete_def handleRetry_def\<close>)

lemma coherent_step:
  assumes "coherent st" "settled_event st ev"
  shows "coherent (step (el, ev) st)"
proof (rule step_cases [of ev el st])
  fix ch assume "step (el, ev) st = open_channel el ch st"
  with assms(1) show ?thesis by (simp add: coherent_open)
next
  assume eq: "step (el, ev) st = settle el st (handle el ev st)"
  show ?thesis
  proof (cases "\<exists>p. ev = WsMessage p")
    case True
    with eq assms(1) show ?thesis by (auto simp: coherent_ws)
  next
    case False
    with assms(2) have "thread_state (handle el ev st) = thread_state st" by (intro thread_state_handle) auto
    with eq assms(1) show ?thesis by (simp add: coherent_cong [of "handle el ev st" st])
  qed
qed

section \<open>Properties\<close>

text \<open>C1: whatever order events and answers come in, the thread on screen, every cached thread and every
  copy a request in flight captured hold only stored messages, in strictly increasing id order, as long as
  the server's pages do.\<close>

theorem threads_in_order:
  assumes "served (chat_mount ref cid nm) evs"
  shows "chat_ok (chat_run (chat_mount ref cid nm) evs)"
  using assms by (rule chat_ok_run [OF chat_ok_mount])

definition sample_payload :: "message \<Rightarrow> payload" where
  "sample_payload m = \<lparr>pl_message = m, pl_companion = Some ''home'', pl_companionId = Some 1, pl_action = None\<rparr>"

definition sample_roster :: "conversation list" where
  "sample_roster = [sample_conv ''#a'' (Some 3) ''2024-01-01T00:00:00Z'', sample_conv ''#b'' (Some 4) ''2024-01-01T00:00:00Z'']"

definition on_b :: "int \<Rightarrow> message" where
  "on_b i = (sample_message i ''hi'')\<lparr>m_channel := ''#b''\<rparr>"

definition sample_mount :: chat where
  "sample_mount = chat_mount ''home-1'' (Some 1) ''home''"

definition quiet_run :: "(pane option \<times> event) list" where
  "quiet_run = [(None, Answered 0 (GotConversations sample_roster)), (None, Opened (Some ''#a'')),
     (None, Answered 0 (GotMessages [sample_message 3 ''c'', sample_message 2 ''b''])),
     (None, WsMessage (sample_payload (sample_message 5 ''e''))), (None, Resumed),
     (None, Answered 1 (GotMessages [sample_message 6 ''f'']))]"

theorem threads_in_order_witness:
  "chat_ok (chat_run (chat_mount ''home-1'' (Some 1) ''home'') quiet_run)"
  by (rule threads_in_order) code_simp





section \<open>Races\<close>

text \<open>The answer to a load sets the messages on screen without asking which channel is open by then:
  leaving a channel before its messages arrive shows them in the next one. The view that results is marked
  read there, too.\<close>

lemma stale_thread_shown:
  "let st = chat_run sample_mount
       [(None, Answered 0 (GotConversations sample_roster)), (None, Opened (Some ''#a'')),
        (None, Opened (Some ''#b'')), (None, Answered 1 (GotMessages [on_b 4])),
        (None, Answered 0 (GotMessages [sample_message 9 ''c'']))]
   in ch_active st = Some ''#b'' \<and> map m_channel (ch_messages st) = [''#a''] \<and> ch_reads st = [(''#b'', 4), (''#b'', 9)]"
  by code_simp

text \<open>An older page is merged into the thread as it was when the page was asked for, and the result replaces
  the thread as it is: a message that came in between disappears.\<close>

lemma arrival_lost:
  "let st = chat_run sample_mount
       [(None, Answered 0 (GotConversations sample_roster)), (None, Opened (Some ''#a'')),
        (None, Answered 0 (GotMessages [sample_message 3 ''c''])),
        (Some \<lparr>pn_scrollHeight = 900, pn_scrollTop = 0, pn_clientHeight = 300\<rparr>, Scrolled),
        (None, WsMessage (sample_payload (sample_message 5 ''e''))),
        (None, Answered 1 (GotMessages [sample_message 2 ''b'']))]
   in map m_text (ch_messages st) = [''b'', ''c''] \<and> map_option (map m_text) (cached st ''#a'') = Some [''b'', ''c'']"
  by code_simp

text \<open>Opening a channel first renders with the messages of the one left behind, and the read mark is taken
  from them: channel b is marked read up to an id of channel a, before any of its messages is loaded.\<close>

lemma foreign_read_mark:
  "ch_reads (chat_run sample_mount
       [(None, Answered 0 (GotConversations sample_roster)), (None, Opened (Some ''#a'')),
        (None, Answered 0 (GotMessages [sample_message 9 ''c''])), (None, Opened (Some ''#b''))])
     = [(''#a'', 9), (''#b'', 9)]"
  by code_simp

text \<open>A read mark the server refuses is kept as reported, so nothing retries it; only a network failure
  clears it.\<close>

lemma refused_mark_kept:
  "read_answered conv NotOk st = st"
  by (simp add: read_answered_def)

text \<open>A message delivered twice is shown once but counted twice as unread.\<close>

lemma unread_counted_twice:
  "let st = chat_run sample_mount
       [(None, Answered 0 (GotConversations sample_roster)),
        (None, WsMessage (sample_payload (sample_message 5 ''e''))),
        (None, WsMessage (sample_payload (sample_message 5 ''e'')))]
   in map cv_unreadCount (ch_conversations st) = [2, 0]"
  by code_simp

end
