(* ===== verification/WebSocketHook.thy ===== *)
theory WebSocketHook
  imports Prelude
begin

text \<open>
  The live connection (\<open>hooks/useWebSocket.ts\<close>) and the resume notice (\<open>lib/resume.ts\<close>): sockets as
  the browser has them, the reconnect and probe timers, and the handlers of each event. A socket is named
  by its place in the list of all sockets made, and remembers which run of the effect made it: the
  handlers of an earlier run find \<open>mounted\<close> false.
\<close>

section \<open>State\<close>

datatype ready = CONNECTING | OPEN | CLOSING | CLOSED

fun live :: "ready \<Rightarrow> bool" where
  "live CONNECTING = True" | "live OPEN = True" | "live _ = False"

record ws_hook =
  wh_connected :: bool
  wh_pending :: bool
  wh_ref :: "nat option"               \<comment> \<open>\<open>wsRef\<close>\<close>
  wh_timer :: "rat option"             \<comment> \<open>the armed reconnect timer, by its delay\<close>
  wh_probe :: "(nat \<times> nat) option"     \<comment> \<open>the armed probe: socket and time of the ping\<close>
  wh_backoff :: rat
  wh_lastMsg :: nat
  wh_mounted :: bool
  wh_everOpened :: bool
  wh_topics :: "string list"
  wh_run :: nat                        \<comment> \<open>runs of the effect so far\<close>
  wh_sockets :: "(nat \<times> ready) list"   \<comment> \<open>the run that made it, and its state\<close>
  wh_sent :: "(nat \<times> string \<times> string) list"  \<comment> \<open>socket, action, topic\<close>
  wh_delivered :: "string list"        \<comment> \<open>topics handed to the handler\<close>
  wh_resumes :: nat                    \<comment> \<open>calls of \<open>notifyResume\<close>\<close>

definition ws_start :: ws_hook where
  "ws_start = \<lparr>wh_connected = False, wh_pending = True, wh_ref = None, wh_timer = None, wh_probe = None,
     wh_backoff = 1000, wh_lastMsg = 0, wh_mounted = False, wh_everOpened = False, wh_topics = [],
     wh_run = 0, wh_sockets = [], wh_sent = [], wh_delivered = [], wh_resumes = 0\<rparr>"

definition ready_of :: "ws_hook \<Rightarrow> nat \<Rightarrow> ready" where
  "ready_of st i = (if i < length (wh_sockets st) then snd (wh_sockets st ! i) else CLOSED)"

definition set_ready :: "nat \<Rightarrow> ready \<Rightarrow> ws_hook \<Rightarrow> ws_hook" where
  "set_ready i r st = (if i < length (wh_sockets st)
     then st\<lparr>wh_sockets := (wh_sockets st)[i := (fst (wh_sockets st ! i), r)]\<rparr> else st)"

definition close_socket :: "nat \<Rightarrow> ws_hook \<Rightarrow> ws_hook" where  \<comment> \<open>\<open>ws.close()\<close>\<close>
  "close_socket i st = (if live (ready_of st i) then set_ready i CLOSING st else st)"

definition mounted_for :: "ws_hook \<Rightarrow> nat \<Rightarrow> bool" where  \<comment> \<open>\<open>mounted\<close> in the closure of that socket\<close>
  "mounted_for st i \<longleftrightarrow> wh_mounted st \<and> i < length (wh_sockets st) \<and> fst (wh_sockets st ! i) = wh_run st"

section \<open>The effect\<close>

definition connect :: "ws_hook \<Rightarrow> ws_hook" where
  "connect st =
     (case wh_ref st of
        Some i \<Rightarrow> if live (ready_of st i) then st
          else st\<lparr>wh_sockets := wh_sockets st @ [(wh_run st, CONNECTING)], wh_ref := Some (length (wh_sockets st))\<rparr>
      | None \<Rightarrow> st\<lparr>wh_sockets := wh_sockets st @ [(wh_run st, CONNECTING)], wh_ref := Some (length (wh_sockets st))\<rparr>)"

definition on_open :: "bool \<Rightarrow> nat \<Rightarrow> ws_hook \<Rightarrow> ws_hook" where
  "on_open notify i st =
     (if \<not> mounted_for st i then st
      else st\<lparr>wh_connected := True, wh_pending := False, wh_backoff := 1000,
          wh_sent := wh_sent st @ map (\<lambda>t. (i, ''subscribe'', t)) (wh_topics st),
          wh_resumes := (if wh_everOpened st \<and> notify then wh_resumes st + 1 else wh_resumes st),
          wh_everOpened := True\<rparr>)"

text \<open>A message as parsed: not JSON, or JSON with the \<open>topic\<close> it names, empty when it names none.\<close>

definition on_message :: "bool \<Rightarrow> nat \<Rightarrow> nat \<Rightarrow> string option \<Rightarrow> ws_hook \<Rightarrow> ws_hook" where
  "on_message has_handler now i msg st =
     (if \<not> mounted_for st i then st
      else (let st1 = st\<lparr>wh_lastMsg := now\<rparr> in
        case msg of
          Some topic \<Rightarrow> if topic \<noteq> [] \<and> has_handler then st1\<lparr>wh_delivered := wh_delivered st1 @ [topic]\<rparr> else st1
        | None \<Rightarrow> st1))"

definition on_close :: "nat \<Rightarrow> ws_hook \<Rightarrow> ws_hook" where
  "on_close i st =
     (if \<not> mounted_for st i \<or> wh_ref st \<noteq> Some i then st
      else st\<lparr>wh_connected := False, wh_pending := False, wh_ref := None, wh_timer := Some (wh_backoff st)\<rparr>)"

definition reconnect_fired :: "ws_hook \<Rightarrow> ws_hook" where
  "reconnect_fired st =
     (case wh_timer st of None \<Rightarrow> st
      | Some d \<Rightarrow> connect (st\<lparr>wh_timer := None, wh_backoff := min (wh_backoff st * 3 / 2) 30000\<rparr>))"

definition resume :: "bool \<Rightarrow> nat \<Rightarrow> bool \<Rightarrow> ws_hook \<Rightarrow> ws_hook" where
  \<comment> \<open>\<open>send_throws\<close>: whether sending the ping throws\<close>
  "resume hidden now send_throws st =
     (if \<not> wh_mounted st \<or> hidden then st
      else (case wh_ref st of
          None \<Rightarrow> connect (st\<lparr>wh_timer := None, wh_backoff := 1000\<rparr>)
        | Some i \<Rightarrow>
            if \<not> live (ready_of st i) then connect (st\<lparr>wh_timer := None, wh_backoff := 1000\<rparr>)
            else if ready_of st i = OPEN \<and> wh_probe st = None
            then (if send_throws then close_socket i st
                  else st\<lparr>wh_sent := wh_sent st @ [(i, ''ping'', [])], wh_probe := Some (i, now)\<rparr>)
            else st))"

definition probe_fired :: "ws_hook \<Rightarrow> ws_hook" where
  "probe_fired st =
     (case wh_probe st of None \<Rightarrow> st
      | Some (i, sentAt) \<Rightarrow>
          (let st1 = st\<lparr>wh_probe := None\<rparr> in
            if wh_ref st1 = Some i \<and> wh_lastMsg st1 < sentAt
            then close_socket i (st1\<lparr>wh_backoff := 1000\<rparr>) else st1))"

definition start_effect :: "bool \<Rightarrow> string list \<Rightarrow> ws_hook \<Rightarrow> ws_hook" where
  "start_effect has_handler topics st =
     (if topics = [] \<and> has_handler then st
      else connect (st\<lparr>wh_mounted := True, wh_everOpened := False, wh_topics := topics, wh_run := wh_run st + 1\<rparr>))"

definition cleanup :: "ws_hook \<Rightarrow> ws_hook" where
  "cleanup st =
     (if \<not> wh_mounted st then st
      else (let st1 = st\<lparr>wh_mounted := False, wh_timer := None, wh_probe := None\<rparr> in
        case wh_ref st1 of None \<Rightarrow> st1 | Some i \<Rightarrow> close_socket i st1))"

section \<open>Steps\<close>

datatype ws_event =
    Opened nat
  | Message nat nat "string option"     \<comment> \<open>socket, time, topic\<close>
  | Errored nat
  | Closed nat
  | ReconnectTimer
  | ProbeTimer
  | Woken bool nat bool
  | Topics "string list"                \<comment> \<open>the effect is cleaned up and run again\<close>
  | Unmounted

fun ws_step :: "bool \<Rightarrow> bool \<Rightarrow> ws_hook \<Rightarrow> ws_event \<Rightarrow> ws_hook" where
  "ws_step h n st (Opened i) = (if ready_of st i = CONNECTING then on_open n i (set_ready i OPEN st) else st)"
| "ws_step h n st (Message i now msg) = (if ready_of st i = OPEN then on_message h now i msg st else st)"
| "ws_step h n st (Errored i) = close_socket i st"
| "ws_step h n st (Closed i) = (if ready_of st i = CLOSED then st else on_close i (set_ready i CLOSED st))"
| "ws_step h n st ReconnectTimer = reconnect_fired st"
| "ws_step h n st ProbeTimer = probe_fired st"
| "ws_step h n st (Woken hidden now throws) = resume hidden now throws st"
| "ws_step h n st (Topics ts) = start_effect h ts (cleanup st)"
| "ws_step h n st Unmounted = cleanup st"

definition ws_run :: "bool \<Rightarrow> bool \<Rightarrow> ws_event list \<Rightarrow> ws_hook" where
  "ws_run h n evs = foldl (ws_step h n) ws_start evs"

section \<open>Resume\<close>

text \<open>\<open>lib/resume.ts\<close>: the listeners of the moment are called once each when the tab comes back into view
  and when the browser comes online.\<close>

definition visibility_changed :: "bool \<Rightarrow> bool \<Rightarrow> bool \<times> bool" where
  \<comment> \<open>\<open>wasHidden\<close> and \<open>hidden\<close>: whether listeners are called, and the next \<open>wasHidden\<close>\<close>
  "visibility_changed wasHidden hidden = (wasHidden \<and> \<not> hidden, hidden)"

fun wakes :: "bool \<Rightarrow> bool list \<Rightarrow> nat" where  \<comment> \<open>calls over a history of visibility changes\<close>
  "wakes wasHidden [] = 0"
| "wakes wasHidden (h # hs) =
     (case visibility_changed wasHidden h of (call, now) \<Rightarrow> (if call then 1 else 0) + wakes now hs)"

section \<open>The invariant\<close>

definition one_live :: "ws_hook \<Rightarrow> bool" where
  "one_live st \<longleftrightarrow> (\<forall>i. live (ready_of st i) \<longrightarrow> wh_ref st = Some i)"

definition timer_ok :: "ws_hook \<Rightarrow> bool" where
  "timer_ok st \<longleftrightarrow>
     (wh_mounted st \<longrightarrow> (wh_ref st = None \<longleftrightarrow> wh_timer st \<noteq> None))
   \<and> (\<not> wh_mounted st \<longrightarrow> wh_timer st = None)
   \<and> 1000 \<le> wh_backoff st \<and> wh_backoff st \<le> 30000
   \<and> (case wh_timer st of None \<Rightarrow> True | Some d \<Rightarrow> 1000 \<le> d \<and> d \<le> 30000)"

definition ws_ok :: "ws_hook \<Rightarrow> bool" where
  "ws_ok st \<longleftrightarrow> one_live st \<and> timer_ok st"

lemma one_liveI: "(\<And>i. live (ready_of st i) \<Longrightarrow> wh_ref st = Some i) \<Longrightarrow> one_live st"
  by (simp add: one_live_def)

lemma one_liveD: "one_live st \<Longrightarrow> live (ready_of st i) \<Longrightarrow> wh_ref st = Some i"
  by (simp add: one_live_def)

lemma ready_set: "ready_of (set_ready i r st) j = (if j = i \<and> i < length (wh_sockets st) then r else ready_of st j)"
  by (auto simp: ready_of_def set_ready_def)

lemma live_range: "live (ready_of st i) \<Longrightarrow> i < length (wh_sockets st)"
  by (auto simp: ready_of_def split: if_splits)

lemma set_ready_sel [simp]:
  "wh_ref (set_ready i r st) = wh_ref st" "wh_mounted (set_ready i r st) = wh_mounted st"
  "wh_timer (set_ready i r st) = wh_timer st" "wh_backoff (set_ready i r st) = wh_backoff st"
  "mounted_for (set_ready i r st) j = mounted_for st j"
  by (auto simp: set_ready_def mounted_for_def nth_list_update)

lemma ready_of_fields [simp]:
  "ready_of (st\<lparr>wh_ref := a\<rparr>) i = ready_of st i" "ready_of (st\<lparr>wh_timer := b\<rparr>) i = ready_of st i"
  "ready_of (st\<lparr>wh_probe := c\<rparr>) i = ready_of st i" "ready_of (st\<lparr>wh_backoff := d\<rparr>) i = ready_of st i"
  "ready_of (st\<lparr>wh_mounted := e\<rparr>) i = ready_of st i" "ready_of (st\<lparr>wh_everOpened := e\<rparr>) i = ready_of st i"
  "ready_of (st\<lparr>wh_topics := f\<rparr>) i = ready_of st i" "ready_of (st\<lparr>wh_run := g\<rparr>) i = ready_of st i"
  "ready_of (st\<lparr>wh_sent := h\<rparr>) i = ready_of st i" "ready_of (st\<lparr>wh_connected := e\<rparr>) i = ready_of st i"
  "ready_of (st\<lparr>wh_pending := e\<rparr>) i = ready_of st i" "ready_of (st\<lparr>wh_resumes := g\<rparr>) i = ready_of st i"
  "ready_of (st\<lparr>wh_lastMsg := g\<rparr>) i = ready_of st i" "ready_of (st\<lparr>wh_delivered := l\<rparr>) i = ready_of st i"
  by (simp_all add: ready_of_def)

lemma close_socket_sel [simp]:
  "wh_ref (close_socket i st) = wh_ref st" "wh_mounted (close_socket i st) = wh_mounted st"
  "wh_timer (close_socket i st) = wh_timer st" "wh_backoff (close_socket i st) = wh_backoff st"
  by (simp_all add: close_socket_def)

lemma live_close: "live (ready_of (close_socket i st) j) \<Longrightarrow> live (ready_of st j)"
  by (auto simp: close_socket_def ready_set split: if_splits)

lemma one_live_cong:
  "(\<And>i. live (ready_of st' i) \<Longrightarrow> live (ready_of st i)) \<Longrightarrow> wh_ref st' = wh_ref st \<Longrightarrow> one_live st \<Longrightarrow> one_live st'"
  by (auto intro!: one_liveI dest!: one_liveD)

lemma ws_ok_close_socket: "ws_ok st \<Longrightarrow> ws_ok (close_socket i st)"
  using one_live_cong [of "close_socket i st" st] live_close [of i st]
  by (simp add: ws_ok_def timer_ok_def)

lemma ws_ok_cong:
  "wh_sockets st' = wh_sockets st \<Longrightarrow> wh_ref st' = wh_ref st \<Longrightarrow> wh_mounted st' = wh_mounted st
    \<Longrightarrow> wh_timer st' = wh_timer st \<Longrightarrow> 1000 \<le> wh_backoff st' \<Longrightarrow> wh_backoff st' \<le> 30000 \<Longrightarrow> ws_ok st \<Longrightarrow> ws_ok st'"
  by (simp add: ws_ok_def one_live_def ready_of_def timer_ok_def)

text \<open>Connecting with no timer armed, or from the timer itself, gives the hook one live socket.\<close>

lemma ws_ok_connect:
  assumes "one_live st" "wh_timer st = None" "1000 \<le> wh_backoff st" "wh_backoff st \<le> 30000"
  shows "ws_ok (connect st)"
proof -
  define st' where "st' = st\<lparr>wh_sockets := wh_sockets st @ [(wh_run st, CONNECTING)],
    wh_ref := Some (length (wh_sockets st))\<rparr>"
  have r: "ready_of st' i = (if i = length (wh_sockets st) then CONNECTING else ready_of st i)" for i
    by (auto simp: st'_def ready_of_def nth_append)
  have t: "timer_ok st'" using assms(2-) by (simp add: st'_def timer_ok_def)
  have new: "ws_ok st'" if dead: "\<And>i. \<not> live (ready_of st i)"
  proof -
    have "one_live st'"
    proof (rule one_liveI)
      fix i assume "live (ready_of st' i)"
      then have "i = length (wh_sockets st)" using dead [of i] by (auto simp: r split: if_splits)
      then show "wh_ref st' = Some i" by (simp add: st'_def)
    qed
    with t show ?thesis by (simp add: ws_ok_def)
  qed
  show ?thesis
  proof (cases "\<exists>i. wh_ref st = Some i \<and> live (ready_of st i)")
    case True
    then have "connect st = st" "wh_ref st \<noteq> None" by (auto simp: connect_def)
    with assms show ?thesis by (simp add: ws_ok_def timer_ok_def)
  next
    case False
    then have "\<not> live (ready_of st i)" for i using one_liveD [OF assms(1)] by blast
    moreover have "connect st = st'" using False by (auto simp: connect_def st'_def split: option.split)
    ultimately show ?thesis using new by simp
  qed
qed

lemma ws_ok_cleanup: "ws_ok st \<Longrightarrow> ws_ok (cleanup st)" "\<not> wh_mounted (cleanup st)"
proof -
  define s1 where "s1 = st\<lparr>wh_mounted := False, wh_timer := None, wh_probe := None\<rparr>"
  have c: "cleanup st = (if \<not> wh_mounted st then st
      else case wh_ref s1 of None \<Rightarrow> s1 | Some i \<Rightarrow> close_socket i s1)"
    unfolding cleanup_def s1_def Let_def by (rule refl)
  show "\<not> wh_mounted (cleanup st)" by (auto simp: c s1_def split: option.split)
  assume ok: "ws_ok st"
  then have "ws_ok s1"
    by (simp add: ws_ok_def timer_ok_def one_live_def ready_of_def s1_def)
  with ok show "ws_ok (cleanup st)" by (auto simp: c ws_ok_close_socket split: option.split)
qed

lemma ws_ok_open: "ws_ok st \<Longrightarrow> ready_of st i = CONNECTING \<Longrightarrow> ws_ok (on_open n i (set_ready i OPEN st))"
proof -
  assume ok: "ws_ok st" and r: "ready_of st i = CONNECTING"
  have "ws_ok (set_ready i OPEN st)"
    using ok r one_live_cong [of "set_ready i OPEN st" st]
    by (simp add: ws_ok_def timer_ok_def ready_set split: if_splits)
  moreover from this have "1000 \<le> wh_backoff st" "wh_backoff st \<le> 30000"
    by (simp_all add: ws_ok_def timer_ok_def)
  ultimately show ?thesis
    by (auto simp: on_open_def intro: ws_ok_cong [rotated -1])
qed

lemma ws_ok_closed: "ws_ok st \<Longrightarrow> ws_ok (on_close i (set_ready i CLOSED st))"
proof -
  assume ok: "ws_ok st"
  define s1 where "s1 = set_ready i CLOSED st"
  have dead: "live (ready_of s1 j) \<Longrightarrow> j \<noteq> i \<and> live (ready_of st j)" for j
    by (auto simp: s1_def ready_set split: if_splits dest: live_range)
  have ref: "wh_ref s1 = wh_ref st" by (simp add: s1_def)
  have s1: "ws_ok s1"
    using ok dead one_live_cong [of s1 st] by (simp add: ws_ok_def timer_ok_def s1_def)
  show ?thesis
  proof (cases "\<not> mounted_for s1 i \<or> wh_ref s1 \<noteq> Some i")
    case True
    with s1 show ?thesis by (simp add: on_close_def s1_def)
  next
    case False
    then have "\<not> live (ready_of s1 j)" for j
      using dead [of j] one_liveD [of st j] ok ref by (auto simp: ws_ok_def)
    moreover have "wh_mounted s1" using False by (simp add: mounted_for_def)
    ultimately show ?thesis
      using False s1 by (simp add: on_close_def ws_ok_def one_live_def timer_ok_def flip: s1_def)
  qed
qed

lemma ws_ok_step: "ws_ok st \<Longrightarrow> ws_ok (ws_step h n st ev)"
proof (cases ev)
  case (Opened i)
  assume "ws_ok st"
  with Opened show ?thesis by (simp add: ws_ok_open)
next
  case (Message i now msg)
  assume ok: "ws_ok st"
  then have "1000 \<le> wh_backoff st" "wh_backoff st \<le> 30000" by (simp_all add: ws_ok_def timer_ok_def)
  with ok Message show ?thesis
    by (auto simp: on_message_def Let_def intro: ws_ok_cong [rotated -1] split: option.split)
next
  case (Closed i)
  assume "ws_ok st"
  with Closed show ?thesis by (simp add: ws_ok_closed)
next
  case ReconnectTimer
  assume ok: "ws_ok st"
  show ?thesis
  proof (cases "wh_timer st")
    case None
    with ok ReconnectTimer show ?thesis by (simp add: reconnect_fired_def)
  next
    case (Some d)
    have "ws_ok (connect (st\<lparr>wh_timer := None, wh_backoff := min (wh_backoff st * 3 / 2) 30000\<rparr>))"
      using ok by (intro ws_ok_connect) (auto simp: ws_ok_def timer_ok_def one_live_def min_def)
    with Some ReconnectTimer show ?thesis by (simp add: reconnect_fired_def)
  qed
next
  case ProbeTimer
  assume ok: "ws_ok st"
  then have "1000 \<le> wh_backoff st" "wh_backoff st \<le> 30000" by (simp_all add: ws_ok_def timer_ok_def)
  with ok have "ws_ok (st\<lparr>wh_probe := None\<rparr>)" "ws_ok (st\<lparr>wh_probe := None, wh_backoff := 1000\<rparr>)"
    by (auto intro: ws_ok_cong [rotated -1])
  with ok ProbeTimer show ?thesis
    by (auto simp: probe_fired_def Let_def ws_ok_close_socket split: option.split)
next
  case (Woken hidden now throws)
  assume ok: "ws_ok st"
  then have b: "1000 \<le> wh_backoff st" "wh_backoff st \<le> 30000" by (simp_all add: ws_ok_def timer_ok_def)
  have "ws_ok (connect (st\<lparr>wh_timer := None, wh_backoff := 1000\<rparr>))"
    using ok by (intro ws_ok_connect) (auto simp: ws_ok_def one_live_def)
  moreover have "ws_ok (st\<lparr>wh_sent := s, wh_probe := p\<rparr>)" for s p
    using ok b by (auto intro: ws_ok_cong [rotated -1])
  ultimately show ?thesis
    using ok Woken by (auto simp: resume_def ws_ok_close_socket split: option.split)
next
  case (Topics ts)
  assume "ws_ok st"
  then have ok: "ws_ok (cleanup st)" and "\<not> wh_mounted (cleanup st)" by (simp_all add: ws_ok_cleanup)
  then have "ws_ok (connect (cleanup st\<lparr>wh_mounted := True, wh_everOpened := False, wh_topics := ts,
      wh_run := wh_run (cleanup st) + 1\<rparr>))"
    by (intro ws_ok_connect) (auto simp: ws_ok_def timer_ok_def one_live_def)
  with ok Topics show ?thesis by (simp add: start_effect_def)
qed (simp_all add: ws_ok_close_socket ws_ok_cleanup)

section \<open>Properties\<close>


text \<open>Waking from any history of visibility calls the listeners once for each time the tab went out of
  view and came back.\<close>

lemma wakes_count:
  "wakes w hs = length (filter (\<lambda>(a, b). a \<and> \<not> b) (zip (w # hs) hs))"
  by (induction hs arbitrary: w) (auto simp: visibility_changed_def)

end
