(* ===== verification/ApiHooks.thy ===== *)
theory ApiHooks
  imports Prelude
begin

text \<open>
  The two fetching hooks, \<open>hooks/useApiList.ts\<close> and \<open>hooks/useApiObject.ts\<close>. Each load takes the next
  number of a sequence, and an answer that is not the newest load's is dropped. Answers arrive in any
  order, each naming the load it belongs to. What the two share is the locale \<open>latest_wins\<close>.
\<close>

section \<open>Latest wins\<close>

locale latest_wins =
  fixes seq_of :: "'s \<Rightarrow> nat"
    and start :: "'k \<Rightarrow> 's \<Rightarrow> 's"
    and answer :: "nat \<Rightarrow> 'k \<Rightarrow> 'o \<Rightarrow> 's \<Rightarrow> 's"
  assumes start_seq: "seq_of (start k s) = Suc (seq_of s)"
    and answer_stale: "n \<noteq> seq_of s \<Longrightarrow> answer n k out s = s"
    and answer_seq: "seq_of (answer n k out s) = seq_of s"
begin

definition answers :: "'s \<Rightarrow> (nat \<times> 'k \<times> 'o) list \<Rightarrow> 's" where
  "answers s as = foldl (\<lambda>s (n, k, out). answer n k out s) s as"

lemma seq_answers: "seq_of (answers s as) = seq_of s"
  by (induction as arbitrary: s) (auto simp: answers_def answer_seq)

lemma only_latest: "answers s as = answers s (filter (\<lambda>(n, k, out). n = seq_of s) as)"
proof (induction as arbitrary: s)
  case (Cons a as)
  obtain n k out where a: "a = (n, k, out)" by (cases a)
  then show ?case
    using Cons.IH [of "answer n k out s"] Cons.IH [of s]
    by (cases "n = seq_of s") (auto simp: answers_def answer_seq answer_stale)
qed (simp add: answers_def)

text \<open>Once a load has started, whatever is still in flight from before it is as good as lost.\<close>

lemma started_drops_earlier:
  "answers (start k s) as = answers (start k s) (filter (\<lambda>(n, k, out). n = Suc (seq_of s)) as)"
  using only_latest [of "start k s" as] by (simp only: start_seq)

end

section \<open>\<open>useApiList\<close>\<close>

record 'a api_list =
  al_items :: "'a list option"
  al_loading :: bool
  al_error :: "string option"
  al_seq :: nat

definition list_start :: "'a api_list" where
  "list_start = \<lparr>al_items = None, al_loading = True, al_error = None, al_seq = 0\<rparr>"

definition list_load :: "bool \<Rightarrow> 'a api_list \<Rightarrow> 'a api_list" where  \<comment> \<open>\<open>load(silent)\<close> with a url\<close>
  "list_load silent st =
     (let st1 = st\<lparr>al_seq := al_seq st + 1\<rparr> in
      if silent then st1 else st1\<lparr>al_loading := True, al_error := None\<rparr>)"

definition list_load_url :: "string option \<Rightarrow> bool \<Rightarrow> 'a api_list \<Rightarrow> 'a api_list" where
  "list_load_url url silent st = (if truthy_str url then list_load silent st else st)"

text \<open>An outcome is a failure (rejected, not ok, or not JSON) or the data, where null stands for \<open>[]\<close>.\<close>

definition list_answer :: "string \<Rightarrow> nat \<Rightarrow> bool \<Rightarrow> 'a list option option \<Rightarrow> 'a api_list \<Rightarrow> 'a api_list" where
  "list_answer errorMessage n silent out st =
     (if al_seq st \<noteq> n then st
      else (case out of
          Some data \<Rightarrow> st\<lparr>al_items := Some (nullish data []), al_error := None\<rparr>
        | None \<Rightarrow> if silent then st else st\<lparr>al_error := Some errorMessage\<rparr>)\<lparr>al_loading := False\<rparr>)"

definition list_replace :: "'a list \<Rightarrow> 'a api_list \<Rightarrow> 'a api_list" where
  "list_replace xs st =
     st\<lparr>al_seq := al_seq st + 1, al_items := Some xs, al_loading := False, al_error := None\<rparr>"

definition list_cleanup :: "'a api_list \<Rightarrow> 'a api_list" where
  "list_cleanup st = st\<lparr>al_seq := al_seq st + 1\<rparr>"

interpretation api_list: latest_wins al_seq list_load "list_answer msg" for msg
  by unfold_locales (auto simp: list_load_def list_answer_def Let_def split: option.split)

section \<open>\<open>useApiObject\<close>\<close>

record 'a api_object =
  ao_item :: "'a option"
  ao_loading :: bool
  ao_error :: "string option"
  ao_notFound :: bool
  ao_seq :: nat

definition object_start :: "'a api_object" where
  "object_start = \<lparr>ao_item = None, ao_loading = True, ao_error = None, ao_notFound = False, ao_seq = 0\<rparr>"

datatype 'a object_outcome = Refused nat | Broken | Got 'a  \<comment> \<open>a status, a network or JSON failure, the data\<close>

definition object_reload :: "unit \<Rightarrow> 'a api_object \<Rightarrow> 'a api_object" where
  "object_reload u st = st\<lparr>ao_seq := ao_seq st + 1, ao_loading := True, ao_error := None, ao_notFound := False\<rparr>"

definition object_answer :: "string \<Rightarrow> nat \<Rightarrow> unit \<Rightarrow> 'a object_outcome \<Rightarrow> 'a api_object \<Rightarrow> 'a api_object" where
  "object_answer errorMessage n u out st =
     (if ao_seq st \<noteq> n then st
      else (case out of
          Refused s \<Rightarrow> (if s = 404 then st\<lparr>ao_notFound := True\<rparr> else st)\<lparr>ao_error := Some errorMessage\<rparr>
        | Broken \<Rightarrow> st\<lparr>ao_error := Some errorMessage\<rparr>
        | Got x \<Rightarrow> st\<lparr>ao_item := Some x\<rparr>)\<lparr>ao_loading := False\<rparr>)"

interpretation api_object: latest_wins ao_seq object_reload "object_answer msg" for msg
  by unfold_locales (auto simp: object_reload_def object_answer_def split: object_outcome.split)

section \<open>Properties\<close>

definition list_answers :: "string \<Rightarrow> 'a api_list \<Rightarrow> (nat \<times> bool \<times> 'a list option option) list \<Rightarrow> 'a api_list" where
  "list_answers msg st as = foldl (\<lambda>s (n, silent, out). list_answer msg n silent out s) st as"

lemma list_answers_eq: "list_answers msg = api_list.answers msg"
  by (simp add: fun_eq_iff list_answers_def api_list.answers_def)

text \<open>C34: after a load has started, the state of the list depends on the answer to that load alone: any
  answers to earlier loads, before, between and after, are dropped.\<close>

theorem list_latest_wins:
  "list_answers msg (list_load silent st) as
     = list_answers msg (list_load silent st) (filter (\<lambda>(n, k, out). n = Suc (al_seq st)) as)"
  unfolding list_answers_eq by (rule api_list.started_drops_earlier)

text \<open>a set pushed by the server stays whatever fetches are still in flight.\<close>

theorem replaced_stays:
  assumes "list_all (\<lambda>(n, k, out). n \<le> al_seq st) as"
  shows "list_answers msg (list_replace xs st) as = list_replace xs st"
proof -
  have "filter (\<lambda>(n, k, out). n = al_seq (list_replace xs st)) as = []"
    using assms by (auto simp: list_all_iff filter_empty_conv list_replace_def)
  then show ?thesis
    using api_list.only_latest [of msg "list_replace xs st" as]
    by (simp add: list_answers_eq api_list.answers_def)
qed

theorem replaced_stays_witness:
  "list_answers ''no'' (list_replace [7] (list_load False (list_start :: nat api_list)))
     [(1, False, Some (Some [1, 2]))] = list_replace [7] (list_load False list_start)"
  by (rule replaced_stays) code_simp

text \<open>the same for a single object, whose not-found mark also comes from the newest load only.\<close>

theorem object_latest_wins:
  "foldl (\<lambda>s (n, u, out). object_answer msg n u out s) (object_reload () st) as
     = foldl (\<lambda>s (n, u, out). object_answer msg n u out s) (object_reload () st)
         (filter (\<lambda>(n, u, out). n = Suc (ao_seq st)) as)"
  using api_object.started_drops_earlier [of msg "()" st as] by (simp only: api_object.answers_def)

text \<open>A silent refresh that overtakes the first load and fails leaves a list that is neither loading nor
  loaded nor in error: the first load's own failure is dropped as stale.\<close>

lemma silent_failure_blank:
  "list_answers msg (list_load True (list_load False list_start)) [(1, False, None), (2, True, None)]
     = \<lparr>al_items = None, al_loading = False, al_error = None, al_seq = 2\<rparr>"
  by (simp add: list_answers_def list_answer_def list_load_def list_start_def Let_def)

end
