(* ===== verification/Autocomplete.thy ===== *)
theory Autocomplete
  imports ApiHooks
begin

text \<open>
  Completion at the caret: \<open>hooks/useEmojiAutocomplete.tsx\<close>, \<open>hooks/useMentionAutocomplete.tsx\<close> and
  \<open>lib/emoji.ts\<close>. What a keystroke triggers, the list offered, moving in it, and what accepting writes.
  The emoji search index is a package: the hits it returns are an input.
\<close>

section \<open>Triggers\<close>

text \<open>Both patterns end at the caret and start behind whitespace or at the start; neither class of token
  characters holds the sigil or whitespace, so the token is the run of them before the caret.\<close>

definition trigger :: "char \<Rightarrow> (char \<Rightarrow> bool) \<Rightarrow> string \<Rightarrow> string option" where
  "trigger sigil tok s =
     (let run = takeWhile tok (rev s) in
      case drop (length run) (rev s) of
        c # before \<Rightarrow> if c = sigil \<and> (before = [] \<or> is_space (hd before)) then Some (rev run) else None
      | [] \<Rightarrow> None)"

definition emoji_char :: "char \<Rightarrow> bool" where  \<comment> \<open>\<open>[a-zA-Z0-9_+-]\<close>\<close>
  "emoji_char c \<longleftrightarrow> is_alpha c \<or> is_digit c \<or> c \<in> set ''_+-''"

definition mention_char :: "char \<Rightarrow> bool" where  \<comment> \<open>\<open>[^\s@[\]]\<close>\<close>
  "mention_char c \<longleftrightarrow> \<not> is_space c \<and> c \<notin> set ''@[]''"

definition emoji_trigger :: "string \<Rightarrow> string option" where
  "emoji_trigger s = (case trigger (CHR '':'') emoji_char s of
     Some q \<Rightarrow> if length q \<ge> 2 then Some q else None | None \<Rightarrow> None)"

definition mention_trigger :: "string \<Rightarrow> string option" where
  "mention_trigger s = trigger (CHR ''@'') mention_char s"

section \<open>The list offered\<close>

abbreviation MAX_RESULTS :: nat where "MAX_RESULTS \<equiv> 8"

definition rankNames :: "string list \<Rightarrow> string \<Rightarrow> string list" where
  "rankNames names query =
     (if query = [] then take MAX_RESULTS names
      else (let q = to_lower query in
        take MAX_RESULTS (filter (\<lambda>n. index_of q (to_lower n) = Some 0) names
          @ filter (\<lambda>n. case index_of q (to_lower n) of Some i \<Rightarrow> i > 0 | None \<Rightarrow> False) names)))"

record emoji_hit =
  eh_id :: string
  eh_native :: string

definition searchEmojis :: "nat \<Rightarrow> (string \<times> string option) list option \<Rightarrow> emoji_hit list" where
  \<comment> \<open>what the index returned: ids with the first skin's text, if there is one\<close>
  "searchEmojis limit results =
     (case results of None \<Rightarrow> []
      | Some rs \<Rightarrow> filter (\<lambda>h. eh_native h \<noteq> [])
          (map (\<lambda>(i, skin). \<lparr>eh_id = i, eh_native = nullish skin []\<rparr>) (take limit rs)))"

section \<open>State\<close>

record 'h completion =
  ac_items :: "'h list"
  ac_index :: nat
  ac_token :: "(nat \<times> nat) option"
  ac_seq :: nat

definition ac_start :: "'h completion" where
  "ac_start = \<lparr>ac_items = [], ac_index = 0, ac_token = None, ac_seq = 0\<rparr>"

definition emoji_close :: "'h completion \<Rightarrow> 'h completion" where
  "emoji_close st = st\<lparr>ac_token := None, ac_seq := ac_seq st + 1, ac_items := [], ac_index := 0\<rparr>"

definition emoji_change :: "string \<times> nat \<Rightarrow> 'h completion \<Rightarrow> 'h completion" where
  "emoji_change vc st =
     (case emoji_trigger (take (snd vc) (fst vc)) of
        None \<Rightarrow> emoji_close st
      | Some q \<Rightarrow> st\<lparr>ac_token := Some (snd vc - Suc (length q), snd vc), ac_seq := ac_seq st + 1\<rparr>)"

definition emoji_found :: "nat \<Rightarrow> string \<times> nat \<Rightarrow> 'h list \<Rightarrow> 'h completion \<Rightarrow> 'h completion" where
  "emoji_found n vc hits st = (if n \<noteq> ac_seq st then st else st\<lparr>ac_items := hits, ac_index := 0\<rparr>)"

interpretation emoji: latest_wins ac_seq emoji_change emoji_found
  by unfold_locales (auto simp: emoji_change_def emoji_found_def emoji_close_def split: option.split)

definition mention_close :: "'h completion \<Rightarrow> 'h completion" where
  "mention_close st = st\<lparr>ac_token := None, ac_items := [], ac_index := 0\<rparr>"

definition mention_change :: "string list \<Rightarrow> string \<times> nat \<Rightarrow> string completion \<Rightarrow> string completion" where
  "mention_change names vc st =
     (if names = [] then mention_close st
      else (case mention_trigger (take (snd vc) (fst vc)) of
          None \<Rightarrow> mention_close st
        | Some q \<Rightarrow> (let hits = rankNames names q in
            if hits = [] then mention_close st
            else st\<lparr>ac_token := Some (snd vc - (length q + 1), snd vc), ac_items := hits, ac_index := 0\<rparr>)))"

text \<open>Accepting, with the field's value at that moment: the new value and caret, if there is a token.\<close>

definition splice :: "string \<Rightarrow> nat \<times> nat \<Rightarrow> string \<Rightarrow> string \<times> nat" where
  "splice v tok ins = (take (fst tok) v @ ins @ drop (snd tok) v, fst tok + length ins)"

definition mention_accept :: "string \<Rightarrow> string \<Rightarrow> string completion \<Rightarrow> (string \<times> nat) option" where
  "mention_accept v nm st = map_option (\<lambda>tok. splice v tok (''@['' @ nm @ ''] '')) (ac_token st)"

definition emoji_accept :: "string \<Rightarrow> emoji_hit \<Rightarrow> emoji_hit completion \<Rightarrow> (string \<times> nat) option" where
  "emoji_accept v hit st = map_option (\<lambda>tok. splice v tok (eh_native hit)) (ac_token st)"

datatype key = ArrowDown | ArrowUp | EnterOrTab | Escape | OtherKey

datatype 'h key_result = NotHandled | Moved "'h completion" | Accept 'h | Closed

definition handleKeyDown :: "key \<Rightarrow> 'h completion \<Rightarrow> 'h key_result" where
  "handleKeyDown k st =
     (let n = length (ac_items st) in
      if n = 0 then NotHandled
      else (case k of
          ArrowDown \<Rightarrow> Moved (st\<lparr>ac_index := (ac_index st + 1) mod n\<rparr>)
        | ArrowUp \<Rightarrow> Moved (st\<lparr>ac_index := nat ((int (ac_index st) - 1 + int n) mod int n)\<rparr>)
        | EnterOrTab \<Rightarrow> Accept (ac_items st ! ac_index st)
        | Escape \<Rightarrow> Closed
        | OtherKey \<Rightarrow> NotHandled))"

section \<open>Steps\<close>

datatype mention_event = MTyped "string list" string nat | MKey string key

fun mention_step :: "string completion \<Rightarrow> mention_event \<Rightarrow> string completion" where
  "mention_step st (MTyped names v caret) = mention_change names (v, caret) st"
| "mention_step st (MKey v k) =
     (case handleKeyDown k st of NotHandled \<Rightarrow> st | Moved st' \<Rightarrow> st' | Accept nm \<Rightarrow> mention_close st
      | Closed \<Rightarrow> mention_close st)"

datatype emoji_event = ETyped string nat | EFound nat "emoji_hit list" | EKey key

fun emoji_step :: "emoji_hit completion \<Rightarrow> emoji_event \<Rightarrow> emoji_hit completion" where
  "emoji_step st (ETyped v caret) = emoji_change (v, caret) st"
| "emoji_step st (EFound n hits) = emoji_found n ([], 0) hits st"
| "emoji_step st (EKey k) =
     (case handleKeyDown k st of NotHandled \<Rightarrow> st | Moved st' \<Rightarrow> st' | Accept h \<Rightarrow> emoji_close st
      | Closed \<Rightarrow> emoji_close st)"

section \<open>Lemmas\<close>

definition in_list :: "'h completion \<Rightarrow> bool" where
  "in_list st \<longleftrightarrow> ac_items st = [] \<or> ac_index st < length (ac_items st)"

lemma in_list_simps [simp]:
  "in_list (mention_close st)" "in_list (emoji_close st)" "in_list ac_start"
  "in_list (st\<lparr>ac_items := xs, ac_index := 0\<rparr>)" "in_list (st\<lparr>ac_token := t\<rparr>) = in_list st"
  "in_list (st\<lparr>ac_seq := n\<rparr>) = in_list st"
  by (simp_all add: in_list_def mention_close_def emoji_close_def ac_start_def)

lemma in_list_key:
  assumes "in_list st" "handleKeyDown k st = Moved st'"
  shows "in_list st'"
proof -
  have pos: "0 < length (ac_items st)"
    using assms(2) by (auto simp: handleKeyDown_def Let_def)
  define n where "n = length (ac_items st)"
  have "nat ((int (ac_index st) - 1 + int n) mod int n) < n"
    using pos by (simp add: n_def nat_less_iff)
  then show ?thesis
    using assms(2) pos by (cases k) (auto simp: handleKeyDown_def Let_def in_list_def n_def)
qed

lemma accept_from_list:
  "in_list st \<Longrightarrow> handleKeyDown k st = Accept h \<Longrightarrow> h \<in> set (ac_items st)"
  by (cases k) (auto simp: handleKeyDown_def Let_def in_list_def split: if_splits)

lemma in_list_mention: "in_list st \<Longrightarrow> in_list (mention_step st ev)"
proof (cases ev)
  case (MTyped names v caret)
  assume "in_list st"
  with MTyped show ?thesis by (auto simp: mention_change_def Let_def in_list_def mention_close_def split: option.split)
next
  case (MKey v k)
  assume "in_list st"
  with MKey show ?thesis by (cases "handleKeyDown k st") (auto dest: in_list_key)
qed

lemma in_list_emoji: "in_list st \<Longrightarrow> in_list (emoji_step st ev)"
proof (cases ev)
  case (ETyped v caret)
  assume "in_list st"
  with ETyped show ?thesis by (auto simp: emoji_change_def in_list_def emoji_close_def split: option.split)
next
  case (EFound n hits)
  assume "in_list st"
  with EFound show ?thesis by (simp add: emoji_found_def)
next
  case (EKey k)
  assume "in_list st"
  with EKey show ?thesis by (cases "handleKeyDown k st") (auto dest: in_list_key)
qed

lemma trigger_split:
  assumes "trigger sg tok s = Some q"
  shows "\<exists>before. s = before @ sg # q \<and> (before = [] \<or> is_space (last before)) \<and> list_all tok q"
proof -
  define r where "r = takeWhile tok (rev s)"
  have rs: "rev s = r @ drop (length r) (rev s)"
    unfolding r_def by (metis append_take_drop_id takeWhile_eq_take)
  obtain before where b: "drop (length r) (rev s) = sg # before" "before = [] \<or> is_space (hd before)" "q = rev r"
    using assms by (auto simp: trigger_def Let_def r_def split: list.splits if_splits)
  have "s = rev before @ sg # q" using rs b by (metis rev_append rev_rev_ident rev.simps(2) append_assoc append_Cons append_Nil)
  moreover have "rev before = [] \<or> is_space (last (rev before))" using b(2) by (auto simp: last_rev)
  moreover have "list_all tok q" using b(3) by (auto simp: list_all_iff r_def dest: set_takeWhileD)
  ultimately show ?thesis by blast
qed

lemma index_of_0: "index_of p s = Some 0 \<longleftrightarrow> starts_with p s"
  by (cases s; cases p) (auto split: if_splits)

section \<open>Properties\<close>

text \<open>the highlighted row of either list is a row of it, whatever was typed, found or pressed, and what
  Enter accepts is the highlighted row.\<close>

theorem highlight_in_list:
  "in_list (foldl mention_step ac_start mevs) \<and> in_list (foldl emoji_step ac_start eevs)"
proof -
  have "in_list st \<Longrightarrow> in_list (foldl mention_step st mevs)" for st
    by (induction mevs arbitrary: st) (simp_all add: in_list_mention)
  moreover have "in_list st \<Longrightarrow> in_list (foldl emoji_step st eevs)" for st
    by (induction eevs arbitrary: st) (simp_all add: in_list_emoji)
  ultimately show ?thesis by simp
qed

text \<open>accepting a mention replaces exactly the \<open>@\<close> and the letters typed after it, up to the caret, by
  the token the chat renders as a mention; the text around it stays, and the caret ends behind it.\<close>

theorem mention_replaces_token:
  assumes "caret \<le> length v" and "ac_token (mention_change names (v, caret) st) \<noteq> None"
  shows "\<exists>before query. take caret v = before @ ''@'' @ query
    \<and> mention_accept v nm (mention_change names (v, caret) st)
        = Some (before @ ''@['' @ nm @ ''] '' @ drop caret v, length before + length nm + 4)"
proof -
  obtain q where q: "mention_trigger (take caret v) = Some q"
    "ac_token (mention_change names (v, caret) st) = Some (caret - (length q + 1), caret)"
    using assms(2) by (auto simp: mention_change_def mention_close_def Let_def split: option.splits if_splits)
  obtain before where b: "take caret v = before @ CHR ''@'' # q"
    using trigger_split [OF q(1) [unfolded mention_trigger_def]] by blast
  then have len: "length before = caret - (length q + 1)"
  proof -
    have "length (take caret v) = length before + Suc (length q)" by (simp add: b)
    with assms(1) show ?thesis by simp
  qed
  have "take (length before) (take caret v) = before" by (simp add: b)
  then have "take (length before) v = before" using len by (simp add: take_take min_def)
  with b q(2) len show ?thesis
    by (intro exI [of _ before] exI [of _ q]) (simp add: mention_accept_def splice_def)
qed

theorem mention_replaces_token_witness:
  "mention_accept ''hi @bo x'' ''bob'' (mention_change [''bob''] (''hi @bo x'', 6) ac_start)
     = Some (''hi @[bob]  x'', 10)
   \<and> (\<exists>before query. take 6 ''hi @bo x'' = before @ ''@'' @ query
    \<and> mention_accept ''hi @bo x'' ''bob'' (mention_change [''bob''] (''hi @bo x'', 6) ac_start)
        = Some (before @ ''@['' @ ''bob'' @ ''] '' @ drop 6 ''hi @bo x'', length before + length ''bob'' + 4))"
proof (rule conjI)
  show "\<exists>before query. take 6 ''hi @bo x'' = before @ ''@'' @ query
    \<and> mention_accept ''hi @bo x'' ''bob'' (mention_change [''bob''] (''hi @bo x'', 6) ac_start)
        = Some (before @ ''@['' @ ''bob'' @ ''] '' @ drop 6 ''hi @bo x'', length before + length ''bob'' + 4)"
    by (rule mention_replaces_token) code_simp+
qed code_simp

text \<open>the names offered are at most eight of those known; each contains the query in any letter case,
  and those that start with it come first.\<close>

theorem ranked_names:
  "length (rankNames names q) \<le> 8
   \<and> list_all (\<lambda>n. n \<in> set names \<and> str_includes (to_lower n) (to_lower q)) (rankNames names q)
   \<and> sorted_wrt (\<lambda>a b. starts_with (to_lower q) (to_lower a) \<or> \<not> starts_with (to_lower q) (to_lower b))
       (rankNames names q)"
proof (cases "q = []")
  case True
  have "index_of [] s = Some 0" "starts_with [] s" for s by (cases s; simp)+
  moreover have "to_lower [] = []" by (simp add: to_lower_def)
  ultimately show ?thesis using True
    by (auto simp: rankNames_def str_includes_def list_all_iff sorted_wrt_iff_nth_less dest: in_set_takeD)
next
  case False
  define pre where "pre = filter (\<lambda>n. index_of (to_lower q) (to_lower n) = Some 0) names"
  define sub where "sub = filter (\<lambda>n. case index_of (to_lower q) (to_lower n) of Some i \<Rightarrow> i > 0 | None \<Rightarrow> False) names"
  have eq: "rankNames names q = take 8 (pre @ sub)"
    using False by (simp add: rankNames_def pre_def sub_def Let_def)
  have pre: "starts_with (to_lower q) (to_lower n)" if "n \<in> set pre" for n
    using that by (auto simp: pre_def index_of_0)
  have sub: "\<not> starts_with (to_lower q) (to_lower n)" if "n \<in> set sub" for n
    using that by (auto simp: sub_def index_of_0 [symmetric] split: option.splits)
  have "sorted_wrt (\<lambda>a b. starts_with (to_lower q) (to_lower a) \<or> \<not> starts_with (to_lower q) (to_lower b)) (pre @ sub)"
    unfolding sorted_wrt_append
    using pre sub by (auto intro!: sorted_wrt_mono_rel [of _ "\<lambda>a b. True"] simp: sorted_wrt_iff_nth_less)
  then have sorted: "sorted_wrt (\<lambda>a b. starts_with (to_lower q) (to_lower a) \<or> \<not> starts_with (to_lower q) (to_lower b))
      (take 8 (pre @ sub))" by (rule sorted_wrt_take)
  have "n \<in> set names \<and> str_includes (to_lower n) (to_lower q)" if "n \<in> set pre \<union> set sub" for n
    using that by (auto simp: str_includes_def pre_def sub_def split: option.splits)
  then have "list_all (\<lambda>n. n \<in> set names \<and> str_includes (to_lower n) (to_lower q)) (take 8 (pre @ sub))"
    unfolding list_all_iff by (metis in_set_takeD set_append)
  with sorted show ?thesis unfolding eq by (metis length_take min.cobounded2)
qed

end
