(* ===== verification/MapGeo.thy ===== *)
theory MapGeo
  imports Http
begin

text \<open>
  Positions and map layers: \<open>wrapLon\<close>, \<open>peerLatLon\<close> and the tile settings of \<open>lib/leaflet.ts\<close>, the
  label of a link (\<open>lib/mapLinks.ts\<close>), our own position (\<open>hooks/useOwnPosition.ts\<close>), and the colour
  of a signal (\<open>components/SignalStrength.tsx\<close>). Degrees are exact rationals. The arc tangent of a
  link's slope and the pixel distance come from the browser and the map: they are arguments.
\<close>

section \<open>Longitudes\<close>

definition wrapLon :: "rat \<Rightarrow> rat" where
  "wrapLon lon = js_rem (js_rem (lon + 180) 360 + 360) 360 - 180"

definition peerLatLon :: "int \<Rightarrow> int \<Rightarrow> rat \<times> rat" where
  "peerLatLon lat lon = (of_int lat / 1000000, wrapLon (of_int lon / 1000000))"

lemma js_rem_multiple: "\<exists>k. js_rem a b = a - b * of_int k"
  by (auto simp: js_rem_def Let_def)

lemma js_rem_abs_bounds:
  assumes "0 < b"
  shows "\<bar>js_rem a b\<bar> < b" and "0 \<le> a \<Longrightarrow> 0 \<le> js_rem a b"
proof -
  define q where "q = a / b"
  have a: "a = b * q" using assms by (simp add: q_def)
  have m: "js_rem a b = b * (q - of_int (if q < 0 then \<lceil>q\<rceil> else \<lfloor>q\<rfloor>))"
    by (simp add: js_rem_def Let_def q_def [symmetric] a right_diff_distrib)
  have frac: "\<bar>q - of_int (if q < 0 then \<lceil>q\<rceil> else \<lfloor>q\<rfloor>)\<bar> < 1"
    using floor_correct [of q] ceiling_correct [of q] by (cases "q < 0"; simp only: abs_less_iff if_True if_False; linarith)
  show "\<bar>js_rem a b\<bar> < b"
    using mult_strict_left_mono [OF frac assms] assms by (simp add: m abs_mult)
  show "0 \<le> js_rem a b" if "0 \<le> a"
  proof -
    have "0 \<le> q" using that assms by (simp add: q_def)
    then show ?thesis using assms floor_correct [of q] by (simp add: m)
  qed
qed

text \<open>a wrapped longitude lies in [-180, 180), is the same meridian, and one already there is left as
  it is.\<close>

theorem wrapLon_canonical:
  "- 180 \<le> wrapLon lon \<and> wrapLon lon < 180 \<and> (\<exists>k. wrapLon lon = lon + 360 * of_int k)
   \<and> wrapLon (wrapLon lon) = wrapLon lon"
proof -
  have range: "- 180 \<le> wrapLon x \<and> wrapLon x < 180" for x
  proof -
    have "\<bar>js_rem (x + 180) 360\<bar> < 360" by (rule js_rem_abs_bounds(1)) simp
    then have "0 \<le> js_rem (x + 180) 360 + 360" by linarith
    then have "0 \<le> js_rem (js_rem (x + 180) 360 + 360) 360" by (rule js_rem_abs_bounds(2) [rotated]) simp
    moreover have "\<bar>js_rem (js_rem (x + 180) 360 + 360) 360\<bar> < 360" by (rule js_rem_abs_bounds(1)) simp
    ultimately show ?thesis by (simp add: wrapLon_def)
  qed
  have turn: "\<exists>k. wrapLon x = x + 360 * of_int k" for x
  proof -
    obtain i where i: "js_rem (x + 180) 360 = x + 180 - 360 * of_int i" using js_rem_multiple by blast
    obtain j where "js_rem (js_rem (x + 180) 360 + 360) 360 = js_rem (x + 180) 360 + 360 - 360 * of_int j"
      using js_rem_multiple by blast
    with i have "wrapLon x = x + 360 * of_int (1 - i - j)" by (simp add: wrapLon_def algebra_simps)
    then show ?thesis by blast
  qed
  obtain k where k: "wrapLon (wrapLon lon) = wrapLon lon + 360 * of_int k" using turn by blast
  have "of_int (- 1) < (of_int k :: rat)" "(of_int k :: rat) < of_int 1"
    unfolding of_int_minus of_int_1 using range [of lon] range [of "wrapLon lon"] k by linarith+
  then have "k = 0" unfolding of_int_less_iff by linarith
  with k range turn show ?thesis by simp
qed

section \<open>Our own position\<close>

definition own_at :: "rat option \<Rightarrow> rat option \<Rightarrow> (rat \<times> rat) option" where
  "own_at lat lon = (case (lat, lon) of
     (Some a, Some b) \<Rightarrow> if a \<noteq> 0 \<or> b \<noteq> 0 then Some (a, wrapLon b) else None | _ \<Rightarrow> None)"

definition useOwnPosition ::
    "(rat option \<times> rat option) option \<Rightarrow> (rat option \<times> rat option) list option \<Rightarrow> (rat \<times> rat) option" where
  \<comment> \<open>the repeater and the companions as answered; \<open>None\<close> is a refusal\<close>
  "useOwnPosition rep comps =
     (let fromRep = (case rep of None \<Rightarrow> None | Some (la, lo) \<Rightarrow> own_at la lo);
          fromComp = (case List.find (\<lambda>p. p \<noteq> None) (map (\<lambda>(la, lo). own_at la lo) (nullish comps [])) of
            Some p \<Rightarrow> p | None \<Rightarrow> None)
      in if fromRep \<noteq> None then fromRep else fromComp)"

section \<open>Tiles\<close>

datatype map_provider = Osm | Carto
datatype base_layer = MainLayer | Satellite | Topo

record tile_settings =
  ts_provider :: map_provider
  ts_key :: string

record tile_module =  \<comment> \<open>the module's state and the document's dark style\<close>
  tm_tiles :: "tile_settings option"
  tm_darkStyle :: string
  tm_changes :: nat

definition setTiles :: "map_provider \<Rightarrow> string option \<Rightarrow> string \<Rightarrow> tile_module \<Rightarrow> tile_module" where
  "setTiles provider k darkStyle st =
     \<lparr>tm_tiles = Some \<lparr>ts_provider = provider, ts_key = nullish k []\<rparr>, tm_darkStyle = darkStyle,
      tm_changes = tm_changes st + 1\<rparr>"

definition settings_arrived ::
    "(map_provider option \<times> string option \<times> string option) option \<Rightarrow> tile_module \<Rightarrow> tile_module" where
  "settings_arrived s st =
     (if tm_tiles st \<noteq> None then st
      else (case s of
          Some (p, k, d) \<Rightarrow> setTiles (nullish p Osm) k (nullish d ''original'') st
        | None \<Rightarrow> setTiles Osm None ''original'' st))"

definition carto_url :: "bool \<Rightarrow> string \<Rightarrow> string" where
  "carto_url dark k =
     ''https://basemaps.cartocdn.com/rastertiles/'' @ (if dark then ''dark_all'' else ''light_all'')
       @ ''/{z}/{x}/{y}{r}.png'' @ (if k \<noteq> [] then ''?key='' @ encode_uri k else [])"

definition layer_url :: "base_layer \<Rightarrow> bool \<Rightarrow> tile_module \<Rightarrow> string option" where  \<comment> \<open>\<open>layerSpec\<close>\<close>
  "layer_url base dark st =
     (case base of
        Satellite \<Rightarrow> Some ''https://server.arcgisonline.com/ArcGIS/rest/services/World_Imagery/MapServer/tile/{z}/{y}/{x}''
      | Topo \<Rightarrow> Some ''https://tile.opentopomap.org/{z}/{x}/{y}.png''
      | MainLayer \<Rightarrow> (case tm_tiles st of
            None \<Rightarrow> None
          | Some t \<Rightarrow> Some (case ts_provider t of
                Osm \<Rightarrow> ''https://tile.openstreetmap.org/{z}/{x}/{y}.png''
              | Carto \<Rightarrow> carto_url dark (ts_key t))))"

text \<open>\<open>useThemeTiles\<close>: the url of the layer on the map, and how many layers were made.\<close>

definition swap_layer :: "base_layer \<Rightarrow> bool \<Rightarrow> tile_module \<Rightarrow> string option \<times> nat \<Rightarrow> string option \<times> nat" where
  "swap_layer base dark st cur =
     (let url = nullish (layer_url base dark st) [] in
      if fst cur = Some url then cur else (Some url, snd cur + 1))"

text \<open>The settings fetched at start never override settings saved meanwhile, and no provider is asked
  for tiles before either arrives.\<close>

lemma saved_settings_win:
  "settings_arrived s (setTiles p k d st) = setTiles p k d st
   \<and> layer_url MainLayer dark \<lparr>tm_tiles = None, tm_darkStyle = ds, tm_changes = n\<rparr> = None"
  by (simp add: settings_arrived_def setTiles_def layer_url_def)

section \<open>Link labels\<close>

definition snrLevel :: "rat \<Rightarrow> nat" where
  "snrLevel snr = (if snr \<ge> 10 then 4 else if snr \<ge> 5 then 3 else if snr \<ge> 0 then 2 else if snr \<ge> - 10 then 1 else 0)"

definition snrTextClass :: "rat \<Rightarrow> string" where
  "snrTextClass snr = (if snr \<ge> 0 then ''text-success'' else if snr \<ge> - 10 then ''text-warning''
     else ''text-destructive'')"

definition snrFill :: "rat \<Rightarrow> string" where
  "snrFill snr = (if snr \<ge> 0 then ''var(--signal-strong)'' else if snr \<ge> - 10 then ''var(--signal-weak)''
     else ''var(--signal-dead)'')"

record link_label =
  ll_angle :: rat
  ll_fwd :: "rat option"
  ll_bwd :: "rat option"

definition upright :: "rat \<Rightarrow> rat \<times> bool" where
  "upright angle = (if angle > 90 \<or> angle < - 90 then (angle + (if angle > 0 then - 180 else 180), True)
     else (angle, False))"

definition link_label_of :: "rat \<Rightarrow> rat option \<Rightarrow> rat option \<Rightarrow> link_label" where
  "link_label_of angle snrAtoB snrBtoA =
     (case upright angle of (a, flipped) \<Rightarrow>
        \<lparr>ll_angle = a, ll_fwd = (if flipped then snrBtoA else snrAtoB),
         ll_bwd = (if flipped then snrAtoB else snrBtoA)\<rparr>)"

definition label_rows :: "link_label \<Rightarrow> string list" where
  "label_rows l = (case (ll_fwd l, ll_bwd l) of
     (Some f, Some b) \<Rightarrow> [glyph_right # '' '' @ to_fixed 1 f @ '' dB'', glyph_left # '' '' @ to_fixed 1 b @ '' dB'']
   | (Some f, None) \<Rightarrow> [glyph_right # '' '' @ to_fixed 1 f @ '' dB'']
   | (None, b) \<Rightarrow> [glyph_left # '' '' @ to_fixed 1 (nullish b 0) @ '' dB''])"

definition label_at :: "rat \<times> rat \<Rightarrow> rat \<times> rat \<Rightarrow> rat \<Rightarrow> rat \<times> rat" where
  "label_at a b stagger = (fst a + (fst b - fst a) * stagger, wrapLon (snd a + (snd b - snd a) * stagger))"

text \<open>A label is never upside down, and the value beside its forward arrow is the one measured in the
  direction the arrow points on screen: from A to B, or from B to A when the line was turned round.\<close>

lemma label_upright:
  assumes "- 180 \<le> angle" and "angle \<le> 180"
  shows "- 90 \<le> ll_angle (link_label_of angle ab ba) \<and> ll_angle (link_label_of angle ab ba) \<le> 90
    \<and> (if \<bar>angle\<bar> \<le> 90 then ll_fwd (link_label_of angle ab ba) = ab \<and> ll_bwd (link_label_of angle ab ba) = ba
       else ll_fwd (link_label_of angle ab ba) = ba \<and> ll_bwd (link_label_of angle ab ba) = ab)"
  using assms by (auto simp: link_label_of_def upright_def)

lemma label_upright_witness:
  "ll_angle (link_label_of 170 (Some 3) None) = - 10 \<and> ll_bwd (link_label_of 170 (Some 3) None) = Some 3
   \<and> - 90 \<le> ll_angle (link_label_of 170 (Some 3) None)"
  using label_upright [of 170 "Some 3" None] by (simp add: link_label_of_def upright_def)

end
