(* ===== verification/ConnectionWeb.thy ===== *)
theory ConnectionWeb
  imports MapGeo JsSort
begin

text \<open>
  The map's connections (\<open>lib/connectionWeb.ts\<close> and \<open>hooks/useConnectionWeb.ts\<close>): routes of packets
  toward us folded into links with shares of traffic, the neighbours of a node, the pairs drawn, and the
  choices the operator makes. A \<open>Map\<close> is an association list in insertion order. Counts are integers,
  shares and sums of decibels exact rationals.
\<close>

section \<open>Nodes, routes and links\<close>

abbreviation SELF_ID :: string where "SELF_ID \<equiv> ''self''"

record web_node =
  wn_id :: string
  wn_name :: "string option"
  wn_type :: "string option"
  wn_lat :: int
  wn_lon :: int
  wn_hash :: "string option"
  wn_candidates :: nat        \<comment> \<open>how many\<close>
  wn_pinned :: bool
  wn_observations :: int

record web_chain =
  wc_nodes :: "string list"
  wc_origin :: bool
  wc_count :: int
  wc_first :: int
  wc_lastSeen :: string
  wc_snrSum :: rat
  wc_snrN :: int
  wc_snrMin :: "rat option"
  wc_snrMax :: "rat option"
  wc_rssiSum :: rat
  wc_rssiN :: int

record web_link =
  wl_from :: string
  wl_to :: string
  wl_count :: int
  wl_first :: int
  wl_lastSeen :: string
  wl_shareOut :: rat
  wl_shareIn :: rat
  wl_snrSum :: rat
  wl_snrN :: int
  wl_snrMin :: "rat option"
  wl_snrMax :: "rat option"
  wl_rssiSum :: rat
  wl_rssiN :: int

definition located :: "web_node option \<Rightarrow> bool" where
  "located n = (case n of None \<Rightarrow> False | Some n \<Rightarrow> wn_lat n \<noteq> 0 \<or> wn_lon n \<noteq> 0)"

definition isUncertain :: "web_node \<Rightarrow> bool" where
  "isUncertain n \<longleftrightarrow> wn_candidates n > 1 \<and> \<not> wn_pinned n"

definition nodeName :: "web_node option \<Rightarrow> string option \<Rightarrow> string" where
  "nodeName n i =
     (if i = Some SELF_ID then ''You''
      else (case n of
          None \<Rightarrow> nullish i ''?''
        | Some n \<Rightarrow> if truthy_str (wn_name n) then the (wn_name n)
            else if truthy_str (wn_hash n) then ''hash '' @ to_upper (the (wn_hash n))
            else slice 0 8 (wn_id n)))"

definition linkKey :: "string \<Rightarrow> string \<Rightarrow> string" where
  "linkKey f t = f @ ''>'' @ t"

definition pct :: "rat \<Rightarrow> string" where
  "pct v = show_int (js_round (v * 100)) @ ''%''"

definition km_text :: "rat option \<Rightarrow> string" where  \<comment> \<open>\<open>km\<close>, from Leaflet's distance in metres\<close>
  "km_text metres = (case metres of None \<Rightarrow> ''unknown''
     | Some m \<Rightarrow> (let d = m / 1000 in (if d < 10 then to_fixed 1 d else show_int (js_round d)) @ '' km''))"

definition pinHop :: "string \<Rightarrow> string option \<Rightarrow> http_request" where
  "pinHop hash pubkey = \<lparr>req_method = PUT, req_url = ''/api/connection-web/pins/'' @ hash,
     req_body = Some (JObj [(''pubkey'', case pubkey of None \<Rightarrow> JNull | Some p \<Rightarrow> JStr p)])\<rparr>"

definition unpinHop :: "string \<Rightarrow> http_request" where
  "unpinHop hash = \<lparr>req_method = DELETE, req_url = ''/api/connection-web/pins/'' @ hash, req_body = None\<rparr>"

section \<open>Folding\<close>

definition new_link :: "string \<Rightarrow> string \<Rightarrow> web_link" where
  "new_link f t = \<lparr>wl_from = f, wl_to = t, wl_count = 0, wl_first = 0, wl_lastSeen = [], wl_shareOut = 0,
     wl_shareIn = 0, wl_snrSum = 0, wl_snrN = 0, wl_snrMin = None, wl_snrMax = None, wl_rssiSum = 0, wl_rssiN = 0\<rparr>"

record fold_state =
  fs_links :: "(string \<times> web_link) list"
  fs_into :: "(string \<times> int) list"
  fs_outOf :: "(string \<times> int) list"

definition pick_by :: "(rat \<Rightarrow> rat \<Rightarrow> bool) \<Rightarrow> rat option \<Rightarrow> rat option \<Rightarrow> rat option" where
  "pick_by better new old = (case new of None \<Rightarrow> old
     | Some a \<Rightarrow> (case old of None \<Rightarrow> new | Some b \<Rightarrow> if better a b then new else old))"

definition count_hop :: "web_chain \<Rightarrow> bool \<Rightarrow> web_link \<Rightarrow> web_link" where
  "count_hop c final l =
     (let l1 = l\<lparr>wl_count := wl_count l + wc_count c, wl_first := wl_first l + wc_first c,
            wl_lastSeen := (if str_less (wl_lastSeen l) (wc_lastSeen c) then wc_lastSeen c else wl_lastSeen l)\<rparr>
      in if final then l1\<lparr>wl_snrSum := wl_snrSum l1 + wc_snrSum c, wl_snrN := wl_snrN l1 + wc_snrN c,
            wl_snrMin := pick_by (<) (wc_snrMin c) (wl_snrMin l1), wl_snrMax := pick_by (>) (wc_snrMax c) (wl_snrMax l1),
            wl_rssiSum := wl_rssiSum l1 + wc_rssiSum c, wl_rssiN := wl_rssiN l1 + wc_rssiN c\<rparr>
         else l1)"

definition tally :: "string \<Rightarrow> int \<Rightarrow> (string \<times> int) list \<Rightarrow> (string \<times> int) list" where
  "tally k n m = AList.update k (nullish (map_of m k) 0 + n) m"

definition add_hop :: "web_chain \<Rightarrow> string \<Rightarrow> string \<Rightarrow> bool \<Rightarrow> fold_state \<Rightarrow> fold_state" where
  "add_hop c f t final st =
     (let key = linkKey f t; l = nullish (map_of (fs_links st) key) (new_link f t)
      in \<lparr>fs_links = AList.update key (count_hop c final l) (fs_links st),
          fs_into = tally t (wc_count c) (fs_into st),
          fs_outOf = tally f (wc_count c) (fs_outOf st)\<rparr>)"

fun add_hops :: "web_chain \<Rightarrow> string list \<Rightarrow> fold_state \<Rightarrow> fold_state" where
  "add_hops c (f # t # rest) st = add_hops c (t # rest) (add_hop c f t (rest = []) st)"
| "add_hops c _ st = st"

definition add_chain :: "string option \<Rightarrow> web_chain \<Rightarrow> fold_state \<Rightarrow> fold_state" where
  "add_chain via c st =
     (if truthy_str via \<and> the via \<notin> set (wc_nodes c) then st else add_hops c (wc_nodes c) st)"

definition share_of :: "int \<Rightarrow> int option \<Rightarrow> rat" where  \<comment> \<open>\<open>n / (m || 1)\<close>\<close>
  "share_of n m = of_int n / (if nullish m 0 = 0 then 1 else of_int (nullish m 0))"

definition fold_chains :: "web_chain list \<Rightarrow> string option \<Rightarrow> fold_state" where
  "fold_chains cs via = foldl (\<lambda>st c. add_chain via c st) \<lparr>fs_links = [], fs_into = [], fs_outOf = []\<rparr> cs"

definition foldLinks :: "web_chain list \<Rightarrow> string option \<Rightarrow> (string \<times> web_link) list" where
  "foldLinks cs via =
     (let st = fold_chains cs via in
      map (\<lambda>(k, l). (k, l\<lparr>wl_shareOut := share_of (wl_count l) (map_of (fs_outOf st) (wl_from l)),
         wl_shareIn := share_of (wl_count l) (map_of (fs_into st) (wl_to l))\<rparr>)) (fs_links st))"

section \<open>Neighbours\<close>

record web_neighbour =
  nb_id :: "string option"
  nb_count :: int
  nb_first :: int
  nb_share :: rat
  nb_firstShare :: rat
  nb_snrSum :: rat
  nb_snrN :: int

definition add_neighbour ::
    "string option \<Rightarrow> web_chain \<Rightarrow> bool \<Rightarrow> (string option \<times> web_neighbour) list \<Rightarrow> (string option \<times> web_neighbour) list" where
  "add_neighbour i c final m =
     (let h = nullish (map_of m i) \<lparr>nb_id = i, nb_count = 0, nb_first = 0, nb_share = 0, nb_firstShare = 0,
              nb_snrSum = 0, nb_snrN = 0\<rparr>;
          h1 = h\<lparr>nb_count := nb_count h + wc_count c, nb_first := nb_first h + wc_first c\<rparr>;
          h2 = (if final then h1\<lparr>nb_snrSum := nb_snrSum h1 + wc_snrSum c, nb_snrN := nb_snrN h1 + wc_snrN c\<rparr> else h1)
      in AList.update i h2 m)"

record neighbour_state =
  ns_feeding :: "(string option \<times> web_neighbour) list"
  ns_reaching :: "(string option \<times> web_neighbour) list"
  ns_total :: int

definition add_route :: "string \<Rightarrow> neighbour_state \<Rightarrow> web_chain \<Rightarrow> neighbour_state" where
  "add_route nodeId st c =
     (case index_where (\<lambda>n. n = nodeId) (wc_nodes c) of
        None \<Rightarrow> st
      | Some i \<Rightarrow>
          (let end = length (wc_nodes c) - 1 in
           \<lparr>ns_feeding = (if i > 0 \<or> \<not> wc_origin c
               then add_neighbour (if i > 0 then Some (wc_nodes c ! (i - 1)) else None) c (i = end) (ns_feeding st)
               else ns_feeding st),
            ns_reaching = (if i < end
               then add_neighbour (Some (wc_nodes c ! (i + 1))) c (i + 1 = end) (ns_reaching st)
               else ns_reaching st),
            ns_total = ns_total st + wc_count c\<rparr>))"

definition finish_neighbours :: "int \<Rightarrow> (string option \<times> web_neighbour) list \<Rightarrow> web_neighbour list" where
  "finish_neighbours whole m =
     js_sort (\<lambda>a b. of_int (nb_count b) - of_int (nb_count a))
       (map (\<lambda>(i, h). h\<lparr>nb_share := share_of (nb_count h) (Some whole),
          nb_firstShare := share_of (nb_first h) (Some whole)\<rparr>) m)"

definition route_totals :: "web_chain list \<Rightarrow> string \<Rightarrow> neighbour_state" where
  "route_totals cs nodeId = foldl (add_route nodeId) \<lparr>ns_feeding = [], ns_reaching = [], ns_total = 0\<rparr> cs"

definition nodeNeighbours :: "web_chain list \<Rightarrow> string \<Rightarrow> web_neighbour list \<times> web_neighbour list" where
  "nodeNeighbours cs nodeId =
     (let st = route_totals cs nodeId in
      (finish_neighbours (ns_total st) (ns_feeding st), finish_neighbours (ns_total st) (ns_reaching st)))"

section \<open>What the map draws\<close>

record web_pair =
  wp_a :: string
  wp_b :: string
  wp_count :: int
  wp_heavier :: int
  wp_share :: rat
  wp_snr :: "rat option"

definition pair_key :: "web_link \<Rightarrow> string" where  \<comment> \<open>the ends in order\<close>
  "pair_key l = (if str_less (wl_to l) (wl_from l) then linkKey (wl_to l) (wl_from l) else linkKey (wl_from l) (wl_to l))"

definition add_pair :: "(string \<times> web_pair) list \<Rightarrow> web_link \<Rightarrow> (string \<times> web_pair) list" where
  "add_pair out l =
     (let p = nullish (map_of out (pair_key l)) \<lparr>wp_a = wl_from l, wp_b = wl_to l, wp_count = 0, wp_heavier = 0,
              wp_share = 0, wp_snr = None\<rparr>;
          p1 = p\<lparr>wp_count := wp_count p + wl_count l, wp_share := max (wp_share p) (wl_shareOut l)\<rparr>;
          p2 = (if wl_count l > wp_heavier p1
                then p1\<lparr>wp_heavier := wl_count l, wp_a := wl_from l, wp_b := wl_to l\<rparr> else p1);
          p3 = (if wl_snrN l > 0 then p2\<lparr>wp_snr := Some (wl_snrSum l / of_int (wl_snrN l))\<rparr> else p2)
      in AList.update (pair_key l) p3 out)"

definition allPairs :: "(string \<times> web_link) list \<Rightarrow> web_pair list" where
  "allPairs links = map snd (foldl add_pair [] (map snd links))"

definition busiest :: "web_pair list \<Rightarrow> int" where
  "busiest ps = foldl max 0 (map wp_count ps)"

definition shown_pairs :: "web_pair list \<Rightarrow> rat \<Rightarrow> web_pair list" where
  "shown_pairs ps filterShare = filter (\<lambda>p. of_int (wp_count p) \<ge> filterShare * of_int (busiest ps)) ps"

definition shownNodeIds :: "web_pair list \<Rightarrow> string list" where
  "shownNodeIds ps = filter (\<lambda>x. x \<noteq> SELF_ID) (as_set (concat (map (\<lambda>p. [wp_a p, wp_b p]) ps)))"

definition unplaced_uncertain :: "(string \<times> web_node) list \<Rightarrow> string list \<Rightarrow> web_node list \<times> web_node list" where
  "unplaced_uncertain nodes ids =
     (let shown = js_sort (\<lambda>a b. of_int (wn_observations b) - of_int (wn_observations a))
            (concat (map (\<lambda>i. case map_of nodes i of None \<Rightarrow> [] | Some n \<Rightarrow> [n]) ids))
      in (filter (\<lambda>n. \<not> located (Some n)) shown, filter isUncertain shown))"

definition totalObservations :: "web_chain list \<Rightarrow> int" where
  "totalObservations cs = foldl (\<lambda>s c. s + wc_count c) 0 cs"

definition posOf :: "(rat \<times> rat) option \<Rightarrow> (string \<times> web_node) list \<Rightarrow> string \<Rightarrow> (rat \<times> rat) option" where
  "posOf self nodes i =
     (if i = SELF_ID then map_option (\<lambda>(la, lo). (la, wrapLon lo)) self
      else (case map_of nodes i of
          Some n \<Rightarrow> if located (Some n) then Some (peerLatLon (wn_lat n) (wn_lon n)) else None
        | None \<Rightarrow> None))"

definition windows :: "int option \<Rightarrow> (int \<times> string) list" where
  "windows retentionDays =
     (let mx = nullish retentionDays 7 * 24;
          opts = [(1, ''1h''), (6, ''6h''), (24, ''24h''), (72, ''3d''), (168, ''7d''), (720, ''30d'')]
      in filter (\<lambda>w. fst w < mx) opts @ [(mx, ''all ('' @ show_int (nullish retentionDays 7) @ ''d)'')])"

section \<open>Choices\<close>

datatype selection = NoSelection | LinkSelected string string | NodeSelected string

record web_view =
  wv_via :: "string option"
  wv_selection :: selection

definition openNode :: "string \<Rightarrow> web_view \<Rightarrow> web_view" where
  "openNode i st = st\<lparr>wv_via := (if i = SELF_ID then None else Some i), wv_selection := NodeSelected i\<rparr>"

datatype pin_choice = Automatic | NoneOfThese | Peer string

definition repin_request :: "string \<Rightarrow> pin_choice \<Rightarrow> http_request" where
  "repin_request hash choice = (case choice of
     Automatic \<Rightarrow> unpinHop hash | NoneOfThese \<Rightarrow> pinHop hash None | Peer p \<Rightarrow> pinHop hash (Some p))"

definition repin :: "bool \<Rightarrow> string \<Rightarrow> string \<Rightarrow> pin_choice \<Rightarrow> web_view \<Rightarrow> web_view" where
  \<comment> \<open>\<open>accepted\<close>: the server took the change\<close>
  "repin accepted oldId hash choice st =
     (if \<not> accepted then st
      else (let newId = (case choice of Automatic \<Rightarrow> None | NoneOfThese \<Rightarrow> Some (''h:'' @ hash) | Peer p \<Rightarrow> Some p)
        in \<lparr>wv_via = (if wv_via st = Some oldId then newId else wv_via st),
            wv_selection = (case newId of Some i \<Rightarrow> if i \<noteq> [] then NodeSelected i else NoSelection
              | None \<Rightarrow> NoSelection)\<rparr>))"

section \<open>Lemmas\<close>

text \<open>Ids are hex keys, \<open>h:\<close> and a hash, or \<open>self\<close>: none holds the separator of a link's key.\<close>

definition clean_id :: "string \<Rightarrow> bool" where
  "clean_id s \<longleftrightarrow> CHR ''>'' \<notin> set s"

definition clean_chain :: "web_chain \<Rightarrow> bool" where
  "clean_chain c \<longleftrightarrow> list_all clean_id (wc_nodes c) \<and> wc_count c > 0"

lemma append_sep_inject:
  "a @ x # b = a' @ x # b' \<Longrightarrow> x \<notin> set a \<Longrightarrow> x \<notin> set a' \<Longrightarrow> a = a' \<and> b = b'"
proof (induction a arbitrary: a')
  case Nil
  then show ?case by (cases a') auto
next
  case (Cons y ys)
  then show ?case by (cases a') auto
qed

lemma linkKey_inject: "linkKey f t = linkKey f' t' \<Longrightarrow> clean_id f \<Longrightarrow> clean_id f' \<Longrightarrow> f = f' \<and> t = t'"
  unfolding linkKey_def clean_id_def by (rule append_sep_inject [of f "CHR ''>''" t f' t']) simp_all

text \<open>A total over an association list changes with one entry by the difference.\<close>

lemma sum_alist_update:
  fixes f :: "'v \<Rightarrow> int"
  assumes "distinct (map fst al)"
  shows "sum_list (map (\<lambda>(k, v). f v) (AList.update k v al))
     = sum_list (map (\<lambda>(k, v). f v) al) + f v - (case map_of al k of None \<Rightarrow> 0 | Some old \<Rightarrow> f old)"
  using assms by (induction al) (auto simp: map_of_eq_None_iff split: option.split)

definition out_count :: "string \<Rightarrow> web_link \<Rightarrow> int" where
  "out_count x l = (if wl_from l = x then wl_count l else 0)"

definition in_count :: "string \<Rightarrow> web_link \<Rightarrow> int" where
  "in_count x l = (if wl_to l = x then wl_count l else 0)"

definition link_ok :: "string \<times> web_link \<Rightarrow> bool" where
  "link_ok kl \<longleftrightarrow> (case kl of (k, l) \<Rightarrow> k = linkKey (wl_from l) (wl_to l) \<and> clean_id (wl_from l) \<and> wl_count l > 0)"

definition totals :: "(web_link \<Rightarrow> int) \<Rightarrow> (string \<times> web_link) list \<Rightarrow> int" where
  "totals f al = sum_list (map (\<lambda>(k, l). f l) al)"

definition fold_ok :: "fold_state \<Rightarrow> bool" where
  "fold_ok st \<longleftrightarrow> distinct (map fst (fs_links st)) \<and> list_all link_ok (fs_links st)
     \<and> (\<forall>x. totals (out_count x) (fs_links st) = nullish (map_of (fs_outOf st) x) 0)
     \<and> (\<forall>x. totals (in_count x) (fs_links st) = nullish (map_of (fs_into st) x) 0)"

lemma count_hop_sel [simp]:
  "wl_from (count_hop c fin l) = wl_from l" "wl_to (count_hop c fin l) = wl_to l"
  "wl_count (count_hop c fin l) = wl_count l + wc_count c"
  by (simp_all add: count_hop_def Let_def)

lemma map_of_tally: "map_of (tally k n m) x = (if x = k then Some (nullish (map_of m k) 0 + n) else map_of m x)"
  by (simp add: tally_def update_conv')

lemma list_all_alist_update':
  "list_all P al \<Longrightarrow> P (k, v) \<Longrightarrow> list_all P (AList.update k v al)"
  by (induction al) auto

lemma fold_ok_add_hop:
  assumes ok: "fold_ok st" and "clean_id f" "wc_count c > 0"
  shows "fold_ok (add_hop c f t fin st)"
proof -
  define key where "key = linkKey f t"
  define l where "l = nullish (map_of (fs_links st) key) (new_link f t)"
  define n where "n = wc_count c"
  have old: "wl_from l' = f \<and> wl_to l' = t \<and> wl_count l' > 0" if "map_of (fs_links st) key = Some l'" for l'
  proof -
    have "link_ok (key, l')" using ok map_of_SomeD [OF that] by (auto simp: fold_ok_def list_all_iff)
    then show ?thesis using assms(2) by (auto simp: link_ok_def key_def dest!: linkKey_inject)
  qed
  have l: "wl_from l = f" "wl_to l = t" "wl_count l \<ge> 0"
    using old by (auto simp: l_def nullish_def new_link_def split: option.split)
  have eq: "add_hop c f t fin st = \<lparr>fs_links = AList.update key (count_hop c fin l) (fs_links st),
      fs_into = tally t n (fs_into st), fs_outOf = tally f n (fs_outOf st)\<rparr>"
    by (simp add: add_hop_def Let_def key_def l_def n_def)
  have d: "distinct (map fst (fs_links st))" using ok by (simp add: fold_ok_def)
  have tot: "totals g (AList.update key (count_hop c fin l) (fs_links st))
      = totals g (fs_links st) + (g (count_hop c fin l) - g l)"
    if "map_of (fs_links st) key = None \<Longrightarrow> g (new_link f t) = 0" for g
    unfolding totals_def sum_alist_update [OF d]
    using that by (auto simp: l_def nullish_def split: option.split)
  have "totals (out_count x) (AList.update key (count_hop c fin l) (fs_links st))
      = nullish (map_of (tally f n (fs_outOf st)) x) 0" for x
    using ok l by (subst tot) (auto simp: fold_ok_def map_of_tally out_count_def new_link_def n_def nullish_def)
  moreover have "totals (in_count x) (AList.update key (count_hop c fin l) (fs_links st))
      = nullish (map_of (tally t n (fs_into st)) x) 0" for x
    using ok l by (subst tot) (auto simp: fold_ok_def map_of_tally in_count_def new_link_def n_def nullish_def)
  moreover have "list_all link_ok (AList.update key (count_hop c fin l) (fs_links st))"
    using ok l assms by (intro list_all_alist_update') (auto simp: fold_ok_def link_ok_def key_def)
  ultimately show ?thesis
    unfolding fold_ok_def eq using d by (simp add: distinct_update)
qed

lemma fold_ok_add_hops:
  "fold_ok st \<Longrightarrow> list_all clean_id ns \<Longrightarrow> wc_count c > 0 \<Longrightarrow> fold_ok (add_hops c ns st)"
  by (induction c ns st rule: add_hops.induct) (simp_all add: fold_ok_add_hop)

lemma fold_ok_chains:
  assumes "list_all clean_chain cs"
  shows "fold_ok (fold_chains cs via)"
proof -
  have "fold_ok st \<Longrightarrow> fold_ok (foldl (\<lambda>st c. add_chain via c st) st cs)" for st
    using assms
  proof (induction cs arbitrary: st)
    case (Cons c cs)
    then have "fold_ok (add_chain via c st)"
      by (auto simp: add_chain_def clean_chain_def intro!: fold_ok_add_hops)
    with Cons show ?case by simp
  qed simp
  moreover have "fold_ok \<lparr>fs_links = [], fs_into = [], fs_outOf = []\<rparr>"
    by (simp add: fold_ok_def totals_def nullish_def)
  ultimately show ?thesis by (simp add: fold_chains_def)
qed

lemma sum_shares:
  assumes "totals (\<lambda>l. if P l then wl_count l else 0) al = n" "n \<noteq> 0"
  shows "sum_list (map (\<lambda>(k, l). if P l then share_of (wl_count l) (Some n) else 0) al) = 1"
proof -
  have "sum_list (map (\<lambda>(k, l). if P l then share_of (wl_count l) (Some n) else 0) al)
      = of_int (totals (\<lambda>l. if P l then wl_count l else 0) al) / (of_int n :: rat)"
    using assms(2) by (induction al) (auto simp: totals_def share_of_def nullish_def add_divide_distrib)
  then show ?thesis using assms by simp
qed

definition counted :: "(string \<Rightarrow> nat \<Rightarrow> web_chain \<Rightarrow> bool) \<Rightarrow> string \<Rightarrow> web_chain \<Rightarrow> int" where
  "counted p n c = (case index_where (\<lambda>x. x = n) (wc_nodes c) of None \<Rightarrow> 0
     | Some i \<Rightarrow> if p n i c then wc_count c else 0)"

definition fed :: "string \<Rightarrow> nat \<Rightarrow> web_chain \<Rightarrow> bool" where
  "fed n i c \<longleftrightarrow> i > 0 \<or> \<not> wc_origin c"

definition passed_on :: "string \<Rightarrow> nat \<Rightarrow> web_chain \<Rightarrow> bool" where
  "passed_on n i c \<longleftrightarrow> i < length (wc_nodes c) - 1"

definition count_of :: "(string option \<times> web_neighbour) list \<Rightarrow> int" where
  "count_of m = sum_list (map (\<lambda>(k, h). nb_count h) m)"

lemma add_neighbour_count:
  assumes "distinct (map fst m)"
  shows "count_of (add_neighbour i c fin m) = count_of m + wc_count c
     \<and> distinct (map fst (add_neighbour i c fin m))"
  using assms sum_alist_update [OF assms, of nb_count i]
  by (auto simp: add_neighbour_def count_of_def Let_def nullish_def distinct_update split: option.split)

definition totals_ok :: "neighbour_state \<Rightarrow> bool" where
  "totals_ok st \<longleftrightarrow> distinct (map fst (ns_feeding st)) \<and> distinct (map fst (ns_reaching st))"

lemma route_totals_counts:
  "totals_ok (foldl (add_route n) st cs) = totals_ok st" if "totals_ok st"
  using that
proof (induction cs arbitrary: st)
  case (Cons c cs)
  then have "totals_ok (add_route n st c)"
    by (auto simp: add_route_def totals_ok_def Let_def add_neighbour_count split: option.split)
  with Cons show ?case by simp
qed simp

lemma route_counts:
  assumes "totals_ok st"
  shows "count_of (ns_feeding (foldl (add_route n) st cs)) = count_of (ns_feeding st) + sum_list (map (counted fed n) cs)
    \<and> count_of (ns_reaching (foldl (add_route n) st cs)) = count_of (ns_reaching st) + sum_list (map (counted passed_on n) cs)
    \<and> ns_total (foldl (add_route n) st cs) = ns_total st + sum_list (map (counted (\<lambda>n i c. True) n) cs)"
  using assms
proof (induction cs arbitrary: st)
  case (Cons c cs)
  have ok: "totals_ok (add_route n st c)" using route_totals_counts [OF Cons.prems, of n "[c]"] Cons.prems by simp
  have "count_of (ns_feeding (add_route n st c)) = count_of (ns_feeding st) + counted fed n c"
    "count_of (ns_reaching (add_route n st c)) = count_of (ns_reaching st) + counted passed_on n c"
    "ns_total (add_route n st c) = ns_total st + counted (\<lambda>n i c. True) n c"
    using Cons.prems
    by (auto simp: add_route_def counted_def fed_def passed_on_def totals_ok_def Let_def add_neighbour_count split: option.split)
  with Cons.IH [OF ok] show ?case by simp
qed simp

lemma finish_counts:
  "mset (map nb_count (finish_neighbours whole m)) = mset (map (\<lambda>(k, h). nb_count h) m)"
proof -
  have "mset (map nb_count (finish_neighbours whole m))
      = image_mset nb_count (mset (finish_neighbours whole m))" by simp
  then show ?thesis by (simp add: finish_neighbours_def multiset.map_comp comp_def case_prod_unfold)
qed

section \<open>Properties\<close>

text \<open>the shares of the traffic a node passed on add up to one over its outgoing links, and the shares of
  what reached a node add up to one over its incoming links, whatever routes were counted and whichever
  relay they are filtered by.\<close>

theorem link_shares:
  assumes "list_all clean_chain cs"
    and "x \<in> wl_from ` snd ` set (foldLinks cs via)" and "y \<in> wl_to ` snd ` set (foldLinks cs via)"
  shows "sum_list (map (\<lambda>(k, l). if wl_from l = x then wl_shareOut l else 0) (foldLinks cs via)) = 1
    \<and> sum_list (map (\<lambda>(k, l). if wl_to l = y then wl_shareIn l else 0) (foldLinks cs via)) = 1"
proof -
  define st where "st = fold_chains cs via"
  have ok: "fold_ok st" using assms(1) by (simp add: st_def fold_ok_chains)
  have links: "foldLinks cs via = map (\<lambda>(k, l). (k, l\<lparr>wl_shareOut := share_of (wl_count l) (map_of (fs_outOf st) (wl_from l)),
         wl_shareIn := share_of (wl_count l) (map_of (fs_into st) (wl_to l))\<rparr>)) (fs_links st)"
    by (simp add: foldLinks_def Let_def st_def)
  have pos: "0 < wl_count l" if "(k, l) \<in> set (fs_links st)" for k l
    using ok that by (auto simp: fold_ok_def list_all_iff link_ok_def)
  have nonzero: "totals (\<lambda>l. if P l then wl_count l else 0) (fs_links st) > 0"
    if "(k, l) \<in> set (fs_links st)" "P l" for P k l
  proof -
    have "totals (\<lambda>l. if P l then wl_count l else 0) al > 0"
      if "(k, l) \<in> set al" "P l" "\<And>k l. (k, l) \<in> set al \<Longrightarrow> 0 < wl_count l" for al
      using that
    proof (induction al)
      case (Cons e al)
      have "0 \<le> totals (\<lambda>l. if P l then wl_count l else 0) al"
        unfolding totals_def by (rule sum_list_nonneg) (use Cons.prems(3) in \<open>force intro: less_imp_le\<close>)
      with Cons show ?case by (cases e) (fastforce simp: totals_def)
    qed simp
    with that pos show ?thesis by blast
  qed
  obtain k l where l: "(k, l) \<in> set (fs_links st)" "wl_from l = x" using assms(2) by (auto simp: links)
  obtain k' l' where l': "(k', l') \<in> set (fs_links st)" "wl_to l' = y" using assms(3) by (auto simp: links)
  have out: "totals (\<lambda>l. if wl_from l = x then wl_count l else 0) (fs_links st) = nullish (map_of (fs_outOf st) x) 0"
    using ok by (simp add: fold_ok_def out_count_def [abs_def])
  have into: "totals (\<lambda>l. if wl_to l = y then wl_count l else 0) (fs_links st) = nullish (map_of (fs_into st) y) 0"
    using ok by (simp add: fold_ok_def in_count_def [abs_def])
  have "sum_list (map (\<lambda>(k, l). if wl_from l = x then share_of (wl_count l) (Some (nullish (map_of (fs_outOf st) x) 0)) else 0)
      (fs_links st)) = 1"
    using out nonzero [OF l(1), of "\<lambda>l. wl_from l = x"] l(2) by (intro sum_shares) simp_all
  moreover have "sum_list (map (\<lambda>(k, l). if wl_to l = y then share_of (wl_count l) (Some (nullish (map_of (fs_into st) y) 0)) else 0)
      (fs_links st)) = 1"
    using into nonzero [OF l'(1), of "\<lambda>l. wl_to l = y"] l'(2) by (intro sum_shares) simp_all
  ultimately show ?thesis
    by (simp add: links comp_def case_prod_unfold share_of_def nullish_def cong: if_cong)
qed

definition sample_chain :: "string list \<Rightarrow> int \<Rightarrow> web_chain" where
  "sample_chain ns n = \<lparr>wc_nodes = ns, wc_origin = True, wc_count = n, wc_first = 1, wc_lastSeen = ''2024'',
     wc_snrSum = 5, wc_snrN = 1, wc_snrMin = Some 5, wc_snrMax = Some 5, wc_rssiSum = - 90, wc_rssiN = 1\<rparr>"

theorem link_shares_witness:
  "map (\<lambda>(k, l). wl_shareOut l) (foldLinks [sample_chain [''a'', ''b'', ''self''] 3, sample_chain [''a'', ''self''] 1] None)
     = [3 / 4, 1, 1 / 4]
   \<and> sum_list (map (\<lambda>(k, l). if wl_from l = ''a'' then wl_shareOut l else 0)
       (foldLinks [sample_chain [''a'', ''b'', ''self''] 3, sample_chain [''a'', ''self''] 1] None)) = 1"
proof
  have "list_all clean_chain [sample_chain [''a'', ''b'', ''self''] 3, sample_chain [''a'', ''self''] 1]" by code_simp
  moreover have "''a'' \<in> wl_from ` snd ` set (foldLinks [sample_chain [''a'', ''b'', ''self''] 3, sample_chain [''a'', ''self''] 1] None)"
    by code_simp
  moreover have "''self'' \<in> wl_to ` snd ` set (foldLinks [sample_chain [''a'', ''b'', ''self''] 3, sample_chain [''a'', ''self''] 1] None)"
    by code_simp
  ultimately show "sum_list (map (\<lambda>(k, l). if wl_from l = ''a'' then wl_shareOut l else 0)
       (foldLinks [sample_chain [''a'', ''b'', ''self''] 3, sample_chain [''a'', ''self''] 1] None)) = 1"
    by (rule link_shares [THEN conjunct1])
qed code_simp

text \<open>the neighbours of a node account for its traffic: those feeding it for every route through it that
  it did not send itself, those it reaches for every route it passed on; both are listed busiest first.\<close>

theorem neighbours_account:
  "sum_list (map nb_count (fst (nodeNeighbours cs n))) = sum_list (map (counted fed n) cs)
   \<and> sum_list (map nb_count (snd (nodeNeighbours cs n))) = sum_list (map (counted passed_on n) cs)
   \<and> sorted_wrt (\<lambda>a b. nb_count b \<le> nb_count a) (fst (nodeNeighbours cs n))
   \<and> sorted_wrt (\<lambda>a b. nb_count b \<le> nb_count a) (snd (nodeNeighbours cs n))"
proof -
  have sum: "sum_list (map nb_count (finish_neighbours w m)) = count_of m" for w m
    using arg_cong [OF finish_counts, of sum_mset w m] by (simp only: sum_mset_sum_list count_of_def)
  have sorted: "sorted_wrt (\<lambda>a b. nb_count b \<le> nb_count a) (finish_neighbours w m)" for w m
    unfolding finish_neighbours_def
    using js_comparator.sorted_js_sort [OF js_comparator_key_desc [of "\<lambda>h. of_int (nb_count h)"]]
    by (rule sorted_wrt_mono_rel [rotated]) simp
  have "totals_ok \<lparr>ns_feeding = [], ns_reaching = [], ns_total = 0\<rparr>" by (simp add: totals_ok_def)
  from route_counts [OF this, of n cs] show ?thesis
    by (simp add: nodeNeighbours_def Let_def sum sorted route_totals_def) (simp add: count_of_def)
qed

end
