(* ===== verification/SensorView.thy ===== *)
theory SensorView
  imports JsSort
begin

text \<open>
  How a sensor's status reads on the page (\<open>lib/sensorView.ts\<close>): its state, the readings of a card sorted
  by role, and how a value is written. Values are exact rationals.
\<close>

datatype reading_format = NumberFormat | FlagFormat | CountFormat
datatype reading_role = Headline | Detail | Calibration

record sensor_reading =
  sr_metric :: string
  sr_label :: "string option"
  sr_value :: rat
  sr_unit :: "string option"
  sr_format :: reading_format
  sr_role :: reading_role

record sensor =
  se_readings :: "sensor_reading list"
  se_ageSecs :: "rat option"
  se_staleAfterSecs :: rat
  se_error :: string

datatype sensor_state = Healthy | Calibrating | Waiting | Stale | Failing

definition uncalibrated :: "sensor_reading \<Rightarrow> bool" where
  "uncalibrated r \<longleftrightarrow>
     (if sr_role r \<noteq> Calibration then False
      else if sr_format r = FlagFormat then sr_value r = 0
      else sr_format r = CountFormat \<and> sr_value r < 2)"

definition stateOf :: "sensor \<Rightarrow> sensor_state" where
  "stateOf s =
     (if se_error s \<noteq> [] then Failing
      else (case se_ageSecs s of
          None \<Rightarrow> Waiting
        | Some age \<Rightarrow>
            if age > se_staleAfterSecs s then Stale
            else if list_ex uncalibrated (se_readings s) then Calibrating else Healthy))"

record card_readings =
  cr_headline :: "sensor_reading list"
  cr_detail :: "sensor_reading list"
  cr_calibration :: "sensor_reading list"
  cr_flags :: "sensor_reading list"

definition put_reading :: "card_readings \<Rightarrow> sensor_reading \<Rightarrow> card_readings" where
  "put_reading out r =
     (if sr_role r = Calibration then out\<lparr>cr_calibration := cr_calibration out @ [r]\<rparr>
      else if sr_format r = FlagFormat then out\<lparr>cr_flags := cr_flags out @ [r]\<rparr>
      else if sr_role r = Detail then out\<lparr>cr_detail := cr_detail out @ [r]\<rparr>
      else out\<lparr>cr_headline := cr_headline out @ [r]\<rparr>)"

definition leads :: "sensor_reading \<Rightarrow> rat" where
  "leads r = (if sr_metric r = ''iaq'' then 1 else 0)"

definition splitReadings :: "sensor_reading list \<Rightarrow> card_readings" where
  "splitReadings readings =
     (let out = foldl put_reading \<lparr>cr_headline = [], cr_detail = [], cr_calibration = [], cr_flags = []\<rparr> readings;
          out = (if cr_headline out = [] then out\<lparr>cr_headline := cr_detail out, cr_detail := []\<rparr> else out)
      in out\<lparr>cr_headline := js_sort (\<lambda>a b. leads b - leads a) (cr_headline out)\<rparr>)"

definition iaqBand :: "rat \<Rightarrow> string" where
  "iaqBand v = (if v \<le> 50 then ''excellent'' else if v \<le> 100 then ''good'' else if v \<le> 150 then ''lightly polluted''
     else if v \<le> 200 then ''moderately polluted'' else if v \<le> 250 then ''heavily polluted''
     else if v \<le> 350 then ''severely polluted'' else ''extremely polluted'')"

definition ACCURACY :: "string list" where
  "ACCURACY = [''settling'', ''low'', ''medium'', ''high'']"

definition ageText :: "rat option \<Rightarrow> string" where
  "ageText secs = (case secs of
     None \<Rightarrow> ''never read''
   | Some s \<Rightarrow> if s < 60 then show_int \<lfloor>s\<rfloor> @ ''s''
       else if s < 3600 then show_int (js_round (s / 60)) @ '' min''
       else show_int (js_round (s / 3600)) @ '' h'')"

section \<open>Numbers\<close>

text \<open>\<open>Math.floor(Math.log10(x))\<close> for x above 0, exactly: the power of ten at or below it. The fuel bounds
  how far it may lie from 1; below a millionth and from ten million on the formatting no longer depends on
  it.\<close>

fun log10_floor :: "nat \<Rightarrow> rat \<Rightarrow> int" where
  "log10_floor 0 x = 0"
| "log10_floor (Suc n) x =
     (if x \<ge> 10 then log10_floor n (x / 10) + 1 else if x < 1 then log10_floor n (x * 10) - 1 else 0)"

fun drop_zeros :: "string \<Rightarrow> string" where  \<comment> \<open>leading zeros of a reversed numeral\<close>
  "drop_zeros (c # s) = (if c = CHR ''0'' then drop_zeros s else c # s)"
| "drop_zeros [] = []"

definition strip_zeros :: "string \<Rightarrow> string" where  \<comment> \<open>\<open>s.replace(/\.?0+$/, "")\<close> of a numeral with a point\<close>
  "strip_zeros s =
     (if CHR ''.'' \<in> set s
      then (let r = drop_zeros (rev s) in rev (if starts_with ''.'' r \<and> r \<noteq> rev s then tl r else r)) else s)"

definition decimals_for :: "int \<Rightarrow> nat" where
  "decimals_for mag = nat (min 6 (max (if mag < 2 then 2 else 0) (3 - mag)))"

definition formatNumber :: "rat \<Rightarrow> string" where
  "formatNumber v = (if v = 0 then ''0'' else strip_zeros (to_fixed (decimals_for (log10_floor 20 \<bar>v\<bar>)) v))"

definition displayReading :: "sensor_reading \<Rightarrow> string \<times> string option" where
  "displayReading r =
     (if sr_format r = FlagFormat then (if sr_value r \<noteq> 0 then ''yes'' else ''no'', None)
      else if sr_format r = CountFormat \<or> sr_metric r \<in> {''iaq'', ''static_iaq''}
      then (show_int (js_round (sr_value r)), sr_unit r)
      else if sr_unit r = Some [glyph_ohm] \<and> \<bar>sr_value r\<bar> \<ge> 1000
      then (if \<bar>sr_value r\<bar> \<ge> 1000000 then (formatNumber (sr_value r / 1000000), Some (''M'' @ [glyph_ohm]))
            else (formatNumber (sr_value r / 1000), Some (''k'' @ [glyph_ohm])))
      else (formatNumber (sr_value r), sr_unit r))"

definition readingLabel :: "sensor_reading \<Rightarrow> string" where
  "readingLabel r = (if truthy_str (sr_label r) then the (sr_label r) else replace_char (CHR ''_'') (CHR 0x20) (sr_metric r))"

section \<open>Lemmas\<close>

definition all_readings :: "card_readings \<Rightarrow> sensor_reading list" where
  "all_readings c = cr_headline c @ cr_detail c @ cr_calibration c @ cr_flags c"

lemma put_reading_mset: "mset (all_readings (put_reading out r)) = add_mset r (mset (all_readings out))"
  by (simp add: put_reading_def all_readings_def)

lemma put_readings_mset: "mset (all_readings (foldl put_reading out rs)) = mset (all_readings out) + mset rs"
  by (induction rs arbitrary: out) (simp_all add: put_reading_mset)

lemma log10_floor_correct:
  assumes "0 < x" and "x < 10 ^ (n + 1)" and "1 \<le> x * 10 ^ n"
  shows "(if 0 \<le> log10_floor n x then 10 ^ nat (log10_floor n x) \<le> x \<and> x < 10 * 10 ^ nat (log10_floor n x)
     else 1 \<le> x * 10 ^ nat (- log10_floor n x) \<and> x * 10 ^ nat (- log10_floor n x) < 10)"
  using assms
proof (induction n arbitrary: x)
  case 0
  then show ?case by simp
next
  case (Suc n)
  consider "x \<ge> 10" | "x < 1" | "1 \<le> x" "x < 10" by linarith
  then show ?case
  proof cases
    case 1
    have pos: "0 \<le> log10_floor m y" if "y \<ge> 1" for m and y :: rat
      using that by (induction m arbitrary: y) (auto simp: field_simps)
    have "(1::rat) \<le> 10 ^ n" by simp
    then have "1 \<le> (x / 10) * 10 ^ n" using 1 mult_mono [of 1 "x / 10" 1 "10 ^ n"] by simp
    then have ih: "10 ^ nat (log10_floor n (x / 10)) \<le> x / 10 \<and> x / 10 < 10 * 10 ^ nat (log10_floor n (x / 10))"
      using Suc.IH [of "x / 10"] Suc.prems 1 pos [of "x / 10" n] by simp
    have "nat (log10_floor n (x / 10) + 1) = Suc (nat (log10_floor n (x / 10)))"
      using pos [of "x / 10" n] 1 by simp
    then show ?thesis using ih 1 pos [of "x / 10" n] by simp
  next
    case 2
    have neg: "log10_floor m y \<le> 0" if "y < 10" for m and y :: rat
      using that
    proof (induction m arbitrary: y)
      case (Suc m)
      have "log10_floor m (y * 10) \<le> 0" if "y < 1" using Suc.IH [of "y * 10"] that by simp
      with Suc.prems show ?case by force
    qed simp
    have ih: "1 \<le> x * 10 * 10 ^ nat (- log10_floor n (x * 10)) \<and> x * 10 * 10 ^ nat (- log10_floor n (x * 10)) < 10"
    proof (cases "log10_floor n (x * 10) = 0")
      case True
      have "(1::rat) \<le> 10 ^ n" by simp
      then have "x < 10 ^ n" using 2 by linarith
      then have "x * 10 < 10 ^ (n + 1)" by simp
      then show ?thesis using Suc.IH [of "x * 10"] Suc.prems True by (simp add: mult.assoc)
    next
      case False
      have "(1::rat) \<le> 10 ^ n" by simp
      then have "x < 10 ^ n" using 2 by linarith
      then have "x * 10 < 10 ^ (n + 1)" by simp
      then show ?thesis using Suc.IH [of "x * 10"] Suc.prems False neg [of "x * 10" n] 2 by (simp add: mult.assoc)
    qed
    have "nat (- (log10_floor n (x * 10) - 1)) = Suc (nat (- log10_floor n (x * 10)))"
      using neg [of "x * 10" n] 2 by simp
    then show ?thesis using ih 2 neg [of "x * 10" n] by (simp add: mult.assoc)
  next
    case 3
    then show ?thesis by simp
  qed
qed

section \<open>Properties\<close>

text \<open>a card shows every reading once; a card of which anything but calibrations and flags is known has
  a headline; and the air quality index leads it.\<close>

theorem split_readings_complete:
  "mset (all_readings (splitReadings rs)) = mset rs
   \<and> (cr_headline (splitReadings rs) = [] \<longleftrightarrow> list_all (\<lambda>r. sr_role r = Calibration \<or> sr_format r = FlagFormat) rs)
   \<and> sorted_wrt (\<lambda>a b. leads b \<le> leads a) (cr_headline (splitReadings rs))"
proof -
  define out where "out = foldl put_reading \<lparr>cr_headline = [], cr_detail = [], cr_calibration = [], cr_flags = []\<rparr> rs"
  define moved where "moved = (if cr_headline out = [] then out\<lparr>cr_headline := cr_detail out, cr_detail := []\<rparr> else out)"
  have s: "splitReadings rs = moved\<lparr>cr_headline := js_sort (\<lambda>a b. leads b - leads a) (cr_headline moved)\<rparr>"
    by (simp add: splitReadings_def Let_def out_def moved_def)
  have "mset (all_readings out) = mset rs" by (simp add: out_def put_readings_mset) (simp add: all_readings_def)
  then have m: "mset (all_readings (splitReadings rs)) = mset rs"
    by (auto simp: s moved_def all_readings_def)
  have e: "cr_headline (foldl put_reading c rs) = [] \<and> cr_detail (foldl put_reading c rs) = []
      \<longleftrightarrow> cr_headline c = [] \<and> cr_detail c = [] \<and> list_all (\<lambda>r. sr_role r = Calibration \<or> sr_format r = FlagFormat) rs" for c
    by (induction rs arbitrary: c) (auto simp: put_reading_def)
  have "cr_headline (splitReadings rs) = [] \<longleftrightarrow> cr_headline out = [] \<and> cr_detail out = []"
  proof -
    have "js_sort f xs = [] \<longleftrightarrow> xs = []" for f and xs :: "sensor_reading list"
      by (metis length_0_conv length_js_sort)
    then show ?thesis by (auto simp: s moved_def)
  qed
  moreover have "sorted_wrt (\<lambda>a b. leads b \<le> leads a) (cr_headline (splitReadings rs))"
    using js_comparator.sorted_js_sort [OF js_comparator_key_desc [of leads], of "cr_headline moved"]
    by (simp add: s)
  ultimately show ?thesis using m e [of "\<lparr>cr_headline = [], cr_detail = [], cr_calibration = [], cr_flags = []\<rparr>"]
    by (simp add: out_def)
qed

text \<open>Just under an hour reads as sixty minutes.\<close>

lemma sixty_minutes: "ageText (Some 3599) = ''60 min''"
  by code_simp

end
