(* ===== verification/Format.thy ===== *)
theory Format
  imports Dates
begin

text \<open>
  \<open>lib/format.ts\<close>: ages, durations, truncation and the battery voltage. The clock is an argument
  (\<open>Date.now()\<close>); what the browser's locale prints for a time is a parameter (\<open>locale_text\<close>).
\<close>

section \<open>Relative times\<close>

definition timeAgo :: "int \<Rightarrow> string \<Rightarrow> string" where
  \<comment> \<open>an unreadable time stamp makes every comparison with \<open>NaN\<close> false\<close>
  "timeAgo now ts =
     (case date_ms ts of
        None \<Rightarrow> ''NaNd''
      | Some t \<Rightarrow>
          (let mins = (now - t) div 60000 in
           if mins < 1 then ''now''
           else if mins < 60 then show_int mins @ ''m''
           else (let hrs = mins div 60 in
             if hrs < 24 then show_int hrs @ ''h''
             else show_int (hrs div 24) @ ''d'')))"

definition formatSecsAgo :: "int \<Rightarrow> string" where
  "formatSecsAgo secs =
     (if secs < 60 then show_int secs @ ''s ago''
      else if secs < 3600 then show_int (secs div 60) @ ''m ago''
      else if secs < 86400 then show_int (secs div 3600) @ ''h ago''
      else show_int (secs div 86400) @ ''d ago'')"

section \<open>Locale text\<close>

text \<open>
  What \<open>Intl\<close> prints is the browser's: the calendar day and year of a time in the local zone, and the
  texts of the option sets the code passes. \<open>None\<close> is an invalid date, which prints without raising.
\<close>

record locale_text =
  year_of :: "int option \<Rightarrow> int"
  day_of :: "int option \<Rightarrow> string"           \<comment> \<open>\<open>toDateString()\<close>\<close>
  time_hm :: "int option \<Rightarrow> string"
  time_hms :: "int option \<Rightarrow> string"
  date_md :: "int option \<Rightarrow> string"
  datetime_md :: "int option \<Rightarrow> string"
  datetime_ymd :: "int option \<Rightarrow> string"

definition formatDateTime :: "locale_text \<Rightarrow> int \<Rightarrow> string \<Rightarrow> string" where
  "formatDateTime L now ts =
     (let d = date_ms ts in
      if d \<noteq> None \<and> year_of L d = year_of L (Some now) then datetime_md L d else datetime_ymd L d)"

definition formatShortTime :: "locale_text \<Rightarrow> int \<Rightarrow> string \<Rightarrow> string" where
  "formatShortTime L now ts =
     (let d = date_ms ts in
      if day_of L d = day_of L (Some now) then time_hm L d else date_md L d)"

definition formatClockTime :: "locale_text \<Rightarrow> string \<Rightarrow> string" where
  "formatClockTime L ts = time_hms L (date_ms ts)"

section \<open>Truncation\<close>

definition truncate_str :: "string \<Rightarrow> nat \<Rightarrow> string" where
  "truncate_str s n =
     (if s = [] then []
      else if length s > n then slice 0 (int n) s @ [glyph_ellipsis] else s)"

definition truncateMid :: "string \<Rightarrow> nat \<Rightarrow> nat \<Rightarrow> string" where
  "truncateMid s hd_n tl_n =
     (if s = [] \<or> length s \<le> hd_n + tl_n + 1 then s
      else slice 0 (int hd_n) s @ [glyph_ellipsis] @ slice_from (- int tl_n) s)"

section \<open>Durations and voltage\<close>

definition uptime_parts :: "rat \<Rightarrow> int \<times> int \<times> int" where
  "uptime_parts secs =
     (\<lfloor>secs / 86400\<rfloor>, \<lfloor>js_rem secs 86400 / 3600\<rfloor>, \<lfloor>js_rem secs 3600 / 60\<rfloor>)"

definition formatUptime :: "rat \<Rightarrow> string" where
  "formatUptime secs =
     (case uptime_parts secs of (d, h, m) \<Rightarrow>
        if d > 0 then show_int d @ ''d '' @ show_int h @ ''h '' @ show_int m @ ''m''
        else if h > 0 then show_int h @ ''h '' @ show_int m @ ''m''
        else show_int m @ ''m'')"

definition formatBattery :: "rat \<Rightarrow> string" where
  "formatBattery mv = to_fixed 2 (mv / 1000) @ ''V''"

lemmas [js_eval] = timeAgo_def formatSecsAgo_def truncate_str_def truncateMid_def js_rem_def
  uptime_parts_def formatUptime_def formatBattery_def

section \<open>Properties\<close>

lemma floor_quotient_bounds:
  assumes "0 < (m :: rat)"
  shows "m * of_int \<lfloor>x / m\<rfloor> \<le> x" "x < m * of_int \<lfloor>x / m\<rfloor> + m"
proof -
  show "m * of_int \<lfloor>x / m\<rfloor> \<le> x"
    using of_int_floor_le [of "x / m"] assms by (simp only: pos_le_divide_eq mult.commute)
  have "x / m < of_int \<lfloor>x / m\<rfloor> + 1" using floor_correct [of "x / m"] by simp
  with assms show "x < m * of_int \<lfloor>x / m\<rfloor> + m"
    by (simp add: pos_divide_less_eq algebra_simps)
qed

lemma js_rem_nonneg:
  assumes "0 \<le> x" "0 < m" shows "js_rem x m = x - m * of_int \<lfloor>x / m\<rfloor>"
proof -
  from assms have "\<not> x / m < 0" by (simp add: not_less)
  then show ?thesis by (simp only: js_rem_def Let_def if_False)
qed

lemma js_rem_bounds:
  assumes "0 \<le> x" "0 < m" shows "0 \<le> js_rem x m" "js_rem x m < m"
  using floor_quotient_bounds [OF assms(2), of x] by (simp_all add: js_rem_nonneg [OF assms])

lemma nested_rem:
  assumes "0 \<le> x"
  shows "js_rem x 3600 = js_rem (js_rem x 86400) 3600"
proof -
  have r: "js_rem x 86400 = x - 86400 * of_int \<lfloor>x / 86400\<rfloor>" using assms by (simp add: js_rem_nonneg)
  have eq: "js_rem x 86400 / 3600 = x / 3600 - of_int (24 * \<lfloor>x / 86400\<rfloor>)"
    by (simp add: r field_simps)
  have "\<lfloor>js_rem x 86400 / 3600\<rfloor> = \<lfloor>x / 3600\<rfloor> - 24 * \<lfloor>x / 86400\<rfloor>"
    unfolding eq by (rule floor_diff_of_int)
  then show ?thesis
    using assms js_rem_bounds(1) [OF assms, of 86400]
    by (simp add: js_rem_nonneg r algebra_simps)
qed

lemma uptime_parts_spec:
  assumes "0 \<le> secs" and "uptime_parts secs = (d, h, m)"
  shows "0 \<le> d \<and> 0 \<le> h \<and> h < 24 \<and> 0 \<le> m \<and> m < 60
     \<and> of_int (86400 * d + 3600 * h + 60 * m) \<le> secs
     \<and> secs < of_int (86400 * d + 3600 * h + 60 * m) + 60"
proof -
  define a where "a = js_rem secs 86400"
  define b where "b = js_rem secs 3600"
  have a: "0 \<le> a" "a < 86400" "a = secs - 86400 * of_int d"
    using assms js_rem_bounds [OF assms(1), of 86400]
    by (auto simp: a_def uptime_parts_def js_rem_nonneg)
  have b: "0 \<le> b" "b < 3600" "b = a - 3600 * of_int h"
    using assms js_rem_bounds [OF a(1), of 3600] nested_rem [OF assms(1)] a(1)
    by (auto simp: a_def b_def uptime_parts_def js_rem_nonneg)
  have m: "60 * of_int m \<le> b" "b < 60 * of_int m + 60"
    using assms floor_quotient_bounds [of 60 b] by (auto simp: b_def uptime_parts_def)
  have d: "0 \<le> d" using assms by (auto simp: uptime_parts_def)
  have h: "0 \<le> h" "h < 24" using assms a by (auto simp: a_def uptime_parts_def floor_less_iff)
  have mm: "0 \<le> m" "m < 60" using assms b by (auto simp: b_def uptime_parts_def floor_less_iff)
  show ?thesis using a(3) b(3) m d h mm by (auto simp: algebra_simps)
qed

lemma truncate_str_bound: "length (truncate_str s n) \<le> Suc n"
  by (auto simp: truncate_str_def length_slice_zero)

lemma length_truncateMid:
  assumes "0 < t"
  shows "length (truncateMid s h t) = min (length s) (h + t + 1)"
  using assms by (auto simp: truncateMid_def length_slice_zero slice_from_neg)

text \<open>An uptime is written in days, hours and minutes that are in range and account for every whole minute of it.\<close>
theorem uptime_accounts:
  assumes "0 \<le> secs" and "uptime_parts secs = (d, h, m)"
  shows "0 \<le> d \<and> 0 \<le> h \<and> h < 24 \<and> 0 \<le> m \<and> m < 60
     \<and> of_int (86400 * d + 3600 * h + 60 * m) \<le> secs
     \<and> secs < of_int (86400 * d + 3600 * h + 60 * m) + 60
     \<and> formatUptime secs =
         (if d > 0 then show_int d @ ''d '' else []) @ (if d > 0 \<or> h > 0 then show_int h @ ''h '' else [])
           @ show_int m @ ''m''"
  using uptime_parts_spec [OF assms] assms(2) by (auto simp: formatUptime_def)

theorem uptime_accounts_witness:
  "uptime_parts 93784 = (1, 2, 3) \<and> formatUptime 93784 = ''1d 2h 3m''"
proof -
  have p: "uptime_parts 93784 = (1, 2, 3)" by code_simp
  have "show_int 1 = ''1''" "show_int 2 = ''2''" "show_int 3 = ''3''" by code_simp+
  with uptime_accounts [OF _ p] p show ?thesis by simp
qed

end
