(* ===== verification/Metrics.thy ===== *)
theory Metrics
  imports Format
begin

text \<open>
  The metrics of a monitored node (\<open>lib/metrics.ts\<close>): how each is named, ordered, written and coloured.
  \<open>toLocaleString\<close> of a whole number is the browser's: the parameter \<open>loc\<close>. A metric's name is one the
  server emits, never a property every JavaScript object has.
\<close>

section \<open>Definitions\<close>

datatype metric_format =
    Count                       \<comment> \<open>\<open>Math.round(v).toLocaleString()\<close>\<close>
  | Battery
  | Uptime
  | Delivery
  | Fixed nat string            \<comment> \<open>\<open>v.toFixed(n)\<close> and a suffix\<close>
  | Rounded string              \<comment> \<open>\<open>Math.round(v)\<close> and a suffix\<close>
  | Plain                       \<comment> \<open>an unknown metric\<close>

datatype metric_kind = Gauge | Counter

record metric_def =
  md_label :: string
  md_unit :: "string option"
  md_format :: metric_format
  md_color :: nat               \<comment> \<open>the chart colour's number\<close>
  md_kind :: metric_kind
  md_noChart :: bool

definition mdef :: "string \<Rightarrow> string option \<Rightarrow> metric_format \<Rightarrow> nat \<Rightarrow> metric_kind \<Rightarrow> bool \<Rightarrow> metric_def" where
  "mdef l u f c k n = \<lparr>md_label = l, md_unit = u, md_format = f, md_color = c, md_kind = k, md_noChart = n\<rparr>"

definition METRIC_DEFS :: "(string \<times> metric_def) list" where
  "METRIC_DEFS =
    [(''battery_mv'', mdef ''Battery'' (Some ''V'') Battery 3 Gauge False),
     (''battery'', mdef ''Cell voltage'' (Some ''V'') (Fixed 2 '' V'') 3 Gauge False),
     (''last_snr'', mdef ''SNR'' (Some ''dB'') (Fixed 1 '' dB'') 1 Gauge False),
     (''last_rssi'', mdef ''RSSI'' (Some ''dBm'') (Rounded '' dBm'') 2 Gauge False),
     (''noise_floor'', mdef ''Noise floor'' (Some ''dBm'') (Rounded '' dBm'') 4 Gauge False),
     (''chan_util'', mdef ''Channel util'' (Some ''%'') (Fixed 1 ''%'') 5 Gauge False),
     (''temperature'', mdef ''Temperature'' (Some (glyph_degree # ''C'')) (Fixed 1 (glyph_degree # ''C'')) 5 Gauge False),
     (''humidity'', mdef ''Humidity'' (Some ''%'') (Fixed 1 ''%'') 2 Gauge False),
     (''pressure'', mdef ''Pressure'' (Some ''hPa'') (Fixed 0 '' hPa'') 1 Gauge False),
     (''mcu_temperature'', mdef ''MCU temp'' (Some (glyph_degree # ''C'')) (Fixed 1 (glyph_degree # ''C'')) 4 Gauge False),
     (''uptime'', mdef ''Uptime'' None Uptime 3 Gauge True),
     (''neighbor_count'', mdef ''Neighbors'' None Count 3 Gauge False),
     (''queue_len'', mdef ''TX queue'' None Count 2 Gauge False),
     (''packets_recv'', mdef ''Packets recv'' None Count 1 Counter False),
     (''packets_sent'', mdef ''Packets sent'' None Count 2 Counter False),
     (''flood_rx'', mdef ''Flood RX'' None Count 3 Counter False),
     (''flood_tx'', mdef ''Flood TX'' None Count 1 Counter False),
     (''direct_rx'', mdef ''Direct RX'' None Count 4 Counter False),
     (''direct_tx'', mdef ''Direct TX'' None Count 2 Counter False),
     (''rx_air_secs'', mdef ''RX airtime'' (Some ''s'') Count 5 Counter False),
     (''tx_air_secs'', mdef ''TX airtime'' (Some ''s'') Count 4 Counter False),
     (''err_events'', mdef ''Error events'' None Count 2 Gauge True),
     (''recv_errors'', mdef ''Recv errors'' None Count 4 Counter False),
     (''flood_dups'', mdef ''Flood dups'' None Count 5 Counter False),
     (''direct_dups'', mdef ''Direct dups'' None Count 1 Counter False),
     (''success'', mdef ''Delivery'' None Delivery 1 Gauge False),
     (''elapsed_ms'', mdef ''RTT'' (Some ''ms'') (Rounded '' ms'') 2 Gauge False)]"

definition METRIC_ORDER :: "string list" where
  "METRIC_ORDER = map fst METRIC_DEFS"

section \<open>Names\<close>

definition all_digits :: "string \<Rightarrow> bool" where  \<comment> \<open>\<open>^\d+$\<close>\<close>
  "all_digits s \<longleftrightarrow> s \<noteq> [] \<and> list_all is_digit s"

definition is_snr_hop :: "string \<Rightarrow> bool" where  \<comment> \<open>\<open>^snr_hop\d+$\<close>\<close>
  "is_snr_hop s \<longleftrightarrow> starts_with ''snr_hop'' s \<and> all_digits (drop 7 s)"

definition ch_suffix :: "string \<Rightarrow> (string \<times> string) option" where  \<comment> \<open>\<open>^(.*)_ch(\d+)$\<close>\<close>
  "ch_suffix s =
     (let ds = takeWhile is_digit (rev s); rest = drop (length ds) (rev s) in
      if ds \<noteq> [] \<and> starts_with ''hc_'' rest then Some (rev (drop 3 rest), rev ds) else None)"

definition metricOrderIndex :: "string \<Rightarrow> int" where
  "metricOrderIndex key =
     (let place = (\<lambda>k. case index_where (\<lambda>x. x = k) METRIC_ORDER of Some i \<Rightarrow> int i | None \<Rightarrow> - 1) in
      if place key \<ge> 0 then place key
      else if is_snr_hop key then place ''last_snr''
      else place (case ch_suffix key of Some (b, _) \<Rightarrow> b | None \<Rightarrow> key))"

text \<open>Words are the runs of \<open>\w\<close>; \<open>humanizeMetric\<close> rewrites whole words.\<close>

function map_words :: "(string \<Rightarrow> string) \<Rightarrow> string \<Rightarrow> string" where
  "map_words f [] = []"
| "map_words f (c # s) =
     (if is_word c then f (c # takeWhile is_word s) @ map_words f (dropWhile is_word s) else c # map_words f s)"
  by pat_completeness auto
termination
  by (relation "measure (\<lambda>(f, s). length s)") (auto simp: le_imp_less_Suc length_dropWhile_le)

definition split_ch :: "string \<Rightarrow> string" where
  "split_ch w = (if starts_with ''ch'' w \<and> all_digits (drop 2 w) then ''ch '' @ drop 2 w else w)"

definition capitalize :: "string \<Rightarrow> string" where
  "capitalize w = (case w of [] \<Rightarrow> [] | c # s \<Rightarrow> upper_char c # s)"

definition humanizeMetric :: "string \<Rightarrow> string" where
  "humanizeMetric key =
     map_words capitalize (map_words split_ch (replace_char (CHR ''_'') (CHR 0x20) key))"

definition metricDef :: "string \<Rightarrow> metric_def" where
  "metricDef key =
     (case map_of METRIC_DEFS key of
        Some d \<Rightarrow> d
      | None \<Rightarrow>
          (case (case ch_suffix key of
              Some (b, n) \<Rightarrow> (case map_of METRIC_DEFS b of
                  Some d \<Rightarrow> Some (d\<lparr>md_label := md_label d @ '' (ch'' @ n @ '')''\<rparr>) | None \<Rightarrow> None)
            | None \<Rightarrow> None) of
             Some d \<Rightarrow> d
           | None \<Rightarrow>
               if is_snr_hop key
               then (the (map_of METRIC_DEFS ''last_snr''))\<lparr>md_label := ''SNR hop '' @ drop 7 key\<rparr>
               else mdef (humanizeMetric key) None Plain 1 Gauge False))"

definition metricLabel :: "string \<Rightarrow> string" where
  "metricLabel key = md_label (metricDef key)"

definition format_value :: "(int \<Rightarrow> string) \<Rightarrow> metric_format \<Rightarrow> rat \<Rightarrow> string" where
  "format_value loc f v = (case f of
     Count \<Rightarrow> loc (js_round v)
   | Battery \<Rightarrow> formatBattery v
   | Uptime \<Rightarrow> formatUptime v
   | Delivery \<Rightarrow> if v \<ge> 1 then ''OK'' else ''LOST''
   | Fixed n suffix \<Rightarrow> to_fixed n v @ suffix
   | Rounded suffix \<Rightarrow> show_int (js_round v) @ suffix
   | Plain \<Rightarrow> if v = of_int \<lfloor>v\<rfloor> then show_int \<lfloor>v\<rfloor> else to_fixed 2 v)"

definition formatMetric :: "(int \<Rightarrow> string) \<Rightarrow> string \<Rightarrow> rat \<Rightarrow> string" where
  "formatMetric loc key v = format_value loc (md_format (metricDef key)) v"

section \<open>Bands\<close>

datatype band = Good | Warn | Bad | NoBand

definition batteryBand :: "rat \<Rightarrow> band" where
  "batteryBand mv = (if mv \<le> 0 then NoBand else if mv \<ge> 3800 then Good else if mv \<ge> 3500 then Warn else Bad)"

definition batteryPercent :: "rat \<Rightarrow> int" where
  "batteryPercent mv = max 0 (min 100 (js_round ((mv / 1000 - 33 / 10) / (42 / 10 - 33 / 10) * 100)))"

definition snrBand :: "rat \<Rightarrow> band" where
  "snrBand snr = (if snr \<ge> 8 then Good else if snr \<ge> 0 then Warn else Bad)"

definition rssiBand :: "rat \<Rightarrow> band" where
  "rssiBand rssi = (if rssi \<ge> 0 then NoBand else if rssi > - 90 then Good else if rssi \<ge> - 110 then Warn else Bad)"

section \<open>Properties\<close>

lemma takeWhile_rev_digits:
  "all_digits ds \<Longrightarrow> \<not> is_digit c \<Longrightarrow> takeWhile is_digit (rev (b @ c # ds)) = rev ds"
  using takeWhile_append2 [of "rev ds" is_digit "c # rev b"]
  by (simp add: all_digits_def list_all_iff del: takeWhile_append)

lemma ch_suffix_append: "all_digits ds \<Longrightarrow> ch_suffix (b @ ''_ch'' @ ds) = Some (b, ds)"
proof -
  assume ds: "all_digits ds"
  have "\<not> is_digit (CHR ''h'')" by (simp add: is_digit_def)
  then have "takeWhile is_digit (rev ((b @ ''_c'') @ CHR ''h'' # ds)) = rev ds"
    by (rule takeWhile_rev_digits [OF ds])
  then have "takeWhile is_digit (rev (b @ ''_ch'' @ ds)) = rev ds" by simp
  with ds show ?thesis by (simp add: ch_suffix_def Let_def all_digits_def)
qed

lemma known_not_suffixed: "list_all (\<lambda>k. ch_suffix k = None \<and> \<not> is_snr_hop k) METRIC_ORDER"
  by code_simp

lemma suffixed_unknown: "all_digits ds \<Longrightarrow> b @ ''_ch'' @ ds \<notin> set METRIC_ORDER"
  using known_not_suffixed ch_suffix_append [of ds b] by (auto simp: list_all_iff)

lemma suffixed_not_hop: "all_digits ds \<Longrightarrow> b \<in> set METRIC_ORDER \<Longrightarrow> \<not> is_snr_hop (b @ ''_ch'' @ ds)"
proof
  assume b: "b \<in> set METRIC_ORDER" and h: "is_snr_hop (b @ ''_ch'' @ ds)"
  have "list_all (\<lambda>k. 2 \<le> length k \<and> take 2 k \<noteq> ''sn'') METRIC_ORDER" by code_simp
  with b have "2 \<le> length b" "take 2 b \<noteq> ''sn''" by (auto simp: list_all_iff)
  moreover from h have "take 2 (b @ ''_ch'' @ ds) = ''sn''"
    by (cases "b @ ''_ch'' @ ds"; cases "tl (b @ ''_ch'' @ ds)") (auto simp: is_snr_hop_def numeral_2_eq_2)
  ultimately show False by simp
qed

text \<open>a sensor the server numbered because a node has several of a kind is listed beside its kind,
  written like it and coloured like it; only its label says which one it is.\<close>

theorem numbered_sensor_like_base:
  assumes "base \<in> set METRIC_ORDER" and "all_digits ds"
  shows "metricOrderIndex (base @ ''_ch'' @ ds) = metricOrderIndex base
    \<and> metricDef (base @ ''_ch'' @ ds) = (metricDef base)\<lparr>md_label := metricLabel base @ '' (ch'' @ ds @ '')''\<rparr>
    \<and> formatMetric loc (base @ ''_ch'' @ ds) v = formatMetric loc base v"
proof -
  have new: "base @ ''_ch'' @ ds \<notin> set METRIC_ORDER" using assms(2) by (rule suffixed_unknown)
  have hop: "\<not> is_snr_hop (base @ ''_ch'' @ ds)" using assms(2,1) by (rule suffixed_not_hop)
  have ch: "ch_suffix (base @ ''_ch'' @ ds) = Some (base, ds)" using assms(2) by (rule ch_suffix_append)
  obtain d where d: "map_of METRIC_DEFS base = Some d"
    using assms(1) by (metis METRIC_ORDER_def map_of_eq_None_iff list.set_map option.exhaust)
  have none: "map_of METRIC_DEFS (base @ ''_ch'' @ ds) = None"
    using new by (simp only: METRIC_ORDER_def map_of_eq_None_iff list.set_map) blast
  have def_: "metricDef (base @ ''_ch'' @ ds) = d\<lparr>md_label := md_label d @ '' (ch'' @ ds @ '')''\<rparr>"
    by (simp only: metricDef_def none ch d option.case prod.case)
  have base: "metricDef base = d" by (simp only: metricDef_def d option.case)
  obtain i where i: "index_where (\<lambda>x. x = base) METRIC_ORDER = Some i"
    using assms(1) by (cases "index_where (\<lambda>x. x = base) METRIC_ORDER") (auto simp: index_where_None)
  have no: "index_where (\<lambda>x. x = base @ ''_ch'' @ ds) METRIC_ORDER = None"
    using new by (auto simp: index_where_None)
  have "metricOrderIndex (base @ ''_ch'' @ ds) = int i" "metricOrderIndex base = int i"
    by (simp_all only: metricOrderIndex_def Let_def no i ch hop option.case prod.case if_False) simp_all
  moreover have "formatMetric loc (base @ ''_ch'' @ ds) v = formatMetric loc base v"
    by (simp add: formatMetric_def def_ base del: append.simps)
  ultimately show ?thesis by (simp only: def_ base metricLabel_def)
qed

theorem numbered_sensor_like_base_witness:
  "metricLabel ''temperature_ch2'' = ''Temperature (ch2)''
   \<and> (\<lambda>loc. formatMetric loc (''temperature'' @ ''_ch'' @ ''2'') 5) = (\<lambda>loc. formatMetric loc ''temperature'' 5)"
proof
  have "''temperature'' \<in> set METRIC_ORDER" "all_digits ''2''" by code_simp+
  then show "(\<lambda>loc. formatMetric loc (''temperature'' @ ''_ch'' @ ''2'') 5) = (\<lambda>loc. formatMetric loc ''temperature'' 5)"
    by (intro ext numbered_sensor_like_base [THEN conjunct2, THEN conjunct2])
qed code_simp

text \<open>the battery estimate is a percentage, rises with the voltage, and is whole exactly at the ends of the
  scale.\<close>

theorem battery_percent_range:
  assumes "a \<le> b"
  shows "0 \<le> batteryPercent a \<and> batteryPercent a \<le> batteryPercent b \<and> batteryPercent b \<le> 100
    \<and> batteryPercent 3300 = 0 \<and> batteryPercent 4200 = 100"
proof -
  have "batteryPercent 3300 = 0" "batteryPercent 4200 = 100" by code_simp+
  moreover have "js_round x \<le> js_round y" if "x \<le> y" for x y
    using that by (simp add: js_round_def floor_mono)
  then have "batteryPercent a \<le> batteryPercent b"
    using assms unfolding batteryPercent_def by (intro max.mono min.mono order_refl) (simp add: divide_right_mono)
  ultimately show ?thesis by (simp add: batteryPercent_def)
qed

theorem battery_percent_range_witness:
  "batteryPercent 3600 \<le> batteryPercent 4000 \<and> batteryPercent 3600 = 33"
proof
  show "batteryPercent 3600 \<le> batteryPercent 4000" using battery_percent_range [of 3600 4000] by simp
qed code_simp

end
