(* ===== verification/ApiClient.thy ===== *)
theory ApiClient
  imports Http
begin

text \<open>
  The clients of the server's REST interface: \<open>lib/apiError.ts\<close>, \<open>lib/configApi.ts\<close>, \<open>lib/channelsApi.ts\<close>,
  \<open>lib/nodesApi.ts\<close>, \<open>lib/peerApi.ts\<close>, \<open>lib/peerWs.ts\<close>, \<open>lib/discoverApi.ts\<close>, \<open>lib/radioApi.ts\<close>,
  \<open>lib/sensorsApi.ts\<close>, \<open>lib/cliCatalog.ts\<close> and \<open>lib/monitorOptions.ts\<close>. Every call is the request it
  makes and what it does with each outcome. The input objects are sent as they are: they are JSON here. The
  server writes the \<open>error\<close> of a refusal as text; any other value there counts as absent.
\<close>

section \<open>Errors\<close>

definition http_status_text :: "nat \<Rightarrow> string" where
  "http_status_text s = ''HTTP '' @ show_nat s"

definition error_field :: "http_response \<Rightarrow> string option" where
  \<comment> \<open>\<open>(await r.json().catch(() => null))?.error\<close>, if truthy\<close>
  "error_field r = (case resp_json r of None \<Rightarrow> None | Some j \<Rightarrow> json_truthy_str (json_field ''error'' j))"

definition apiErrorMessage :: "http_response \<Rightarrow> string option \<Rightarrow> string" where
  \<comment> \<open>reads the text; \<open>resp_json\<close> is what \<open>JSON.parse\<close> makes of it\<close>
  "apiErrorMessage r fallback =
     (let t = nullish (resp_text r) [] in
      case (if resp_text r = None then None else error_field r) of
        Some e \<Rightarrow> e
      | None \<Rightarrow> or_str (trim t) (or_str (nullish fallback []) (http_status_text (resp_status r))))"

definition ok_or :: "(http_response \<Rightarrow> string) \<Rightarrow> (http_response \<Rightarrow> api_error + 'a) \<Rightarrow> fetch_outcome \<Rightarrow> api_error + 'a" where
  \<comment> \<open>\<open>if (!r.ok) throw new Error(msg)\<close>, else go on\<close>
  "ok_or msg k out = on_response out (\<lambda>r. if resp_ok r then k r else Inl (ApiError (msg r)))"

definition nothing :: "http_response \<Rightarrow> api_error + unit" where
  "nothing r = Inr ()"

definition failed_with :: "string \<Rightarrow> http_response \<Rightarrow> string" where  \<comment> \<open>\<open>err?.error || `<what> (<status>)`\<close>\<close>
  "failed_with what r = nullish (error_field r) (what @ '' ('' @ show_nat (resp_status r) @ '')'')"

section \<open>Configuration\<close>

definition request :: "fetch_outcome \<Rightarrow> api_error + http_response" where
  "request = ok_or (failed_with ''request failed'') Inr"

definition requestJSON :: "fetch_outcome \<Rightarrow> api_error + json" where
  "requestJSON = ok_or (failed_with ''request failed'') read_json"

definition requestId :: "fetch_outcome \<Rightarrow> api_error + rat" where
  "requestId = ok_or (failed_with ''request failed'') (\<lambda>r. Inr
     (case Option.bind (resp_json r) (json_field ''id'') of Some (JNum n) \<Rightarrow> n | _ \<Rightarrow> 0))"

datatype config_call =
    PutSettings json
  | PutFloodRegions json json
  | GetSpiBoards
  | GetSerialPorts
  | PutMqtt json
  | SaveBroker json "nat option"
  | DeleteBroker nat
  | SaveCompanion json "nat option"
  | DeleteCompanion nat
  | SetCompanionTelemetry nat json
  | SetCompanionApp nat json
  | CreateChannel nat json
  | SaveChannel nat json
  | DeleteChannel nat
  | SaveTrigger json "nat option"
  | DeleteTrigger nat
  | TestTriggerItems json
  | TestTriggerRender json
  | GetRegion string
  | CreateRepeater json
  | UpdateRepeaterNode json
  | UpdateRepeaterRelay json
  | UpdateRepeaterAdmin json
  | SetRepeaterHome string
  | SetRepeaterScope json
  | AddRepeaterRegion string string bool
  | MoveRepeaterRegion string string
  | SetRepeaterRegionFlood string bool
  | RemoveRepeaterRegion string
  | DeleteRepeater
  | RepeaterAdvert bool
  | RepeaterDiscover
  | ClearRepeaterStats
  | SetRepeaterAcl string int
  | RevokeRepeaterAcl string

definition req :: "http_method \<Rightarrow> string \<Rightarrow> json option \<Rightarrow> http_request" where
  "req m u b = \<lparr>req_method = m, req_url = u, req_body = b\<rparr>"

definition save_at :: "string \<Rightarrow> json \<Rightarrow> nat option \<Rightarrow> http_request" where  \<comment> \<open>an id updates, none (or 0) creates\<close>
  "save_at base input i =
     (if nullish i 0 \<noteq> 0 then req PUT (base @ ''/'' @ show_nat (the i)) (Some input) else req POST base (Some input))"

definition repeater_region :: "string \<Rightarrow> string" where
  "repeater_region nm = ''/api/config/repeater/regions/'' @ encode_uri nm"

fun config_request :: "config_call \<Rightarrow> http_request" where
  "config_request (PutSettings i) = req PUT ''/api/config/settings'' (Some i)"
| "config_request (PutFloodRegions regions scope) =
     req PUT ''/api/config/regions'' (Some (JObj [(''regions'', regions), (''floodScope'', scope)]))"
| "config_request GetSpiBoards = req GET ''/api/spi/boards'' None"
| "config_request GetSerialPorts = req GET ''/api/serial/ports'' None"
| "config_request (PutMqtt i) = req PUT ''/api/config/mqtt'' (Some i)"
| "config_request (SaveBroker i n) = save_at ''/api/config/mqtt/brokers'' i n"
| "config_request (DeleteBroker n) = req DELETE (''/api/config/mqtt/brokers/'' @ show_nat n) None"
| "config_request (SaveCompanion i n) = save_at ''/api/config/companions'' i n"
| "config_request (DeleteCompanion n) = req DELETE (''/api/config/companions/'' @ show_nat n) None"
| "config_request (SetCompanionTelemetry n i) = req PUT (''/api/config/companions/'' @ show_nat n @ ''/telemetry'') (Some i)"
| "config_request (SetCompanionApp n i) = req PUT (''/api/config/companions/'' @ show_nat n @ ''/app'') (Some i)"
| "config_request (CreateChannel n i) = req POST (''/api/config/companions/'' @ show_nat n @ ''/channels'') (Some i)"
| "config_request (SaveChannel n i) = req PUT (''/api/config/channels/'' @ show_nat n) (Some i)"
| "config_request (DeleteChannel n) = req DELETE (''/api/config/channels/'' @ show_nat n) None"
| "config_request (SaveTrigger i n) = save_at ''/api/config/triggers'' i n"
| "config_request (DeleteTrigger n) = req DELETE (''/api/config/triggers/'' @ show_nat n) None"
| "config_request (TestTriggerItems i) = req POST ''/api/config/triggers/test/items'' (Some i)"
| "config_request (TestTriggerRender i) = req POST ''/api/config/triggers/test/render'' (Some i)"
| "config_request (GetRegion i) = req GET (''/api/regions/'' @ encode_uri i) None"
| "config_request (CreateRepeater i) = req POST ''/api/config/repeater'' (Some i)"
| "config_request (UpdateRepeaterNode i) = req PUT ''/api/config/repeater/node'' (Some i)"
| "config_request (UpdateRepeaterRelay i) = req PUT ''/api/config/repeater/relay'' (Some i)"
| "config_request (UpdateRepeaterAdmin i) = req PUT ''/api/config/repeater/admin'' (Some i)"
| "config_request (SetRepeaterHome r) = req PUT ''/api/config/repeater/home'' (Some (JObj [(''region'', JStr r)]))"
| "config_request (SetRepeaterScope s) = req PUT ''/api/config/repeater/scope'' (Some (JObj [(''floodScope'', s)]))"
| "config_request (AddRepeaterRegion nm parent deny) = req POST ''/api/config/repeater/regions''
     (Some (JObj [(''name'', JStr nm), (''parent'', JStr parent), (''denyFlood'', JBool deny)]))"
| "config_request (MoveRepeaterRegion nm parent) =
     req PATCH (repeater_region nm) (Some (JObj [(''parent'', JStr parent)]))"
| "config_request (SetRepeaterRegionFlood nm deny) =
     req PATCH (repeater_region nm) (Some (JObj [(''denyFlood'', JBool deny)]))"
| "config_request (RemoveRepeaterRegion nm) = req DELETE (repeater_region nm) None"
| "config_request DeleteRepeater = req DELETE ''/api/config/repeater'' None"
| "config_request (RepeaterAdvert flood) = req POST ''/api/repeater/advert'' (Some (JObj [(''flood'', JBool flood)]))"
| "config_request RepeaterDiscover = req POST ''/api/repeater/discover'' None"
| "config_request ClearRepeaterStats = req DELETE ''/api/repeater/stats'' None"
| "config_request (SetRepeaterAcl pk perm) =
     req PUT (''/api/repeater/acl/'' @ encode_uri pk) (Some (JObj [(''permission'', JNum (of_int perm))]))"
| "config_request (RevokeRepeaterAcl pk) = req DELETE (''/api/repeater/acl/'' @ encode_uri pk) None"

definition regionAt :: "fetch_outcome \<Rightarrow> api_error + json option" where  \<comment> \<open>\<open>null\<close> is the sea\<close>
  "regionAt out = on_response out (\<lambda>r.
     if resp_status r = 404 then Inr None
     else if \<not> resp_ok r then Inl (ApiError (apiErrorMessage r None))
     else (case read_json r of Inl e \<Rightarrow> Inl e | Inr j \<Rightarrow> Inr (Some j)))"

section \<open>Radio boards\<close>

record spi_board =
  sb_name :: string
  sb_label :: string
  sb_chip :: string
  sb_spiPort :: string
  sb_maxTxPower :: int
  sb_verified :: string
  sb_notes :: "string option"
  sb_hasLeds :: bool

definition boardOption :: "spi_board \<Rightarrow> string \<times> string" where
  "boardOption b = (sb_name b, if sb_verified b = ''hardware'' then sb_label b else sb_label b @ '' - unverified'')"

definition boardHint :: "spi_board option \<Rightarrow> string" where
  "boardHint b = (case b of None \<Rightarrow> ''Pick the board this host has fitted.''
     | Some b \<Rightarrow> join ''. '' ([sb_chip b @ '', up to '' @ show_int (sb_maxTxPower b) @ '' dBm'']
         @ (if sb_hasLeds b then [''activity LEDs''] else [])
         @ (if sb_verified b \<noteq> ''hardware''
            then [''wiring taken from a community board list and never tested here''] else [])
         @ (if truthy_str (sb_notes b) then [the (sb_notes b)] else [])))"

definition defaultBoard :: "spi_board list \<Rightarrow> spi_board option" where
  "defaultBoard boards = (case List.find (\<lambda>b. sb_verified b = ''hardware'') boards of
     Some b \<Rightarrow> Some b | None \<Rightarrow> (case boards of [] \<Rightarrow> None | b # _ \<Rightarrow> Some b))"

section \<open>Channels, nodes and peers\<close>

definition postChannel_request :: "string \<Rightarrow> string \<Rightarrow> string option \<Rightarrow> http_request" where
  "postChannel_request companion nm privateKey =
     req POST (''/api/companions/'' @ encode_uri companion @ ''/channels'')
       (Some (JObj ((''name'', JStr nm) # (if truthy_str privateKey then [(''privateKey'', JStr (the privateKey))] else []))))"

definition postChannel :: "fetch_outcome \<Rightarrow> api_error + unit" where
  "postChannel = ok_or (\<lambda>r. nullish (error_field r) (http_status_text (resp_status r))) nothing"

definition pollNode_request :: "string \<Rightarrow> http_request" where
  "pollNode_request pubkey = req POST (''/api/nodes/'' @ pubkey @ ''/poll'') None"

definition pollNode :: "fetch_outcome \<Rightarrow> api_error + unit" where
  "pollNode = ok_or (failed_with ''poll failed'') nothing"

definition deletePeer_request :: "string \<Rightarrow> http_request" where
  "deletePeer_request pubkey = req DELETE (''/api/peers/'' @ to_lower pubkey) None"

definition deletePeer :: "fetch_outcome \<Rightarrow> api_error + unit" where
  "deletePeer = ok_or (\<lambda>r. nullish (error_field r) (http_status_text (resp_status r))) nothing"

definition deletePeers_request :: "string list \<Rightarrow> http_request" where
  "deletePeers_request pubkeys = req POST ''/api/peers/delete'' (Some (JObj [(''pubkeys'', JArr (map JStr pubkeys))]))"

definition number_field :: "string \<Rightarrow> json option \<Rightarrow> rat option" where  \<comment> \<open>a number, or null-like\<close>
  "number_field k j = (case Option.bind j (json_field k) of Some (JNum n) \<Rightarrow> Some n | _ \<Rightarrow> None)"

definition deletePeers :: "string list \<Rightarrow> fetch_outcome \<Rightarrow> api_error + (rat \<times> rat)" where
  "deletePeers pubkeys = ok_or (\<lambda>r. http_status_text (resp_status r))
     (\<lambda>r. Inr (nullish (number_field ''deleted'' (resp_json r)) (of_nat (length pubkeys)),
               nullish (number_field ''skipped'' (resp_json r)) 0))"

definition deletedPeersMessage :: "int \<Rightarrow> int \<Rightarrow> string" where
  "deletedPeersMessage deleted skipped =
     ''Deleted '' @ show_int deleted @ '' peer'' @ (if deleted = 1 then [] else ''s'')
     @ (if skipped > 0 then '' '' @ [glyph_middot] @ '' skipped '' @ show_int skipped @ '' saved contact''
          @ (if skipped = 1 then [] else ''s'') else [])"

definition isPeerDelete :: "json \<Rightarrow> bool" where
  "isPeerDelete v \<longleftrightarrow> json_field ''action'' v = Some (JStr ''delete'')
     \<and> (case json_field ''pubkeys'' v of Some (JArr xs) \<Rightarrow> True | _ \<Rightarrow> False)"

section \<open>Discovery and the modem\<close>

definition nodeTypeLabel :: "int \<Rightarrow> string" where
  "nodeTypeLabel t = (if t = 1 then ''companion'' else if t = 2 then ''repeater'' else if t = 3 then ''room''
     else if t = 4 then ''sensor'' else ''type '' @ show_int t)"

definition discover_start :: "int list \<Rightarrow> http_request" where
  "discover_start types = req POST ''/api/discover'' (Some (JObj [(''types'', JArr (map (JNum \<circ> of_int) types))]))"

definition discover_state :: http_request where
  "discover_state = req GET ''/api/discover'' None"

definition discover_call :: "fetch_outcome \<Rightarrow> api_error + json" where
  "discover_call = ok_or (failed_with ''discovery failed'') read_json"

definition regionScan :: "fetch_outcome \<Rightarrow> api_error + json" where
  "regionScan = ok_or (failed_with ''discover nearby failed'') read_json"

definition fetchRadioStatus :: "fetch_outcome \<Rightarrow> api_error + json option" where
  "fetchRadioStatus out = on_response out (\<lambda>r.
     if \<not> resp_ok r then Inr None else (case read_json r of Inl e \<Rightarrow> Inl e | Inr j \<Rightarrow> Inr (Some j)))"

definition resetModem :: "fetch_outcome \<Rightarrow> api_error + unit" where
  "resetModem = ok_or (failed_with ''reset failed'') nothing"

section \<open>Sensors\<close>

definition sensor_result :: "fetch_outcome \<Rightarrow> api_error + json" where  \<comment> \<open>the calls that return a body\<close>
  "sensor_result = ok_or (\<lambda>r. apiErrorMessage r None) read_json"

definition sensor_done :: "fetch_outcome \<Rightarrow> api_error + unit" where
  "sensor_done = ok_or (\<lambda>r. apiErrorMessage r None) nothing"

datatype sensor_call = DiscoverSensors string | TestSensor nat "(string \<times> json) list" | CreateSensor json
  | UpdateSensor nat json | DeleteSensor nat | FetchTelemetryMap | SaveTelemetryMap json json

fun sensor_request :: "sensor_call \<Rightarrow> http_request" where
  "sensor_request (DiscoverSensors provider) = req POST ''/api/sensors/discover'' (Some (JObj [(''provider'', JStr provider)]))"
| "sensor_request (TestSensor i input) = req POST ''/api/sensors/test'' (Some (JObj ((''id'', JNum (of_nat i)) # input)))"
| "sensor_request (CreateSensor input) = req POST ''/api/sensors'' (Some input)"
| "sensor_request (UpdateSensor i input) = req PUT (''/api/sensors/'' @ show_nat i) (Some input)"
| "sensor_request (DeleteSensor i) = req DELETE (''/api/sensors/'' @ show_nat i) None"
| "sensor_request FetchTelemetryMap = req GET ''/api/sensors/telemetry-map'' None"
| "sensor_request (SaveTelemetryMap node entries) =
     req PUT ''/api/sensors/telemetry-map'' (Some (JObj [(''node'', node), (''entries'', entries)]))"

definition scan_result :: "json \<Rightarrow> json \<times> json" where
  \<comment> \<open>\<open>discoverSensors\<close>: a missing or null list is empty\<close>
  "scan_result body = (let lst = (\<lambda>k. case json_field k body of Some (JArr xs) \<Rightarrow> JArr xs | _ \<Rightarrow> JArr [])
     in (lst ''candidates'', lst ''problems''))"

section \<open>The command catalogue\<close>

datatype cli_role = CliRepeater | CliSensor | CliRoom | CliCompanion

record cli_entry =
  ce_text :: string
  ce_hint :: "string option"
  ce_roles :: "cli_role list option"

definition forRole :: "cli_entry list \<Rightarrow> cli_role \<Rightarrow> cli_entry list" where
  "forRole items role = filter (\<lambda>i. case ce_roles i of Some rs \<Rightarrow> role \<in> set rs | None \<Rightarrow> role \<noteq> CliCompanion) items"

definition RETRY_OPTS :: "(string \<times> string) list" where
  "RETRY_OPTS = [(''0'', ''Default (5m)''), (''60'', ''1 min''), (''300'', ''5 min''), (''900'', ''15 min''), (''1800'', ''30 min'')]"

definition MAX_RETRIES_OPTS :: "(string \<times> string) list" where
  "MAX_RETRIES_OPTS = [(''0'', ''Default (3)''), (''-1'', ''None (no retry)''), (''1'', ''1''), (''2'', ''2''),
     (''3'', ''3''), (''5'', ''5''), (''10'', ''10'')]"

section \<open>Properties\<close>

definition refusal :: "nat \<Rightarrow> string \<Rightarrow> http_response" where  \<comment> \<open>what the server answers to a bad request\<close>
  "refusal status e = \<lparr>resp_status = status, resp_text = Some (''{\"error\":\"'' @ e @ ''\"}''),
     resp_json = Some (JObj [(''error'', JStr e)])\<rparr>"

text \<open>a refusal that names its reason reaches the operator as that reason, from every client that
  reports one.\<close>

theorem refusal_reason_shown:
  assumes "\<not> resp_ok (refusal status e)" and "e \<noteq> []" and "status \<noteq> 404"
  shows "request (Some (refusal status e)) = Inl (ApiError e)
    \<and> requestJSON (Some (refusal status e)) = Inl (ApiError e)
    \<and> requestId (Some (refusal status e)) = Inl (ApiError e)
    \<and> regionAt (Some (refusal status e)) = Inl (ApiError e)
    \<and> postChannel (Some (refusal status e)) = Inl (ApiError e)
    \<and> pollNode (Some (refusal status e)) = Inl (ApiError e)
    \<and> deletePeer (Some (refusal status e)) = Inl (ApiError e)
    \<and> discover_call (Some (refusal status e)) = Inl (ApiError e)
    \<and> regionScan (Some (refusal status e)) = Inl (ApiError e)
    \<and> resetModem (Some (refusal status e)) = Inl (ApiError e)
    \<and> sensor_result (Some (refusal status e)) = Inl (ApiError e)
    \<and> sensor_done (Some (refusal status e)) = Inl (ApiError e)"
proof -
  have e: "error_field (refusal status e) = Some e" and t: "resp_text (refusal status e) \<noteq> None"
    and s: "resp_status (refusal status e) = status"
    using assms(2) by (simp_all add: error_field_def refusal_def)
  have "failed_with w (refusal status e) = e" for w by (simp add: failed_with_def e nullish_def)
  moreover have "apiErrorMessage (refusal status e) f = e" for f
    by (simp only: apiErrorMessage_def e Let_def t if_False option.case)
  ultimately show ?thesis
    using assms(1,3) e s
    by (simp add: request_def requestJSON_def requestId_def regionAt_def postChannel_def pollNode_def
        deletePeer_def discover_call_def regionScan_def resetModem_def sensor_result_def sensor_done_def
        ok_or_def nullish_def)
qed

theorem refusal_reason_shown_witness:
  "regionAt (Some (refusal 422 ''name taken'')) = Inl (ApiError ''name taken'')
    \<and> request (Some (refusal 422 ''name taken'')) = Inl (ApiError ''name taken'')"
  using refusal_reason_shown [of 422 "''name taken''"] by (simp add: resp_ok_def refusal_def)

text \<open>the name of a region or the key of an admin cannot change which resource a request is for: two
  names never share a url, and no character of a name is a path, query or fragment separator there.\<close>

theorem names_stay_in_place:
  "(repeater_region a = repeater_region b) = (a = b)
   \<and> (req_url (config_request (SetRepeaterAcl a p)) = req_url (config_request (RevokeRepeaterAcl b))) = (a = b)
   \<and> set (encode_uri a) \<inter> set ''/?#&='' = {}"
proof -
  have "set (encode_uri a) \<inter> set ''/?#&='' = {}"
    by (auto dest!: encode_uri_safe simp: uri_unreserved_def char_class_defs)
  then show ?thesis by (simp add: repeater_region_def req_def encode_uri_inject)
qed

text \<open>The board offered first is one proven on hardware whenever there is one, and there is one offered
  whenever any is known.\<close>

theorem default_board_proven:
  "case defaultBoard boards of
     None \<Rightarrow> boards = []
   | Some b \<Rightarrow> b \<in> set boards \<and> (sb_verified b = ''hardware'' \<or> list_all (\<lambda>x. sb_verified x \<noteq> ''hardware'') boards)"
proof (cases "List.find (\<lambda>b. sb_verified b = ''hardware'') boards")
  case None
  then show ?thesis by (cases boards) (auto simp: defaultBoard_def find_None_iff list_all_iff)
next
  case (Some b)
  then have "b \<in> set boards \<and> sb_verified b = ''hardware''" by (auto simp: find_Some_iff)
  with Some show ?thesis by (simp add: defaultBoard_def)
qed

end
