(* ===== verification/SignalTest.thy ===== *)
theory SignalTest
  imports ApiClient
begin

text \<open>
  Repeated probes of a path (\<open>lib/signalTestApi.ts\<close>): the client of the server's tests, and the statistics
  the live panel computes from the runs so far. Decibels and milliseconds are exact rationals; the
  standard deviation is kept as the variance it is the square root of.
\<close>

section \<open>The client\<close>

definition readJSON :: "fetch_outcome \<Rightarrow> api_error + json" where
  "readJSON = ok_or (\<lambda>r. case resp_json r of
       Some j \<Rightarrow> (case json_field ''error'' j of Some (JStr e) \<Rightarrow> e | _ \<Rightarrow> http_status_text (resp_status r))
     | None \<Rightarrow> http_status_text (resp_status r)) read_json"

definition remove_result :: "fetch_outcome \<Rightarrow> api_error + unit" where
  "remove_result = ok_or (\<lambda>r. http_status_text (resp_status r)) nothing"

datatype signal_call = StartTest string json | ListTests "string option" | GetTest nat | CancelTest nat
  | UpdateTest nat json | RemoveTest nat

fun signal_request :: "signal_call \<Rightarrow> http_request" where
  "signal_request (StartTest companion body) =
     req POST (''/api/companions/'' @ encode_uri companion @ ''/signal-tests'') (Some body)"
| "signal_request (ListTests companion) = req GET (''/api/signal-tests''
     @ (if truthy_str companion then ''?companion='' @ encode_uri (the companion) else [])) None"
| "signal_request (GetTest i) = req GET (''/api/signal-tests/'' @ show_nat i) None"
| "signal_request (CancelTest i) = req POST (''/api/signal-tests/'' @ show_nat i @ ''/cancel'') None"
| "signal_request (UpdateTest i body) = req PATCH (''/api/signal-tests/'' @ show_nat i) (Some body)"
| "signal_request (RemoveTest i) = req DELETE (''/api/signal-tests/'' @ show_nat i) None"

section \<open>Statistics\<close>

record signal_run =
  sg_ok :: bool
  sg_hopSNRs :: "rat list option"
  sg_snr :: "rat option"
  sg_elapsedMs :: rat

record value_stats =
  vs_n :: nat
  vs_min :: rat
  vs_max :: rat
  vs_mean :: rat
  vs_variance :: rat   \<comment> \<open>\<open>stddev\<close> squared\<close>

definition valueStats :: "rat list \<Rightarrow> value_stats option" where
  "valueStats vals =
     (case vals of [] \<Rightarrow> None
      | v # _ \<Rightarrow>
          (let mn = foldl (\<lambda>m x. if x < m then x else m) v vals;
               mx = foldl (\<lambda>m x. if x > m then x else m) v vals;
               mean = foldl (+) 0 vals / of_nat (length vals);
               sq = foldl (\<lambda>acc x. acc + (x - mean) ^ 2) 0 vals
           in Some \<lparr>vs_n = length vals, vs_min = mn, vs_max = mx, vs_mean = mean,
                vs_variance = (if length vals > 1 then sq / of_nat (length vals - 1) else 0)\<rparr>))"

definition stddev :: "value_stats \<Rightarrow> real" where
  "stddev vs = sqrt (of_rat (vs_variance vs))"

record signal_stats =
  ss_total :: nat
  ss_okCount :: nat
  ss_timeouts :: nat
  ss_successRate :: rat
  ss_perHop :: "(nat \<times> value_stats) list"
  ss_finalSnr :: "value_stats option"
  ss_elapsedMs :: "value_stats option"

fun push_hops :: "rat list \<Rightarrow> rat list list \<Rightarrow> rat list list" where
  \<comment> \<open>\<open>(hopValues[i] ??= []).push(v)\<close> for each hop: every run starts at hop 0, so there are no holes\<close>
  "push_hops [] cols = cols"
| "push_hops (v # vs) [] = [v] # push_hops vs []"
| "push_hops (v # vs) (col # cols) = (col @ [v]) # push_hops vs cols"

definition run_hops :: "signal_run \<Rightarrow> rat list" where
  "run_hops run = nullish (sg_hopSNRs run) []"

definition computeStats :: "signal_run list \<Rightarrow> signal_stats" where
  "computeStats runs =
     (let okCount = length (filter sg_ok runs);
          hopValues = foldl (\<lambda>cols run. push_hops (run_hops run) cols) [] runs;
          finalSNRs = concat (map (\<lambda>run. if sg_ok run then (case sg_snr run of Some v \<Rightarrow> [v] | None \<Rightarrow> []) else []) runs);
          elapsed = map sg_elapsedMs (filter sg_ok runs)
      in \<lparr>ss_total = length runs, ss_okCount = okCount, ss_timeouts = length runs - okCount,
          ss_successRate = (if length runs > 0 then of_nat okCount / of_nat (length runs) else 0),
          ss_perHop = concat (map (\<lambda>(i, vs). case valueStats vs of Some s \<Rightarrow> [(i + 1, s)] | None \<Rightarrow> [])
            (zip [0..<length hopValues] hopValues)),
          ss_finalSnr = valueStats finalSNRs, ss_elapsedMs = valueStats elapsed\<rparr>)"

section \<open>Lemmas\<close>

text \<open>The values of one hop are those of the runs that got that far, in order.\<close>

definition hop_column :: "nat \<Rightarrow> signal_run list \<Rightarrow> rat list" where
  "hop_column i runs = concat (map (\<lambda>run. if i < length (run_hops run) then [run_hops run ! i] else []) runs)"

lemma push_hops_nth:
  "i < length (push_hops vs cols) \<Longrightarrow> push_hops vs cols ! i
     = (if i < length cols then cols ! i else []) @ (if i < length vs then [vs ! i] else [])"
proof (induction vs cols arbitrary: i rule: push_hops.induct)
  case (2 v vs)
  then show ?case by (cases i) auto
next
  case (3 v vs col cols)
  then show ?case by (cases i) auto
qed simp

lemma push_hops_length: "length (push_hops vs cols) = max (length vs) (length cols)"
  by (induction vs cols rule: push_hops.induct) auto

definition columns :: "signal_run list \<Rightarrow> rat list list" where
  "columns runs = foldl (\<lambda>cols run. push_hops (run_hops run) cols) [] runs"

lemma columns_snoc: "columns (runs @ [r]) = push_hops (run_hops r) (columns runs)"
  by (simp add: columns_def)

lemma hop_column_snoc:
  "hop_column i (runs @ [r]) = hop_column i runs @ (if i < length (run_hops r) then [run_hops r ! i] else [])"
  by (simp add: hop_column_def)

lemma columns_nth:
  "(i < length (columns runs) \<longrightarrow> columns runs ! i = hop_column i runs)
   \<and> (length (columns runs) \<le> i \<longrightarrow> hop_column i runs = [])
   \<and> (i < length (columns runs) \<longrightarrow> columns runs ! i \<noteq> [])"
proof (induction runs arbitrary: i rule: rev_induct)
  case Nil
  show ?case by (simp add: columns_def hop_column_def)
next
  case (snoc r runs)
  then show ?case
    using snoc.IH [of i] by (cases "i < length (columns runs)"; cases "i < length (run_hops r)")
      (simp_all add: columns_snoc hop_column_snoc push_hops_length push_hops_nth)
qed

lemma fold_min:
  fixes vals :: "rat list"
  shows "foldl min v vals \<in> insert v (set vals) \<and> (\<forall>x\<in>insert v (set vals). foldl min v vals \<le> x)"
proof (induction vals arbitrary: v)
  case (Cons a vals)
  from Cons.IH [of "min v a"] show ?case by (auto simp: min_def split: if_splits)
qed simp

lemma fold_max:
  fixes vals :: "rat list"
  shows "foldl max v vals \<in> insert v (set vals) \<and> (\<forall>x\<in>insert v (set vals). x \<le> foldl max v vals)"
proof (induction vals arbitrary: v)
  case (Cons a vals)
  from Cons.IH [of "max v a"] show ?case by (auto simp: max_def split: if_splits)
qed simp

lemma min_max_steps:
  "(\<lambda>m x :: rat. if x < m then x else m) = min" "(\<lambda>m x :: rat. if x > m then x else m) = max"
  by (auto simp: fun_eq_iff min_def max_def)

lemma foldl_add: "foldl (+) (a :: rat) xs = a + sum_list xs"
  by (induction xs arbitrary: a) simp_all

lemma foldl_squares: "foldl (\<lambda>acc x. acc + (x - m) ^ 2) (a :: rat) xs = a + sum_list (map (\<lambda>x. (x - m) ^ 2) xs)"
  by (induction xs arbitrary: a) simp_all

definition stats_ok :: "rat list \<Rightarrow> value_stats \<Rightarrow> bool" where
  "stats_ok vals s \<longleftrightarrow> vs_n s = length vals \<and> vs_min s \<in> set vals \<and> vs_max s \<in> set vals
     \<and> list_all (\<lambda>x. vs_min s \<le> x \<and> x \<le> vs_max s) vals
     \<and> vs_mean s * of_nat (length vals) = sum_list vals \<and> vs_min s \<le> vs_mean s \<and> vs_mean s \<le> vs_max s
     \<and> vs_variance s * of_nat (length vals - 1) = sum_list (map (\<lambda>x. (x - vs_mean s) ^ 2) vals)
     \<and> 0 \<le> vs_variance s"

lemma sum_list_bounds:
  fixes xs :: "rat list"
  shows "list_all (\<lambda>x. a \<le> x \<and> x \<le> b) xs \<Longrightarrow> a * of_nat (length xs) \<le> sum_list xs \<and> sum_list xs \<le> b * of_nat (length xs)"
  by (induction xs) (auto simp: algebra_simps)

lemma valueStats_ok:
  assumes "vals \<noteq> []"
  shows "\<exists>s. valueStats vals = Some s \<and> stats_ok vals s"
proof -
  obtain v rest where v: "vals = v # rest" using assms by (cases vals) auto
  define mean where "mean = sum_list vals / of_nat (length vals)"
  define sq where "sq = sum_list (map (\<lambda>x. (x - mean) ^ 2) vals)"
  define s where "s = \<lparr>vs_n = length vals, vs_min = foldl min v vals, vs_max = foldl max v vals, vs_mean = mean,
      vs_variance = (if length vals > 1 then sq / of_nat (length vals - 1) else 0)\<rparr>"
  have eq: "valueStats vals = Some s"
    unfolding valueStats_def Let_def v list.case min_max_steps foldl_add foldl_squares
    by (simp only: s_def sq_def mean_def v add_0_left)
  have n: "(0::rat) < of_nat (length vals)" using v by simp
  have mm: "list_all (\<lambda>x. vs_min s \<le> x \<and> x \<le> vs_max s) vals" "vs_min s \<in> set vals" "vs_max s \<in> set vals"
    using fold_min [of v vals] fold_max [of v vals] by (auto simp: s_def v list_all_iff)
  have mean: "mean * of_nat (length vals) = sum_list vals" using n by (simp add: mean_def)
  have "vs_min s * of_nat (length vals) \<le> mean * of_nat (length vals)"
    "mean * of_nat (length vals) \<le> vs_max s * of_nat (length vals)"
    using sum_list_bounds [OF mm(1)] by (simp_all only: mean)
  then have "vs_min s \<le> mean" "mean \<le> vs_max s" using n by (simp_all only: mult_le_cancel_right_pos)
  moreover have "vs_variance s * of_nat (length vals - 1) = sq"
  proof (cases "length vals > 1")
    case True
    then show ?thesis by (simp add: s_def)
  next
    case False
    then have "vals = [v]" using v by (cases rest) auto
    then show ?thesis by (simp add: s_def sq_def mean_def)
  qed
  moreover have "0 \<le> sq" unfolding sq_def by (rule sum_list_nonneg) auto
  ultimately have "stats_ok vals s"
    using mm mean by (simp add: stats_ok_def) (simp add: s_def sq_def)
  with eq show ?thesis by blast
qed

section \<open>Properties\<close>

text \<open>the statistics of the runs so far: every run is counted as an answer or a timeout, the success
  rate is between none and all, there is one row per hop any run reached, numbered from one, and each row
  describes exactly the values of the runs that reached that hop (their number, least, greatest, mean and
  variance).\<close>

theorem stats_describe_runs:
  "ss_okCount (computeStats runs) + ss_timeouts (computeStats runs) = length runs
   \<and> 0 \<le> ss_successRate (computeStats runs) \<and> ss_successRate (computeStats runs) \<le> 1
   \<and> map fst (ss_perHop (computeStats runs)) = [1..<Suc (foldl max 0 (map (length \<circ> run_hops) runs))]
   \<and> list_all (\<lambda>(h, s). stats_ok (hop_column (h - 1) runs) s) (ss_perHop (computeStats runs))"
proof -
  define rows where "rows = concat (map (\<lambda>(i, vs). case valueStats vs of Some s \<Rightarrow> [(i + 1, s)] | None \<Rightarrow> [])
      (zip [0..<length (columns runs)] (columns runs)))"
  have rows: "ss_perHop (computeStats runs) = rows"
    by (simp add: computeStats_def Let_def rows_def columns_def)
  have len: "length (columns runs) = foldl max 0 (map (length \<circ> run_hops) runs)"
    by (induction runs rule: rev_induct) (simp_all add: columns_snoc push_hops_length max.commute, simp add: columns_def)
  define f where "f i = the (valueStats (hop_column i runs))" for i
  have some: "valueStats (columns runs ! i) = Some (f i) \<and> stats_ok (hop_column i runs) (f i)"
    if "i < length (columns runs)" for i
  proof -
    have c: "columns runs ! i = hop_column i runs" "hop_column i runs \<noteq> []"
      using columns_nth [of i runs] that by auto
    from valueStats_ok [OF c(2)] show ?thesis by (auto simp: c(1) f_def)
  qed
  have z: "zip [0..<length (columns runs)] (columns runs) = map (\<lambda>i. (i, columns runs ! i)) [0..<length (columns runs)]"
    by (rule nth_equalityI) simp_all
  have "rows = map (\<lambda>i. (i + 1, f i)) [0..<length (columns runs)]"
  proof -
    have "concat (map (\<lambda>i. case valueStats (columns runs ! i) of Some s \<Rightarrow> [(i + 1, s)] | None \<Rightarrow> []) is)
        = map (\<lambda>i. (i + 1, f i)) is" if "\<forall>i\<in>set is. i < length (columns runs)" for "is"
      using that some by (induction "is") auto
    then show ?thesis by (simp add: rows_def z comp_def)
  qed
  then have "map fst rows = map Suc [0..<length (columns runs)]" "list_all (\<lambda>(h, s). stats_ok (hop_column (h - 1) runs) s) rows"
    using some by (auto simp: list_all_iff)
  then have "map fst (ss_perHop (computeStats runs)) = [1..<Suc (foldl max 0 (map (length \<circ> run_hops) runs))]"
    "list_all (\<lambda>(h, s). stats_ok (hop_column (h - 1) runs) s) (ss_perHop (computeStats runs))"
    by (simp_all only: rows len map_Suc_upt One_nat_def)
  moreover have "ss_okCount (computeStats runs) + ss_timeouts (computeStats runs) = length runs"
    by (simp add: computeStats_def Let_def)
  moreover have "0 \<le> ss_successRate (computeStats runs) \<and> ss_successRate (computeStats runs) \<le> 1"
    by (simp add: computeStats_def Let_def divide_le_eq_1)
  ultimately show ?thesis by blast
qed

end
