(* ===== verification/Packets.thy ===== *)
theory Packets
  imports Prelude JsSort Dates Http
begin

text \<open>
  \<open>pages/PacketsPage.tsx\<close>: the packet log. Each row is one packet, however many times the mesh was
  heard to repeat it: observations with the same hash form a group, represented by the first one
  seen. A \<open>Map\<close> is the list of its values in insertion order, each value carrying its key; a time
  stamp that does not parse is \<open>NaN\<close>, with which every comparison fails.
\<close>

record packet =
  pk_id :: "int option"
  pk_receivedAt :: string
  pk_direction :: string
  pk_raw :: string
  pk_routeType :: "int option"
  pk_payloadType :: "int option"
  pk_route :: "string option"
  pk_pathHashSize :: "int option"
  pk_hops :: "int option"
  pk_path :: "string option"
  pk_packetHash :: "string option"
  pk_summary :: "string option"
  pk_snr :: "rat option"
  pk_rssi :: "rat option"
  pk_floodScope :: "string option"

record packet_group =
  pg_key :: string
  pg_origin :: packet
  pg_originTs :: "int option"
  pg_latestTs :: "int option"
  pg_observations :: "packet list"

section \<open>Labels\<close>

definition PAYLOAD_TYPE_LABELS :: "(int \<times> string) list" where
  "PAYLOAD_TYPE_LABELS =
     [(0, ''Request''), (1, ''Response''), (2, ''Message''), (3, ''ACK''), (4, ''Advert''),
      (5, ''Channel''), (6, ''Ch Data''), (7, ''Anon Req''), (8, ''Path''), (9, ''Trace''),
      (10, ''Multi''), (11, ''Control''), (12, ''Raw'')]"

definition payloadLabel :: "int option \<Rightarrow> string" where
  "payloadLabel pt =
     (case pt of None \<Rightarrow> [glyph_dash]
      | Some t \<Rightarrow> nullish (map_of PAYLOAD_TYPE_LABELS t) (''T'' @ show_int t))"

definition hopSense :: "string option \<Rightarrow> string option" where
  "hopSense route =
     (if \<not> truthy_str route then None
      else Some (if str_includes (the route) ''DIRECT'' then ''remaining'' else ''travelled''))"

definition regionName :: "string option \<Rightarrow> string option" where
  "regionName scope =
     (case scope of None \<Rightarrow> None
      | Some s \<Rightarrow> if starts_with ''region:'' s then Some (slice_from 7 s) else None)"

definition packetRegion :: "packet \<Rightarrow> string option" where
  "packetRegion p =
     (if pk_floodScope p = Some ''unknown'' then Some ''other region'' else regionName (pk_floodScope p))"

definition routeLabel :: "packet \<Rightarrow> string" where
  "routeLabel p =
     (if \<not> truthy_str (pk_route p) then [glyph_dash]
      else let r = the (pk_route p); region = packetRegion p;
               route = (if truthy_str region then r @ '' '' @ the region else r) in
        (case pk_hops p of
           None \<Rightarrow> route
         | Some h \<Rightarrow> if h = 0 then route else route @ '' '' @ [glyph_middot] @ '' '' @ show_int h))"

section \<open>Grouping\<close>

definition packetKey :: "packet \<Rightarrow> string" where
  "packetKey p =
     (if truthy_str (pk_packetHash p) then the (pk_packetHash p)
      else pk_direction p @ '':'' @ pk_raw p)"

definition packet_ts :: "packet \<Rightarrow> int option" where  \<comment> \<open>\<open>new Date(p.receivedAt).getTime()\<close>\<close>
  "packet_ts p = date_ms (pk_receivedAt p)"

fun ts_less :: "int option \<Rightarrow> int option \<Rightarrow> bool" where
  "ts_less (Some a) (Some b) = (a < b)"
| "ts_less _ _ = False"

definition beatsOrigin :: "packet \<Rightarrow> int option \<Rightarrow> packet_group \<Rightarrow> bool" where
  "beatsOrigin p ts g =
     (case (pk_id p, pk_id (pg_origin g)) of
        (Some i, Some j) \<Rightarrow> i < j
      | _ \<Rightarrow> ts_less ts (pg_originTs g))"

definition new_group :: "packet \<Rightarrow> packet_group" where
  "new_group p = \<lparr>pg_key = packetKey p, pg_origin = p, pg_originTs = packet_ts p,
     pg_latestTs = packet_ts p, pg_observations = [p]\<rparr>"

definition join_group :: "packet \<Rightarrow> packet_group \<Rightarrow> packet_group" where
  "join_group p g =
     (let ts = packet_ts p;
          g1 = g\<lparr>pg_observations := pg_observations g @ [p]\<rparr>;
          g2 = (if ts_less (pg_latestTs g1) ts then g1\<lparr>pg_latestTs := ts\<rparr> else g1) in
      if beatsOrigin p ts g2 then g2\<lparr>pg_origin := p, pg_originTs := ts\<rparr> else g2)"

fun group_packet :: "packet \<Rightarrow> packet_group list \<Rightarrow> packet_group list" where
  "group_packet p [] = [new_group p]"
| "group_packet p (g # gs) =
     (if pg_key g = packetKey p then join_group p g # gs else g # group_packet p gs)"

definition newest_first :: "packet_group \<Rightarrow> packet_group \<Rightarrow> rat" where
  "newest_first a b =
     (case (pg_originTs a, pg_originTs b) of (Some x, Some y) \<Rightarrow> of_int (y - x) | _ \<Rightarrow> 0)"

definition buildGroups :: "packet list \<Rightarrow> packet_group list" where
  "buildGroups ps = js_sort newest_first (foldl (\<lambda>gs p. group_packet p gs) [] ps)"

section \<open>The page\<close>

definition dirGlyph :: "string \<Rightarrow> string" where
  "dirGlyph direction =
     (if direction = ''tx'' then [glyph_up] else if direction = ''rx'' then [glyph_down] else [glyph_middot])"

definition FILTER_LIMIT :: nat where "FILTER_LIMIT = 500"

text \<open>The type filter is \<open>None\<close> for ALL.\<close>

definition filter_url :: "int option \<Rightarrow> string \<Rightarrow> string option" where
  "filter_url typeFilter search =
     (if typeFilter = None \<and> search = [] then None
      else Some (''/api/packets?limit='' @ show_nat FILTER_LIMIT
        @ (case typeFilter of None \<Rightarrow> [] | Some t \<Rightarrow> ''&payloadType='' @ show_int t)
        @ (if search = [] then [] else ''&q='' @ encode_uri search)))"

definition on_packet :: "string \<Rightarrow> packet option \<Rightarrow> packet list option \<Rightarrow> packet list option" where
  "on_packet topic data prev =
     (case data of
        None \<Rightarrow> prev
      | Some pkt \<Rightarrow> if topic \<noteq> ''packets'' then prev else Some (slice 0 200 (pkt # nullish prev [])))"

fun count_in :: "int \<Rightarrow> (int \<times> nat) list \<Rightarrow> (int \<times> nat) list" where  \<comment> \<open>\<open>counts.set(pt, (counts.get(pt) ?? 0) + 1)\<close>\<close>
  "count_in t [] = [(t, 1)]"
| "count_in t ((u, n) # cs) = (if u = t then (u, n + 1) # cs else (u, n) # count_in t cs)"

definition count_type :: "(int \<times> nat) list \<Rightarrow> packet_group \<Rightarrow> (int \<times> nat) list" where
  "count_type cs g = (case pk_payloadType (pg_origin g) of None \<Rightarrow> cs | Some t \<Rightarrow> count_in t cs)"

definition typeFilters :: "packet_group list \<Rightarrow> int option \<Rightarrow> (int \<times> nat) list" where
  "typeFilters gs typeFilter =
     (let counts = foldl count_type [] gs;
          counts' = (case typeFilter of
              Some t \<Rightarrow> if t \<notin> fst ` set counts then counts @ [(t, 0)] else counts
            | None \<Rightarrow> counts) in
      js_sort (\<lambda>a b. of_int (fst a - fst b)) counts')"

definition capped :: "bool \<Rightarrow> packet list option \<Rightarrow> bool" where
  "capped filtering items \<longleftrightarrow> filtering \<and> length (nullish items []) \<ge> FILTER_LIMIT"

definition empty_message :: "bool \<Rightarrow> bool \<Rightarrow> string" where
  "empty_message filterLoading filtering =
     (if filterLoading then ''Searching'' @ [glyph_ellipsis]
      else if filtering then ''No packets match the filter.''
      else ''Awaiting packets'' @ [glyph_ellipsis])"

definition selected_group :: "string option \<Rightarrow> packet_group list \<Rightarrow> packet_group option" where
  "selected_group key gs =
     (if \<not> truthy_str key then None else find (\<lambda>g. pg_key g = the key) gs)"

definition sidebar_width :: "int \<Rightarrow> int \<Rightarrow> int \<Rightarrow> int \<Rightarrow> int" where
  \<comment> \<open>the width at the start of the drag, the window's, the pointer's start and now\<close>
  "sidebar_width startW innerWidth startX clientX =
     max 300 (min (innerWidth * 6 div 10) (startW + (startX - clientX)))"

definition sorted_observations :: "packet_group \<Rightarrow> packet list" where
  "sorted_observations g = js_sort (\<lambda>a b. case (packet_ts a, packet_ts b) of
       (Some x, Some y) \<Rightarrow> of_int (y - x) | _ \<Rightarrow> 0) (pg_observations g)"

definition first_last_seen :: "packet_group \<Rightarrow> string option \<times> string option" where
  "first_last_seen g =
     (let obs = sorted_observations g in
      (map_option pk_receivedAt (if obs = [] then None else Some (last obs)),
       map_option pk_receivedAt (list_at obs 0)))"

definition menu_count :: "int option \<Rightarrow> nat \<Rightarrow> (int \<times> nat) list \<Rightarrow> string \<times> nat" where
  "menu_count v allCount types =
     (case v of None \<Rightarrow> (''all'', allCount)
      | Some t \<Rightarrow> (payloadLabel (Some t), nullish (map_of types t) 0))"

section \<open>What a group holds\<close>

lemma beats_joined [simp]:
  "beatsOrigin p ts (g\<lparr>pg_observations := obs\<rparr>) = beatsOrigin p ts g"
  "beatsOrigin p ts (g\<lparr>pg_latestTs := t\<rparr>) = beatsOrigin p ts g"
  by (simp_all add: beatsOrigin_def split: option.split)

lemma join_fields [simp]:
  "pg_key (join_group p g) = pg_key g"
  "pg_observations (join_group p g) = pg_observations g @ [p]"
  "pg_latestTs (join_group p g) = (if ts_less (pg_latestTs g) (packet_ts p) then packet_ts p else pg_latestTs g)"
  "pg_origin (join_group p g) = (if beatsOrigin p (packet_ts p) g then p else pg_origin g)"
  "pg_originTs (join_group p g) = (if beatsOrigin p (packet_ts p) g then packet_ts p else pg_originTs g)"
  by (simp_all add: join_group_def Let_def)

lemma new_fields [simp]:
  "pg_key (new_group p) = packetKey p" "pg_observations (new_group p) = [p]"
  "pg_latestTs (new_group p) = packet_ts p" "pg_origin (new_group p) = p"
  "pg_originTs (new_group p) = packet_ts p"
  by (simp_all add: new_group_def)

lemma group_packet_keys: "map pg_key (group_packet p gs) = set_add (packetKey p) (map pg_key gs)"
  by (induction gs) (auto simp: set_add_def)

definition group_ok :: "packet list \<Rightarrow> packet_group \<Rightarrow> bool" where
  "group_ok ps g \<longleftrightarrow> pg_observations g = filter (\<lambda>p. packetKey p = pg_key g) ps
     \<and> pg_origin g \<in> set (pg_observations g) \<and> pg_originTs g = packet_ts (pg_origin g)"

lemma group_packet_ok:
  "list_all (group_ok ps) gs \<Longrightarrow> distinct (map pg_key gs) \<Longrightarrow>
   filter (\<lambda>q. packetKey q = packetKey p \<and> packetKey p \<notin> set (map pg_key gs)) ps = [] \<Longrightarrow>
   list_all (group_ok (ps @ [p])) (group_packet p gs)"
proof (induction gs)
  case (Cons g gs)
  show ?case
  proof (cases "pg_key g = packetKey p")
    case True
    with Cons.prems have "packetKey p \<notin> set (map pg_key gs)" by auto
    with True Cons.prems(1) show ?thesis by (auto simp: group_ok_def list_all_iff)
  next
    case False
    with Cons.prems have "filter (\<lambda>q. packetKey q = packetKey p \<and> packetKey p \<notin> set (map pg_key gs)) ps = []"
      by (auto simp: filter_empty_conv)
    with False Cons show ?thesis by (auto simp: group_ok_def)
  qed
qed (auto simp: group_ok_def filter_empty_conv)

lemma groups_of_snoc:
  "foldl (\<lambda>gs p. group_packet p gs) [] (ps @ [p]) = group_packet p (foldl (\<lambda>gs p. group_packet p gs) [] ps)"
  by simp

lemma groups_keys: "map pg_key (foldl (\<lambda>gs p. group_packet p gs) [] ps) = as_set (map packetKey ps)"
  by (induction ps rule: rev_induct) (simp_all add: as_set_def group_packet_keys)

lemma groups_ok: "list_all (group_ok ps) (foldl (\<lambda>gs p. group_packet p gs) [] ps)"
proof (induction ps rule: rev_induct)
  case (snoc p ps)
  let ?gs = "foldl (\<lambda>gs p. group_packet p gs) [] ps"
  have "set (map pg_key ?gs) = packetKey ` set ps" by (simp only: groups_keys as_set_simps set_map)
  then have "filter (\<lambda>q. packetKey q = packetKey p \<and> packetKey p \<notin> set (map pg_key ?gs)) ps = []"
    by (simp add: filter_empty_conv) (metis imageI)
  moreover have "distinct (map pg_key ?gs)" by (simp only: groups_keys as_set_simps)
  ultimately show ?case using snoc by (simp add: group_packet_ok)
qed simp

section \<open>The log\<close>


text \<open>Observations whose time stamps parse and whose ids, where known, were given in the order
  of receipt: what the server does while its clock does not step back.\<close>

definition ids_follow_time :: "packet list \<Rightarrow> bool" where
  "ids_follow_time ps \<longleftrightarrow> list_all (\<lambda>p. packet_ts p \<noteq> None) ps
     \<and> list_all (\<lambda>p. list_all (\<lambda>q. case (pk_id p, pk_id q) of
         (Some i, Some j) \<Rightarrow> i \<le> j \<longrightarrow> the (packet_ts p) \<le> the (packet_ts q) | _ \<Rightarrow> True) ps) ps"

definition seen_bounds :: "packet_group \<Rightarrow> bool" where
  "seen_bounds g \<longleftrightarrow>
     pg_originTs g = Some (Min ((the \<circ> packet_ts) ` set (pg_observations g)))
   \<and> pg_latestTs g = Some (Max ((the \<circ> packet_ts) ` set (pg_observations g)))"

lemma ids_follow_time_snoc: "ids_follow_time (ps @ [p]) \<Longrightarrow> ids_follow_time ps"
  by (auto simp: ids_follow_time_def list_all_iff)

lemma ids_follow_timeD:
  "ids_follow_time ps \<Longrightarrow> p \<in> set ps \<Longrightarrow> q \<in> set ps \<Longrightarrow> pk_id p = Some i \<Longrightarrow> pk_id q = Some j \<Longrightarrow>
   i \<le> j \<Longrightarrow> the (packet_ts p) \<le> the (packet_ts q)"
  by (fastforce simp: ids_follow_time_def list_all_iff)

lemma beats_is_earlier:
  assumes ok: "ids_follow_time ps" "p \<in> set ps" "pg_origin g \<in> set ps"
    and ts: "packet_ts p = Some t" "pg_originTs g = Some u" "packet_ts (pg_origin g) = Some u"
  shows "beatsOrigin p (Some t) g \<Longrightarrow> t \<le> u" "\<not> beatsOrigin p (Some t) g \<Longrightarrow> u \<le> t"
  using ids_follow_timeD [OF ok] ids_follow_timeD [OF ok(1,3,2)] ts
  by (auto simp: beatsOrigin_def split: option.splits)

lemma join_seen_bounds:
  assumes ok: "ids_follow_time ps" and p: "p \<in> set ps" and sub: "set (pg_observations g) \<subseteq> set ps"
    and g: "seen_bounds g" "pg_origin g \<in> set (pg_observations g)" "pg_originTs g = packet_ts (pg_origin g)"
  shows "seen_bounds (join_group p g)"
proof -
  obtain t where t: "packet_ts p = Some t" using ok p by (auto simp: ids_follow_time_def list_all_iff)
  let ?T = "(the \<circ> packet_ts) ` set (pg_observations g)"
  have T: "finite ?T" "?T \<noteq> {}" using g(2) by auto
  have all: "(the \<circ> packet_ts) ` set (pg_observations (join_group p g)) = insert t ?T" using t by auto
  have o: "pg_originTs g = Some (Min ?T)" "pg_latestTs g = Some (Max ?T)"
    using g(1) by (auto simp: seen_bounds_def)
  have b: "beatsOrigin p (Some t) g \<Longrightarrow> t \<le> Min ?T" "\<not> beatsOrigin p (Some t) g \<Longrightarrow> Min ?T \<le> t"
    using beats_is_earlier [OF ok p _ t o(1)] g(2,3) sub o(1) by auto
  have "Min (insert t ?T) = (if beatsOrigin p (packet_ts p) g then t else Min ?T)"
    unfolding Min_insert [OF T] t using b
    by (cases "beatsOrigin p (Some t) g") (simp_all add: min_def antisym)
  moreover have "Max (insert t ?T) = (if ts_less (pg_latestTs g) (packet_ts p) then t else Max ?T)"
    unfolding Max_insert [OF T] t o(2) by (simp add: max_def)
  ultimately show ?thesis unfolding seen_bounds_def all using t o by simp
qed


lemma group_packet_bounds:
  assumes ok: "ids_follow_time (ps @ [p])"
  shows "list_all (group_ok ps) gs \<Longrightarrow> list_all seen_bounds gs \<Longrightarrow> list_all seen_bounds (group_packet p gs)"
proof (induction gs)
  case Nil
  from ok obtain t where "packet_ts p = Some t" by (auto simp: ids_follow_time_def list_all_iff)
  then show ?case by (simp add: seen_bounds_def)
next
  case (Cons g gs)
  then have g: "group_ok ps g" "seen_bounds g" by simp_all
  then have "set (pg_observations g) \<subseteq> set (ps @ [p])" by (auto simp: group_ok_def)
  moreover have "pg_origin g \<in> set (pg_observations g)" "pg_originTs g = packet_ts (pg_origin g)"
    using g(1) unfolding group_ok_def by blast+
  ultimately have "seen_bounds (join_group p g)" using g(2) by (intro join_seen_bounds [OF ok]) simp_all
  with Cons show ?case by simp
qed

lemma groups_bounds:
  "ids_follow_time ps \<Longrightarrow> list_all seen_bounds (foldl (\<lambda>gs p. group_packet p gs) [] ps)"
proof (induction ps rule: rev_induct)
  case (snoc p ps)
  then have "list_all seen_bounds (foldl (\<lambda>gs p. group_packet p gs) [] ps)"
    using ids_follow_time_snoc by blast
  with groups_ok [of ps] snoc.prems show ?case
    unfolding groups_of_snoc by (intro group_packet_bounds)
qed simp

text \<open>With every origin dated, the comparator is a difference of numbers.\<close>

lemma newest_first_sorted:
  assumes "list_all (\<lambda>g. pg_originTs g \<noteq> None) gs"
  shows "sorted_wrt (\<lambda>a b. the (pg_originTs b) \<le> the (pg_originTs a)) (js_sort newest_first gs)"
proof -
  let ?k = "\<lambda>g. of_int (the (pg_originTs g)) :: rat"
  have eq: "newest_first a b = ?k b - ?k a" if ab: "a \<in> set gs" "b \<in> set gs" for a b
    proof -
    have "pg_originTs a \<noteq> None" "pg_originTs b \<noteq> None" using ab assms by (simp_all add: list_all_iff)
    then show ?thesis by (elim not_None_eq [THEN iffD1, THEN exE]) (simp add: newest_first_def)
  qed
  have "sorted_wrt (\<lambda>a b. newest_first a b \<le> 0) (js_sort newest_first gs)"
    by (rule sorted_js_sort_on [OF js_comparator_key_desc [of ?k] eq])
  then show ?thesis
  proof (rule sorted_wrt_mono_rel [rotated])
    fix a b assume "a \<in> set (js_sort newest_first gs)" "b \<in> set (js_sort newest_first gs)" "newest_first a b \<le> 0"
    then show "the (pg_originTs b) \<le> the (pg_originTs a)" using eq [of a b] by simp
  qed
qed

text \<open>While the server's ids follow its clock, a row is dated by the first time its packet was
  seen and by the last, and the rows run from the newest first sighting to the oldest: a repeat
  heard later never moves a row.\<close>

lemma origin_first_seen:
  assumes "ids_follow_time ps"
  shows "list_all seen_bounds (buildGroups ps)
   \<and> sorted_wrt (\<lambda>a b. the (pg_originTs b) \<le> the (pg_originTs a)) (buildGroups ps)"
proof -
  have b: "list_all seen_bounds (foldl (\<lambda>gs p. group_packet p gs) [] ps)"
    using assms by (rule groups_bounds)
  then have "list_all (\<lambda>g. pg_originTs g \<noteq> None) (foldl (\<lambda>gs p. group_packet p gs) [] ps)"
    by (rule list.pred_mono_strong) (simp add: seen_bounds_def)
  with b show ?thesis by (simp add: buildGroups_def newest_first_sorted list_all_iff)
qed

definition heard :: "int option \<Rightarrow> string \<Rightarrow> string \<Rightarrow> string \<Rightarrow> packet" where
  "heard i time dir h = \<lparr>pk_id = i, pk_receivedAt = time, pk_direction = dir, pk_raw = ''00'',
     pk_routeType = None, pk_payloadType = Some 2, pk_route = None, pk_pathHashSize = None, pk_hops = None,
     pk_path = None, pk_packetHash = Some h, pk_summary = None, pk_snr = None, pk_rssi = None, pk_floodScope = None\<rparr>"

definition sample_log :: "packet list" where
  "sample_log = [heard None ''2024-01-01T00:00:05Z'' ''rx'' ''b'', heard (Some 2) ''2024-01-01T00:00:03Z'' ''rx'' ''a'',
     heard (Some 1) ''2024-01-01T00:00:01Z'' ''tx'' ''a'']"

lemma origin_first_seen_witness:
  "list_all seen_bounds (buildGroups sample_log)
   \<and> sorted_wrt (\<lambda>a b. the (pg_originTs b) \<le> the (pg_originTs a)) (buildGroups sample_log)
   \<and> map (\<lambda>g. pk_direction (pg_origin g)) (buildGroups sample_log) = [''rx'', ''tx'']"
proof -
  have "ids_follow_time sample_log" by code_simp
  moreover have "map (\<lambda>g. pk_direction (pg_origin g)) (buildGroups sample_log) = [''rx'', ''tx'']"
    by code_simp
  ultimately show ?thesis using origin_first_seen [of sample_log] by blast
qed

text \<open>Where the ids and the clock disagree, the representative depends on the order of arrival: three
  observations each beat the next, and the loop keeps whichever it met last.\<close>

lemma arrival_order_decides:
  "(let a = heard (Some 5) ''2024-01-01T00:00:01Z'' ''rx'' ''h''; b = heard None ''2024-01-01T00:00:02Z'' ''rx'' ''h'';
        c = heard (Some 1) ''2024-01-01T00:00:03Z'' ''rx'' ''h'' in
    map pg_origin (buildGroups [a, b, c]) = [c] \<and> map pg_origin (buildGroups [c, a, b]) = [b])"
  by code_simp

section \<open>The type filters\<close>

definition of_type :: "int \<Rightarrow> packet_group list \<Rightarrow> packet_group list" where
  "of_type t gs = filter (\<lambda>g. pk_payloadType (pg_origin g) = Some t) gs"

lemma count_in_keys: "map fst (count_in t cs) = set_add t (map fst cs)"
  by (induction t cs rule: count_in.induct) (auto simp: set_add_def)

lemma count_in_lookup:
  "distinct (map fst cs) \<Longrightarrow>
   map_of (count_in t cs) u = (if u = t then Some (nullish (map_of cs t) 0 + 1) else map_of cs u)"
  by (induction t cs rule: count_in.induct) (auto split: option.splits)

lemma count_type_spec:
  "distinct (map fst cs) \<Longrightarrow> distinct (map fst (count_type cs g))"
  "distinct (map fst cs) \<Longrightarrow> map_of (count_type cs g) t =
     (if pk_payloadType (pg_origin g) = Some t then Some (nullish (map_of cs t) 0 + 1) else map_of cs t)"
  by (simp_all add: count_type_def count_in_keys count_in_lookup split: option.split)

lemma counts_spec:
  "distinct (map fst (foldl count_type [] gs))
   \<and> map_of (foldl count_type [] gs) t = (if of_type t gs = [] then None else Some (length (of_type t gs)))"
proof (induction gs rule: rev_induct)
  case (snoc g gs)
  then show ?case by (simp add: count_type_spec) (simp add: of_type_def)
qed (simp add: of_type_def)


lemma sorted_keys_strict:
  fixes xs :: "(int \<times> 'a) list"
  shows "sorted_wrt (\<lambda>a b. fst a \<le> fst b) xs \<Longrightarrow> distinct (map fst xs) \<Longrightarrow> sorted_wrt (\<lambda>a b. fst a < fst b) xs"
  by (induction xs) (auto simp: image_iff less_le)

lemma map_of_js_sort: "distinct (map fst cs) \<Longrightarrow> map_of (js_sort cmp cs) = map_of cs"
  by (metis distinct_map_js_sort map_of_inject_set set_js_sort)

text \<open>The type filters list every payload type among the rows once, with the number of rows of
  that type, in increasing order of the type; the chosen type stays listed when no row has it.\<close>

lemma type_filters_count:
  "map_of (typeFilters gs typeFilter) t =
     (if of_type t gs \<noteq> [] \<or> typeFilter = Some t then Some (length (of_type t gs)) else None)
   \<and> sorted_wrt (\<lambda>a b. fst a < fst b) (typeFilters gs typeFilter)"
proof -
  let ?cs = "foldl count_type [] gs"
  define cs where "cs = (case typeFilter of
      Some t \<Rightarrow> if t \<notin> fst ` set ?cs then ?cs @ [(t, 0)] else ?cs | None \<Rightarrow> ?cs)"
  have d: "distinct (map fst ?cs)" and c: "map_of ?cs u = (if of_type u gs = [] then None else Some (length (of_type u gs)))" for u
    using counts_spec [of gs] by blast+
  have dom: "u \<in> fst ` set ?cs \<longleftrightarrow> of_type u gs \<noteq> []" for u
    using c [of u] by (metis map_of_eq_None_iff option.distinct(1))
  have d': "distinct (map fst cs)" using d by (simp add: cs_def split: option.split)
  have m: "map_of cs t = (if of_type t gs \<noteq> [] \<or> typeFilter = Some t then Some (length (of_type t gs)) else None)"
    using c by (auto simp: cs_def dom map_add_def split: option.split)
  have f: "typeFilters gs typeFilter = js_sort (\<lambda>a b. of_int (fst a - fst b)) cs"
    by (simp only: typeFilters_def cs_def Let_def)
  have "js_comparator (\<lambda>a b :: int \<times> nat. of_int (fst a - fst b) :: rat)"
    using js_comparator_key [of "\<lambda>a. of_int (fst a)"] by simp
  from js_comparator.sorted_js_sort [OF this, of cs]
  have "sorted_wrt (\<lambda>a b. fst a \<le> fst b) (typeFilters gs typeFilter)" by (simp add: f)
  moreover have "distinct (map fst (typeFilters gs typeFilter))" using d' by (simp add: f distinct_map_js_sort)
  ultimately have "sorted_wrt (\<lambda>a b. fst a < fst b) (typeFilters gs typeFilter)"
    by (rule sorted_keys_strict)
  with m d' show ?thesis by (simp add: f map_of_js_sort)
qed


end
