(* ===== verification/CliTerminal.thy ===== *)
theory CliTerminal
  imports Prelude ApiClient
begin

text \<open>
  \<open>components/CliTerminal.tsx\<close>: the command line to a node. The state is the component's; a handler
  runs on the state of the last render, and the effect on \<open>[input]\<close> runs after every event that
  changed the input. The command catalogue is data the build bundles, a parameter here; an entry's time, which nothing shows, is left out; the answer of
  \<open>sendCli\<close> is an event.
\<close>

datatype cli_line = CliInput string | CliOutput string | CliFailed string

record suggestion =
  sg_text :: string
  sg_hint :: "string option"

record cli_catalog =
  topLevelCommands :: "cli_entry list"
  configKeys :: "cli_entry list"

section \<open>Suggestions\<close>

definition suggest_with :: "string \<Rightarrow> cli_entry \<Rightarrow> suggestion" where
  "suggest_with prefix e = \<lparr>sg_text = prefix @ ce_text e, sg_hint = ce_hint e\<rparr>"

definition buildSuggestions :: "cli_catalog \<Rightarrow> string \<Rightarrow> cli_role \<Rightarrow> suggestion list" where
  "buildSuggestions cat input role =
     (let keys = forRole (configKeys cat) role; commands = forRole (topLevelCommands cat) role;
          lower = to_lower input in
      if starts_with ''get '' lower \<or> starts_with ''set '' lower then
        (let prefix = slice 0 4 lower; tail = trim (slice_from 4 lower) in
         if tail = [] then map (suggest_with prefix) keys
         else (let starts = filter (\<lambda>k. starts_with tail (ce_text k)) keys;
                   others = filter (\<lambda>k. \<not> starts_with tail (ce_text k) \<and> str_includes (ce_text k) tail) keys in
           map (suggest_with prefix) (starts @ others)))
      else if lower = [] then map (suggest_with []) commands
      else (let starts = filter (\<lambda>c. starts_with lower (to_lower (ce_text c))) commands;
                others = filter (\<lambda>c. \<not> starts_with lower (to_lower (ce_text c))
                  \<and> str_includes (to_lower (ce_text c)) lower) commands in
        map (suggest_with []) (starts @ others)))"

section \<open>State\<close>

record cli_state =
  cli_history :: "cli_line list"
  cli_input :: string
  cli_busy :: bool
  cli_hIdx :: int
  cli_open :: bool
  cli_sIdx :: nat
  cli_sent :: "string list"  \<comment> \<open>what \<open>sendCli\<close> was called with\<close>

definition cli_start :: cli_state where
  "cli_start = \<lparr>cli_history = [], cli_input = [], cli_busy = False, cli_hIdx = -1, cli_open = False,
     cli_sIdx = 0, cli_sent = []\<rparr>"

fun input_text :: "cli_line \<Rightarrow> string option" where
  "input_text (CliInput t) = Some t"
| "input_text _ = None"

definition cli_inputs :: "cli_state \<Rightarrow> string list" where
  "cli_inputs st = List.map_filter input_text (cli_history st)"

definition suggestions :: "cli_catalog \<Rightarrow> cli_role option \<Rightarrow> cli_state \<Rightarrow> suggestion list" where
  "suggestions cat role st =
     (case role of None \<Rightarrow> []
      | Some r \<Rightarrow> if cli_open st \<and> trim (cli_input st) \<noteq> [] then buildSuggestions cat (cli_input st) r else [])"

section \<open>Handlers\<close>

definition applySuggestion :: "suggestion \<Rightarrow> cli_state \<Rightarrow> cli_state" where
  "applySuggestion s st = st\<lparr>cli_input := sg_text s, cli_open := False\<rparr>"

definition cli_submit :: "cli_state \<Rightarrow> cli_state" where
  "cli_submit st =
     (let cmd = trim (cli_input st) in
      if cmd = [] \<or> cli_busy st then st
      else st\<lparr>cli_busy := True, cli_history := cli_history st @ [CliInput cmd], cli_input := [],
              cli_hIdx := -1, cli_sent := cli_sent st @ [cmd]\<rparr>)"

datatype cli_outcome = Replied string | Refused string | Threw_other

fun answer_line :: "cli_outcome \<Rightarrow> cli_line" where
  "answer_line (Replied out) = CliOutput (or_str out ''(empty)'')"
| "answer_line (Refused msg) = CliFailed msg"
| "answer_line Threw_other = CliFailed ''error''"

definition cli_answered :: "cli_outcome \<Rightarrow> cli_state \<Rightarrow> cli_state" where
  "cli_answered out st = st\<lparr>cli_history := cli_history st @ [answer_line out], cli_busy := False\<rparr>"

definition key_tab :: "suggestion list \<Rightarrow> cli_state \<Rightarrow> cli_state" where
  "key_tab sugg st =
     (if sugg = [] then st\<lparr>cli_open := True\<rparr>
      else if cli_open st then applySuggestion (nullish (list_at sugg (cli_sIdx st)) (hd sugg)) st
      else st\<lparr>cli_open := True, cli_sIdx := 0\<rparr>)"

definition recall :: "int \<Rightarrow> cli_state \<Rightarrow> cli_state" where
  "recall next st = st\<lparr>cli_hIdx := next, cli_input := nullish (list_at (cli_inputs st) (nat next)) []\<rparr>"

definition key_up :: "suggestion list \<Rightarrow> cli_state \<Rightarrow> cli_state" where
  "key_up sugg st =
     (if cli_open st \<and> sugg \<noteq> [] then
        st\<lparr>cli_sIdx := (if cli_sIdx st = 0 then length sugg - 1 else cli_sIdx st - 1)\<rparr>
      else if cli_inputs st = [] then st
      else recall (if cli_hIdx st = -1 then int (length (cli_inputs st)) - 1 else max 0 (cli_hIdx st - 1)) st)"

definition key_down :: "suggestion list \<Rightarrow> cli_state \<Rightarrow> cli_state" where
  "key_down sugg st =
     (if cli_open st \<and> sugg \<noteq> [] then
        st\<lparr>cli_sIdx := (if int (cli_sIdx st) \<ge> int (length sugg) - 1 then 0 else cli_sIdx st + 1)\<rparr>
      else if cli_inputs st = [] then st
      else if cli_hIdx st = -1 then st
      else if cli_hIdx st + 1 \<ge> int (length (cli_inputs st)) then st\<lparr>cli_hIdx := -1, cli_input := []\<rparr>
      else recall (cli_hIdx st + 1) st)"

datatype cli_key = KEnter | KTab | KEscape | KUp | KDown | KOther

fun onKey :: "suggestion list \<Rightarrow> cli_key \<Rightarrow> cli_state \<Rightarrow> cli_state" where
  "onKey sugg KEnter st = cli_submit (st\<lparr>cli_open := False\<rparr>)"
| "onKey sugg KTab st = key_tab sugg st"
| "onKey sugg KEscape st = (if cli_open st \<and> sugg \<noteq> [] then st\<lparr>cli_open := False\<rparr> else st)"
| "onKey sugg KUp st = key_up sugg st"
| "onKey sugg KDown st = key_down sugg st"
| "onKey sugg KOther st = st"

datatype cli_event =
    Typed string
  | Pressed cli_key
  | Focused
  | BlurTimer
  | RowPicked nat
  | RowHovered nat
  | RunClicked
  | ClearClicked
  | CliAnswer cli_outcome

text \<open>A disabled input takes no text and no keys; the rows of a closed menu take no mouse.\<close>

fun cli_handle :: "suggestion list \<Rightarrow> cli_event \<Rightarrow> cli_state \<Rightarrow> cli_state" where
  "cli_handle sugg (Typed t) st = (if cli_busy st then st else st\<lparr>cli_input := t, cli_open := True\<rparr>)"
| "cli_handle sugg (Pressed k) st = (if cli_busy st then st else onKey sugg k st)"
| "cli_handle sugg Focused st = st\<lparr>cli_open := True\<rparr>"
| "cli_handle sugg BlurTimer st = st\<lparr>cli_open := False\<rparr>"
| "cli_handle sugg (RowPicked i) st = (case list_at sugg i of Some s \<Rightarrow> applySuggestion s st | None \<Rightarrow> st)"
| "cli_handle sugg (RowHovered i) st = (if i < length sugg then st\<lparr>cli_sIdx := i\<rparr> else st)"
| "cli_handle sugg RunClicked st = cli_submit st"
| "cli_handle sugg ClearClicked st = st\<lparr>cli_history := []\<rparr>"
| "cli_handle sugg (CliAnswer out) st = (if cli_busy st then cli_answered out st else st)"

definition cli_step :: "cli_catalog \<Rightarrow> cli_role option \<Rightarrow> cli_state \<Rightarrow> cli_event \<Rightarrow> cli_state" where
  "cli_step cat role st e =
     (let st1 = cli_handle (suggestions cat role st) e st in
      if cli_input st1 \<noteq> cli_input st then st1\<lparr>cli_sIdx := 0\<rparr> else st1)"

definition cli_run :: "cli_catalog \<Rightarrow> cli_role option \<Rightarrow> cli_event list \<Rightarrow> cli_state" where
  "cli_run cat role es = foldl (cli_step cat role) cli_start es"

section \<open>The menu\<close>

definition rows_for :: "cli_catalog \<Rightarrow> cli_role option \<Rightarrow> string \<Rightarrow> suggestion list" where
  "rows_for cat role input =
     (case role of None \<Rightarrow> [] | Some r \<Rightarrow> if trim input \<noteq> [] then buildSuggestions cat input r else [])"

lemma suggestions_rows: "suggestions cat role st = (if cli_open st then rows_for cat role (cli_input st) else [])"
  by (simp add: suggestions_def rows_for_def split: option.split)

definition row_ok :: "cli_catalog \<Rightarrow> cli_role option \<Rightarrow> cli_state \<Rightarrow> bool" where
  "row_ok cat role st \<longleftrightarrow> cli_sIdx st = 0 \<or> cli_sIdx st < length (rows_for cat role (cli_input st))"

lemma handle_row:
  assumes "row_ok cat role st" and "cli_input (cli_handle (suggestions cat role st) e st) = cli_input st"
  shows "row_ok cat role (cli_handle (suggestions cat role st) e st)"
proof (cases e)
  case (Pressed k)
  with assms show ?thesis
    by (cases k) (auto simp: row_ok_def suggestions_rows cli_submit_def key_tab_def key_up_def key_down_def
        recall_def applySuggestion_def Let_def split: if_splits)
qed (use assms in \<open>auto simp: row_ok_def suggestions_rows cli_submit_def cli_answered_def
      applySuggestion_def Let_def list_at_def split: if_splits option.splits\<close>)

lemma step_row: "row_ok cat role st \<Longrightarrow> row_ok cat role (cli_step cat role st e)"
  by (cases "cli_input (cli_handle (suggestions cat role st) e st) = cli_input st")
     (simp_all add: cli_step_def Let_def handle_row row_ok_def [of _ _ "_\<lparr>cli_sIdx := 0\<rparr>"])

section \<open>The history\<close>

lemma map_filter_snoc: "List.map_filter f (xs @ [x]) = List.map_filter f xs @ (case f x of Some y \<Rightarrow> [y] | None \<Rightarrow> [])"
  by (simp add: List.map_filter_def split: option.split)

lemma answer_not_input [simp]: "input_text (answer_line out) = None"
  by (cases out) simp_all

definition recall_ok :: "cli_state \<Rightarrow> bool" where
  "recall_ok st \<longleftrightarrow> cli_hIdx st = -1 \<or> cli_inputs st = []
     \<or> 0 \<le> cli_hIdx st \<and> cli_hIdx st < int (length (cli_inputs st))"

lemma inputs_fields [simp]:
  "cli_inputs (st\<lparr>cli_open := b\<rparr>) = cli_inputs st" "cli_inputs (st\<lparr>cli_sIdx := i\<rparr>) = cli_inputs st"
  "cli_inputs (st\<lparr>cli_input := t\<rparr>) = cli_inputs st" "cli_inputs (st\<lparr>cli_hIdx := h\<rparr>) = cli_inputs st"
  "cli_inputs (st\<lparr>cli_history := []\<rparr>) = []" "cli_inputs (cli_answered out st) = cli_inputs st"
  by (simp_all add: cli_inputs_def cli_answered_def map_filter_snoc)

lemma recall_ok_fields [simp]:
  "recall_ok (st\<lparr>cli_open := b\<rparr>) = recall_ok st" "recall_ok (st\<lparr>cli_sIdx := i\<rparr>) = recall_ok st"
  "recall_ok (st\<lparr>cli_input := t\<rparr>) = recall_ok st" "recall_ok (st\<lparr>cli_history := []\<rparr>)"
  "recall_ok (st\<lparr>cli_hIdx := - 1\<rparr>)"
  by (simp_all add: recall_ok_def)

lemma submit_recall: "recall_ok st \<Longrightarrow> recall_ok (cli_submit st)"
  by (auto simp: cli_submit_def Let_def recall_ok_def)

lemma keys_recall:
  "recall_ok st \<Longrightarrow> recall_ok (key_up sugg st)" "recall_ok st \<Longrightarrow> recall_ok (key_down sugg st)"
  "recall_ok st \<Longrightarrow> recall_ok (key_tab sugg st)"
  by (auto simp: key_up_def key_down_def key_tab_def recall_ok_def recall_def applySuggestion_def)

lemma step_recall: "recall_ok st \<Longrightarrow> recall_ok (cli_step cat role st e)"
proof -
  assume ok: "recall_ok st"
  have "recall_ok (cli_handle sugg e st)" for sugg
  proof (cases e)
    case (Pressed k)
    with ok show ?thesis by (cases k) (simp_all add: keys_recall submit_recall)
  qed (use ok in \<open>auto simp: submit_recall applySuggestion_def split: option.split\<close>,
       auto simp: recall_ok_def cli_answered_def cli_inputs_def map_filter_snoc)
  then show ?thesis by (simp add: cli_step_def Let_def)
qed

text \<open>The transcript: commands and answers take turns, and a command is the last line exactly while
  its answer is awaited.\<close>

definition is_input :: "cli_line \<Rightarrow> bool" where
  "is_input l \<longleftrightarrow> input_text l \<noteq> None"

definition transcript_ok :: "cli_line list \<Rightarrow> bool \<Rightarrow> bool" where
  "transcript_ok h busy \<longleftrightarrow> successively (\<lambda>a b. is_input a \<noteq> is_input b) h \<and> (h = [] \<or> busy = is_input (last h))"

lemma transcript_grows:
  "transcript_ok h busy \<Longrightarrow> is_input l = (\<not> busy) \<Longrightarrow> transcript_ok (h @ [l]) (\<not> busy)"
  by (auto simp: transcript_ok_def successively_append_iff)

lemma submit_transcript:
  "transcript_ok (cli_history st) (cli_busy st) \<Longrightarrow> transcript_ok (cli_history (cli_submit st)) (cli_busy (cli_submit st))"
  using transcript_grows [of "cli_history st" False "CliInput (trim (cli_input st))"]
  by (auto simp: cli_submit_def Let_def is_input_def)

lemma keys_transcript [simp]:
  "cli_history (key_up sugg st) = cli_history st" "cli_busy (key_up sugg st) = cli_busy st"
  "cli_history (key_down sugg st) = cli_history st" "cli_busy (key_down sugg st) = cli_busy st"
  "cli_history (key_tab sugg st) = cli_history st" "cli_busy (key_tab sugg st) = cli_busy st"
  by (simp_all add: key_up_def key_down_def key_tab_def recall_def applySuggestion_def)

lemma step_transcript:
  assumes ok: "transcript_ok (cli_history st) (cli_busy st)"
  shows "transcript_ok (cli_history (cli_step cat role st e)) (cli_busy (cli_step cat role st e))"
proof -
  have "transcript_ok (cli_history (cli_handle sugg e st)) (cli_busy (cli_handle sugg e st))" for sugg
  proof (cases e)
    case (Pressed k)
    have "transcript_ok (cli_history (cli_submit (st\<lparr>cli_open := False\<rparr>))) (cli_busy (cli_submit (st\<lparr>cli_open := False\<rparr>)))"
      by (rule submit_transcript) (simp add: ok)
    with ok Pressed show ?thesis by (cases "cli_busy st"; cases k) simp_all
  next
    case (CliAnswer out)
    with ok transcript_grows [of "cli_history st" True "answer_line out"] show ?thesis
      by (cases "cli_busy st") (auto simp: cli_answered_def is_input_def)
  next
    case RunClicked
    with ok show ?thesis by (simp add: submit_transcript)
  next
    case ClearClicked
    show ?thesis by (simp add: ClearClicked transcript_ok_def)
  next
    case (Typed t)
    with ok show ?thesis by (cases "cli_busy st") simp_all
  qed (use ok in \<open>simp_all add: applySuggestion_def split: option.split\<close>)
  then show ?thesis by (simp add: cli_step_def Let_def)
qed


section \<open>Behaviours worth knowing\<close>

definition sample_catalog :: cli_catalog where
  "sample_catalog = \<lparr>topLevelCommands = map (\<lambda>c. \<lparr>ce_text = c, ce_hint = None, ce_roles = None\<rparr>) [''ver'', ''advert'', ''clock''],
     configKeys = map (\<lambda>c. \<lparr>ce_text = c, ce_hint = None, ce_roles = None\<rparr>) [''name'', ''radio'']\<rparr>"

definition two_commands :: "cli_event list" where
  "two_commands = [Focused, Typed ''clock'', Pressed KEnter, CliAnswer (Replied ''12:00''), Focused,
     Typed ''ver'', Pressed KEnter, CliAnswer (Replied ''v1''), Focused]"

text \<open>With a catalogue, recalling a command fills the input and so opens its suggestions, since the focus
  that follows an answer left the menu open: the next arrow up moves in the menu and the older
  commands cannot be reached.\<close>

lemma recall_trapped:
  "cli_input (cli_run sample_catalog (Some CliRepeater) (two_commands @ [Pressed KUp, Pressed KUp])) = ''ver''
   \<and> cli_input (cli_run sample_catalog None (two_commands @ [Pressed KUp, Pressed KUp])) = ''clock''"
  by code_simp

text \<open>A tab after an escape reopens the menu on the row that was highlighted, not on the first.\<close>

lemma tab_keeps_row:
  "cli_sIdx (cli_run sample_catalog (Some CliRepeater) [Typed ''e'', Pressed KDown, Pressed KEscape, Pressed KTab]) = 1"
  by code_simp


end
