(* ===== verification/RouteEditor.thy ===== *)
theory RouteEditor
  imports LinkPath JsSort ApiClient
begin

text \<open>
  \<open>components/HopPicker.tsx\<close> and \<open>components/PathDialog.tsx\<close>: the editor of a contact's route. A route
  is a hex string of hop hashes at one to three bytes each; it is edited as a list of repeaters or
  as hex. The great-circle distance and \<open>localeCompare\<close> are parameters of the repeater list's order.
\<close>

record hop_peer = path_peer +
  hp_snr :: "rat option"
  hp_lat :: int  \<comment> \<open>micro-degrees\<close>
  hp_lon :: int

section \<open>The repeater list\<close>

datatype peer_sort = ByName | ByRecent | BySignal | ByDistance

definition effective_sort :: "peer_sort \<Rightarrow> 'o option \<Rightarrow> peer_sort" where
  "effective_sort chosen origin = (if chosen = ByDistance \<and> origin = None then ByName else chosen)"

fun far_minus :: "rat option \<Rightarrow> rat option \<Rightarrow> rat" where
  \<comment> \<open>a difference where \<open>None\<close> is \<open>Infinity\<close>, as a comparator reads it: \<open>Infinity - Infinity\<close> is \<open>NaN\<close>, a tie\<close>
  "far_minus (Some a) (Some b) = a - b"
| "far_minus None (Some b) = 1"
| "far_minus (Some a) None = -1"
| "far_minus None None = 0"

definition distFor :: "('o \<Rightarrow> rat \<Rightarrow> rat \<Rightarrow> rat) \<Rightarrow> 'o \<Rightarrow> hop_peer \<Rightarrow> rat option" where
  "distFor haversineKm og p =
     (if hp_lat p = 0 \<and> hp_lon p = 0 then None
      else Some (haversineKm og (of_int (hp_lat p) / 10 ^ 6) (of_int (hp_lon p) / 10 ^ 6)))"

definition by_name :: "(string \<Rightarrow> string \<Rightarrow> rat) \<Rightarrow> hop_peer \<Rightarrow> hop_peer \<Rightarrow> rat" where
  "by_name localeCompare a b =
     (let an = to_lower (trim (pp_name a)); bn = to_lower (trim (pp_name b)) in
      if (an = []) \<noteq> (bn = []) then (if an \<noteq> [] then -1 else 1)
      else if localeCompare an bn \<noteq> 0 then localeCompare an bn
      else localeCompare (pp_pubkey a) (pp_pubkey b))"

definition peer_order ::
    "('o \<Rightarrow> rat \<Rightarrow> rat \<Rightarrow> rat) \<Rightarrow> (string \<Rightarrow> string \<Rightarrow> rat) \<Rightarrow> peer_sort \<Rightarrow> 'o option \<Rightarrow> hop_peer \<Rightarrow> hop_peer \<Rightarrow> rat" where
  "peer_order haversineKm localeCompare srt origin a b =
     (case (srt, origin) of
        (ByDistance, Some og) \<Rightarrow> far_minus (distFor haversineKm og a) (distFor haversineKm og b)
      | (BySignal, _) \<Rightarrow> far_minus (map_option uminus (hp_snr a)) (map_option uminus (hp_snr b))
      | (ByRecent, _) \<Rightarrow> localeCompare (nullish (pp_lastSeen b) []) (nullish (pp_lastSeen a) [])
      | _ \<Rightarrow> by_name localeCompare a b)"

definition matches_filter :: "string \<Rightarrow> hop_peer \<Rightarrow> bool" where
  "matches_filter flt p \<longleftrightarrow>
     (let f = to_lower (trim flt) in
      f = [] \<or> str_includes (to_lower (pp_name p)) f \<or> str_includes (to_lower (pp_pubkey p)) f)"

definition filteredPeers ::
    "('o \<Rightarrow> rat \<Rightarrow> rat \<Rightarrow> rat) \<Rightarrow> (string \<Rightarrow> string \<Rightarrow> rat) \<Rightarrow> string \<Rightarrow> peer_sort \<Rightarrow> 'o option \<Rightarrow> hop_peer list \<Rightarrow> hop_peer list" where
  "filteredPeers haversineKm localeCompare flt srt origin peers =
     js_sort (peer_order haversineKm localeCompare srt origin) (filter (matches_filter flt) peers)"

section \<open>The hops\<close>

definition moveAt :: "nat \<Rightarrow> int \<Rightarrow> 'a list \<Rightarrow> 'a list" where  \<comment> \<open>\<open>dir\<close> is -1 or 1\<close>
  "moveAt idx dir prev =
     (let j = int idx + dir in
      if j < 0 \<or> j \<ge> int (length prev) then prev
      else prev[idx := prev ! nat j, nat j := prev ! idx])"

definition drag_to :: "nat \<Rightarrow> nat \<Rightarrow> 'a list \<Rightarrow> 'a list" where  \<comment> \<open>the two \<open>splice\<close> calls\<close>
  "drag_to src dst prev =
     (let rest = remove_at src prev in take dst rest @ prev ! src # drop dst rest)"

definition dragOverToIndex :: "nat \<Rightarrow> nat option \<times> 'a list \<Rightarrow> nat option \<times> 'a list" where
  \<comment> \<open>the reference to the dragged chip, and the hops\<close>
  "dragOverToIndex toIdx s =
     (case fst s of
        None \<Rightarrow> s
      | Some src \<Rightarrow> if src = toIdx then s else (Some toIdx, drag_to src toIdx (snd s)))"

definition remove_hop :: "nat \<Rightarrow> 'a list \<Rightarrow> 'a list" where
  "remove_hop idx prev = remove_at idx prev"

definition chip_keys :: "hop_peer list \<Rightarrow> string list" where
  "chip_keys hops = map (\<lambda>i. pp_pubkey (hops ! i) @ ''-''
     @ show_nat (length (filter (\<lambda>h. pp_pubkey h = pp_pubkey (hops ! i)) (take i hops)))) [0..<length hops]"

definition chip_hash :: "int \<Rightarrow> hop_peer \<Rightarrow> string" where
  "chip_hash hashSize peer = to_lower (slice 0 (hashSize * 2) (pp_pubkey peer))"

definition chip_others :: "int \<Rightarrow> hop_peer list \<Rightarrow> hop_peer \<Rightarrow> int" where
  "chip_others hashSize peers peer =
     (case map_of (buildPeerCandidatesByHash (map path_peer.truncate peers) hashSize) (chip_hash hashSize peer) of
        Some ps \<Rightarrow> int (length ps) | None \<Rightarrow> 1) - 1"

section \<open>The dialog\<close>

record route_info =
  outPath :: string
  pi_hops :: nat
  hasPath :: bool
  directNeighbor :: bool
  outPathHashSize :: nat
  bytesPerHop :: nat

datatype route_mode = FloodRoute | DirectRoute | PathRoute

definition is_separator :: "char \<Rightarrow> bool" where
  "is_separator c \<longleftrightarrow> is_space c \<or> c = CHR '',''"

definition strip_separators :: "string \<Rightarrow> string" where  \<comment> \<open>\<open>s.replace(/[\s,]/g, "")\<close>\<close>
  "strip_separators s = filter (\<lambda>c. \<not> is_separator c) s"

function chunks :: "nat \<Rightarrow> string \<Rightarrow> string list" where  \<comment> \<open>the matches of \<open>/.{1,n}/g\<close>\<close>
  "chunks n s = (if n = 0 \<or> s = [] then [] else take n s # chunks n (drop n s))"
  by pat_completeness auto
termination
  by (relation "measure (\<lambda>(n, s). length s)") auto

declare chunks.simps [simp del]

definition splitHops :: "string \<Rightarrow> nat \<Rightarrow> string" where
  "splitHops hex hs = join '','' (chunks (hs * 2) (to_upper (strip_separators hex)))"

definition plural_s :: "nat \<Rightarrow> string" where
  "plural_s n = (if n = 1 then [] else ''s'')"

definition describeRoute :: "route_info option \<Rightarrow> string" where
  "describeRoute info =
     (case info of None \<Rightarrow> ''unknown''
      | Some i \<Rightarrow> if \<not> hasPath i then ''flood'' else if directNeighbor i then ''direct''
          else show_nat (pi_hops i) @ '' hop'' @ plural_s (pi_hops i))"

definition bytes_per_hop :: "nat \<Rightarrow> string" where
  "bytes_per_hop n = show_nat n @ '' byte'' @ plural_s n @ '' per hop''"

definition describeSize :: "route_info \<Rightarrow> string" where
  "describeSize i =
     (if \<not> hasPath i \<or> directNeighbor i \<or> outPathHashSize i = bytesPerHop i then bytes_per_hop (bytesPerHop i)
      else bytes_per_hop (outPathHashSize i) @ '' (floods at '' @ show_nat (bytesPerHop i) @ '')'')"

definition is_lower_hex :: "char \<Rightarrow> bool" where  \<comment> \<open>the class \<open>[0-9a-f]\<close>\<close>
  "is_lower_hex c \<longleftrightarrow> is_digit c \<or> c \<in> set ''abcdef''"

definition pathValid :: "nat \<Rightarrow> string \<Rightarrow> bool" where
  \<comment> \<open>lengths are in half bytes; a size is at least one\<close>
  "pathValid hashSize hex \<longleftrightarrow> hex \<noteq> [] \<and> even (length hex) \<and> list_all is_lower_hex hex
     \<and> length hex div 2 mod hashSize = 0 \<and> length hex div 2 div hashSize \<le> 63 \<and> length hex div 2 \<le> 64"

datatype hex_verdict = EnterHops | WholeHops nat | DigitsOnly | NotWhole nat | TooLong

definition HexVerdict :: "string \<Rightarrow> bool \<Rightarrow> nat \<Rightarrow> hex_verdict" where
  "HexVerdict hex valid hashSize =
     (if hex = [] then EnterHops
      else if valid then WholeHops (length hex div 2 div hashSize)
      else if \<not> list_all is_lower_hex hex then DigitsOnly
      else if length hex mod (2 * hashSize) \<noteq> 0 then NotWhole hashSize
      else TooLong)"

record path_editor =
  pe_info :: "route_info option"
  pe_peers :: "hop_peer list"
  pe_mode :: route_mode
  pe_manual :: bool
  pe_hops :: "hop_peer list"
  pe_manualHex :: string
  pe_hashSize :: nat
  pe_seeded :: "route_mode \<times> nat \<times> string"
  pe_loadError :: "string option"

definition editor_start :: path_editor where
  "editor_start = \<lparr>pe_info = None, pe_peers = [], pe_mode = FloodRoute, pe_manual = False, pe_hops = [],
     pe_manualHex = [], pe_hashSize = 1, pe_seeded = (FloodRoute, 1, []), pe_loadError = None\<rparr>"

definition all_named :: "resolved_hop list \<Rightarrow> bool" where
  "all_named resolved \<longleftrightarrow> list_all (\<lambda>h. rh_peer h \<noteq> None \<and> rh_alternatives h = []) resolved"

definition peers_of :: "hop_peer list \<Rightarrow> resolved_hop list \<Rightarrow> hop_peer list" where
  \<comment> \<open>\<open>resolved.map((h) => peers.find(...)).filter(Boolean)\<close>\<close>
  "peers_of peers resolved =
     List.map_filter (\<lambda>h. find (\<lambda>r. pp_pubkey r = pp_pubkey (the (rh_peer h))) peers) resolved"

definition or_one :: "nat \<Rightarrow> nat" where  \<comment> \<open>\<open>n || 1\<close>\<close>
  "or_one n = (if n = 0 then 1 else n)"

definition seed :: "route_info option \<Rightarrow> hop_peer list \<Rightarrow> path_editor \<Rightarrow> path_editor" where
  "seed p repeaters st =
     (let m = (case p of None \<Rightarrow> FloodRoute
          | Some i \<Rightarrow> if \<not> hasPath i then FloodRoute else if directNeighbor i then DirectRoute else PathRoute);
          hs = or_one (case p of None \<Rightarrow> 0 | Some i \<Rightarrow> if m = PathRoute then outPathHashSize i else bytesPerHop i);
          out = (case p of None \<Rightarrow> [] | Some i \<Rightarrow> outPath i);
          resolved = (if m = PathRoute then resolveHops out (Some (int hs)) (map path_peer.truncate repeaters) else []);
          named = all_named resolved in
      st\<lparr>pe_mode := m, pe_hashSize := hs,
         pe_seeded := (m, hs, if m = PathRoute then to_lower out else []),
         pe_manualHex := splitHops out hs, pe_manual := \<not> named,
         pe_hops := (if named then peers_of repeaters resolved else [])\<rparr>)"

definition pathHex :: "path_editor \<Rightarrow> string" where
  "pathHex st =
     (if pe_manual st then to_lower (strip_separators (pe_manualHex st))
      else to_lower (concat (map (\<lambda>h. slice 0 (int (pe_hashSize st) * 2) (pp_pubkey h)) (pe_hops st))))"

definition changed :: "path_editor \<Rightarrow> bool" where
  "changed st \<longleftrightarrow> (case pe_seeded st of (m, hs, hex) \<Rightarrow>
     pe_mode st \<noteq> m \<or> pe_hashSize st \<noteq> hs \<or> pe_mode st = PathRoute \<and> pathHex st \<noteq> hex)"

section \<open>Loading and saving\<close>

definition path_url :: "string \<Rightarrow> string \<Rightarrow> string" where
  "path_url companion pubkey =
     ''/api/companions/'' @ encode_uri companion @ ''/contacts/'' @ encode_uri pubkey @ ''/path''"

definition body_error :: "string \<Rightarrow> http_response \<Rightarrow> string" where  \<comment> \<open>\<open>body?.error ?? d\<close>\<close>
  "body_error d r = (case Option.bind (resp_json r) (json_field ''error'') of Some (JStr s) \<Rightarrow> s | _ \<Rightarrow> d)"

text \<open>What a load yields: the route and the known peers, or the message of what went wrong.\<close>

type_synonym load_result = "string + route_info \<times> hop_peer list"

definition load_result ::
    "(http_response \<Rightarrow> route_info) \<Rightarrow> (http_response \<Rightarrow> hop_peer list) \<Rightarrow> (api_error \<Rightarrow> string) \<Rightarrow>
     fetch_outcome \<Rightarrow> fetch_outcome \<Rightarrow> load_result" where
  "load_result info_of peers_of_body message path_out peers_out =
     (case (path_out, peers_out) of
        (Some r, Some ps) \<Rightarrow>
          if resp_ok r then Inr (info_of r, if resp_ok ps then peers_of_body ps else [])
          else Inl (body_error (''the server answered '' @ show_nat (resp_status r)) r)
      | (Some r, None) \<Rightarrow>
          Inl (if resp_ok r then message NetworkFailure
               else body_error (''the server answered '' @ show_nat (resp_status r)) r)
      | (None, _) \<Rightarrow> Inl (message NetworkFailure))"

definition open_editor :: "path_editor \<Rightarrow> path_editor" where
  "open_editor st = seed None [] (st\<lparr>pe_info := None, pe_loadError := None\<rparr>)"

definition loaded :: "route_info \<Rightarrow> hop_peer list \<Rightarrow> path_editor \<Rightarrow> path_editor" where
  "loaded p ps st = st\<lparr>pe_info := Some p, pe_loadError := None,
     pe_peers := filter (\<lambda>x. pp_type x = Some ''REPEATER'') ps\<rparr>"

definition load_answered :: "bool \<Rightarrow> load_result \<Rightarrow> path_editor \<Rightarrow> path_editor" where
  \<comment> \<open>opening and resetting seed the editor from the answer, the refresh button does not\<close>
  "load_answered reseed ans st =
     (case ans of
        Inl msg \<Rightarrow> st\<lparr>pe_loadError := Some msg\<rparr>
      | Inr (p, ps) \<Rightarrow>
          (let st1 = loaded p ps st in if reseed then seed (Some p) (pe_peers st1) st1 else st1))"

definition change_size :: "nat \<Rightarrow> path_editor \<Rightarrow> path_editor" where
  "change_size hs st = st\<lparr>pe_manualHex := splitHops (pe_manualHex st) hs, pe_hashSize := hs\<rparr>"

definition pick_mode :: "path_editor \<Rightarrow> path_editor" where
  "pick_mode st =
     (let resolved = (if pe_manual st
          then resolveHops (pathHex st) (Some (int (pe_hashSize st))) (map path_peer.truncate (pe_peers st)) else []) in
      (if resolved \<noteq> [] \<and> all_named resolved then st\<lparr>pe_hops := peers_of (pe_peers st) resolved\<rparr> else st)
        \<lparr>pe_manual := False\<rparr>)"

definition manual_mode :: "path_editor \<Rightarrow> path_editor" where
  "manual_mode st =
     (if \<not> pe_manual st \<and> pe_hops st \<noteq> []
      then st\<lparr>pe_manualHex := splitHops (pathHex st) (pe_hashSize st)\<rparr> else st)\<lparr>pe_manual := True\<rparr>"

definition can_save :: "bool \<Rightarrow> path_editor \<Rightarrow> bool" where
  "can_save busy st \<longleftrightarrow> \<not> busy \<and> pe_info st \<noteq> None \<and> changed st
     \<and> (pe_mode st \<noteq> PathRoute \<or> pathValid (pe_hashSize st) (pathHex st))"

fun mode_text :: "route_mode \<Rightarrow> string" where
  "mode_text FloodRoute = ''flood''"
| "mode_text DirectRoute = ''direct''"
| "mode_text PathRoute = ''path''"

definition save_request :: "string \<Rightarrow> path_editor \<Rightarrow> http_request" where
  "save_request base st = req PUT base (Some (JObj
     [(''route'', JStr (mode_text (pe_mode st))),
      (''path'', JStr (if pe_mode st = PathRoute then pathHex st else [])),
      (''pathHashSize'', JNum (of_nat (pe_hashSize st)))]))"

definition save_outcome :: "fetch_outcome \<Rightarrow> string + string" where  \<comment> \<open>the toast: an error or a success\<close>
  "save_outcome out =
     (case out of None \<Rightarrow> Inl ''Saving the path failed''
      | Some r \<Rightarrow> if resp_ok r then Inr ''Path saved'' else Inl (body_error ''Saving the path failed'' r))"

definition reset_outcome :: "fetch_outcome \<Rightarrow> string + string" where
  "reset_outcome out =
     (case out of None \<Rightarrow> Inl ''Resetting the path failed''
      | Some r \<Rightarrow> if resp_ok r then Inr ''Path reset to flood'' else Inl ''Resetting the path failed'')"

section \<open>Editing hops keeps them\<close>

lemma mset_remove_at_add: "i < length xs \<Longrightarrow> add_mset (xs ! i) (mset (remove_at i xs)) = mset xs"
  by (metis add_mset_add_single id_take_nth_drop mset.simps(2) mset_append remove_at_def union_mset_add_mset_right)

lemma length_remove_at: "i < length xs \<Longrightarrow> length (remove_at i xs) = length xs - 1"
  by (simp add: remove_at_def)

lemma remove_at_length: "remove_at (length xs) (xs @ y # ys) = xs @ ys"
  by (simp add: remove_at_def)

lemma drag_facts:
  assumes "i < length hops" and "j < length hops"
  shows "mset (drag_to i j hops) = mset hops" "drag_to i j hops ! j = hops ! i"
    "remove_at j (drag_to i j hops) = remove_at i hops"
proof -
  let ?r = "remove_at i hops"
  have len: "length (take j ?r) = j" using assms by (simp add: length_remove_at)
  have "mset (drag_to i j hops) = add_mset (hops ! i) (mset (take j ?r @ drop j ?r))"
    by (simp only: drag_to_def Let_def mset_append mset.simps) simp
  also have "\<dots> = mset hops" using mset_remove_at_add [OF assms(1)] by simp
  finally show "mset (drag_to i j hops) = mset hops" .
  show "drag_to i j hops ! j = hops ! i" using len by (simp add: drag_to_def Let_def nth_append)
  have "remove_at j (take j ?r @ (hops ! i # drop j ?r)) = take j ?r @ drop j ?r"
    using remove_at_length [of "take j ?r" "hops ! i" "drop j ?r"] unfolding len .
  then show "remove_at j (drag_to i j hops) = ?r" by (simp only: drag_to_def Let_def append_take_drop_id)
qed

lemma move_is_permutation:
  "idx < length hops \<Longrightarrow> mset (moveAt idx dir hops) = mset hops"
  by (auto simp: moveAt_def Let_def mset_swap)

text \<open>Reordering a route by drag keeps every hop: dropping the chip at \<open>i\<close> onto place \<open>j\<close> gives the same
  hops, with the dragged one at \<open>j\<close> and the others in the order they had; the arrows exchange two
  neighbouring hops and nothing else.\<close>

lemma reorder_keeps_hops:
  assumes "i < length hops" and "j < length hops"
  shows "mset (snd (dragOverToIndex j (Some i, hops))) = mset hops
    \<and> snd (dragOverToIndex j (Some i, hops)) ! j = hops ! i
    \<and> remove_at j (snd (dragOverToIndex j (Some i, hops))) = remove_at i hops
    \<and> mset (moveAt i dir hops) = mset hops"
  using drag_facts [OF assms] move_is_permutation [OF assms(1)] assms by (simp add: dragOverToIndex_def)

lemma reorder_keeps_hops_witness:
  "snd (dragOverToIndex 2 (Some 0, [''a'', ''b'', ''c''])) ! 2 = ''a''
   \<and> mset (moveAt 0 1 [''a'', ''b'', ''c'']) = mset [''a'', ''b'', ''c'']"
  using reorder_keeps_hops [of 0 "[''a'', ''b'', ''c'']" 2 1] by simp


section \<open>Opening on a route\<close>

lemma lower_upper [simp]: "lower_char (upper_char c) = lower_char c"
  by (auto simp: lower_char_def upper_char_def Let_def)

lemma separator_upper [simp]: "is_separator (upper_char c) = is_separator c"
proof (cases "(97 \<le> (of_char c :: nat) \<and> (of_char c :: nat) \<le> 122)
    \<or> (224 \<le> (of_char c :: nat) \<and> (of_char c :: nat) \<le> 254 \<and> (of_char c :: nat) \<noteq> 247)")
  case True
  then have u: "upper_char c = char_of (of_char c - 32 :: nat)" by (auto simp: upper_char_def)
  then have "(of_char (upper_char c) :: nat) = of_char c - 32" using True by auto
  then show ?thesis using True by (auto simp: is_separator_def is_space_def)
next
  case False
  then show ?thesis by (auto simp: upper_char_def Let_def)
qed

lemma chunks_Cons: "n \<noteq> 0 \<Longrightarrow> s \<noteq> [] \<Longrightarrow> chunks n s = take n s # chunks n (drop n s)"
  by (subst chunks.simps) simp

lemma chunks_Nil [simp]: "chunks n [] = []"
  by (subst chunks.simps) simp

lemma concat_chunks: "n \<noteq> 0 \<Longrightarrow> concat (chunks n s) = s"
  by (induction n s rule: chunks.induct) (metis append_take_drop_id chunks_Cons chunks_Nil concat.simps)

lemma strip_join: "strip_separators (join '','' xs) = concat (map strip_separators xs)"
  by (induction xs rule: induct_list012) (simp_all add: strip_separators_def is_separator_def)

lemma strip_concat: "concat (map strip_separators xs) = strip_separators (concat xs)"
  by (induction xs) (simp_all add: strip_separators_def)

lemma strip_idem [simp]: "strip_separators (strip_separators s) = strip_separators s"
  by (simp add: strip_separators_def)

lemma strip_upper: "strip_separators (to_upper s) = to_upper (strip_separators s)"
  by (simp add: strip_separators_def to_upper_def filter_map comp_def)

lemma lower_of_upper [simp]: "to_lower (to_upper s) = to_lower s"
  by (simp add: to_lower_def to_upper_def)

lemma split_hops_reads_back:
  "0 < hs \<Longrightarrow> to_lower (strip_separators (splitHops s hs)) = to_lower (strip_separators s)"
  by (simp add: splitHops_def strip_join strip_concat concat_chunks strip_upper)

lemma find_pubkey:
  assumes "p \<in> set (map path_peer.truncate peers)"
  obtains r where "find (\<lambda>r. pp_pubkey r = pp_pubkey p) peers = Some r" "pp_pubkey r = pp_pubkey p"
proof -
  from assms obtain q where "q \<in> set peers" "pp_pubkey q = pp_pubkey p"
    by (auto simp: path_peer.truncate_def)
  then have "find (\<lambda>r. pp_pubkey r = pp_pubkey p) peers \<noteq> None" by (auto simp: find_None_iff)
  then obtain r where "find (\<lambda>r. pp_pubkey r = pp_pubkey p) peers = Some r" by auto
  moreover from this have "pp_pubkey r = pp_pubkey p" by (auto simp: find_Some_iff)
  ultimately show ?thesis by (rule that)
qed

lemma named_hops_spell_path:
  assumes "list_all (hop_sound n (map path_peer.truncate peers)) rs" and "all_named rs"
  shows "to_lower (concat (map (\<lambda>h. slice 0 (n * 2) (pp_pubkey h)) (peers_of peers rs))) = concat (map rh_hash rs)"
  using assms
proof (induction rs)
  case Nil
  show ?case by (simp add: peers_of_def List.map_filter_def to_lower_def)
next
  case (Cons h rs)
  then obtain p where p: "rh_peer h = Some p" by (auto simp: all_named_def)
  with Cons.prems(1) have s: "p \<in> set (map path_peer.truncate peers)"
      "to_lower (slice 0 (n * 2) (pp_pubkey p)) = rh_hash h"
    by (auto simp: hop_sound_def Let_def)
  from s(1) obtain r where r: "find (\<lambda>r. pp_pubkey r = pp_pubkey p) peers = Some r" "pp_pubkey r = pp_pubkey p"
    by (rule find_pubkey)
  then have "peers_of peers (h # rs) = r # peers_of peers rs"
    by (simp add: peers_of_def List.map_filter_def p)
  moreover have "all_named rs" using Cons.prems(2) by (simp add: all_named_def)
  ultimately show ?case using Cons s r by (simp add: to_lower_append)
qed

lemma resolved_hashes:
  assumes "0 < hs"
  shows "map rh_hash (resolveHops s (Some (int hs)) ps) = hop_chunks (2 * hs) s"
    and "list_all (hop_sound (int hs) ps) (resolveHops s (Some (int hs)) ps)"
  using assms by (simp_all add: resolveHops_def Let_def list_all_iff resolveHop_sound comp_def
      hexToHopHashes_def nat_mult_distrib mult.commute max_def resolveHopPeer_hash)

text \<open>A route the server may hold: whole hops of hex digits.\<close>

definition whole_route :: "route_info \<Rightarrow> bool" where
  "whole_route p \<longleftrightarrow> list_all is_hex (outPath p) \<and> length (outPath p) mod (2 * or_one (outPathHashSize p)) = 0"

lemma hex_not_separator: "is_hex c \<Longrightarrow> \<not> is_separator c"
  by (auto simp: is_hex_def is_digit_def is_separator_def is_space_def)

lemma strip_hex: "list_all is_hex s \<Longrightarrow> strip_separators s = s"
  by (auto simp: strip_separators_def list_all_iff hex_not_separator intro: filter_True)


definition route_of :: "route_info \<Rightarrow> route_mode" where
  "route_of p = (if \<not> hasPath p then FloodRoute else if directNeighbor p then DirectRoute else PathRoute)"

lemma or_one_pos [simp]: "0 < or_one n"
  by (simp add: or_one_def)

lemma seed_fields:
  fixes reps :: "hop_peer list"
  assumes "route_of p = PathRoute"
  defines "hs \<equiv> or_one (outPathHashSize p)"
  defines "rs \<equiv> resolveHops (outPath p) (Some (int hs)) (map path_peer.truncate reps)"
  shows "pe_mode (seed (Some p) reps st) = PathRoute" "pe_hashSize (seed (Some p) reps st) = hs"
    "pe_seeded (seed (Some p) reps st) = (PathRoute, hs, to_lower (outPath p))"
    "pe_manualHex (seed (Some p) reps st) = splitHops (outPath p) hs"
    "pe_manual (seed (Some p) reps st) = (\<not> all_named rs)"
    "pe_hops (seed (Some p) reps st) = (if all_named rs then peers_of reps rs else [])"
  using assms by (auto simp: seed_def Let_def route_of_def split: if_splits)

lemma seed_other:
  assumes "route_of p \<noteq> PathRoute"
  shows "pe_mode (seed (Some p) reps st) = route_of p" "\<not> changed (seed (Some p) reps st)"
  using assms by (auto simp: seed_def changed_def Let_def route_of_def split: if_splits)

lemma seeded_path_hex:
  assumes "whole_route p" and path: "route_of p = PathRoute"
  shows "pathHex (seed (Some p) reps st) = to_lower (outPath p)"
proof -
  define hs where "hs = or_one (outPathHashSize p)"
  define rs where "rs = resolveHops (outPath p) (Some (int hs)) (map path_peer.truncate reps)"
  note f = seed_fields [OF path, where reps = reps and st = st, folded hs_def, folded rs_def]
  have hex: "list_all is_hex (outPath p)" and whole: "length (outPath p) mod (2 * hs) = 0"
    using assms by (simp_all add: whole_route_def hs_def)
  have pos: "0 < hs" by (simp add: hs_def)
  show ?thesis
  proof (cases "all_named rs")
    case True
    have "to_lower (concat (map (\<lambda>h. slice 0 (int hs * 2) (pp_pubkey h)) (peers_of reps rs)))
        = concat (hop_chunks (2 * hs) (outPath p))"
      using named_hops_spell_path [OF _ True] resolved_hashes [OF pos] by (simp add: rs_def)
    also have "\<dots> = to_lower (take (length (outPath p) div (2 * hs) * (2 * hs)) (outPath p))"
      using pos by (simp add: concat_hop_chunks)
    also have "length (outPath p) div (2 * hs) * (2 * hs) = length (outPath p)"
      using whole by (simp add: minus_mod_eq_div_mult [symmetric])
    finally show ?thesis using True f by (simp add: pathHex_def)
  next
    case False
    with f pos hex show ?thesis by (simp add: pathHex_def split_hops_reads_back strip_hex)
  qed
qed

text \<open>The editor opens on the route in use and has nothing to save: for a stored route of whole hops, whether it opens as a
  list of repeaters or as hex, the mode is the route's, the path is the stored one, and no change is reported.\<close>

lemma opening_changes_nothing:
  assumes "whole_route p"
  shows "pe_mode (seed (Some p) reps st) = route_of p
    \<and> \<not> changed (seed (Some p) reps st)
    \<and> (route_of p \<noteq> PathRoute \<or> pathHex (seed (Some p) reps st) = to_lower (outPath p))"
proof (cases "route_of p = PathRoute")
  case True
  with seeded_path_hex [OF assms True] seed_fields [OF True] show ?thesis by (simp add: changed_def)
next
  case False
  with seed_other [OF False] show ?thesis by simp
qed

definition sample_repeater :: "string \<Rightarrow> hop_peer" where
  "sample_repeater k = \<lparr>pp_pubkey = k, pp_name = k, pp_type = Some ''REPEATER'', pp_lastSeen = None,
     hp_snr = None, hp_lat = 0, hp_lon = 0\<rparr>"

definition sample_route :: "string \<Rightarrow> route_info" where
  "sample_route hex = \<lparr>outPath = hex, pi_hops = 2, hasPath = True, directNeighbor = False,
     outPathHashSize = 1, bytesPerHop = 2\<rparr>"

lemma opening_changes_nothing_witness:
  "\<not> changed (seed (Some (sample_route ''A4c1'')) [sample_repeater ''a4ff'', sample_repeater ''C100''] editor_start)
   \<and> map pp_name (pe_hops (seed (Some (sample_route ''A4c1'')) [sample_repeater ''a4ff'', sample_repeater ''C100''] editor_start))
       = [''a4ff'', ''C100'']"
proof -
  have "whole_route (sample_route ''A4c1'')" by code_simp
  note opening_changes_nothing [OF this, of "[sample_repeater ''a4ff'', sample_repeater ''C100'']" editor_start]
  moreover have "map pp_name (pe_hops (seed (Some (sample_route ''A4c1''))
      [sample_repeater ''a4ff'', sample_repeater ''C100''] editor_start)) = [''a4ff'', ''C100'']" by code_simp
  ultimately show ?thesis by blast
qed

section \<open>What may be saved\<close>

lemma valid_path_whole_hops:
  assumes "pathValid hs hex" and "0 < hs"
  shows "concat (hop_chunks (2 * hs) hex) = to_lower hex" "length (hop_chunks (2 * hs) hex) \<le> 63"
    "0 < length (hop_chunks (2 * hs) hex)"
    "HexVerdict hex True hs = WholeHops (length (hop_chunks (2 * hs) hex))"
proof -
  obtain k where k: "length hex = 2 * k" using assms by (auto simp: pathValid_def elim: evenE)
  then have m: "k mod hs = 0" "k div hs \<le> 63" using assms by (simp_all add: pathValid_def)
  have pos: "0 < k" using assms(1) k by (cases hex) (auto simp: pathValid_def)
  have l: "length (hop_chunks (2 * hs) hex) = k div hs" using assms(2) k by (simp add: length_hop_chunks)
  have "length hex div (2 * hs) * (2 * hs) = length hex"
    using k m(1) by (simp add: minus_mod_eq_div_mult [symmetric])
  then show "concat (hop_chunks (2 * hs) hex) = to_lower hex" using assms(2) by (simp add: concat_hop_chunks)
  show "length (hop_chunks (2 * hs) hex) \<le> 63" using l m by simp
  show "0 < length (hop_chunks (2 * hs) hex)" using l m pos assms(2) by (auto simp: div_greater_zero_iff intro: dvd_imp_le)
  show "HexVerdict hex True hs = WholeHops (length (hop_chunks (2 * hs) hex))"
    using l k assms by (auto simp: HexVerdict_def pathValid_def)
qed

text \<open>The dialog stays mounted while the contact under it changes, and an answer is not matched with
  the contact it was asked for: the first contact's late answer replaces the second's route, and a
  change then saved sends that route to the second.\<close>

lemma late_route_saved:
  "(let st = change_size 2 (load_answered True (Inr (sample_route ''a4c1'', []))
        (load_answered True (Inr (sample_route ''0707'', [])) (open_editor editor_start))) in
    can_save False st
    \<and> save_request (path_url ''me'' ''07'') st = req PUT (path_url ''me'' ''07'') (Some (JObj
        [(''route'', JStr ''path''), (''path'', JStr ''a4c1''), (''pathHashSize'', JNum 2)])))"
  by code_simp


end
