(* ===== verification/Regions.thy ===== *)
theory Regions
  imports Packets ApiClient MapGeo
begin

text \<open>
  Flood regions: \<open>components/RegionTree.tsx\<close> (the list as a tree, where a region may move, which names
  are allowed), \<open>RegionListEditor.tsx\<close>, \<open>RegionSelect.tsx\<close> (which scope a send resolves to) and
  \<open>RegionPicker.tsx\<close>. The recursion of \<open>regionTree\<close> is bounded by fuel: \<open>None\<close> is the stack overflow of
  a walk that does not end; \<open>Some\<close> is proved for every list of distinct names.
\<close>

record region_node =
  rn_name :: string
  rn_parent :: string

section \<open>The tree\<close>

definition children :: "region_node list \<Rightarrow> string \<Rightarrow> region_node list" where
  "children regions nm = filter (\<lambda>c. rn_parent c = nm \<and> rn_name c \<noteq> ''*'') regions"

fun region_walk ::
    "nat \<Rightarrow> region_node list \<Rightarrow> region_node list \<Rightarrow> nat \<Rightarrow> (region_node \<times> nat) list option" where
  "region_walk fuel regions [] depth = Some []"
| "region_walk 0 regions (r # rs) depth = None"
| "region_walk (Suc fuel) regions (r # rs) depth =
     (case region_walk fuel regions (children regions (rn_name r)) (depth + 1) of
        None \<Rightarrow> None
      | Some below \<Rightarrow>
          map_option (\<lambda>rest. (r, depth) # below @ rest) (region_walk (Suc fuel) regions rs depth))"

definition top_level :: "region_node list \<Rightarrow> region_node list" where
  "top_level regions =
     filter (\<lambda>r. rn_name r \<noteq> ''*'' \<and> (rn_parent r = ''*'' \<or> rn_parent r \<notin> rn_name ` set regions)) regions"

definition names_below :: "nat \<Rightarrow> (region_node \<times> nat) list \<Rightarrow> string list" where
  \<comment> \<open>the loop over the rows that follow, while they are deeper\<close>
  "names_below depth later = map (rn_name \<circ> fst) (takeWhile (\<lambda>row. depth < snd row) later)"

definition row_under :: "(region_node \<times> nat) list \<Rightarrow> nat \<Rightarrow> string list" where
  "row_under rows i =
     (let row = rows ! i; below = names_below (snd row) (drop (Suc i) rows) in
      ''*'' # filter (\<lambda>n. n \<noteq> rn_name (fst row) \<and> n \<notin> set below) (map (rn_name \<circ> fst) rows))"

definition regionTree :: "nat \<Rightarrow> region_node list \<Rightarrow> (region_node \<times> nat \<times> string list) list option" where
  "regionTree fuel regions =
     map_option (\<lambda>rows. map (\<lambda>i. (fst (rows ! i), snd (rows ! i), row_under rows i)) [0..<length rows])
       (region_walk fuel regions (top_level regions) 0)"

definition underLabel :: "string \<Rightarrow> string" where
  "underLabel parent = (if parent = ''*'' then ''top level'' else parent)"

definition name_byte_ok :: "bool \<Rightarrow> nat \<Rightarrow> bool" where
  "name_byte_ok repeater b \<longleftrightarrow> b = 45 \<or> 48 \<le> b \<and> b \<le> 57 \<or> 65 \<le> b \<or> repeater \<and> (b = 35 \<or> b = 36)"

definition regionNameError :: "string \<Rightarrow> bool \<Rightarrow> string option" where
  "regionNameError nm repeater =
     (if nm = ''*'' then Some ''* is traffic with no region, not a name''
      else let bytes = concat (map utf8_bytes nm) in
        if length bytes > 30 then Some ''at most 30 bytes''
        else (case find (\<lambda>b. \<not> name_byte_ok repeater b) bytes of
            None \<Rightarrow> None
          | Some b \<Rightarrow> Some (if b = 32 then ''no spaces'' else ''can't contain '' @ [char_of b])))"

definition move_region :: "string \<Rightarrow> string \<Rightarrow> region_node list \<Rightarrow> region_node list" where
  \<comment> \<open>what the server makes of a move\<close>
  "move_region nm parent regions =
     map (\<lambda>r. if rn_name r = nm then r\<lparr>rn_parent := parent\<rparr> else r) regions"

section \<open>What the walk visits\<close>

text \<open>A region is placed at a depth when its chain of parents ends at the top after so many steps.\<close>

inductive placed :: "region_node list \<Rightarrow> region_node \<Rightarrow> nat \<Rightarrow> bool" for regions where
  top: "r \<in> set (top_level regions) \<Longrightarrow> placed regions r 0"
| sub: "placed regions p d \<Longrightarrow> r \<in> set (children regions (rn_name p)) \<Longrightarrow> placed regions r (Suc d)"

inductive_cases placed_0: "placed regions r 0"
inductive_cases placed_Suc: "placed regions r (Suc d)"

text \<open>The rows below a region: those reached from it.\<close>

inductive beneath :: "region_node list \<Rightarrow> region_node \<Rightarrow> region_node \<Rightarrow> bool" for regions where
  child: "c \<in> set (children regions (rn_name a)) \<Longrightarrow> beneath regions a c"
| deeper: "beneath regions a b \<Longrightarrow> c \<in> set (children regions (rn_name b)) \<Longrightarrow> beneath regions a c"

lemma children_in [dest]: "c \<in> set (children regions nm) \<Longrightarrow> c \<in> set regions \<and> rn_parent c = nm \<and> rn_name c \<noteq> ''*''"
  by (simp add: children_def)

lemma top_in [dest]: "r \<in> set (top_level regions) \<Longrightarrow> r \<in> set regions \<and> rn_name r \<noteq> ''*''"
  by (simp add: top_level_def)

lemma placed_in: "placed regions r d \<Longrightarrow> r \<in> set regions \<and> rn_name r \<noteq> ''*''"
  by (induction rule: placed.induct) auto

text \<open>With distinct names the depth of a region is its own.\<close>

definition distinct_names :: "region_node list \<Rightarrow> bool" where
  "distinct_names regions \<longleftrightarrow> distinct (map rn_name regions)"

lemma same_name:
  "distinct_names regions \<Longrightarrow> r \<in> set regions \<Longrightarrow> s \<in> set regions \<Longrightarrow> rn_name r = rn_name s \<Longrightarrow> r = s"
  by (auto simp: distinct_names_def distinct_map inj_on_def)

lemma child_not_top:
  "c \<in> set (children regions (rn_name p)) \<Longrightarrow> p \<in> set regions \<Longrightarrow> rn_name p \<noteq> ''*'' \<Longrightarrow> c \<notin> set (top_level regions)"
  by (auto simp: children_def top_level_def)

lemma placed_unique:
  "distinct_names regions \<Longrightarrow> placed regions r d \<Longrightarrow> placed regions r e \<Longrightarrow> d = e"
proof (induction d arbitrary: r e)
  case 0
  then have r: "r \<in> set (top_level regions)" by (auto elim: placed_0)
  show ?case
  proof (cases e)
    case (Suc f)
    with "0.prems"(3) obtain q where "placed regions q f" "r \<in> set (children regions (rn_name q))"
      by (auto elim: placed_Suc)
    with r show ?thesis using child_not_top placed_in by blast
  qed simp
next
  case (Suc d)
  then obtain p where p: "placed regions p d" "r \<in> set (children regions (rn_name p))" by (auto elim: placed_Suc)
  have "r \<notin> set (top_level regions)" using p child_not_top placed_in by blast
  then have "e \<noteq> 0" using Suc.prems(3) by (metis placed_0)
  then obtain f where f: "e = Suc f" by (cases e) simp_all
  with Suc.prems(3) obtain q where q: "placed regions q f" "r \<in> set (children regions (rn_name q))"
    by (auto elim: placed_Suc)
  have "rn_name p = rn_name q" using p(2) q(2) children_in by metis
  then have "p = q" using p(1) q(1) Suc.prems(1) placed_in same_name by metis
  with Suc.IH [OF Suc.prems(1) p(1)] q(1) f show ?case by simp
qed

section \<open>The walk ends\<close>

lemma placed_below: "placed regions r d \<Longrightarrow> e \<le> d \<Longrightarrow> \<exists>s. placed regions s e"
  by (induction rule: placed.induct) (auto intro: placed.intros simp: le_Suc_eq)

lemma depth_bound:
  assumes "distinct_names regions" and "placed regions r d"
  shows "d < length regions"
proof -
  define depth where "depth s = (THE e. placed regions s e)" for s
  have depth: "depth s = e" if "placed regions s e" for s e
    unfolding depth_def using that placed_unique [OF assms(1)] by blast
  have "{..d} \<subseteq> depth ` set regions"
  proof
    fix e assume "e \<in> {..d}"
    then obtain s where "placed regions s e" using placed_below [OF assms(2)] by auto
    then show "e \<in> depth ` set regions" using depth placed_in by blast
  qed
  then have "card {..d} \<le> card (depth ` set regions)" by (intro card_mono) simp_all
  also have "\<dots> \<le> card (set regions)" by (rule card_image_le) simp
  also have "\<dots> \<le> length regions" by (rule card_length)
  finally show ?thesis by simp
qed

lemma walk_ends:
  "distinct_names regions \<Longrightarrow> \<forall>r\<in>set level. placed regions r d \<Longrightarrow> length regions \<le> fuel + d \<Longrightarrow>
   \<exists>rows. region_walk fuel regions level d = Some rows"
proof (induction fuel regions level d rule: region_walk.induct)
  case (2 regions r rs d)
  then have "d < length regions" by (intro depth_bound [of regions r]) simp_all
  with "2.prems" show ?case by simp
next
  case (3 fuel regions r rs d)
  have "\<forall>c\<in>set (children regions (rn_name r)). placed regions c (d + 1)"
    using "3.prems"(2) by (auto intro: placed.sub)
  with "3.IH"(1) "3.prems"(1,3) obtain below where
    "region_walk fuel regions (children regions (rn_name r)) (d + 1) = Some below" by auto
  moreover from this "3.IH"(2) "3.prems" obtain rest where
    "region_walk (Suc fuel) regions rs d = Some rest" by auto
  ultimately show ?case by simp
qed simp

section \<open>The rows\<close>

text \<open>The graph of the walk: a level's rows are each region followed by the rows of its children.\<close>

inductive forest :: "region_node list \<Rightarrow> region_node list \<Rightarrow> nat \<Rightarrow> (region_node \<times> nat) list \<Rightarrow> bool"
  for regions where
  none: "forest regions [] d []"
| tree: "forest regions (children regions (rn_name r)) (Suc d) below \<Longrightarrow> forest regions rs d rest \<Longrightarrow>
    forest regions (r # rs) d ((r, d) # below @ rest)"

lemma walk_forest: "region_walk fuel regions level d = Some rows \<Longrightarrow> forest regions level d rows"
  by (induction fuel regions level d arbitrary: rows rule: region_walk.induct)
     (auto intro: forest.intros split: option.splits)

lemma forest_depth: "forest regions level d rows \<Longrightarrow> row \<in> set rows \<Longrightarrow> d \<le> snd row"
  by (induction arbitrary: row rule: forest.induct) force+

lemma forest_hd: "forest regions level d rows \<Longrightarrow> rows = [] \<or> snd (hd rows) = d"
  by (induction rule: forest.induct) auto

lemma beneath_unfold:
  "beneath regions a x \<longleftrightarrow> (\<exists>c\<in>set (children regions (rn_name a)). x = c \<or> beneath regions c x)"
proof
  show "beneath regions a x \<Longrightarrow> \<exists>c\<in>set (children regions (rn_name a)). x = c \<or> beneath regions c x"
    by (induction rule: beneath.induct) (auto intro: beneath.intros)
next
  have "beneath regions c x \<Longrightarrow> c \<in> set (children regions (rn_name a)) \<Longrightarrow> beneath regions a x" for c
    by (induction rule: beneath.induct) (auto intro: beneath.intros)
  then show "\<exists>c\<in>set (children regions (rn_name a)). x = c \<or> beneath regions c x \<Longrightarrow> beneath regions a x"
    by (auto intro: beneath.child)
qed

lemma forest_rows:
  "forest regions level d rows \<Longrightarrow>
   fst ` set rows = set level \<union> {x. \<exists>a\<in>set level. beneath regions a x}"
proof (induction rule: forest.induct)
  case (tree r d below rs rest)
  have "{x. beneath regions r x} = fst ` set below"
    using tree.IH(1) beneath_unfold [of regions r] by blast
  with tree.IH(2) show ?case by (auto simp: image_Un)
qed simp

lemma forest_placed:
  "forest regions level d rows \<Longrightarrow> \<forall>r\<in>set level. placed regions r d \<Longrightarrow> row \<in> set rows \<Longrightarrow>
   placed regions (fst row) (snd row)"
  by (induction arbitrary: row rule: forest.induct) (auto intro: placed.sub)

lemma placed_reached:
  "placed regions r d \<Longrightarrow> r \<in> set (top_level regions) \<or> (\<exists>a\<in>set (top_level regions). beneath regions a r)"
  by (induction rule: placed.induct) (auto intro: beneath.intros)

text \<open>The run of deeper rows that follows a row is what lies beneath its region.\<close>

fun runs_ok :: "region_node list \<Rightarrow> (region_node \<times> nat) list \<Rightarrow> bool" where
  "runs_ok regions [] = True"
| "runs_ok regions (x # xs) =
     (fst ` set (takeWhile (\<lambda>row. snd x < snd row) xs) = {y. beneath regions (fst x) y} \<and> runs_ok regions xs)"

lemma takeWhile_stop: "ys = [] \<or> \<not> P (hd ys) \<Longrightarrow> takeWhile P (xs @ ys) = takeWhile P xs"
  by (induction xs) (auto simp: takeWhile_eq_Nil_iff)

lemma runs_ok_append:
  "runs_ok regions xs \<Longrightarrow> runs_ok regions ys \<Longrightarrow> \<forall>x\<in>set xs. d < snd x \<Longrightarrow> ys = [] \<or> snd (hd ys) = d \<Longrightarrow>
   runs_ok regions (xs @ ys)"
proof (induction xs)
  case (Cons x xs)
  then have "takeWhile (\<lambda>row. snd x < snd row) (xs @ ys) = takeWhile (\<lambda>row. snd x < snd row) xs"
    by (intro takeWhile_stop) auto
  with Cons show ?case by simp
qed simp

lemma forest_runs: "forest regions level d rows \<Longrightarrow> runs_ok regions rows"
proof (induction rule: forest.induct)
  case (tree r d below rs rest)
  have deep: "\<forall>x\<in>set below. d < snd x" using forest_depth [OF tree.hyps(1)] by fastforce
  have h: "rest = [] \<or> snd (hd rest) = d" using tree.hyps(2) by (rule forest_hd)
  have "takeWhile (\<lambda>row. d < snd row) (below @ rest) = below"
    using deep h by (subst takeWhile_stop) (auto simp: takeWhile_eq_all_conv)
  moreover have "fst ` set below = {y. beneath regions r y}"
    using forest_rows [OF tree.hyps(1)] beneath_unfold [of regions r] by blast
  ultimately show ?case using tree.IH deep h by (simp add: runs_ok_append)
qed simp

lemma runs_ok_nth:
  "runs_ok regions rows \<Longrightarrow> i < length rows \<Longrightarrow>
   fst ` set (takeWhile (\<lambda>row. snd (rows ! i) < snd row) (drop (Suc i) rows)) = {y. beneath regions (fst (rows ! i)) y}"
  by (induction rows arbitrary: i) (auto simp: nth_Cons split: nat.split)


section \<open>Moving a region\<close>

definition shown :: "region_node list \<Rightarrow> region_node \<Rightarrow> bool" where
  "shown regions r \<longleftrightarrow> (\<exists>d. placed regions r d)"

lemma shown_intros:
  "r \<in> set (top_level regions) \<Longrightarrow> shown regions r"
  "shown regions p \<Longrightarrow> r \<in> set (children regions (rn_name p)) \<Longrightarrow> shown regions r"
  by (auto simp: shown_def intro: placed.intros)

lemma forest_shown:
  assumes "forest regions (top_level regions) 0 rows"
  shows "fst ` set rows = {r. shown regions r}"
proof
  show "fst ` set rows \<subseteq> {r. shown regions r}"
    using forest_placed [OF assms] by (auto simp: shown_def intro: placed.top)
  show "{r. shown regions r} \<subseteq> fst ` set rows"
    using forest_rows [OF assms] placed_reached [of regions] by (auto simp: shown_def) blast
qed

lemma beneath_placed: "beneath regions a r \<Longrightarrow> placed regions a d \<Longrightarrow> \<exists>e>d. placed regions r e"
  by (induction rule: beneath.induct) (auto intro: placed.sub less_SucI)

lemma not_beneath_itself: "distinct_names regions \<Longrightarrow> shown regions r \<Longrightarrow> \<not> beneath regions r r"
  by (metis beneath_placed less_irrefl placed_unique shown_def)

lemma move_names [simp]: "map rn_name (move_region nm p regions) = map rn_name regions"
  by (simp add: move_region_def)

lemma move_length [simp]: "length (move_region nm p regions) = length regions"
  by (simp add: move_region_def)

definition moved :: "string \<Rightarrow> string \<Rightarrow> region_node \<Rightarrow> region_node" where
  "moved nm p r = (if rn_name r = nm then r\<lparr>rn_parent := p\<rparr> else r)"

lemma move_region_moved: "move_region nm p regions = map (moved nm p) regions"
  by (simp add: move_region_def moved_def)

lemma moved_name [simp]: "rn_name (moved nm p r) = rn_name r"
  by (simp add: moved_def)

lemma moved_other: "rn_name r \<noteq> nm \<Longrightarrow> moved nm p r = r"
  by (simp add: moved_def)

lemma set_move_names: "rn_name ` set (move_region nm p regions) = rn_name ` set regions"
  by (metis list.set_map move_names)

lemma moved_in: "r \<in> set regions \<Longrightarrow> rn_name r \<noteq> nm \<Longrightarrow> r \<in> set (move_region nm p regions)"
  by (force simp: move_region_moved moved_def)

lemma moved_top: "r \<in> set (top_level regions) \<Longrightarrow> rn_name r \<noteq> nm \<Longrightarrow> r \<in> set (top_level (move_region nm p regions))"
  using moved_in [of r regions nm p] by (auto simp: top_level_def set_move_names)

lemma moved_child:
  "c \<in> set (children regions q) \<Longrightarrow> rn_name c \<noteq> nm \<Longrightarrow> c \<in> set (children (move_region nm p regions) q)"
  using moved_in [of c regions nm p] by (auto simp: children_def)

text \<open>A place a region may move to: the top, or a region on show that is neither itself nor beneath it.\<close>

definition move_ok :: "region_node list \<Rightarrow> region_node \<Rightarrow> string \<Rightarrow> bool" where
  "move_ok regions r p \<longleftrightarrow> distinct_names regions \<and> shown regions r
     \<and> (p = ''*'' \<or> (\<exists>s. shown regions s \<and> rn_name s = p \<and> s \<noteq> r \<and> \<not> beneath regions r s))"

lemma shown_in: "shown regions r \<Longrightarrow> r \<in> set regions \<and> rn_name r \<noteq> ''*''"
  by (auto simp: shown_def dest: placed_in)

lemma move_okD:
  assumes "move_ok regions r p"
  shows "distinct_names regions" "r \<in> set regions" "rn_name r \<noteq> ''*''" "shown regions r"
  using assms shown_in [of regions r] by (simp_all add: move_ok_def)

lemma elsewhere_stays:
  assumes "distinct_names regions" and r: "r \<in> set regions"
  shows "placed regions x d \<Longrightarrow> x \<noteq> r \<Longrightarrow> \<not> beneath regions r x \<Longrightarrow> shown (move_region (rn_name r) p regions) x"
proof (induction rule: placed.induct)
  case (top x)
  have "rn_name x \<noteq> rn_name r" using top same_name [OF assms(1)] r by blast
  with top show ?case by (auto intro: shown_intros moved_top)
next
  case (sub q d x)
  have x: "x \<in> set regions" using sub.hyps(2) children_in by blast
  have "rn_name x \<noteq> rn_name r" using sub.prems(1) same_name [OF assms(1) x r] by blast
  moreover have "q \<noteq> r" "\<not> beneath regions r q"
    using sub.prems(2) sub.hyps(2) by (auto intro: beneath.intros)
  ultimately show ?case using shown_intros(2) [OF sub.IH moved_child [OF sub.hyps(2)]] by blast
qed

lemma moved_stays:
  assumes ok: "move_ok regions r p"
  shows "shown (move_region (rn_name r) p regions) (moved (rn_name r) p r)"
proof -
  have r: "r \<in> set regions" "rn_name r \<noteq> ''*''" and names: "distinct_names regions"
    using move_okD [OF ok] by simp_all
  have new: "moved (rn_name r) p r \<in> set (move_region (rn_name r) p regions)"
    using r by (simp add: move_region_moved)
  have par: "rn_parent (moved (rn_name r) p r) = p" by (simp add: moved_def)
  show ?thesis
  proof (cases "p = ''*''")
    case True
    with new par r show ?thesis by (intro shown_intros(1)) (simp add: top_level_def)
  next
    case False
    with ok obtain s where s: "shown regions s" "rn_name s = p" "s \<noteq> r" "\<not> beneath regions r s"
      by (auto simp: move_ok_def)
    then have "shown (move_region (rn_name r) p regions) s"
      using elsewhere_stays [OF names r(1)] by (auto simp: shown_def [of regions])
    then show ?thesis using new par r s(2) by - (erule shown_intros(2), simp add: children_def)
  qed
qed

lemma beneath_other_name:
  assumes ok: "move_ok regions r p" and x: "beneath regions r x"
  shows "rn_name x \<noteq> rn_name r"
proof -
  have "x \<in> set regions" using x by (cases rule: beneath.cases) auto
  moreover have "x \<noteq> r" using x not_beneath_itself move_okD [OF ok] by blast
  ultimately show ?thesis using same_name move_okD [OF ok] by blast
qed

lemma beneath_stays:
  assumes ok: "move_ok regions r p"
  shows "beneath regions a x \<Longrightarrow> a = r \<Longrightarrow> shown (move_region (rn_name r) p regions) x"
proof (induction rule: beneath.induct)
  case (child c a)
  then have "rn_name c \<noteq> rn_name r" by (intro beneath_other_name [OF ok]) (auto intro: beneath.child)
  with child show ?case using shown_intros(2) [OF moved_stays [OF ok] moved_child] by simp
next
  case (deeper a b c)
  then have "rn_name c \<noteq> rn_name r" by (intro beneath_other_name [OF ok]) (auto intro: beneath.deeper)
  with deeper show ?case using shown_intros(2) [OF deeper.IH moved_child] by blast
qed

lemma moved_from:
  assumes ok: "move_ok regions r p"
  shows "placed (move_region (rn_name r) p regions) y d \<Longrightarrow> \<exists>x. shown regions x \<and> y = moved (rn_name r) p x"
proof (induction rule: placed.induct)
  have names: "distinct_names regions" and r: "shown regions r" using ok by (simp_all add: move_ok_def)
  {
    case (top y)
    then obtain x where x: "x \<in> set regions" "y = moved (rn_name r) p x"
      by (auto simp: top_level_def move_region_moved)
    show ?case
    proof (cases "x = r")
      case False
      then have "rn_name x \<noteq> rn_name r" using same_name [OF names x(1)] shown_in [OF r] by blast
      then have "y = x" using x(2) by (simp add: moved_other)
      then have "x \<in> set (top_level regions)" using top x(1) by (auto simp: top_level_def set_move_names)
      then show ?thesis using x(2) shown_intros(1) by blast
    qed (use r x in blast)
  next
    case (sub q d y)
    then obtain x where x: "x \<in> set regions" "y = moved (rn_name r) p x"
      by (auto simp: children_def move_region_moved)
    show ?case
    proof (cases "x = r")
      case False
      then have "rn_name x \<noteq> rn_name r" using same_name [OF names x(1)] shown_in [OF r] by blast
      then have y: "y = x" using x(2) by (simp add: moved_other)
      from sub.IH obtain z where z: "shown regions z" "q = moved (rn_name r) p z" by blast
      then have "x \<in> set (children regions (rn_name z))"
        using sub.hyps(2) x(1) y by (auto simp: children_def)
      then show ?thesis using z(1) x(2) shown_intros(2) by blast
    qed (use r x in blast)
  }
qed

lemma moved_shown_names:
  assumes ok: "move_ok regions r p"
  shows "rn_name ` {x. shown (move_region (rn_name r) p regions) x} = rn_name ` {x. shown regions x}"
proof
  show "rn_name ` {x. shown (move_region (rn_name r) p regions) x} \<subseteq> rn_name ` {x. shown regions x}"
    using moved_from [OF ok] by (force simp: shown_def [of "move_region _ _ _"])
  show "rn_name ` {x. shown regions x} \<subseteq> rn_name ` {x. shown (move_region (rn_name r) p regions) x}"
  proof
    fix n assume "n \<in> rn_name ` {x. shown regions x}"
    then obtain x where x: "shown regions x" "n = rn_name x" by auto
    note names = move_okD(1) [OF ok] and r = move_okD(2) [OF ok]
    consider "x = r" | "beneath regions r x" | "x \<noteq> r" "\<not> beneath regions r x" by blast
    then show "n \<in> rn_name ` {x. shown (move_region (rn_name r) p regions) x}"
    proof cases
      case 1
      with x moved_stays [OF ok] show ?thesis by (metis imageI mem_Collect_eq moved_name)
    next
      case 2
      with x beneath_stays [OF ok] show ?thesis by blast
    next
      case 3
      with x elsewhere_stays [OF names r] show ?thesis by (auto simp: shown_def [of regions])
    qed
  qed
qed


section \<open>Each region once\<close>

lemma beneath_deeper: "distinct_names regions \<Longrightarrow> beneath regions a x \<Longrightarrow> placed regions a d \<Longrightarrow> placed regions x e \<Longrightarrow> d < e"
  using beneath_placed placed_unique by blast

lemma beneath_parent:
  "beneath regions a x \<Longrightarrow> distinct_names regions \<Longrightarrow> x \<in> set (children regions (rn_name b)) \<Longrightarrow> b \<in> set regions \<Longrightarrow>
   a \<in> set regions \<Longrightarrow> b = a \<or> beneath regions a b"
proof (induction rule: beneath.induct)
  case (child c a)
  then have "rn_name a = rn_name b" by (auto simp: children_def)
  with child show ?case using same_name by metis
next
  case (deeper a q c)
  then have "rn_name q = rn_name b" by (auto simp: children_def)
  moreover have "q \<in> set regions" using deeper.hyps(1) by (cases rule: beneath.cases) auto
  ultimately have "q = b" using deeper.prems same_name by metis
  with deeper.hyps(1) show ?case by simp
qed

lemma common_below:
  "beneath regions r x \<Longrightarrow> distinct_names regions \<Longrightarrow> placed regions r d \<Longrightarrow> placed regions a d \<Longrightarrow>
   beneath regions a x \<Longrightarrow> r = a"
proof (induction rule: beneath.induct)
  case (child c r)
  then have "r = a \<or> beneath regions a r" using beneath_parent placed_in by metis
  with child.prems show ?case using beneath_deeper by blast
next
  case (deeper r b c)
  have "b \<in> set regions" using deeper.hyps(1) by (cases rule: beneath.cases) auto
  then have "b = a \<or> beneath regions a b" using deeper.hyps(2) deeper.prems beneath_parent placed_in by metis
  moreover have "b \<noteq> a" using deeper.hyps(1) deeper.prems beneath_deeper by blast
  ultimately show ?case using deeper.IH deeper.prems by blast
qed

lemma distinct_children: "distinct_names regions \<Longrightarrow> distinct (children regions nm)"
  by (simp add: children_def distinct_names_def distinct_map)

lemma forest_distinct:
  "forest regions level d rows \<Longrightarrow> distinct_names regions \<Longrightarrow> \<forall>r\<in>set level. placed regions r d \<Longrightarrow>
   distinct level \<Longrightarrow> distinct (map fst rows)"
proof (induction rule: forest.induct)
  case (tree r d below rs rest)
  have pr: "placed regions r d" and prs: "\<forall>a\<in>set rs. placed regions a d" using tree.prems(2) by simp_all
  then have pc: "\<forall>c\<in>set (children regions (rn_name r)). placed regions c (Suc d)" by (auto intro: placed.sub)
  have b: "fst ` set below = {y. beneath regions r y}"
    using forest_rows [OF tree.hyps(1)] beneath_unfold [of regions r] by blast
  have s: "fst ` set rest = set rs \<union> {x. \<exists>a\<in>set rs. beneath regions a x}" by (rule forest_rows [OF tree.hyps(2)])
  have "r \<notin> fst ` set below" using b beneath_deeper [OF tree.prems(1) _ pr pr] by auto
  moreover have "r \<notin> fst ` set rest"
  proof
    assume "r \<in> fst ` set rest"
    with s tree.prems(3) obtain a where a: "a \<in> set rs" "beneath regions a r" by auto
    with prs beneath_deeper [OF tree.prems(1) a(2) _ pr] show False by blast
  qed
  moreover have "x \<notin> fst ` set rest" if x: "beneath regions r x" for x
  proof
    assume "x \<in> fst ` set rest"
    with s consider "x \<in> set rs" | a where "a \<in> set rs" "beneath regions a x" by auto
    then show False
    proof cases
      case 1
      with prs beneath_deeper [OF tree.prems(1) x pr] show False by blast
    next
      case 2
      then have "r = a" using prs common_below [OF x tree.prems(1) pr] by blast
      with 2 tree.prems(3) show False by simp
    qed
  qed
  ultimately have "fst ` set below \<inter> fst ` set rest = {}" "r \<notin> fst ` set below \<union> fst ` set rest"
    using b by blast+
  moreover have "distinct (map fst below)" "distinct (map fst rest)"
    using tree.IH(1) [OF tree.prems(1) pc distinct_children [OF tree.prems(1)]]
      tree.IH(2) [OF tree.prems(1) prs] tree.prems(3) by simp_all
  ultimately show ?case by simp
qed simp

lemma walk_top:
  assumes "distinct_names regions"
  obtains rows where "region_walk (length regions) regions (top_level regions) 0 = Some rows"
    "forest regions (top_level regions) 0 rows" "distinct (map fst rows)" "fst ` set rows = {r. shown regions r}"
    "runs_ok regions rows"
proof -
  have top: "\<forall>r\<in>set (top_level regions). placed regions r 0" by (auto intro: placed.top)
  obtain rows where w: "region_walk (length regions) regions (top_level regions) 0 = Some rows"
    using walk_ends [OF assms top] by auto
  note f = walk_forest [OF w]
  have "distinct (top_level regions)" using assms by (simp add: top_level_def distinct_names_def distinct_map)
  from w f forest_distinct [OF f assms top this] forest_shown [OF f] forest_runs [OF f] show ?thesis by (rule that)
qed

section \<open>Properties\<close>

lemma tree_rows:
  assumes "distinct_names regions"
  obtains t where "regionTree (length regions) regions = Some t" "distinct (map fst t)"
    "fst ` set t = {r. shown regions r}"
proof -
  obtain rows where w: "region_walk (length regions) regions (top_level regions) 0 = Some rows"
    "distinct (map fst rows)" "fst ` set rows = {r. shown regions r}"
    using walk_top [OF assms] by metis
  define t where "t = map (\<lambda>i. (fst (rows ! i), snd (rows ! i), row_under rows i)) [0..<length rows]"
  have e: "map fst t = map fst rows" by (rule nth_equalityI) (simp_all add: t_def)
  have "fst ` set t = fst ` set rows" using arg_cong [OF e, of set] by simp
  with e w show ?thesis by (intro that [of t]) (simp_all add: regionTree_def t_def)
qed

text \<open>C7: For a list of distinct names the walk of \<open>regionTree\<close> ends, and its rows are the regions whose
  chain of parents reaches the top or an unlisted name, each exactly once.\<close>

theorem region_tree_ends:
  assumes "distinct_names regions"
  shows "\<exists>t. regionTree (length regions) regions = Some t
    \<and> distinct (map fst t) \<and> fst ` set t = {r. shown regions r}"
  using tree_rows [OF assms] by metis

definition sample_regions :: "region_node list" where
  "sample_regions = [\<lparr>rn_name = ''nz'', rn_parent = ''*''\<rparr>, \<lparr>rn_name = ''akl'', rn_parent = ''nz''\<rparr>,
     \<lparr>rn_name = ''wlg'', rn_parent = ''nz''\<rparr>, \<lparr>rn_name = ''au'', rn_parent = ''gone''\<rparr>]"

theorem region_tree_ends_witness:
  "\<exists>t. regionTree 4 sample_regions = Some t \<and> distinct (map fst t) \<and> fst ` set t = {r. shown sample_regions r}"
proof -
  have "length sample_regions = 4" "distinct_names sample_regions" by code_simp+
  with region_tree_ends [of sample_regions] show ?thesis by metis
qed

lemma offered_place:
  assumes p: "p \<in> set (row_under rows i)" and i: "i < length rows"
    and rows: "fst ` set rows = {r. shown regions r}" "runs_ok regions rows"
  shows "p = ''*'' \<or> (\<exists>s. shown regions s \<and> rn_name s = p \<and> s \<noteq> fst (rows ! i) \<and> \<not> beneath regions (fst (rows ! i)) s)"
proof (cases "p = ''*''")
  case False
  have p: "p \<in> (rn_name \<circ> fst) ` set rows" "p \<noteq> rn_name (fst (rows ! i))"
      "p \<notin> rn_name ` fst ` set (takeWhile (\<lambda>row. snd (rows ! i) < snd row) (drop (Suc i) rows))"
    using p False by (simp_all add: row_under_def names_below_def Let_def image_image)
  have "p \<notin> rn_name ` {y. beneath regions (fst (rows ! i)) y}"
    using p(3) unfolding runs_ok_nth [OF rows(2) i] .
  then have b: "\<not> beneath regions (fst (rows ! i)) y" if "rn_name y = p" for y using that by blast
  from p(1) obtain row where row: "row \<in> set rows" "rn_name (fst row) = p" by auto
  then have "shown regions (fst row)" using rows(1) by blast
  moreover have "fst row \<noteq> fst (rows ! i)" using p(2) row(2) by metis
  ultimately show ?thesis using row(2) b [OF row(2)] by metis
qed simp

lemma offered_move_ok:
  assumes names: "distinct_names regions" and t: "regionTree (length regions) regions = Some t"
    and row: "(r, d, places) \<in> set t" and p: "p \<in> set places"
  shows "move_ok regions r p"
proof -
  obtain rows where w: "region_walk (length regions) regions (top_level regions) 0 = Some rows"
    "fst ` set rows = {r. shown regions r}" "runs_ok regions rows"
    using walk_top [OF names] by metis
  have "t = map (\<lambda>i. (fst (rows ! i), snd (rows ! i), row_under rows i)) [0..<length rows]"
    using t w(1) by (simp add: regionTree_def)
  with row obtain i where i: "i < length rows" "r = fst (rows ! i)" "places = row_under rows i" by auto
  have "shown regions r" using i w(2) by (metis imageI mem_Collect_eq nth_mem)
  with offered_place [OF p [unfolded i(3)] i(1) w(2,3)] names show ?thesis unfolding i(2) move_ok_def by blast
qed

text \<open>C6: A move the tree offers never loses a region: after putting a region under any place its row offers,
  the tree shows the same regions as before.\<close>

theorem offered_move_keeps_regions:
  assumes "distinct_names regions"
    and t: "regionTree (length regions) regions = Some t"
    and row: "(r, d, places) \<in> set t" and p: "p \<in> set places"
  shows "\<exists>t'. regionTree (length regions) (move_region (rn_name r) p regions) = Some t'
    \<and> (\<lambda>row. rn_name (fst row)) ` set t' = (\<lambda>row. rn_name (fst row)) ` set t"
proof -
  have ok: "move_ok regions r p" using offered_move_ok [OF assms] .
  have "distinct_names (move_region (rn_name r) p regions)" using assms(1) by (simp add: distinct_names_def)
  then obtain t' where t': "regionTree (length regions) (move_region (rn_name r) p regions) = Some t'"
      "fst ` set t' = {x. shown (move_region (rn_name r) p regions) x}"
    using tree_rows by (metis move_length)
  have "fst ` set t = {x. shown regions x}" using tree_rows [OF assms(1)] t by auto
  then show ?thesis using t' moved_shown_names [OF ok] by (metis image_image)
qed

theorem offered_move_keeps_regions_witness:
  "\<exists>t'. regionTree 4 (move_region ''akl'' ''wlg'' sample_regions) = Some t'
    \<and> (\<lambda>row. rn_name (fst row)) ` set t' = {''nz'', ''akl'', ''wlg'', ''au''}"
proof -
  have s: "length sample_regions = 4" "distinct_names sample_regions" by code_simp+
  define t where "t = the (regionTree 4 sample_regions)"
  have t: "regionTree 4 sample_regions = Some t" unfolding t_def by code_simp
  have row: "(\<lparr>rn_name = ''akl'', rn_parent = ''nz''\<rparr>, 1, [''*'', ''nz'', ''wlg'', ''au'']) \<in> set t"
    unfolding t_def by code_simp
  have n: "(\<lambda>row. rn_name (fst row)) ` set t = {''nz'', ''akl'', ''wlg'', ''au''}" unfolding t_def by code_simp
  from offered_move_keeps_regions [OF s(2) t [folded s(1)] row, of "''wlg''"] s(1) n show ?thesis by simp
qed

text \<open>A cycle of parents is never walked into, and its regions are on no row.\<close>

lemma cycle_not_shown:
  "regionTree 3 [\<lparr>rn_name = ''a'', rn_parent = ''b''\<rparr>, \<lparr>rn_name = ''b'', rn_parent = ''a''\<rparr>] = Some []"
  by code_simp

end
