(* ===== verification/RegionForms.thy ===== *)
theory RegionForms
  imports Regions ApiHooks
begin

text \<open>
  What the region controls do with the tree: the editor of a repeater's list
  (\<open>components/RegionListEditor.tsx\<close>), the scope a send resolves to (\<open>components/RegionSelect.tsx\<close>) and
  the picker of map regions (\<open>components/RegionPicker.tsx\<close>). A list that is being fetched is \<open>None\<close>.
\<close>

section \<open>Scopes\<close>

definition resolveScope :: "string option list \<Rightarrow> string" where
  "resolveScope levels =
     (case find (\<lambda>s. truthy_str s \<and> s \<noteq> Some ''inherit'') levels of Some (Some s) \<Rightarrow> s | _ \<Rightarrow> ''everywhere'')"

definition scopeLabel :: "string \<Rightarrow> string" where
  "scopeLabel scope = nullish (regionName (Some scope)) ''everywhere''"

text \<open>One option of the select: its value, label and depth.\<close>

type_synonym scope_option = "string \<times> string \<times> nat option"

definition unlisted :: "string \<Rightarrow> region_node list \<Rightarrow> string option" where
  "unlisted value regions =
     (case regionName (Some value) of
        None \<Rightarrow> None
      | Some cur \<Rightarrow> if cur \<noteq> [] \<and> cur \<notin> rn_name ` set regions then Some cur else None)"

definition scope_options ::
    "nat \<Rightarrow> string \<Rightarrow> region_node list \<Rightarrow> (string \<times> string option) option \<Rightarrow> scope_option list option" where
  "scope_options fuel value regions inherit =
     (let un = unlisted value regions;
          all = (case un of Some u \<Rightarrow> regions @ [\<lparr>rn_name = u, rn_parent = ''*''\<rparr>] | None \<Rightarrow> regions) in
      map_option (\<lambda>tree.
        (case inherit of None \<Rightarrow> []
         | Some (from_level, resolved) \<Rightarrow> [(''inherit'', ''Same as '' @ from_level
             @ (if truthy_str resolved then '' ('' @ scopeLabel (the resolved) @ '')'' else []), None)])
        @ [(''everywhere'', ''Everywhere'', None)]
        @ map (\<lambda>(r, depth, _). (''region:'' @ rn_name r,
            if Some (rn_name r) = un then rn_name r @ '' (not listed)'' else rn_name r, Some depth)) tree)
        (regionTree fuel all))"

record scope_settings =
  st_floodRegions :: "region_node list"
  st_floodScope :: string

definition region_settings :: "(region_node list option \<times> string option) option \<Rightarrow> scope_settings" where
  \<comment> \<open>the settings object, once loaded\<close>
  "region_settings item =
     \<lparr>st_floodRegions = nullish (Option.bind item fst) [], st_floodScope = nullish (Option.bind item snd) ''everywhere''\<rparr>"

definition companion_scope :: "nat option \<Rightarrow> (nat \<times> string option) list option \<Rightarrow> string \<Rightarrow> string" where
  \<comment> \<open>the companions by id, each with its own scope, above the settings' default\<close>
  "companion_scope companionId companions dflt =
     resolveScope [Option.bind (find (\<lambda>c. Some (fst c) = companionId) (nullish companions [])) snd, Some dflt]"

record scope_contact =
  sc_peerPubkey :: string
  sc_floodScope :: string
  sc_outPath :: "string option"

definition dm_of :: "string option \<Rightarrow> string option" where
  "dm_of thread = (case thread of None \<Rightarrow> None
     | Some t \<Rightarrow> if starts_with ''dm:'' t then Some (slice_from 3 t) else None)"

definition this_contact :: "string option \<Rightarrow> bool \<Rightarrow> scope_contact option \<Rightarrow> scope_contact option" where
  "this_contact dm notFound contact =
     (if \<not> notFound \<and> map_option (to_lower \<circ> sc_peerPubkey) contact = map_option to_lower dm then contact else None)"

definition send_region ::
    "string option \<Rightarrow> bool \<Rightarrow> scope_contact option \<Rightarrow> (string \<times> string) list option \<Rightarrow> string \<Rightarrow> string \<times> bool" where
  \<comment> \<open>the scope of the next send in a thread, and whether a DM goes direct\<close>
  "send_region thread notFound contact channels companionScope =
     (let dm = dm_of thread;
          mine = this_contact dm notFound contact;
          own = (if truthy_str dm then map_option sc_floodScope mine
                 else Option.bind (find (\<lambda>c. Some (fst c) = thread) (nullish channels [])) (Some \<circ> snd)) in
      (resolveScope [own, Some companionScope], Option.bind mine sc_outPath \<noteq> None))"

section \<open>The list editor\<close>

record editable_region = region_node +
  denyFlood :: bool

definition bare :: "string \<Rightarrow> string" where  \<comment> \<open>without one leading \<open>#\<close>\<close>
  "bare n = (case n of c # cs \<Rightarrow> if c = CHR ''#'' then cs else n | [] \<Rightarrow> n)"

definition wildcard_region :: "editable_region list \<Rightarrow> editable_region" where
  "wildcard_region regions =
     (case find (\<lambda>r. rn_name r = ''*'') regions of Some r \<Rightarrow> r
      | None \<Rightarrow> \<lparr>rn_name = ''*'', rn_parent = [], denyFlood = False\<rparr>)"

definition is_duplicate :: "editable_region list \<Rightarrow> string \<Rightarrow> bool" where
  "is_duplicate regions rn \<longleftrightarrow> rn \<noteq> [] \<and> list_ex (\<lambda>r. bare (rn_name r) = bare rn) regions"

definition add_invalid :: "string \<Rightarrow> string option" where
  "add_invalid rn = (if rn = [] then None else regionNameError rn True)"

definition add_parent :: "editable_region list \<Rightarrow> string \<Rightarrow> string" where
  "add_parent regions newParent = (if list_ex (\<lambda>r. rn_name r = newParent) regions then newParent else ''*'')"

definition add_region :: "bool \<Rightarrow> editable_region list \<Rightarrow> string \<Rightarrow> string \<Rightarrow> (string \<times> string) option" where
  \<comment> \<open>the name and parent that are sent, if any\<close>
  "add_region busy regions newRegion newParent =
     (let rn = trim newRegion in
      if busy \<or> rn = [] \<or> is_duplicate regions rn \<or> truthy_str (add_invalid rn) then None
      else Some (rn, add_parent regions newParent))"

definition home_value :: "editable_region list \<Rightarrow> string \<Rightarrow> string" where
  "home_value regions home = (if list_ex (\<lambda>r. rn_name r = home) regions then home else ''*'')"

definition remove_blocked :: "editable_region list \<Rightarrow> string \<Rightarrow> bool" where
  "remove_blocked regions nm \<longleftrightarrow> list_ex (\<lambda>r. rn_parent r = nm) regions"

definition add_note :: "editable_region list \<Rightarrow> string \<Rightarrow> string" where
  "add_note regions rn =
     nullish (add_invalid rn)
       (if is_duplicate regions rn then ''already in the list'' else ''the transport key derives from this name'')"

section \<open>The picker\<close>

record map_region =
  mr_id :: string
  mr_name :: string
  mr_country :: string

record region_picker =
  rp_ids :: "string list"
  rp_regions :: "(string \<times> map_region) list"
  rp_failed :: "string list"
  rp_pending :: nat
  rp_note :: "(string \<times> bool) option"
  rp_live :: bool

definition picker_start :: "string list \<Rightarrow> region_picker" where
  "picker_start ids = \<lparr>rp_ids = ids, rp_regions = [], rp_failed = [], rp_pending = 0, rp_note = None, rp_live = True\<rparr>"

definition pick_asked :: "region_picker \<Rightarrow> region_picker" where
  "pick_asked st = st\<lparr>rp_pending := rp_pending st + 1, rp_note := None\<rparr>"

datatype pick_answer = PickedRegion map_region | PickedSea | PickError string

definition toggle_id :: "string \<Rightarrow> bool \<Rightarrow> string list \<Rightarrow> string list" where
  "toggle_id i addOnly cur =
     (if i \<in> set cur then (if addOnly then cur else filter (\<lambda>x. x \<noteq> i) cur) else cur @ [i])"

definition pick_note :: "map_region \<Rightarrow> string list \<Rightarrow> string" where
  "pick_note r next =
     (if mr_id r \<in> set next then ''Added'' else ''Removed'') @ '' '' @ mr_name r @ '', '' @ mr_country r @ ''.''"

definition pick_answered :: "bool \<Rightarrow> pick_answer \<Rightarrow> region_picker \<Rightarrow> region_picker" where
  "pick_answered addOnly ans st =
     (if \<not> rp_live st then st
      else (case ans of
          PickedSea \<Rightarrow> st\<lparr>rp_note := Some (''No region there. Tap on land.'', True)\<rparr>
        | PickError msg \<Rightarrow> st\<lparr>rp_note := Some (msg, True)\<rparr>
        | PickedRegion r \<Rightarrow>
            (let cur = rp_ids st; next = toggle_id (mr_id r) addOnly cur;
                 st1 = st\<lparr>rp_regions := AList.update (mr_id r) r (rp_regions st), rp_ids := next\<rparr> in
             if \<not> (addOnly \<and> mr_id r \<in> set cur) then st1\<lparr>rp_note := Some (pick_note r next, False)\<rparr> else st1))
        \<lparr>rp_pending := rp_pending st - 1\<rparr>)"

definition chip_removed :: "string \<Rightarrow> region_picker \<Rightarrow> region_picker" where
  "chip_removed i st = st\<lparr>rp_ids := filter (\<lambda>x. x \<noteq> i) (rp_ids st),
     rp_note := Some (''Removed '' @ (case map_of (rp_regions st) i of Some r \<Rightarrow> mr_name r | None \<Rightarrow> i) @ ''.'', False)\<rparr>"

definition missing_ids :: "region_picker \<Rightarrow> string list" where
  "missing_ids st = filter (\<lambda>i. map_of (rp_regions st) i = None \<and> i \<notin> set (rp_failed st)) (rp_ids st)"

definition outlines_answered :: "(string \<times> map_region option) list \<Rightarrow> region_picker \<Rightarrow> region_picker" where
  \<comment> \<open>what each wanted outline came back as\<close>
  "outlines_answered got st =
     (let lost = map fst (filter (\<lambda>(i, r). r = None) got) in
      st\<lparr>rp_regions := foldl (\<lambda>m (i, r). case r of Some x \<Rightarrow> AList.update (mr_id x) x m | None \<Rightarrow> m) (rp_regions st) got,
         rp_failed := foldl (\<lambda>f i. set_add i f) (rp_failed st) lost\<rparr>)"

definition retry_outlines :: "region_picker \<Rightarrow> region_picker" where
  "retry_outlines st = st\<lparr>rp_failed := []\<rparr>"

definition mean_lon :: "(rat \<times> rat) list \<Rightarrow> rat" where
  "mean_lon ring = foldl (\<lambda>s p. s + fst p) 0 ring / of_nat (length ring)"

definition ring_shift :: "rat \<Rightarrow> (rat \<times> rat) list \<Rightarrow> rat" where
  "ring_shift refLon ring = of_int (js_round ((refLon - mean_lon ring) / 360)) * 360"

definition ring_lat_lngs :: "rat \<Rightarrow> (rat \<times> rat) list \<Rightarrow> (rat \<times> rat) list" where
  "ring_lat_lngs refLon ring = (let d = ring_shift refLon ring in map (\<lambda>(lon, lat). (lat, lon + d)) ring)"

section \<open>Lemmas\<close>

lemma resolved_scope:
  "resolveScope levels \<noteq> ''inherit'' \<and> resolveScope levels \<noteq> []
   \<and> (resolveScope levels = ''everywhere'' \<or> Some (resolveScope levels) \<in> set levels)"
proof (cases "find (\<lambda>s. truthy_str s \<and> s \<noteq> Some ''inherit'') levels")
  case (Some s)
  then have "truthy_str s" "s \<noteq> Some ''inherit''" "s \<in> set levels" by (auto simp: find_Some_iff)
  then show ?thesis by (cases s) (simp_all add: resolveScope_def Some)
qed (simp add: resolveScope_def)

lemma resolve_nested: "resolveScope [own, Some (resolveScope levels)] = resolveScope (own # levels)"
  using resolved_scope [of levels] by (auto simp: resolveScope_def split: option.split)

lemma send_region_explicit: "fst (send_region thread notFound contact channels cs) \<notin> {''inherit'', []}"
  using resolved_scope by (auto simp: send_region_def Let_def)

lemma toggle_distinct: "distinct cur \<Longrightarrow> distinct (toggle_id i addOnly cur)"
  by (simp add: toggle_id_def)

lemma pick_answered_ids:
  "rp_ids (pick_answered addOnly ans st) =
     (case ans of PickedRegion r \<Rightarrow> if rp_live st then toggle_id (mr_id r) addOnly (rp_ids st) else rp_ids st
      | _ \<Rightarrow> rp_ids st)"
  by (simp add: pick_answered_def Let_def split: pick_answer.split)

lemma toggle_twice: "i \<notin> set cur \<Longrightarrow> toggle_id i False (toggle_id i False cur) = cur"
  by (auto simp: toggle_id_def intro: filter_True)

lemma foldl_fst: "foldl (\<lambda>s p. s + fst p) a xs = a + sum_list (map fst xs)" for a :: rat
  by (induction xs arbitrary: a) (simp_all add: add.assoc)

lemma mean_shift:
  assumes "ring \<noteq> []"
  shows "mean_lon (map (\<lambda>(lon, lat). (lon + d, lat)) ring) = mean_lon ring + d"
proof -
  have "sum_list (map (fst \<circ> (\<lambda>(lon, lat). (lon + d, lat))) ring) = sum_list (map fst ring) + d * of_nat (length ring)"
    by (induction ring) (auto simp: algebra_simps)
  with assms show ?thesis by (simp add: mean_lon_def foldl_fst add_divide_distrib)
qed

lemma turn_half: "\<bar>y\<bar> \<le> 1 / 2 \<Longrightarrow> \<bar>360 * y\<bar> \<le> 180" for y :: rat
  by (simp add: abs_mult)

lemma ring_near: "\<bar>refLon - (mean_lon ring + ring_shift refLon ring)\<bar> \<le> 180"
proof -
  define x where "x = (refLon - mean_lon ring) / 360"
  have "\<bar>x - of_int (js_round x)\<bar> \<le> 1 / 2"
    using floor_correct [of "x + 1 / 2"] unfolding js_round_def abs_le_iff by linarith
  moreover have "refLon - (mean_lon ring + ring_shift refLon ring) = 360 * (x - of_int (js_round x))"
    by (simp add: ring_shift_def x_def algebra_simps)
  ultimately show ?thesis using turn_half [of "x - of_int (js_round x)"] by metis
qed

section \<open>Properties\<close>

text \<open>What the form sends as a new region is fit for the list: the name is one the firmware takes, no listed
  region has it, with or without its number sign, so the names stay distinct and the tree stays finite, and the parent is the top or a listed region.\<close>

theorem added_region_fits:
  assumes "add_region busy regions newRegion newParent = Some (n, p)"
    and "distinct_names (map region_node.truncate regions)"
  shows "regionNameError n True = None
    \<and> bare n \<notin> bare ` rn_name ` set regions
    \<and> distinct_names (map region_node.truncate regions @ [\<lparr>rn_name = n, rn_parent = p\<rparr>])
    \<and> p \<in> insert ''*'' (rn_name ` set regions)"
proof -
  have n: "n = trim newRegion" "n \<noteq> []" "\<not> is_duplicate regions n" "\<not> truthy_str (add_invalid n)"
    "p = add_parent regions newParent"
    using assms(1) by (auto simp: add_region_def Let_def split: if_splits)
  have "regionNameError n True \<noteq> Some []" by (auto simp: regionNameError_def Let_def split: option.split)
  then have ok: "regionNameError n True = None"
    using n(2,4) by (cases "regionNameError n True") (auto simp: add_invalid_def)
  have fresh: "n \<notin> rn_name ` set regions" using n(2,3) by (auto simp: is_duplicate_def list_ex_iff)
  have "bare n \<notin> bare ` rn_name ` set regions"
    using n(2,3) by (auto simp: is_duplicate_def list_ex_iff)
  moreover have "distinct_names (map region_node.truncate regions @ [\<lparr>rn_name = n, rn_parent = p\<rparr>])"
    using assms(2) fresh by (auto simp: distinct_names_def region_node.truncate_def)
  moreover have "p \<in> insert ''*'' (rn_name ` set regions)"
    using n(5) by (auto simp: add_parent_def list_ex_iff)
  ultimately show ?thesis using ok by simp
qed

definition sample_editable :: "editable_region list" where
  "sample_editable = [\<lparr>rn_name = ''*'', rn_parent = [], denyFlood = True\<rparr>, \<lparr>rn_name = ''#akl'', rn_parent = ''*'', denyFlood = False\<rparr>]"

theorem added_region_fits_witness:
  "add_region False sample_editable '' nz '' ''#akl'' = Some (''nz'', ''#akl'')
   \<and> regionNameError ''nz'' True = None \<and> bare ''nz'' \<notin> bare ` rn_name ` set sample_editable
   \<and> add_region False sample_editable ''akl'' ''*'' = None"
proof -
  have a: "add_region False sample_editable '' nz '' ''#akl'' = Some (''nz'', ''#akl'')" by code_simp
  have "distinct_names (map region_node.truncate sample_editable)"
    by (simp add: distinct_names_def sample_editable_def region_node.truncate_def)
  note added_region_fits [OF a this]
  moreover have "add_region False sample_editable ''akl'' ''*'' = None" by code_simp
  ultimately show ?thesis using a by blast
qed

end
