(* ===== verification/Traces.thy ===== *)
theory Traces
  imports LinkPath RouteEditor SignalTest
begin

text \<open>
  \<open>pages/TracesPage.tsx\<close>: composing a route, the trace in flight with its silence timer, the running
  signal test, and the timeline. The page's timeouts, answers and socket messages are events; a timer
  holds the time it fires. The WebSocket handler reads the state of the last render through refs that
  every render refreshes, so it reads the state.
\<close>

section \<open>Composing a route\<close>

definition mirror_hex :: "int \<Rightarrow> string \<Rightarrow> string" where
  "mirror_hex hashSize base =
     (let hops = hexToHopHashes base hashSize in
      if length hops \<le> 1 then base else base @ concat (rev (butlast hops)))"

definition base_hex :: "bool \<Rightarrow> string \<Rightarrow> hop_peer list \<Rightarrow> int \<Rightarrow> string" where
  "base_hex manual manualHex selectedPath hashSize =
     (if manual then to_lower (trim manualHex)
      else to_lower (concat (map (\<lambda>p. slice 0 (hashSize * 2) (pp_pubkey p)) selectedPath)))"

definition computedPathHex :: "bool \<Rightarrow> string \<Rightarrow> hop_peer list \<Rightarrow> int \<Rightarrow> bool \<Rightarrow> string" where
  "computedPathHex manual manualHex selectedPath hashSize mirrorReturn =
     (let base = base_hex manual manualHex selectedPath hashSize in
      if \<not> mirrorReturn then base else mirror_hex hashSize base)"

definition mirrorPeers :: "bool \<Rightarrow> hop_peer list \<Rightarrow> hop_peer list" where
  "mirrorPeers mirrorReturn selectedPath =
     (if \<not> mirrorReturn \<or> length selectedPath \<le> 1 then [] else rev (butlast selectedPath))"

definition pathHexValid :: "bool \<Rightarrow> string \<Rightarrow> nat \<Rightarrow> bool" where
  "pathHexValid manual hex hashSize =
     (if hex = [] then \<not> manual
      else list_all is_hex hex \<and> length hex mod (hashSize * 2) = 0)"

fun hashes_of :: "nat \<Rightarrow> nat \<Rightarrow> string \<Rightarrow> string list" where  \<comment> \<open>the loop, with the hops still to cut\<close>
  "hashes_of 0 step s = []"
| "hashes_of (Suc n) step s = take step s # hashes_of n step (drop step s)"

definition routeHashes :: "string \<Rightarrow> nat \<Rightarrow> string list" where
  "routeHashes hex hashSize =
     (let step = hashSize * 2 in if step = 0 then [] else hashes_of (length hex div step) step hex)"

definition peer_by_hash :: "path_peer list \<Rightarrow> int \<Rightarrow> (string \<times> (string \<times> nat)) list" where
  "peer_by_hash peers hashSize =
     List.map_filter (\<lambda>(h, cs). let r = resolveHopPeer h (Some cs) in
         map_option (\<lambda>p. (h, pp_name p, length (rh_alternatives r))) (rh_peer r))
       (buildPeerCandidatesByHash peers hashSize)"

definition hopName :: "(string \<times> nat) option \<Rightarrow> string option" where
  "hopName hit = map_option (\<lambda>(nm, alts). if alts > 0 then nm @ '' +'' @ show_nat alts else nm) hit"

definition hopLabelFor :: "string \<Rightarrow> int \<Rightarrow> path_peer list \<Rightarrow> nat \<Rightarrow> string" where
  "hopLabelFor hex hashSize peers hop =
     (case (if hop = 0 then None else list_at (hexToHopHashes hex hashSize) (hop - 1)) of
        None \<Rightarrow> ''Hop '' @ show_nat hop
      | Some h \<Rightarrow> (let r = resolveHopPeer h (map_of (buildPeerCandidatesByHash peers hashSize) h) in
          show_nat hop @ ''. '' @ (case rh_peer r of None \<Rightarrow> h
            | Some p \<Rightarrow> pp_name p @ (if length (rh_alternatives r) > 0
                then '' +'' @ show_nat (length (rh_alternatives r)) else []))))"

text \<open>What stops a trace, a test or a link monitor from being sent.\<close>

definition route_refusal :: "string \<Rightarrow> bool \<Rightarrow> string \<Rightarrow> nat \<Rightarrow> string option" where
  "route_refusal companionName manual hex hashSize =
     (if companionName = [] then Some ''Select a companion first''
      else if manual \<and> hex = [] then Some ''Path is empty''
      else if \<not> pathHexValid manual hex hashSize then Some ''Path is not valid hex for the selected hash size''
      else None)"

definition test_refusal :: "string \<Rightarrow> bool \<Rightarrow> string \<Rightarrow> nat \<Rightarrow> int \<Rightarrow> int \<Rightarrow> string option" where
  "test_refusal companionName manual hex hashSize testCount testIntervalSecs =
     (case route_refusal companionName manual hex hashSize of
        Some e \<Rightarrow> Some e
      | None \<Rightarrow> if testCount < 1 \<or> testCount > 1000 then Some ''Count must be between 1 and 1000''
          else if testIntervalSecs < 5 \<or> testIntervalSecs > 3600 then Some ''Interval must be between 5 and 3600 seconds''
          else None)"

section \<open>The trace in flight\<close>

definition TRACE_TIMEOUT_MS :: int where "TRACE_TIMEOUT_MS = 5000"

record trace_msg =
  tm_companion :: string
  tm_tag :: int
  tm_hops :: int
  tm_path :: "string list"
  tm_hopSNRs :: "rat list"
  tm_snr :: "rat option"

record trace_result =
  res_companion :: string
  res_tag :: int
  res_path :: "string list"
  res_hopSNRs :: "rat list"
  res_snr :: "rat option"
  res_elapsedMs :: int

record trace_state =
  activeTag :: "int option"
  waitStartedAt :: "int option"
  deadlineAt :: "int option"
  tr_timer :: "int option"
  liveSNRs :: "rat list"
  tr_result :: "trace_result option"
  waitError :: "string option"

definition trace_start :: trace_state where
  "trace_start = \<lparr>activeTag = None, waitStartedAt = None, deadlineAt = None, tr_timer = None,
     liveSNRs = [], tr_result = None, waitError = None\<rparr>"

definition armTimeout :: "int \<Rightarrow> trace_state \<Rightarrow> trace_state" where
  "armTimeout now st =
     st\<lparr>deadlineAt := Some (now + TRACE_TIMEOUT_MS), tr_timer := Some (now + TRACE_TIMEOUT_MS)\<rparr>"

definition timer_fired :: "trace_state \<Rightarrow> trace_state" where
  "timer_fired st =
     st\<lparr>activeTag := None, waitStartedAt := None, deadlineAt := None,
        waitError := Some (''No response from final repeater '' @ [glyph_middot] @ '' timed out''), tr_timer := None\<rparr>"

definition trace_asked :: "trace_state \<Rightarrow> trace_state" where  \<comment> \<open>\<open>sendTrace\<close>, past its guards\<close>
  "trace_asked st = st\<lparr>tr_result := None, waitError := None, liveSNRs := []\<rparr>"

definition trace_sent :: "int \<Rightarrow> int \<Rightarrow> trace_state \<Rightarrow> trace_state" where  \<comment> \<open>its answer\<close>
  "trace_sent tag now st = armTimeout now (st\<lparr>activeTag := Some tag, waitStartedAt := Some now\<rparr>)"

definition is_final :: "nat \<Rightarrow> trace_msg \<Rightarrow> bool" where
  "is_final planned m \<longleftrightarrow>
     (let totalHops = (if tm_hops m > 0 then tm_hops m else int planned) in
      totalHops > 0 \<and> int (length (tm_hopSNRs m)) \<ge> totalHops)"

definition trace_echo :: "nat \<Rightarrow> int \<Rightarrow> trace_msg \<Rightarrow> trace_state \<Rightarrow> trace_state" where
  "trace_echo planned now m st =
     (case (activeTag st, waitStartedAt st) of
        (Some tag, Some startedAt) \<Rightarrow>
          if tm_tag m \<noteq> tag then st
          else if is_final planned m then
            st\<lparr>tr_result := Some \<lparr>res_companion = tm_companion m, res_tag = tm_tag m, res_path = tm_path m,
                 res_hopSNRs = tm_hopSNRs m, res_snr = tm_snr m, res_elapsedMs = now - startedAt\<rparr>,
               liveSNRs := tm_hopSNRs m, activeTag := None, waitStartedAt := None, deadlineAt := None,
               waitError := None, tr_timer := None\<rparr>
          else armTimeout now
            (st\<lparr>liveSNRs := (if length (tm_hopSNRs m) > length (liveSNRs st) then tm_hopSNRs m else liveSNRs st)\<rparr>)
      | _ \<Rightarrow> st)"

definition remainingMs :: "int \<Rightarrow> trace_state \<Rightarrow> int" where
  "remainingMs tickNow st =
     (case (activeTag st, waitStartedAt st, deadlineAt st) of
        (Some _, Some _, Some d) \<Rightarrow> max 0 (d - tickNow) | _ \<Rightarrow> 0)"

text \<open>One step of the page, with the clock that only advances; a timer fires at its time; the send button is
  off while a trace is in flight.\<close>

inductive trace_step :: "int \<times> trace_state \<Rightarrow> int \<times> trace_state \<Rightarrow> bool" where
  asked: "activeTag st = None \<Longrightarrow> trace_step (now, st) (now, trace_asked st)"
| sent: "trace_step (now, st) (now, trace_sent tag now st)"
| echo: "trace_step (now, st) (now, trace_echo planned now m st)"
| tick: "now \<le> now' \<Longrightarrow> tr_timer st = None \<or> now' \<le> the (tr_timer st) \<Longrightarrow> trace_step (now, st) (now', st)"
| fires: "tr_timer st = Some now \<Longrightarrow> trace_step (now, st) (now, timer_fired st)"

inductive trace_reachable :: "int \<times> trace_state \<Rightarrow> bool" where
  start: "trace_reachable (now, trace_start)"
| step: "trace_reachable s \<Longrightarrow> trace_step s s' \<Longrightarrow> trace_reachable s'"

inductive_cases trace_stepE: "trace_step s s'"

definition wait_ok :: "int \<times> trace_state \<Rightarrow> bool" where
  "wait_ok s \<longleftrightarrow> (case s of (now, st) \<Rightarrow>
     (case activeTag st of
        None \<Rightarrow> waitStartedAt st = None \<and> deadlineAt st = None \<and> tr_timer st = None
      | Some _ \<Rightarrow> (\<exists>a t. waitStartedAt st = Some a \<and> a \<le> now \<and> tr_timer st = Some t \<and> deadlineAt st = Some t
          \<and> now \<le> t \<and> t \<le> now + TRACE_TIMEOUT_MS)))"

lemma wait_ok_step: "trace_step s s' \<Longrightarrow> wait_ok s \<Longrightarrow> wait_ok s'"
proof (induction rule: trace_step.induct)
  case (asked st now)
  then show ?case by (simp add: wait_ok_def trace_asked_def)
next
  case (sent now st tag)
  show ?case by (simp add: wait_ok_def trace_sent_def armTimeout_def TRACE_TIMEOUT_MS_def)
next
  case (echo now st planned m)
  then show ?case
    by (auto simp: wait_ok_def trace_echo_def armTimeout_def TRACE_TIMEOUT_MS_def split: option.splits)
next
  case (tick now now' st)
  then show ?case by (auto simp: wait_ok_def split: option.splits)
next
  case (fires st now)
  show ?case by (simp add: wait_ok_def timer_fired_def)
qed

lemma wait_ok_reachable: "trace_reachable s \<Longrightarrow> wait_ok s"
proof (induction rule: trace_reachable.induct)
  case (start now)
  show ?case by (simp add: wait_ok_def trace_start_def)
qed (rule wait_ok_step)

lemma silence:
  "trace_reachable (now, st) \<Longrightarrow> tr_timer st = Some t \<Longrightarrow> now \<le> t \<Longrightarrow> trace_reachable (t, timer_fired st)"
  by (rule trace_reachable.step [OF trace_reachable.step [OF _ tick] fires]) simp_all

text \<open>C10: Every wait for a trace ends. Whenever a trace is in flight its silence timer is pending and due
  within five seconds, and with no further echo the page reaches the moment it fires: the trace is over, with
  the error shown; an echo before that restarts the five seconds or is the final one.\<close>

theorem trace_wait_ends:
  assumes "trace_reachable (now, st)" and "activeTag st = Some tag"
  shows "\<exists>t. tr_timer st = Some t \<and> now \<le> t \<and> t \<le> now + TRACE_TIMEOUT_MS
    \<and> trace_reachable (t, timer_fired st)
    \<and> activeTag (timer_fired st) = None \<and> tr_timer (timer_fired st) = None \<and> waitError (timer_fired st) \<noteq> None"
proof -
  obtain t where t: "tr_timer st = Some t" "now \<le> t" "t \<le> now + TRACE_TIMEOUT_MS"
    using wait_ok_reachable [OF assms(1)] assms(2) by (auto simp: wait_ok_def)
  with silence [OF assms(1) t(1,2)] show ?thesis by (simp add: timer_fired_def)
qed

theorem trace_wait_ends_witness:
  "\<exists>t. tr_timer (trace_sent 7 100 trace_start) = Some t \<and> 100 \<le> t \<and> t \<le> 100 + TRACE_TIMEOUT_MS
    \<and> trace_reachable (t, timer_fired (trace_sent 7 100 trace_start))"
proof -
  have "trace_reachable (100, trace_sent 7 100 trace_start)"
    by (rule trace_reachable.step [OF trace_reachable.start trace_step.sent])
  moreover have "activeTag (trace_sent 7 100 trace_start) = Some 7" by (simp add: trace_sent_def armTimeout_def)
  ultimately show ?thesis using trace_wait_ends by blast
qed

text \<open>A final echo that overtakes the answer to its own request is not matched, and the trace times out.\<close>

lemma early_echo_lost:
  "(let m = \<lparr>tm_companion = ''c'', tm_tag = 7, tm_hops = 1, tm_path = [''a4''], tm_hopSNRs = [5], tm_snr = Some 3\<rparr>;
        st = timer_fired (trace_sent 7 200 (trace_echo 1 190 m (trace_asked trace_start))) in
    tr_result st = None \<and> waitError st \<noteq> None)"
  by code_simp

text \<open>Only the request in flight is behind the send button; between a request and its answer a second
  one can start, and the first trace's result is then shown beside the wait for the second.\<close>

lemma second_send_mixes:
  "(let m = \<lparr>tm_companion = ''c'', tm_tag = 7, tm_hops = 1, tm_path = [''a4''], tm_hopSNRs = [5], tm_snr = Some 3\<rparr>;
        st = trace_sent 8 300 (trace_echo 1 250 m (trace_sent 7 200 (trace_asked (trace_asked trace_start)))) in
    activeTag st = Some 8 \<and> map_option res_tag (tr_result st) = Some 7)"
  by code_simp

section \<open>A mirrored route\<close>

lemma hop_chunks_append:
  "0 < step \<Longrightarrow> length s mod step = 0 \<Longrightarrow> hop_chunks step (s @ u) = hop_chunks step s @ hop_chunks step u"
proof (induction step s rule: hop_chunks.induct)
  case (1 step s)
  show ?case
  proof (cases "length s < step")
    case True
    with "1.prems" have "s = []" by simp
    with True show ?thesis by (simp add: hop_chunks_Nil)
  next
    case False
    then have "length (drop step s) mod step = 0" using "1.prems" by (simp add: le_mod_geq)
    with 1 False show ?thesis by (simp add: hop_chunks_Cons)
  qed
qed

lemma hop_chunks_concat:
  "0 < step \<Longrightarrow> \<forall>x\<in>set xs. length x = step \<and> to_lower x = x \<Longrightarrow> hop_chunks step (concat xs) = xs"
proof (induction xs)
  case (Cons x xs)
  then have "hop_chunks step x = [x]" by (simp add: hop_chunks_Cons hop_chunks_Nil)
  with Cons show ?case by (simp add: hop_chunks_append)
qed (simp add: hop_chunks_Nil)

lemma hop_chunks_members:
  "x \<in> set (hop_chunks step s) \<Longrightarrow> length x = step \<and> to_lower x = x"
proof (induction step s rule: hop_chunks.induct)
  case (1 step s)
  show ?case
  proof (cases "step = 0 \<or> length s < step")
    case True
    with "1.prems" show ?thesis by (auto simp: hop_chunks_Nil)
  next
    case False
    with 1 show ?thesis by (auto simp: hop_chunks_Cons)
  qed
qed

text \<open>A mirrored route goes out along the hops and comes back over all but the last of them in reverse, hop by hop
  at the chosen size: the hops of the mirrored hex read the same from either end.\<close>

theorem mirrored_route:
  assumes "0 < hs" and "length base mod (2 * hs) = 0"
  defines "hops \<equiv> hexToHopHashes base (int hs)"
  shows "hexToHopHashes (mirror_hex (int hs) base) (int hs) = hops @ rev (butlast hops)
    \<and> rev (hexToHopHashes (mirror_hex (int hs) base) (int hs)) = hexToHopHashes (mirror_hex (int hs) base) (int hs)"
proof -
  have step: "hexToHopHashes s (int hs) = hop_chunks (2 * hs) s" for s
    using assms(1) by (simp add: hexToHopHashes_def nat_mult_distrib mult.commute)
  have hops: "hops = hop_chunks (2 * hs) base" by (simp add: hops_def step)
  have "hexToHopHashes (mirror_hex (int hs) base) (int hs) = hops @ rev (butlast hops)"
  proof (cases "length hops \<le> 1")
    case True
    then have "butlast hops = []" by (cases hops) auto
    then show ?thesis using True by (simp add: mirror_hex_def flip: hops_def)
  next
    case False
    have "hop_chunks (2 * hs) (concat (rev (butlast hops))) = rev (butlast hops)"
      using assms(1) hop_chunks_members [OF in_set_butlastD] by (intro hop_chunks_concat) (auto simp: hops)
    then show ?thesis
      using False assms(1,2) by (simp add: mirror_hex_def step hop_chunks_append Let_def flip: hops)
  qed
  moreover have "rev (hops @ rev (butlast hops)) = hops @ rev (butlast hops)"
    by (cases hops rule: rev_cases) simp_all
  ultimately show ?thesis by metis
qed

theorem mirrored_route_witness:
  "hexToHopHashes (mirror_hex 1 ''a4c1e2'') 1 = [''a4'', ''c1'', ''e2'', ''c1'', ''a4'']"
proof -
  have "hexToHopHashes ''a4c1e2'' 1 = [''a4'', ''c1'', ''e2'']" by code_simp
  with mirrored_route [of 1 "''a4c1e2''"] show ?thesis by simp
qed


section \<open>The running test\<close>

record test_run = signal_run +
  tn_seq :: nat
  tn_sentAt :: int

datatype test_status = TestRunning | TestDone | TestCancelled | TestInterrupted

record signal_summary =
  sd_id :: nat
  sd_label :: string
  sd_path :: string
  sd_pathHashSize :: nat
  sd_count :: nat
  sd_intervalSecs :: nat
  sd_status :: test_status
  sd_startedAt :: int
  sd_finishedAt :: int
  sd_runsDone :: nat
  sd_okCount :: nat

record signal_detail = signal_summary +
  sd_runs :: "test_run list"

datatype test_msg = RunMsg nat test_run | StatusMsg nat test_status int

definition append_run :: "test_run \<Rightarrow> signal_detail \<Rightarrow> signal_detail" where
  "append_run r d = d\<lparr>sd_runsDone := sd_runsDone d + 1, sd_okCount := sd_okCount d + (if sg_ok r then 1 else 0),
     sd_runs := sd_runs d @ [r\<lparr>sg_hopSNRs := Some (nullish (sg_hopSNRs r) [])\<rparr>]\<rparr>"

fun on_test_msg :: "test_msg \<Rightarrow> signal_detail option \<Rightarrow> signal_detail option" where
  "on_test_msg (RunMsg i r) prev = map_option (\<lambda>d. if sd_id d = i then append_run r d else d) prev"
| "on_test_msg (StatusMsg i s fin) prev =
     map_option (\<lambda>d. if sd_id d = i then d\<lparr>sd_status := s, sd_finishedAt := fin\<rparr> else d) prev"

definition running_to_resume :: "signal_summary list option \<Rightarrow> signal_detail option \<Rightarrow> nat option" where
  \<comment> \<open>the test fetched when the list arrives\<close>
  "running_to_resume savedTests activeTest =
     (if savedTests = None \<or> activeTest \<noteq> None then None
      else map_option sd_id (find (\<lambda>t. sd_status t = TestRunning) (the savedTests)))"

definition toggle_compare :: "nat \<Rightarrow> nat list \<Rightarrow> nat list" where
  "toggle_compare i prev = (if i \<in> set prev then filter (\<lambda>x. x \<noteq> i) prev else prev @ [i])"

definition saved_hop_count :: "signal_summary \<Rightarrow> rat" where
  "saved_hop_count t = (if sd_pathHashSize t > 0 then of_nat (length (sd_path t)) / of_nat (sd_pathHashSize t * 2) else 0)"

definition successPct :: "signal_summary \<Rightarrow> int" where
  "successPct t = (if sd_runsDone t > 0 then js_round (of_nat (sd_okCount t) / of_nat (sd_runsDone t) * 100) else 0)"

definition max_hop :: "signal_stats option list \<Rightarrow> nat" where
  "max_hop stats = foldl max 0 (map (\<lambda>s. case s of Some x \<Rightarrow> length (ss_perHop x) | None \<Rightarrow> 0) stats)"

definition counts_ok :: "signal_detail \<Rightarrow> bool" where
  "counts_ok d \<longleftrightarrow> sd_runsDone d = length (sd_runs d) \<and> sd_okCount d = length (filter sg_ok (sd_runs d))"

lemma test_msg_counts: "pred_option counts_ok prev \<Longrightarrow> pred_option counts_ok (on_test_msg m prev)"
  by (cases m; cases prev) (auto simp: counts_ok_def append_run_def)

lemma success_pct_range:
  assumes "sd_okCount t \<le> sd_runsDone t"
  shows "0 \<le> successPct t \<and> successPct t \<le> 100"
proof -
  let ?q = "of_nat (sd_okCount t) / of_nat (sd_runsDone t) * 100 :: rat"
  have "0 \<le> ?q" "?q \<le> 100" if "sd_runsDone t > 0" using that assms by (simp_all add: divide_le_eq)
  then have "0 \<le> js_round ?q" "js_round ?q \<le> 100" if "sd_runsDone t > 0"
    using that by (simp_all add: js_round_def le_floor_iff floor_le_iff)
  then show ?thesis by (simp add: successPct_def)
qed

text \<open>A run is not matched by its number: one that the fetched detail already holds and whose message comes
  after it is on the panel twice.\<close>

lemma run_counted_twice:
  "(let r = \<lparr>sg_ok = True, sg_hopSNRs = None, sg_snr = None, sg_elapsedMs = 9, tn_seq = 1, tn_sentAt = 0\<rparr>;
        d = \<lparr>sd_id = 4, sd_label = [], sd_path = ''a4'', sd_pathHashSize = 1, sd_count = 20, sd_intervalSecs = 30,
          sd_status = TestRunning, sd_startedAt = 0, sd_finishedAt = 0, sd_runsDone = 1, sd_okCount = 1, sd_runs = [r]\<rparr> in
    map_option (map tn_seq \<circ> sd_runs) (on_test_msg (RunMsg 4 r) (Some d)) = Some [1, 1])"
  by code_simp

section \<open>The timeline\<close>

datatype step_state = StepActive | StepPending | StepDone | StepError

datatype step_badge = BadgeText string | BadgeCheck | BadgeCross

record timeline_step =
  ts_badge :: step_badge
  ts_label :: string
  ts_name :: "string option"
  ts_hashHex :: "string option"
  ts_snr :: "rat option"
  ts_showSignal :: bool
  ts_meta :: "string option"
  ts_metaError :: bool
  ts_state :: step_state

definition plain_step :: "step_badge \<Rightarrow> string \<Rightarrow> step_state \<Rightarrow> timeline_step" where
  "plain_step b l s = \<lparr>ts_badge = b, ts_label = l, ts_name = None, ts_hashHex = None, ts_snr = None,
     ts_showSignal = False, ts_meta = None, ts_metaError = False, ts_state = s\<rparr>"

definition hop_step :: "(string \<times> (string \<times> nat)) list \<Rightarrow> bool \<Rightarrow> rat list \<Rightarrow> nat \<Rightarrow> string \<Rightarrow> timeline_step" where
  "hop_step peerByHash waiting snrs i h =
     (let snr = list_at snrs i in
      (plain_step (BadgeText (to_upper (slice 0 2 h)))
        (''Hop '' @ show_nat (i + 1) @ '' '' @ [glyph_middot] @ '' Repeated the packet'')
        (if snr \<noteq> None then StepDone else if waiting \<and> i = length snrs then StepActive else StepPending))
        \<lparr>ts_name := hopName (map_of peerByHash h), ts_hashHex := Some h, ts_snr := snr, ts_showSignal := (snr \<noteq> None)\<rparr>)"

definition last_step :: "trace_result option \<Rightarrow> string option \<Rightarrow> timeline_step" where
  "last_step result waitErr =
     (case result of
        Some r \<Rightarrow> (plain_step BadgeCheck ''Received trace response'' StepDone)
          \<lparr>ts_meta := Some (''Duration: '' @ show_int (res_elapsedMs r) @ ''ms'')\<rparr>
      | None \<Rightarrow> if truthy_str waitErr
          then (plain_step BadgeCross ''No trace response'' StepError)\<lparr>ts_meta := waitErr, ts_metaError := True\<rparr>
          else (plain_step (BadgeText ''RX'') ''Awaiting trace response'' StepActive)
            \<lparr>ts_name := Some (''listening'' @ [glyph_ellipsis])\<rparr>)"

definition timeline_hashes :: "trace_result option \<Rightarrow> string list \<Rightarrow> string list" where
  "timeline_hashes result routeHs =
     (case result of Some r \<Rightarrow> if res_path r \<noteq> [] then map to_lower (res_path r) else routeHs | None \<Rightarrow> routeHs)"

definition TraceTimeline ::
    "bool \<Rightarrow> string option \<Rightarrow> trace_result option \<Rightarrow> string \<Rightarrow> string list \<Rightarrow> rat list \<Rightarrow>
     (string \<times> (string \<times> nat)) list \<Rightarrow> timeline_step list" where
  "TraceTimeline isWaiting waitErr result companionName routeHs live peerByHash =
     (let hashes = timeline_hashes result routeHs;
          snrs = (case result of Some r \<Rightarrow> res_hopSNRs r | None \<Rightarrow> live);
          first = (plain_step (BadgeText ''TX'') ''Started the trace'' StepDone)
            \<lparr>ts_name := Some (or_str companionName [glyph_dash]), ts_snr := Option.bind result res_snr,
             ts_showSignal := (Option.bind result res_snr \<noteq> None)\<rparr> in
      [first] @ map (\<lambda>i. hop_step peerByHash isWaiting snrs i (hashes ! i)) [0..<length hashes]
        @ [last_step result waitErr])"

text \<open>At most one hop pulses: the first without a reading, and only while the page waits.\<close>

lemma timeline_active_hop:
  "filter (\<lambda>i. ts_state (hop_step m waiting snrs i (hs ! i)) = StepActive) [0..<length hs]
    = (if waiting \<and> length snrs < length hs then [length snrs] else [])"
proof -
  have "ts_state (hop_step m waiting snrs i h) = StepActive \<longleftrightarrow> waiting \<and> i = length snrs" for i h
    by (simp add: hop_step_def plain_step_def list_at_def Let_def)
  then have "filter (\<lambda>i. ts_state (hop_step m waiting snrs i (hs ! i)) = StepActive) [0..<length hs]
      = filter (\<lambda>i. waiting \<and> i = length snrs) [0..<length hs]" by simp
  also have "\<dots> = (if waiting \<and> length snrs < length hs then [length snrs] else [])"
    by (induction hs rule: rev_induct) auto
  finally show ?thesis .
qed


end
