(* ===== verification/TelemetryMap.thy ===== *)
theory TelemetryMap
  imports ApiClient
begin

text \<open>
  \<open>components/TelemetryMapEditor.tsx\<close> and \<open>components/SourceSelect.tsx\<close>: which sensor readings a node
  publishes, on which channel and as which type. The server's list of entries is edited as channels
  of rows, each with a client key from a counter; the server's map is the record of its answer. A
  \<open>Map\<close> of issues is the list of its entries.
\<close>

section \<open>Sources\<close>

text \<open>Of a sensor and its readings, only what the choice of a source reads.\<close>

record report_reading =
  rr_metric :: string
  rr_label :: "string option"

record report_sensor =
  rs_id :: nat
  rs_name :: string
  rs_reports :: "string list"
  rs_readings :: "report_reading list"

record source_group =
  sg_sensorId :: nat
  sg_name :: string
  sg_readings :: "(string \<times> string) list"  \<comment> \<open>metric and label\<close>

definition label_reading :: "(string \<times> string) list \<Rightarrow> report_reading \<Rightarrow> (string \<times> string) list" where
  "label_reading labels r =
     (if map_of labels (rr_metric r) \<noteq> None
      then AList.update (rr_metric r) (or_str (nullish (rr_label r) []) (rr_metric r)) labels else labels)"

definition source_readings :: "report_sensor \<Rightarrow> (string \<times> string) list" where
  "source_readings s = foldl label_reading (foldl (\<lambda>m x. AList.update x x m) [] (rs_reports s)) (rs_readings s)"

definition sourceGroups :: "report_sensor list \<Rightarrow> nat option \<Rightarrow> source_group list" where
  "sourceGroups sensors excludeId =
     List.map_filter (\<lambda>s.
         if Some (rs_id s) = excludeId \<or> source_readings s = [] then None
         else Some \<lparr>sg_sensorId = rs_id s, sg_name = rs_name s, sg_readings = source_readings s\<rparr>) sensors"

definition sourceKey :: "nat \<Rightarrow> string \<Rightarrow> string" where
  "sourceKey sensorId metric = show_nat sensorId @ ''/'' @ metric"

definition source_chosen :: "string \<Rightarrow> nat \<times> string" where  \<comment> \<open>\<open>onValueChange\<close>\<close>
  "source_chosen v =
     (parse_digits (takeWhile (\<lambda>c. c \<noteq> CHR ''/'') v), drop 1 (dropWhile (\<lambda>c. c \<noteq> CHR ''/'') v))"

section \<open>The map\<close>

record telemetry_node =
  node_kind :: string
  node_id :: nat

record node_info =
  ti_node :: telemetry_node
  ti_name :: string
  ti_serves :: bool
  ti_reason :: "string option"

record map_entry =
  te_node :: telemetry_node
  te_channel :: nat
  te_type :: nat
  te_sensorId :: nat
  te_metric :: string

record lpp_type =
  lt_code :: nat
  lt_name :: string
  lt_unit :: "string option"
  lt_bytes :: nat
  lt_step :: rat

record telemetry_map =
  tp_nodes :: "node_info list"
  tp_entries :: "map_entry list"
  tp_types :: "lpp_type list"
  tp_defaults :: "(string \<times> nat) list"
  tp_selfChannel :: nat
  tp_selfTypes :: "nat list"
  tp_maxChannel :: nat
  tp_maxBytes :: nat

definition sameNode :: "telemetry_node \<Rightarrow> telemetry_node \<Rightarrow> bool" where
  "sameNode a b \<longleftrightarrow> node_kind a = node_kind b \<and> node_id a = node_id b"

record map_row =
  mw_key :: nat
  mw_type :: nat
  mw_sensorId :: nat
  mw_metric :: string

record map_channel =
  mc_key :: nat
  mc_channel :: nat
  mc_rows :: "map_row list"

fun has_channel :: "nat \<Rightarrow> map_channel list \<Rightarrow> bool" where
  "has_channel n chs = list_ex (\<lambda>c. mc_channel c = n) chs"

fun push_row :: "nat \<Rightarrow> map_row \<Rightarrow> map_channel list \<Rightarrow> map_channel list" where  \<comment> \<open>onto the first channel of the number\<close>
  "push_row n r [] = []"
| "push_row n r (c # cs) =
     (if mc_channel c = n then c\<lparr>mc_rows := mc_rows c @ [r]\<rparr> # cs else c # push_row n r cs)"

definition entry_row :: "map_entry \<Rightarrow> nat \<Rightarrow> map_row" where
  "entry_row e k = \<lparr>mw_key = k, mw_type = te_type e, mw_sensorId = te_sensorId e, mw_metric = te_metric e\<rparr>"

definition put_entry :: "map_channel list \<times> nat \<Rightarrow> map_entry \<Rightarrow> map_channel list \<times> nat" where
  \<comment> \<open>the second component is \<open>keySeq\<close>\<close>
  "put_entry s e =
     (if has_channel (te_channel e) (fst s)
      then (push_row (te_channel e) (entry_row e (snd s + 1)) (fst s), snd s + 1)
      else (fst s @ [\<lparr>mc_key = snd s + 1, mc_channel = te_channel e, mc_rows = [entry_row e (snd s + 2)]\<rparr>], snd s + 2))"

definition toChannels :: "map_entry list \<Rightarrow> nat \<Rightarrow> map_channel list \<times> nat" where
  "toChannels entries keySeq = foldl put_entry ([], keySeq) entries"

definition row_entry :: "telemetry_node \<Rightarrow> nat \<Rightarrow> map_row \<Rightarrow> map_entry" where
  "row_entry node ch r = \<lparr>te_node = node, te_channel = ch, te_type = mw_type r, te_sensorId = mw_sensorId r, te_metric = mw_metric r\<rparr>"

definition toEntries :: "map_channel list \<Rightarrow> telemetry_node \<Rightarrow> map_entry list" where
  "toEntries channels node = concat (map (\<lambda>c. map (row_entry node (mc_channel c)) (mc_rows c)) channels)"

section \<open>What stops a save\<close>

definition an_type :: "string \<Rightarrow> string" where
  "an_type nm = (if nm \<noteq> [] \<and> lower_char (hd nm) \<in> set ''aeiou'' then ''an '' else ''a '') @ nm"

definition type_of :: "telemetry_map \<Rightarrow> nat \<Rightarrow> lpp_type option" where
  \<comment> \<open>\<open>byCode\<close>: a later entry of one code wins\<close>
  "type_of m code = find (\<lambda>t. lt_code t = code) (rev (tp_types m))"

definition type_bytes :: "telemetry_map \<Rightarrow> nat \<Rightarrow> nat" where
  "type_bytes m code = (case type_of m code of Some t \<Rightarrow> lt_bytes t | None \<Rightarrow> 0)"

definition map_bytes :: "telemetry_map \<Rightarrow> map_channel list \<Rightarrow> nat" where
  "map_bytes m channels =
     foldl (\<lambda>n c. n + foldl (\<lambda>k r. k + type_bytes m (mw_type r)) 0 (mc_rows c)) 0 channels"

definition reports_metric :: "source_group list \<Rightarrow> nat \<Rightarrow> string \<Rightarrow> bool" where
  "reports_metric sources sensor metric =
     (case find (\<lambda>g. sg_sensorId g = sensor) sources of
        None \<Rightarrow> False | Some g \<Rightarrow> list_ex (\<lambda>x. fst x = metric) (sg_readings g))"

definition row_issue ::
    "telemetry_map \<Rightarrow> report_sensor list \<Rightarrow> source_group list \<Rightarrow> nat \<Rightarrow> nat list \<Rightarrow> map_row \<Rightarrow> string option" where
  "row_issue m sensors sources ch seenType r =
     (if mw_sensorId r = 0 \<or> mw_metric r = [] then Some ''Nothing chosen yet, so this channel cannot be saved.''
      else if \<not> list_ex (\<lambda>s. rs_id s = mw_sensorId r) sensors
        then Some ''That sensor has been removed. Choose another reading.''
      else if \<not> reports_metric sources (mw_sensorId r) (mw_metric r)
        then Some (''That sensor no longer reports '' @ mw_metric r @ ''. Choose another reading.'')
      else if ch = tp_selfChannel m \<and> mw_type r \<notin> set (tp_selfTypes m)
        then Some (''Channel '' @ show_nat (tp_selfChannel m)
          @ '' is this node's own: it carries a battery or a board temperature.'')
      else if mw_type r \<in> set seenType
        then Some (''Channel '' @ show_nat ch @ '' already sends ''
          @ an_type (case type_of m (mw_type r) of Some t \<Rightarrow> lt_name t | None \<Rightarrow> []) @ ''.'')
      else None)"

fun rows_issues ::
    "telemetry_map \<Rightarrow> report_sensor list \<Rightarrow> source_group list \<Rightarrow> nat \<Rightarrow> nat list \<Rightarrow> map_row list \<Rightarrow> (nat \<times> string) list" where
  "rows_issues m sensors sources ch seenType [] = []"
| "rows_issues m sensors sources ch seenType (r # rs) =
     (case row_issue m sensors sources ch seenType r of Some t \<Rightarrow> [(mw_key r, t)] | None \<Rightarrow> [])
     @ rows_issues m sensors sources ch (set_add (mw_type r) seenType) rs"

definition channel_issue :: "telemetry_map \<Rightarrow> nat list \<Rightarrow> map_channel \<Rightarrow> string option" where
  "channel_issue m seen c =
     (if mc_channel c \<in> set seen then Some (''Channel '' @ show_nat (mc_channel c) @ '' is listed twice.'')
      else if mc_rows c = [] \<and> mc_channel c \<noteq> tp_selfChannel m then Some ''This channel has no readings.''
      else None)"

fun channels_issues :: "telemetry_map \<Rightarrow> nat list \<Rightarrow> map_channel list \<Rightarrow> (nat \<times> string) list" where
  "channels_issues m seen [] = []"
| "channels_issues m seen (c # cs) =
     (case channel_issue m seen c of Some t \<Rightarrow> [(mc_key c, t)] | None \<Rightarrow> [])
     @ channels_issues m (set_add (mc_channel c) seen) cs"

definition trouble ::
    "telemetry_map \<Rightarrow> report_sensor list \<Rightarrow> map_channel list \<Rightarrow> (nat \<times> string) list \<times> (nat \<times> string) list" where
  "trouble m sensors channels =
     (channels_issues m [] channels,
      concat (map (\<lambda>c. rows_issues m sensors (sourceGroups sensors None) (mc_channel c) [] (mc_rows c)) channels))"

definition map_blocked :: "telemetry_map \<Rightarrow> report_sensor list \<Rightarrow> map_channel list \<Rightarrow> bool" where
  "map_blocked m sensors channels \<longleftrightarrow>
     fst (trouble m sensors channels) \<noteq> [] \<or> snd (trouble m sensors channels) \<noteq> []
     \<or> map_bytes m channels > tp_maxBytes m"

section \<open>Editing\<close>

fun first_free :: "nat \<Rightarrow> nat list \<Rightarrow> nat \<Rightarrow> nat" where  \<comment> \<open>the loop, for at most so many steps\<close>
  "first_free 0 used n = n"
| "first_free (Suc k) used n = (if n \<in> set used then first_free k used (n + 1) else n)"

definition nextFree :: "telemetry_map \<Rightarrow> map_channel list \<Rightarrow> nat option" where
  "nextFree m channels =
     (let n = first_free (tp_maxChannel m - tp_selfChannel m) (map mc_channel channels) (tp_selfChannel m + 1) in
      if n \<le> tp_maxChannel m then Some n else None)"

type_synonym map_edit = "map_channel list \<times> nat"  \<comment> \<open>the channels and \<open>keySeq\<close>\<close>

definition addChannel :: "telemetry_map \<Rightarrow> map_edit \<Rightarrow> map_edit" where
  "addChannel m s =
     (case nextFree m (fst s) of None \<Rightarrow> s
      | Some n \<Rightarrow> (fst s @ [\<lparr>mc_key = snd s + 1, mc_channel = n, mc_rows = []\<rparr>], snd s + 1))"

definition own_type :: "telemetry_map \<Rightarrow> map_row \<Rightarrow> map_row" where
  \<comment> \<open>what a row becomes on the node's own channel\<close>
  "own_type m r =
     (case map_of (tp_defaults m) (mw_metric r) of
        Some t \<Rightarrow> if mw_type r \<notin> set (tp_selfTypes m) \<and> t \<in> set (tp_selfTypes m) then r\<lparr>mw_type := t\<rparr> else r
      | None \<Rightarrow> r)"

definition setChannelNumber :: "telemetry_map \<Rightarrow> nat \<Rightarrow> nat \<Rightarrow> map_edit \<Rightarrow> map_edit" where
  "setChannelNumber m key channel s =
     (map (\<lambda>c. if mc_key c \<noteq> key then c
        else if channel \<noteq> tp_selfChannel m then c\<lparr>mc_channel := channel\<rparr>
        else c\<lparr>mc_channel := channel, mc_rows := map (own_type m) (mc_rows c)\<rparr>) (fst s), snd s)"

definition removeChannel :: "nat \<Rightarrow> map_edit \<Rightarrow> map_edit" where
  "removeChannel key s = (filter (\<lambda>c. mc_key c \<noteq> key) (fst s), snd s)"

definition offered_types :: "telemetry_map \<Rightarrow> nat \<Rightarrow> lpp_type list" where
  "offered_types m ch =
     (if ch = tp_selfChannel m then filter (\<lambda>t. lt_code t \<in> set (tp_selfTypes m)) (tp_types m) else tp_types m)"

definition new_row_type :: "telemetry_map \<Rightarrow> map_channel \<Rightarrow> nat" where
  "new_row_type m c =
     (let offered = offered_types m (mc_channel c) in
      case find (\<lambda>t. lt_code t \<notin> mw_type ` set (mc_rows c)) offered of
        Some t \<Rightarrow> lt_code t
      | None \<Rightarrow> (case offered of t # _ \<Rightarrow> lt_code t | [] \<Rightarrow> 0))"

definition addRow :: "telemetry_map \<Rightarrow> nat \<Rightarrow> map_edit \<Rightarrow> map_edit" where
  \<comment> \<open>channel keys are distinct, so one row is added\<close>
  "addRow m key s =
     (map (\<lambda>c. if mc_key c \<noteq> key then c
        else c\<lparr>mc_rows := mc_rows c @ [\<lparr>mw_key = snd s + 1, mw_type = new_row_type m c, mw_sensorId = 0, mw_metric = []\<rparr>]\<rparr>)
        (fst s), snd s + 1)"

definition updateRow :: "nat \<Rightarrow> nat \<Rightarrow> (map_row \<Rightarrow> map_row) \<Rightarrow> map_edit \<Rightarrow> map_edit" where
  "updateRow channelKey rowKey next s =
     (map (\<lambda>c. if mc_key c = channelKey
        then c\<lparr>mc_rows := map (\<lambda>r. if mw_key r = rowKey then next r else r) (mc_rows c)\<rparr> else c) (fst s), snd s)"

definition removeRow :: "nat \<Rightarrow> nat \<Rightarrow> map_edit \<Rightarrow> map_edit" where
  "removeRow channelKey rowKey s =
     (map (\<lambda>c. if mc_key c = channelKey
        then c\<lparr>mc_rows := filter (\<lambda>r. mw_key r \<noteq> rowKey) (mc_rows c)\<rparr> else c) (fst s), snd s)"

definition choose_source :: "telemetry_map \<Rightarrow> nat \<Rightarrow> string \<Rightarrow> map_row \<Rightarrow> map_row" where
  "choose_source m sensorId metric r =
     r\<lparr>mw_sensorId := sensorId, mw_metric := metric,
       mw_type := (if mw_sensorId r \<noteq> 0 then mw_type r else nullish (map_of (tp_defaults m) metric) (mw_type r))\<rparr>"

definition node_entries :: "telemetry_map \<Rightarrow> telemetry_node \<Rightarrow> map_entry list" where
  "node_entries m node = filter (\<lambda>e. sameNode (te_node e) node) (tp_entries m)"

definition unserved_reason :: "telemetry_map \<Rightarrow> telemetry_node \<Rightarrow> string option" where
  \<comment> \<open>the warning of a node that stores a map but cannot answer\<close>
  "unserved_reason m node =
     (case find (\<lambda>n. sameNode (ti_node n) node) (tp_nodes m) of
        None \<Rightarrow> None | Some i \<Rightarrow> if ti_serves i then None else Some (nullish (ti_reason i) []))"

definition map_dirty :: "telemetry_map option \<Rightarrow> telemetry_node \<Rightarrow> map_channel list \<Rightarrow> bool" where
  "map_dirty m node channels \<longleftrightarrow> (case m of None \<Rightarrow> False | Some x \<Rightarrow> toEntries channels node \<noteq> node_entries x node)"

definition map_loaded :: "telemetry_map \<Rightarrow> telemetry_node \<Rightarrow> nat \<Rightarrow> telemetry_map option \<times> map_edit" where
  \<comment> \<open>a load, or the answer to a save: the rows on screen are the server's\<close>
  "map_loaded m node keySeq = (Some m, toChannels (node_entries m node) keySeq)"

definition map_refreshed :: "telemetry_map \<Rightarrow> telemetry_map option \<Rightarrow> telemetry_map option" where
  \<comment> \<open>\<open>reloadToken\<close>: all but the entries\<close>
  "map_refreshed m prev = Some (case prev of Some p \<Rightarrow> m\<lparr>tp_entries := tp_entries p\<rparr> | None \<Rightarrow> m)"

section \<open>The map on screen is the map that was read\<close>

lemma sameNode_eq [simp]: "sameNode a b \<longleftrightarrow> a = b"
  by (cases a; cases b) (simp add: sameNode_def)

lemma row_of_entry [simp]:
  "te_node e = node \<Longrightarrow> te_channel e = n \<Longrightarrow> row_entry node n (entry_row e k) = e"
  by (cases e) (simp add: row_entry_def entry_row_def)

lemma te_channel_row_entry [simp]: "te_channel (row_entry node n r) = n"
  by (simp add: row_entry_def)

lemma toEntries_simps [simp]:
  "toEntries [] node = []"
  "toEntries (c # cs) node = map (row_entry node (mc_channel c)) (mc_rows c) @ toEntries cs node"
  "toEntries (cs @ ds) node = toEntries cs node @ toEntries ds node"
  by (simp_all add: toEntries_def)

lemma has_channel_iff [simp]: "has_channel n cs \<longleftrightarrow> n \<in> mc_channel ` set cs"
  by (auto simp: list_ex_iff)

declare has_channel.simps [simp del]

lemma push_row_channels [simp]: "map mc_channel (push_row n r cs) = map mc_channel cs"
  by (induction cs) auto

lemma filter_row_entries:
  "filter (\<lambda>e. te_channel e = k) (map (row_entry node n) rs) = (if n = k then map (row_entry node n) rs else [])"
  by (induction rs) auto

lemma filter_other_channel:
  "k \<notin> mc_channel ` set cs \<Longrightarrow> filter (\<lambda>e. te_channel e = k) (toEntries cs node) = []"
  by (induction cs) (auto simp: filter_row_entries)

lemma push_row_filter:
  "distinct (map mc_channel cs) \<Longrightarrow> n \<in> mc_channel ` set cs \<Longrightarrow>
   filter (\<lambda>e. te_channel e = k) (toEntries (push_row n r cs) node)
     = filter (\<lambda>e. te_channel e = k) (toEntries cs node) @ (if n = k then [row_entry node n r] else [])"
proof (induction cs)
  case (Cons c cs)
  show ?case
  proof (cases "mc_channel c = n")
    case True
    with Cons.prems(1) have "n \<notin> mc_channel ` set cs" by auto
    with True show ?thesis using filter_other_channel [of k cs node]
      by (auto simp: filter_row_entries)
  next
    case False
    with Cons show ?thesis by simp
  qed
qed simp

lemma push_row_sorted:
  "sorted_wrt (<) (map mc_channel cs) \<Longrightarrow> n \<in> mc_channel ` set cs \<Longrightarrow> \<forall>c\<in>set cs. mc_channel c \<le> n \<Longrightarrow>
   toEntries (push_row n r cs) node = toEntries cs node @ [row_entry node n r]"
proof (induction cs)
  case (Cons c cs)
  show ?case
  proof (cases "mc_channel c = n")
    case True
    with Cons.prems have "cs = []" by (cases cs) auto
    with True show ?thesis by simp
  next
    case False
    with Cons show ?thesis by simp
  qed
qed simp

lemma toChannels_snoc: "toChannels (es @ [e]) k = put_entry (toChannels es k) e"
  by (simp add: toChannels_def)

lemma put_entry_channels:
  "map mc_channel (fst (put_entry s e)) =
     map mc_channel (fst s) @ (if te_channel e \<in> mc_channel ` set (fst s) then [] else [te_channel e])"
  by (simp add: put_entry_def)

lemma put_entry_filter:
  assumes "distinct (map mc_channel (fst s))" "te_node e = node"
  shows "filter (\<lambda>e. te_channel e = k) (toEntries (fst (put_entry s e)) node)
     = filter (\<lambda>e. te_channel e = k) (toEntries (fst s) node @ [e])"
  using assms by (simp add: put_entry_def push_row_filter filter_row_entries)

lemma toChannels_channels:
  "distinct (map mc_channel (fst (toChannels es k))) \<and> mc_channel ` set (fst (toChannels es k)) = te_channel ` set es"
proof (induction es rule: rev_induct)
  case (snoc e es)
  let ?s = "toChannels es k"
  have "set (map mc_channel (fst (put_entry ?s e))) = insert (te_channel e) (te_channel ` set es)"
    using snoc.IH unfolding put_entry_channels by auto
  moreover have "distinct (map mc_channel (fst (put_entry ?s e)))"
    using snoc.IH unfolding put_entry_channels by auto
  ultimately show ?case by (simp add: toChannels_snoc)
qed (simp add: toChannels_def)

lemma toChannels_filter:
  "\<forall>e\<in>set es. te_node e = node \<Longrightarrow>
   filter (\<lambda>e. te_channel e = n) (toEntries (fst (toChannels es k)) node) = filter (\<lambda>e. te_channel e = n) es"
proof (induction es rule: rev_induct)
  case (snoc e es)
  from put_entry_filter [of "toChannels es k" e node n] toChannels_channels [of es k] snoc
  show ?case by (simp add: toChannels_snoc)
qed (simp add: toChannels_def)

lemma toChannels_sorted:
  "\<forall>e\<in>set es. te_node e = node \<Longrightarrow> sorted (map te_channel es) \<Longrightarrow>
   sorted_wrt (<) (map mc_channel (fst (toChannels es k))) \<and> toEntries (fst (toChannels es k)) node = es"
proof (induction es rule: rev_induct)
  case (snoc e es)
  let ?s = "toChannels es k"
  have IH: "sorted_wrt (<) (map mc_channel (fst ?s))" "toEntries (fst ?s) node = es"
    using snoc by (simp_all add: sorted_append)
  have top: "\<forall>c\<in>set (fst ?s). mc_channel c \<le> te_channel e"
    using snoc.prems(2) toChannels_channels [of es k] by (force simp: sorted_append)
  have chs: "sorted_wrt (<) (map mc_channel (fst (put_entry ?s e)))"
    using IH(1) top unfolding put_entry_channels by (force simp: sorted_wrt_append order_le_less)
  have "toEntries (fst (put_entry ?s e)) node = es @ [e]"
    using IH top snoc.prems(1) by (simp add: put_entry_def push_row_sorted)
  with chs show ?case by (simp add: toChannels_snoc)
qed (simp add: toChannels_def)

lemma mset_by_channel:
  "(\<And>n. filter (\<lambda>e. te_channel e = n) (xs :: map_entry list) = filter (\<lambda>e. te_channel e = n) ys) \<Longrightarrow> mset xs = mset ys"
proof (rule multiset_eqI)
  fix e :: map_entry
  assume f: "\<And>n. filter (\<lambda>e. te_channel e = n) xs = filter (\<lambda>e. te_channel e = n) ys"
  have c: "count (mset zs) e = count (mset (filter (\<lambda>x. te_channel x = te_channel e) zs)) e" for zs
    by (induction zs) auto
  show "count (mset xs) e = count (mset ys) e" using c [of xs] c [of ys] by (simp only: f [of "te_channel e"])
qed

lemma source_readings_metrics: "set (map fst (source_readings s)) = set (rs_reports s)"
proof -
  have u: "fst ` set (AList.update k v m) = insert k (fst ` set m)" for k v and m :: "(string \<times> string) list"
    by (simp add: AList.dom_update)
  have a: "fst ` set (foldl (\<lambda>m x. AList.update x x m) m xs) = fst ` set m \<union> set xs"
    for m :: "(string \<times> string) list" and xs
    by (induction xs arbitrary: m) (simp_all add: u)
  have "fst ` set (label_reading m r) = fst ` set m" for m r
    by (auto simp: label_reading_def u insert_absorb dest: map_of_SomeD intro: rev_image_eqI)
  then have "fst ` set (foldl label_reading m rs) = fst ` set m" for m rs
    by (induction rs arbitrary: m) auto
  then show ?thesis using a [of "[]" "rs_reports s"] by (simp add: source_readings_def)
qed

lemma reports_metric_sound:
  assumes "reports_metric (sourceGroups sensors None) i metric"
  shows "\<exists>s\<in>set sensors. rs_id s = i \<and> metric \<in> set (rs_reports s)"
proof -
  from assms obtain g where g: "find (\<lambda>g. sg_sensorId g = i) (sourceGroups sensors None) = Some g"
      and m: "metric \<in> fst ` set (sg_readings g)"
    by (auto simp: reports_metric_def list_ex_iff split: option.splits)
  from g have "g \<in> set (sourceGroups sensors None)" "sg_sensorId g = i"
    by (auto simp: find_Some_iff)
  then obtain s where "s \<in> set sensors" "rs_id s = i" "sg_readings g = source_readings s"
    by (auto simp: sourceGroups_def List.map_filter_def split: if_splits)
  with m source_readings_metrics [of s] show ?thesis by auto
qed

lemma row_issue_None:
  assumes "row_issue m sensors (sourceGroups sensors None) ch seen r = None"
  shows "(\<exists>s\<in>set sensors. rs_id s = mw_sensorId r \<and> mw_metric r \<in> set (rs_reports s))"
    and "ch = tp_selfChannel m \<Longrightarrow> mw_type r \<in> set (tp_selfTypes m)"
    and "mw_type r \<notin> set seen"
  using assms reports_metric_sound by (auto simp: row_issue_def split: if_splits)

lemma rows_issues_Nil:
  "rows_issues m sensors (sourceGroups sensors None) ch seen rs = [] \<Longrightarrow>
   (\<forall>r\<in>set rs. \<exists>s\<in>set sensors. rs_id s = mw_sensorId r \<and> mw_metric r \<in> set (rs_reports s)) \<and>
   (ch = tp_selfChannel m \<longrightarrow> mw_type ` set rs \<subseteq> set (tp_selfTypes m)) \<and>
   distinct (map mw_type rs) \<and> set seen \<inter> mw_type ` set rs = {}"
proof (induction rs arbitrary: seen)
  case (Cons r rs)
  from Cons.prems have r: "row_issue m sensors (sourceGroups sensors None) ch seen r = None"
    and rs: "rows_issues m sensors (sourceGroups sensors None) ch (set_add (mw_type r) seen) rs = []"
    by (auto split: option.splits)
  from Cons.IH [OF rs] row_issue_None [OF r] show ?case by auto
qed simp

lemma channels_issues_Nil:
  "channels_issues m seen cs = [] \<Longrightarrow>
   distinct (map mc_channel cs) \<and> set seen \<inter> mc_channel ` set cs = {}
   \<and> (\<forall>c\<in>set cs. mc_rows c = [] \<longrightarrow> mc_channel c = tp_selfChannel m)"
proof (induction cs arbitrary: seen)
  case (Cons c cs)
  from Cons.prems have "channel_issue m seen c = None" and "channels_issues m (set_add (mc_channel c) seen) cs = []"
    by (auto split: option.splits)
  with Cons.IH [of "set_add (mc_channel c) seen"] show ?case
    by (auto simp: channel_issue_def split: if_splits)
qed simp

definition entry_key :: "map_entry \<Rightarrow> nat \<times> nat" where
  "entry_key e = (te_channel e, te_type e)"

lemma entry_keys_of_rows: "map entry_key (map (row_entry node n) rs) = map (\<lambda>r. (n, mw_type r)) rs"
  by (simp add: entry_key_def row_entry_def)

lemma entry_key_channels: "e \<in> set (toEntries cs node) \<Longrightarrow> fst (entry_key e) \<in> mc_channel ` set cs"
  by (induction cs) (auto simp: entry_key_def row_entry_def)

lemma toEntries_distinct:
  "distinct (map mc_channel cs) \<Longrightarrow> \<forall>c\<in>set cs. distinct (map mw_type (mc_rows c)) \<Longrightarrow>
   distinct (map entry_key (toEntries cs node))"
proof (induction cs)
  case (Cons c cs)
  have "distinct (map mw_type (mc_rows c))" using Cons.prems(2) by simp
  then have "distinct (map entry_key (map (row_entry node (mc_channel c)) (mc_rows c)))"
    unfolding entry_keys_of_rows by (simp add: distinct_map inj_on_def)
  moreover have "distinct (map entry_key (toEntries cs node))" using Cons by simp
  moreover have "x \<notin> set (map entry_key (toEntries cs node))"
    if "x \<in> set (map entry_key (map (row_entry node (mc_channel c)) (mc_rows c)))" for x
  proof
    assume "x \<in> set (map entry_key (toEntries cs node))"
    then have "fst x \<in> mc_channel ` set cs" using entry_key_channels by fastforce
    moreover have "fst x = mc_channel c" using that unfolding entry_keys_of_rows by auto
    ultimately show False using Cons.prems(1) by simp
  qed
  ultimately show ?case unfolding toEntries_simps map_append distinct_append by blast
qed simp

lemma map_bytes_entries: "map_bytes m cs = (\<Sum>e\<leftarrow>toEntries cs node. type_bytes m (te_type e))"
proof -
  have rows: "foldl (\<lambda>k r. k + type_bytes m (mw_type r)) k rs
      = k + (\<Sum>e\<leftarrow>map (row_entry node n) rs. type_bytes m (te_type e))" for k rs n
    by (induction rs arbitrary: k) (simp_all add: row_entry_def)
  have "foldl (\<lambda>n c. n + foldl (\<lambda>k r. k + type_bytes m (mw_type r)) 0 (mc_rows c)) k cs
      = k + (\<Sum>e\<leftarrow>toEntries cs node. type_bytes m (te_type e))" for k
  proof (induction cs arbitrary: k)
    case (Cons c cs)
    then show ?case by (simp add: rows [of 0 "mc_rows c" "mc_channel c"])
  qed simp
  then show ?thesis by (simp add: map_bytes_def)
qed

lemma first_free_spec:
  "\<exists>j \<le> k. first_free k used n = n + j \<and> (\<forall>i<j. n + i \<in> set used) \<and> (j < k \<longrightarrow> n + j \<notin> set used)"
proof (induction k used n rule: first_free.induct)
  case (2 k used n)
  show ?case
  proof (cases "n \<in> set used")
    case True
    then obtain j where j: "j \<le> k" "first_free k used (n + 1) = n + 1 + j" "\<forall>i<j. n + 1 + i \<in> set used"
        "j < k \<longrightarrow> n + 1 + j \<notin> set used" using 2 by blast
    have "\<forall>i<Suc j. n + i \<in> set used"
      using j(3) True by (auto simp: less_Suc_eq_0_disj)
    then show ?thesis using j True by (intro exI [of _ "Suc j"]) simp
  next
    case False
    then show ?thesis by (intro exI [of _ 0]) simp
  qed
qed simp

lemma nextFree_cases:
  "case nextFree m cs of
     Some n \<Rightarrow> tp_selfChannel m < n \<and> n \<le> tp_maxChannel m \<and> n \<notin> mc_channel ` set cs
       \<and> {tp_selfChannel m<..<n} \<subseteq> mc_channel ` set cs
   | None \<Rightarrow> {tp_selfChannel m<..tp_maxChannel m} \<subseteq> mc_channel ` set cs"
proof -
  let ?k = "tp_maxChannel m - tp_selfChannel m"
  obtain j where j: "j \<le> ?k" "first_free ?k (map mc_channel cs) (tp_selfChannel m + 1) = tp_selfChannel m + 1 + j"
      "\<forall>i<j. tp_selfChannel m + 1 + i \<in> set (map mc_channel cs)"
      "j < ?k \<longrightarrow> tp_selfChannel m + 1 + j \<notin> set (map mc_channel cs)"
    using first_free_spec [of ?k "map mc_channel cs" "tp_selfChannel m + 1"] by blast
  have used: "n \<in> mc_channel ` set cs" if lo: "tp_selfChannel m < n" and hi: "n < tp_selfChannel m + 1 + j" for n
  proof -
    obtain i where "n = Suc (tp_selfChannel m + i)" using less_imp_Suc_add [OF lo] by blast
    with hi j(3) show ?thesis by auto
  qed
  show ?thesis
  proof (cases "tp_selfChannel m + 1 + j \<le> tp_maxChannel m")
    case True
    then have "j < ?k" by arith
    with j True used show ?thesis by (auto simp: nextFree_def Let_def)
  next
    case False
    with j used show ?thesis by (auto simp: nextFree_def Let_def)
  qed
qed

section \<open>Properties\<close>

text \<open>C29: Round trip. What the editor shows after a load is what the server holds: whatever the order of
  the entries, every channel carries its own in order, none lost; and as the server lists them by channel,
  writing the rows back gives the same list, so that a page just loaded, or just saved, has nothing to save.\<close>
theorem loaded_map_unchanged:
  assumes "sorted (map te_channel (node_entries m node))"
  shows "toEntries (fst (snd (map_loaded m node keySeq))) node = node_entries m node
    \<and> \<not> map_dirty (fst (map_loaded m node keySeq)) node (fst (snd (map_loaded m node keySeq)))
    \<and> distinct (map mc_channel (fst (snd (map_loaded m node keySeq))))
    \<and> mset (toEntries (fst (toChannels (rev (node_entries m node)) keySeq)) node) = mset (node_entries m node)"
proof -
  have n: "\<forall>e\<in>set (node_entries m node). te_node e = node" by (simp add: node_entries_def)
  have eq: "toEntries (fst (toChannels (node_entries m node) keySeq)) node = node_entries m node"
    using toChannels_sorted [OF n assms] by simp
  have "mset (toEntries (fst (toChannels (rev (node_entries m node)) keySeq)) node)
      = mset (rev (node_entries m node))"
    using n by (intro mset_by_channel toChannels_filter) simp
  with eq toChannels_channels show ?thesis by (simp add: map_loaded_def map_dirty_def)
qed

definition example_map :: telemetry_map where
  "example_map =
     \<lparr>tp_nodes = [], tp_entries =
        [\<lparr>te_node = \<lparr>node_kind = ''repeater'', node_id = 1\<rparr>, te_channel = 1, te_type = 116, te_sensorId = 3, te_metric = ''voltage''\<rparr>,
         \<lparr>te_node = \<lparr>node_kind = ''repeater'', node_id = 1\<rparr>, te_channel = 2, te_type = 103, te_sensorId = 3, te_metric = ''temperature''\<rparr>],
      tp_types = [\<lparr>lt_code = 103, lt_name = ''Temperature'', lt_unit = None, lt_bytes = 4, lt_step = 1/10\<rparr>,
                  \<lparr>lt_code = 116, lt_name = ''Voltage'', lt_unit = None, lt_bytes = 4, lt_step = 1/100\<rparr>],
      tp_defaults = [(''voltage'', 116)], tp_selfChannel = 1, tp_selfTypes = [103, 116], tp_maxChannel = 255, tp_maxBytes = 160\<rparr>"

definition example_node :: telemetry_node where
  "example_node = \<lparr>node_kind = ''repeater'', node_id = 1\<rparr>"

definition example_sensors :: "report_sensor list" where
  "example_sensors = [\<lparr>rs_id = 3, rs_name = ''board'', rs_reports = [''voltage'', ''temperature''], rs_readings = []\<rparr>]"

lemma example_map_sorted: "sorted (map te_channel (node_entries example_map example_node))"
  by code_simp

theorem loaded_map_unchanged_witness:
  "\<not> map_dirty (fst (map_loaded example_map example_node 0)) example_node (fst (snd (map_loaded example_map example_node 0)))
    \<and> length (node_entries example_map example_node) = 2"
  using loaded_map_unchanged [OF example_map_sorted, of 0] by (simp add: example_map_def example_node_def node_entries_def)

text \<open>C28: Safety. A map the editor lets through is one the server can publish: no channel carries a type
  twice, every entry points at a reading that its sensor reports, the node's own channel carries only the
  node's own types, no other channel is empty, and the reply fits the packet.\<close>
theorem saved_map_publishable:
  assumes "\<not> map_blocked m sensors channels"
  shows "distinct (map entry_key (toEntries channels node))
    \<and> (\<forall>e\<in>set (toEntries channels node).
        (\<exists>s\<in>set sensors. rs_id s = te_sensorId e \<and> te_metric e \<in> set (rs_reports s))
        \<and> te_node e = node \<and> (te_channel e = tp_selfChannel m \<longrightarrow> te_type e \<in> set (tp_selfTypes m)))
    \<and> (\<forall>c\<in>set channels. mc_channel c = tp_selfChannel m \<or> mc_channel c \<in> te_channel ` set (toEntries channels node))
    \<and> (\<Sum>e\<leftarrow>toEntries channels node. type_bytes m (te_type e)) \<le> tp_maxBytes m"
proof (intro conjI ballI)
  from assms have ch: "channels_issues m [] channels = []"
    and rs: "\<forall>c\<in>set channels. rows_issues m sensors (sourceGroups sensors None) (mc_channel c) [] (mc_rows c) = []"
    by (auto simp: map_blocked_def trouble_def)
  note rows = rows_issues_Nil [OF bspec [OF rs]]
  show "distinct (map entry_key (toEntries channels node))"
    using rows channels_issues_Nil [OF ch] by (intro toEntries_distinct) blast+
  show "mc_channel c = tp_selfChannel m \<or> mc_channel c \<in> te_channel ` set (toEntries channels node)"
    if c: "c \<in> set channels" for c
  proof (cases "mc_rows c")
    case Nil
    with channels_issues_Nil [OF ch] c show ?thesis by blast
  next
    case (Cons r rs)
    with c have "row_entry node (mc_channel c) r \<in> set (toEntries channels node)"
      unfolding toEntries_def set_concat set_map by (intro UN_I [of "map (row_entry node (mc_channel c)) (mc_rows c)"] imageI) auto
    then show ?thesis by (metis image_eqI te_channel_row_entry)
  qed
  show "(\<Sum>e\<leftarrow>toEntries channels node. type_bytes m (te_type e)) \<le> tp_maxBytes m"
    using assms map_bytes_entries [of m channels node] by (simp add: map_blocked_def)
  fix e assume "e \<in> set (toEntries channels node)"
  then obtain c r where c: "c \<in> set channels" "r \<in> set (mc_rows c)" "e = row_entry node (mc_channel c) r"
    by (auto simp: toEntries_def)
  from rows [OF c(1)] c(2,3) show "\<exists>s\<in>set sensors. rs_id s = te_sensorId e \<and> te_metric e \<in> set (rs_reports s)"
    and "te_node e = node" and "te_channel e = tp_selfChannel m \<longrightarrow> te_type e \<in> set (tp_selfTypes m)"
    by (auto simp: row_entry_def)
qed

lemma example_map_savable: "\<not> map_blocked example_map example_sensors (fst (snd (map_loaded example_map example_node 0)))"
  by code_simp

theorem saved_map_publishable_witness:
  "distinct (map entry_key (toEntries (fst (snd (map_loaded example_map example_node 0))) example_node))
    \<and> map entry_key (toEntries (fst (snd (map_loaded example_map example_node 0))) example_node) = [(1, 116), (2, 103)]"
proof
  show "distinct (map entry_key (toEntries (fst (snd (map_loaded example_map example_node 0))) example_node))"
    using saved_map_publishable [OF example_map_savable, of example_node] by blast
qed code_simp

text \<open>Bounds. The channel offered next is the least free one above the node's own and within the
  protocol's range, and it is what is added; none is offered only when every channel is taken.\<close>
theorem next_channel_least_free:
  "case nextFree m (fst s) of
     Some n \<Rightarrow> tp_selfChannel m < n \<and> n \<le> tp_maxChannel m \<and> n \<notin> mc_channel ` set (fst s)
       \<and> {tp_selfChannel m<..<n} \<subseteq> mc_channel ` set (fst s)
       \<and> map mc_channel (fst (addChannel m s)) = map mc_channel (fst s) @ [n]
   | None \<Rightarrow> {tp_selfChannel m<..tp_maxChannel m} \<subseteq> mc_channel ` set (fst s) \<and> addChannel m s = s"
  using nextFree_cases [of m "fst s"] by (auto simp: addChannel_def split: option.splits)

end
