(* ===== verification/Json.thy ===== *)
theory Json
  imports Http
begin

text \<open>
  \<open>JSON.stringify\<close> and \<open>JSON.parse\<close>, as the forms that keep their rows as JSON text use them. The text
  of a number is the parameter \<open>num\<close>; a number read back is its exact decimal value. A member that is
  repeated keeps its place and takes the later value. The reader is bounded by the length of the text, which
  is always enough, as each call consumes a character.
\<close>

section \<open>Writing\<close>

abbreviation json_quote :: char where "json_quote \<equiv> CHR 0x22"
abbreviation backslash :: char where "backslash \<equiv> CHR 0x5C"

definition hex_low :: "nat \<Rightarrow> char" where
  "hex_low n = (if n < 10 then char_of (48 + n) else char_of (87 + n))"

definition short_escapes :: "(char \<times> char) list" where  \<comment> \<open>a character and the letter that stands for it\<close>
  "short_escapes = [(json_quote, json_quote), (backslash, backslash), (CHR 8, CHR ''b''), (CHR 12, CHR ''f''),
     (CHR 10, CHR ''n''), (CHR 13, CHR ''r''), (CHR 9, CHR ''t'')]"

definition json_escape :: "char \<Rightarrow> string" where
  "json_escape c =
     (case map_of short_escapes c of
        Some e \<Rightarrow> [backslash, e]
      | None \<Rightarrow> if (of_char c :: nat) < 32
          then [backslash, CHR ''u'', CHR ''0'', CHR ''0'', hex_low (of_char c div 16), hex_low (of_char c mod 16)]
          else [c])"

definition json_string :: "string \<Rightarrow> string" where
  "json_string s = json_quote # concat (map json_escape s) @ [json_quote]"

fun json_text :: "(rat \<Rightarrow> string) \<Rightarrow> json \<Rightarrow> string" where
  "json_text num JNull = ''null''"
| "json_text num (JBool b) = (if b then ''true'' else ''false'')"
| "json_text num (JNum x) = num x"
| "json_text num (JStr s) = json_string s"
| "json_text num (JArr js) = ''['' @ join '','' (map (json_text num) js) @ '']''"
| "json_text num (JObj fs) =
     CHR 0x7B # join '','' (map (\<lambda>p. json_string (fst p) @ CHR '':'' # json_text num (snd p)) fs) @ [CHR 0x7D]"

section \<open>Reading\<close>

definition json_space :: "char \<Rightarrow> bool" where
  "json_space c \<longleftrightarrow> (of_char c :: nat) \<in> {9, 10, 13, 32}"

definition skip_ws :: "string \<Rightarrow> string" where
  "skip_ws s = dropWhile json_space s"

definition unescape :: "char \<Rightarrow> char option" where
  "unescape e = map_of ((CHR ''/'', CHR ''/'') # map (\<lambda>p. (snd p, fst p)) short_escapes) e"

definition push_char :: "char \<Rightarrow> (string \<times> string) option \<Rightarrow> (string \<times> string) option" where
  "push_char c r = map_option (\<lambda>p. (c # fst p, snd p)) r"

fun read_str :: "string \<Rightarrow> (string \<times> string) option" where  \<comment> \<open>after the opening quote\<close>
  "read_str [] = None"
| "read_str (c # s) =
     (if c = json_quote then Some ([], s)
      else if c = backslash then
        (case s of
           [] \<Rightarrow> None
         | e # t \<Rightarrow>
             if e = CHR ''u'' then
               (case t of
                  p # q # x # y # u \<Rightarrow>
                    if list_all is_hex [p, q, x, y]
                    then push_char (char_of (16 * hex_value x + hex_value y)) (read_str u) else None
                | _ \<Rightarrow> None)
             else (case unescape e of None \<Rightarrow> None | Some d \<Rightarrow> push_char d (read_str t)))
      else if (of_char c :: nat) < 32 then None
      else push_char c (read_str s))"

definition digits_of :: "string \<Rightarrow> string \<times> string" where
  "digits_of s = (takeWhile is_digit s, dropWhile is_digit s)"

definition read_exponent :: "string \<Rightarrow> (rat \<times> string) option" where  \<comment> \<open>the factor\<close>
  "read_exponent s =
     (case s of
        c # t \<Rightarrow>
          if c \<noteq> CHR ''e'' \<and> c \<noteq> CHR ''E'' then Some (1, s)
          else (let sgn = (case t of d # _ \<Rightarrow> if d = CHR ''-'' then - 1 else 1 | [] \<Rightarrow> (1::int));
                    u = (case t of d # r \<Rightarrow> if d = CHR ''-'' \<or> d = CHR ''+'' then r else t | [] \<Rightarrow> []);
                    ds = digits_of u in
                if fst ds = [] then None
                else Some (if sgn < 0 then 1 / 10 ^ parse_digits (fst ds) else 10 ^ parse_digits (fst ds), snd ds))
      | [] \<Rightarrow> Some (1, []))"

definition read_number :: "string \<Rightarrow> (rat \<times> string) option" where
  "read_number s =
     (let neg = (case s of c # _ \<Rightarrow> c = CHR ''-'' | [] \<Rightarrow> False);
          whole = digits_of (if neg then drop 1 s else s) in
      if fst whole = [] \<or> (length (fst whole) > 1 \<and> hd (fst whole) = CHR ''0'') then None
      else let frac = (case snd whole of c # r \<Rightarrow> if c = CHR ''.'' then Some (digits_of r) else None | [] \<Rightarrow> None) in
        if map_option fst frac = Some [] then None
        else let ds = nullish (map_option fst frac) []; rest = nullish (map_option snd frac) (snd whole) in
          map_option (\<lambda>f. ((if neg then - 1 else 1)
               * (of_nat (parse_digits (fst whole @ ds)) / 10 ^ length ds) * fst f, snd f)) (read_exponent rest))"

definition js_unsigned :: "string \<Rightarrow> rat option" where  \<comment> \<open>a decimal literal without a sign, none if it is not one\<close>
  "js_unsigned s =
     (let ds = digits_of s;
          fs = (case snd ds of c # t \<Rightarrow> if c = CHR ''.'' then digits_of t else ([], c # t) | [] \<Rightarrow> ([], []))
      in if fst ds = [] \<and> fst fs = [] then None
         else case read_exponent (snd fs) of
           Some (f, []) \<Rightarrow> Some (of_nat (parse_digits (fst ds @ fst fs)) / 10 ^ length (fst fs) * f)
         | _ \<Rightarrow> None)"

definition js_radix :: "string \<Rightarrow> rat option" where  \<comment> \<open>\<open>0x\<close>, \<open>0o\<close> and \<open>0b\<close>\<close>
  "js_radix s =
     (case s of
        z # x # ds \<Rightarrow>
          if z \<noteq> CHR ''0'' \<or> ds = [] then None
          else (let val = (\<lambda>b. foldl (\<lambda>n c. b * n + of_nat (hex_value c)) 0 ds) in
            if x \<in> {CHR ''x'', CHR ''X''} \<and> list_all is_hex ds then Some (val 16)
            else if x \<in> {CHR ''o'', CHR ''O''} \<and> list_all (\<lambda>c. is_digit c \<and> hex_value c < 8) ds then Some (val 8)
            else if x \<in> {CHR ''b'', CHR ''B''} \<and> list_all (\<lambda>c. c \<in> {CHR ''0'', CHR ''1''}) ds then Some (val 2)
            else None)
      | _ \<Rightarrow> None)"

definition js_number :: "string \<Rightarrow> rat option" where  \<comment> \<open>\<open>Number(s)\<close>; \<open>None\<close> is not a number, or infinite\<close>
  "js_number s =
     (case trim s of
        [] \<Rightarrow> Some 0
      | c # t \<Rightarrow>
          (case js_radix (c # t) of
             Some x \<Rightarrow> Some x
           | None \<Rightarrow> if c = CHR ''-'' then map_option uminus (js_unsigned t)
               else js_unsigned (if c = CHR ''+'' then t else c # t)))"

fun read_value :: "nat \<Rightarrow> string \<Rightarrow> (json \<times> string) option"
and read_items :: "nat \<Rightarrow> string \<Rightarrow> (json list \<times> string) option"
and read_members :: "nat \<Rightarrow> string \<Rightarrow> ((string \<times> json) list \<times> string) option" where
  "read_value 0 s = None"
| "read_value (Suc n) s =
     (case skip_ws s of
        [] \<Rightarrow> None
      | c # t \<Rightarrow>
          if c = json_quote then map_option (\<lambda>p. (JStr (fst p), snd p)) (read_str t)
          else if c = CHR ''['' then
            (case skip_ws t of
               [] \<Rightarrow> None
             | d # r \<Rightarrow> if d = CHR '']'' then Some (JArr [], r) else map_option (\<lambda>p. (JArr (fst p), snd p)) (read_items n t))
          else if c = CHR 0x7B then
            (case skip_ws t of
               [] \<Rightarrow> None
             | d # r \<Rightarrow> if d = CHR 0x7D then Some (JObj [], r) else map_option (\<lambda>p. (JObj (fst p), snd p)) (read_members n t))
          else if starts_with ''null'' (c # t) then Some (JNull, drop 4 (c # t))
          else if starts_with ''true'' (c # t) then Some (JBool True, drop 4 (c # t))
          else if starts_with ''false'' (c # t) then Some (JBool False, drop 5 (c # t))
          else map_option (\<lambda>p. (JNum (fst p), snd p)) (read_number (c # t)))"
| "read_items 0 s = None"
| "read_items (Suc n) s =
     (case read_value n s of
        None \<Rightarrow> None
      | Some (v, r) \<Rightarrow>
          (case skip_ws r of
             [] \<Rightarrow> None
           | c # q \<Rightarrow>
               if c = CHR '','' then map_option (\<lambda>p. (v # fst p, snd p)) (read_items n q)
               else if c = CHR '']'' then Some ([v], q) else None))"
| "read_members 0 s = None"
| "read_members (Suc n) s =
     (case skip_ws s of
        [] \<Rightarrow> None
      | c # t \<Rightarrow>
          if c \<noteq> json_quote then None
          else (case read_str t of
             None \<Rightarrow> None
           | Some (k, r) \<Rightarrow>
               (case skip_ws r of
                  [] \<Rightarrow> None
                | d # q \<Rightarrow>
                    if d \<noteq> CHR '':'' then None
                    else (case read_value n q of
                       None \<Rightarrow> None
                     | Some (v, u) \<Rightarrow>
                         (case skip_ws u of
                            [] \<Rightarrow> None
                          | e # w \<Rightarrow>
                              if e = CHR '','' then map_option (\<lambda>p. ((k, v) # fst p, snd p)) (read_members n w)
                              else if e = CHR 0x7D then Some ([(k, v)], w) else None)))))"

fun settle :: "json \<Rightarrow> json" where  \<comment> \<open>repeated members\<close>
  "settle (JArr js) = JArr (map settle js)"
| "settle (JObj fs) = JObj (foldl (\<lambda>m p. AList.update (fst p) (snd p) m) [] (map (\<lambda>p. (fst p, settle (snd p))) fs))"
| "settle j = j"

definition json_read :: "string \<Rightarrow> json option" where  \<comment> \<open>\<open>JSON.parse\<close>; \<open>None\<close> is the exception\<close>
  "json_read s =
     (case read_value (Suc (length s)) s of
        None \<Rightarrow> None | Some (v, r) \<Rightarrow> if skip_ws r = [] then Some (settle v) else None)"

section \<open>Reading back what was written\<close>

fun textual :: "json \<Rightarrow> bool" where  \<comment> \<open>no numbers, no repeated members\<close>
  "textual (JNum x) = False"
| "textual (JArr js) = list_all textual js"
| "textual (JObj fs) = (distinct (map fst fs) \<and> list_all (\<lambda>p. textual (snd p)) fs)"
| "textual j = True"

lemma hex_low_reads: "d < 16 \<Longrightarrow> is_hex (hex_low d) \<and> hex_value (hex_low d) = d"
  by (cases "d < 10") (simp_all add: hex_low_def is_hex_def is_digit_def hex_value_def Let_def)

lemma is_hex_zero [simp]: "is_hex CHR ''0''"
  by (simp add: is_hex_def is_digit_def)

lemma escape_short_cases:
  "map_of short_escapes c = Some e \<Longrightarrow> e \<noteq> CHR ''u'' \<and> unescape e = Some c"
proof -
  assume "map_of short_escapes c = Some e"
  then have "(c, e) \<in> set short_escapes" by (rule map_of_SomeD)
  moreover have "list_all (\<lambda>p. snd p \<noteq> CHR ''u'' \<and> unescape (snd p) = Some (fst p)) short_escapes" by code_simp
  ultimately show ?thesis unfolding list_all_iff by fastforce
qed

lemma escape_short_None:
  "map_of short_escapes c = None \<Longrightarrow> c \<noteq> json_quote \<and> c \<noteq> backslash"
  by (auto simp: short_escapes_def)

declare read_str.simps [simp del]

lemma read_str_quote [simp]: "read_str (json_quote # s) = Some ([], s)"
  by (subst read_str.simps) simp

lemma read_str_escape: "read_str (json_escape c @ t) = push_char c (read_str t)"
proof (cases "map_of short_escapes c")
  case (Some e)
  then show ?thesis using escape_short_cases [OF Some]
    by (simp add: json_escape_def read_str.simps)
next
  case None
  show ?thesis
  proof (cases "(of_char c :: nat) < 32")
    case True
    have "of_char c div 16 < (16::nat)" "of_char c mod 16 < (16::nat)" using True by simp_all
    moreover have "16 * (of_char c div 16) + of_char c mod 16 = (of_char c :: nat)" by simp
    ultimately show ?thesis using None True hex_low_reads
      by (simp add: json_escape_def read_str.simps)
  next
    case False
    with None escape_short_None [OF None] show ?thesis by (simp add: json_escape_def read_str.simps)
  qed
qed

lemma read_str_json_string: "read_str (concat (map json_escape s) @ json_quote # t) = Some (s, t)"
  by (induction s) (simp_all add: read_str_escape push_char_def)

lemma skip_ws_simps [simp]:
  "skip_ws [] = []" "\<not> json_space c \<Longrightarrow> skip_ws (c # s) = c # s"
  by (simp_all add: skip_ws_def)

lemma json_space_marks [simp]:
  "\<not> json_space json_quote" "\<not> json_space CHR ''[''" "\<not> json_space CHR '']''" "\<not> json_space CHR '',''"
  "\<not> json_space CHR '':''" "\<not> json_space CHR 0x7B" "\<not> json_space CHR 0x7D" "\<not> json_space CHR ''n''"
  "\<not> json_space CHR ''t''" "\<not> json_space CHR ''f''"
  by (simp_all add: json_space_def)

definition reads_back :: "(rat \<Rightarrow> string) \<Rightarrow> json \<Rightarrow> bool" where
  "reads_back num j \<longleftrightarrow> (\<forall>n t. length (json_text num j) < n \<longrightarrow> read_value n (json_text num j @ t) = Some (j, t))"

lemma reads_backD: "reads_back num j \<Longrightarrow> length (json_text num j) < n \<Longrightarrow> read_value n (json_text num j @ t) = Some (j, t)"
  by (simp add: reads_back_def)

lemma join_Cons: "join sep (x # xs) = x @ (if xs = [] then [] else sep @ join sep xs)"
  by (cases xs) simp_all

lemma read_items_back:
  "\<forall>j\<in>set js. reads_back num j \<Longrightarrow> js \<noteq> [] \<Longrightarrow> length (join '','' (map (json_text num) js)) + 2 \<le> n \<Longrightarrow>
   read_items n (join '','' (map (json_text num) js) @ CHR '']'' # t) = Some (js, t)"
proof (induction js arbitrary: n)
  case (Cons j js)
  from Cons.prems(3) obtain m where n: "n = Suc m" by (cases n) auto
  have j: "read_value m (json_text num j @ u) = Some (j, u)" for u
    using Cons.prems n by (intro reads_backD) (auto simp: join_Cons split: if_splits)
  show ?case
  proof (cases "js = []")
    case True
    with j n show ?thesis by simp
  next
    case False
    with Cons n have "read_items m (join '','' (map (json_text num) js) @ CHR '']'' # t) = Some (js, t)"
      by (intro Cons.IH) (auto simp: join_Cons [of _ _ "map _ js"])
    with False j n show ?thesis by (simp add: join_Cons)
  qed
qed simp

abbreviation member_text :: "(rat \<Rightarrow> string) \<Rightarrow> string \<times> json \<Rightarrow> string" where
  "member_text num p \<equiv> json_string (fst p) @ CHR '':'' # json_text num (snd p)"

lemma read_members_back:
  "\<forall>p\<in>set fs. reads_back num (snd p) \<Longrightarrow> fs \<noteq> [] \<Longrightarrow> length (join '','' (map (member_text num) fs)) + 2 \<le> n \<Longrightarrow>
   read_members n (join '','' (map (member_text num) fs) @ CHR 0x7D # t) = Some (fs, t)"
proof (induction fs arbitrary: n)
  case (Cons p fs)
  from Cons.prems(3) obtain m where n: "n = Suc m" by (cases n) auto
  have v: "read_value m (json_text num (snd p) @ u) = Some (snd p, u)" for u
    using Cons.prems n by (intro reads_backD) (auto simp: join_Cons split: if_splits)
  have k: "read_str (concat (map json_escape (fst p)) @ json_quote # u) = Some (fst p, u)" for u
    by (rule read_str_json_string)
  show ?case
  proof (cases "fs = []")
    case True
    with k v n show ?thesis by (simp add: json_string_def)
  next
    case False
    with Cons n have "read_members m (join '','' (map (member_text num) fs) @ CHR 0x7D # t) = Some (fs, t)"
      by (intro Cons.IH) (auto simp: join_Cons [of _ _ "map _ fs"])
    with False k v n show ?thesis by (simp add: join_Cons json_string_def)
  qed
qed simp

lemma json_text_head:
  "textual j \<Longrightarrow> \<exists>c s. json_text num j = c # s \<and> \<not> json_space c \<and> c \<noteq> CHR '']'' \<and> c \<noteq> CHR 0x7D"
  by (cases j) (auto simp: json_string_def)

lemma textual_reads_back: "textual j \<Longrightarrow> reads_back num j"
proof (induction j)
  case (JArr js)
  have items: "\<forall>j\<in>set js. reads_back num j" using JArr by (auto simp: list_all_iff)
  show ?case unfolding reads_back_def
  proof (intro allI impI)
    fix n t assume len: "length (json_text num (JArr js)) < n"
    then obtain m where n: "n = Suc m" by (cases n) auto
    show "read_value n (json_text num (JArr js) @ t) = Some (JArr js, t)"
    proof (cases js)
      case Nil
      with n show ?thesis by simp
    next
      case (Cons j js')
      from JArr.prems Cons have "textual j" by simp
      then obtain c s where hd: "json_text num j = c # s" "\<not> json_space c" "c \<noteq> CHR '']''"
        using json_text_head by blast
      have "read_items m (join '','' (map (json_text num) js) @ CHR '']'' # t) = Some (js, t)"
        using len n Cons by (intro read_items_back [OF items]) auto
      with Cons n hd show ?thesis by (simp add: join_Cons)
    qed
  qed
next
  case (JObj fs)
  have mem: "\<forall>p\<in>set fs. reads_back num (snd p)" using JObj by (fastforce simp: list_all_iff)
  show ?case unfolding reads_back_def
  proof (intro allI impI)
    fix n t assume len: "length (json_text num (JObj fs)) < n"
    then obtain m where n: "n = Suc m" by (cases n) auto
    show "read_value n (json_text num (JObj fs) @ t) = Some (JObj fs, t)"
    proof (cases fs)
      case Nil
      with n show ?thesis by simp
    next
      case (Cons p fs')
      have "read_members m (join '','' (map (member_text num) fs) @ CHR 0x7D # t) = Some (fs, t)"
        using len n Cons by (intro read_members_back [OF mem]) auto
      with Cons n show ?thesis by (simp add: join_Cons json_string_def)
    qed
  qed
next
  case (JStr s)
  show ?case unfolding reads_back_def
  proof (intro allI impI)
    fix n t assume "length (json_text num (JStr s)) < n"
    then obtain m where "n = Suc m" by (cases n) auto
    then show "read_value n (json_text num (JStr s) @ t) = Some (JStr s, t)"
      by (simp add: json_string_def read_str_json_string)
  qed
next
  case JNull
  show ?case by (auto simp: reads_back_def gr0_conv_Suc dest!: less_imp_Suc_add)
next
  case (JBool b)
  show ?case by (auto simp: reads_back_def gr0_conv_Suc dest!: less_imp_Suc_add)
qed simp

lemma settle_members:
  "distinct (map fst m @ map fst fs) \<Longrightarrow> foldl (\<lambda>m p. AList.update (fst p) (snd p) m) m fs = m @ fs"
proof (induction fs arbitrary: m)
  case (Cons p fs)
  have "AList.update k v m = m @ [(k, v)]" if "k \<notin> fst ` set m" for k :: 'a and v :: 'b and m
    using that by (induction m) auto
  with Cons show ?case by simp
qed simp

lemma textual_settled: "textual j \<Longrightarrow> settle j = j"
proof (induction j)
  case (JArr js)
  then show ?case by (auto simp: list_all_iff intro: map_idI)
next
  case (JObj fs)
  then have "map (\<lambda>p. (fst p, settle (snd p))) fs = fs"
    by (intro map_idI) (fastforce simp: list_all_iff)
  with JObj.prems show ?case by (simp add: settle_members)
qed simp_all

lemma json_read_text: "textual j \<Longrightarrow> json_read (json_text num j) = Some j"
  using reads_backD [OF textual_reads_back, of j num "Suc (length (json_text num j))" "[]"]
  by (simp add: json_read_def textual_settled)

end
