(* ===== verification/SensorFields.thy ===== *)
theory SensorFields
  imports Json
begin

text \<open>
  \<open>components/SensorFields.tsx\<close>: the fields of a sensor's settings. Durations in Go's syntax, lists of
  rows stored as JSON, what the server would refuse of a field, the duration and list inputs, and the
  numbers offered from the reply of a test, with the names they get. \<open>num\<close> is the text of a number; a
  duration is an exact rational number of seconds. An object's members are in the order of the text.
\<close>

section \<open>Fields\<close>

datatype field_type = DurationField | ListField

record sensor_column =
  sc_key :: string
  sc_label :: string
  sc_required :: bool

record sensor_field =
  sf_key :: string
  sf_label :: string
  sf_default :: "string option"
  sf_required :: bool
  sf_secret :: bool
  sf_when :: "(string \<times> string list) option"
  sf_type :: "field_type option"
  sf_minSecs :: "rat option"
  sf_maxSecs :: "rat option"
  sf_atLeast :: "string option"
  sf_columns :: "sensor_column list option"
  sf_tested :: bool
  sf_identifies :: bool
  sf_choices :: "string list option"

section \<open>Rows\<close>

definition listRows :: "string option \<Rightarrow> json list" where
  "listRows value =
     (if trim (nullish value []) = [] then []
      else case json_read (nullish value []) of Some (JArr rows) \<Rightarrow> rows | _ \<Rightarrow> [])"

definition writeRows :: "(rat \<Rightarrow> string) \<Rightarrow> json list \<Rightarrow> string" where
  "writeRows num rows = json_text num (JArr rows)"

definition cell :: "json \<Rightarrow> string \<Rightarrow> string option" where  \<comment> \<open>rows hold text alone\<close>
  "cell row k = (case json_field k row of Some (JStr s) \<Rightarrow> Some s | _ \<Rightarrow> None)"

section \<open>Durations\<close>

definition unit_secs :: "char \<Rightarrow> rat option" where
  "unit_secs c = (if c = CHR ''h'' then Some 3600 else if c = CHR ''m'' then Some 60
     else if c = CHR ''s'' then Some 1 else None)"

definition span_number :: "string \<Rightarrow> (rat \<times> string) option" where  \<comment> \<open>digits, and decimals if there are any\<close>
  "span_number s =
     (let ds = takeWhile is_digit s; r = dropWhile is_digit s in
      if ds = [] then None
      else case r of
        c # t \<Rightarrow>
          if c = CHR ''.'' \<and> takeWhile is_digit t \<noteq> []
          then Some (of_nat (parse_digits (ds @ takeWhile is_digit t)) / 10 ^ length (takeWhile is_digit t),
                     dropWhile is_digit t)
          else Some (of_nat (parse_digits ds), r)
      | [] \<Rightarrow> Some (of_nat (parse_digits ds), r))"

definition span_part :: "string \<Rightarrow> (rat \<times> string) option" where
  "span_part s =
     (case span_number s of
        Some (n, c # t) \<Rightarrow> map_option (\<lambda>u. (n * u, t)) (unit_secs c)
      | _ \<Rightarrow> None)"

lemma span_part_shorter:
  assumes "span_part s = Some (x, t)"
  shows "length t < length s"
proof -
  obtain n c where n: "span_number s = Some (n, c # t)"
    using assms by (auto simp: span_part_def split: option.splits list.splits prod.splits)
  have d: "length (dropWhile is_digit u) \<le> length u" for u by (simp add: length_dropWhile_le)
  show ?thesis
  proof (cases "dropWhile is_digit s")
    case Nil
    with n show ?thesis by (simp add: span_number_def Let_def split: if_splits)
  next
    case (Cons e r)
    have "length (e # r) \<le> length s" using d [of s] Cons by simp
    moreover have "length (c # t) \<le> length (e # r)"
      using n Cons d [of r] by (auto simp: span_number_def Let_def split: if_splits)
    ultimately show ?thesis by simp
  qed
qed

function span_parts :: "string \<Rightarrow> rat list option" where
  "span_parts [] = Some []"
| "span_parts (c # s) =
     (case span_part (c # s) of None \<Rightarrow> None | Some (x, t) \<Rightarrow> map_option ((#) x) (span_parts t))"
  by pat_completeness auto
termination by (relation "measure length") (auto dest: span_part_shorter)

definition parseSpan :: "string option \<Rightarrow> rat option" where
  "parseSpan v =
     (if trim (nullish v []) = [] then None
      else map_option sum_list (span_parts (trim (nullish v []))))"

definition writeSpan :: "(rat \<Rightarrow> string) \<Rightarrow> rat \<Rightarrow> string" where
  "writeSpan num secs =
     (if js_rem secs 3600 = 0 then num (secs / 3600) @ ''h''
      else if js_rem secs 60 = 0 then num (secs / 60) @ ''m''
      else num secs @ ''s'')"

definition UNITS :: "(string \<times> rat) list" where
  "UNITS = [(''days'', 86400), (''hours'', 3600), (''minutes'', 60)]"

definition minutes_unit :: "string \<times> rat" where
  "minutes_unit = (''minutes'', 60)"

definition whole_unit :: "rat \<Rightarrow> string \<times> rat" where
  "whole_unit secs = nullish (find (\<lambda>u. snd u \<le> secs \<and> js_rem secs (snd u) = 0) UNITS) minutes_unit"

definition spanWords :: "(rat \<Rightarrow> string) \<Rightarrow> rat \<Rightarrow> string" where
  "spanWords num secs =
     (let u = whole_unit secs; n = secs / snd u in
      num n @ '' '' @ (if n = 1 then butlast (fst u) else fst u))"

section \<open>What the server would refuse\<close>

definition truthy_num :: "rat option \<Rightarrow> bool" where
  "truthy_num x \<longleftrightarrow> (case x of None \<Rightarrow> False | Some v \<Rightarrow> v \<noteq> 0)"

definition missing_cell :: "sensor_column list \<Rightarrow> json \<Rightarrow> sensor_column option" where
  "missing_cell columns row = find (\<lambda>c. sc_required c \<and> trim (nullish (cell row (sc_key c)) []) = []) columns"

fun rows_problem :: "string \<Rightarrow> sensor_column list \<Rightarrow> nat \<Rightarrow> json list \<Rightarrow> string option" where
  "rows_problem name columns n [] = None"
| "rows_problem name columns n (row # rows) =
     (case missing_cell columns row of
        Some c \<Rightarrow> Some (name @ '' row '' @ show_nat (n + 1) @ '' needs a '' @ to_lower (sc_label c) @ ''.'')
      | None \<Rightarrow> rows_problem name columns (n + 1) rows)"

definition duration_problem ::
    "(rat \<Rightarrow> string) \<Rightarrow> sensor_field \<Rightarrow> string \<Rightarrow> (string \<times> string) list \<Rightarrow> (string \<Rightarrow> string) \<Rightarrow> string option" where
  "duration_problem num f value options label =
     (case parseSpan (Some value) of
        None \<Rightarrow> Some (sf_label f @ '' needs a number.'')
      | Some secs \<Rightarrow>
          if (truthy_num (sf_minSecs f) \<and> secs < nullish (sf_minSecs f) 0)
             \<or> (truthy_num (sf_maxSecs f) \<and> nullish (sf_maxSecs f) 0 < secs)
          then Some (sf_label f @ '' has to be from '' @ spanWords num (nullish (sf_minSecs f) 0)
                 @ '' to '' @ spanWords num (nullish (sf_maxSecs f) 0) @ ''.'')
          else (let least = (if truthy_str (sf_atLeast f)
                             then parseSpan (map_of options (nullish (sf_atLeast f) [])) else None) in
            case least of
              Some l \<Rightarrow> if secs < l
                then Some (sf_label f @ '' has to be at least as long as ''
                       @ to_lower (label (nullish (sf_atLeast f) [])) @ ''.'')
                else None
            | None \<Rightarrow> None))"

definition fieldProblem ::
    "(rat \<Rightarrow> string) \<Rightarrow> sensor_field \<Rightarrow> string \<Rightarrow> (string \<times> string) list \<Rightarrow> (string \<Rightarrow> string) \<Rightarrow> string option" where
  "fieldProblem num f value options label =
     (if sf_type f = Some DurationField \<and> value \<noteq> [] then duration_problem num f value options label
      else if sf_type f = Some ListField then
        (if sf_required f \<and> listRows (Some value) = [] then Some (''Add at least one row to '' @ sf_label f @ ''.'')
         else rows_problem (sf_label f) (nullish (sf_columns f) []) 0 (listRows (Some value)))
      else None)"

section \<open>The duration input\<close>

definition shown_unit :: "rat option \<Rightarrow> string \<times> rat" where
  "shown_unit secs = (case secs of None \<Rightarrow> minutes_unit | Some s \<Rightarrow> whole_unit s)"

definition input_secs :: "sensor_field \<Rightarrow> string \<Rightarrow> rat option" where
  "input_secs f value = parseSpan (if value \<noteq> [] then Some value else sf_default f)"

definition input_unit :: "sensor_field \<Rightarrow> string \<Rightarrow> rat \<Rightarrow> rat" where  \<comment> \<open>\<open>u\<close>, by the \<open>unit\<close> kept\<close>
  "input_unit f value unit = (if value \<noteq> [] then snd (shown_unit (input_secs f value)) else unit)"

definition input_number :: "(rat \<Rightarrow> string) \<Rightarrow> sensor_field \<Rightarrow> string \<Rightarrow> rat \<Rightarrow> string" where  \<comment> \<open>what the box shows\<close>
  "input_number num f value unit =
     (if value \<noteq> []
      then (case input_secs f value of None \<Rightarrow> [] | Some s \<Rightarrow> num (s / input_unit f value unit)) else [])"

definition number_typed :: "(rat \<Rightarrow> string) \<Rightarrow> sensor_field \<Rightarrow> string \<Rightarrow> rat \<Rightarrow> rat option \<Rightarrow> string" where
  \<comment> \<open>the new value; \<open>None\<close> is an empty box\<close>
  "number_typed num f value unit typed =
     (case typed of
        None \<Rightarrow> []
      | Some x \<Rightarrow> if \<lfloor>x\<rfloor> > 0 then writeSpan num (of_int \<lfloor>x\<rfloor> * input_unit f value unit) else [])"

definition unit_chosen :: "(rat \<Rightarrow> string) \<Rightarrow> sensor_field \<Rightarrow> string \<Rightarrow> rat \<Rightarrow> rat \<Rightarrow> rat \<times> string" where
  \<comment> \<open>the unit kept and the value\<close>
  "unit_chosen num f value unit next =
     (next, case input_secs f value of
        Some s \<Rightarrow> if value \<noteq> [] then writeSpan num (s / input_unit f value unit * next) else value
      | None \<Rightarrow> value)"

section \<open>The list input\<close>

fun set_member :: "string \<Rightarrow> string \<Rightarrow> json \<Rightarrow> json" where  \<comment> \<open>\<open>{ ...x, [k]: v }\<close>\<close>
  "set_member k v (JObj fs) = JObj (AList.update k (JStr v) fs)"
| "set_member k v _ = JObj [(k, JStr v)]"

definition set_cell :: "nat \<Rightarrow> string \<Rightarrow> string \<Rightarrow> json list \<Rightarrow> json list" where
  "set_cell n k v rows = map (\<lambda>(i, x). if i = n then set_member k v x else x) (enumerate 0 rows)"

definition remove_row :: "nat \<Rightarrow> json list \<Rightarrow> json list" where
  "remove_row n rows = map snd (filter (\<lambda>(i, x). i \<noteq> n) (enumerate 0 rows))"

definition can_add_row :: "json list \<Rightarrow> bool" where
  "can_add_row rows \<longleftrightarrow> length rows < 32"

definition add_row :: "json list \<Rightarrow> json list" where
  "add_row rows = rows @ [JObj []]"

definition field_noun :: "sensor_field \<Rightarrow> string" where
  "field_noun f = to_lower (if sf_label f \<noteq> [] \<and> last (sf_label f) = CHR ''s'' then butlast (sf_label f) else sf_label f)"

section \<open>Numbers in a reply\<close>

record leaf =
  lf_path :: string
  lf_value :: string
  lf_unit :: string

definition decimal_tail :: "string \<Rightarrow> bool" where  \<comment> \<open>an optional exponent, and nothing after it\<close>
  "decimal_tail s = (case read_exponent s of Some (x, r) \<Rightarrow> r = [] | None \<Rightarrow> False)"

definition unsigned_decimal :: "string \<Rightarrow> bool" where
  "unsigned_decimal s \<longleftrightarrow> s = ''Infinity'' \<or>
     (let ds = digits_of s in
      case snd ds of
        c # t \<Rightarrow>
          if c = CHR ''.'' then (fst ds \<noteq> [] \<or> fst (digits_of t) \<noteq> []) \<and> decimal_tail (snd (digits_of t))
          else fst ds \<noteq> [] \<and> decimal_tail (snd ds)
      | [] \<Rightarrow> fst ds \<noteq> [])"

definition radix_literal :: "string \<Rightarrow> bool" where
  "radix_literal s =
     (case s of
        z # x # ds \<Rightarrow> z = CHR ''0'' \<and> ds \<noteq> [] \<and>
          (if x \<in> {CHR ''x'', CHR ''X''} then list_all is_hex ds
           else if x \<in> {CHR ''o'', CHR ''O''} then list_all (\<lambda>c. is_digit c \<and> hex_value c < 8) ds
           else if x \<in> {CHR ''b'', CHR ''B''} then list_all (\<lambda>c. c \<in> {CHR ''0'', CHR ''1''}) ds
           else False)
      | _ \<Rightarrow> False)"

definition numeric_text :: "string \<Rightarrow> bool" where  \<comment> \<open>\<open>!Number.isNaN(Number(s))\<close>, for a text that is not blank\<close>
  "numeric_text s \<longleftrightarrow> radix_literal (trim s) \<or>
     (case trim s of c # t \<Rightarrow> unsigned_decimal (if c \<in> {CHR ''+'', CHR ''-''} then t else c # t) | [] \<Rightarrow> False)"

fun isNumberish :: "json \<Rightarrow> bool" where
  "isNumberish (JNum x) = True"
| "isNumberish (JBool b) = True"
| "isNumberish (JStr s) = (trim s \<noteq> [] \<and> numeric_text s)"
| "isNumberish _ = False"

fun node_text :: "(rat \<Rightarrow> string) \<Rightarrow> json \<Rightarrow> string" where
  "node_text num (JNum x) = num x"
| "node_text num (JBool b) = (if b then ''true'' else ''false'')"
| "node_text num (JStr s) = s"
| "node_text num _ = []"

fun json_member :: "string \<Rightarrow> json \<Rightarrow> json option" where  \<comment> \<open>\<open>v[k]\<close>, an array by index\<close>
  "json_member k (JArr js) =
     (if k \<noteq> [] \<and> list_all is_digit k \<and> show_nat (parse_digits k) = k then list_at js (parse_digits k) else None)"
| "json_member k j = json_field k j"

definition unitFor :: "string list \<Rightarrow> json list \<Rightarrow> string" where
  "unitFor path chain =
     (if length path < 2 then []
      else case (if length chain < 2 then None
                 else json_member (path ! (length path - 2) @ ''_units'') (chain ! (length chain - 2))) of
        None \<Rightarrow> []
      | Some units \<Rightarrow> (case json_member (last path) units of Some (JStr u) \<Rightarrow> u | _ \<Rightarrow> []))"

definition push_leaf :: "(rat \<Rightarrow> string) \<Rightarrow> json \<Rightarrow> string list \<Rightarrow> json list \<Rightarrow> leaf list \<Rightarrow> leaf list" where
  "push_leaf num node path chain out =
     out @ [\<lparr>lf_path = join ''.'' path, lf_value = node_text num node, lf_unit = unitFor path chain\<rparr>]"

function walk :: "(rat \<Rightarrow> string) \<Rightarrow> nat \<Rightarrow> json \<Rightarrow> string list \<Rightarrow> json list \<Rightarrow> leaf list \<Rightarrow> leaf list"
and walk_items :: "(rat \<Rightarrow> string) \<Rightarrow> nat \<Rightarrow> nat \<Rightarrow> json list \<Rightarrow> string list \<Rightarrow> json list \<Rightarrow> leaf list \<Rightarrow> leaf list"
and walk_members :: "(rat \<Rightarrow> string) \<Rightarrow> nat \<Rightarrow> (string \<times> json) list \<Rightarrow> string list \<Rightarrow> json list \<Rightarrow> leaf list \<Rightarrow> leaf list" where
  "walk num limit node path chain out =
     (if limit \<le> length out then out
      else if isNumberish node then push_leaf num node path chain out
      else case node of
        JArr js \<Rightarrow> walk_items num limit 0 js path (chain @ [node]) out
      | JObj fs \<Rightarrow> walk_members num limit fs path (chain @ [node]) out
      | _ \<Rightarrow> out)"
| "walk_items num limit i [] path chain out = out"
| "walk_items num limit i (j # js) path chain out =
     walk_items num limit (i + 1) js path chain (walk num limit j (path @ [show_nat i]) chain out)"
| "walk_members num limit [] path chain out = out"
| "walk_members num limit (p # ps) path chain out =
     walk_members num limit ps path chain (walk num limit (snd p) (path @ [fst p]) chain out)"
  by pat_completeness auto
termination
  by (relation "measure (\<lambda>x. case x of
        Inl (num, limit, node, path, chain, out) \<Rightarrow> size node
      | Inr (Inl (num, limit, i, js, path, chain, out)) \<Rightarrow> size_list size js
      | Inr (Inr (num, limit, fs, path, chain, out)) \<Rightarrow> size_list (\<lambda>p. Suc (size (snd p))) fs)")
    (auto simp: size_prod_simp)

definition leaves :: "(rat \<Rightarrow> string) \<Rightarrow> json \<Rightarrow> leaf list" where
  "leaves num doc = walk num 400 doc [] [] []"

section \<open>Names\<close>

definition digits_only :: "string \<Rightarrow> bool" where
  "digits_only s \<longleftrightarrow> s \<noteq> [] \<and> list_all is_digit s"

definition name_base :: "string \<Rightarrow> string" where
  "name_base path =
     (let word = nullish (find (\<lambda>s. \<not> digits_only s) (rev (split_on CHR ''.'' path))) ''value'';
          base = map (\<lambda>c. if is_word c then c else CHR ''_'') word in
      if base \<noteq> [] \<and> (is_alpha (hd base) \<or> hd base = CHR ''_'') then base else ''v_'' @ base)"

fun fresh_name :: "nat \<Rightarrow> string list \<Rightarrow> string \<Rightarrow> string \<Rightarrow> nat \<Rightarrow> string" where  \<comment> \<open>the loop, for at most so many steps\<close>
  "fresh_name 0 taken base name i = name"
| "fresh_name (Suc k) taken base name i =
     (if name \<in> set taken then fresh_name k taken base (base @ ''_'' @ show_nat i) (i + 1) else name)"

definition nameFor :: "string \<Rightarrow> string list \<Rightarrow> string" where
  "nameFor path taken = fresh_name (length taken + 1) taken (name_base path) (name_base path) 2"

section \<open>Lengths of time read back\<close>

definition num_text_ok :: "(rat \<Rightarrow> string) \<Rightarrow> bool" where  \<comment> \<open>a whole number is written with its digits\<close>
  "num_text_ok num \<longleftrightarrow> (\<forall>n. num (of_nat n) = show_nat n)"

lemma js_rem_of_nat: "0 < m \<Longrightarrow> js_rem (of_nat n) (of_nat m) = of_nat (n mod m)"
proof -
  assume m: "0 < m"
  have "\<lfloor>of_nat n / (of_nat m :: rat)\<rfloor> = int (n div m)" by (rule floor_divide_of_nat_eq)
  moreover have "\<not> of_nat n / (of_nat m :: rat) < 0" by (simp add: divide_less_0_iff)
  moreover have "(of_nat n :: rat) - of_nat m * of_nat (n div m) = of_nat (n mod m)"
    by (simp add: minus_mult_div_eq_mod [symmetric] of_nat_diff flip: of_nat_mult)
  ultimately show ?thesis by (simp add: js_rem_def Let_def)
qed

lemma takeWhile_digits: "\<not> is_digit c \<Longrightarrow> takeWhile is_digit (show_nat k @ c # t) = show_nat k"
  by (simp add: takeWhile_append2 show_nat_set)

lemma dropWhile_digits: "\<not> is_digit c \<Longrightarrow> dropWhile is_digit (show_nat k @ c # t) = c # t"
  by (simp add: dropWhile_append2 show_nat_set)

lemma unit_not_digit: "unit_secs c = Some u \<Longrightarrow> \<not> is_digit c \<and> c \<noteq> CHR ''.'' \<and> \<not> is_space c"
  by (auto simp: unit_secs_def is_digit_def is_space_def split: if_splits)

lemma span_part_written:
  assumes "unit_secs c = Some (of_nat u)"
  shows "span_part (show_nat k @ [c]) = Some (of_nat (k * u), [])"
  using unit_not_digit [OF assms] assms
  by (simp add: span_part_def span_number_def Let_def takeWhile_digits dropWhile_digits)

lemma digit_not_space: "is_digit c \<Longrightarrow> \<not> is_space c"
  by (simp add: is_digit_def is_space_def)

lemma trim_tight:
  "s \<noteq> [] \<Longrightarrow> \<not> is_space (hd s) \<Longrightarrow> \<not> is_space (last s) \<Longrightarrow> trim s = s"
proof -
  assume a: "s \<noteq> []" "\<not> is_space (hd s)" "\<not> is_space (last s)"
  then have "trim_start s = s" by (cases s) (simp_all add: trim_start_def)
  moreover have "dropWhile is_space (rev s) = rev s" using a by (cases s rule: rev_cases) simp_all
  ultimately show ?thesis by (simp add: trim_def)
qed

lemma hd_show_nat: "\<not> is_space (hd (show_nat k @ t))"
  using show_nat_digits [of k] by (cases "show_nat k") (auto simp: digit_not_space)

lemma parse_written:
  assumes "unit_secs c = Some (of_nat u)"
  shows "parseSpan (Some (show_nat k @ [c])) = Some (of_nat (k * u))"
proof -
  have t: "trim (show_nat k @ [c]) = show_nat k @ [c]"
    using unit_not_digit [OF assms] hd_show_nat by (intro trim_tight) auto
  obtain d s where ds: "show_nat k @ [c] = d # s" by (cases "show_nat k @ [c]") auto
  have "span_parts (show_nat k @ [c]) = Some [of_nat (k * u)]"
    using span_part_written [OF assms, of k] unfolding ds by simp
  with t show ?thesis by (simp add: parseSpan_def)
qed

lemma parse_writeSpan:
  assumes "num_text_ok num"
  shows "parseSpan (Some (writeSpan num (of_nat n))) = Some (of_nat n)"
proof -
  have num: "num (of_nat k) = show_nat k" for k using assms by (simp add: num_text_ok_def)
  have rem: "js_rem (of_nat n) 3600 = of_nat (n mod 3600)" "js_rem (of_nat n) 60 = of_nat (n mod 60)"
    using js_rem_of_nat [of 3600 n] js_rem_of_nat [of 60 n] by simp_all
  have div: "(of_nat n :: rat) / of_nat m = of_nat (n div m)" if "n mod m = 0" "0 < m" for m
    using that by (simp add: of_nat_of_nat_div_aux mod_eq_0_iff_dvd of_nat_div flip: of_nat_mult)
  consider "n mod 3600 = 0" | "n mod 3600 \<noteq> 0" "n mod 60 = 0" | "n mod 3600 \<noteq> 0" "n mod 60 \<noteq> 0" by blast
  then show ?thesis
  proof cases
    case 1
    with div [of 3600] rem have "writeSpan num (of_nat n) = show_nat (n div 3600) @ ''h''"
      by (simp add: writeSpan_def num)
    moreover have "n div 3600 * 3600 = n" using 1 by (simp add: mod_eq_0_iff_dvd dvd_div_mult_self)
    ultimately show ?thesis using parse_written [of "CHR ''h''" 3600 "n div 3600"]
      by (simp add: unit_secs_def flip: of_nat_mult)
  next
    case 2
    with div [of 60] rem have "writeSpan num (of_nat n) = show_nat (n div 60) @ ''m''"
      by (simp add: writeSpan_def num)
    moreover have "n div 60 * 60 = n" using 2 by (simp add: mod_eq_0_iff_dvd dvd_div_mult_self)
    ultimately show ?thesis using parse_written [of "CHR ''m''" 60 "n div 60"]
      by (simp add: unit_secs_def flip: of_nat_mult)
  next
    case 3
    with rem have "writeSpan num (of_nat n) = show_nat n @ ''s''" by (simp add: writeSpan_def num)
    then show ?thesis using parse_written [of "CHR ''s''" 1 n] by (simp add: unit_secs_def)
  qed
qed

definition int_text :: "rat \<Rightarrow> string" where
  "int_text x = show_int \<lfloor>x\<rfloor>"

lemma int_text_ok: "num_text_ok int_text"
  by (simp add: num_text_ok_def int_text_def show_int_def)

text \<open>Round trip. What the duration box stores is what is read back: a number typed in a unit is
  stored as that many of the unit, rounded down, and a number that is not positive clears the value.\<close>
theorem typed_duration_read_back:
  assumes "num_text_ok num" and "input_unit f value unit = of_nat u" and "0 < u"
  shows "if \<lfloor>x\<rfloor> > 0
    then parseSpan (Some (number_typed num f value unit (Some x))) = Some (of_int \<lfloor>x\<rfloor> * of_nat u)
    else number_typed num f value unit (Some x) = []"
proof (cases "\<lfloor>x\<rfloor> > 0")
  case True
  then have "(of_int \<lfloor>x\<rfloor> * of_nat u :: rat) = of_nat (nat \<lfloor>x\<rfloor> * u)" by simp
  with True show ?thesis using parse_writeSpan [OF assms(1), of "nat \<lfloor>x\<rfloor> * u"]
    by (simp add: number_typed_def assms(2))
qed (simp add: number_typed_def)

definition example_duration :: sensor_field where
  "example_duration = \<lparr>sf_key = ''every'', sf_label = ''Poll every'', sf_default = Some ''10m'', sf_required = True,
     sf_secret = False, sf_when = None, sf_type = Some DurationField, sf_minSecs = Some 60, sf_maxSecs = Some 604800,
     sf_atLeast = None, sf_columns = None, sf_tested = False, sf_identifies = False, sf_choices = None\<rparr>"

lemma example_unit: "input_unit example_duration ''90m'' 60 = of_nat 60"
  by code_simp

theorem typed_duration_read_back_witness:
  "parseSpan (Some (number_typed int_text example_duration ''90m'' 60 (Some (15/2)))) = Some 420
    \<and> number_typed int_text example_duration ''90m'' 60 (Some (15/2)) = ''7m''"
proof
  have "\<lfloor>15/2 :: rat\<rfloor> = 7" by (simp add: floor_eq_iff)
  then show "parseSpan (Some (number_typed int_text example_duration ''90m'' 60 (Some (15/2)))) = Some 420"
    using typed_duration_read_back [OF int_text_ok example_unit, of "15/2"] by simp
qed code_simp

text \<open>The unit shown follows the value, so it moves under the typist: 60 of 605 minutes is shown as
  1 hour, and the 5 that follows makes it 15 hours.\<close>

lemma unit_moves_while_typing:
  "number_typed int_text example_duration ''6m'' 60 (Some 60) = ''1h''
    \<and> input_number int_text example_duration ''1h'' 60 = ''1''
    \<and> number_typed int_text example_duration ''1h'' 60 (Some 15) = ''15h''"
proof (intro conjI)
qed code_simp+

section \<open>Rows read back\<close>

lemma trim_nonempty: "c \<in> set s \<Longrightarrow> \<not> is_space c \<Longrightarrow> trim s \<noteq> []"
proof -
  assume c: "c \<in> set s" "\<not> is_space c"
  have "c \<in> set (dropWhile is_space s)"
    using c by (induction s) auto
  then have "\<not> (\<forall>x\<in>set (rev (dropWhile is_space s)). is_space x)" using c(2) by auto
  then show ?thesis by (simp add: trim_def trim_start_def dropWhile_eq_Nil_conv del: set_rev)
qed

lemma rows_read_back: "list_all textual rows \<Longrightarrow> listRows (Some (writeRows num rows)) = rows"
proof -
  assume "list_all textual rows"
  then have "json_read (json_text num (JArr rows)) = Some (JArr rows)" by (intro json_read_text) simp
  moreover have "trim (json_text num (JArr rows)) \<noteq> []"
    using trim_nonempty [of "CHR ''[''" "json_text num (JArr rows)"] by (simp add: is_space_def)
  ultimately show ?thesis by (simp add: listRows_def writeRows_def)
qed

definition text_row :: "json \<Rightarrow> bool" where  \<comment> \<open>a row as the form writes it\<close>
  "text_row row \<longleftrightarrow> (\<exists>fs. row = JObj fs \<and> distinct (map fst fs) \<and> (\<forall>p\<in>set fs. \<exists>s. snd p = JStr s))"

lemma text_row_textual: "text_row row \<Longrightarrow> textual row"
proof -
  assume "text_row row"
  then obtain fs where fs: "row = JObj fs" "distinct (map fst fs)" "\<forall>p\<in>set fs. \<exists>s. snd p = JStr s"
    unfolding text_row_def by blast
  then have "list_all (\<lambda>p. textual (snd p)) fs" unfolding list_all_iff by fastforce
  with fs show ?thesis by simp
qed

lemma text_row_set: "text_row row \<Longrightarrow> text_row (set_member k v row)"
proof -
  assume "text_row row"
  then obtain fs where fs: "row = JObj fs" "distinct (map fst fs)" "\<forall>p\<in>set fs. \<exists>s. snd p = JStr s"
    unfolding text_row_def by blast
  have "p \<in> set (AList.update k (JStr v) fs) \<Longrightarrow> p \<in> set fs \<or> p = (k, JStr v)" for p
    by (induction fs) (auto split: if_splits)
  with fs(3) have "\<forall>p\<in>set (AList.update k (JStr v) fs). \<exists>s. snd p = JStr s" by (metis snd_conv)
  with fs(1,2) show ?thesis by (simp add: text_row_def distinct_update)
qed


lemma text_row_empty: "text_row (JObj [])"
  by (simp add: text_row_def)

lemma text_rows_kept:
  assumes "list_all text_row rows"
  shows "list_all text_row (set_cell n k v rows)" "list_all text_row (remove_row n rows)"
    "list_all text_row (add_row rows)"
proof -
  have e: "p \<in> set (enumerate 0 rows) \<Longrightarrow> snd p \<in> set rows" for p
    using set_zip_rightD [of "fst p" "snd p"] by (simp add: enumerate_eq_zip)
  show "list_all text_row (set_cell n k v rows)" "list_all text_row (remove_row n rows)"
    using assms e by (fastforce simp: list_all_iff set_cell_def remove_row_def text_row_set)+
  show "list_all text_row (add_row rows)"
    using assms text_row_empty by (simp add: add_row_def)
qed

text \<open>Round trip. The rows of a list survive their storage as JSON text, whatever is typed in
  them: the list of rows written by any edit is the list read at the next render.\<close>
theorem edited_rows_read_back:
  assumes "list_all text_row (listRows v)"
  shows "listRows (Some (writeRows num (set_cell n k w (listRows v)))) = set_cell n k w (listRows v)
    \<and> listRows (Some (writeRows num (remove_row n (listRows v)))) = remove_row n (listRows v)
    \<and> listRows (Some (writeRows num (add_row (listRows v)))) = add_row (listRows v)
    \<and> list_all text_row (set_cell n k w (listRows v))
    \<and> list_all text_row (remove_row n (listRows v)) \<and> list_all text_row (add_row (listRows v))"
proof -
  note kept = text_rows_kept [OF assms]
  have "list_all textual rs" if "list_all text_row rs" for rs
    using that text_row_textual unfolding list_all_iff by blast
  then show ?thesis using kept by (simp add: rows_read_back)
qed

definition example_rows :: string where
  "example_rows = ''[{'' @ [json_quote] @ ''path'' @ [json_quote] @ '':'' @ [json_quote] @ ''a'' @ [backslash, json_quote] @ ''b''
     @ [json_quote] @ ''}]''"

lemma example_rows_read:
  "listRows (Some example_rows) = [JObj [(''path'', JStr (''a'' @ [json_quote] @ ''b''))]]"
  by code_simp

lemma example_rows_ok: "list_all text_row (listRows (Some example_rows))"
  by (simp add: example_rows_read text_row_def)

theorem edited_rows_read_back_witness:
  "listRows (Some (writeRows int_text (set_cell 0 ''unit'' ''V'' (listRows (Some example_rows)))))
     = [JObj [(''path'', JStr (''a'' @ [json_quote] @ ''b'')), (''unit'', JStr ''V'')]]"
  using edited_rows_read_back [OF example_rows_ok, of int_text 0 "''unit''" "''V''"]
  by (simp add: example_rows_read set_cell_def)

section \<open>Names and leaves\<close>

lemma fresh_name_spec:
  "fresh_name k taken base name i = name \<or>
   (\<exists>j \<ge> i. j < i + k \<and> fresh_name k taken base name i = base @ ''_'' @ show_nat j)"
proof (induction k taken base name i rule: fresh_name.induct)
  case (2 k taken base name i)
  show ?case
  proof (cases "name \<in> set taken")
    case True
    then have "fresh_name (Suc k) taken base name i = fresh_name k taken base (base @ ''_'' @ show_nat i) (i + 1)" by simp
    with 2 [OF True] show ?thesis
      by (metis Suc_eq_plus1 Suc_leD add_Suc_right add_Suc_shift le_refl less_add_Suc1)
  next
    case False
    then show ?thesis by simp
  qed
qed simp

lemma fresh_name_taken:
  "fresh_name k taken base name i \<in> set taken \<Longrightarrow>
   name \<in> set taken \<and> (\<lambda>j. base @ ''_'' @ show_nat j) ` {i..<i + k} \<subseteq> set taken"
proof (induction k taken base name i rule: fresh_name.induct)
  case (2 k taken base name i)
  then have n: "name \<in> set taken" by (auto split: if_splits)
  with 2 have "base @ ''_'' @ show_nat i \<in> set taken"
    "(\<lambda>j. base @ ''_'' @ show_nat j) ` {i + 1..<i + 1 + k} \<subseteq> set taken" by auto
  moreover have "{i..<i + Suc k} = insert i {i + 1..<i + 1 + k}" by auto
  ultimately show ?case using n by simp
qed simp

lemma name_base_identifier:
  "name_base path \<noteq> [] \<and> list_all is_word (name_base path) \<and> \<not> is_digit (hd (name_base path))"
proof -
  have "is_alpha c \<or> c = CHR ''_'' \<Longrightarrow> \<not> is_digit c" for c
    by (auto simp: is_alpha_def is_upper_def is_lower_def is_digit_def)
  then show ?thesis
    by (auto simp: name_base_def Let_def list_all_iff is_word_def is_alpha_def is_lower_def)
qed

text \<open>Termination. Picking a number from a reply always yields a name, which is an identifier no other
  row has: the loop over numbered names ends within as many steps as there are names.\<close>
theorem picked_name_fresh:
  "nameFor path taken \<notin> set taken \<and> list_all is_word (nameFor path taken)
    \<and> nameFor path taken \<noteq> [] \<and> \<not> is_digit (hd (nameFor path taken))"
proof (intro conjI)
  show "nameFor path taken \<notin> set taken"
  proof
    let ?g = "\<lambda>j. name_base path @ ''_'' @ show_nat j"
    assume "nameFor path taken \<in> set taken"
    then have sub: "?g ` {2..<2 + (length taken + 1)} \<subseteq> set taken"
      using fresh_name_taken unfolding nameFor_def by blast
    have "inj_on ?g {2..<2 + (length taken + 1)}" by (simp add: inj_on_def)
    then have "card (?g ` {2..<2 + (length taken + 1)}) = length taken + 1" by (simp add: card_image)
    with card_mono [OF _ sub] card_length [of taken] show False by simp
  qed
  have cases: "nameFor path taken = name_base path \<or> (\<exists>j. nameFor path taken = name_base path @ ''_'' @ show_nat j)"
    using fresh_name_spec [of "length taken + 1" taken "name_base path" "name_base path" 2]
    unfolding nameFor_def by blast
  have digits: "list_all is_word (show_nat j)" for j
    using show_nat_digits [of j] by (auto simp: list_all_iff is_word_def)
  from cases name_base_identifier [of path] digits
  show "list_all is_word (nameFor path taken)" "nameFor path taken \<noteq> []" "\<not> is_digit (hd (nameFor path taken))"
    by (auto simp: is_word_def)
qed

fun json_at :: "json \<Rightarrow> string list \<Rightarrow> json option" where
  "json_at j [] = Some j"
| "json_at j (k # ks) = (case json_member k j of None \<Rightarrow> None | Some v \<Rightarrow> json_at v ks)"

fun no_repeats :: "json \<Rightarrow> bool" where  \<comment> \<open>no repeated members\<close>
  "no_repeats (JArr js) = list_all no_repeats js"
| "no_repeats (JObj fs) = (distinct (map fst fs) \<and> list_all (\<lambda>p. no_repeats (snd p)) fs)"
| "no_repeats j = True"

definition leaf_of :: "(rat \<Rightarrow> string) \<Rightarrow> json \<Rightarrow> leaf \<Rightarrow> bool" where
  "leaf_of num doc l \<longleftrightarrow> (\<exists>path node. json_at doc path = Some node \<and> isNumberish node
     \<and> lf_path l = join ''.'' path \<and> lf_value l = node_text num node)"

lemma json_at_snoc: "json_at j (path @ [k]) = (case json_at j path of None \<Rightarrow> None | Some v \<Rightarrow> json_member k v)"
  by (induction path arbitrary: j) (auto split: option.splits)

lemma settled_distinct: "no_repeats (settle j)"
proof (induction j)
  case (JArr js)
  then show ?case by (simp add: list_all_iff)
next
  case (JObj fs)
  define ps where "ps = map (\<lambda>p. (fst p, settle (snd p))) fs"
  have ok: "\<forall>p\<in>set ps. no_repeats (snd p)" using JObj by (fastforce simp: ps_def)
  have "distinct (map fst m) \<Longrightarrow> \<forall>p\<in>set m. no_repeats (snd p) \<Longrightarrow> \<forall>p\<in>set ps. no_repeats (snd p) \<Longrightarrow>
      distinct (map fst (foldl (\<lambda>m p. AList.update (fst p) (snd p) m) m ps))
      \<and> (\<forall>p\<in>set (foldl (\<lambda>m p. AList.update (fst p) (snd p) m) m ps). no_repeats (snd p))" for m and ps :: "(string \<times> json) list"
  proof (induction ps arbitrary: m)
    case (Cons p ps)
    have "q \<in> set (AList.update k v m) \<Longrightarrow> q \<in> set m \<or> q = (k, v)" for q k v
      by (induction m) (auto split: if_splits)
    with Cons.prems have "\<forall>q\<in>set (AList.update (fst p) (snd p) m). no_repeats (snd q)"
      by (metis list.set_intros(1) snd_conv)
    moreover have "distinct (map fst (AList.update (fst p) (snd p) m))" using Cons.prems by (simp add: distinct_update)
    ultimately show ?case using Cons.IH [of "AList.update (fst p) (snd p) m"] Cons.prems by simp
  qed simp
  from this [of "[]" ps] ok show ?case by (simp add: ps_def list_all_iff)
qed simp_all

lemma show_nat_only_digits: "list_all is_digit (show_nat i)"
  by (rule show_nat_digits)

lemma json_member_index: "i < length js \<Longrightarrow> json_member (show_nat i) (JArr js) = Some (js ! i)"
  by (simp add: show_nat_digits list_at_def)

lemma json_member_field:
  "distinct (map fst fs) \<Longrightarrow> p \<in> set fs \<Longrightarrow> json_member (fst p) (JObj fs) = Some (snd p)"
proof -
  assume "distinct (map fst fs)" "p \<in> set fs"
  then have "distinct (map fst (rev fs))" "(fst p, snd p) \<in> set (rev fs)" by (simp_all flip: rev_map)
  then have "map_of (rev fs) (fst p) = Some (snd p)" by (rule map_of_is_SomeI)
  then show ?thesis by simp
qed

declare walk.simps [simp del]

lemma push_leaf_sound:
  "json_at doc path = Some node \<Longrightarrow> isNumberish node \<Longrightarrow> \<forall>l\<in>set out. leaf_of num doc l \<Longrightarrow>
   \<forall>l\<in>set (push_leaf num node path chain out). leaf_of num doc l"
proof -
  assume a: "json_at doc path = Some node" "isNumberish node" "\<forall>l\<in>set out. leaf_of num doc l"
  have "leaf_of num doc \<lparr>lf_path = join ''.'' path, lf_value = node_text num node, lf_unit = unitFor path chain\<rparr>"
    unfolding leaf_of_def using a(1,2) by (intro exI [of _ path] exI [of _ node]) simp
  with a(3) show ?thesis by (simp add: push_leaf_def)
qed

lemma walk_cases:
  "walk num limit node path chain out =
     (if limit \<le> length out then out
      else if isNumberish node then push_leaf num node path chain out
      else case node of
        JArr js \<Rightarrow> walk_items num limit 0 js path (chain @ [node]) out
      | JObj fs \<Rightarrow> walk_members num limit fs path (chain @ [node]) out
      | _ \<Rightarrow> out)"
  by (rule walk.simps)

lemma walk_sound:
  "json_at doc path = Some node \<Longrightarrow> no_repeats node \<Longrightarrow> \<forall>l\<in>set out. leaf_of num doc l \<Longrightarrow>
     \<forall>l\<in>set (walk num limit node path chain out). leaf_of num doc l"
  "(\<forall>k < length js. json_at doc (path @ [show_nat (i + k)]) = Some (js ! k)) \<Longrightarrow> list_all no_repeats js \<Longrightarrow>
     \<forall>l\<in>set out. leaf_of num doc l \<Longrightarrow>
     \<forall>l\<in>set (walk_items num limit i js path chain out). leaf_of num doc l"
  "(\<forall>p\<in>set ps. json_at doc (path @ [fst p]) = Some (snd p)) \<Longrightarrow> list_all (\<lambda>p. no_repeats (snd p)) ps \<Longrightarrow>
     \<forall>l\<in>set out. leaf_of num doc l \<Longrightarrow>
     \<forall>l\<in>set (walk_members num limit ps path chain out). leaf_of num doc l"
proof (induction num limit node path chain out and num limit i js path chain out and num limit ps path chain out
    rule: walk_walk_items_walk_members.induct)
  case (1 num limit node path chain out)
  consider "limit \<le> length out" | "\<not> limit \<le> length out" "isNumberish node"
    | js where "\<not> limit \<le> length out" "node = JArr js" | fs where "\<not> limit \<le> length out" "node = JObj fs"
    | "node = JNull" | s where "\<not> isNumberish node" "node = JStr s"
    by (cases node) auto
  then show ?case
  proof cases
    case 1
    then show ?thesis using "1.prems"(3) by (simp only: walk_cases if_True)
  next
    case 2
    then show ?thesis using push_leaf_sound [OF "1.prems"(1) 2(2) "1.prems"(3)] by (simp only: walk_cases if_True if_False simp_thms)
  next
    case (3 js)
    then have n: "\<not> isNumberish node" by simp
    have "\<forall>k < length js. json_at doc (path @ [show_nat (0 + k)]) = Some (js ! k)"
      using "1.prems"(1) 3 by (simp add: json_at_snoc json_member_index del: json_member.simps)
    moreover have "list_all no_repeats js" using "1.prems"(2) 3 by simp
    ultimately have "\<forall>l\<in>set (walk_items num limit 0 js path (chain @ [node]) out). leaf_of num doc l"
      using "1.IH"(1) [OF 3(1) n 3(2)] "1.prems"(3) by blast
    with 3 n show ?thesis by (simp only: walk_cases if_False json.case)
  next
    case (4 fs)
    then have n: "\<not> isNumberish node" by simp
    have "\<forall>p\<in>set fs. json_at doc (path @ [fst p]) = Some (snd p)"
      using "1.prems"(1,2) 4 by (simp add: json_at_snoc json_member_field del: json_member.simps)
    moreover have "list_all (\<lambda>p. no_repeats (snd p)) fs" using "1.prems"(2) 4 by simp
    ultimately have "\<forall>l\<in>set (walk_members num limit fs path (chain @ [node]) out). leaf_of num doc l"
      using "1.IH"(2) [OF 4(1) n 4(2)] "1.prems"(3) by blast
    with 4 n show ?thesis by (simp only: walk_cases if_False json.case)
  next
    case 5
    then show ?thesis using "1.prems"(3) by (simp add: walk_cases)
  next
    case (6 s)
    then show ?thesis using "1.prems"(3) by (simp only: walk_cases if_False json.case if_cancel)
  qed
next
  case (3 num limit i j js path chain out)
  have here: "json_at doc (path @ [show_nat i]) = Some j" using 3(3) [rule_format, of 0] by simp
  have later: "\<forall>k < length js. json_at doc (path @ [show_nat (i + 1 + k)]) = Some (js ! k)"
  proof (intro allI impI)
    fix k assume "k < length js"
    with 3(3) [rule_format, of "Suc k"] show "json_at doc (path @ [show_nat (i + 1 + k)]) = Some (js ! k)" by simp
  qed
  have ok: "no_repeats j" "list_all no_repeats js" using "3.prems"(2) by simp_all
  show ?case unfolding walk_items.simps(2)
    by (rule "3.IH"(2) [OF later ok(2) "3.IH"(1) [OF here ok(1) "3.prems"(3)]])
next
  case (5 num limit p ps path chain out)
  have here: "json_at doc (path @ [fst p]) = Some (snd p)" and
    later: "\<forall>p\<in>set ps. json_at doc (path @ [fst p]) = Some (snd p)" using "5.prems"(1) by simp_all
  have ok: "no_repeats (snd p)" "list_all (\<lambda>p. no_repeats (snd p)) ps" using "5.prems"(2) by simp_all
  show ?case unfolding walk_members.simps(2)
    by (rule "5.IH"(2) [OF later ok(2) "5.IH"(1) [OF here ok(1) "5.prems"(3)]])
qed (simp_all only: walk_items.simps walk_members.simps)

lemma walk_bounded:
  "length out \<le> limit \<Longrightarrow> length (walk num limit node path chain out) \<le> limit"
  "length out \<le> limit \<Longrightarrow> length (walk_items num limit i js path chain out) \<le> limit"
  "length out \<le> limit \<Longrightarrow> length (walk_members num limit ps path chain out) \<le> limit"
proof (induction num limit node path chain out and num limit i js path chain out and num limit ps path chain out
    rule: walk_walk_items_walk_members.induct)
  case (1 num limit node path chain out)
  then show ?case by (cases node) (auto simp: walk.simps push_leaf_def)
qed simp_all

text \<open>Every number offered from a reply is there, at the path shown and with the text shown,
  and at most 400 are offered.\<close>

lemma offered_numbers_there:
  assumes "json_read body = Some doc"
  shows "length (leaves num doc) \<le> 400 \<and> (\<forall>l\<in>set (leaves num doc). leaf_of num doc l)"
proof -
  have "no_repeats doc" using assms settled_distinct by (auto simp: json_read_def split: option.splits if_splits)
  then show ?thesis using walk_sound(1) [of doc "[]" doc "[]" num 400 "[]"] walk_bounded(1) [of "[]" 400 num doc "[]" "[]"]
    by (simp add: leaves_def)
qed

end
