(* ===== verification/SensorForm.thy ===== *)
theory SensorForm
  imports SensorFields ApiClient
begin

text \<open>
  \<open>components/SensorDialog.tsx\<close>: the form that adds or edits a sensor. What it opens with, what stops a
  save, what Save and Test send, and the dialog as a state machine whose events are the operator's and the
  answers to its requests. A secret is never sent to the page: the sensor only says which are set.
\<close>

section \<open>Data\<close>

record sensor_binding =
  sb_name :: string
  sb_sensorId :: nat
  sb_metric :: string

record sensor_kind =
  sk_kind :: string
  sk_provider :: string
  sk_label :: string
  sk_description :: "string option"
  sk_category :: "string option"
  sk_metrics :: "string list option"
  sk_binds :: bool
  sk_testable :: bool
  sk_fields :: "sensor_field list"

record form_sensor =  \<comment> \<open>what the form reads of a sensor\<close>
  fs_id :: nat
  fs_provider :: string
  fs_kind :: string
  fs_name :: string
  fs_options :: "(string \<times> string) list"
  fs_bindings :: "sensor_binding list"
  fs_secretsSet :: "string list"

record sensor_pick =
  pk_kind :: sensor_kind
  pk_name :: string
  pk_options :: "(string \<times> string) list"
  pk_bindings :: "sensor_binding list"

record sensor_input =
  si_provider :: string
  si_kind :: string
  si_name :: string
  si_options :: "(string \<times> string) list"
  si_bindings :: "sensor_binding list option"
  si_keepSecrets :: "string list option"

definition option_of :: "(string \<times> string) list \<Rightarrow> string \<Rightarrow> string" where
  "option_of opts k = nullish (map_of opts k) []"

definition shown :: "sensor_field \<Rightarrow> (string \<times> string) list \<Rightarrow> bool" where
  "shown f opts \<longleftrightarrow> (case sf_when f of None \<Rightarrow> True | Some (k, values) \<Rightarrow> option_of opts k \<in> set values)"

section \<open>Opening\<close>

definition put_option :: "(string \<times> string) list \<Rightarrow> string \<times> string \<Rightarrow> (string \<times> string) list" where
  "put_option m kv = AList.update (fst kv) (snd kv) m"

definition seedOptions :: "sensor_kind \<Rightarrow> (string \<times> string) list option \<Rightarrow> (string \<times> string) list" where
  "seedOptions kind from =
     foldl put_option [] (map (\<lambda>f. (sf_key f,
       nullish (Option.bind from (\<lambda>m. map_of m (sf_key f))) (nullish (sf_default f) []))) (sk_fields kind))"

definition kind_of :: "sensor_kind list \<Rightarrow> form_sensor \<Rightarrow> sensor_kind option" where
  "kind_of kinds s = find (\<lambda>x. sk_provider x = fs_provider s \<and> sk_kind x = fs_kind s) kinds"

definition seedPick :: "form_sensor \<Rightarrow> sensor_kind list \<Rightarrow> sensor_pick" where
  "seedPick s kinds =
     \<lparr>pk_kind = (case kind_of kinds s of Some k \<Rightarrow> k
        | None \<Rightarrow> \<lparr>sk_kind = fs_kind s, sk_provider = fs_provider s, sk_label = fs_kind s, sk_description = None,
                   sk_category = None, sk_metrics = None, sk_binds = False,
                   sk_testable = False, sk_fields = []\<rparr>),
      pk_name = fs_name s,
      pk_options = (case kind_of kinds s of Some k \<Rightarrow> seedOptions k (Some (fs_options s)) | None \<Rightarrow> fs_options s),
      pk_bindings = fs_bindings s\<rparr>"

definition snapshot :: "sensor_pick \<Rightarrow> string \<times> (string \<times> string) list \<times> sensor_binding list" where
  "snapshot p = (trim (pk_name p), pk_options p, pk_bindings p)"

section \<open>What stops a save\<close>

definition MAX_NAME :: nat where
  "MAX_NAME = 64"

definition control_char :: "char \<Rightarrow> bool" where
  "control_char c \<longleftrightarrow> (of_char c :: nat) < 32 \<or> (127 \<le> (of_char c :: nat) \<and> (of_char c :: nat) < 160)"

definition effective :: "sensor_pick \<Rightarrow> (string \<times> string) list" where
  "effective p =
     foldl put_option [] (map (\<lambda>f. (sf_key f, or_str (option_of (pk_options p) (sf_key f)) (nullish (sf_default f) [])))
       (sk_fields (pk_kind p)))"

definition field_label :: "sensor_kind \<Rightarrow> string \<Rightarrow> string" where
  "field_label kind key = (case find (\<lambda>x. sf_key x = key) (sk_fields kind) of Some f \<Rightarrow> sf_label f | None \<Rightarrow> key)"

definition one_problem :: "(rat \<Rightarrow> string) \<Rightarrow> sensor_kind \<Rightarrow> string list \<Rightarrow> (string \<times> string) list \<Rightarrow> sensor_field \<Rightarrow> string option" where
  "one_problem num kind stored opts f =
     (let v = option_of opts (sf_key f) in
      if sf_required f \<and> sf_type f \<noteq> Some ListField \<and> trim v = [] \<and> \<not> (sf_secret f \<and> sf_key f \<in> set stored)
      then Some (''Fill in '' @ sf_label f @ ''.'')
      else fieldProblem num f v opts (field_label kind))"

fun first_problem ::
    "(rat \<Rightarrow> string) \<Rightarrow> sensor_kind \<Rightarrow> string list \<Rightarrow> (string \<times> string) list \<Rightarrow> (sensor_field \<Rightarrow> bool) \<Rightarrow> sensor_field list \<Rightarrow> string option" where
  "first_problem num kind stored opts include [] = None"
| "first_problem num kind stored opts include (f # fs) =
     (if \<not> shown f opts \<or> \<not> include f then first_problem num kind stored opts include fs
      else case one_problem num kind stored opts f of
        Some p \<Rightarrow> Some p | None \<Rightarrow> first_problem num kind stored opts include fs)"

definition fieldsProblem :: "(rat \<Rightarrow> string) \<Rightarrow> sensor_pick \<Rightarrow> string list \<Rightarrow> (sensor_field \<Rightarrow> bool) \<Rightarrow> string option" where
  "fieldsProblem num p stored include =
     first_problem num (pk_kind p) stored (effective p) include (sk_fields (pk_kind p))"

definition twin_of :: "form_sensor list \<Rightarrow> nat option \<Rightarrow> string \<Rightarrow> form_sensor option" where
  "twin_of sensors editingId name = find (\<lambda>s. Some (fs_id s) \<noteq> editingId \<and> to_lower (fs_name s) = to_lower name) sensors"

definition blockedBy ::
    "(rat \<Rightarrow> string) \<Rightarrow> sensor_pick option \<Rightarrow> form_sensor list \<Rightarrow> nat option \<Rightarrow> string list \<Rightarrow> string option" where
  "blockedBy num pick sensors editingId stored =
     (case pick of
        None \<Rightarrow> Some ''Choose a part first.''
      | Some p \<Rightarrow>
          (let name = trim (pk_name p) in
           if name = [] then Some ''Give it a name.''
           else if length name > MAX_NAME then Some (''Keep the name to '' @ show_nat MAX_NAME @ '' characters.'')
           else if list_ex control_char name then Some ''Take the control characters out of the name.''
           else case twin_of sensors editingId name of
             Some t \<Rightarrow> Some (''Another sensor is already called '' @ fs_name t @ ''.'')
           | None \<Rightarrow>
               if sk_binds (pk_kind p) \<and> pk_bindings p = [] then Some ''Choose at least one sensor for it to read.''
               else if sk_binds (pk_kind p) \<and> list_ex (\<lambda>b. trim (sb_name b) = [] \<or> sb_sensorId b = 0) (pk_bindings p)
                 then Some ''Finish every reading it uses.''
               else fieldsProblem num p stored (\<lambda>f. True)))"

section \<open>What is sent\<close>

definition applied_fields :: "sensor_pick \<Rightarrow> sensor_field list" where
  "applied_fields p = filter (\<lambda>f. shown f (pk_options p)) (sk_fields (pk_kind p))"

definition blank_secret :: "sensor_pick \<Rightarrow> sensor_field \<Rightarrow> bool" where
  "blank_secret p f \<longleftrightarrow> sf_secret f \<and> option_of (pk_options p) (sf_key f) = []"

definition kept_secrets :: "sensor_pick \<Rightarrow> form_sensor option \<Rightarrow> string list" where
  "kept_secrets p editing =
     map sf_key (filter (\<lambda>f. blank_secret p f \<and> (case editing of None \<Rightarrow> False | Some s \<Rightarrow> sf_key f \<in> set (fs_secretsSet s)))
       (applied_fields p))"

definition requestBody :: "sensor_pick \<Rightarrow> form_sensor option \<Rightarrow> sensor_input" where
  "requestBody p editing =
     \<lparr>si_provider = sk_provider (pk_kind p), si_kind = sk_kind (pk_kind p), si_name = trim (pk_name p),
      si_options = (if sk_fields (pk_kind p) \<noteq> []
        then foldl put_option [] (map (\<lambda>f. (sf_key f, option_of (pk_options p) (sf_key f)))
               (filter (\<lambda>f. \<not> blank_secret p f) (applied_fields p)))
        else pk_options p),
      si_bindings = (if sk_binds (pk_kind p) then Some (pk_bindings p) else None),
      si_keepSecrets = (if kept_secrets p editing = [] then None else Some (kept_secrets p editing))\<rparr>"

definition pick_path :: "(rat \<Rightarrow> string) \<Rightarrow> json list \<Rightarrow> leaf \<Rightarrow> string" where  \<comment> \<open>the list with a picked number added\<close>
  "pick_path num rows l =
     writeRows num (rows @ [JObj [(''name'', JStr (nameFor (lf_path l) (map (\<lambda>r. nullish (cell r ''name'') []) rows))),
       (''unit'', JStr (lf_unit l)), (''path'', JStr (lf_path l))]])"

definition offered_choices :: "sensor_field \<Rightarrow> string \<Rightarrow> (string \<times> string) list" where  \<comment> \<open>value and text\<close>
  "offered_choices f v =
     map (\<lambda>c. (c, c)) (nullish (sf_choices f) [])
     @ (if v \<noteq> [] \<and> v \<notin> set (nullish (sf_choices f) []) then [(v, v @ '' (not on this host)'')] else [])"

definition set_option :: "string \<Rightarrow> string \<Rightarrow> sensor_pick \<Rightarrow> sensor_pick" where
  "set_option k v p = p\<lparr>pk_options := AList.update k v (pk_options p)\<rparr>"

section \<open>The dialog\<close>

record dialog_state =
  sd_open :: bool
  sd_editing :: "form_sensor option"
  sd_query :: string
  sd_pick :: "sensor_pick option"
  sd_seed :: "(string \<times> (string \<times> string) list \<times> sensor_binding list) option"
  sd_saving :: bool
  sd_error :: "string option"
  sd_test :: "json option"
  sd_testing :: bool
  sd_scan :: "json option"
  sd_scanning :: bool
  sd_saved :: nat   \<comment> \<open>calls of \<open>onSaved\<close>\<close>

definition dialog_opened :: "form_sensor option \<Rightarrow> sensor_kind list \<Rightarrow> dialog_state \<Rightarrow> dialog_state" where
  \<comment> \<open>both effects; \<open>rescan\<close> starts when adding\<close>
  "dialog_opened editing kinds st =
     (let seeded = map_option (\<lambda>s. seedPick s kinds) editing in
      st\<lparr>sd_open := True, sd_editing := editing, sd_query := [], sd_saving := False, sd_error := None,
         sd_pick := seeded, sd_test := None, sd_seed := map_option snapshot seeded, sd_scan := None,
         sd_scanning := (sd_scanning st \<or> editing = None)\<rparr>)"

definition scan_failed :: "string \<Rightarrow> json" where
  "scan_failed reason = JObj [(''candidates'', JArr []),
     (''problems'', JArr [JObj [(''provider'', JStr []), (''label'', JStr ''Sensors''), (''reason'', JStr reason)]])]"

definition scan_answered :: "string + json \<Rightarrow> dialog_state \<Rightarrow> dialog_state" where
  "scan_answered r st =
     st\<lparr>sd_scan := Some (case r of Inl reason \<Rightarrow> scan_failed reason | Inr scan \<Rightarrow> scan), sd_scanning := False\<rparr>"

definition picked :: "sensor_kind \<Rightarrow> (string \<times> string) list option \<Rightarrow> dialog_state \<Rightarrow> dialog_state" where  \<comment> \<open>\<open>choose\<close>\<close>
  "picked kind opts st =
     st\<lparr>sd_error := None, sd_test := None,
        sd_pick := Some \<lparr>pk_kind = kind, pk_name = sk_label kind, pk_options = seedOptions kind opts, pk_bindings = []\<rparr>\<rparr>"

definition pick_edited :: "sensor_pick \<Rightarrow> dialog_state \<Rightarrow> dialog_state" where
  "pick_edited p st = st\<lparr>sd_pick := Some p\<rparr>"

definition went_back :: "dialog_state \<Rightarrow> dialog_state" where
  "went_back st = st\<lparr>sd_error := None, sd_pick := None\<rparr>"

definition unchanged :: "dialog_state \<Rightarrow> bool" where
  "unchanged st \<longleftrightarrow> sd_editing st \<noteq> None \<and> sd_pick st \<noteq> None \<and> map_option snapshot (sd_pick st) = sd_seed st"

definition can_save_sensor :: "(rat \<Rightarrow> string) \<Rightarrow> form_sensor list \<Rightarrow> dialog_state \<Rightarrow> bool" where
  "can_save_sensor num sensors st \<longleftrightarrow>
     blockedBy num (sd_pick st) sensors (map_option fs_id (sd_editing st))
       (case sd_editing st of None \<Rightarrow> [] | Some s \<Rightarrow> fs_secretsSet s) = None
     \<and> \<not> unchanged st \<and> \<not> sd_saving st"

definition save_sensor :: "dialog_state \<Rightarrow> dialog_state \<times> (nat option \<times> sensor_input) option" where
  \<comment> \<open>the request: the id that is updated, or none to create\<close>
  "save_sensor st =
     (case sd_pick st of
        None \<Rightarrow> (st, None)
      | Some p \<Rightarrow> (st\<lparr>sd_saving := True, sd_error := None\<rparr>,
                   Some (map_option fs_id (sd_editing st), requestBody p (sd_editing st))))"

definition save_answered :: "string option \<Rightarrow> dialog_state \<Rightarrow> dialog_state" where  \<comment> \<open>the reason of a failure\<close>
  "save_answered failure st =
     (case failure of
        None \<Rightarrow> st\<lparr>sd_saved := sd_saved st + 1, sd_open := False, sd_saving := False\<rparr>
      | Some e \<Rightarrow> st\<lparr>sd_error := Some e, sd_saving := False\<rparr>)"

definition run_test :: "dialog_state \<Rightarrow> dialog_state \<times> (nat \<times> sensor_input) option" where
  "run_test st =
     (case sd_pick st of
        None \<Rightarrow> (st, None)
      | Some p \<Rightarrow> (st\<lparr>sd_testing := True\<rparr>,
                   Some (case sd_editing st of None \<Rightarrow> 0 | Some s \<Rightarrow> fs_id s, requestBody p (sd_editing st))))"

definition test_failed :: "string \<Rightarrow> json" where
  "test_failed e = JObj [(''error'', JStr e), (''status'', JStr []), (''contentType'', JStr []), (''body'', JStr []),
     (''truncated'', JBool False), (''values'', JArr [])]"

definition test_answered :: "string + json \<Rightarrow> dialog_state \<Rightarrow> dialog_state" where
  "test_answered r st = st\<lparr>sd_test := Some (case r of Inl e \<Rightarrow> test_failed e | Inr t \<Rightarrow> t), sd_testing := False\<rparr>"

section \<open>What a save keeps\<close>

lemma put_options: "distinct (map fst kvs) \<Longrightarrow> foldl put_option [] kvs = kvs"
  using settle_members [of "[]" kvs] by (simp add: put_option_def [abs_def])

lemma map_of_keyed:
  "distinct (map sf_key fs) \<Longrightarrow> f \<in> set fs \<Longrightarrow> map_of (map (\<lambda>f. (sf_key f, g f)) fs) (sf_key f) = Some (g f)"
  by (intro map_of_is_SomeI) (auto simp: o_def)

lemma map_of_keyed_None:
  "(\<And>g. g \<in> set fs \<Longrightarrow> sf_key g \<noteq> k) \<Longrightarrow> map_of (map (\<lambda>f. (sf_key f, h f)) fs) k = None"
  by (induction fs) auto

lemma distinct_filter_keys: "distinct (map sf_key fs) \<Longrightarrow> distinct (map sf_key (filter P fs))"
  by (induction fs) auto

lemma sent_option:
  assumes d: "distinct (map sf_key (sk_fields (pk_kind p)))" and f: "f \<in> set (sk_fields (pk_kind p))"
  shows "map_of (si_options (requestBody p editing)) (sf_key f) =
    (if shown f (pk_options p) \<and> \<not> blank_secret p f then Some (option_of (pk_options p) (sf_key f)) else None)"
proof -
  let ?fs = "filter (\<lambda>f. \<not> blank_secret p f) (applied_fields p)"
  have dk: "distinct (map sf_key ?fs)"
    using d unfolding applied_fields_def by (intro distinct_filter_keys)
  have "foldl put_option [] (map (\<lambda>f. (sf_key f, option_of (pk_options p) (sf_key f))) ?fs)
      = map (\<lambda>f. (sf_key f, option_of (pk_options p) (sf_key f))) ?fs"
    using dk by (intro put_options) (simp add: o_def)
  moreover have "sk_fields (pk_kind p) \<noteq> []" using f by auto
  ultimately have opts: "si_options (requestBody p editing) = map (\<lambda>f. (sf_key f, option_of (pk_options p) (sf_key f))) ?fs"
    by (simp add: requestBody_def)
  show ?thesis
  proof (cases "f \<in> set ?fs")
    case True
    then show ?thesis using map_of_keyed [OF dk True] unfolding opts by (auto simp: applied_fields_def)
  next
    case False
    have "sf_key g \<noteq> sf_key f" if "g \<in> set ?fs" for g
      using that False f d by (auto simp: applied_fields_def distinct_map inj_on_def)
    then have "map_of (si_options (requestBody p editing)) (sf_key f) = None"
      unfolding opts by (rule map_of_keyed_None)
    with False f show ?thesis by (auto simp: applied_fields_def)
  qed
qed

lemma kept_secret_iff:
  assumes d: "distinct (map sf_key (sk_fields (pk_kind p)))" and f: "f \<in> set (sk_fields (pk_kind p))"
  shows "sf_key f \<in> set (nullish (si_keepSecrets (requestBody p (Some s))) []) \<longleftrightarrow>
    shown f (pk_options p) \<and> blank_secret p f \<and> sf_key f \<in> set (fs_secretsSet s)"
proof -
  have k: "set (nullish (si_keepSecrets (requestBody p (Some s))) []) = set (kept_secrets p (Some s))"
    by (simp add: requestBody_def)
  have "f = g" if "g \<in> set (sk_fields (pk_kind p))" "sf_key f = sf_key g" for g
    using that d f by (auto simp: distinct_map inj_on_def)
  then show ?thesis using f unfolding k kept_secrets_def applied_fields_def by auto
qed


definition plain_field :: "string \<Rightarrow> bool \<Rightarrow> (string \<times> string list) option \<Rightarrow> sensor_field" where
  "plain_field k secret cond = \<lparr>sf_key = k, sf_label = k, sf_default = None, sf_required = True, sf_secret = secret,
     sf_when = cond, sf_type = None, sf_minSecs = None, sf_maxSecs = None, sf_atLeast = None, sf_columns = None, sf_tested = False,
     sf_identifies = False, sf_choices = None\<rparr>"

definition web_kind :: sensor_kind where
  "web_kind = \<lparr>sk_kind = ''http'', sk_provider = ''web'', sk_label = ''Web'', sk_description = None,
     sk_category = Some ''Online'', sk_metrics = None, sk_binds = False, sk_testable = True,
     sk_fields = [plain_field ''url'' False None, plain_field ''auth'' False None,
                  plain_field ''token'' True (Some (''auth'', [''bearer'']))]\<rparr>"

definition web_sensor :: form_sensor where
  "web_sensor = \<lparr>fs_id = 4, fs_provider = ''web'', fs_kind = ''http'', fs_name = ''roof'',
     fs_options = [(''url'', ''http://x''), (''auth'', ''bearer'')], fs_bindings = [], fs_secretsSet = [''token'']\<rparr>"

lemma web_kind_keys: "distinct (map sf_key (sk_fields (pk_kind (seedPick web_sensor [web_kind]))))"
  and web_kind_token: "plain_field ''token'' True (Some (''auth'', [''bearer''])) \<in> set (sk_fields (pk_kind (seedPick web_sensor [web_kind])))"
  by (simp_all add: seedPick_def kind_of_def web_sensor_def web_kind_def plain_field_def)

lemma web_token_blank: "shown (plain_field ''token'' True (Some (''auth'', [''bearer'']))) (pk_options (seedPick web_sensor [web_kind]))"
    "option_of (pk_options (seedPick web_sensor [web_kind])) ''token'' = []"
  by code_simp+


section \<open>What the form lets through\<close>

lemma first_problem_None:
  "first_problem num kind stored opts include fs = None \<Longrightarrow> f \<in> set fs \<Longrightarrow> shown f opts \<Longrightarrow> include f \<Longrightarrow>
   one_problem num kind stored opts f = None"
  by (induction fs) (auto split: if_splits option.splits)

lemma rows_problem_None:
  "rows_problem name columns n rows = None \<Longrightarrow> row \<in> set rows \<Longrightarrow> c \<in> set columns \<Longrightarrow> sc_required c \<Longrightarrow>
   trim (nullish (cell row (sc_key c)) []) \<noteq> []"
  by (induction rows arbitrary: n) (auto simp: missing_cell_def find_None_iff split: option.splits)

lemma duration_problem_None:
  "duration_problem num f v opts label = None \<Longrightarrow>
   \<exists>secs. parseSpan (Some v) = Some secs
     \<and> (truthy_num (sf_minSecs f) \<longrightarrow> nullish (sf_minSecs f) 0 \<le> secs)
     \<and> (truthy_num (sf_maxSecs f) \<longrightarrow> secs \<le> nullish (sf_maxSecs f) 0)"
  by (cases "parseSpan (Some v)") (auto simp: duration_problem_def Let_def split: if_splits)

definition field_accepted :: "string list \<Rightarrow> sensor_field \<Rightarrow> string \<Rightarrow> bool" where
  "field_accepted stored f v \<longleftrightarrow>
     (sf_required f \<and> sf_type f \<noteq> Some ListField \<longrightarrow> trim v \<noteq> [] \<or> (sf_secret f \<and> sf_key f \<in> set stored))
     \<and> (sf_type f = Some DurationField \<and> v \<noteq> [] \<longrightarrow>
          (\<exists>secs. parseSpan (Some v) = Some secs
            \<and> (truthy_num (sf_minSecs f) \<longrightarrow> nullish (sf_minSecs f) 0 \<le> secs)
            \<and> (truthy_num (sf_maxSecs f) \<longrightarrow> secs \<le> nullish (sf_maxSecs f) 0)))
     \<and> (sf_type f = Some ListField \<longrightarrow> (sf_required f \<longrightarrow> listRows (Some v) \<noteq> [])
          \<and> (\<forall>row\<in>set (listRows (Some v)). \<forall>c\<in>set (nullish (sf_columns f) []). sc_required c \<longrightarrow>
               trim (nullish (cell row (sc_key c)) []) \<noteq> []))"

lemma one_problem_None:
  assumes "one_problem num kind stored opts f = None"
  shows "field_accepted stored f (option_of opts (sf_key f))"
proof -
  let ?v = "option_of opts (sf_key f)"
  have req: "sf_required f \<and> sf_type f \<noteq> Some ListField \<longrightarrow> trim ?v \<noteq> [] \<or> (sf_secret f \<and> sf_key f \<in> set stored)"
    and fp: "fieldProblem num f ?v opts (field_label kind) = None"
    using assms by (auto simp: one_problem_def Let_def split: if_splits)
  have dur: "duration_problem num f ?v opts (field_label kind) = None" if "sf_type f = Some DurationField" "?v \<noteq> []"
    using fp that by (simp add: fieldProblem_def)
  have lst: "(sf_required f \<longrightarrow> listRows (Some ?v) \<noteq> [])
      \<and> rows_problem (sf_label f) (nullish (sf_columns f) []) 0 (listRows (Some ?v)) = None" if "sf_type f = Some ListField"
    using fp that by (auto simp: fieldProblem_def split: if_splits)
  show ?thesis unfolding field_accepted_def
    using req duration_problem_None [OF dur] lst rows_problem_None by blast
qed


lemma web_sensor_ok: "blockedBy int_text (Some (seedPick web_sensor [web_kind])) [web_sensor] (Some 4) [''token''] = None"
  by code_simp


section \<open>Answers that come late\<close>

text \<open>An answer is not matched with the form it was asked from: the reply of a test lands on the part
  chosen since, and the success of a save closes the form opened since.\<close>

lemma late_test_shown:
  "sd_test (test_answered r (picked k2 o2 (went_back (fst (run_test (picked k1 o1 st)))))) =
     Some (case r of Inl e \<Rightarrow> test_failed e | Inr t \<Rightarrow> t)
   \<and> map_option pk_kind (sd_pick (test_answered r (picked k2 o2 (went_back (fst (run_test (picked k1 o1 st))))))) = Some k2"
  by (simp add: test_answered_def picked_def went_back_def run_test_def)

lemma late_save_closes:
  "sd_open (save_answered None (dialog_opened (Some b) kinds (fst (save_sensor (dialog_opened (Some a) kinds st))))) = False
   \<and> sd_editing (save_answered None (dialog_opened (Some b) kinds (fst (save_sensor (dialog_opened (Some a) kinds st))))) = Some b"
  by (simp add: save_answered_def dialog_opened_def save_sensor_def Let_def)

text \<open>A sensor that is opened for editing has nothing to save.\<close>

lemma opened_unchanged: "unchanged (dialog_opened (Some s) kinds st)"
  by (simp add: unchanged_def dialog_opened_def Let_def)

end
