(* ===== verification/SensorBoard.thy ===== *)
theory SensorBoard
  imports SensorView SensorForm
begin

text \<open>
  The sensors page: \<open>pages/SensorsPage.tsx\<close> (groups, counts and what reads what), the cards of
  \<open>components/SensorModule.tsx\<close>, the parts picker \<open>components/SensorCatalogue.tsx\<close> and the readings
  of a derived sensor, \<open>components/BindingEditor.tsx\<close>. \<open>cmp\<close> is \<open>localeCompare\<close>; \<open>url_host\<close> is the
  host of a web address, none where \<open>new URL\<close> throws.
\<close>

section \<open>The page\<close>

record board_sensor = sensor +
  bd_id :: nat
  bd_provider :: string
  bd_kind :: string
  bd_name :: string
  bd_options :: "(string \<times> string) list"
  bd_bindings :: "sensor_binding list"
  bd_reports :: "string list"
  bd_category :: string

definition board_state :: "board_sensor \<Rightarrow> sensor_state" where
  "board_state s = stateOf (sensor.truncate s)"

definition GROUPS :: "string list" where
  "GROUPS = [''Environment'', ''Power'', ''Analogue'', ''Online'', ''Derived'']"

definition isWide :: "board_sensor \<Rightarrow> bool" where
  "isWide s =
     (let r = splitReadings (se_readings s) in
      length (cr_headline r) \<ge> 3 \<or> cr_detail r \<noteq> [] \<or> cr_calibration r \<noteq> [])"

definition state_count :: "board_sensor list \<Rightarrow> sensor_state \<Rightarrow> nat" where
  "state_count list k = length (filter (\<lambda>s. board_state s = k) list)"

definition feed_binding :: "board_sensor \<Rightarrow> (nat \<times> board_sensor list) list \<Rightarrow> sensor_binding \<Rightarrow> (nat \<times> board_sensor list) list" where
  "feed_binding s feeds b =
     (let l = nullish (map_of feeds (sb_sensorId b)) [] in AList.update (sb_sensorId b) (set_add s l) feeds)"

definition feeds_of :: "board_sensor list \<Rightarrow> (nat \<times> board_sensor list) list" where
  "feeds_of list = foldl (\<lambda>feeds s. foldl (feed_binding s) feeds (bd_bindings s)) [] list"

definition group_name :: "board_sensor \<Rightarrow> string" where
  "group_name s = or_str (bd_category s) ''Other''"

definition put_group :: "(string \<times> board_sensor list) list \<Rightarrow> board_sensor \<Rightarrow> (string \<times> board_sensor list) list" where
  "put_group m s = AList.update (group_name s) (nullish (map_of m (group_name s)) [] @ [s]) m"

definition group_rank :: "string \<Rightarrow> nat" where
  "group_rank g = nullish (index_where (\<lambda>x. x = g) GROUPS) (length GROUPS)"

definition group_cmp :: "(string \<Rightarrow> string \<Rightarrow> rat) \<Rightarrow> string \<times> board_sensor list \<Rightarrow> string \<times> board_sensor list \<Rightarrow> rat" where
  "group_cmp cmp x y =
     (let d = of_nat (group_rank (fst x)) - of_nat (group_rank (fst y)) in if d \<noteq> 0 then d else cmp (fst x) (fst y))"

definition wide_first :: "board_sensor \<Rightarrow> board_sensor \<Rightarrow> rat" where
  "wide_first a b = (if isWide b then 1 else 0) - (if isWide a then 1 else 0)"

definition board_groups :: "(string \<Rightarrow> string \<Rightarrow> rat) \<Rightarrow> board_sensor list \<Rightarrow> (string \<times> board_sensor list) list" where
  "board_groups cmp list =
     map (\<lambda>(name, members). (name, js_sort wide_first members)) (js_sort (group_cmp cmp) (foldl put_group [] list))"

definition shown_groups :: "sensor_state option \<Rightarrow> (string \<times> board_sensor list) list \<Rightarrow> (string \<times> board_sensor list) list" where
  "shown_groups flt groups =
     filter (\<lambda>g. snd g \<noteq> []) (map (\<lambda>g. (fst g, case flt of None \<Rightarrow> snd g
       | Some k \<Rightarrow> filter (\<lambda>s. board_state s = k) (snd g))) groups)"

definition toggle_filter :: "sensor_state option \<Rightarrow> sensor_state \<Rightarrow> sensor_state option" where
  "toggle_filter flt k = (if flt = Some k then None else Some k)"

definition silent :: "rat \<Rightarrow> board_sensor list option \<Rightarrow> rat \<Rightarrow> bool" where
  "silent stale sensors sinceSecs \<longleftrightarrow> (case sensors of None \<Rightarrow> False | Some l \<Rightarrow> l \<noteq> [] \<and> sinceSecs > stale)"

definition since_secs :: "int \<Rightarrow> int \<Rightarrow> rat" where
  "since_secs now received = max 0 (of_int (now - received) / 1000)"

definition card_age :: "rat \<Rightarrow> rat option \<Rightarrow> rat option" where
  "card_age since age = map_option (\<lambda>a. a + since) age"

definition card_retry :: "rat \<Rightarrow> rat option \<Rightarrow> rat option" where
  "card_retry since retry = map_option (\<lambda>r. max 0 (r - since)) retry"

section \<open>A card\<close>

definition hostOf :: "(string \<Rightarrow> string option) \<Rightarrow> string option \<Rightarrow> string option" where
  "hostOf url_host v =
     (case v of
        None \<Rightarrow> None
      | Some u \<Rightarrow> if starts_with ''http://'' u \<or> starts_with ''https://'' u
          then Some (nullish (url_host u) u) else Some u)"

definition partOf :: "(string \<Rightarrow> string option) \<Rightarrow> board_sensor \<Rightarrow> sensor_kind option \<Rightarrow> string" where
  "partOf url_host s kind =
     (case kind of
        None \<Rightarrow> bd_provider s @ '' / '' @ bd_kind s
      | Some k \<Rightarrow>
          if bd_bindings s \<noteq> [] then sk_label k
          else join '' '' (sk_label k # filter (\<lambda>v. v \<noteq> [])
            (map (\<lambda>f. nullish (hostOf url_host (map_of (bd_options s) (sf_key f))) [])
              (filter sf_identifies (sk_fields k)))))"

definition card_links :: "board_sensor \<Rightarrow> board_sensor list \<Rightarrow> nat list" where
  "card_links s feeds = as_set (map sb_sensorId (bd_bindings s) @ map bd_id feeds)"

definition run_in_left :: "board_sensor \<Rightarrow> rat option \<Rightarrow> rat option" where
  "run_in_left s age =
     map_option (\<lambda>x. max 0 (sr_value x - nullish age 0))
       (find (\<lambda>x. sr_metric x = ''air_quality_run_in_left'') (cr_calibration (splitReadings (se_readings s))))"

definition indexHeld :: "board_sensor \<Rightarrow> bool" where
  "indexHeld s \<longleftrightarrow> list_ex uncalibrated (cr_calibration (splitReadings (se_readings s)))
     \<and> ''iaq'' \<in> set (bd_reports s) \<and> \<not> list_ex (\<lambda>x. sr_metric x = ''iaq'') (se_readings s)"

definition card_tiles :: "board_sensor \<Rightarrow> nat" where
  "card_tiles s = length (cr_headline (splitReadings (se_readings s))) + (if indexHeld s then 1 else 0)"

section \<open>The parts picker\<close>

record candidate =
  ca_kind :: string
  ca_provider :: string
  ca_label :: string
  ca_detail :: "string option"
  ca_addable :: bool
  ca_usedBy :: string
  ca_options :: "(string \<times> string) list"

record part_entry =
  en_kind :: sensor_kind
  en_label :: string
  en_detail :: string
  en_options :: "(string \<times> string) list option"

record part_section =
  ps_label :: string
  ps_rows :: "part_entry list"

definition kind_key :: "sensor_kind \<Rightarrow> string" where
  "kind_key k = sk_provider k @ ''/'' @ sk_kind k"

definition keyOf :: "part_entry \<Rightarrow> string" where
  "keyOf e = kind_key (en_kind e) @ ''/'' @ en_detail e"

definition haystack :: "sensor_kind \<Rightarrow> string" where
  "haystack k = to_lower (join '' '' ([sk_label k, sk_kind k, nullish (sk_description k) [], nullish (sk_category k) []]
     @ nullish (sk_metrics k) []))"

fun split_spaces :: "string \<Rightarrow> string list" where  \<comment> \<open>\<open>split(/\s+/)\<close> with the empty pieces dropped\<close>
  "split_spaces [] = []"
| "split_spaces (c # s) =
     (if is_space c then split_spaces s
      else (case s of
          [] \<Rightarrow> [[c]]
        | d # _ \<Rightarrow> if is_space d then [c] # split_spaces s
            else (case split_spaces s of [] \<Rightarrow> [[c]] | w # ws \<Rightarrow> (c # w) # ws)))"

definition query_terms :: "string \<Rightarrow> string list" where
  "query_terms query = split_spaces (to_lower (trim query))"

definition part_matches :: "string \<Rightarrow> sensor_kind \<Rightarrow> bool" where
  "part_matches query k \<longleftrightarrow> list_all (\<lambda>t. str_includes (haystack k) t) (query_terms query)"

definition catalogue_kind :: "sensor_kind list \<Rightarrow> candidate \<Rightarrow> sensor_kind option" where
  \<comment> \<open>\<open>byKind\<close>: a later kind of one key wins\<close>
  "catalogue_kind catalogue c = find (\<lambda>k. kind_key k = ca_provider c @ ''/'' @ ca_kind c) (rev catalogue)"

definition detected_entry :: "sensor_kind list \<Rightarrow> string \<Rightarrow> candidate \<Rightarrow> part_entry option" where
  "detected_entry catalogue query c =
     (if \<not> ca_addable c \<or> ca_usedBy c \<noteq> [] then None
      else case catalogue_kind catalogue c of
        None \<Rightarrow> None
      | Some k \<Rightarrow> if \<not> part_matches query k then None
          else Some \<lparr>en_kind = k, en_label = sk_label k,
            en_detail = or_str (nullish (ca_detail c) []) (nullish (sk_description k) []), en_options = Some (ca_options c)\<rparr>)"

definition detected_entries :: "sensor_kind list \<Rightarrow> string \<Rightarrow> candidate list \<Rightarrow> part_entry list" where
  "detected_entries catalogue query cs = List.map_filter (detected_entry catalogue query) cs"

definition unknown_candidates :: "candidate list \<Rightarrow> candidate list" where
  "unknown_candidates cs = filter (\<lambda>c. \<not> ca_addable c) cs"

definition taken_candidates :: "candidate list \<Rightarrow> candidate list" where
  "taken_candidates cs = filter (\<lambda>c. ca_addable c \<and> ca_usedBy c \<noteq> []) cs"

definition catalogue_entry :: "sensor_kind \<Rightarrow> part_entry" where
  "catalogue_entry k = \<lparr>en_kind = k, en_label = sk_label k,
     en_detail = or_str (nullish (sk_description k) []) (sk_kind k), en_options = None\<rparr>"

definition category_of :: "sensor_kind \<Rightarrow> string" where
  "category_of k = or_str (nullish (sk_category k) []) ''Other''"

definition put_category :: "(string \<times> part_entry list) list \<Rightarrow> sensor_kind \<Rightarrow> (string \<times> part_entry list) list" where
  "put_category m k = AList.update (category_of k) (nullish (map_of m (category_of k)) [] @ [catalogue_entry k]) m"

definition listed_kinds :: "sensor_kind list \<Rightarrow> string \<Rightarrow> part_entry list \<Rightarrow> sensor_kind list" where
  "listed_kinds catalogue query detected =
     filter (\<lambda>k. part_matches query k \<and> kind_key k \<notin> (kind_key \<circ> en_kind) ` set detected) catalogue"

definition buildEntries :: "(string \<Rightarrow> string \<Rightarrow> rat) \<Rightarrow> candidate list \<Rightarrow> sensor_kind list \<Rightarrow> string \<Rightarrow> part_section list" where
  "buildEntries cmp cs catalogue query =
     (let detected = detected_entries catalogue query cs in
      (if detected \<noteq> [] then [\<lparr>ps_label = ''Possible matches ('' @ show_nat (length detected) @ '')'', ps_rows = detected\<rparr>] else [])
      @ map (\<lambda>(l, rows). \<lparr>ps_label = l, ps_rows = rows\<rparr>)
          (js_sort (\<lambda>x y. cmp (fst x) (fst y)) (foldl put_category [] (listed_kinds catalogue query detected))))"

definition flat_rows :: "part_section list \<Rightarrow> part_entry list" where
  "flat_rows sections = concat (map ps_rows sections)"

fun section_starts :: "nat \<Rightarrow> part_section list \<Rightarrow> nat list" where
  "section_starts n [] = []"
| "section_starts n (s # ss) = n # section_starts (n + length (ps_rows s)) ss"

definition active_index :: "part_entry list \<Rightarrow> string option \<Rightarrow> nat option" where  \<comment> \<open>\<open>idx\<close>, \<open>None\<close> for -1\<close>
  "active_index flat activeKey =
     (if flat = [] then None
      else Some (case activeKey of None \<Rightarrow> 0 | Some k \<Rightarrow> nullish (index_where (\<lambda>e. keyOf e = k) flat) 0))"

datatype picker_key = PickDown | PickUp | PickHome | PickEnd | PickEnter

definition clamp_row :: "part_entry list \<Rightarrow> int \<Rightarrow> nat" where
  "clamp_row flat to = nat (max 0 (min to (int (length flat) - 1)))"

definition picker_key :: "part_entry list \<Rightarrow> string option \<Rightarrow> picker_key \<Rightarrow> string option \<times> part_entry option" where
  \<comment> \<open>the active key and the row picked\<close>
  "picker_key flat activeKey key =
     (case active_index flat activeKey of
        None \<Rightarrow> (activeKey, None)
      | Some i \<Rightarrow>
          (case key of
             PickDown \<Rightarrow> (Some (keyOf (flat ! clamp_row flat (int i + 1))), None)
           | PickUp \<Rightarrow> (Some (keyOf (flat ! clamp_row flat (int i - 1))), None)
           | PickHome \<Rightarrow> (Some (keyOf (flat ! clamp_row flat 0)), None)
           | PickEnd \<Rightarrow> (Some (keyOf (flat ! clamp_row flat (int (length flat) - 1))), None)
           | PickEnter \<Rightarrow> (activeKey, Some (flat ! i))))"

section \<open>The readings of a derived sensor\<close>

definition free_stem :: "string \<Rightarrow> string" where
  "free_stem metric =
     (let base = or_str (filter is_word metric) ''value'' in
      if is_digit (hd base) then CHR ''v'' # base else base)"

fun free_number :: "nat \<Rightarrow> string \<Rightarrow> string list \<Rightarrow> nat \<Rightarrow> string" where  \<comment> \<open>the loop, for at most so many steps\<close>
  "free_number 0 stem taken n = stem @ show_nat n"
| "free_number (Suc k) stem taken n =
     (if stem @ show_nat n \<in> set taken then free_number k stem taken (n + 1) else stem @ show_nat n)"

definition freeName :: "string \<Rightarrow> sensor_binding list \<Rightarrow> string" where
  "freeName metric bindings =
     (let taken = map sb_name bindings; stem = free_stem metric in
      if stem \<notin> set taken then stem else free_number (length taken) stem taken 2)"

record binding_rows =  \<comment> \<open>with the client ids of the rows\<close>
  br_bindings :: "sensor_binding list"
  br_keys :: "nat list"
  br_seq :: nat

definition binding_render :: "binding_rows \<Rightarrow> binding_rows" where
  "binding_render st =
     (let n = length (br_bindings st) - length (br_keys st) in
      st\<lparr>br_keys := br_keys st @ map (\<lambda>i. br_seq st + 1 + i) [0..<n], br_seq := br_seq st + n\<rparr>)"

definition binding_add :: "binding_rows \<Rightarrow> binding_rows" where
  "binding_add st = binding_render (st\<lparr>br_bindings := br_bindings st @ [\<lparr>sb_name = [], sb_sensorId = 0, sb_metric = []\<rparr>]\<rparr>)"

definition binding_update :: "nat \<Rightarrow> (sensor_binding \<Rightarrow> sensor_binding) \<Rightarrow> binding_rows \<Rightarrow> binding_rows" where
  "binding_update i next st =
     st\<lparr>br_bindings := map (\<lambda>(j, b). if j = i then next b else b) (enumerate 0 (br_bindings st))\<rparr>"

definition binding_source :: "nat \<Rightarrow> nat \<Rightarrow> string \<Rightarrow> binding_rows \<Rightarrow> binding_rows" where
  "binding_source i sensorId metric st =
     binding_update i (\<lambda>b. b\<lparr>sb_sensorId := sensorId, sb_metric := metric,
       sb_name := or_str (trim (sb_name b)) (freeName metric (br_bindings st))\<rparr>) st"

definition drop_nth :: "nat \<Rightarrow> 'a list \<Rightarrow> 'a list" where
  "drop_nth i xs = take i xs @ drop (i + 1) xs"

definition binding_remove :: "nat \<Rightarrow> binding_rows \<Rightarrow> binding_rows" where
  "binding_remove i st =
     binding_render (st\<lparr>br_keys := drop_nth i (br_keys st), br_bindings := drop_nth i (br_bindings st)\<rparr>)"

section \<open>Grouping\<close>

definition group_into :: "('a \<Rightarrow> 'k) \<Rightarrow> ('a \<Rightarrow> 'b) \<Rightarrow> ('k \<times> 'b list) list \<Rightarrow> 'a \<Rightarrow> ('k \<times> 'b list) list" where
  "group_into key val m x = AList.update (key x) (nullish (map_of m (key x)) [] @ [val x]) m"

lemma put_group_into: "put_group = group_into group_name (\<lambda>s. s)"
  by (intro ext) (simp add: put_group_def group_into_def)

lemma put_category_into: "put_category = group_into category_of catalogue_entry"
  by (intro ext) (simp add: put_category_def group_into_def)

lemma update_members:
  "distinct (map fst m) \<Longrightarrow>
   mset (concat (map snd (AList.update k (nullish (map_of m k) [] @ [v]) m))) = add_mset v (mset (concat (map snd m)))"
proof (induction m)
  case (Cons p m)
  show ?case
  proof (cases "fst p = k")
    case True
    with Cons.prems have "k \<notin> fst ` set m" by auto
    then have "AList.update k w m = m @ [(k, w)]" for w by (induction m) auto
    with True show ?thesis by (cases p) simp
  next
    case False
    with Cons show ?thesis by (cases p) simp
  qed
qed simp

lemma group_into_facts:
  assumes "distinct (map fst m)"
  shows "distinct (map fst (group_into key val m x))"
    and "mset (concat (map snd (group_into key val m x))) = add_mset (val x) (mset (concat (map snd m)))"
    and "\<forall>g\<in>set m. snd g \<noteq> [] \<and> (\<forall>v\<in>set (snd g). P (fst g) v) \<Longrightarrow> P (key x) (val x) \<Longrightarrow>
      \<forall>g\<in>set (group_into key val m x). snd g \<noteq> [] \<and> (\<forall>v\<in>set (snd g). P (fst g) v)"
proof -
  show "distinct (map fst (group_into key val m x))"
    using assms by (simp add: group_into_def distinct_update)
  show "mset (concat (map snd (group_into key val m x))) = add_mset (val x) (mset (concat (map snd m)))"
    using update_members [OF assms] by (simp add: group_into_def)
  assume ok: "\<forall>g\<in>set m. snd g \<noteq> [] \<and> (\<forall>v\<in>set (snd g). P (fst g) v)" and new: "P (key x) (val x)"
  let ?w = "nullish (map_of m (key x)) [] @ [val x]"
  have "\<forall>v\<in>set ?w. P (key x) v"
    using ok new by (cases "map_of m (key x)") (fastforce dest: map_of_SomeD)+
  moreover have "g \<in> set (AList.update (key x) ?w m) \<Longrightarrow> g \<in> set m \<or> g = (key x, ?w)" for g
    by (induction m) (auto split: if_splits)
  ultimately show "\<forall>g\<in>set (group_into key val m x). snd g \<noteq> [] \<and> (\<forall>v\<in>set (snd g). P (fst g) v)"
    using ok unfolding group_into_def by fastforce
qed

lemma groups_of:
  "distinct (map fst (foldl (group_into key val) [] xs))
   \<and> mset (concat (map snd (foldl (group_into key val) [] xs))) = mset (map val xs)
   \<and> (\<forall>g\<in>set (foldl (group_into key val) [] xs). snd g \<noteq> [] \<and> (\<forall>v\<in>set (snd g). \<exists>x\<in>set xs. v = val x \<and> fst g = key x))"
proof (induction xs rule: rev_induct)
  case (snoc x xs)
  let ?m = "foldl (group_into key val) [] xs" and ?P = "\<lambda>k v. \<exists>y\<in>set (xs @ [x]). v = val y \<and> k = key y"
  have d: "distinct (map fst ?m)" using snoc by blast
  have old: "\<forall>g\<in>set ?m. snd g \<noteq> [] \<and> (\<forall>v\<in>set (snd g). ?P (fst g) v)" using snoc by fastforce
  have "\<forall>g\<in>set (group_into key val ?m x). snd g \<noteq> [] \<and> (\<forall>v\<in>set (snd g). ?P (fst g) v)"
    by (rule group_into_facts(3) [OF d old]) auto
  with group_into_facts(1,2) [OF d, of key val x] snoc show ?case by simp
qed simp

lemma mset_concat_sorted_members:
  "mset (concat (map snd (map (\<lambda>(n, ms). (n, js_sort c ms)) gs))) = mset (concat (map snd gs))"
  by (induction gs) (auto simp: split_def)

lemma mset_concat_sorted_groups:
  fixes gs :: "('a \<times> 'b list) list"
  shows "mset (concat (map snd (js_sort c gs))) = mset (concat (map snd gs))"
proof -
  have s: "mset (concat (map snd gs)) = \<Sum>\<^sub># (image_mset (\<lambda>g. mset (snd g)) (mset gs))" for gs :: "('a \<times> 'b list) list"
    by (induction gs) simp_all
  show ?thesis unfolding s mset_js_sort by (rule refl)
qed

lemma state_of_sum:
  "state_count l Healthy + state_count l Calibrating + state_count l Waiting + state_count l Stale + state_count l Failing = length l"
proof (induction l)
  case (Cons s l)
  then show ?case by (cases "board_state s") (simp_all add: state_count_def)
qed (simp add: state_count_def)

text \<open>Functional. The sensors page shows every sensor once, under its own category, with no
  category twice or empty, the groups in the page's order and a group's wide cards first; and the counts
  over its states add up to all of them.\<close>
theorem board_shows_each_sensor:
  "mset (concat (map snd (board_groups cmp sensors))) = mset sensors
   \<and> distinct (map fst (board_groups cmp sensors))
   \<and> (\<forall>g\<in>set (board_groups cmp sensors). snd g \<noteq> [] \<and> (\<forall>s\<in>set (snd g). fst g = group_name s)
        \<and> sorted_wrt (\<lambda>a b. isWide b \<longrightarrow> isWide a) (snd g))
   \<and> state_count sensors Healthy + state_count sensors Calibrating + state_count sensors Waiting
      + state_count sensors Stale + state_count sensors Failing = length sensors"
proof -
  let ?m = "foldl put_group [] sensors"
  have g: "distinct (map fst ?m)" "mset (concat (map snd ?m)) = mset sensors"
    "\<forall>g\<in>set ?m. snd g \<noteq> [] \<and> (\<forall>s\<in>set (snd g). fst g = group_name s)"
    using groups_of [of group_name "\<lambda>s. s" sensors] by (auto simp: put_group_into)
  have fst_eq: "map fst (board_groups cmp sensors) = map fst (js_sort (group_cmp cmp) ?m)"
    by (simp add: board_groups_def split_def o_def)
  have "mset (concat (map snd (board_groups cmp sensors))) = mset sensors"
    unfolding board_groups_def mset_concat_sorted_members mset_concat_sorted_groups by (rule g(2))
  moreover have "distinct (map fst (board_groups cmp sensors))"
    unfolding fst_eq distinct_map_js_sort by (rule g(1))
  moreover have "snd g \<noteq> [] \<and> (\<forall>s\<in>set (snd g). fst g = group_name s) \<and> sorted_wrt (\<lambda>a b. isWide b \<longrightarrow> isWide a) (snd g)"
    if mem: "g \<in> set (board_groups cmp sensors)" for g
  proof -
    obtain n ms where h: "(n, ms) \<in> set ?m" "g = (n, js_sort wide_first ms)"
      using mem unfolding board_groups_def by auto
    have "sorted_wrt (\<lambda>a b. wide_first a b \<le> 0) (js_sort wide_first ms)"
      unfolding wide_first_def by (rule js_comparator.sorted_js_sort [OF js_comparator_key_desc])
    then have "sorted_wrt (\<lambda>a b. isWide b \<longrightarrow> isWide a) (js_sort wide_first ms)"
      by (rule sorted_wrt_mono_rel [rotated]) (auto simp: wide_first_def split: if_splits)
    moreover have "js_sort wide_first ms \<noteq> []" using g(3) h(1) by (metis length_0_conv length_js_sort snd_conv)
    ultimately show ?thesis using g(3) h by auto
  qed
  ultimately show ?thesis using state_of_sum by blast
qed

section \<open>What the picker lists\<close>

text \<open>Functional. The parts picker offers every part that matches the search: each free part the scan found
  and the build can drive, and every other part of the catalogue once, under its category.\<close>
theorem picker_lists_each_part:
  "mset (flat_rows (buildEntries cmp cs catalogue query)) =
     mset (detected_entries catalogue query cs)
     + mset (map catalogue_entry (listed_kinds catalogue query (detected_entries catalogue query cs)))
   \<and> kind_key ` {k \<in> set catalogue. part_matches query k} \<subseteq> (kind_key \<circ> en_kind) ` set (flat_rows (buildEntries cmp cs catalogue query))"
proof -
  let ?det = "detected_entries catalogue query cs" and ?ks = "listed_kinds catalogue query (detected_entries catalogue query cs)"
  let ?m = "foldl put_category [] ?ks"
  have m: "mset (concat (map snd ?m)) = mset (map catalogue_entry ?ks)"
    using groups_of [of category_of catalogue_entry ?ks] by (simp add: put_category_into)
  have secs: "(\<lambda>x. ps_rows (case x of (l, rows) \<Rightarrow> \<lparr>ps_label = l, ps_rows = rows\<rparr>)) = snd"
    by (simp add: fun_eq_iff split_def)
  have rows: "mset (flat_rows (buildEntries cmp cs catalogue query)) = mset ?det + mset (map catalogue_entry ?ks)"
    using mset_concat_sorted_groups [of "\<lambda>x y. cmp (fst x) (fst y)" ?m] m
    by (simp add: flat_rows_def buildEntries_def Let_def o_def secs)
  then have set_rows: "set (flat_rows (buildEntries cmp cs catalogue query)) = set ?det \<union> catalogue_entry ` set ?ks"
    by (metis set_mset_mset set_mset_union set_map)
  have "kind_key k \<in> (kind_key \<circ> en_kind) ` (set ?det \<union> catalogue_entry ` set ?ks)"
    if "k \<in> set catalogue" "part_matches query k" for k
  proof (cases "kind_key k \<in> (kind_key \<circ> en_kind) ` set ?det")
    case False
    then have "k \<in> set ?ks" using that by (simp add: listed_kinds_def)
    moreover have "en_kind (catalogue_entry k) = k" by (simp add: catalogue_entry_def)
    ultimately show ?thesis by force
  qed auto
  then show ?thesis unfolding set_rows using rows by blast
qed

lemma picker_key_in_list:
  "flat \<noteq> [] \<Longrightarrow> \<exists>i. active_index flat k = Some i \<and> i < length flat"
  using index_where_lt by (cases k; cases "index_where (\<lambda>e. keyOf e = the k) flat") (auto simp: active_index_def)

lemma picker_enter_in_list: "snd (picker_key flat k key) = Some e \<Longrightarrow> e \<in> set flat"
proof -
  assume a: "snd (picker_key flat k key) = Some e"
  then have "flat \<noteq> []" by (auto simp: picker_key_def active_index_def)
  from picker_key_in_list [OF this, of k] a show ?thesis
    by (auto simp: picker_key_def split: picker_key.splits)
qed

section \<open>Names of readings\<close>

lemma free_number_taken:
  "free_number k stem taken n \<in> set taken \<Longrightarrow> (\<lambda>j. stem @ show_nat j) ` {n..n + k} \<subseteq> set taken"
proof (induction k stem taken n rule: free_number.induct)
  case (2 k stem taken n)
  then have "stem @ show_nat n \<in> set taken" "(\<lambda>j. stem @ show_nat j) ` {n + 1..n + 1 + k} \<subseteq> set taken"
    by (auto split: if_splits)
  moreover have "{n..n + Suc k} = insert n {n + 1..n + 1 + k}" by auto
  ultimately show ?case by simp
qed simp

lemma freeName_fresh: "freeName metric bindings \<notin> set (map sb_name bindings)"
proof
  let ?t = "map sb_name bindings" and ?g = "\<lambda>j. free_stem metric @ show_nat j"
  assume taken: "freeName metric bindings \<in> set ?t"
  then have "free_number (length ?t) (free_stem metric) ?t 2 \<in> set ?t"
    by (auto simp: freeName_def Let_def split: if_splits)
  then have sub: "?g ` {2..2 + length ?t} \<subseteq> set ?t" by (rule free_number_taken)
  have "inj_on ?g {2..2 + length ?t}" by (simp add: inj_on_def)
  then have "card (?g ` {2..2 + length ?t}) = length ?t + 1" by (simp add: card_image)
  with card_mono [OF _ sub] card_length [of ?t] show False by simp
qed

definition rows_keyed :: "binding_rows \<Rightarrow> bool" where
  "rows_keyed st \<longleftrightarrow> length (br_keys st) = length (br_bindings st) \<and> distinct (br_keys st) \<and> (\<forall>k\<in>set (br_keys st). k \<le> br_seq st)"

lemma rows_keyed_steps:
  assumes "rows_keyed st"
  shows "rows_keyed (binding_add st)" "rows_keyed (binding_update i f st)" "rows_keyed (binding_remove i st)"
    and "i < length (br_bindings st) \<Longrightarrow>
      zip (br_keys (binding_remove i st)) (br_bindings (binding_remove i st)) = drop_nth i (zip (br_keys st) (br_bindings st))"
proof -
  have d: "set (drop_nth i xs) \<subseteq> set xs" "distinct xs \<Longrightarrow> distinct (drop_nth i xs)" for xs :: "nat list"
    using set_take_subset [of i xs] set_drop_subset [of "i + 1" xs] set_take_disj_set_drop_if_distinct [of xs i "i + 1"]
    by (auto simp: drop_nth_def)
  have l: "length xs = length ys \<Longrightarrow> length (drop_nth i xs) = length (drop_nth i ys)" for xs :: "nat list" and ys :: "sensor_binding list"
    by (simp add: drop_nth_def)
  show "rows_keyed (binding_add st)" "rows_keyed (binding_update i f st)"
    using assms by (auto simp: rows_keyed_def binding_add_def binding_render_def binding_update_def)
  show "rows_keyed (binding_remove i st)"
    using assms d(1) [of "br_keys st"] d(2) [of "br_keys st"] l [of "br_keys st" "br_bindings st"]
    by (auto simp: rows_keyed_def binding_remove_def binding_render_def)
  show "zip (br_keys (binding_remove i st)) (br_bindings (binding_remove i st)) = drop_nth i (zip (br_keys st) (br_bindings st))"
    if "i < length (br_bindings st)"
    using assms l [of "br_keys st" "br_bindings st"]
    by (simp add: rows_keyed_def binding_remove_def binding_render_def drop_nth_def take_zip drop_zip zip_append)
qed

end
