(* ===== verification/AccessList.thy ===== *)
theory AccessList
  imports JsSort ApiClient "HOL-Library.Word"
begin

unbundle bit_operations_syntax

text \<open>
  The access list of a remote node: the permission byte of \<open>components/RepeaterUI.tsx\<close>, the
  \<open>AccessTab\<close> of \<open>pages/RepeaterDetailPage.tsx\<close> and the picker of peers to add,
  \<open>components/PeerPicker.tsx\<close>. A byte is an \<open>8 word\<close>; the low two bits are the role, the top two the
  alerts of a sensor. \<open>cmp\<close> is \<open>localeCompare\<close>.
\<close>

section \<open>Permissions\<close>

type_synonym perm_byte = "8 word"

definition PERM_ROLE_MASK :: perm_byte where "PERM_ROLE_MASK = 0x03"
definition PERM_GUEST :: perm_byte where "PERM_GUEST = 0"
definition PERM_READ_ONLY :: perm_byte where "PERM_READ_ONLY = 1"
definition PERM_READ_WRITE :: perm_byte where "PERM_READ_WRITE = 2"
definition PERM_ADMIN :: perm_byte where "PERM_ADMIN = 3"
definition PERM_ALERTS_LO :: perm_byte where "PERM_ALERTS_LO = 0x40"
definition PERM_ALERTS_HI :: perm_byte where "PERM_ALERTS_HI = 0x80"
definition PERM_ALERTS_MASK :: perm_byte where "PERM_ALERTS_MASK = PERM_ALERTS_LO OR PERM_ALERTS_HI"

lemmas perm_defs = PERM_ROLE_MASK_def PERM_GUEST_def PERM_READ_ONLY_def PERM_READ_WRITE_def PERM_ADMIN_def
  PERM_ALERTS_LO_def PERM_ALERTS_HI_def PERM_ALERTS_MASK_def

definition hex_text :: "perm_byte \<Rightarrow> string" where
  "hex_text p = (let n = unat p; d = (\<lambda>k. if k < 10 then char_of (48 + k) else char_of (87 + k)) in
     if n < 16 then [d n] else [d (n div 16), d (n mod 16)])"

definition roleLabel :: "perm_byte \<Rightarrow> string" where
  "roleLabel perms =
     (let r = perms AND PERM_ROLE_MASK in
      if r = PERM_GUEST then ''Guest'' else if r = PERM_READ_ONLY then ''Read only''
      else if r = PERM_READ_WRITE then ''Read / Write'' else if r = PERM_ADMIN then ''Admin''
      else ''0x'' @ hex_text perms)"

definition ROLE_OPTIONS :: "(perm_byte \<times> string) list" where
  "ROLE_OPTIONS = [(PERM_READ_ONLY, ''Read only''), (PERM_READ_WRITE, ''Read / Write''), (PERM_ADMIN, ''Admin'')]"

definition CurrentRoleItem :: "perm_byte \<Rightarrow> (perm_byte \<times> string) option" where  \<comment> \<open>shown, but cannot be chosen\<close>
  "CurrentRoleItem perms =
     (if list_ex (\<lambda>x. fst x = perms AND PERM_ROLE_MASK) ROLE_OPTIONS then None
      else Some (perms AND PERM_ROLE_MASK, roleLabel perms))"

datatype admin_kind = RepeaterNode | SensorNode | RoomNode

definition with_role :: "admin_kind \<Rightarrow> perm_byte \<Rightarrow> perm_byte \<Rightarrow> perm_byte" where
  "with_role kind perms role = ((if kind = SensorNode then perms AND PERM_ALERTS_MASK else 0) OR role)"

definition with_alert :: "perm_byte \<Rightarrow> perm_byte \<Rightarrow> bool \<Rightarrow> perm_byte" where
  "with_alert perms flag on = (if on then perms OR flag else perms AND NOT flag)"

definition added_perms :: "admin_kind \<Rightarrow> perm_byte \<Rightarrow> bool \<Rightarrow> bool \<Rightarrow> perm_byte" where  \<comment> \<open>of a client that is added\<close>
  "added_perms kind role hi lo =
     role OR (if kind = SensorNode then (if hi then PERM_ALERTS_HI else 0) OR (if lo then PERM_ALERTS_LO else 0) else 0)"

section \<open>The list\<close>

record access_peer =
  ap_pubkey :: string
  ap_name :: string
  ap_type :: "string option"

record access_entry =
  ae_prefix :: string
  ae_perms :: perm_byte

record known_client =
  kc_name :: string
  kc_pubkey :: string
  kc_isSelf :: bool

definition prefix_of :: "string \<Rightarrow> string" where
  "prefix_of pubkey = take 12 (to_lower pubkey)"

definition put_companion :: "(string \<times> known_client) list \<Rightarrow> access_peer \<Rightarrow> (string \<times> known_client) list" where
  "put_companion m c =
     AList.update (prefix_of (ap_pubkey c)) \<lparr>kc_name = ap_name c, kc_pubkey = ap_pubkey c, kc_isSelf = True\<rparr> m"

definition put_peer :: "(string \<times> known_client) list \<Rightarrow> access_peer \<Rightarrow> (string \<times> known_client) list" where
  "put_peer m p =
     (if map_of m (prefix_of (ap_pubkey p)) \<noteq> None then m
      else AList.update (prefix_of (ap_pubkey p)) \<lparr>kc_name = ap_name p, kc_pubkey = ap_pubkey p, kc_isSelf = False\<rparr> m)"

definition access_by_prefix :: "access_peer list \<Rightarrow> access_peer list \<Rightarrow> (string \<times> known_client) list" where
  "access_by_prefix companions peers = foldl put_peer (foldl put_companion [] companions) peers"

record access_row =
  ar_entry :: access_entry
  ar_known :: "known_client option"
  ar_fullPubkey :: string
  ar_role :: perm_byte

definition access_row_of :: "(string \<times> known_client) list \<Rightarrow> access_entry \<Rightarrow> access_row" where
  "access_row_of by e =
     (let known = map_of by (to_lower (ae_prefix e)) in
      \<lparr>ar_entry = e, ar_known = known,
       ar_fullPubkey = or_str (case known of Some k \<Rightarrow> kc_pubkey k | None \<Rightarrow> []) (ae_prefix e),
       ar_role = ae_perms e AND PERM_ROLE_MASK\<rparr>)"

record access_tab =
  at_entries :: "access_entry list"
  at_loading :: bool
  at_busyKey :: "string option"
  at_confirm :: "string option"
  at_err :: "string option"
  at_addOpen :: bool
  at_fetched :: bool

definition access_asked :: "access_tab \<Rightarrow> access_tab" where
  "access_asked st = st\<lparr>at_loading := True, at_err := None\<rparr>"

definition access_answered :: "string + access_entry list \<Rightarrow> access_tab \<Rightarrow> access_tab" where
  "access_answered r st =
     (case r of
        Inl e \<Rightarrow> st\<lparr>at_err := Some e, at_loading := False\<rparr>
      | Inr es \<Rightarrow> st\<lparr>at_entries := es, at_fetched := True, at_loading := False\<rparr>)"

definition access_shown :: "bool \<Rightarrow> access_tab \<Rightarrow> access_tab" where  \<comment> \<open>the effect on \<open>active\<close>\<close>
  "access_shown active st = (if active \<and> \<not> at_fetched st then access_asked st else st)"

definition set_perm_request :: "string \<Rightarrow> string \<Rightarrow> perm_byte \<Rightarrow> http_request" where
  "set_perm_request apiBase pubkey perms =
     req PUT (apiBase @ ''/access/'' @ encode_uri pubkey) (Some (JObj [(''permissions'', JNum (of_nat (unat perms)))]))"

definition remove_request :: "string \<Rightarrow> string \<Rightarrow> http_request" where
  "remove_request apiBase pubkey = req DELETE (apiBase @ ''/access/'' @ encode_uri pubkey) None"

definition change_asked :: "string \<Rightarrow> access_tab \<Rightarrow> access_tab" where
  "change_asked pubkey st = st\<lparr>at_busyKey := Some pubkey\<rparr>"

definition perm_answered :: "string option \<Rightarrow> access_tab \<Rightarrow> access_tab" where  \<comment> \<open>the reason of a refusal\<close>
  "perm_answered denied st = (case denied of None \<Rightarrow> access_asked st | Some e \<Rightarrow> st\<lparr>at_busyKey := None\<rparr>)"

definition remove_answered :: "string option \<Rightarrow> access_tab \<Rightarrow> access_tab" where
  "remove_answered denied st =
     (case denied of None \<Rightarrow> access_asked (st\<lparr>at_confirm := None\<rparr>) | Some e \<Rightarrow> st\<lparr>at_busyKey := None\<rparr>)"

definition change_done :: "string + access_entry list \<Rightarrow> access_tab \<Rightarrow> access_tab" where  \<comment> \<open>the list after a change\<close>
  "change_done r st = (access_answered r st)\<lparr>at_busyKey := None\<rparr>"

definition known_prefixes :: "access_tab \<Rightarrow> string list" where
  "known_prefixes st = as_set (map (\<lambda>e. to_lower (ae_prefix e)) (at_entries st))"

section \<open>Whom to add\<close>

definition isCompanionPeer :: "access_peer \<Rightarrow> bool" where
  "isCompanionPeer p \<longleftrightarrow> to_upper (nullish (ap_type p) []) \<in> {''CHAT'', []}"

definition peer_found :: "string \<Rightarrow> access_peer \<Rightarrow> bool" where
  "peer_found q p \<longleftrightarrow> q = [] \<or> str_includes (to_lower (ap_name p)) q \<or> str_includes (to_lower (ap_pubkey p)) q"

definition candidates :: "(string \<Rightarrow> string \<Rightarrow> rat) \<Rightarrow> access_peer list \<Rightarrow> string list \<Rightarrow> string \<Rightarrow> access_peer list" where
  "candidates cmp peers known search =
     js_sort (\<lambda>a b. cmp (ap_name a) (ap_name b))
       (filter (peer_found (to_lower (trim search)))
         (filter (\<lambda>p. prefix_of (ap_pubkey p) \<notin> set known \<and> isCompanionPeer p) peers))"

definition hex64 :: "string \<Rightarrow> bool" where
  "hex64 s \<longleftrightarrow> length s = 64 \<and> list_all is_hex s"

definition manual_known :: "string list \<Rightarrow> string \<Rightarrow> bool" where
  "manual_known known manualKey \<longleftrightarrow> hex64 (trim manualKey) \<and> prefix_of (trim manualKey) \<in> set known"

definition manual_offered :: "string list \<Rightarrow> bool \<Rightarrow> string \<Rightarrow> bool" where
  "manual_offered known disabled manualKey \<longleftrightarrow> hex64 (trim manualKey) \<and> \<not> manual_known known manualKey \<and> \<not> disabled"

definition picked_pubkey :: "string \<Rightarrow> string" where
  "picked_pubkey pubkey = to_lower pubkey"

section \<open>What a change of permissions keeps\<close>

definition role_of :: "perm_byte \<Rightarrow> perm_byte" where
  "role_of perms = perms AND PERM_ROLE_MASK"

definition alerts_of :: "perm_byte \<Rightarrow> perm_byte" where
  "alerts_of perms = perms AND PERM_ALERTS_MASK"

lemma mask_disjoint: "PERM_ALERTS_MASK AND PERM_ROLE_MASK = 0" "PERM_ROLE_MASK AND PERM_ALERTS_MASK = 0"
  by (simp_all add: perm_defs)

lemma role_no_alerts: "r AND PERM_ROLE_MASK = r \<Longrightarrow> r AND PERM_ALERTS_MASK = 0"
  by (metis mask_disjoint(2) and.assoc bit.conj_zero_right)

lemma alert_cases: "PERM_ALERTS_HI AND PERM_ALERTS_LO = 0" "PERM_ALERTS_LO AND PERM_ALERTS_HI = 0"
    "PERM_ALERTS_HI AND PERM_ROLE_MASK = 0" "PERM_ALERTS_LO AND PERM_ROLE_MASK = 0"
    "PERM_ALERTS_HI AND PERM_ALERTS_MASK = PERM_ALERTS_HI" "PERM_ALERTS_LO AND PERM_ALERTS_MASK = PERM_ALERTS_LO"
    "PERM_ALERTS_HI \<noteq> 0" "PERM_ALERTS_LO \<noteq> 0"
  by (simp_all add: perm_defs)

lemma or_keeps: "flag AND m = 0 \<Longrightarrow> (p OR flag) AND m = p AND (m :: perm_byte)"
  by (simp add: bit.conj_disj_distrib2)

lemma clear_keeps: "flag AND m = 0 \<Longrightarrow> (p AND NOT flag) AND m = p AND (m :: perm_byte)"
proof -
  assume f: "flag AND m = 0"
  have "bit ((p AND NOT flag) AND m) n = bit (p AND m) n" for n
  proof -
    have "\<not> (bit flag n \<and> bit m n)" using f by (metis bit_and_iff bit_0_eq bot_apply bot_bool_def)
    then show ?thesis using bit_imp_possible_bit [of m n] by (auto simp: bit_and_iff bit_not_iff)
  qed
  then show ?thesis by (rule bit_eqI)
qed

text \<open>Functional. A change of permissions changes nothing else: a new role keeps a sensor's alerts, switching an
  alert keeps the role and the other alert, and sets that alert alone; a client that is added gets exactly the role and
  the alerts that were chosen.\<close>
theorem permission_changes_exact:
  assumes "role AND PERM_ROLE_MASK = role"
  shows "with_role SensorNode perms role AND PERM_ROLE_MASK = role
    \<and> with_role SensorNode perms role AND PERM_ALERTS_MASK = perms AND PERM_ALERTS_MASK
    \<and> with_role RepeaterNode perms role = role \<and> with_role RoomNode perms role = role
    \<and> with_alert perms PERM_ALERTS_HI on AND PERM_ROLE_MASK = perms AND PERM_ROLE_MASK
    \<and> with_alert perms PERM_ALERTS_HI on AND PERM_ALERTS_LO = perms AND PERM_ALERTS_LO
    \<and> (with_alert perms PERM_ALERTS_HI on AND PERM_ALERTS_HI \<noteq> 0 \<longleftrightarrow> on)
    \<and> with_alert perms PERM_ALERTS_LO on AND PERM_ROLE_MASK = perms AND PERM_ROLE_MASK
    \<and> with_alert perms PERM_ALERTS_LO on AND PERM_ALERTS_HI = perms AND PERM_ALERTS_HI
    \<and> (with_alert perms PERM_ALERTS_LO on AND PERM_ALERTS_LO \<noteq> 0 \<longleftrightarrow> on)
    \<and> added_perms SensorNode role hi lo AND PERM_ROLE_MASK = role
    \<and> (added_perms SensorNode role hi lo AND PERM_ALERTS_HI \<noteq> 0 \<longleftrightarrow> hi)
    \<and> (added_perms SensorNode role hi lo AND PERM_ALERTS_LO \<noteq> 0 \<longleftrightarrow> lo)"
proof -
  have r: "role AND PERM_ALERTS_MASK = 0" by (rule role_no_alerts [OF assms])
  then have r': "role AND PERM_ALERTS_HI = 0" "role AND PERM_ALERTS_LO = 0"
    by (metis alert_cases(5,6) and.assoc and.commute bit.conj_zero_left)+
  have set_one: "(perms OR flag) AND flag = flag" "(perms AND NOT flag) AND flag = 0" for flag :: perm_byte
    by (simp_all add: bit.conj_disj_distrib2 and.assoc bit.conj_cancel_left)
  show ?thesis
    using assms r r' or_keeps clear_keeps set_one alert_cases
    by (auto simp: with_role_def with_alert_def added_perms_def bit.conj_disj_distrib2 and.assoc mask_disjoint)
qed

lemma role_two: "PERM_READ_WRITE AND PERM_ROLE_MASK = PERM_READ_WRITE"
  by (simp add: perm_defs)

theorem permission_changes_exact_witness:
  "with_role SensorNode 0xC3 PERM_READ_WRITE = 0xC2
    \<and> with_role SensorNode 0xC3 PERM_READ_WRITE AND PERM_ALERTS_MASK = 0xC3 AND PERM_ALERTS_MASK"
  using permission_changes_exact [OF role_two, of "0xC3"] by (simp add: with_role_def perm_defs)

section \<open>Who can be added\<close>

lemma offered_are_new:
  "p \<in> set (candidates cmp peers known search) \<Longrightarrow>
     p \<in> set peers \<and> prefix_of (picked_pubkey (ap_pubkey p)) \<notin> set known \<and> isCompanionPeer p"
  by (simp add: candidates_def picked_pubkey_def prefix_of_def)

lemma manual_is_new:
  "manual_offered known disabled key \<Longrightarrow> hex64 (trim key) \<and> prefix_of (picked_pubkey (trim key)) \<notin> set known"
  by (auto simp: manual_offered_def manual_known_def picked_pubkey_def prefix_of_def)

section \<open>A list of peers in a configuration\<close>

definition list_by_prefix :: "access_peer list \<Rightarrow> (string \<times> access_peer) list" where
  "list_by_prefix peers = foldl (\<lambda>m p. AList.update (prefix_of (ap_pubkey p)) p m) [] peers"

definition chosen_prefixes :: "string list \<Rightarrow> string list" where
  "chosen_prefixes values = as_set (map (\<lambda>v. prefix_of (trim v)) values)"

definition listed_name :: "(string \<times> access_peer) list \<Rightarrow> string \<Rightarrow> string" where
  "listed_name by v = or_str (case map_of by (prefix_of (trim v)) of Some p \<Rightarrow> ap_name p | None \<Rightarrow> []) v"

definition is_key_text :: "string \<Rightarrow> bool" where
  "is_key_text v \<longleftrightarrow> 2 \<le> length (trim v) \<and> length (trim v) \<le> 64 \<and> list_all is_hex (trim v)"

definition list_remove :: "nat \<Rightarrow> string list \<Rightarrow> string list" where
  "list_remove i values = take i values @ drop (i + 1) values"

definition list_pick :: "string \<Rightarrow> string list \<Rightarrow> string list" where
  "list_pick pubkey values = values @ [pubkey]"

lemma picked_list_distinct:
  assumes "distinct (map (\<lambda>v. prefix_of (trim v)) values)" and "manual_offered (chosen_prefixes values) d key"
  shows "distinct (map (\<lambda>v. prefix_of (trim v)) (list_pick (picked_pubkey (trim key)) values))"
proof -
  have k: "hex64 (trim key)" "prefix_of (picked_pubkey (trim key)) \<notin> set (chosen_prefixes values)"
    using manual_is_new [OF assms(2)] by auto
  have "list_all is_hex (picked_pubkey (trim key))"
    using k(1) by (auto simp: hex64_def picked_pubkey_def to_lower_def list_all_iff is_hex_def is_digit_def lower_char_def Let_def)
  then have "\<forall>c\<in>set (picked_pubkey (trim key)). \<not> is_space c"
    by (auto simp: list_all_iff is_hex_def is_digit_def is_space_def)
  then have "trim (picked_pubkey (trim key)) = picked_pubkey (trim key)"
    unfolding trim_def trim_start_def
    by (metis dropWhile_eq_self_iff hd_in_set rev_rev_ident set_rev)
  with assms(1) k(2) show ?thesis by (simp add: list_pick_def chosen_prefixes_def)
qed

end
