(* ===== verification/RemoteNode.thy ===== *)
theory RemoteNode
  imports AccessList Format
begin

text \<open>
  The page of a remote node (\<open>pages/RepeaterDetailPage.tsx\<close>): what it loads when it opens, the login
  OwlShack holds for it, the tabs that login may see, the tabs that fetch once, and the neighbours in
  pages. Requests and answers are separate steps; what a request captured of the page is its argument.
  A contact's metadata is the list of its members.
\<close>

section \<open>Session and tabs\<close>

record remote_session =
  ss_loggedIn :: "bool option"
  ss_pubkeyHex :: "string option"
  ss_isAdmin :: "bool option"
  ss_permissions :: "perm_byte option"
  ss_role :: "string option"

definition no_session :: remote_session where
  "no_session = \<lparr>ss_loggedIn = Some False, ss_pubkeyHex = None, ss_isAdmin = None, ss_permissions = None, ss_role = None\<rparr>"

definition session_live :: "remote_session \<Rightarrow> bool" where
  "session_live s \<longleftrightarrow> ss_loggedIn s = Some True \<or> (ss_loggedIn s \<noteq> Some False \<and> truthy_str (ss_pubkeyHex s))"

datatype tab_key = StatusTab | MonitoringTab | TerminalTab | NeighborsTab | OwnerTab | TelemetryTab | AccessTab | RegionsTab | SettingsTab

definition tabShown :: "admin_kind \<Rightarrow> bool \<Rightarrow> tab_key \<Rightarrow> bool" where
  "tabShown kind isAdmin t =
     (case t of
        StatusTab \<Rightarrow> kind \<noteq> SensorNode
      | MonitoringTab \<Rightarrow> True
      | TerminalTab \<Rightarrow> isAdmin
      | NeighborsTab \<Rightarrow> kind = RepeaterNode
      | OwnerTab \<Rightarrow> \<not> isAdmin \<and> kind = RepeaterNode
      | TelemetryTab \<Rightarrow> True
      | AccessTab \<Rightarrow> isAdmin
      | RegionsTab \<Rightarrow> isAdmin
      | SettingsTab \<Rightarrow> isAdmin)"

definition first_tab :: "admin_kind \<Rightarrow> tab_key" where
  "first_tab kind = (if kind = SensorNode then TelemetryTab else StatusTab)"

definition tab_of :: "admin_kind \<Rightarrow> bool \<Rightarrow> tab_key \<Rightarrow> tab_key" where
  "tab_of kind isAdmin chosen = (if tabShown kind isAdmin chosen then chosen else first_tab kind)"

record path_badge =
  pb_hops :: nat
  pb_hasPath :: bool
  pb_directNeighbor :: bool

definition PathBadge :: "path_badge option \<Rightarrow> string" where
  "PathBadge info =
     (case info of
        None \<Rightarrow> ''path '' @ [glyph_middot] @ '' ?''
      | Some i \<Rightarrow> if \<not> pb_hasPath i then ''flood'' else if pb_directNeighbor i then ''direct''
          else show_nat (pb_hops i) @ '' hop'' @ (if pb_hops i = 1 then [] else ''s''))"

section \<open>The page\<close>

type_synonym metadata = "(string \<times> json) list"

record remote_contact =
  rc_pubkey :: string
  rc_name :: string
  rc_type :: string
  rc_metadata :: "metadata option"

record remote_peer =
  rp_pubkey :: string
  rp_name :: string
  rp_type :: string

datatype toast_kind = SuccessToast | ErrorToast | InfoToast

record page_toast =
  to_id :: string
  to_kind :: toast_kind
  to_text :: string

record node_page =
  np_contact :: "remote_contact option"
  np_peers :: "remote_peer list"
  np_companions :: "remote_peer list"
  np_session :: "remote_session option"
  np_path :: "path_badge option"
  np_bootstrapping :: bool
  np_error :: "string option"
  np_tab :: tab_key
  np_password :: string
  np_saveLogin :: bool
  np_loggingIn :: bool
  np_toasts :: "page_toast list"

definition page_start :: "admin_kind \<Rightarrow> node_page" where
  "page_start kind =
     \<lparr>np_contact = None, np_peers = [], np_companions = [], np_session = None, np_path = None, np_bootstrapping = True,
      np_error = None, np_tab = first_tab kind, np_password = [], np_saveLogin = False, np_loggingIn = False, np_toasts = []\<rparr>"

definition passwordKey :: "admin_kind \<Rightarrow> string" where
  "passwordKey kind = (if kind = RoomNode then ''roomPassword'' else ''repeaterPassword'')"

definition savedPassword :: "admin_kind \<Rightarrow> metadata option \<Rightarrow> string option" where
  "savedPassword kind m =
     (case Option.bind m (\<lambda>fs. map_of fs (passwordKey kind)) of Some (JStr s) \<Rightarrow> Some s | _ \<Rightarrow> None)"

definition peerName :: "admin_kind \<Rightarrow> string \<Rightarrow> node_page \<Rightarrow> string" where
  "peerName kind pubkey st =
     or_str (or_str (case np_contact st of Some c \<Rightarrow> rc_name c | None \<Rightarrow> [])
               (case find (\<lambda>p. to_lower (rp_pubkey p) = to_lower pubkey) (np_peers st) of Some p \<Rightarrow> rp_name p | None \<Rightarrow> []))
       (case kind of SensorNode \<Rightarrow> ''Sensor'' | RoomNode \<Rightarrow> ''Room'' | RepeaterNode \<Rightarrow> ''Repeater'')"

definition page_admin :: "node_page \<Rightarrow> bool" where
  "page_admin st \<longleftrightarrow> (case np_session st of Some s \<Rightarrow> ss_isAdmin s = Some True | None \<Rightarrow> False)"

definition page_logged_in :: "node_page \<Rightarrow> bool" where
  "page_logged_in st \<longleftrightarrow> (case np_session st of Some s \<Rightarrow> session_live s | None \<Rightarrow> False)"

definition shown_tab :: "admin_kind \<Rightarrow> node_page \<Rightarrow> tab_key" where
  "shown_tab kind st = tab_of kind (page_admin st) (np_tab st)"

definition role_badge :: "node_page \<Rightarrow> string" where
  "role_badge st =
     (case Option.bind (np_session st) ss_role of
        Some r \<Rightarrow> r
      | None \<Rightarrow> (case Option.bind (np_session st) ss_permissions of
          Some p \<Rightarrow> to_lower (roleLabel p)
        | None \<Rightarrow> if page_admin st then ''admin'' else ''guest''))"

section \<open>Loading\<close>

definition session_answered :: "remote_session option \<Rightarrow> node_page \<Rightarrow> node_page" where  \<comment> \<open>\<open>refreshSession\<close>; \<open>None\<close> when it fails\<close>
  "session_answered r st = st\<lparr>np_session := Some (nullish r no_session)\<rparr>"

definition path_answered :: "path_badge option \<Rightarrow> node_page \<Rightarrow> node_page" where
  "path_answered r st = st\<lparr>np_path := r\<rparr>"

definition bootstrap_started :: "node_page \<Rightarrow> node_page" where
  "bootstrap_started st = st\<lparr>np_bootstrapping := True, np_error := None\<rparr>"

definition found_contact :: "string \<Rightarrow> remote_contact list \<Rightarrow> remote_contact option" where
  "found_contact pubkey contacts = find (\<lambda>c. to_lower (rc_pubkey c) = to_lower pubkey) contacts"

definition lists_answered ::
    "admin_kind \<Rightarrow> string \<Rightarrow> (remote_contact list option \<times> remote_peer list option \<times> remote_peer list option) option \<Rightarrow> node_page \<Rightarrow> node_page" where
  \<comment> \<open>contacts, peers and companions, each none when refused; none at all when a request fails\<close>
  "lists_answered kind pubkey r st =
     (case r of
        None \<Rightarrow> st\<lparr>np_error := Some ''Failed to load repeater context'', np_bootstrapping := False\<rparr>
      | Some (contacts, peers, companions) \<Rightarrow>
          (let found = found_contact pubkey (nullish contacts []);
               st1 = st\<lparr>np_peers := nullish peers [], np_companions := nullish companions (np_companions st), np_contact := found\<rparr>;
               pw = savedPassword kind (Option.bind found rc_metadata) in
           if truthy_str pw then st1\<lparr>np_password := nullish pw [], np_saveLogin := True\<rparr> else st1))"

definition bootstrap_done :: "node_page \<Rightarrow> node_page" where  \<comment> \<open>once session and path have settled\<close>
  "bootstrap_done st = st\<lparr>np_bootstrapping := False\<rparr>"

section \<open>Logging in and out\<close>

record login_try =  \<comment> \<open>what the request captured\<close>
  lt_password :: string
  lt_save :: bool
  lt_metadata :: "metadata option"

definition notify :: "page_toast \<Rightarrow> page_toast list \<Rightarrow> page_toast list" where  \<comment> \<open>one toast per id\<close>
  "notify t ts = filter (\<lambda>x. to_id x \<noteq> to_id t) ts @ [t]"

definition login_asked :: "node_page \<Rightarrow> node_page \<times> login_try" where
  "login_asked st =
     (st\<lparr>np_loggingIn := True\<rparr>,
      \<lparr>lt_password = np_password st, lt_save = np_saveLogin st, lt_metadata = Option.bind (np_contact st) rc_metadata\<rparr>)"

definition login_body :: "login_try \<Rightarrow> json" where
  "login_body l = JObj [(''password'', JStr (lt_password l))]"

definition login_refused :: "string \<Rightarrow> page_toast \<Rightarrow> node_page \<Rightarrow> node_page" where
  "login_refused reason t st = st\<lparr>np_loggingIn := False, np_toasts := notify (t\<lparr>to_kind := ErrorToast, to_text := reason\<rparr>) (np_toasts st)\<rparr>"

definition saved_value :: "admin_kind \<Rightarrow> login_try \<Rightarrow> string option" where
  \<comment> \<open>the password to store once logged in and refreshed: the new one, none to forget, or no change\<close>
  "saved_value kind l =
     (if lt_save l then Some (lt_password l)
      else if truthy_str (savedPassword kind (lt_metadata l)) then Some [] else None)"

definition patch_body :: "admin_kind \<Rightarrow> string \<Rightarrow> json" where
  "patch_body kind pw = JObj [(''isRepeater'', JBool (kind = RepeaterNode)), (passwordKey kind, JStr pw)]"

definition remember :: "admin_kind \<Rightarrow> string \<Rightarrow> remote_contact \<Rightarrow> remote_contact" where
  "remember kind pw c =
     c\<lparr>rc_metadata := Some (AList.update ''isRepeater'' (JBool (kind = RepeaterNode))
         (AList.update (passwordKey kind) (JStr pw) (nullish (rc_metadata c) [])))\<rparr>"

definition login_done :: "admin_kind \<Rightarrow> login_try \<Rightarrow> http_response option \<Rightarrow> node_page \<Rightarrow> node_page" where
  \<comment> \<open>after the request that stores the password, whatever became of it\<close>
  "login_done kind l patched st =
     (case saved_value kind l of
        None \<Rightarrow> st\<lparr>np_loggingIn := False\<rparr>
      | Some pw \<Rightarrow> st\<lparr>np_loggingIn := False, np_contact := map_option (remember kind pw) (np_contact st)\<rparr>)"

definition logout_answered :: "http_response option \<Rightarrow> node_page \<Rightarrow> node_page" where
  "logout_answered r st = (case r of None \<Rightarrow> st | Some _ \<Rightarrow> st\<lparr>np_session := Some no_session\<rparr>)"

definition login_lost_toast :: page_toast where
  "login_lost_toast = \<lparr>to_id = ''remote-login-lost'', to_kind = InfoToast,
     to_text = ''OwlShack is no longer logged in to this node. Log in again.''\<rparr>"

definition unauthorized :: "string list \<Rightarrow> remote_session option \<Rightarrow> node_page \<Rightarrow> node_page" where
  \<comment> \<open>the session after a 401, and the ids of the toasts there were before the request\<close>
  "unauthorized before r st =
     (let st1 = session_answered r st in
      if page_logged_in st1 then st1
      else st1\<lparr>np_toasts := notify login_lost_toast
             (filter (\<lambda>t. \<not> (to_kind t = ErrorToast \<and> to_id t \<notin> set before)) (np_toasts st1))\<rparr>)"

definition monitor_saved :: "metadata \<Rightarrow> node_page \<Rightarrow> node_page" where
  "monitor_saved meta st =
     st\<lparr>np_contact := map_option (\<lambda>c. c\<lparr>rc_metadata := Some (foldl (\<lambda>m p. AList.update (fst p) (snd p) m) (nullish (rc_metadata c) []) meta)\<rparr>)
         (np_contact st)\<rparr>"

definition renamed :: "string \<Rightarrow> string \<Rightarrow> node_page \<Rightarrow> node_page" where  \<comment> \<open>\<open>onLocalNameUpdate\<close>\<close>
  "renamed pubkey n st =
     st\<lparr>np_contact := map_option (\<lambda>c. c\<lparr>rc_name := n\<rparr>) (np_contact st),
        np_peers := map (\<lambda>p. if to_lower (rp_pubkey p) = to_lower pubkey then p\<lparr>rp_name := n\<rparr> else p) (np_peers st)\<rparr>"

section \<open>Tabs that fetch once\<close>

record 'a fetch_tab =
  ft_data :: "'a option"
  ft_loading :: bool
  ft_err :: "string option"
  ft_fetched :: bool

definition tab_asked :: "'a fetch_tab \<Rightarrow> 'a fetch_tab" where
  "tab_asked st = st\<lparr>ft_loading := True, ft_err := None\<rparr>"

definition tab_answered :: "string + 'a \<Rightarrow> 'a fetch_tab \<Rightarrow> 'a fetch_tab" where
  "tab_answered r st =
     (case r of
        Inl e \<Rightarrow> st\<lparr>ft_err := Some e, ft_loading := False\<rparr>
      | Inr d \<Rightarrow> st\<lparr>ft_data := Some d, ft_fetched := True, ft_loading := False\<rparr>)"

definition tab_opened :: "bool \<Rightarrow> 'a fetch_tab \<Rightarrow> 'a fetch_tab" where  \<comment> \<open>the effect on \<open>active\<close>\<close>
  "tab_opened active st = (if active \<and> \<not> ft_fetched st then tab_asked st else st)"

record node_status =
  st_batteryMv :: rat
  st_queueLen :: int
  st_noiseFloor :: int
  st_lastRssi :: int
  st_packetsRecv :: nat
  st_packetsSent :: nat
  st_txAirSecs :: rat
  st_rxAirSecs :: rat
  st_uptimeSecs :: rat
  st_floodTx :: nat
  st_directTx :: nat
  st_floodRx :: nat
  st_directRx :: nat
  st_errEvents :: nat
  st_lastSnr :: rat
  st_directDups :: nat
  st_floodDups :: nat
  st_recvErrors :: nat
  st_chanUtil :: rat
  st_posted :: "nat option"
  st_postPushes :: "nat option"

definition status_tiles :: "admin_kind \<Rightarrow> node_status \<Rightarrow> (string \<times> string) list" where
  \<comment> \<open>label and value; the error flags have a tile of their own\<close>
  "status_tiles kind s =
     (let room = (kind = RoomNode) in
      [(''Battery'', formatBattery (st_batteryMv s)), (''Uptime'', formatUptime (st_uptimeSecs s)),
       (''Noise floor'', show_int (st_noiseFloor s) @ ''dB''), (''Last SNR'', to_fixed 1 (st_lastSnr s) @ ''dB''),
       (''Last RSSI'', show_int (st_lastRssi s))]
      @ (if room then [] else [(''Chan util'', to_fixed 1 (st_chanUtil s) @ ''%'')])
      @ [(''Queue'', show_int (st_queueLen s))]
      @ (if room then [] else [(''Recv errors'', show_nat (st_recvErrors s))])
      @ (if room then [(''Posts stored'', show_nat (nullish (st_posted s) 0)), (''Posts pushed'', show_nat (nullish (st_postPushes s) 0))] else [])
      @ [(''Pkts sent'', show_nat (st_packetsSent s)), (''Pkts recv'', show_nat (st_packetsRecv s)),
         (''Flood TX'', show_nat (st_floodTx s)), (''Flood RX'', show_nat (st_floodRx s)),
         (''Direct TX'', show_nat (st_directTx s)), (''Direct RX'', show_nat (st_directRx s)),
         (''TX air'', formatUptime (st_txAirSecs s))]
      @ (if room then [] else [(''RX air'', formatUptime (st_rxAirSecs s))])
      @ [(''Flood dups'', show_nat (st_floodDups s)), (''Direct dups'', show_nat (st_directDups s))])"

definition owner_row :: "string \<Rightarrow> string" where
  "owner_row v = (if v = [] \<or> trim v = [] then ''not set'' else v)"

section \<open>Neighbours\<close>

record neighbor =
  nb_prefix :: string
  nb_secsAgo :: int
  nb_snr :: rat

record neighbor_row =
  nr_neighbor :: neighbor
  nr_name :: "string option"
  nr_type :: "string option"

datatype neighbor_busy = NeighborsRefresh | NeighborsMore | NeighborsDiscover

record neighbor_tab =
  nt_rows :: "neighbor_row list"
  nt_total :: nat
  nt_busy :: "neighbor_busy option"
  nt_err :: "string option"
  nt_fetched :: bool

definition NEIGHBORS_PAGE_SIZE :: nat where
  "NEIGHBORS_PAGE_SIZE = 10"

definition neighbor_names :: "remote_peer list \<Rightarrow> (string \<times> remote_peer) list" where
  "neighbor_names peers =
     foldl (\<lambda>m p. if map_of m (prefix_of (rp_pubkey p)) \<noteq> None then m else AList.update (prefix_of (rp_pubkey p)) p m) [] peers"

definition neighbor_row_of :: "(string \<times> remote_peer) list \<Rightarrow> neighbor \<Rightarrow> neighbor_row" where
  "neighbor_row_of by n =
     (let p = map_of by (to_lower (nb_prefix n)) in
      \<lparr>nr_neighbor = n, nr_name = map_option rp_name p, nr_type = map_option rp_type p\<rparr>)"

definition page_request :: "string \<Rightarrow> nat \<Rightarrow> http_request" where
  "page_request apiBase offset =
     req GET (apiBase @ ''/neighbors?count='' @ show_nat NEIGHBORS_PAGE_SIZE @ ''&offset='' @ show_nat offset) None"

definition neighbors_asked :: "neighbor_busy \<Rightarrow> neighbor_tab \<Rightarrow> neighbor_tab" where
  "neighbors_asked b st = (if b = NeighborsDiscover then st\<lparr>nt_busy := Some b\<rparr> else st\<lparr>nt_busy := Some b, nt_err := None\<rparr>)"

definition neighbors_refreshed :: "(string \<times> remote_peer) list \<Rightarrow> string + (neighbor list \<times> nat) \<Rightarrow> neighbor_tab \<Rightarrow> neighbor_tab" where
  "neighbors_refreshed by r st =
     (case r of
        Inl e \<Rightarrow> st\<lparr>nt_err := Some e, nt_busy := None\<rparr>
      | Inr (ns, tot) \<Rightarrow> st\<lparr>nt_rows := map (neighbor_row_of by) ns, nt_total := tot, nt_fetched := True, nt_busy := None\<rparr>)"

definition more_offset :: "neighbor_tab \<Rightarrow> nat" where
  "more_offset st = length (nt_rows st)"

definition more_answered :: "(string \<times> remote_peer) list \<Rightarrow> string + (neighbor list \<times> nat) \<Rightarrow> neighbor_tab \<Rightarrow> neighbor_tab" where
  "more_answered by r st =
     (case r of
        Inl e \<Rightarrow> st\<lparr>nt_err := Some e, nt_busy := None\<rparr>
      | Inr (ns, tot) \<Rightarrow> st\<lparr>nt_rows := nt_rows st @ map (neighbor_row_of by) ns, nt_total := tot, nt_busy := None\<rparr>)"

definition discover_answered :: "neighbor_tab \<Rightarrow> neighbor_tab" where
  "discover_answered st = st\<lparr>nt_busy := None\<rparr>"

definition hasMore :: "neighbor_tab \<Rightarrow> bool" where
  "hasMore st \<longleftrightarrow> length (nt_rows st) < nt_total st"

section \<open>Properties\<close>

lemma tab_allowed: "tabShown kind (page_admin st) (shown_tab kind st)"
  by (cases kind) (simp_all add: shown_tab_def tab_of_def first_tab_def tabShown_def)

lemma session_fields [simp]:
  "np_toasts (session_answered r st) = np_toasts st" "np_contact (session_answered r st) = np_contact st"
  by (simp_all add: session_answered_def)


text \<open>Functional. What a login remembers is what the next visit finds: the password when it was to be
  saved, none when a saved one was to be forgotten, and otherwise what there was before.\<close>
theorem login_remembered:
  "savedPassword kind (Option.bind (np_contact (login_done kind l p st)) rc_metadata) =
     (case np_contact st of
        None \<Rightarrow> None
      | Some c \<Rightarrow> if lt_save l then Some (lt_password l)
          else if truthy_str (savedPassword kind (lt_metadata l)) then Some [] else savedPassword kind (rc_metadata c))
   \<and> np_password (lists_answered kind pubkey (Some (Some [remember kind (lt_password l) c\<lparr>rc_pubkey := pubkey\<rparr>], peers, comps)) (page_start kind)) = lt_password l"
proof -
  have keys: "passwordKey kind \<noteq> ''isRepeater''" by (simp add: passwordKey_def)
  have rem: "savedPassword kind (rc_metadata (remember kind pw c)) = Some pw" for pw c
    using keys by (simp add: savedPassword_def remember_def update_conv')
  have "savedPassword kind (Option.bind (np_contact (login_done kind l p st)) rc_metadata) =
     (case np_contact st of
        None \<Rightarrow> None
      | Some c \<Rightarrow> if lt_save l then Some (lt_password l)
          else if truthy_str (savedPassword kind (lt_metadata l)) then Some [] else savedPassword kind (rc_metadata c))"
    using rem by (auto simp: login_done_def saved_value_def savedPassword_def split: option.splits)
  moreover have "savedPassword kind (rc_metadata (remember kind (lt_password l) c\<lparr>rc_pubkey := pubkey\<rparr>)) = Some (lt_password l)"
    using rem by simp
  ultimately show ?thesis
    by (simp add: lists_answered_def found_contact_def page_start_def Let_def)
qed

text \<open>The answer of the request that stores the password is not looked at, so a refused one leaves the page
  saying the password is saved; and a logout that the server refuses shows the page logged out.\<close>

lemma refused_save_shown: "login_done kind l (Some r) st = login_done kind l None st"
  by (simp add: login_done_def)

lemma refused_logout_shown: "\<not> resp_ok r \<Longrightarrow> page_logged_in (logout_answered (Some r) st) = False"
  by (simp add: logout_answered_def page_logged_in_def session_live_def no_session_def)

definition answered_more :: "(string \<times> remote_peer) list \<Rightarrow> neighbor list \<Rightarrow> neighbor_tab \<Rightarrow> neighbor_tab" where
  \<comment> \<open>a further page of a node whose neighbours stay as they are\<close>
  "answered_more names l st =
     more_answered names (Inr (take NEIGHBORS_PAGE_SIZE (drop (more_offset st) l), length l)) (neighbors_asked NeighborsMore st)"

definition answered_first :: "(string \<times> remote_peer) list \<Rightarrow> neighbor list \<Rightarrow> neighbor_tab \<Rightarrow> neighbor_tab" where
  "answered_first names l st =
     neighbors_refreshed names (Inr (take NEIGHBORS_PAGE_SIZE l, length l)) (neighbors_asked NeighborsRefresh st)"

lemma pages_shown:
  "nt_rows ((answered_more names l ^^ k) (answered_first names l st)) = map (neighbor_row_of names) (take (10 * (k + 1)) l)
   \<and> nt_total ((answered_more names l ^^ k) (answered_first names l st)) = length l"
proof (induction k)
  case 0
  then show ?case by (simp add: answered_first_def neighbors_refreshed_def NEIGHBORS_PAGE_SIZE_def)
next
  case (Suc k)
  let ?s = "(answered_more names l ^^ k) (answered_first names l st)" and ?m = "10 * (k + 1)"
  have rows: "nt_rows (answered_more names l ?s) = nt_rows ?s @ map (neighbor_row_of names) (take 10 (drop (length (nt_rows ?s)) l))"
    and total: "nt_total (answered_more names l ?s) = length l"
    by (simp_all add: answered_more_def more_answered_def neighbors_asked_def more_offset_def NEIGHBORS_PAGE_SIZE_def)
  have page: "take m l @ take 10 (drop (length (take m l)) l) = take (m + 10) l" for m
  proof (cases "m \<le> length l")
    case True
    then have "length (take m l) = m" by simp
    then show ?thesis by (simp only: take_add)
  qed simp
  have "take ?m l @ take 10 (drop (length (take ?m l)) l) = take (?m + 10) l" by (rule page)
  then have "map (neighbor_row_of names) (take ?m l) @ map (neighbor_row_of names) (take 10 (drop (length (take ?m l)) l))
      = map (neighbor_row_of names) (take (10 * (Suc k + 1)) l)"
    by (simp flip: map_append add: algebra_simps)
  with rows total Suc.IH show ?case by (simp del: take_append length_take)
qed

text \<open>Liveness. Loading more ends: while a node's neighbours stay as they are, each page adds the next ten in
  order, more is offered exactly while some are missing, and after a tenth as many pages as there are
  neighbours all are shown, each once.\<close>
theorem neighbors_all_loaded:
  "nt_rows ((answered_more names l ^^ k) (answered_first names l st)) = map (neighbor_row_of names) (take (10 * (k + 1)) l)
   \<and> (hasMore ((answered_more names l ^^ k) (answered_first names l st)) \<longleftrightarrow> 10 * (k + 1) < length l)
   \<and> nt_rows ((answered_more names l ^^ (length l div 10)) (answered_first names l st)) = map (neighbor_row_of names) l
   \<and> \<not> hasMore ((answered_more names l ^^ (length l div 10)) (answered_first names l st))"
proof -
  have more: "hasMore ((answered_more names l ^^ k) (answered_first names l st)) \<longleftrightarrow> 10 * (k + 1) < length l" for k
    using pages_shown [of k names l st] by (simp add: hasMore_def min_def)
  have "length l \<le> 10 * (length l div 10 + 1)" by presburger
  then show ?thesis using pages_shown [of _ names l st] more by (simp add: take_all)
qed

end
