(* ===== verification/RemoteSettings.thy ===== *)
theory RemoteSettings
  imports RemoteNode SensorFields
begin

text \<open>
  The settings of a remote node (\<open>SettingsTab\<close> and its sections in \<open>pages/RepeaterDetailPage.tsx\<close>): each
  section reads and writes its values with commands of the node's own command line, one awaited after the
  other. The node is firmware, outside the repository: it is the parameter \<open>dev\<close>, which takes its state and
  a command and gives an answer, or the reason none came, and the next state. A section's program is a function of that
  state that may fail; \<open>cmd_text\<close> is the text that goes out.
\<close>

section \<open>Programs that talk to the node\<close>

datatype node_cmd =
    GetVar string
  | SetVar string string
  | Password string
  | SensorList nat
  | SensorSet string string
  | PlainCmd string

fun cmd_text :: "node_cmd \<Rightarrow> string" where
  "cmd_text (GetVar k) = ''get '' @ k"
| "cmd_text (SetVar k v) = ''set '' @ k @ '' '' @ v"
| "cmd_text (Password p) = ''password '' @ p"
| "cmd_text (SensorList n) = (if n = 0 then ''sensor list'' else ''sensor list '' @ show_nat n)"
| "cmd_text (SensorSet k v) = ''sensor set '' @ k @ '' '' @ v"
| "cmd_text (PlainCmd c) = c"

type_synonym 'd device = "'d \<Rightarrow> node_cmd \<Rightarrow> (string + string) \<times> 'd"
type_synonym ('d, 'a) prog = "'d \<Rightarrow> (string + 'a) \<times> 'd"

definition done_with :: "'a \<Rightarrow> ('d, 'a) prog" where
  "done_with x d = (Inr x, d)"

definition fail_with :: "string \<Rightarrow> ('d, 'a) prog" where
  "fail_with e d = (Inl e, d)"

definition and_then :: "('d, 'a) prog \<Rightarrow> ('a \<Rightarrow> ('d, 'b) prog) \<Rightarrow> ('d, 'b) prog" where
  "and_then p f d = (case p d of (Inl e, d') \<Rightarrow> (Inl e, d') | (Inr x, d') \<Rightarrow> f x d')"

fun run_all :: "(node_cmd \<Rightarrow> ('d, string) prog) \<Rightarrow> node_cmd list \<Rightarrow> ('d, unit) prog" where
  "run_all send [] = done_with ()"
| "run_all send (c # cs) = and_then (send c) (\<lambda>_. run_all send cs)"

definition raw_send :: "'d device \<Rightarrow> node_cmd \<Rightarrow> ('d, string) prog" where  \<comment> \<open>\<open>sendCli\<close>\<close>
  "raw_send dev c d = dev d c"

definition cli_error :: "string \<Rightarrow> bool" where  \<comment> \<open>\<open>CLI_ERR_RE\<close>\<close>
  "cli_error out =
     (let t = to_lower (if starts_with ''('' out then drop 1 out else out) in
      list_ex (\<lambda>p. starts_with p t) [''err'', ''unknown'', ''??'', ''not supported'', ''can'' @ [CHR 0x27] @ ''t'', ''invalid''])"

definition cli :: "'d device \<Rightarrow> node_cmd \<Rightarrow> ('d, string) prog" where
  "cli dev c = and_then (raw_send dev c) (\<lambda>out. if cli_error (trim out) then fail_with (trim out) else done_with (trim out))"

definition stripPromptPrefix :: "string \<Rightarrow> string" where
  "stripPromptPrefix s = trim (if starts_with ''>'' s then dropWhile is_space (drop 1 s) else s)"

definition read_var :: "'d device \<Rightarrow> string \<Rightarrow> ('d, string) prog" where
  "read_var dev k = and_then (cli dev (GetVar k)) (\<lambda>out. done_with (stripPromptPrefix out))"

section \<open>Identity\<close>

definition identity_dirty :: "string \<Rightarrow> string \<Rightarrow> bool" where
  "identity_dirty name current \<longleftrightarrow> trim name \<noteq> trim current \<and> trim name \<noteq> []"

definition identity_save :: "'d device \<Rightarrow> string \<Rightarrow> string \<Rightarrow> ('d, string option) prog" where  \<comment> \<open>the new name\<close>
  "identity_save dev name current =
     (if trim name = [] \<or> trim name = current then done_with None
      else and_then (cli dev (SetVar ''name'' (trim name))) (\<lambda>_. done_with (Some (trim name))))"

section \<open>Radio\<close>

record radio_vals =
  rv_freq :: string
  rv_bw :: string
  rv_sf :: string
  rv_cr :: string
  rv_tx :: string

definition SF_OPTIONS :: "(string \<times> string) list" where
  "SF_OPTIONS = map (\<lambda>i. (show_nat (5 + i), ''SF'' @ show_nat (5 + i))) [0..<8]"

definition CR_OPTIONS :: "(string \<times> string) list" where
  "CR_OPTIONS = map (\<lambda>i. (show_nat (5 + i), ''4/'' @ show_nat (5 + i))) [0..<4]"

definition BANDWIDTH_OPTIONS :: "(string \<times> string) list" where
  "BANDWIDTH_OPTIONS = map (\<lambda>b. (b, b @ '' kHz''))
     [''7.8'', ''10.4'', ''15.6'', ''20.8'', ''31.25'', ''41.7'', ''62.5'', ''125'', ''250'', ''500'']"

definition shown_options :: "(string \<times> string) list \<Rightarrow> string \<Rightarrow> (string \<times> string) list" where  \<comment> \<open>\<open>SelectField\<close>\<close>
  "shown_options options v =
     (if v = [] \<or> list_ex (\<lambda>x. fst x = v) options then options else options @ [(v, v @ '' (custom)'')])"

definition signedTxPower :: "string \<Rightarrow> string" where
  "signedTxPower tx =
     (case js_number tx of
        Some x \<Rightarrow> if x = of_int \<lfloor>x\<rfloor> \<and> 127 < x \<and> x < 256 then show_int (\<lfloor>x\<rfloor> - 256) else tx
      | None \<Rightarrow> tx)"

definition part_at :: "string list \<Rightarrow> nat \<Rightarrow> string" where
  "part_at xs i = nullish (list_at xs i) []"

definition radio_load :: "'d device \<Rightarrow> ('d, radio_vals) prog" where
  "radio_load dev =
     and_then (read_var dev ''radio'') (\<lambda>radio.
     and_then (read_var dev ''tx'') (\<lambda>tx.
       (let parts = map trim (split_on CHR '','' radio) in
        done_with \<lparr>rv_freq = part_at parts 0, rv_bw = part_at parts 1, rv_sf = part_at parts 2, rv_cr = part_at parts 3,
          rv_tx = signedTxPower tx\<rparr>)))"

definition radio_cmds :: "radio_vals \<Rightarrow> node_cmd list" where
  "radio_cmds v =
     (if rv_freq v \<noteq> [] \<and> rv_bw v \<noteq> [] \<and> rv_sf v \<noteq> [] \<and> rv_cr v \<noteq> []
      then [SetVar ''radio'' (rv_freq v @ '','' @ rv_bw v @ '','' @ rv_sf v @ '','' @ rv_cr v)] else [])
     @ (if rv_tx v \<noteq> [] then [SetVar ''tx'' (rv_tx v)] else [])"

definition radio_save :: "'d device \<Rightarrow> radio_vals \<Rightarrow> ('d, unit) prog" where
  "radio_save dev v = run_all (cli dev) (radio_cmds v)"

section \<open>Pairs of values\<close>

definition pair_load :: "'d device \<Rightarrow> string \<Rightarrow> string \<Rightarrow> ('d, string \<times> string) prog" where
  "pair_load dev k l = and_then (read_var dev k) (\<lambda>x. and_then (read_var dev l) (\<lambda>y. done_with (x, y)))"

definition pair_cmds :: "string \<Rightarrow> string \<Rightarrow> string \<times> string \<Rightarrow> node_cmd list" where
  "pair_cmds k l v =
     (if fst v \<noteq> [] then [SetVar k (fst v)] else []) @ (if snd v \<noteq> [] then [SetVar l (snd v)] else [])"

definition position_load :: "'d device \<Rightarrow> ('d, string \<times> string) prog" where
  "position_load dev = pair_load dev ''lat'' ''lon''"

definition position_save :: "'d device \<Rightarrow> string \<times> string \<Rightarrow> ('d, unit) prog" where
  "position_save dev v = run_all (cli dev) (pair_cmds ''lat'' ''lon'' v)"

definition picked_position :: "rat \<Rightarrow> rat \<Rightarrow> string \<times> string" where
  "picked_position lat lon = (to_fixed 6 lat, to_fixed 6 lon)"

definition advert_load :: "'d device \<Rightarrow> ('d, string \<times> string) prog" where
  "advert_load dev = pair_load dev ''advert.interval'' ''flood.advert.interval''"

definition advert_save :: "'d device \<Rightarrow> string \<times> string \<Rightarrow> ('d, unit) prog" where
  "advert_save dev v = run_all (cli dev) (pair_cmds ''advert.interval'' ''flood.advert.interval'' v)"

section \<open>Routing\<close>

record network_vals =
  nv_repeat :: string
  nv_pathHashMode :: string
  nv_loopDetect :: string
  nv_floodMax :: string
  nv_floodMaxUnscoped :: string
  nv_floodMaxAdvert :: string

definition network_blank :: network_vals where
  "network_blank = \<lparr>nv_repeat = [], nv_pathHashMode = [], nv_loopDetect = [], nv_floodMax = [], nv_floodMaxUnscoped = [], nv_floodMaxAdvert = []\<rparr>"

definition network_load :: "'d device \<Rightarrow> admin_kind \<Rightarrow> ('d, network_vals) prog" where
  "network_load dev kind =
     and_then (read_var dev ''repeat'') (\<lambda>rep.
     and_then (read_var dev ''path.hash.mode'') (\<lambda>mode.
     and_then (if kind = RepeaterNode then read_var dev ''loop.detect'' else done_with []) (\<lambda>loopd.
     and_then (read_var dev ''flood.max'') (\<lambda>fm.
     and_then (read_var dev ''flood.max.unscoped'') (\<lambda>fu.
     and_then (read_var dev ''flood.max.advert'') (\<lambda>fa.
       done_with \<lparr>nv_repeat = rep, nv_pathHashMode = mode, nv_loopDetect = loopd, nv_floodMax = fm,
         nv_floodMaxUnscoped = fu, nv_floodMaxAdvert = fa\<rparr>))))))"

definition network_fields :: "admin_kind \<Rightarrow> (string \<times> (network_vals \<Rightarrow> string)) list" where
  "network_fields kind =
     [(''repeat'', nv_repeat), (''path.hash.mode'', nv_pathHashMode)]
     @ (if kind = RepeaterNode then [(''loop.detect'', nv_loopDetect)] else [])
     @ [(''flood.max'', nv_floodMax), (''flood.max.unscoped'', nv_floodMaxUnscoped), (''flood.max.advert'', nv_floodMaxAdvert)]"

definition network_cmds :: "admin_kind \<Rightarrow> network_vals \<Rightarrow> network_vals \<Rightarrow> node_cmd list" where
  "network_cmds kind loaded v =
     map (\<lambda>x. SetVar (fst x) (snd x v))
       (filter (\<lambda>x. snd x v \<noteq> [] \<and> snd x v \<noteq> snd x loaded) (network_fields kind))"

definition network_save :: "'d device \<Rightarrow> admin_kind \<Rightarrow> network_vals \<Rightarrow> network_vals \<Rightarrow> ('d, network_vals) prog" where
  \<comment> \<open>the values that count as loaded afterwards; after a failure they are those there were\<close>
  "network_save dev kind loaded v = and_then (run_all (cli dev) (network_cmds kind loaded v)) (\<lambda>_. done_with v)"

section \<open>Sensor variables\<close>

definition var_line :: "string \<Rightarrow> (string \<times> string) option" where  \<comment> \<open>\<open>/^([^=\s]+)=(.*)$/\<close>\<close>
  "var_line line =
     (let k = takeWhile (\<lambda>c. c \<noteq> CHR ''='' \<and> \<not> is_space c) line; r = drop (length k) line in
      if k \<noteq> [] \<and> starts_with ''='' r \<and> CHR 13 \<notin> set r then Some (k, drop 1 r) else None)"

definition next_line :: "string \<Rightarrow> nat option" where
  "next_line line =
     (if starts_with ''... next:'' line \<and> takeWhile is_digit (drop 9 line) \<noteq> []
      then Some (parse_digits (takeWhile is_digit (drop 9 line))) else None)"

definition reply_vars :: "string \<Rightarrow> (string \<times> string) list" where
  "reply_vars reply = List.map_filter var_line (split_on (CHR 10) reply)"

definition reply_next :: "string \<Rightarrow> nat option" where  \<comment> \<open>the last such line counts\<close>
  "reply_next reply = (case List.map_filter next_line (split_on (CHR 10) reply) of [] \<Rightarrow> None | n # ns \<Rightarrow> Some (last (n # ns)))"

fun vars_pages :: "'d device \<Rightarrow> nat \<Rightarrow> nat \<Rightarrow> ('d, (string \<times> string) list) prog" where  \<comment> \<open>\<open>guard\<close> counts down\<close>
  "vars_pages dev 0 start = done_with []"
| "vars_pages dev (Suc guard) start =
     and_then (raw_send dev (SensorList start)) (\<lambda>reply.
       if starts_with ''no custom var'' (to_lower reply) then done_with []
       else case reply_next reply of
           None \<Rightarrow> done_with (reply_vars reply)
         | Some n \<Rightarrow> and_then (vars_pages dev guard n) (\<lambda>more. done_with (reply_vars reply @ more)))"

record sensor_vars =
  sv_vars :: "(string \<times> string) list"
  sv_dirty :: "(string \<times> string) list"
  sv_note :: string

definition vars_loaded :: "(string \<times> string) list \<Rightarrow> sensor_vars" where
  "vars_loaded out = \<lparr>sv_vars = out, sv_dirty = [], sv_note = (if out = [] then ''this board exposes no custom variables'' else [])\<rparr>"

definition vars_load :: "'d device \<Rightarrow> ('d, sensor_vars) prog" where
  "vars_load dev = and_then (vars_pages dev 20 0) (\<lambda>out. done_with (vars_loaded out))"

fun vars_set :: "'d device \<Rightarrow> (string \<times> string) list \<Rightarrow> ('d, unit) prog" where
  "vars_set dev [] = done_with ()"
| "vars_set dev (p # ps) =
     and_then (raw_send dev (SensorSet (fst p) (snd p))) (\<lambda>reply.
       if starts_with ''ok'' (to_lower reply) then vars_set dev ps else fail_with (fst p @ '': '' @ reply))"

definition vars_save :: "'d device \<Rightarrow> sensor_vars \<Rightarrow> ('d, sensor_vars) prog" where
  "vars_save dev st = and_then (vars_set dev (sv_dirty st)) (\<lambda>_. vars_load dev)"

definition var_typed :: "string \<Rightarrow> string \<Rightarrow> sensor_vars \<Rightarrow> sensor_vars" where
  "var_typed k v st = st\<lparr>sv_dirty := AList.update k v (sv_dirty st)\<rparr>"

definition var_shown :: "sensor_vars \<Rightarrow> string \<times> string \<Rightarrow> string" where
  "var_shown st p = nullish (map_of (sv_dirty st) (fst p)) (snd p)"

section \<open>Owner\<close>

definition newline :: char where "newline = CHR 10"

definition owner_shown :: "string \<Rightarrow> string" where
  "owner_shown out = replace_char CHR ''|'' newline out"

fun owner_encoded :: "string \<Rightarrow> string" where  \<comment> \<open>\<open>text.replace(/\r?\n/g, "|")\<close>\<close>
  "owner_encoded [] = []"
| "owner_encoded (c # s) =
     (if c = CHR 10 then CHR ''|'' # owner_encoded s
      else case s of
          d # t \<Rightarrow> if c = CHR 13 \<and> d = CHR 10 then CHR ''|'' # owner_encoded t else c # owner_encoded s
        | [] \<Rightarrow> [c])"

definition owner_load :: "'d device \<Rightarrow> ('d, string) prog" where
  "owner_load dev = and_then (read_var dev ''owner.info'') (\<lambda>out. done_with (owner_shown out))"

definition owner_save :: "'d device \<Rightarrow> string \<Rightarrow> ('d, unit) prog" where
  "owner_save dev t = run_all (cli dev) [SetVar ''owner.info'' (owner_encoded t)]"

section \<open>Security\<close>

record security_vals =
  sy_admin :: string
  sy_guest :: string
  sy_allowReadOnly :: bool

definition security_load :: "'d device \<Rightarrow> admin_kind \<Rightarrow> security_vals \<Rightarrow> 'd \<Rightarrow> security_vals \<times> string option \<times> 'd" where
  \<comment> \<open>the values shown, the reason of a failure, and the node: the first value is shown even if the second is not read\<close>
  "security_load dev kind v d =
     (case (if kind \<noteq> SensorNode then and_then (read_var dev ''guest.password'') (\<lambda>g. done_with (v\<lparr>sy_guest := g\<rparr>)) else done_with v) d of
        (Inl e, d1) \<Rightarrow> (v, Some e, d1)
      | (Inr w, d1) \<Rightarrow>
          if kind \<noteq> RoomNode then (w, None, d1)
          else (case read_var dev ''allow.read.only'' d1 of
              (Inl e, d2) \<Rightarrow> (w, Some e, d2)
            | (Inr a, d2) \<Rightarrow> (w\<lparr>sy_allowReadOnly := (a = ''on'')\<rparr>, None, d2)))"

definition security_cmds :: "admin_kind \<Rightarrow> security_vals \<Rightarrow> node_cmd list" where
  "security_cmds kind v =
     (if sy_admin v \<noteq> [] then [Password (sy_admin v)] else [])
     @ (if kind \<noteq> SensorNode \<and> sy_guest v \<noteq> [] then [SetVar ''guest.password'' (sy_guest v)] else [])
     @ (if kind = RoomNode then [SetVar ''allow.read.only'' (if sy_allowReadOnly v then ''on'' else ''off'')] else [])"

definition security_save :: "'d device \<Rightarrow> admin_kind \<Rightarrow> security_vals \<Rightarrow> ('d, security_vals) prog" where
  "security_save dev kind v = and_then (run_all (cli dev) (security_cmds kind v)) (\<lambda>_. done_with (v\<lparr>sy_admin := []\<rparr>))"

section \<open>Actions\<close>

definition action_cmds :: "(string \<times> string) list" where  \<comment> \<open>label and command\<close>
  "action_cmds = [(''Advert'', ''advert''), (''Zerohop'', ''advert.zerohop''), (''Clock'', ''clock sync''), (''Reboot'', ''reboot'')]"

definition run_action :: "'d device \<Rightarrow> string \<times> string \<Rightarrow> ('d, string) prog" where  \<comment> \<open>the text of the notice\<close>
  "run_action dev a = and_then (cli dev (PlainCmd (snd a))) (\<lambda>out. done_with (or_str out (fst a @ '' sent'')))"

datatype section_busy = SectionLoad | SectionSave

definition footer_disabled :: "section_busy option \<Rightarrow> bool" where
  "footer_disabled busy \<longleftrightarrow> busy \<noteq> None"

section \<open>A refusal stops a save\<close>

definition logged :: "'d device \<Rightarrow> ('d \<times> node_cmd list) device" where  \<comment> \<open>the node, and what reached it\<close>
  "logged dev dl c = (case dev (fst dl) c of (r, d) \<Rightarrow> (r, (d, snd dl @ [c])))"

lemma cli_cases:
  "cli dev c d = (case dev d c of
     (Inl e, d') \<Rightarrow> (Inl e, d')
   | (Inr out, d') \<Rightarrow> if cli_error (trim out) then (Inl (trim out), d') else (Inr (trim out), d'))"
  by (auto simp: cli_def and_then_def raw_send_def done_with_def fail_with_def split: sum.splits prod.splits)

lemma cli_logged:
  "cli (logged dev) c (d, l) = (case cli dev c d of (r, d') \<Rightarrow> (r, (d', l @ [c])))"
  by (auto simp: cli_cases logged_def split: sum.splits prod.splits)

definition sent_prefix :: "node_cmd list \<Rightarrow> (string + unit) \<Rightarrow> node_cmd list \<Rightarrow> bool" where
  "sent_prefix cmds r sent \<longleftrightarrow>
     (case r of Inr _ \<Rightarrow> sent = cmds | Inl _ \<Rightarrow> sent \<noteq> [] \<and> (\<exists>rest. cmds = sent @ rest))"

lemma run_all_sent:
  "\<exists>sent. snd (snd (run_all (cli (logged dev)) cmds (d, l))) = l @ sent
     \<and> sent_prefix cmds (fst (run_all (cli (logged dev)) cmds (d, l))) sent"
proof (induction cmds arbitrary: d l)
  case Nil
  then show ?case by (simp add: done_with_def sent_prefix_def)
next
  case (Cons c cs)
  show ?case
  proof (cases "cli dev c d")
    case (Pair r d')
    show ?thesis
    proof (cases r)
      case (Inl e)
      with Pair show ?thesis
        by (intro exI [of _ "[c]"]) (simp add: and_then_def cli_logged sent_prefix_def)
    next
      case (Inr out)
      obtain sent where s: "snd (snd (run_all (cli (logged dev)) cs (d', l @ [c]))) = (l @ [c]) @ sent"
          "sent_prefix cs (fst (run_all (cli (logged dev)) cs (d', l @ [c]))) sent"
        using Cons.IH [of d' "l @ [c]"] by blast
      have step: "run_all (cli (logged dev)) (c # cs) (d, l) = run_all (cli (logged dev)) cs (d', l @ [c])"
        using Pair Inr by (simp add: and_then_def cli_logged)
      from s(2) have "sent_prefix (c # cs) (fst (run_all (cli (logged dev)) cs (d', l @ [c]))) (c # sent)"
        by (auto simp: sent_prefix_def split: sum.splits)
      with s(1) show ?thesis unfolding step by (intro exI [of _ "c # sent"]) simp
    qed
  qed
qed

text \<open>Error. A save of any section sends its commands in order, one awaited after the other, and the first that
  is refused or not answered is the last that is sent: a reported success means all of them went out.\<close>
theorem save_stops_at_refusal:
  "\<exists>sent. snd (snd (run_all (cli (logged dev)) cmds (d, []))) = sent
     \<and> (case fst (run_all (cli (logged dev)) cmds (d, [])) of
          Inr _ \<Rightarrow> sent = cmds | Inl _ \<Rightarrow> sent \<noteq> [] \<and> (\<exists>rest. cmds = sent @ rest))"
  using run_all_sent [of dev cmds d "[]"] by (auto simp: sent_prefix_def)

text \<open>A frequency typed before the rest is loaded is not sent, and the save reports success.\<close>

lemma lone_frequency_dropped:
  "rv_bw v = [] \<Longrightarrow> rv_tx v = [] \<Longrightarrow> radio_save (logged dev) v (d, []) = (Inr (), (d, []))"
  by (simp add: radio_save_def radio_cmds_def done_with_def)

text \<open>The variables are read without the check for an error, so an error reads as a board that has none.\<close>

definition failing_device :: "unit device" where
  "failing_device d c = (Inr ''Err - busy'', d)"

lemma error_reads_as_no_vars:
  "vars_load failing_device () = (Inr (vars_loaded []), ())"
  by code_simp

section \<open>Settings read back\<close>

definition stores :: "'d device \<Rightarrow> ('d \<Rightarrow> string \<Rightarrow> string) \<Rightarrow> bool" where
  \<comment> \<open>a node that keeps what it is set to and prints it after a prompt\<close>
  "stores dev read \<longleftrightarrow>
     (\<forall>d k. dev d (GetVar k) = (Inr (''> '' @ read d k), d))
     \<and> (\<forall>d k v. \<exists>out d'. dev d (SetVar k v) = (Inr out, d') \<and> \<not> cli_error (trim out) \<and> read d' = (read d)(k := v))"

lemma trim_prompt: "stripPromptPrefix (trim (''> '' @ x)) = trim x"
proof (cases "list_all is_space x")
  case True
  have "dropWhile is_space ((rev x @ '' '') @ ''>'') = dropWhile is_space ''>''"
    by (rule dropWhile_append2) (use True in \<open>auto simp: list_all_iff is_space_def [of "CHR '' ''"]\<close>)
  then have "dropWhile is_space (rev x @ [CHR '' '', CHR ''>'']) = [CHR ''>'']"
    by (simp add: is_space_def [of "CHR ''>''"])
  moreover have "dropWhile is_space x = []" using True by (simp add: list_all_iff dropWhile_eq_Nil_conv)
  then have "trim x = []" unfolding trim_def trim_start_def by (simp only: dropWhile.simps rev.simps)
  ultimately show ?thesis
    by (simp add: trim_def trim_start_def stripPromptPrefix_def is_space_def)
next
  case False
  define y where "y = rev (dropWhile is_space (rev x))"
  have "trim (''> '' @ x) = ''> '' @ y"
    using False by (simp add: trim_def trim_start_def is_space_def y_def dropWhile_append list_all_iff dropWhile_eq_Nil_conv)
  moreover have "trim y = trim x"
  proof -
    have "dropWhile is_space y = rev (dropWhile is_space (rev (dropWhile is_space x)))"
      using False unfolding y_def
    proof (induction x)
      case (Cons c x)
      show ?case
      proof (cases "list_all is_space x")
        case True
        with Cons.prems have "\<not> is_space c" by simp
        moreover have "dropWhile is_space (rev x @ [c]) = [c]"
          using True \<open>\<not> is_space c\<close> by (simp add: dropWhile_append3 list_all_iff)
        ultimately show ?thesis by simp
      next
        case False
        with Cons.IH show ?thesis
          by (auto simp: dropWhile_append list_all_iff dropWhile_eq_Nil_conv)
      qed
    qed simp
    then show ?thesis by (simp add: trim_def trim_start_def)
  qed
  moreover have "trim (dropWhile is_space z) = trim z" for z
    by (simp add: trim_def trim_start_def)
  ultimately show ?thesis by (simp add: stripPromptPrefix_def is_space_def)
qed

lemma prompt_no_error: "\<not> cli_error (trim (''> '' @ x))"
proof -
  have "trim (''> '' @ x) = CHR ''>'' # tl (trim (''> '' @ x))"
  proof -
    have "CHR ''>'' \<in> set (dropWhile is_space (rev (''> '' @ x)))"
      by (simp add: dropWhile_append is_space_def)
    have "rev (dropWhile is_space (rev (CHR ''>'' # '' '' @ x))) = CHR ''>'' # tl (rev (dropWhile is_space (rev (CHR ''>'' # '' '' @ x))))"
      by (simp add: dropWhile_append is_space_def)
    then show ?thesis by (simp add: trim_def trim_start_def is_space_def)
  qed
  then obtain s where "trim (''> '' @ x) = CHR ''>'' # s" by metis
  then show ?thesis by (simp add: cli_error_def to_lower_def lower_char_def Let_def)
qed

lemma read_stored: "stores dev read \<Longrightarrow> read_var dev k d = (Inr (trim (read d k)), d)"
  using trim_prompt [of "read d k"] prompt_no_error [of "read d k"]
  by (simp add: read_var_def and_then_def cli_cases stores_def done_with_def)

lemma read_pair: "stores dev read \<Longrightarrow> and_then (read_var dev k) f d = f (trim (read d k)) d"
  by (simp add: and_then_def read_stored)

lemma read_done: "and_then (done_with x) f d = f x d" "done_with x d = (Inr x, d)"
  by (simp_all add: and_then_def done_with_def)

fun stored_after :: "(string \<Rightarrow> string) \<Rightarrow> node_cmd list \<Rightarrow> string \<Rightarrow> string" where
  "stored_after m [] = m"
| "stored_after m (SetVar k v # cs) = stored_after (m(k := v)) cs"
| "stored_after m (c # cs) = stored_after m cs"

lemma run_all_stored:
  "stores dev read \<Longrightarrow> list_all (\<lambda>c. \<exists>k v. c = SetVar k v) cmds \<Longrightarrow>
   \<exists>d'. run_all (cli dev) cmds d = (Inr (), d') \<and> read d' = stored_after (read d) cmds"
proof (induction cmds arbitrary: d)
  case Nil
  then show ?case by (simp add: done_with_def)
next
  case (Cons c cs)
  then obtain k v where c: "c = SetVar k v" by auto
  obtain out d1 where s: "dev d (SetVar k v) = (Inr out, d1)" "\<not> cli_error (trim out)" "read d1 = (read d)(k := v)"
    using Cons.prems(1) unfolding stores_def by meson
  obtain d' where "run_all (cli dev) cs d1 = (Inr (), d')" "read d' = stored_after (read d1) cs"
    using Cons by fastforce
  moreover have "cli dev c d = (Inr (trim out), d1)" using c s by (simp add: cli_cases)
  ultimately show ?case using c s(3) by (simp add: and_then_def)
qed

definition kept_or :: "string \<Rightarrow> string \<Rightarrow> string" where
  "kept_or typed old = (if typed = [] then old else typed)"

definition network_merge :: "admin_kind \<Rightarrow> network_vals \<Rightarrow> network_vals \<Rightarrow> network_vals" where
  "network_merge kind loaded v =
     \<lparr>nv_repeat = kept_or (nv_repeat v) (nv_repeat loaded), nv_pathHashMode = kept_or (nv_pathHashMode v) (nv_pathHashMode loaded),
      nv_loopDetect = (if kind = RepeaterNode then kept_or (nv_loopDetect v) (nv_loopDetect loaded) else []),
      nv_floodMax = kept_or (nv_floodMax v) (nv_floodMax loaded),
      nv_floodMaxUnscoped = kept_or (nv_floodMaxUnscoped v) (nv_floodMaxUnscoped loaded),
      nv_floodMaxAdvert = kept_or (nv_floodMaxAdvert v) (nv_floodMaxAdvert loaded)\<rparr>"

definition trimmed_vals :: "network_vals \<Rightarrow> bool" where
  "trimmed_vals v \<longleftrightarrow> (\<forall>x\<in>{nv_repeat v, nv_pathHashMode v, nv_loopDetect v, nv_floodMax v, nv_floodMaxUnscoped v, nv_floodMaxAdvert v}. trim x = x)"

lemma network_load_stored:
  "stores dev read \<Longrightarrow> network_load dev kind d = (Inr
     \<lparr>nv_repeat = trim (read d ''repeat''), nv_pathHashMode = trim (read d ''path.hash.mode''),
      nv_loopDetect = (if kind = RepeaterNode then trim (read d ''loop.detect'') else []),
      nv_floodMax = trim (read d ''flood.max''), nv_floodMaxUnscoped = trim (read d ''flood.max.unscoped''),
      nv_floodMaxAdvert = trim (read d ''flood.max.advert'')\<rparr>, d)"
  by (cases kind) (simp_all add: network_load_def read_pair read_done)

lemma network_cmds_set: "list_all (\<lambda>c. \<exists>k v. c = SetVar k v) (network_cmds kind loaded v)"
  by (auto simp: network_cmds_def list_all_iff)

lemma stored_fields:
  "distinct (map fst fs) \<Longrightarrow>
   stored_after m (map (\<lambda>x. SetVar (fst x) (snd x v)) (filter P fs)) k =
     (case map_of (filter P fs) k of Some g \<Rightarrow> g v | None \<Rightarrow> m k)"
proof (induction fs arbitrary: m)
  case (Cons x fs)
  have "fst x \<notin> fst ` set (filter P fs)" using Cons.prems by auto
  then have "map_of (filter P fs) (fst x) = None" by (simp add: map_of_eq_None_iff)
  with Cons show ?case by (cases x) (auto split: option.splits)
qed simp

lemma map_of_filter_key:
  "distinct (map fst fs) \<Longrightarrow> (k, g) \<in> set fs \<Longrightarrow> map_of (filter P fs) k = (if P (k, g) then Some g else None)"
proof (induction fs)
  case (Cons x fs)
  have "map_of (filter P fs) (fst x) = None" using Cons.prems by (auto simp: map_of_eq_None_iff)
  with Cons show ?case by (cases x) (auto simp: rev_image_eqI)
qed simp

lemma network_fields_distinct: "distinct (map fst (network_fields kind))"
  by (simp add: network_fields_def)

lemma sent_nothing: "network_cmds kind v v = []"
  by (simp add: network_cmds_def)

lemma in_network:
  "(''repeat'', nv_repeat) \<in> set (network_fields kind)" "(''path.hash.mode'', nv_pathHashMode) \<in> set (network_fields kind)"
  "(''flood.max'', nv_floodMax) \<in> set (network_fields kind)" "(''flood.max.unscoped'', nv_floodMaxUnscoped) \<in> set (network_fields kind)"
  "(''flood.max.advert'', nv_floodMaxAdvert) \<in> set (network_fields kind)"
  "kind = RepeaterNode \<Longrightarrow> (''loop.detect'', nv_loopDetect) \<in> set (network_fields kind)"
  by (simp_all add: network_fields_def)

lemma loaded_fields:
  "stores dev read \<Longrightarrow> network_load dev kind d = (Inr old, d) \<Longrightarrow> (k, g) \<in> set (network_fields kind) \<Longrightarrow> g old = trim (read d k)"
  using network_load_stored [of dev read kind d] by (auto simp: network_fields_def split: if_splits)


definition store_device :: "(string \<Rightarrow> string) device" where
  "store_device d c = (case c of GetVar k \<Rightarrow> (Inr (''> '' @ d k), d) | SetVar k v \<Rightarrow> (Inr ''OK'', d(k := v)) | _ \<Rightarrow> (Inr ''unknown'', d))"

lemma store_device_stores: "stores store_device (\<lambda>d. d)"
proof -
  have "\<not> cli_error (trim ''OK'')" by code_simp
  then show ?thesis by (simp add: stores_def store_device_def)
qed

definition example_node_vars :: "string \<Rightarrow> string" where
  "example_node_vars k = (if k = ''repeat'' then ''on'' else if k = ''flood.max'' then ''64'' else ''0'')"

definition example_old :: network_vals where
  "example_old = \<lparr>nv_repeat = ''on'', nv_pathHashMode = ''0'', nv_loopDetect = [], nv_floodMax = ''64'', nv_floodMaxUnscoped = ''0'', nv_floodMaxAdvert = ''0''\<rparr>"

lemma example_loaded: "network_load store_device RoomNode example_node_vars = (Inr example_old, example_node_vars)"
proof -
  have t: "trim ''on'' = ''on''" "trim ''64'' = ''64''" "trim ''0'' = ''0''" by code_simp+
  show ?thesis unfolding network_load_stored [OF store_device_stores]
    by (simp add: example_node_vars_def example_old_def t)
qed

lemma example_trimmed: "trimmed_vals (example_old\<lparr>nv_floodMax := ''32''\<rparr>)"
  unfolding trimmed_vals_def by (simp add: example_old_def) code_simp


section \<open>Transmit power\<close>

lemma digits_of_show: "digits_of (show_nat n) = (show_nat n, [])"
  using show_nat_digits [of n] by (simp add: digits_of_def list_all_iff takeWhile_eq_all_conv dropWhile_eq_Nil_conv)

lemma show_nat_last: "\<not> is_space (last (show_nat n))"
  using show_nat_set [of "last (show_nat n)" n] digit_not_space [of "last (show_nat n)"] last_in_set [of "show_nat n"] by simp

lemma trim_show_nat [simp]: "trim (show_nat n) = show_nat n"
  by (rule trim_tight [OF _ _ show_nat_last]) (simp_all add: hd_show_nat [of n "[]", simplified])

lemma js_unsigned_show: "js_unsigned (show_nat n) = Some (of_nat n)"
  by (simp add: js_unsigned_def digits_of_show read_exponent_def)

lemma js_radix_digits: "list_all is_digit s \<Longrightarrow> js_radix s = None"
proof -
  have d: "c \<notin> {CHR ''x'', CHR ''X''} \<and> c \<notin> {CHR ''o'', CHR ''O''} \<and> c \<notin> {CHR ''b'', CHR ''B''}" if "is_digit c" for c
    using that by (auto simp: is_digit_def)
  assume s: "list_all is_digit s"
  show ?thesis
  proof (cases s)
    case (Cons z u)
    then show ?thesis
    proof (cases u)
      case (Cons x ds)
      with s \<open>s = z # u\<close> have "is_digit x" by simp
      from d [OF this] show ?thesis unfolding \<open>s = z # u\<close> Cons js_radix_def Let_def by simp
    qed (simp add: js_radix_def)
  qed (simp add: js_radix_def)
qed

lemma js_number_show_nat: "js_number (show_nat n) = Some (of_nat n)"
proof -
  obtain c t where ct: "show_nat n = c # t" by (cases "show_nat n") auto
  have "is_digit c" using show_nat_set [of c n] ct by simp
  then have c: "c \<noteq> CHR ''-''" "c \<noteq> CHR ''+''" by (auto simp: is_digit_def)
  have r: "js_radix (c # t) = None" using js_radix_digits [OF show_nat_digits [of n]] ct by simp
  have tr: "trim (show_nat n) = c # t" using trim_show_nat [of n] ct by metis
  have u: "js_unsigned (c # t) = Some (of_nat n)" using js_unsigned_show [of n] ct by simp
  show ?thesis unfolding js_number_def tr using c r u by simp
qed

lemma js_number_negative: "js_number (CHR ''-'' # show_nat n) = Some (- of_nat n)"
proof -
  have tr: "trim (CHR ''-'' # show_nat n) = CHR ''-'' # show_nat n"
    by (rule trim_tight) (simp_all add: show_nat_last, simp add: is_space_def)
  have r: "js_radix (CHR ''-'' # show_nat n) = None"
    by (simp add: js_radix_def split: list.split)
  show ?thesis unfolding js_number_def tr by (simp add: r js_unsigned_show)
qed

lemma power_unchanged: "n < 128 \<Longrightarrow> signedTxPower (show_nat n) = show_nat n"
  by (simp add: signedTxPower_def js_number_show_nat)

lemma power_signed: "127 < n \<Longrightarrow> n < 256 \<Longrightarrow> signedTxPower (show_nat n) = show_int (int n - 256)"
  by (simp add: signedTxPower_def js_number_show_nat)

lemma power_negative: "signedTxPower (CHR ''-'' # show_nat n) = CHR ''-'' # show_nat n"
  by (simp add: signedTxPower_def js_number_negative)

lemma power_of_int:
  assumes "- 128 \<le> i" "i < 128"
  shows "signedTxPower (show_nat (nat (i mod 256))) = show_int i \<and> signedTxPower (show_int i) = show_int i"
proof (cases "0 \<le> i")
  case True
  then show ?thesis using assms by (simp add: show_int_def power_unchanged)
next
  case False
  then have "(i + 256) mod 256 = i + 256" using assms by (intro mod_pos_pos_trivial) simp_all
  then have m: "i mod 256 = i + 256" by simp
  show ?thesis using False assms unfolding m by (simp add: power_signed power_negative) (simp add: show_int_def power_negative)
qed

text \<open>Bounds. A transmit power is read back as it was set, through either firmware: one prints the byte
  unsigned, so that -4 reads 252, the other prints it signed, and both are shown as the signed number,
  over the whole range of the byte.\<close>
theorem tx_power_signed:
  "signedTxPower (show_nat (nat (sint w mod 256))) = show_int (sint (w :: 8 word)) \<and> signedTxPower (show_int (sint w)) = show_int (sint w)"
  using sint_greater_eq [of w] sint_lt [of w] by (intro power_of_int) simp_all

section \<open>Owner information\<close>

lemma owner_round_trip:
  "CHR ''|'' \<notin> set t \<Longrightarrow> CHR 13 \<notin> set t \<Longrightarrow> owner_shown (owner_encoded t) = t"
proof (induction t)
  case (Cons c s)
  then have ih: "owner_shown (owner_encoded s) = s" and c: "c \<noteq> CHR ''|''" "c \<noteq> CHR 13" by fastforce+
  have "owner_encoded (c # s) = (if c = CHR 10 then CHR ''|'' # owner_encoded s else c # owner_encoded s)"
    using c by (cases s) simp_all
  with ih c show ?case by (simp add: owner_shown_def replace_char_def newline_def)
qed (simp add: owner_shown_def replace_char_def)

end
