(* ===== verification/RemoteRegions.thy ===== *)
theory RemoteRegions
  imports RegionForms RemoteNode
begin

text \<open>
  The regions of a remote node (\<open>pages/RemoteRegionsTab.tsx\<close>): each edit is a command of the node's own
  command line, sent at once, and the list on screen follows what the node acknowledged; saving writes
  the node's memory to its flash. The node is firmware, outside the repository: it is the parameter
  \<open>dev\<close>, which takes its state and a command and answers, or fails with the HTTP status if there is one.
  \<open>node_does\<close> states what the code relies on: an acknowledged command took effect, a refused one did
  not, and one that was never answered may have done anything. An action runs without another in between
  (\<open>busyRef\<close>), so it is one step from the state of the tab and the node to the next.
\<close>

section \<open>Commands\<close>

datatype region_cmd =
    RegionGet string
  | RegionPut string string
  | RegionDenyf string
  | RegionAllowf string
  | RegionRemove string
  | RegionHome string
  | RegionDefault string
  | RegionSave

fun region_cmd_text :: "region_cmd \<Rightarrow> string" where
  "region_cmd_text (RegionGet n) = ''region get '' @ n"
| "region_cmd_text (RegionPut n p) = ''region put '' @ n @ '' '' @ p"
| "region_cmd_text (RegionDenyf n) = ''region denyf '' @ n"
| "region_cmd_text (RegionAllowf n) = ''region allowf '' @ n"
| "region_cmd_text (RegionRemove n) = ''region remove '' @ n"
| "region_cmd_text (RegionHome n) = ''region home '' @ n"
| "region_cmd_text (RegionDefault n) = ''region default '' @ or_str n ''<null>''"
| "region_cmd_text RegionSave = ''region save''"

datatype cli_reply =
    CliReply string
  | CliFailed "nat option" string  \<comment> \<open>the status, if OwlShack answered, and the message\<close>

type_synonym 'd region_device = "'d \<Rightarrow> region_cmd \<Rightarrow> cli_reply \<times> 'd"

section \<open>The tab\<close>

record region_map =
  rm_regions :: "editable_region list"
  rm_home :: string
  rm_default :: string
  rm_defaultSupported :: bool
  rm_partial :: bool

record regions_tab =
  rt_map :: "region_map option"
  rt_loading :: bool
  rt_error :: "string option"
  rt_busy :: bool
  rt_unsaved :: bool
  rt_marker :: "bool option"  \<comment> \<open>in the session's storage; \<open>None\<close> when that throws\<close>
  rt_fetched :: bool
  rt_toasts :: "(toast_kind \<times> string) list"

definition regions_start :: "bool option \<Rightarrow> regions_tab" where
  "regions_start marker =
     \<lparr>rt_map = None, rt_loading = False, rt_error = None, rt_busy = False, rt_unsaved = nullish marker False,
      rt_marker = marker, rt_fetched = False, rt_toasts = []\<rparr>"

definition setUnsaved :: "bool \<Rightarrow> regions_tab \<Rightarrow> regions_tab" where
  "setUnsaved v st = st\<lparr>rt_unsaved := v, rt_marker := map_option (\<lambda>_. v) (rt_marker st)\<rparr>"

definition toasted :: "toast_kind \<Rightarrow> string \<Rightarrow> regions_tab \<Rightarrow> regions_tab" where
  "toasted k t st = st\<lparr>rt_toasts := rt_toasts st @ [(k, t)]\<rparr>"

definition regions_asked :: "regions_tab \<Rightarrow> regions_tab" where
  "regions_asked st = st\<lparr>rt_fetched := True, rt_loading := True, rt_error := None\<rparr>"

definition regions_answered :: "string + region_map \<Rightarrow> regions_tab \<Rightarrow> regions_tab" where
  "regions_answered r st =
     (case r of
        Inl e \<Rightarrow> st\<lparr>rt_error := Some (e @ ''. Check the node is in range, then press Refresh.''), rt_loading := False\<rparr>
      | Inr m \<Rightarrow> st\<lparr>rt_map := Some m, rt_loading := False\<rparr>)"

definition regions_shown :: "bool \<Rightarrow> regions_tab \<Rightarrow> regions_tab" where  \<comment> \<open>the effect on \<open>active\<close>\<close>
  "regions_shown active st = (if active \<and> \<not> rt_fetched st then regions_asked st else st)"

definition save_offered :: "regions_tab \<Rightarrow> bool" where
  "save_offered st \<longleftrightarrow> \<not> rt_busy st \<and> \<not> rt_loading st \<and> rt_map st \<noteq> None"

text \<open>A step of an action: the tab and the node before, a value, the tab and the node after.\<close>

type_synonym ('d, 'a) step = "regions_tab \<times> 'd \<Rightarrow> 'a \<times> regions_tab \<times> 'd"

definition act :: "('d, 'a) step \<Rightarrow> 'a \<Rightarrow> ('d, 'a) step" where
  "act fn idle s =
     (if rt_busy (fst s) then (idle, s)
      else case fn ((fst s)\<lparr>rt_busy := True\<rparr>, snd s) of (x, st, d) \<Rightarrow> (x, st\<lparr>rt_busy := False\<rparr>, d))"

definition in_doubt :: "nat option \<Rightarrow> bool" where
  "in_doubt status \<longleftrightarrow> status = None \<or> status = Some 504"

definition run_failed :: "region_cmd \<Rightarrow> bool \<Rightarrow> nat option \<Rightarrow> string \<Rightarrow> regions_tab \<Rightarrow> regions_tab" where
  "run_failed c is_read status msg st =
     (if \<not> in_doubt status then toasted ErrorToast (region_cmd_text c @ '': '' @ msg) st
      else if is_read then toasted ErrorToast (region_cmd_text c @ '': no reply ('' @ msg @ ''). Try again.'') st
      else toasted ErrorToast
        (region_cmd_text c @ '': no reply ('' @ msg @ ''). It may have reached the node: press Refresh to check.'')
        (setUnsaved True st))"

definition run :: "'d region_device \<Rightarrow> region_cmd \<Rightarrow> (string \<Rightarrow> bool) \<Rightarrow> bool \<Rightarrow> ('d, string option) step" where
  "run dev c ok is_read s =
     (case dev (snd s) c of
        (CliFailed status msg, d) \<Rightarrow> (None, run_failed c is_read status msg (fst s), d)
      | (CliReply reply, d) \<Rightarrow>
          if ok (trim reply) then (Some (trim reply), fst s, d)
          else (None, toasted ErrorToast (region_cmd_text c @ '': '' @ or_str (trim reply) ''refused'') (fst s), d))"

definition isOK :: "string \<Rightarrow> bool" where
  "isOK r = starts_with ''OK'' r"

definition home_ok :: "string \<Rightarrow> bool" where
  "home_ok r = str_includes r ''home is now''"

definition default_ok :: "string \<Rightarrow> bool" where
  "default_ok r = str_includes r ''default scope is now''"

definition flood_allowed :: "string \<Rightarrow> bool" where
  "flood_allowed r = str_includes r ''(flood allowed)''"

definition change :: "(region_map \<Rightarrow> region_map) \<Rightarrow> regions_tab \<Rightarrow> regions_tab" where
  "change f st = setUnsaved True (st\<lparr>rt_map := map_option f (rt_map st)\<rparr>)"

definition withRegion :: "region_map \<Rightarrow> string \<Rightarrow> (editable_region \<Rightarrow> editable_region) \<Rightarrow> region_map" where
  "withRegion m n edit = m\<lparr>rm_regions := map (\<lambda>r. if rn_name r = n then edit r else r) (rm_regions m)\<rparr>"

definition after :: "('d, 'a) step \<Rightarrow> ('a \<Rightarrow> ('d, 'b) step) \<Rightarrow> ('d, 'b) step" where
  "after p f s = (case p s of (x, s') \<Rightarrow> f x s')"

definition finish :: "'b \<Rightarrow> ('d, 'b) step" where
  "finish x s = (x, s)"

definition put_change :: "(region_map \<Rightarrow> region_map) \<Rightarrow> ('d, unit) step" where
  "put_change f s = ((), change f (fst s), snd s)"

section \<open>What the editor's buttons do\<close>

definition first_word :: "string \<Rightarrow> string" where
  "first_word s = takeWhile (\<lambda>c. \<not> is_space c) s"

definition found_on_node :: "string \<Rightarrow> string \<Rightarrow> bool" where  \<comment> \<open>what the answer to \<open>region get\<close> says\<close>
  "found_on_node n got \<longleftrightarrow> \<not> starts_with ''Err - '' got \<and> bare (first_word got) = bare n"

text \<open>One command and, when it is acknowledged, the change it makes to the list; the reply, if so.\<close>

definition acked :: "'d region_device \<Rightarrow> region_cmd \<Rightarrow> (string \<Rightarrow> bool) \<Rightarrow> (string \<Rightarrow> region_map \<Rightarrow> region_map) \<Rightarrow> ('d, string option) step" where
  "acked dev c ok f =
     after (run dev c ok False) (\<lambda>r. case r of
        None \<Rightarrow> finish None
      | Some reply \<Rightarrow> after (put_change (f reply)) (\<lambda>_. finish (Some reply)))"

definition acked_ok :: "'d region_device \<Rightarrow> region_cmd \<Rightarrow> (string \<Rightarrow> bool) \<Rightarrow> (string \<Rightarrow> region_map \<Rightarrow> region_map) \<Rightarrow> ('d, bool) step" where
  "acked_ok dev c ok f = after (acked dev c ok f) (\<lambda>r. finish (r \<noteq> None))"

definition added_region :: "string \<Rightarrow> string \<Rightarrow> string \<Rightarrow> region_map \<Rightarrow> region_map" where
  "added_region n p reply m =
     m\<lparr>rm_regions := rm_regions m @ [\<lparr>rn_name = bare n, rn_parent = p, denyFlood = \<not> flood_allowed reply\<rparr>]\<rparr>"

definition put_new :: "'d region_device \<Rightarrow> string \<Rightarrow> string \<Rightarrow> ('d, bool) step" where
  "put_new dev n p = acked_ok dev (RegionPut n p) isOK (added_region n p)"

definition already_toast :: "string \<Rightarrow> ('d, bool) step" where
  "already_toast n s =
     (False, toasted ErrorToast (bare n @ '' is already on the node; press Refresh to see it'') (fst s), snd s)"

definition partly_listed :: "regions_tab \<Rightarrow> bool" where  \<comment> \<open>\<open>map?.partial\<close>\<close>
  "partly_listed st = (case rt_map st of Some m \<Rightarrow> rm_partial m | None \<Rightarrow> False)"

definition put_if_new :: "'d region_device \<Rightarrow> string \<Rightarrow> string \<Rightarrow> ('d, bool) step" where
  "put_if_new dev n p =
     after (run dev (RegionGet n) (\<lambda>_. True) True) (\<lambda>r. case r of
        None \<Rightarrow> finish False
      | Some got \<Rightarrow> if found_on_node n got then already_toast n else put_new dev n p)"

definition onAdd :: "'d region_device \<Rightarrow> string \<Rightarrow> string \<Rightarrow> ('d, bool) step" where
  "onAdd dev n p =
     act (\<lambda>s. if partly_listed (fst s) then put_if_new dev n p s else put_new dev n p s) False"

definition region_was :: "regions_tab \<Rightarrow> string \<Rightarrow> bool option" where  \<comment> \<open>\<open>was?.denyFlood\<close>\<close>
  "region_was st n =
     (case rt_map st of None \<Rightarrow> None | Some m \<Rightarrow> map_option denyFlood (find (\<lambda>r. rn_name r = n) (rm_regions m)))"

definition set_deny :: "string \<Rightarrow> bool \<Rightarrow> region_map \<Rightarrow> region_map" where
  "set_deny n deny m = withRegion m n (\<lambda>r. r\<lparr>denyFlood := deny\<rparr>)"

definition deny_again :: "'d region_device \<Rightarrow> string \<Rightarrow> ('d, bool) step" where
  "deny_again dev n = after (acked dev (RegionDenyf n) isOK (\<lambda>_. set_deny n True)) (\<lambda>_. finish True)"

definition moved_region :: "string \<Rightarrow> string \<Rightarrow> bool option \<Rightarrow> string \<Rightarrow> region_map \<Rightarrow> region_map" where
  "moved_region n p was reply m =
     withRegion m n (\<lambda>r. r\<lparr>rn_parent := p, denyFlood := if flood_allowed reply then False else nullish was True\<rparr>)"

definition onMove :: "'d region_device \<Rightarrow> string \<Rightarrow> string \<Rightarrow> ('d, bool) step" where
  "onMove dev n p =
     act (\<lambda>s. let was = region_was (fst s) n in
       after (acked dev (RegionPut n p) isOK (moved_region n p was)) (\<lambda>r. case r of
          None \<Rightarrow> finish False
        | Some reply \<Rightarrow> if was = Some True \<and> flood_allowed reply then deny_again dev n else finish True) s) False"

definition deny_cmd :: "bool \<Rightarrow> string \<Rightarrow> region_cmd" where
  "deny_cmd deny n = (if deny then RegionDenyf n else RegionAllowf n)"

definition onDeny :: "'d region_device \<Rightarrow> string \<Rightarrow> bool \<Rightarrow> ('d, bool) step" where
  "onDeny dev n deny =
     act (acked_ok dev (deny_cmd deny n) isOK (\<lambda>_. set_deny n deny)) False"

definition removed_region :: "string \<Rightarrow> region_map \<Rightarrow> region_map" where
  "removed_region n m =
     m\<lparr>rm_regions := filter (\<lambda>r. rn_name r \<noteq> n) (rm_regions m),
       rm_home := if rm_home m = n then ''*'' else rm_home m,
       rm_default := if rm_default m = n then [] else rm_default m\<rparr>"

definition onRemove :: "'d region_device \<Rightarrow> string \<Rightarrow> ('d, bool) step" where
  "onRemove dev n = act (acked_ok dev (RegionRemove n) isOK (\<lambda>_. removed_region n)) False"

definition onHome :: "'d region_device \<Rightarrow> string \<Rightarrow> ('d, bool) step" where
  "onHome dev n = act (acked_ok dev (RegionHome n) home_ok (\<lambda>_. rm_home_update (\<lambda>_. n))) False"

definition defaulted :: "string \<Rightarrow> region_map \<Rightarrow> region_map" where
  "defaulted n m = (if n \<noteq> [] then set_deny n False m else m)\<lparr>rm_default := n\<rparr>"

definition onDefault :: "'d region_device \<Rightarrow> string \<Rightarrow> ('d, unit) step" where
  "onDefault dev scope =
     (let n = nullish (regionName (Some scope)) [] in
      act (after (run dev (RegionDefault n) default_ok False) (\<lambda>r s. case r of
         None \<Rightarrow> ((), s)
       | Some _ \<Rightarrow> ((), setUnsaved False ((fst s)\<lparr>rt_map := map_option (defaulted n) (rt_map (fst s))\<rparr>), snd s))) ())"

definition save_regions :: "'d region_device \<Rightarrow> ('d, unit) step" where
  "save_regions dev =
     act (after (run dev RegionSave isOK False) (\<lambda>r s. case r of
        None \<Rightarrow> ((), s)
      | Some _ \<Rightarrow> ((), toasted SuccessToast ''Regions saved on the node'' (setUnsaved False (fst s)), snd s))) ()"

datatype region_act =
    AddRegion string string
  | MoveRegion string string
  | DenyRegion string bool
  | RemoveRegion string
  | HomeRegion string
  | DefaultScope string
  | SaveRegions

fun acted :: "'d region_device \<Rightarrow> region_act \<Rightarrow> regions_tab \<times> 'd \<Rightarrow> regions_tab \<times> 'd" where
  "acted dev (AddRegion n p) s = snd (onAdd dev n p s)"
| "acted dev (MoveRegion n p) s = snd (onMove dev n p s)"
| "acted dev (DenyRegion n deny) s = snd (onDeny dev n deny s)"
| "acted dev (RemoveRegion n) s = snd (onRemove dev n s)"
| "acted dev (HomeRegion n) s = snd (onHome dev n s)"
| "acted dev (DefaultScope v) s = snd (onDefault dev v s)"
| "acted dev SaveRegions s = snd (save_regions dev s)"

section \<open>What a node does\<close>

text \<open>The node's regions by their bare names, with the parent and whether flood is denied.\<close>

record node_regions =
  nr_map :: "string \<rightharpoonup> string \<times> bool"
  nr_home :: string
  nr_default :: string

fun accepted :: "region_cmd \<Rightarrow> string \<Rightarrow> bool" where
  "accepted (RegionGet n) r \<longleftrightarrow> True"
| "accepted (RegionHome n) r \<longleftrightarrow> home_ok r"
| "accepted (RegionDefault n) r \<longleftrightarrow> default_ok r"
| "accepted _ r \<longleftrightarrow> isOK r"

definition node_deny :: "string \<Rightarrow> bool \<Rightarrow> node_regions \<Rightarrow> node_regions" where
  "node_deny n deny w =
     (case nr_map w (bare n) of Some (p, _) \<Rightarrow> w\<lparr>nr_map := (nr_map w)(bare n \<mapsto> (p, deny))\<rparr> | None \<Rightarrow> w)"

fun applied :: "region_cmd \<Rightarrow> string \<Rightarrow> node_regions \<Rightarrow> node_regions" where
  "applied (RegionGet n) r w = w"
| "applied (RegionPut n p) r w =
     w\<lparr>nr_map := (nr_map w)(bare n \<mapsto> (p, if flood_allowed r then False
         else case nr_map w (bare n) of Some (_, deny) \<Rightarrow> deny | None \<Rightarrow> True))\<rparr>"
| "applied (RegionDenyf n) r w = node_deny n True w"
| "applied (RegionAllowf n) r w = node_deny n False w"
| "applied (RegionRemove n) r w =
     w\<lparr>nr_map := (nr_map w)(bare n := None), nr_home := if nr_home w = bare n then ''*'' else nr_home w,
       nr_default := if nr_default w = bare n then [] else nr_default w\<rparr>"
| "applied (RegionHome n) r w = w\<lparr>nr_home := n\<rparr>"
| "applied (RegionDefault n) r w = (if n = [] then w else node_deny n False w)\<lparr>nr_default := n\<rparr>"
| "applied RegionSave r w = w"

fun writes_flash :: "region_cmd \<Rightarrow> bool" where
  "writes_flash RegionSave \<longleftrightarrow> True"
| "writes_flash (RegionDefault n) \<longleftrightarrow> True"
| "writes_flash _ \<longleftrightarrow> False"

text \<open>What one command does to its memory and its flash: acknowledged it took effect, refused it did not; one that was never
  answered may have done anything, unless it only reads. A region the node holds is found by its name.\<close>

fun node_step :: "node_regions \<times> node_regions \<Rightarrow> region_cmd \<Rightarrow> cli_reply \<Rightarrow> node_regions \<times> node_regions \<Rightarrow> bool" where
  "node_step (m, f) c (CliReply reply) (m', f') \<longleftrightarrow>
     (if accepted c (trim reply)
      then m' = applied c (trim reply) m \<and> f' = (if writes_flash c then m' else f)
      else m' = m \<and> f' = f)
     \<and> (case c of RegionGet n \<Rightarrow> nr_map m (bare n) \<noteq> None \<longrightarrow> found_on_node n (trim reply) | _ \<Rightarrow> True)"
| "node_step (m, f) c (CliFailed status _) (m', f') \<longleftrightarrow>
     ((case c of RegionGet _ \<Rightarrow> True | _ \<Rightarrow> \<not> in_doubt status) \<longrightarrow> m' = m \<and> f' = f)"

definition node_does :: "'d region_device \<Rightarrow> ('d \<Rightarrow> node_regions) \<Rightarrow> ('d \<Rightarrow> node_regions) \<Rightarrow> bool" where
  "node_does dev mem flash \<longleftrightarrow>
     (\<forall>d c. node_step (mem d, flash d) c (fst (dev d c)) (mem (snd (dev d c)), flash (snd (dev d c))))"

definition always_answers :: "'d region_device \<Rightarrow> bool" where
  "always_answers dev \<longleftrightarrow> (\<forall>d c. case fst (dev d c) of CliFailed status _ \<Rightarrow> \<not> in_doubt status | CliReply _ \<Rightarrow> True)"

section \<open>The list on screen\<close>

definition region_row :: "editable_region \<Rightarrow> string \<times> (string \<times> bool)" where
  "region_row r = (rn_name r, (rn_parent r, denyFlood r))"

definition listed :: "region_map \<Rightarrow> string \<rightharpoonup> string \<times> bool" where
  "listed m = map_of (map region_row (rm_regions m))"

definition seen :: "region_map \<Rightarrow> node_regions \<Rightarrow> bool" where
  "seen m w \<longleftrightarrow>
     (\<forall>n\<in>dom (listed m). bare n = n)
     \<and> (if rm_partial m then listed m \<subseteq>\<^sub>m nr_map w else listed m = nr_map w)
     \<and> rm_home m = nr_home w \<and> rm_default m = nr_default w"

definition on_screen :: "regions_tab \<Rightarrow> node_regions \<Rightarrow> bool" where
  "on_screen st w \<longleftrightarrow> (case rt_map st of None \<Rightarrow> False | Some m \<Rightarrow> seen m w)"

fun offered :: "regions_tab \<Rightarrow> region_act \<Rightarrow> bool" where  \<comment> \<open>what the editor lets the user do\<close>
  "offered st (AddRegion n p) =
     (case rt_map st of None \<Rightarrow> False | Some m \<Rightarrow> bare n \<notin> dom (listed m) \<and> bare (bare n) = bare n)"
| "offered st (MoveRegion n p) = (case rt_map st of None \<Rightarrow> False | Some m \<Rightarrow> n \<in> dom (listed m))"
| "offered st (DenyRegion n d) = (case rt_map st of None \<Rightarrow> False | Some m \<Rightarrow> n \<in> dom (listed m))"
| "offered st (RemoveRegion n) = (case rt_map st of None \<Rightarrow> False | Some m \<Rightarrow> n \<in> dom (listed m))"
| "offered st (HomeRegion n) = (rt_map st \<noteq> None)"
| "offered st (DefaultScope v) =
     (case rt_map st of None \<Rightarrow> False
      | Some m \<Rightarrow> (case regionName (Some v) of None \<Rightarrow> True | Some n \<Rightarrow> n \<in> dom (listed m)))"
| "offered st SaveRegions = save_offered st"

fun offered_all :: "'d region_device \<Rightarrow> region_act list \<Rightarrow> regions_tab \<times> 'd \<Rightarrow> bool" where
  "offered_all dev [] s \<longleftrightarrow> True"
| "offered_all dev (a # acts) s \<longleftrightarrow> offered (fst s) a \<and> offered_all dev acts (acted dev a s)"

section \<open>The mark for unsaved changes\<close>

definition marked :: "('d \<Rightarrow> node_regions) \<Rightarrow> ('d \<Rightarrow> node_regions) \<Rightarrow> regions_tab \<times> 'd \<Rightarrow> bool" where
  "marked mem flash s \<longleftrightarrow> \<not> rt_unsaved (fst s) \<longrightarrow> mem (snd s) = flash (snd s)"

lemma tab_fields [simp]:
  "rt_map (setUnsaved v st) = rt_map st" "rt_busy (setUnsaved v st) = rt_busy st" "rt_unsaved (setUnsaved v st) = v"
  "rt_map (toasted k t st) = rt_map st" "rt_busy (toasted k t st) = rt_busy st" "rt_unsaved (toasted k t st) = rt_unsaved st"
  "rt_map (change f st) = map_option f (rt_map st)" "rt_busy (change f st) = rt_busy st" "rt_unsaved (change f st) = True"
  by (simp_all add: setUnsaved_def toasted_def change_def)

lemma failed_fields [simp]:
  "rt_map (run_failed c rd status msg st) = rt_map st" "rt_busy (run_failed c rd status msg st) = rt_busy st"
  "rt_unsaved (run_failed c rd status msg st) \<longleftrightarrow> (in_doubt status \<and> \<not> rd) \<or> rt_unsaved st"
  by (simp_all add: run_failed_def)

text \<open>What the programs keep and reach, composed command by command: \<open>reaches P m Q\<close> says that \<open>m\<close>,
  started where \<open>P\<close> holds, ends with a value and a state for which \<open>Q\<close> holds.\<close>

definition reaches :: "(regions_tab \<times> 'd \<Rightarrow> bool) \<Rightarrow> ('d, 'a) step \<Rightarrow> ('a \<Rightarrow> regions_tab \<times> 'd \<Rightarrow> bool) \<Rightarrow> bool" where
  "reaches P m Q \<longleftrightarrow> (\<forall>s x s'. P s \<longrightarrow> m s = (x, s') \<longrightarrow> Q x s')"

lemma reachesI: "(\<And>st d x st' d'. P (st, d) \<Longrightarrow> m (st, d) = (x, (st', d')) \<Longrightarrow> Q x (st', d')) \<Longrightarrow> reaches P m Q"
  unfolding reaches_def by (metis prod.collapse)

lemma reachesD: "reaches P m Q \<Longrightarrow> P s \<Longrightarrow> m s = (x, s') \<Longrightarrow> Q x s'"
  unfolding reaches_def by blast

lemma reaches_after: "reaches P p R \<Longrightarrow> (\<And>x. reaches (R x) (f x) Q) \<Longrightarrow> reaches P (after p f) Q"
  unfolding reaches_def after_def by (metis case_prod_conv surj_pair)

lemma reaches_finish: "(\<And>s. P s \<Longrightarrow> Q x s) \<Longrightarrow> reaches P (finish x) Q"
  by (simp add: reaches_def finish_def)

lemma reaches_put: "(\<And>st d. P (st, d) \<Longrightarrow> Q () (change f st, d)) \<Longrightarrow> reaches P (put_change f) Q"
  by (auto simp: reaches_def put_change_def)

lemma reaches_put_finish:
  "(\<And>st d. P (st, d) \<Longrightarrow> Q y (change f st, d)) \<Longrightarrow> reaches P (after (put_change f) (\<lambda>_. finish y)) Q"
  by (auto simp: reaches_def after_def put_change_def finish_def)

lemma reaches_if:
  "reaches P m Q \<Longrightarrow> reaches P m' Q \<Longrightarrow> reaches P (\<lambda>s. if b s then m s else m' s) Q"
  unfolding reaches_def by simp

lemma reaches_from: "(\<And>s. P s \<Longrightarrow> reaches (\<lambda>s'. s' = s) (f s) Q) \<Longrightarrow> reaches P (\<lambda>s. f s s) Q"
  unfolding reaches_def by blast

lemma reaches_weaken: "reaches P m Q \<Longrightarrow> (\<And>s. P' s \<Longrightarrow> P s) \<Longrightarrow> (\<And>x s. Q x s \<Longrightarrow> Q' x s) \<Longrightarrow> reaches P' m Q'"
  unfolding reaches_def by blast

lemma reaches_act:
  assumes "reaches P fn (\<lambda>_. Q)" "\<And>st d. P (st, d) \<Longrightarrow> P (st\<lparr>rt_busy := True\<rparr>, d)"
    and "\<And>st d. Q (st, d) \<Longrightarrow> Q (st\<lparr>rt_busy := False\<rparr>, d)" "P s" "Q s"
  shows "Q (snd (act fn idle s))"
proof (cases "rt_busy (fst s)")
  case False
  obtain x st d where r: "fn ((fst s)\<lparr>rt_busy := True\<rparr>, snd s) = (x, (st, d))" by (metis prod.collapse)
  have "P ((fst s)\<lparr>rt_busy := True\<rparr>, snd s)" using assms(2,4) by (metis prod.collapse)
  from reachesD [OF assms(1) this r] assms(3) False r show ?thesis by (simp add: act_def)
qed (use assms(5) in \<open>simp add: act_def\<close>)

text \<open>What one command comes to: it is given up, with the tab marked if it is in doubt, or it took
  effect.\<close>

lemma reaches_run:
  assumes does: "node_does dev mem flash" and ok: "\<And>r. ok r \<longleftrightarrow> accepted c r" and c: "\<And>n. c \<noteq> RegionGet n"
    and given_up: "\<And>st d st' d'. P (st, d) \<Longrightarrow> rt_map st' = rt_map st
      \<Longrightarrow> (rt_unsaved st' = rt_unsaved st \<and> mem d' = mem d \<and> flash d' = flash d) \<or> (rt_unsaved st' \<and> \<not> always_answers dev)
      \<Longrightarrow> Q None (st', d')"
    and took: "\<And>st d d' reply. P (st, d) \<Longrightarrow> accepted c reply \<Longrightarrow> mem d' = applied c reply (mem d)
      \<Longrightarrow> flash d' = (if writes_flash c then mem d' else flash d) \<Longrightarrow> Q (Some reply) (st, d')"
  shows "reaches P (run dev c ok False) Q"
proof (rule reachesI)
  fix st d x st' d'
  assume p: "P (st, d)" and r: "run dev c ok False (st, d) = (x, (st', d'))"
  obtain answer d1 where a: "dev d c = (answer, d1)" by (cases "dev d c")
  have "node_step (mem d, flash d) c (fst (dev d c)) (mem (snd (dev d c)), flash (snd (dev d c)))"
    using does unfolding node_does_def by blast
  then have st: "node_step (mem d, flash d) c answer (mem d1, flash d1)" unfolding a by simp
  show "Q x (st', d')"
  proof (cases answer)
    case (CliReply reply)
    show ?thesis
    proof (cases "accepted c (trim reply)")
      case True
      with r a CliReply ok have "x = Some (trim reply)" "st' = st" "d' = d1" by (simp_all add: run_def)
      moreover have "mem d1 = applied c (trim reply) (mem d)" "flash d1 = (if writes_flash c then mem d1 else flash d)"
        using st CliReply True by simp_all
      ultimately show ?thesis using took [OF p True] by blast
    next
      case False
      with r a CliReply ok have x: "x = None" "d' = d1" "rt_map st' = rt_map st" "rt_unsaved st' = rt_unsaved st" by (auto simp: run_def)
      moreover have "mem d1 = mem d" "flash d1 = flash d" using st CliReply False by simp_all
      ultimately show ?thesis using given_up [OF p x(3)] by blast
    qed
  next
    case (CliFailed status msg)
    with r a have x: "x = None" "d' = d1" "st' = run_failed c False status msg st" by (simp_all add: run_def)
    have m: "rt_map st' = rt_map st" using x(3) by simp
    have g: "(case c of RegionGet _ \<Rightarrow> True | _ \<Rightarrow> \<not> in_doubt status) = (\<not> in_doubt status)"
      using c by (cases c) auto
    show ?thesis
    proof (cases "in_doubt status")
      case True
      then have "\<not> always_answers dev" using a CliFailed unfolding always_answers_def by (metis cli_reply.simps(6) fst_conv)
      moreover have "rt_unsaved st'" using x(3) True by simp
      ultimately show ?thesis using given_up [OF p m] x by blast
    next
      case False
      moreover have "rt_unsaved st' = rt_unsaved st" using x(3) False by simp
      moreover have "mem d1 = mem d" "flash d1 = flash d" using st CliFailed g False by simp_all
      ultimately show ?thesis using given_up [OF p m] x by blast
    qed
  qed
qed

lemma reaches_get:
  assumes does: "node_does dev mem flash"
    and given_up: "\<And>st d st' d'. P (st, d) \<Longrightarrow> rt_map st' = rt_map st \<Longrightarrow> rt_unsaved st' = rt_unsaved st
      \<Longrightarrow> mem d' = mem d \<Longrightarrow> flash d' = flash d \<Longrightarrow> Q None (st', d')"
    and told: "\<And>st d d' got. P (st, d) \<Longrightarrow> mem d' = mem d \<Longrightarrow> flash d' = flash d
      \<Longrightarrow> (nr_map (mem d) (bare n) \<noteq> None \<longrightarrow> found_on_node n got) \<Longrightarrow> Q (Some got) (st, d')"
  shows "reaches P (run dev (RegionGet n) (\<lambda>_. True) True) Q"
proof (rule reachesI)
  fix st d x st' d'
  assume p: "P (st, d)" and r: "run dev (RegionGet n) (\<lambda>_. True) True (st, d) = (x, (st', d'))"
  obtain answer d1 where a: "dev d (RegionGet n) = (answer, d1)" by (cases "dev d (RegionGet n)")
  have "node_step (mem d, flash d) (RegionGet n) (fst (dev d (RegionGet n))) (mem (snd (dev d (RegionGet n))), flash (snd (dev d (RegionGet n))))"
    using does unfolding node_does_def by blast
  then have st: "node_step (mem d, flash d) (RegionGet n) answer (mem d1, flash d1)" unfolding a by simp
  show "Q x (st', d')"
  proof (cases answer)
    case (CliReply reply)
    with r a have "x = Some (trim reply)" "st' = st" "d' = d1" by (simp_all add: run_def)
    moreover have "mem d1 = mem d" "flash d1 = flash d" "nr_map (mem d) (bare n) \<noteq> None \<longrightarrow> found_on_node n (trim reply)"
      using st CliReply by simp_all
    ultimately show ?thesis using told [OF p] by blast
  next
    case (CliFailed status msg)
    with r a have x: "x = None" "d' = d1" "st' = run_failed (RegionGet n) True status msg st" by (simp_all add: run_def)
    then have "rt_map st' = rt_map st" "rt_unsaved st' = rt_unsaved st" by simp_all
    moreover have "mem d1 = mem d" "flash d1 = flash d" using st CliFailed by simp_all
    ultimately show ?thesis using given_up [OF p] x by blast
  qed
qed

lemma reaches_acked:
  assumes "node_does dev mem flash" "\<And>r. ok r \<longleftrightarrow> accepted c r" "\<And>n. c \<noteq> RegionGet n" "\<not> writes_flash c"
    and "\<And>st d st' d'. P (st, d) \<Longrightarrow> rt_map st' = rt_map st
      \<Longrightarrow> (rt_unsaved st' = rt_unsaved st \<and> mem d' = mem d \<and> flash d' = flash d) \<or> (rt_unsaved st' \<and> \<not> always_answers dev)
      \<Longrightarrow> Q None (st', d')"
    and "\<And>st d d' reply. P (st, d) \<Longrightarrow> accepted c reply \<Longrightarrow> mem d' = applied c reply (mem d) \<Longrightarrow> flash d' = flash d
      \<Longrightarrow> Q (Some reply) (change (f reply) st, d')"
  shows "reaches P (acked dev c ok f) Q"
proof -
  let ?R = "\<lambda>r s. case r of None \<Rightarrow> Q None s | Some reply \<Rightarrow> Q (Some reply) (change (f reply) (fst s), snd s)"
  have "reaches P (run dev c ok False) ?R"
    by (rule reaches_run [OF assms(1-3)]) (simp_all add: assms(4-6))
  moreover have "reaches (?R r) (case r of None \<Rightarrow> finish None
      | Some reply \<Rightarrow> after (put_change (f reply)) (\<lambda>_. finish (Some reply))) Q" for r
    by (cases r) (simp add: reaches_finish, simp, rule reaches_put_finish, simp)
  ultimately show ?thesis unfolding acked_def by (rule reaches_after)
qed

lemma reaches_acked_ok:
  "reaches P (acked dev c ok f) (\<lambda>_. Q) \<Longrightarrow> reaches P (acked_ok dev c ok f) (\<lambda>_. Q)"
  unfolding acked_ok_def by (rule reaches_after, assumption) (simp add: reaches_finish)

section \<open>The mark for unsaved changes is never missing\<close>

lemma marked_acked:
  assumes "node_does dev mem flash" "\<And>r. ok r \<longleftrightarrow> accepted c r" "\<And>n. c \<noteq> RegionGet n" "\<not> writes_flash c"
  shows "reaches (marked mem flash) (acked dev c ok f) (\<lambda>_. marked mem flash)"
  by (rule reaches_acked [OF assms]) (auto simp: marked_def)

lemma marked_busy: "marked mem flash (st, d) \<Longrightarrow> marked mem flash (st\<lparr>rt_busy := b\<rparr>, d)"
  by (simp add: marked_def)

lemma marked_act:
  "reaches (marked mem flash) fn (\<lambda>_. marked mem flash) \<Longrightarrow> marked mem flash s \<Longrightarrow> marked mem flash (snd (act fn idle s))"
  by (rule reaches_act [where P = "marked mem flash" and Q = "marked mem flash"]) (simp_all add: marked_busy)

lemma deny_cmd_does [simp]:
  "accepted (deny_cmd deny n) r = isOK r" "deny_cmd deny n \<noteq> RegionGet k" "\<not> writes_flash (deny_cmd deny n)"
  "applied (deny_cmd deny n) r w = node_deny n deny w"
  by (simp_all add: deny_cmd_def)

lemma marked_acted:
  assumes does: "node_does dev mem flash" and m: "marked mem flash s"
  shows "marked mem flash (acted dev a s)"
proof (cases a)
  case (AddRegion n p)
  have new: "reaches (marked mem flash) (put_new dev n p) (\<lambda>_. marked mem flash)"
    unfolding put_new_def by (intro reaches_acked_ok marked_acked [OF does]) simp_all
  have told: "reaches (marked mem flash) (already_toast n) (\<lambda>_. marked mem flash)"
    by (auto simp: reaches_def already_toast_def marked_def)
  have "reaches (marked mem flash) (run dev (RegionGet n) (\<lambda>_. True) True) (\<lambda>_. marked mem flash)"
    by (rule reaches_get [OF does]) (simp_all add: marked_def)
  moreover have "reaches (marked mem flash) (case r of None \<Rightarrow> finish False
      | Some got \<Rightarrow> if found_on_node n got then already_toast n else put_new dev n p) (\<lambda>_. marked mem flash)" for r
    using new told by (cases r) (simp_all add: reaches_finish)
  ultimately have "reaches (marked mem flash) (put_if_new dev n p) (\<lambda>_. marked mem flash)"
    unfolding put_if_new_def by (rule reaches_after)
  with new show ?thesis unfolding AddRegion acted.simps onAdd_def
    by (intro marked_act [OF _ m] reaches_if)
next
  case (MoveRegion n p)
  have "reaches (marked mem flash) (deny_again dev n) (\<lambda>_. marked mem flash)"
    unfolding deny_again_def by (rule reaches_after [OF marked_acked [OF does]]) (simp_all add: reaches_finish)
  then have "reaches (marked mem flash) (after (acked dev (RegionPut n p) isOK (moved_region n p was)) (\<lambda>r. case r of
       None \<Rightarrow> finish False
     | Some reply \<Rightarrow> if was = Some True \<and> flood_allowed reply then deny_again dev n else finish True)) (\<lambda>_. marked mem flash)" for was
    by (intro reaches_after [OF marked_acked [OF does]]) (auto simp: reaches_finish split: option.split)
  then have "reaches (marked mem flash) (\<lambda>s. after (acked dev (RegionPut n p) isOK (moved_region n p (region_was (fst s) n)))
     (\<lambda>r. case r of None \<Rightarrow> finish False
        | Some reply \<Rightarrow> if region_was (fst s) n = Some True \<and> flood_allowed reply then deny_again dev n else finish True) s)
     (\<lambda>_. marked mem flash)" unfolding reaches_def by blast
  then show ?thesis unfolding MoveRegion acted.simps onMove_def Let_def by (rule marked_act [OF _ m])
next
  case (DefaultScope v)
  let ?n = "nullish (regionName (Some v)) []"
  have "reaches (marked mem flash) (run dev (RegionDefault ?n) default_ok False)
      (\<lambda>r s. if r = None then marked mem flash s else mem (snd s) = flash (snd s))"
    by (rule reaches_run [OF does]) (auto simp: marked_def)
  then have "reaches (marked mem flash) (after (run dev (RegionDefault ?n) default_ok False) (\<lambda>r s. case r of
       None \<Rightarrow> ((), s)
     | Some _ \<Rightarrow> ((), setUnsaved False ((fst s)\<lparr>rt_map := map_option (defaulted ?n) (rt_map (fst s))\<rparr>), snd s))) (\<lambda>_. marked mem flash)"
    by (rule reaches_after) (auto simp: reaches_def marked_def split: option.split)
  then show ?thesis unfolding DefaultScope acted.simps onDefault_def Let_def by (rule marked_act [OF _ m])
next
  case SaveRegions
  have "reaches (marked mem flash) (run dev RegionSave isOK False)
      (\<lambda>r s. if r = None then marked mem flash s else mem (snd s) = flash (snd s))"
    by (rule reaches_run [OF does]) (auto simp: marked_def)
  then have "reaches (marked mem flash) (after (run dev RegionSave isOK False) (\<lambda>r s. case r of
       None \<Rightarrow> ((), s)
     | Some _ \<Rightarrow> ((), toasted SuccessToast ''Regions saved on the node'' (setUnsaved False (fst s)), snd s))) (\<lambda>_. marked mem flash)"
    by (rule reaches_after) (auto simp: reaches_def marked_def split: option.split)
  then show ?thesis unfolding SaveRegions acted.simps save_regions_def by (rule marked_act [OF _ m])
next
  case (DenyRegion n deny)
  show ?thesis unfolding DenyRegion acted.simps onDeny_def
    by (intro marked_act [OF _ m] reaches_acked_ok marked_acked [OF does]) simp_all
next
  case (RemoveRegion n)
  show ?thesis unfolding RemoveRegion acted.simps onRemove_def
    by (intro marked_act [OF _ m] reaches_acked_ok marked_acked [OF does]) simp_all
next
  case (HomeRegion n)
  show ?thesis unfolding HomeRegion acted.simps onHome_def
    by (intro marked_act [OF _ m] reaches_acked_ok marked_acked [OF does]) simp_all
qed

section \<open>The list on screen is the node's\<close>

lemma row_simps [simp]: "fst (region_row r) = rn_name r" "snd (region_row r) = (rn_parent r, denyFlood r)"
  by (simp_all add: region_row_def)

lemma map_of_rows_edit:
  assumes "\<And>r. rn_name (e r) = rn_name r"
  shows "map_of (map region_row (map (\<lambda>r. if rn_name r = n then e r else r) rs)) k =
    (if k = n then map_option (\<lambda>r. snd (region_row (e r))) (find (\<lambda>r. rn_name r = n) rs) else map_of (map region_row rs) k)"
  using assms by (induction rs) auto

lemma map_of_rows: "map_of (map region_row rs) n = map_option (\<lambda>r. (rn_parent r, denyFlood r)) (find (\<lambda>r. rn_name r = n) rs)"
  by (induction rs) auto

lemma was_listed: "rt_map st = Some m \<Longrightarrow> region_was st n = map_option snd (listed m n)"
  by (simp add: region_was_def listed_def map_of_rows option.map_comp comp_def)

lemma listed_set_deny:
  "listed (set_deny n deny m) = (case listed m n of Some (p, _) \<Rightarrow> (listed m)(n \<mapsto> (p, deny)) | None \<Rightarrow> listed m)"
proof
  fix k
  have "listed (set_deny n deny m) k =
    (if k = n then map_option (\<lambda>r. (rn_parent r, deny)) (find (\<lambda>r. rn_name r = n) (rm_regions m)) else listed m k)"
    by (simp add: listed_def set_deny_def withRegion_def map_of_rows_edit del: map_map)
  then show "listed (set_deny n deny m) k = (case listed m n of Some (p, _) \<Rightarrow> (listed m)(n \<mapsto> (p, deny)) | None \<Rightarrow> listed m) k"
    by (cases "find (\<lambda>r. rn_name r = n) (rm_regions m)") (simp_all add: listed_def map_of_rows)
qed

lemma listed_moved:
  "listed (moved_region n p was reply m) =
     (case listed m n of Some _ \<Rightarrow> (listed m)(n \<mapsto> (p, if flood_allowed reply then False else nullish was True)) | None \<Rightarrow> listed m)"
proof
  fix k
  have "listed (moved_region n p was reply m) k =
    (if k = n then map_option (\<lambda>r. (p, if flood_allowed reply then False else nullish was True)) (find (\<lambda>r. rn_name r = n) (rm_regions m))
     else listed m k)"
    by (simp add: listed_def moved_region_def withRegion_def map_of_rows_edit del: map_map)
  then show "listed (moved_region n p was reply m) k =
     (case listed m n of Some _ \<Rightarrow> (listed m)(n \<mapsto> (p, if flood_allowed reply then False else nullish was True)) | None \<Rightarrow> listed m) k"
    by (cases "find (\<lambda>r. rn_name r = n) (rm_regions m)") (simp_all add: listed_def map_of_rows)
qed

lemma listed_removed: "listed (removed_region n m) = (listed m)(n := None)"
proof -
  have "map_of (map region_row (filter (\<lambda>r. rn_name r \<noteq> n) rs)) k = (if k = n then None else map_of (map region_row rs) k)" for rs k
    by (induction rs) auto
  then show ?thesis by (auto simp: listed_def removed_region_def)
qed

lemma listed_added:
  "bare n \<notin> dom (listed m) \<Longrightarrow> listed (added_region n p reply m) = (listed m)(bare n \<mapsto> (p, \<not> flood_allowed reply))"
  by (rule ext) (auto simp: listed_def added_region_def map_add_def dom_def split: option.split)

lemma map_fields [simp]:
  "rm_home (set_deny n deny m) = rm_home m" "rm_default (set_deny n deny m) = rm_default m" "rm_partial (set_deny n deny m) = rm_partial m"
  "rm_home (moved_region n p was r m) = rm_home m" "rm_default (moved_region n p was r m) = rm_default m" "rm_partial (moved_region n p was r m) = rm_partial m"
  "rm_home (added_region n p r m) = rm_home m" "rm_default (added_region n p r m) = rm_default m" "rm_partial (added_region n p r m) = rm_partial m"
  "rm_partial (removed_region n m) = rm_partial m"
  "rm_home (removed_region n m) = (if rm_home m = n then ''*'' else rm_home m)"
  "rm_default (removed_region n m) = (if rm_default m = n then [] else rm_default m)"
  by (simp_all add: set_deny_def withRegion_def moved_region_def added_region_def removed_region_def)

lemma listed_fields [simp]: "listed (m\<lparr>rm_home := h\<rparr>) = listed m" "listed (m\<lparr>rm_default := d\<rparr>) = listed m"
  by (simp_all add: listed_def)

lemma map_le_upd: "f \<subseteq>\<^sub>m g \<Longrightarrow> f(n := v) \<subseteq>\<^sub>m g(n := v)"
  by (auto simp: map_le_def)

lemma seen_at: "seen m w \<Longrightarrow> listed m n = Some v \<Longrightarrow> nr_map w n = Some v \<and> bare n = n"
  by (auto simp: seen_def map_le_def dom_def split: if_splits)

lemma seen_upd:
  assumes "seen m w" "listed m' = (listed m)(n := v)" "nr_map w' = (nr_map w)(n := v)" "bare n = n"
    and "rm_partial m' = rm_partial m" "rm_home m' = nr_home w'" "rm_default m' = nr_default w'"
  shows "seen m' w'"
  using assms map_le_upd [of "listed m" "nr_map w" n v] by (auto simp: seen_def)

text \<open>Each acknowledged command changes the list as it changed the node.\<close>

lemma seen_deny:
  assumes "seen m w" "n \<in> dom (listed m)"
  shows "seen (set_deny n deny m) (node_deny n deny w)"
proof -
  obtain p d where l: "listed m n = Some (p, d)" using assms(2) by auto
  note at = seen_at [OF assms(1) l]
  show ?thesis using assms(1) at l
    by (intro seen_upd [OF assms(1)]) (auto simp: listed_set_deny node_deny_def seen_def)
qed

lemma seen_put_new:
  assumes "seen m w" "bare n \<notin> dom (listed m)" "bare (bare n) = bare n" "nr_map w (bare n) = None"
  shows "seen (added_region n p reply m) (applied (RegionPut n p) reply w)"
  using assms by (intro seen_upd [OF assms(1) listed_added]) (auto simp: seen_def)

lemma seen_moved:
  assumes "seen m w" "rt_map st = Some m" "n \<in> dom (listed m)"
  shows "seen (moved_region n p (region_was st n) reply m) (applied (RegionPut n p) reply w)"
proof -
  obtain q d where l: "listed m n = Some (q, d)" using assms(3) by auto
  note at = seen_at [OF assms(1) l]
  show ?thesis using assms(1) at l
    by (intro seen_upd [OF assms(1)]) (auto simp: listed_moved was_listed [OF assms(2)] nullish_def seen_def)
qed

lemma seen_removed:
  assumes "seen m w" "n \<in> dom (listed m)"
  shows "seen (removed_region n m) (applied (RegionRemove n) reply w)"
proof -
  obtain q d where l: "listed m n = Some (q, d)" using assms(2) by auto
  note at = seen_at [OF assms(1) l]
  show ?thesis using assms(1) at
    by (intro seen_upd [OF assms(1)]) (auto simp: listed_removed seen_def)
qed

definition stands :: "('d \<Rightarrow> node_regions) \<Rightarrow> region_map \<Rightarrow> node_regions \<Rightarrow> regions_tab \<times> 'd \<Rightarrow> bool" where
  "stands mem m w s \<longleftrightarrow> rt_map (fst s) = Some m \<and> mem (snd s) = w"

definition in_view :: "('d \<Rightarrow> node_regions) \<Rightarrow> regions_tab \<times> 'd \<Rightarrow> bool" where
  "in_view mem s \<longleftrightarrow> on_screen (fst s) (mem (snd s))"

lemma stands_in_view: "stands mem m w s \<Longrightarrow> seen m w \<Longrightarrow> in_view mem s"
  by (simp add: stands_def in_view_def on_screen_def)

lemma in_view_stands: "in_view mem s \<Longrightarrow> \<exists>m. stands mem m (mem (snd s)) s \<and> seen m (mem (snd s))"
  by (auto simp: stands_def in_view_def on_screen_def split: option.splits)

lemma stands_act:
  assumes "reaches (stands mem m w) fn (\<lambda>_. in_view mem)" "stands mem m w s" "seen m w"
  shows "in_view mem (snd (act fn idle s))"
  by (rule reaches_act [where P = "stands mem m w" and Q = "in_view mem", OF assms(1)])
     (use assms(2,3) in \<open>simp_all add: stands_in_view\<close>, simp_all add: stands_def in_view_def on_screen_def)

lemma stands_acked:
  assumes "node_does dev mem flash" "\<And>r. ok r \<longleftrightarrow> accepted c r" "\<And>n. c \<noteq> RegionGet n" "\<not> writes_flash c" "always_answers dev"
  shows "reaches (stands mem m w) (acked dev c ok f)
    (\<lambda>r. case r of None \<Rightarrow> stands mem m w | Some reply \<Rightarrow> stands mem (f reply m) (applied c reply w))"
  by (rule reaches_acked [OF assms(1-4)]) (use assms(5) in \<open>auto simp: stands_def\<close>)

lemma stands_acked_ok:
  assumes "node_does dev mem flash" "\<And>r. ok r \<longleftrightarrow> accepted c r" "\<And>n. c \<noteq> RegionGet n" "\<not> writes_flash c" "always_answers dev"
    and "seen m w" "\<And>reply. seen (f reply m) (applied c reply w)"
  shows "reaches (stands mem m w) (acked_ok dev c ok f) (\<lambda>_. in_view mem)"
  by (rule reaches_acked_ok, rule reaches_weaken [OF stands_acked [OF assms(1-5)]])
     (auto intro: stands_in_view assms(6,7) split: option.splits)

lemma in_view_add:
  assumes does: "node_does dev mem flash" and answers: "always_answers dev" and m: "stands mem m w s" and see: "seen m w"
    and o: "offered (fst s) (AddRegion n p)"
  shows "in_view mem (acted dev (AddRegion n p) s)"
proof -
  have rt: "rt_map (fst s) = Some m" using m by (simp add: stands_def)
  note ok = stands_acked_ok [OF does _ _ _ answers see]
  have new: "bare n \<notin> dom (listed m)" "bare (bare n) = bare n" using o rt by auto
  have put: "reaches (stands mem m w) (put_new dev n p) (\<lambda>_. in_view mem)" if "nr_map w (bare n) = None"
    unfolding put_new_def by (rule ok) (simp_all add: seen_put_new [OF see new that] del: applied.simps)
  show ?thesis
  proof (cases "rm_partial m")
    case False
    then have "nr_map w (bare n) = None" using see new(1) by (auto simp: seen_def)
    from put [OF this] have "reaches (stands mem m w) (\<lambda>s. if partly_listed (fst s) then put_if_new dev n p s else put_new dev n p s) (\<lambda>_. in_view mem)"
      using False unfolding reaches_def stands_def partly_listed_def by auto
    then show ?thesis unfolding acted.simps onAdd_def by (rule stands_act [OF _ m see])
  next
    case True
    have "reaches (stands mem m w) (run dev (RegionGet n) (\<lambda>_. True) True)
        (\<lambda>r s. stands mem m w s \<and> (\<forall>got. r = Some got \<longrightarrow> nr_map w (bare n) \<noteq> None \<longrightarrow> found_on_node n got))"
      by (rule reaches_get [OF does]) (auto simp: stands_def)
    then have "reaches (stands mem m w) (put_if_new dev n p) (\<lambda>_. in_view mem)"
      unfolding put_if_new_def
    proof (rule reaches_after)
      fix r
      have told: "reaches (stands mem m w) (already_toast n) (\<lambda>_. in_view mem)"
        using see by (auto simp: reaches_def already_toast_def stands_def in_view_def on_screen_def)
      show "reaches (\<lambda>s. stands mem m w s \<and> (\<forall>got. r = Some got \<longrightarrow> nr_map w (bare n) \<noteq> None \<longrightarrow> found_on_node n got))
        (case r of None \<Rightarrow> finish False | Some got \<Rightarrow> if found_on_node n got then already_toast n else put_new dev n p) (\<lambda>_. in_view mem)"
      proof (cases r)
        case None
        then show ?thesis by (simp add: reaches_finish stands_in_view [OF _ see])
      next
        case (Some got)
        then show ?thesis using told put
          by (cases "found_on_node n got"; cases "nr_map w (bare n) = None") (auto simp: reaches_def)
      qed
    qed
    then have "reaches (stands mem m w) (\<lambda>s. if partly_listed (fst s) then put_if_new dev n p s else put_new dev n p s) (\<lambda>_. in_view mem)"
      using True unfolding reaches_def stands_def partly_listed_def by auto
    then show ?thesis unfolding acted.simps onAdd_def by (rule stands_act [OF _ m see])
  qed
qed

lemma in_view_default:
  assumes does: "node_does dev mem flash" and answers: "always_answers dev" and m: "stands mem m w s" and see: "seen m w"
    and o: "offered (fst s) (DefaultScope v)"
  shows "in_view mem (acted dev (DefaultScope v) s)"
proof -
  have rt: "rt_map (fst s) = Some m" using m by (simp add: stands_def)
  let ?n = "nullish (regionName (Some v)) []"
  have n: "?n = [] \<or> ?n \<in> dom (listed m)" using o rt by (auto simp: nullish_def split: option.splits)
  have d: "seen (defaulted ?n m) (applied (RegionDefault ?n) reply w)" for reply
  proof (cases "?n = []")
    case False
    with n have "seen (set_deny ?n False m) (node_deny ?n False w)" by (intro seen_deny [OF see]) simp
    with False show ?thesis by (simp add: defaulted_def seen_def)
  qed (use see in \<open>simp add: defaulted_def seen_def\<close>)
  have "reaches (stands mem m w) (run dev (RegionDefault ?n) default_ok False)
      (\<lambda>r. case r of None \<Rightarrow> stands mem m w | Some reply \<Rightarrow> stands mem m (applied (RegionDefault ?n) reply w))"
    by (rule reaches_run [OF does]) (use answers in \<open>auto simp: stands_def\<close>)
  then have "reaches (stands mem m w) (after (run dev (RegionDefault ?n) default_ok False) (\<lambda>r s. case r of
     None \<Rightarrow> ((), s)
   | Some _ \<Rightarrow> ((), setUnsaved False ((fst s)\<lparr>rt_map := map_option (defaulted ?n) (rt_map (fst s))\<rparr>), snd s))) (\<lambda>_. in_view mem)"
  proof (rule reaches_after)
    fix r
    show "reaches (case r of None \<Rightarrow> stands mem m w | Some reply \<Rightarrow> stands mem m (applied (RegionDefault ?n) reply w))
      (\<lambda>s. case r of None \<Rightarrow> ((), s)
        | Some _ \<Rightarrow> ((), setUnsaved False ((fst s)\<lparr>rt_map := map_option (defaulted ?n) (rt_map (fst s))\<rparr>), snd s)) (\<lambda>_. in_view mem)"
      by (cases r) (use see d in \<open>simp_all add: reaches_def stands_def in_view_def on_screen_def del: applied.simps\<close>)
  qed
  then show ?thesis unfolding acted.simps onDefault_def Let_def by (rule stands_act [OF _ m see])
qed

lemma in_view_move:
  assumes does: "node_does dev mem flash" and answers: "always_answers dev" and m: "stands mem m w s" and see: "seen m w"
    and o: "offered (fst s) (MoveRegion n p)"
  shows "in_view mem (acted dev (MoveRegion n p) s)"
proof -
  have rt: "rt_map (fst s) = Some m" using m by (simp add: stands_def)
  have n: "n \<in> dom (listed m)" using o rt by simp
  define was where "was = region_was (fst s) n"
  have mv: "seen (moved_region n p was reply m) (applied (RegionPut n p) reply w)" for reply
    unfolding was_def by (rule seen_moved [OF see rt n])
  have still: "n \<in> dom (listed (moved_region n p was reply m))" for reply
    using n by (auto simp: listed_moved)
  have again: "reaches (stands mem (moved_region n p was reply m) (applied (RegionPut n p) reply w)) (deny_again dev n) (\<lambda>_. in_view mem)" for reply
    unfolding deny_again_def
    by (rule reaches_after, rule stands_acked [OF does _ _ _ answers])
       (simp_all, rule reaches_finish, use mv [of reply] seen_deny [OF mv [of reply] still, of True] in
          \<open>auto intro: stands_in_view simp del: applied.simps(2) split: option.splits\<close>)
  have "reaches (stands mem m w) (after (acked dev (RegionPut n p) isOK (moved_region n p was)) (\<lambda>r. case r of
        None \<Rightarrow> finish False
      | Some reply \<Rightarrow> if was = Some True \<and> flood_allowed reply then deny_again dev n else finish True)) (\<lambda>_. in_view mem)"
  proof (rule reaches_after, rule stands_acked [OF does _ _ _ answers])
    fix r
    show "reaches (case r of None \<Rightarrow> stands mem m w
          | Some reply \<Rightarrow> stands mem (moved_region n p was reply m) (applied (RegionPut n p) reply w))
        (case r of None \<Rightarrow> finish False
         | Some reply \<Rightarrow> if was = Some True \<and> flood_allowed reply then deny_again dev n else finish True) (\<lambda>_. in_view mem)"
      using again by (cases r) (auto intro!: reaches_finish intro: stands_in_view see mv simp del: applied.simps)
  qed simp_all
  then have "reaches (stands mem m w) (\<lambda>s. after (acked dev (RegionPut n p) isOK (moved_region n p (region_was (fst s) n)))
     (\<lambda>r. case r of None \<Rightarrow> finish False
        | Some reply \<Rightarrow> if region_was (fst s) n = Some True \<and> flood_allowed reply then deny_again dev n else finish True) s)
     (\<lambda>_. in_view mem)"
    unfolding reaches_def using rt by (simp add: was_def stands_def region_was_def)
  then show ?thesis unfolding acted.simps onMove_def Let_def by (rule stands_act [OF _ m see])
qed

lemma in_view_acted:
  assumes does: "node_does dev mem flash" and answers: "always_answers dev" and v: "in_view mem s" and o: "offered (fst s) a"
  shows "in_view mem (acted dev a s)"
proof -
  obtain m where m: "stands mem m (mem (snd s)) s" and see: "seen m (mem (snd s))" using in_view_stands [OF v] by blast
  define w where "w = mem (snd s)"
  note m = m [folded w_def] and see = see [folded w_def]
  have rt: "rt_map (fst s) = Some m" using m by (simp add: stands_def)
  note ok = stands_acked_ok [OF does _ _ _ answers see]
  show ?thesis
  proof (cases a)
    case (AddRegion n p)
    show ?thesis unfolding AddRegion by (rule in_view_add [OF does answers m see]) (use o AddRegion in simp)
  next
    case (DenyRegion n deny)
    have "n \<in> dom (listed m)" using o rt DenyRegion by simp
    then have "reaches (stands mem m w) (acked_ok dev (deny_cmd deny n) isOK (\<lambda>_. set_deny n deny)) (\<lambda>_. in_view mem)"
      by (intro ok) (simp_all add: seen_deny [OF see])
    then show ?thesis unfolding DenyRegion acted.simps onDeny_def by (rule stands_act [OF _ m see])
  next
    case (RemoveRegion n)
    have "n \<in> dom (listed m)" using o rt RemoveRegion by simp
    then have "reaches (stands mem m w) (acked_ok dev (RegionRemove n) isOK (\<lambda>_. removed_region n)) (\<lambda>_. in_view mem)"
      by (intro ok) (simp_all add: seen_removed [OF see] del: applied.simps)
    then show ?thesis unfolding RemoveRegion acted.simps onRemove_def by (rule stands_act [OF _ m see])
  next
    case (HomeRegion n)
    have "seen (m\<lparr>rm_home := n\<rparr>) (applied (RegionHome n) reply w)" for reply using see by (simp add: seen_def)
    then have "reaches (stands mem m w) (acked_ok dev (RegionHome n) home_ok (\<lambda>_. rm_home_update (\<lambda>_. n))) (\<lambda>_. in_view mem)"
      by (intro ok) (simp_all del: applied.simps)
    then show ?thesis unfolding HomeRegion acted.simps onHome_def by (rule stands_act [OF _ m see])
  next
    case SaveRegions
    have "reaches (stands mem m w) (run dev RegionSave isOK False) (\<lambda>_. stands mem m w)"
      by (rule reaches_run [OF does]) (use answers in \<open>auto simp: stands_def\<close>)
    then have "reaches (stands mem m w) (after (run dev RegionSave isOK False) (\<lambda>r s. case r of
       None \<Rightarrow> ((), s)
     | Some _ \<Rightarrow> ((), toasted SuccessToast ''Regions saved on the node'' (setUnsaved False (fst s)), snd s))) (\<lambda>_. in_view mem)"
      by (rule reaches_after) (use see in \<open>auto simp: reaches_def stands_def in_view_def on_screen_def split: option.split\<close>)
    then show ?thesis unfolding SaveRegions acted.simps save_regions_def by (rule stands_act [OF _ m see])
  next
    case (DefaultScope v)
    show ?thesis unfolding DefaultScope by (rule in_view_default [OF does answers m see]) (use o DefaultScope in simp)
  next
    case (MoveRegion n p)
    show ?thesis unfolding MoveRegion by (rule in_view_move [OF does answers m see]) (use o MoveRegion in simp)
  qed
qed

section \<open>Properties\<close>

definition acted_all :: "'d region_device \<Rightarrow> region_act list \<Rightarrow> regions_tab \<times> 'd \<Rightarrow> regions_tab \<times> 'd" where
  "acted_all dev acts s = foldl (\<lambda>s a. acted dev a s) s acts"

lemma acted_all_simps [simp]: "acted_all dev [] s = s" "acted_all dev (a # acts) s = acted_all dev acts (acted dev a s)"
  by (simp_all add: acted_all_def)


text \<open>C22: Safety. Whatever is edited and whichever commands are lost on the way, a node whose memory differs from its
  flash is marked as not saved: without the mark, a reboot undoes nothing.\<close>
theorem unsaved_changes_marked:
  assumes "node_does dev mem flash" "\<not> rt_unsaved (fst s) \<longrightarrow> mem (snd s) = flash (snd s)"
    and "\<not> rt_unsaved (fst (acted_all dev acts s))"
  shows "mem (snd (acted_all dev acts s)) = flash (snd (acted_all dev acts s))"
proof -
  have "marked mem flash (acted_all dev acts s)" if "marked mem flash s"
    using that marked_acted [OF assms(1)] by (induction acts arbitrary: s) simp_all
  with assms(2,3) show ?thesis by (simp add: marked_def)
qed

definition example_node :: "(node_regions \<times> node_regions) region_device" where
  "example_node w c =
     (let reply = (case c of RegionHome n \<Rightarrow> ''home is now'' | RegionDefault n \<Rightarrow> ''default scope is now'' | _ \<Rightarrow> ''OK - (flood allowed)'');
          w' = applied c reply (fst w) in
      case c of RegionGet n \<Rightarrow> (CliFailed (Some 400) ''refused'', w)
        | _ \<Rightarrow> (CliReply reply, (w', if writes_flash c then w' else snd w)))"

definition example_regions :: node_regions where
  "example_regions = \<lparr>nr_map = [''*'' \<mapsto> ('''', False), ''nz'' \<mapsto> (''*'', True)], nr_home = ''*'', nr_default = []\<rparr>"

definition example_tab :: regions_tab where
  "example_tab = (regions_start (Some False))\<lparr>rt_map := Some
     \<lparr>rm_regions = [\<lparr>rn_name = ''*'', rn_parent = '''', denyFlood = False\<rparr>, \<lparr>rn_name = ''nz'', rn_parent = ''*'', denyFlood = True\<rparr>],
      rm_home = ''*'', rm_default = [], rm_defaultSupported = True, rm_partial = False\<rparr>\<rparr>"

lemma example_replies [simp]:
  "trim ''home is now'' = ''home is now''" "trim ''default scope is now'' = ''default scope is now''"
  "trim ''OK - (flood allowed)'' = ''OK - (flood allowed)''" "isOK ''OK - (flood allowed)''" "home_ok ''home is now''"
  "default_ok ''default scope is now''" "flood_allowed ''OK - (flood allowed)''"
  by code_simp+

lemma example_node_does: "node_does example_node fst snd" "always_answers example_node"
proof -
  have "node_step (fst d, snd d) c (fst (example_node d c)) (fst (snd (example_node d c)), snd (snd (example_node d c)))" for d c
    by (cases d, cases c) (simp_all add: example_node_def in_doubt_def Let_def del: applied.simps)
  then show "node_does example_node fst snd" unfolding node_does_def by blast
  show "always_answers example_node"
    by (simp add: always_answers_def example_node_def in_doubt_def Let_def split: region_cmd.split)
qed

lemma example_on_screen: "on_screen example_tab example_regions"
  by (auto simp: on_screen_def seen_def example_tab_def example_regions_def listed_def region_row_def bare_def fun_eq_iff)

definition example_acts :: "region_act list" where
  "example_acts = [MoveRegion ''nz'' ''*'', SaveRegions]"

lemma example_offered: "offered_all example_node example_acts (example_tab, (example_regions, example_regions))"
  by (simp add: example_acts_def example_tab_def listed_def region_row_def regions_start_def save_offered_def onMove_def act_def
      after_def acked_def run_def example_node_def finish_def put_change_def change_def setUnsaved_def region_was_def deny_again_def
      set_deny_def withRegion_def moved_region_def)


theorem unsaved_changes_marked_witness:
  "\<not> rt_unsaved (fst (acted_all example_node example_acts (example_tab, (example_regions, example_regions))))
   \<and> fst (snd (acted_all example_node example_acts (example_tab, (example_regions, example_regions))))
     = snd (snd (acted_all example_node example_acts (example_tab, (example_regions, example_regions))))"
proof -
  have u: "\<not> rt_unsaved (fst (acted_all example_node example_acts (example_tab, (example_regions, example_regions))))"
    by (simp add: example_acts_def example_tab_def regions_start_def onMove_def act_def save_regions_def
      after_def acked_def run_def example_node_def finish_def put_change_def region_was_def deny_again_def Let_def)
  show ?thesis using unsaved_changes_marked [OF example_node_does(1) _ u] u by simp
qed

end
