(* ===== verification/OwnRepeater.thy ===== *)
theory OwnRepeater
  imports RemoteRegions CompanionRef Json Format
begin

text \<open>
  The repeater this server runs itself (\<open>pages/RepeaterNodePage.tsx\<close>): the settings form, whose
  sections are saved one by one, the region list, edited in place, the live lists that a poll and the
  WebSocket keep, the access list and the button that discovers neighbours. \<open>num\<close> is the text of a number
  (\<open>String(n)\<close>).
\<close>

section \<open>The settings form\<close>

record repeater_config =
  cr_name :: string
  cr_pubkey :: string
  cr_configured :: bool
  cr_running :: bool
  cr_latitude :: "rat option"
  cr_longitude :: "rat option"
  cr_advertInterval :: "rat option"
  cr_floodAdvertInterval :: "rat option"
  cr_disableFwd :: "bool option"
  cr_floodMax :: "rat option"
  cr_floodMaxUnscoped :: "rat option"
  cr_floodMaxAdvert :: "rat option"
  cr_loopDetect :: "string option"
  cr_pathHashSize :: "rat option"
  cr_txDelay :: "rat option"
  cr_directTxDelay :: "rat option"
  cr_rxDelay :: "rat option"
  cr_multiAcks :: "rat option"
  cr_floodScope :: string
  cr_adminSet :: bool
  cr_guestSet :: bool
  cr_ownerInfo :: string
  cr_regions :: "editable_region list"
  cr_home :: string

record password_box =
  pw_value :: string
  pw_dirty :: bool

datatype saving_section = SaveNode | SaveRelay | SaveAdmin

record own_settings =
  os_saving :: "saving_section option"
  os_stored :: "editable_region list"
  os_home :: string
  os_name :: string
  os_privateKey :: string
  os_lat :: string
  os_lon :: string
  os_advertInterval :: string
  os_floodAdvertInterval :: string
  os_floodMax :: string
  os_floodMaxUnscoped :: string
  os_floodMaxAdvert :: string
  os_loopDetect :: string
  os_floodScope :: string
  os_pathHashSize :: string
  os_txDelay :: string
  os_directTxDelay :: string
  os_rxDelay :: string
  os_multiAcks :: string
  os_disableFwd :: bool
  os_ownerInfo :: string
  os_adminPw :: password_box
  os_guestPw :: password_box
  os_regionBusy :: bool
  os_toasts :: "(toast_kind \<times> string) list"

definition untouched :: password_box where
  "untouched = \<lparr>pw_value = [], pw_dirty = False\<rparr>"

definition number_box :: "(rat \<Rightarrow> string) \<Rightarrow> rat option \<Rightarrow> string" where
  "number_box num v = (case v of None \<Rightarrow> [] | Some x \<Rightarrow> num x)"

definition fromSecs :: "(rat \<Rightarrow> string) \<Rightarrow> rat option \<Rightarrow> rat \<Rightarrow> string" where
  "fromSecs num v perUnit = (case v of None \<Rightarrow> [] | Some x \<Rightarrow> num (x / perUnit))"

text \<open>The effect on \<open>rep\<close>: every field is set again.\<close>

definition form_of :: "(rat \<Rightarrow> string) \<Rightarrow> repeater_config \<Rightarrow> own_settings \<Rightarrow> own_settings" where
  "form_of num rep st =
     st\<lparr>os_stored := cr_regions rep, os_home := cr_home rep, os_name := cr_name rep, os_privateKey := [],
        os_lat := number_box num (cr_latitude rep), os_lon := number_box num (cr_longitude rep),
        os_advertInterval := fromSecs num (cr_advertInterval rep) 60,
        os_floodAdvertInterval := fromSecs num (cr_floodAdvertInterval rep) 3600,
        os_floodMax := number_box num (cr_floodMax rep), os_floodMaxUnscoped := number_box num (cr_floodMaxUnscoped rep),
        os_floodMaxAdvert := number_box num (cr_floodMaxAdvert rep),
        os_loopDetect := nullish (cr_loopDetect rep) ''off'', os_floodScope := cr_floodScope rep,
        os_pathHashSize := number_box num (cr_pathHashSize rep), os_txDelay := number_box num (cr_txDelay rep),
        os_directTxDelay := number_box num (cr_directTxDelay rep), os_rxDelay := number_box num (cr_rxDelay rep),
        os_multiAcks := number_box num (cr_multiAcks rep), os_disableFwd := nullish (cr_disableFwd rep) False,
        os_ownerInfo := cr_ownerInfo rep, os_adminPw := untouched, os_guestPw := untouched\<rparr>"

definition typed_num :: "string \<Rightarrow> rat option" where  \<comment> \<open>\<open>num\<close>\<close>
  "typed_num s = (let t = trim s in if t = [] then None else js_number t)"

definition toSecs :: "string \<Rightarrow> rat \<Rightarrow> rat option" where
  "toSecs s perUnit = map_option (\<lambda>n. n * perUnit) (typed_num s)"

definition json_num :: "rat option \<Rightarrow> json" where
  "json_num v = (case v of None \<Rightarrow> JNull | Some x \<Rightarrow> JNum x)"

definition node_body :: "own_settings \<Rightarrow> (string \<times> json) list" where
  "node_body st =
     (''name'', JStr (trim (os_name st)))
     # (if trim (os_privateKey st) \<noteq> [] then [(''privateKey'', JStr (trim (os_privateKey st)))] else [])
     @ [(''latitude'', json_num (typed_num (os_lat st))), (''longitude'', json_num (typed_num (os_lon st)))]"

definition relay_body :: "own_settings \<Rightarrow> (string \<times> json) list" where
  "relay_body st =
     [(''disableFwd'', JBool (os_disableFwd st)),
      (''floodMax'', json_num (typed_num (os_floodMax st))),
      (''floodMaxUnscoped'', json_num (typed_num (os_floodMaxUnscoped st))),
      (''floodMaxAdvert'', json_num (typed_num (os_floodMaxAdvert st))),
      (''loopDetect'', JStr (os_loopDetect st)),
      (''pathHashSize'', json_num (typed_num (os_pathHashSize st))),
      (''txDelayFactor'', json_num (typed_num (os_txDelay st))),
      (''directTxDelayFactor'', json_num (typed_num (os_directTxDelay st))),
      (''rxDelayBase'', json_num (typed_num (os_rxDelay st))),
      (''multiAcks'', json_num (typed_num (os_multiAcks st))),
      (''advertInterval'', json_num (toSecs (os_advertInterval st) 60)),
      (''floodAdvertInterval'', json_num (toSecs (os_floodAdvertInterval st) 3600))]"

definition password_part :: "string \<Rightarrow> password_box \<Rightarrow> (string \<times> json) list" where
  "password_part k b = (if pw_dirty b then [(k, JStr (pw_value b))] else [])"

definition admin_body :: "own_settings \<Rightarrow> (string \<times> json) list" where
  "admin_body st =
     (''ownerInfo'', JStr (os_ownerInfo st)) # password_part ''adminPassword'' (os_adminPw st) @ password_part ''guestPassword'' (os_guestPw st)"

definition section_request :: "saving_section \<Rightarrow> own_settings \<Rightarrow> config_call" where
  "section_request w st =
     (case w of SaveNode \<Rightarrow> UpdateRepeaterNode (JObj (node_body st)) | SaveRelay \<Rightarrow> UpdateRepeaterRelay (JObj (relay_body st))
      | SaveAdmin \<Rightarrow> UpdateRepeaterAdmin (JObj (admin_body st)))"

definition section_said :: "saving_section \<Rightarrow> string" where
  "section_said w = (case w of SaveNode \<Rightarrow> ''Node saved'' | SaveRelay \<Rightarrow> ''Relay policy saved'' | SaveAdmin \<Rightarrow> ''Owner & access saved'')"

definition section_asked :: "saving_section \<Rightarrow> own_settings \<Rightarrow> own_settings" where  \<comment> \<open>every save button is off meanwhile\<close>
  "section_asked w st = (if os_saving st = None then st\<lparr>os_saving := Some w\<rparr> else st)"

definition own_toast :: "toast_kind \<Rightarrow> string \<Rightarrow> own_settings \<Rightarrow> own_settings" where
  "own_toast k t st = st\<lparr>os_toasts := os_toasts st @ [(k, t)]\<rparr>"

definition section_answered :: "saving_section \<Rightarrow> string option \<Rightarrow> own_settings \<Rightarrow> own_settings \<times> bool" where
  \<comment> \<open>and whether the page is loaded again\<close>
  "section_answered w denied st =
     (case denied of
        None \<Rightarrow> ((own_toast SuccessToast (section_said w) st)\<lparr>os_saving := None\<rparr>, True)
      | Some e \<Rightarrow> ((own_toast ErrorToast e st)\<lparr>os_saving := None\<rparr>, False))"

definition password_typed :: "string \<Rightarrow> password_box" where
  "password_typed t = \<lparr>pw_value = t, pw_dirty = True\<rparr>"

definition will_clear :: "password_box \<Rightarrow> bool" where
  "will_clear b \<longleftrightarrow> pw_dirty b \<and> pw_value b = []"

definition password_hint :: "bool \<Rightarrow> password_box \<Rightarrow> string" where
  "password_hint isSet b =
     (if will_clear b then ''will be removed on save''
      else if isSet then ''leave blank to keep the current password'' else ''optional'')"

definition clear_offered :: "bool \<Rightarrow> password_box \<Rightarrow> bool" where
  "clear_offered isSet b \<longleftrightarrow> isSet \<and> \<not> will_clear b"

definition create_body :: "string \<Rightarrow> string \<Rightarrow> string \<Rightarrow> (string \<times> json) list" where
  "create_body nm pw key =
     [(''name'', JStr (trim nm)), (''adminPassword'', JStr pw)] @ (if trim key \<noteq> [] then [(''privateKey'', JStr (trim key))] else [])"

definition create_offered :: "bool \<Rightarrow> string \<Rightarrow> string \<Rightarrow> bool" where
  "create_offered saving nm pw \<longleftrightarrow> \<not> saving \<and> trim nm \<noteq> [] \<and> trim pw \<noteq> []"

section \<open>The region list\<close>

definition own_regions :: "editable_region list \<Rightarrow> editable_region list" where
  "own_regions stored =
     (if list_ex (\<lambda>r. rn_name r = ''*'') stored then stored
      else \<lparr>rn_name = ''*'', rn_parent = [], denyFlood = False\<rparr> # stored)"

definition default_choices :: "editable_region list \<Rightarrow> region_node list" where
  "default_choices regions =
     map (\<lambda>r. \<lparr>rn_name = bare (rn_name r), rn_parent = (if rn_parent r = ''*'' then ''*'' else bare (rn_parent r))\<rparr>)
       (filter (\<lambda>r. rn_name r \<noteq> ''*'' \<and> \<not> starts_with ''$'' (rn_name r)) regions)"

text \<open>The server behind the page: a call is refused with a message or done; reading the configuration again
  may fail.\<close>

type_synonym 's config_server = "'s \<Rightarrow> config_call \<Rightarrow> string option \<times> 's"
type_synonym 's config_reader = "'s \<Rightarrow> repeater_config option \<times> 's"

definition region_reread :: "repeater_config option \<Rightarrow> own_settings \<Rightarrow> own_settings" where
  "region_reread fresh st =
     (case fresh of
        Some c \<Rightarrow> st\<lparr>os_stored := cr_regions c, os_home := cr_home c, os_floodScope := cr_floodScope c\<rparr>
      | None \<Rightarrow> own_toast ErrorToast ''Could not reload the region list; refresh the page'' st)"

definition regionOp ::
    "'s config_server \<Rightarrow> 's config_reader \<Rightarrow> editable_region list \<Rightarrow> config_call \<Rightarrow> string option
      \<Rightarrow> own_settings \<times> 's \<Rightarrow> bool \<times> own_settings \<times> 's" where
  "regionOp srv rd upcoming call said s =
     (if os_regionBusy (fst s) then (False, s)
      else let st = (fst s)\<lparr>os_regionBusy := True, os_stored := upcoming\<rparr> in
        case srv (snd s) call of
          (None, d) \<Rightarrow>
            (True, ((case said of Some t \<Rightarrow> own_toast SuccessToast t st | None \<Rightarrow> st)\<lparr>os_regionBusy := False\<rparr>, d))
        | (Some e, d) \<Rightarrow>
            (case rd d of (fresh, d') \<Rightarrow>
               (False, ((region_reread fresh (own_toast ErrorToast e st))\<lparr>os_regionBusy := False\<rparr>, d'))))"

definition edited_region :: "own_settings \<Rightarrow> string \<Rightarrow> (editable_region \<Rightarrow> editable_region) \<Rightarrow> editable_region list" where
  "edited_region st n e = map (\<lambda>r. if rn_name r = n then e r else r) (own_regions (os_stored st))"

definition picked_region :: "own_settings \<Rightarrow> string \<Rightarrow> editable_region option" where
  "picked_region st v =
     (case regionName (Some v) of None \<Rightarrow> None | Some n \<Rightarrow> find (\<lambda>r. bare (rn_name r) = n) (own_regions (os_stored st)))"

definition own_removed :: "string \<Rightarrow> string \<Rightarrow> string \<Rightarrow> own_settings \<Rightarrow> own_settings" where
  \<comment> \<open>the scope and the home of the render the click came from\<close>
  "own_removed n scope home st =
     (let st' = (if regionName (Some scope) = Some (bare n) then st\<lparr>os_floodScope := ''everywhere''\<rparr> else st) in
      if home = n then st'\<lparr>os_home := ''*''\<rparr> else st')"

fun own_acted :: "'s config_server \<Rightarrow> 's config_reader \<Rightarrow> region_act \<Rightarrow> own_settings \<times> 's \<Rightarrow> own_settings \<times> 's" where
  "own_acted srv rd (AddRegion n p) (st, s) =
     snd (regionOp srv rd (own_regions (os_stored st) @ [\<lparr>rn_name = n, rn_parent = p, denyFlood = False\<rparr>])
       (AddRepeaterRegion n p False) (Some ''Region added'') (st, s))"
| "own_acted srv rd (MoveRegion n p) (st, s) =
     snd (regionOp srv rd (edited_region st n (\<lambda>r. r\<lparr>rn_parent := p\<rparr>)) (MoveRepeaterRegion n p) (Some ''Region moved'') (st, s))"
| "own_acted srv rd (DenyRegion n deny) (st, s) =
     snd (regionOp srv rd (edited_region st n (\<lambda>r. r\<lparr>denyFlood := deny\<rparr>)) (SetRepeaterRegionFlood n deny) None (st, s))"
| "own_acted srv rd (RemoveRegion n) (st, s) =
     (case regionOp srv rd (filter (\<lambda>r. rn_name r \<noteq> n) (own_regions (os_stored st))) (RemoveRepeaterRegion n) (Some ''Region removed'') (st, s) of
        (ok, (st', s')) \<Rightarrow> (if ok then own_removed n (os_floodScope st) (os_home st) st' else st', s'))"
| "own_acted srv rd (HomeRegion n) (st, s) =
     snd (regionOp srv rd (own_regions (os_stored st)) (SetRepeaterHome n) None (st\<lparr>os_home := n\<rparr>, s))"
| "own_acted srv rd (DefaultScope v) (st, s) =
     snd (regionOp srv rd
       (case picked_region st v of
          Some r \<Rightarrow> edited_region st (rn_name r) (\<lambda>r. r\<lparr>denyFlood := False\<rparr>)
        | None \<Rightarrow> own_regions (os_stored st))
       (SetRepeaterScope (JStr v)) None (st\<lparr>os_floodScope := v\<rparr>, s))"
| "own_acted srv rd SaveRegions s = s"

section \<open>The live lists\<close>

record own_neighbor =
  on_pubkey :: string
  on_name :: "string option"
  on_snr :: rat
  on_secsAgo :: rat

record acl_client =
  ac_pubkey :: string
  ac_name :: string
  ac_permission :: perm_byte
  ac_lastSeen :: int

record 'stats live_lists =
  lv_stats :: "'stats option"
  lv_neighbors :: "own_neighbor list"
  lv_acl :: "acl_client list"

record 'stats repeater_live =
  rl_live :: "'stats live_lists"
  rl_refreshing :: bool
  rl_running :: bool

definition no_live :: "'stats live_lists" where
  "no_live = \<lparr>lv_stats = None, lv_neighbors = [], lv_acl = []\<rparr>"

text \<open>Each of the three requests falls back on its own; \<open>None\<close> is a failure, a refusal or a body of null.\<close>

datatype 'stats live_event =
    RunningChanged bool
  | LivePoll
  | LiveAnswered "'stats option" "own_neighbor list option" "acl_client list option"
  | NeighborHeard "own_neighbor option"

fun live_step :: "'stats live_event \<Rightarrow> 'stats repeater_live \<Rightarrow> 'stats repeater_live" where
  "live_step (RunningChanged b) st =
     (if b then st\<lparr>rl_running := True, rl_refreshing := True\<rparr> else st\<lparr>rl_running := False, rl_live := no_live\<rparr>)"
| "live_step LivePoll st = st\<lparr>rl_refreshing := True\<rparr>"
| "live_step (LiveAnswered s ns acl) st =
     st\<lparr>rl_live := \<lparr>lv_stats = s, lv_neighbors = nullish ns [], lv_acl = nullish acl []\<rparr>, rl_refreshing := False\<rparr>"
| "live_step (NeighborHeard None) st = st"
| "live_step (NeighborHeard (Some n)) st =
     st\<lparr>rl_live := (rl_live st)\<lparr>lv_neighbors := n # filter (\<lambda>x. on_pubkey x \<noteq> on_pubkey n) (lv_neighbors (rl_live st))\<rparr>\<rparr>"

definition DISCOVER_COOLDOWN_SECS :: nat where
  "DISCOVER_COOLDOWN_SECS = 30"

datatype repeater_busy = BusyAdvert | BusyDiscover

record discover_button =
  db_busy :: "repeater_busy option"
  db_cooldown :: nat

definition discover_offered :: "bool \<Rightarrow> bool \<Rightarrow> discover_button \<Rightarrow> bool" where
  "discover_offered running refreshing b \<longleftrightarrow> running \<and> \<not> (db_busy b = Some BusyDiscover \<or> refreshing) \<and> db_cooldown b = 0"

definition discover_asked :: "discover_button \<Rightarrow> discover_button" where
  "discover_asked b = b\<lparr>db_busy := Some BusyDiscover\<rparr>"

definition repeater_discovered :: "string option \<Rightarrow> discover_button \<Rightarrow> discover_button" where  \<comment> \<open>the reason of a refusal\<close>
  "repeater_discovered denied b =
     (case denied of None \<Rightarrow> b\<lparr>db_cooldown := DISCOVER_COOLDOWN_SECS, db_busy := None\<rparr> | Some _ \<Rightarrow> b\<lparr>db_busy := None\<rparr>)"

definition cooldown_tick :: "discover_button \<Rightarrow> discover_button" where  \<comment> \<open>the timer, one second on\<close>
  "cooldown_tick b = (if db_cooldown b = 0 then b else b\<lparr>db_cooldown := db_cooldown b - 1\<rparr>)"

definition discover_label :: "discover_button \<Rightarrow> string" where
  "discover_label b = (if db_cooldown b > 0 then ''discover '' @ show_nat (db_cooldown b) @ ''s'' else ''discover'')"

record acl_tab =
  al_busyKey :: "string option"
  al_confirm :: "string option"
  al_addOpen :: bool

definition acl_asked :: "string \<Rightarrow> acl_tab \<Rightarrow> acl_tab" where
  "acl_asked pubkey st = st\<lparr>al_busyKey := Some pubkey\<rparr>"

definition acl_answered :: "string option \<Rightarrow> acl_tab \<Rightarrow> acl_tab" where  \<comment> \<open>the reason of a refusal\<close>
  "acl_answered denied st =
     (case denied of None \<Rightarrow> st\<lparr>al_confirm := None, al_busyKey := None\<rparr> | Some _ \<Rightarrow> st\<lparr>al_busyKey := None\<rparr>)"

definition acl_added :: "string option \<Rightarrow> acl_tab \<Rightarrow> acl_tab" where
  "acl_added denied st = (acl_answered denied st)\<lparr>al_addOpen := False\<rparr>"

definition acl_known :: "acl_client list \<Rightarrow> string list" where
  "acl_known acl = as_set (map (\<lambda>c. prefix_of (ac_pubkey c)) acl)"

definition acl_seen :: "int \<Rightarrow> acl_client \<Rightarrow> string" where  \<comment> \<open>\<open>now\<close> in milliseconds\<close>
  "acl_seen now c =
     (if 0 < ac_lastSeen c then formatSecsAgo (max 0 (now div 1000 - ac_lastSeen c)) else [glyph_dash])"

section \<open>What the form shows and sends\<close>

definition reads_back :: "(rat \<Rightarrow> string) \<Rightarrow> rat \<Rightarrow> bool" where  \<comment> \<open>the text of a number reads back as that number\<close>
  "reads_back num x \<longleftrightarrow> trim (num x) = num x \<and> num x \<noteq> [] \<and> js_number (num x) = Some x"

definition given :: "rat option \<Rightarrow> rat list" where
  "given v = (case v of None \<Rightarrow> [] | Some x \<Rightarrow> [x])"

definition shown_numbers :: "repeater_config \<Rightarrow> rat list" where
  "shown_numbers c =
     given (cr_latitude c) @ given (cr_longitude c) @ given (map_option (\<lambda>x. x / 60) (cr_advertInterval c))
     @ given (map_option (\<lambda>x. x / 3600) (cr_floodAdvertInterval c)) @ given (cr_floodMax c) @ given (cr_floodMaxUnscoped c)
     @ given (cr_floodMaxAdvert c) @ given (cr_pathHashSize c) @ given (cr_txDelay c) @ given (cr_directTxDelay c)
     @ given (cr_rxDelay c) @ given (cr_multiAcks c)"

lemma trim_Nil: "trim [] = []"
  by (simp add: trim_def trim_start_def)

lemma typed_box: "\<forall>x\<in>set (given v). reads_back num x \<Longrightarrow> typed_num (number_box num v) = v"
  by (cases v) (simp_all add: typed_num_def number_box_def reads_back_def given_def trim_Nil)

lemma typed_secs:
  "\<forall>x\<in>set (given (map_option (\<lambda>x. x / u) v)). reads_back num x \<Longrightarrow> u \<noteq> 0 \<Longrightarrow> toSecs (fromSecs num v u) u = v"
  by (cases v) (simp_all add: toSecs_def fromSecs_def typed_num_def reads_back_def given_def trim_Nil)

definition relay_fields :: "repeater_config \<Rightarrow> (string \<times> json) list" where
  "relay_fields c =
     [(''disableFwd'', JBool (nullish (cr_disableFwd c) False)), (''floodMax'', json_num (cr_floodMax c)),
      (''floodMaxUnscoped'', json_num (cr_floodMaxUnscoped c)), (''floodMaxAdvert'', json_num (cr_floodMaxAdvert c)),
      (''loopDetect'', JStr (nullish (cr_loopDetect c) ''off'')), (''pathHashSize'', json_num (cr_pathHashSize c)),
      (''txDelayFactor'', json_num (cr_txDelay c)), (''directTxDelayFactor'', json_num (cr_directTxDelay c)),
      (''rxDelayBase'', json_num (cr_rxDelay c)), (''multiAcks'', json_num (cr_multiAcks c)),
      (''advertInterval'', json_num (cr_advertInterval c)), (''floodAdvertInterval'', json_num (cr_floodAdvertInterval c))]"

text \<open>Round trip. Opening the repeater's settings and saving a section without a change sends what was stored: the same
  numbers, whether they are shown as they are or in minutes and hours, the same position, no identity and no
  passwords.\<close>
theorem opened_settings_unchanged:
  assumes "\<forall>x\<in>set (shown_numbers c). reads_back num x"
  shows "relay_body (form_of num c st) = relay_fields c
    \<and> node_body (form_of num c st) = [(''name'', JStr (trim (cr_name c))), (''latitude'', json_num (cr_latitude c)), (''longitude'', json_num (cr_longitude c))]
    \<and> admin_body (form_of num c st) = [(''ownerInfo'', JStr (cr_ownerInfo c))]"
proof -
  note boxes = assms [unfolded shown_numbers_def set_append ball_Un]
  show ?thesis using boxes
    by (simp add: relay_body_def relay_fields_def node_body_def admin_body_def form_of_def typed_box typed_secs
      password_part_def untouched_def trim_Nil)
qed

definition example_config :: repeater_config where
  "example_config = \<lparr>cr_name = ''hill'', cr_pubkey = ''ab'', cr_configured = True, cr_running = True, cr_latitude = None, cr_longitude = None,
     cr_advertInterval = None, cr_floodAdvertInterval = Some 169200, cr_disableFwd = None, cr_floodMax = Some 64, cr_floodMaxUnscoped = None,
     cr_floodMaxAdvert = Some 8, cr_loopDetect = None, cr_pathHashSize = None, cr_txDelay = None, cr_directTxDelay = None, cr_rxDelay = None,
     cr_multiAcks = None, cr_floodScope = ''everywhere'', cr_adminSet = True, cr_guestSet = False, cr_ownerInfo = ''ops'',
     cr_regions = [], cr_home = ''*''\<rparr>"

definition whole_text :: "rat \<Rightarrow> string" where
  "whole_text x = show_int \<lfloor>x\<rfloor>"

theorem opened_settings_unchanged_witness:
  "(\<forall>st. relay_body (form_of whole_text example_config st) = relay_fields example_config)
   \<and> (''floodAdvertInterval'', JNum 169200) \<in> set (relay_fields example_config)"
proof -
  have "reads_back whole_text 47 \<and> reads_back whole_text 64 \<and> reads_back whole_text 8" by (intro conjI; code_simp)
  then have "\<forall>x\<in>set (shown_numbers example_config). reads_back whole_text x"
    by (simp add: shown_numbers_def example_config_def given_def)
  from opened_settings_unchanged [OF this] show ?thesis
    by (simp add: relay_fields_def example_config_def json_num_def)
qed

text \<open>Saving one section loads the page again, which sets every field: what was typed in another section is lost.\<close>

lemma other_section_lost:
  "node_body (form_of num c (st\<lparr>os_lat := typed\<rparr>)) = node_body (form_of num c st)"
  "snd (section_answered SaveRelay None st)"
  by (simp_all add: form_of_def node_body_def section_answered_def)

text \<open>A text that is no number is sent as none, and the save says that it was saved.\<close>

lemma typo_clears:
  "relay_body (st\<lparr>os_floodMax := ''1O''\<rparr>) = relay_body (st\<lparr>os_floodMax := []\<rparr>)"
proof -
  have "typed_num ''1O'' = typed_num []" by code_simp
  then show ?thesis by (simp add: relay_body_def)
qed

section \<open>The two region editors agree\<close>

definition scope_of :: "string \<Rightarrow> string" where  \<comment> \<open>the scope a remote node's default stands for\<close>
  "scope_of d = (if d = [] then ''everywhere'' else ''region:'' @ d)"

definition own_view :: "own_settings \<Rightarrow> editable_region list \<times> string \<times> string" where
  "own_view st = (own_regions (os_stored st), os_home st, os_floodScope st)"

definition remote_view :: "region_map \<Rightarrow> editable_region list \<times> string \<times> string" where
  "remote_view m = (rm_regions m, rm_home m, scope_of (rm_default m))"

definition acks :: "'d region_device \<Rightarrow> bool" where  \<comment> \<open>firmware 1.15 and later, when it is reached\<close>
  "acks dev \<longleftrightarrow> (\<forall>d c. \<exists>reply d'. dev d c = (CliReply reply, d') \<and> accepted c (trim reply)
     \<and> (\<forall>n p. c = RegionPut n p \<longrightarrow> flood_allowed (trim reply)))"

definition grants :: "'s config_server \<Rightarrow> bool" where
  "grants srv \<longleftrightarrow> (\<forall>s c. fst (srv s c) = None)"

definition edits_known :: "editable_region list \<Rightarrow> region_act \<Rightarrow> bool" where
  "edits_known rs a =
     (case a of
        AddRegion n p \<Rightarrow> bare n = n \<and> n \<notin> rn_name ` set rs
      | MoveRegion n p \<Rightarrow> n \<in> rn_name ` set rs
      | DenyRegion n d \<Rightarrow> True
      | RemoveRegion n \<Rightarrow> n \<noteq> ''*'' \<and> n \<noteq> [] \<and> bare n = n
      | HomeRegion n \<Rightarrow> True
      | DefaultScope v \<Rightarrow> v = ''everywhere'' \<or> (\<exists>n. v = ''region:'' @ n \<and> n \<noteq> [] \<and> n \<in> rn_name ` set rs)
      | SaveRegions \<Rightarrow> False)"

lemma run_acks:
  assumes "acks dev" "\<And>r. ok r \<longleftrightarrow> accepted c r"
  shows "\<exists>reply d'. run dev c ok False (st, d) = (Some reply, st, d') \<and> (\<forall>n p. c = RegionPut n p \<longrightarrow> flood_allowed reply)"
proof -
  obtain reply d' where a: "dev d c = (CliReply reply, d')" and acc: "accepted c (trim reply)"
    and flood: "\<forall>n p. c = RegionPut n p \<longrightarrow> flood_allowed (trim reply)"
    using assms(1) [unfolded acks_def, THEN spec, THEN spec, of d c] by (elim exE conjE)
  have "ok (trim reply)" by (rule assms(2) [THEN iffD2, OF acc])
  then have "run dev c ok False (st, d) = (Some (trim reply), st, d')" by (simp add: run_def a)
  with flood show ?thesis by blast
qed

lemma acked_acks:
  assumes "acks dev" "\<And>r. ok r \<longleftrightarrow> accepted c r"
  shows "\<exists>reply d'. acked dev c ok f (st, d) = (Some reply, change (f reply) st, d') \<and> (\<forall>n p. c = RegionPut n p \<longrightarrow> flood_allowed reply)"
proof -
  obtain reply d' where r: "run dev c ok False (st, d) = (Some reply, st, d')" and flood: "\<forall>n p. c = RegionPut n p \<longrightarrow> flood_allowed reply"
    using run_acks [OF assms, of st d] by blast
  have "acked dev c ok f (st, d) = (Some reply, change (f reply) st, d')"
    by (simp add: acked_def after_def put_change_def finish_def r)
  with flood show ?thesis by blast
qed

lemma acked_ok_map:
  assumes "acks dev" "\<And>r. ok r \<longleftrightarrow> accepted c r" "rt_map st = Some m" "\<not> rt_busy st"
  shows "\<exists>reply. rt_map (fst (snd (act (acked_ok dev c ok f) False (st, d)))) = Some (f reply m) \<and> (\<forall>n p. c = RegionPut n p \<longrightarrow> flood_allowed reply)"
proof -
  obtain reply d' where r: "acked dev c ok f (st\<lparr>rt_busy := True\<rparr>, d) = (Some reply, change (f reply) (st\<lparr>rt_busy := True\<rparr>), d')"
      and flood: "\<forall>n p. c = RegionPut n p \<longrightarrow> flood_allowed reply"
    using acked_acks [OF assms(1,2), of f "st\<lparr>rt_busy := True\<rparr>" d] by blast
  have "rt_map (fst (snd (act (acked_ok dev c ok f) False (st, d)))) = Some (f reply m)"
    using assms(3,4) by (simp add: act_def acked_ok_def after_def finish_def r)
  with flood show ?thesis by blast
qed

lemma own_op_granted:
  assumes "grants srv" "\<not> os_regionBusy st"
  shows "\<exists>d. \<exists>st'. regionOp srv rd upcoming call said (st, s) = (True, st', d) \<and> os_stored st' = upcoming \<and> os_home st' = os_home st \<and> os_floodScope st' = os_floodScope st"
proof -
  obtain d where "srv s call = (None, d)" using assms(1) unfolding grants_def by (metis prod.collapse)
  with assms(2) show ?thesis by (simp add: regionOp_def Let_def own_toast_def split: option.split)
qed

lemma regions_shown [simp]: "''*'' \<in> rn_name ` set rs \<Longrightarrow> own_regions rs = rs"
  by (auto simp: own_regions_def list_ex_iff)

lemma wildcard_shown [simp]: "''*'' \<in> rn_name ` set (own_regions rs)"
proof (cases "list_ex (\<lambda>r. rn_name r = ''*'') rs")
  case True
  then obtain r where "r \<in> set rs" "rn_name r = ''*''" by (auto simp: list_ex_iff)
  then have "''*'' \<in> rn_name ` set rs" using imageI [of r "set rs" rn_name] by simp
  with True show ?thesis by (simp add: own_regions_def)
qed (simp add: own_regions_def)

lemma scope_name: "regionName (Some (scope_of d)) = (if d = [] then None else Some d)"
  by (simp add: regionName_def scope_of_def slice_from_def slice_index_def)

lemma own_view_op:
  assumes "grants srv" "\<not> os_regionBusy st" "''*'' \<in> rn_name ` set upcoming"
  shows "own_view (fst (snd (regionOp srv rd upcoming call said (st, s)))) = (upcoming, os_home st, os_floodScope st)"
proof -
  obtain d st' where "regionOp srv rd upcoming call said (st, s) = (True, st', d)" "os_stored st' = upcoming"
      "os_home st' = os_home st" "os_floodScope st' = os_floodScope st"
    using own_op_granted [OF assms(1,2)] by blast
  with assms(3) show ?thesis by (simp add: own_view_def)
qed

lemma star_edited:
  assumes "\<And>r. rn_name (e r) = rn_name r" "''*'' \<in> rn_name ` set rs"
  shows "''*'' \<in> rn_name ` set (map (\<lambda>r. if rn_name r = n then e r else r) rs)"
proof -
  have "map rn_name (map (\<lambda>r. if rn_name r = n then e r else r) rs) = map rn_name rs" using assms(1) by simp
  then show ?thesis using assms(2) by (metis set_map)
qed

text \<open>Both editors show the same list, and the user makes the same edit in both.\<close>

definition same_list :: "own_settings \<Rightarrow> regions_tab \<Rightarrow> region_map \<Rightarrow> bool" where
  "same_list st rt m \<longleftrightarrow>
     \<not> os_regionBusy st \<and> \<not> rt_busy rt \<and> rt_map rt = Some m \<and> \<not> rm_partial m \<and> own_view st = remote_view m
     \<and> distinct (map rn_name (rm_regions m)) \<and> (\<forall>r\<in>set (rm_regions m). bare (rn_name r) = rn_name r)"

lemma same_listD:
  assumes "same_list st rt m"
  shows "own_regions (os_stored st) = rm_regions m" "os_home st = rm_home m" "os_floodScope st = scope_of (rm_default m)"
    "\<not> os_regionBusy st" "\<not> rt_busy rt" "rt_map rt = Some m" "\<not> rm_partial m" "''*'' \<in> rn_name ` set (rm_regions m)"
  using assms wildcard_shown [of "os_stored st"] by (auto simp: same_list_def own_view_def remote_view_def)

lemma agree_deny:
  assumes same: "same_list st rt m" and dev: "acks dev" and srv: "grants srv"
  shows "\<exists>m'. rt_map (fst (acted dev (DenyRegion n deny) (rt, d))) = Some m'
    \<and> own_view (fst (own_acted srv rd (DenyRegion n deny) (st, s))) = remote_view m'"
proof -
  note S = same_listD [OF same]
  have "rt_map (fst (acted dev (DenyRegion n deny) (rt, d))) = Some (set_deny n deny m)"
    using acked_ok_map [OF dev, of isOK "deny_cmd deny n" rt m "\<lambda>_. set_deny n deny" d] S by (simp add: onDeny_def)
  moreover have "own_view (fst (own_acted srv rd (DenyRegion n deny) (st, s))) = remote_view (set_deny n deny m)"
    using S(1-3) own_view_op [OF srv S(4) star_edited [OF _ S(8), of "\<lambda>r. r\<lparr>denyFlood := deny\<rparr>" n]]
    by (simp add: edited_region_def remote_view_def set_deny_def withRegion_def)
  ultimately show ?thesis by blast
qed

lemma agree_remove:
  assumes same: "same_list st rt m" and dev: "acks dev" and srv: "grants srv" and known: "n \<noteq> ''*'' \<and> n \<noteq> [] \<and> bare n = n"
  shows "\<exists>m'. rt_map (fst (acted dev (RemoveRegion n) (rt, d))) = Some m'
    \<and> own_view (fst (own_acted srv rd (RemoveRegion n) (st, s))) = remote_view m'"
proof -
  note S = same_listD [OF same]
  have n: "n \<noteq> ''*''" "n \<noteq> []" "bare n = n" using known by simp_all
  have r: "rt_map (fst (acted dev (RemoveRegion n) (rt, d))) = Some (removed_region n m)"
    using acked_ok_map [OF dev, of isOK "RegionRemove n" rt m "\<lambda>_. removed_region n" d] S by (simp add: onRemove_def)
  have star: "''*'' \<in> rn_name ` set (filter (\<lambda>r. rn_name r \<noteq> n) (rm_regions m))" using S(8) n(1) by auto
  obtain e st' where op: "regionOp srv rd (filter (\<lambda>r. rn_name r \<noteq> n) (rm_regions m)) (RemoveRepeaterRegion n) (Some ''Region removed'') (st, s) = (True, st', e)"
      "os_stored st' = filter (\<lambda>r. rn_name r \<noteq> n) (rm_regions m)" "os_home st' = os_home st" "os_floodScope st' = os_floodScope st"
    using own_op_granted [OF srv S(4)] by blast
  have "own_view (own_removed n (os_floodScope st) (os_home st) st') = remote_view (removed_region n m)"
    using S n star op(2-4) by (simp add: own_view_def own_removed_def remote_view_def removed_region_def scope_name Let_def)
      (auto simp: scope_of_def)
  with r S(1) op(1) show ?thesis by simp
qed

lemma agree_home:
  assumes same: "same_list st rt m" and dev: "acks dev" and srv: "grants srv"
  shows "\<exists>m'. rt_map (fst (acted dev (HomeRegion n) (rt, d))) = Some m'
    \<and> own_view (fst (own_acted srv rd (HomeRegion n) (st, s))) = remote_view m'"
proof -
  note S = same_listD [OF same]
  have "rt_map (fst (acted dev (HomeRegion n) (rt, d))) = Some (m\<lparr>rm_home := n\<rparr>)"
    using acked_ok_map [OF dev, of home_ok "RegionHome n" rt m "\<lambda>_. rm_home_update (\<lambda>_. n)" d] S by (simp add: onHome_def)
  moreover have "own_view (fst (own_acted srv rd (HomeRegion n) (st, s))) = remote_view (m\<lparr>rm_home := n\<rparr>)"
    using S by (simp add: own_view_op [OF srv] remote_view_def)
  ultimately show ?thesis by blast
qed

lemma agree_add:
  assumes same: "same_list st rt m" and dev: "acks dev" and srv: "grants srv" and n: "bare n = n"
  shows "\<exists>m'. rt_map (fst (acted dev (AddRegion n p) (rt, d))) = Some m'
    \<and> own_view (fst (own_acted srv rd (AddRegion n p) (st, s))) = remote_view m'"
proof -
  note S = same_listD [OF same]
  have np: "act (\<lambda>s. if partly_listed (fst s) then put_if_new dev n p s else put_new dev n p s) False (rt, d) = act (put_new dev n p) False (rt, d)"
    using S(6,7) by (simp add: act_def partly_listed_def)
  obtain reply where r: "rt_map (fst (snd (act (put_new dev n p) False (rt, d)))) = Some (added_region n p reply m)" "flood_allowed reply"
    using acked_ok_map [OF dev, of isOK "RegionPut n p" rt m "added_region n p" d] S(5,6) by (auto simp: put_new_def)
  have "own_view (fst (own_acted srv rd (AddRegion n p) (st, s))) = remote_view (added_region n p reply m)"
    using S n r(2) by (simp add: own_view_op [OF srv] remote_view_def added_region_def)
  with r(1) show ?thesis by (simp add: onAdd_def np)
qed

lemma agree_default:
  assumes same: "same_list st rt m" and dev: "acks dev" and srv: "grants srv"
    and v: "v = ''everywhere'' \<or> (\<exists>n. v = ''region:'' @ n \<and> n \<noteq> [] \<and> n \<in> rn_name ` set (rm_regions m))"
  shows "\<exists>m'. rt_map (fst (acted dev (DefaultScope v) (rt, d))) = Some m'
    \<and> own_view (fst (own_acted srv rd (DefaultScope v) (st, s))) = remote_view m'"
proof -
  note S = same_listD [OF same]
  obtain n where n: "v = scope_of n" "n = [] \<or> n \<in> rn_name ` set (rm_regions m)"
    using v
  proof (elim disjE exE conjE)
    assume that: "\<And>n. v = scope_of n \<Longrightarrow> n = [] \<or> n \<in> rn_name ` set (rm_regions m) \<Longrightarrow> thesis" and e: "v = ''everywhere''"
    show thesis by (rule that [of "[]"]) (simp_all add: e scope_of_def)
  next
    fix n
    assume that: "\<And>n. v = scope_of n \<Longrightarrow> n = [] \<or> n \<in> rn_name ` set (rm_regions m) \<Longrightarrow> thesis"
      and e: "v = ''region:'' @ n" "n \<noteq> []" "n \<in> rn_name ` set (rm_regions m)"
    show thesis by (rule that [of n]) (simp_all add: e scope_of_def)
  qed
  have name: "nullish (regionName (Some v)) [] = n" by (simp add: n(1) scope_name)
  obtain reply d' where r: "run dev (RegionDefault n) default_ok False (rt\<lparr>rt_busy := True\<rparr>, d) = (Some reply, rt\<lparr>rt_busy := True\<rparr>, d')"
    using run_acks [OF dev, of default_ok "RegionDefault n" "rt\<lparr>rt_busy := True\<rparr>" d] by auto
  have m: "rt_map (fst (acted dev (DefaultScope v) (rt, d))) = Some (defaulted n m)"
    using S(5,6) unfolding acted.simps onDefault_def name Let_def by (simp add: act_def after_def r)
  have "own_view (fst (own_acted srv rd (DefaultScope v) (st, s))) = remote_view (defaulted n m)"
  proof (cases "n = []")
    case True
    then have "picked_region (st\<lparr>os_floodScope := v\<rparr>) v = None" "picked_region st v = None" by (simp_all add: picked_region_def n(1) scope_name)
    then show ?thesis using S True own_view_op [OF srv _ S(8), of "st\<lparr>os_floodScope := v\<rparr>"]
      by (simp add: remote_view_def defaulted_def n(1))
  next
    case False
    then have "\<exists>q\<in>set (rm_regions m). rn_name q = n" using n(2) by auto
    then obtain q where q: "find (\<lambda>r. bare (rn_name r) = n) (rm_regions m) = Some q" "rn_name q = n"
    proof -
      assume that: "\<And>q. find (\<lambda>r. bare (rn_name r) = n) (rm_regions m) = Some q \<Longrightarrow> rn_name q = n \<Longrightarrow> thesis"
      assume ex: "\<exists>q\<in>set (rm_regions m). rn_name q = n"
      have bares: "\<forall>r\<in>set (rm_regions m). bare (rn_name r) = rn_name r" using same by (simp add: same_list_def)
      then have "find (\<lambda>r. bare (rn_name r) = n) (rm_regions m) \<noteq> None" using ex by (auto simp: find_None_iff)
      then obtain q where f: "find (\<lambda>r. bare (rn_name r) = n) (rm_regions m) = Some q" by blast
      then have "q \<in> set (rm_regions m)" "bare (rn_name q) = n" by (auto simp: find_Some_iff)
      with bares f show thesis by (intro that) simp_all
    qed
    have "picked_region st v = Some q" using False q(1) S(1) by (simp add: picked_region_def n(1) scope_name)
    then show ?thesis using False S(1,2) q(2) own_view_op [OF srv _ star_edited [OF _ S(8), of "\<lambda>r. r\<lparr>denyFlood := False\<rparr>" n], of "st\<lparr>os_floodScope := v\<rparr>"] S(4)
      by (simp add: edited_region_def remote_view_def defaulted_def set_deny_def withRegion_def n(1))
  qed
  with m show ?thesis by blast
qed

lemma agree_move:
  assumes same: "same_list st rt m" and dev: "acks dev" and srv: "grants srv" and n: "n \<in> rn_name ` set (rm_regions m)"
  shows "\<exists>m'. rt_map (fst (acted dev (MoveRegion n p) (rt, d))) = Some m'
    \<and> own_view (fst (own_acted srv rd (MoveRegion n p) (st, s))) = remote_view m'"
proof -
  note S = same_listD [OF same]
  let ?rt = "rt\<lparr>rt_busy := True\<rparr>"
  let ?was = "region_was ?rt n"
  obtain reply d' where r: "acked dev (RegionPut n p) isOK (moved_region n p ?was) (?rt, d) = (Some reply, change (moved_region n p ?was reply) ?rt, d')"
      and flood: "flood_allowed reply"
    using acked_acks [OF dev, of isOK "RegionPut n p" "moved_region n p ?was" ?rt d] by auto
  let ?m = "moved_region n p ?was reply m"
  let ?final = "if ?was = Some True then set_deny n True ?m else ?m"
  have m: "rt_map (fst (acted dev (MoveRegion n p) (rt, d))) = Some ?final"
  proof (cases "?was = Some True")
    case True
    obtain reply2 d2 where r2: "acked dev (RegionDenyf n) isOK (\<lambda>_. set_deny n True) (change (moved_region n p ?was reply) ?rt, d')
        = (Some reply2, change (set_deny n True) (change (moved_region n p ?was reply) ?rt), d2)"
      using acked_acks [OF dev, of isOK "RegionDenyf n" "\<lambda>_. set_deny n True" "change (moved_region n p ?was reply) ?rt" d'] by auto
    show ?thesis using S(5,6) True flood r2 by (simp add: onMove_def act_def after_def r [unfolded True] deny_again_def finish_def Let_def)
  next
    case False
    then show ?thesis using S(5,6) flood by (simp add: onMove_def act_def after_def r finish_def Let_def)
  qed
  have was: "?was = map_option denyFlood (find (\<lambda>r. rn_name r = n) (rm_regions m))" using S(6) by (simp add: region_was_def)
  have each: "denyFlood q = (?was = Some True)" if "q \<in> set (rm_regions m)" "rn_name q = n" for q
  proof -
    have "distinct (map rn_name (rm_regions m))" using same by (simp add: same_list_def)
    then have "find (\<lambda>r. rn_name r = n) (rm_regions m) = Some q" using find_unique [of rn_name "rm_regions m" q] that by simp
    then show ?thesis by (simp add: was)
  qed
  have "rm_regions ?final = map (\<lambda>r. if rn_name r = n then r\<lparr>rn_parent := p\<rparr> else r) (rm_regions m)"
    using flood each by (auto simp: moved_region_def set_deny_def withRegion_def)
  moreover have "rm_home ?final = rm_home m" "rm_default ?final = rm_default m" by simp_all
  ultimately have "own_view (fst (own_acted srv rd (MoveRegion n p) (st, s))) = remote_view ?final"
    using S(1-3) own_view_op [OF srv S(4) star_edited [OF _ S(8), of "\<lambda>r. r\<lparr>rn_parent := p\<rparr>" n]]
    by (simp add: edited_region_def remote_view_def)
  with m show ?thesis by blast
qed


definition example_own :: own_settings where
  "example_own = form_of whole_text (example_config\<lparr>cr_regions := [\<lparr>rn_name = ''nz'', rn_parent = ''*'', denyFlood = True\<rparr>]\<rparr>)
     \<lparr>os_saving = None, os_stored = [], os_home = [], os_name = [], os_privateKey = [], os_lat = [], os_lon = [], os_advertInterval = [],
      os_floodAdvertInterval = [], os_floodMax = [], os_floodMaxUnscoped = [], os_floodMaxAdvert = [], os_loopDetect = [], os_floodScope = [],
      os_pathHashSize = [], os_txDelay = [], os_directTxDelay = [], os_rxDelay = [], os_multiAcks = [], os_disableFwd = False, os_ownerInfo = [],
      os_adminPw = untouched, os_guestPw = untouched, os_regionBusy = False, os_toasts = []\<rparr>"

definition granting :: "unit config_server" where
  "granting s c = (None, ())"

definition answering_node :: "unit region_device" where
  "answering_node s c =
     (CliReply (case c of RegionHome n \<Rightarrow> ''home is now'' | RegionDefault n \<Rightarrow> ''default scope is now'' | _ \<Rightarrow> ''OK - (flood allowed)''), ())"

lemma answering_acks: "acks answering_node"
  unfolding acks_def
proof (intro allI)
  fix d c
  show "\<exists>reply d'. answering_node d c = (CliReply reply, d') \<and> accepted c (trim reply) \<and> (\<forall>n p. c = RegionPut n p \<longrightarrow> flood_allowed (trim reply))"
    by (cases c) (simp_all add: answering_node_def)
qed


section \<open>What the live lists keep\<close>

definition one_each :: "'stats repeater_live \<Rightarrow> bool" where
  "one_each st \<longleftrightarrow> distinct (map on_pubkey (lv_neighbors (rl_live st)))"

fun fair_event :: "'stats live_event \<Rightarrow> bool" where  \<comment> \<open>the server lists a neighbour once\<close>
  "fair_event (LiveAnswered s ns acl) \<longleftrightarrow> distinct (map on_pubkey (nullish ns []))"
| "fair_event _ \<longleftrightarrow> True"

lemma distinct_filter_map: "distinct (map f xs) \<Longrightarrow> distinct (map f (filter P xs))"
  by (induction xs) auto

lemma one_each_step: "one_each st \<Longrightarrow> fair_event e \<Longrightarrow> one_each (live_step e st)"
  by (cases "(e, st)" rule: live_step.cases) (auto simp: one_each_def no_live_def distinct_filter_map)

lemma one_each_run: "one_each st \<Longrightarrow> list_all fair_event es \<Longrightarrow> one_each (fold live_step es st)"
  by (induction es arbitrary: st) (simp_all add: one_each_step)

text \<open>The answer to a poll that was under way when the repeater stopped fills the page again, and an answer
  that is overtaken by a neighbour's message drops the neighbour until the next poll.\<close>

lemma late_poll_shown:
  "rl_live (fold live_step [LivePoll, RunningChanged False, LiveAnswered (Some x) (Some ns) None] st)
    = \<lparr>lv_stats = Some x, lv_neighbors = ns, lv_acl = []\<rparr>"
  "lv_neighbors (rl_live (fold live_step [LivePoll, NeighborHeard (Some n), LiveAnswered s (Some []) acl] st)) = []"
  by (simp_all add: nullish_def)

lemma cooldown_counts: "db_cooldown ((cooldown_tick ^^ k) b) = db_cooldown b - k \<and> db_busy ((cooldown_tick ^^ k) b) = db_busy b"
  by (induction k) (simp_all add: cooldown_tick_def)

lemma discover_waits:
  "discover_offered True False ((cooldown_tick ^^ k) (repeater_discovered None b)) \<longleftrightarrow> 30 \<le> k"
  using cooldown_counts [of k "repeater_discovered None b"]
  by (simp add: discover_offered_def repeater_discovered_def DISCOVER_COOLDOWN_SECS_def)

end
