(* ===== verification/BotForm.thy ===== *)
theory BotForm
  imports OwnRepeater RemoteSettings
begin

text \<open>
  The page of bots (\<open>pages/BotsPage.tsx\<close>) and what its editor is made of (\<open>components/StringListField.tsx\<close>,
  \<open>ChannelMultiSelect.tsx\<close>): the list of triggers, the form, every edit a control makes, what a save sends and when
  it is offered. \<open>num\<close> is the text of a number (\<open>String(n)\<close>).
\<close>

section \<open>Data\<close>

record trigger_location =
  tl_lat :: rat
  tl_lon :: rat
  tl_radiusKm :: rat

record bot_trigger =
  tg_id :: nat
  tg_companionId :: nat
  tg_type :: string
  tg_template :: string
  tg_match :: "string list option"
  tg_contacts :: "string list option"
  tg_channelIds :: "nat list option"
  tg_failoverPattern :: string
  tg_failoverTimeout :: rat
  tg_retryTimeout :: "rat option"
  tg_maxRetries :: "rat option"
  tg_pathHashSize :: "rat option"
  tg_schedule :: "string option"
  tg_url :: string
  tg_location :: "trigger_location option"
  tg_regions :: "string list option"
  tg_floodScope :: string

record trigger_input =
  ti_companionId :: nat
  ti_type :: string
  ti_template :: string
  ti_channelIds :: "nat list"
  ti_match :: "string list option"
  ti_contacts :: "string list option"
  ti_schedule :: "string option"
  ti_url :: "string option"
  ti_location :: "trigger_location option"
  ti_regions :: "string list option"
  ti_failoverPattern :: string
  ti_failoverTimeout :: "rat option"
  ti_maxRetries :: int
  ti_retryTimeout :: int
  ti_pathHashSize :: "rat option"
  ti_floodScope :: string

record bot_companion =
  bc_id :: nat
  bc_name :: string
  bc_pathHashSize :: "rat option"
  bc_latitude :: "rat option"
  bc_longitude :: "rat option"

record bot_channel =
  bh_id :: nat
  bh_companionId :: nat
  bh_name :: string

section \<open>Types, numbers and schedules\<close>

definition type_opts :: "string list" where
  "type_opts = [''group'', ''dm'', ''cron'', ''rss'', ''cap'']"

definition isFeedType :: "string \<Rightarrow> bool" where
  "isFeedType t \<longleftrightarrow> t = ''rss'' \<or> t = ''cap''"

definition answersAMessage :: "string \<Rightarrow> bool" where
  "answersAMessage t \<longleftrightarrow> t = ''group'' \<or> t = ''dm''"

definition MAX_LOCATION_RADIUS_KM :: rat where
  "MAX_LOCATION_RADIUS_KM = 500"

definition parseNumber :: "string \<Rightarrow> rat option" where
  "parseNumber s = (if trim s \<noteq> [] then js_number (trim s) else None)"

definition parseLocation :: "string \<Rightarrow> string \<Rightarrow> string \<Rightarrow> trigger_location option" where
  "parseLocation lat lon km =
     (case (parseNumber lat, parseNumber lon, parseNumber km) of
        (Some la, Some lo, Some r) \<Rightarrow>
          if la < - 90 \<or> la > 90 \<or> lo < - 180 \<or> lo > 180 then None
          else if r < 0 \<or> r > MAX_LOCATION_RADIUS_KM then None
          else Some \<lparr>tl_lat = la, tl_lon = lo, tl_radiusKm = r\<rparr>
      | _ \<Rightarrow> None)"

definition parse_int :: "string \<Rightarrow> int option" where  \<comment> \<open>\<open>parseInt(s, 10)\<close>; \<open>None\<close> is \<open>NaN\<close>\<close>
  "parse_int s =
     (let t = trim_start s; neg = starts_with ''-'' t;
          ds = takeWhile is_digit (if neg \<or> starts_with ''+'' t then drop 1 t else t)
      in if ds = [] then None else Some (if neg then - int (parse_digits ds) else int (parse_digits ds)))"

definition int_or :: "string \<Rightarrow> int \<Rightarrow> int" where  \<comment> \<open>\<open>parseInt(s, 10) || d\<close>\<close>
  "int_or s d = (case parse_int s of Some n \<Rightarrow> if n = 0 then d else n | None \<Rightarrow> d)"

definition every_prefix :: string where
  "every_prefix = ''@every ''"

definition parsePollInterval :: "string option \<Rightarrow> string \<times> string" where  \<comment> \<open>\<open>/^@every (\d+)([mh])$/\<close>\<close>
  "parsePollInterval schedule =
     (let s = nullish schedule []; r = drop (length every_prefix) s; ds = takeWhile is_digit r; u = dropWhile is_digit r
      in if starts_with every_prefix s \<and> ds \<noteq> [] \<and> (u = ''m'' \<or> u = ''h'') then (ds, u) else (''5'', ''m''))"

definition humanSchedule :: "string \<Rightarrow> string" where
  "humanSchedule s = (if starts_with every_prefix s then ''every '' @ drop (length every_prefix) s else s)"

definition feed_url :: "string \<Rightarrow> bool" where  \<comment> \<open>\<open>/^https?:\/\/\S+$/\<close>\<close>
  "feed_url s \<longleftrightarrow>
     (\<exists>p\<in>{''http://'', ''https://''}. starts_with p s \<and> drop (length p) s \<noteq> [] \<and> list_all (\<lambda>c. \<not> is_space c) (drop (length p) s))"

definition positive_text :: "string \<Rightarrow> bool" where  \<comment> \<open>\<open>/^[1-9]\d*$/\<close>\<close>
  "positive_text s \<longleftrightarrow> s \<noteq> [] \<and> hd s \<noteq> CHR ''0'' \<and> list_all is_digit s"

definition seconds_text :: "string \<Rightarrow> bool" where  \<comment> \<open>digits, and 1 to 3600\<close>
  "seconds_text s \<longleftrightarrow> s \<noteq> [] \<and> list_all is_digit s \<and> 1 \<le> parse_digits s \<and> parse_digits s \<le> 3600"

definition RSS_MATCH_FIELDS :: "string list" where
  "RSS_MATCH_FIELDS = [''title'', ''description'', ''content'', ''link'', ''author'', ''category'']"

definition CAP_MATCH_FIELDS :: "string list" where
  "CAP_MATCH_FIELDS =
     [''event'', ''headline'', ''description'', ''instruction'', ''severity'', ''urgency'', ''certainty'', ''msgtype'',
      ''status'', ''area'', ''geocode'', ''sender'', ''category'']"

definition fieldOptions :: "string \<Rightarrow> string list option" where
  "fieldOptions t = (if t = ''cap'' then Some CAP_MATCH_FIELDS else if t = ''rss'' then Some RSS_MATCH_FIELDS else None)"

section \<open>The list of bots\<close>

definition companion_name :: "bot_companion list \<Rightarrow> nat \<Rightarrow> string option" where
  "companion_name companions i = map_of (rev (map (\<lambda>c. (bc_id c, bc_name c)) companions)) i"

definition channel_name :: "bot_channel list \<Rightarrow> nat \<Rightarrow> string option" where
  "channel_name channels i = map_of (rev (map (\<lambda>ch. (bh_id ch, bh_name ch)) channels)) i"

definition named_channels :: "bot_channel list \<Rightarrow> nat list \<Rightarrow> string list" where  \<comment> \<open>unknown and unnamed ones are left out\<close>
  "named_channels channels ids = filter (\<lambda>n. n \<noteq> []) (List.map_filter (channel_name channels) ids)"

record bot_row =
  br_type :: string
  br_companion :: string
  br_schedule :: "string option"
  br_url :: "string option"
  br_channels :: "string option"
  br_direct :: "nat option"
  br_match :: "string option"
  br_template :: string

definition bot_row_of :: "bot_companion list \<Rightarrow> bot_channel list \<Rightarrow> bot_trigger \<Rightarrow> bot_row" where
  "bot_row_of companions channels t =
     (let chNames = named_channels channels (nullish (tg_channelIds t) []); feed = isFeedType (tg_type t);
          sch = nullish (tg_schedule t) []; contacts = nullish (tg_contacts t) []; m = nullish (tg_match t) [] in
      \<lparr>br_type = tg_type t,
       br_companion = nullish (companion_name companions (tg_companionId t)) (''#'' @ show_nat (tg_companionId t)),
       br_schedule = (if (tg_type t = ''cron'' \<or> feed) \<and> sch \<noteq> [] then Some (if feed then humanSchedule sch else sch) else None),
       br_url = (if feed \<and> tg_url t \<noteq> [] then Some (tg_url t) else None),
       br_channels = (if chNames \<noteq> [] then Some (join '', '' chNames) else None),
       br_direct = (if feed \<and> contacts \<noteq> [] then Some (length contacts) else None),
       br_match = (if m \<noteq> [] then Some (''match: '' @ join (''  '' @ [glyph_middot] @ ''  '') m) else None),
       br_template = tg_template t\<rparr>)"

record bots_page =
  bp_editing :: "bot_trigger option option"  \<comment> \<open>the inner \<open>None\<close> is a new bot\<close>
  bp_confirming :: "nat option"
  bp_toasts :: "(toast_kind \<times> string) list"

definition bot_editable :: "bool \<Rightarrow> bot_companion list option \<Rightarrow> bot_channel list option \<Rightarrow> bool" where
  \<comment> \<open>the add button, and the editor, wait for both lists\<close>
  "bot_editable loading companions channels \<longleftrightarrow> \<not> loading \<and> companions \<noteq> None \<and> channels \<noteq> None"

definition removeBot :: "bots_page \<Rightarrow> bot_trigger \<Rightarrow> bots_page \<times> config_call" where
  "removeBot p t = (p\<lparr>bp_confirming := None\<rparr>, DeleteTrigger (tg_id t))"

definition bot_removed :: "string option \<Rightarrow> bots_page \<Rightarrow> bots_page \<times> bool" where  \<comment> \<open>and whether the list is loaded again\<close>
  "bot_removed denied p =
     (case denied of
        None \<Rightarrow> (p\<lparr>bp_toasts := bp_toasts p @ [(SuccessToast, ''Bot removed'')]\<rparr>, True)
      | Some e \<Rightarrow> (p\<lparr>bp_toasts := bp_toasts p @ [(ErrorToast, e)]\<rparr>, False))"

section \<open>The form\<close>

datatype bot_where = Anywhere | NearPoint | InRegions

record bot_form =
  bf_companionId :: nat
  bf_type :: string
  bf_template :: string
  bf_channels :: "string list"
  bf_match :: "string list"
  bf_failover :: bool
  bf_failoverPattern :: string
  bf_failoverTimeout :: string
  bf_contacts :: "string list"
  bf_schedule :: string
  bf_pollEvery :: string
  bf_pollUnit :: string
  bf_url :: string
  bf_where :: bot_where
  bf_regionIds :: "string list"
  bf_nearLat :: string
  bf_nearLon :: string
  bf_nearKm :: string
  bf_maxRetries :: string
  bf_retryTimeout :: string
  bf_pathHashSize :: string
  bf_floodScope :: string

definition default_failover :: string where
  "default_failover = ''^@'' @ [backslash] @ ''[{{.Sender | reQuote}}'' @ [backslash] @ ''].+''"

definition opened_type :: "bot_trigger option \<Rightarrow> string" where
  "opened_type t = (case t of None \<Rightarrow> ''group'' | Some g \<Rightarrow> if tg_type g = ''channel'' then ''group'' else tg_type g)"

definition opened_bot :: "(rat \<Rightarrow> string) \<Rightarrow> bot_companion list \<Rightarrow> bot_channel list \<Rightarrow> bot_trigger option \<Rightarrow> bot_form" where
  "opened_bot num companions channels t =
     (let sched = Option.bind t tg_schedule; poll = parsePollInterval sched; loc = Option.bind t tg_location;
          regs = Option.bind t tg_regions; pattern = nullish (map_option tg_failoverPattern t) [];
          timeout = nullish (map_option tg_failoverTimeout t) 0 in
      \<lparr>bf_companionId = (case t of Some g \<Rightarrow> tg_companionId g | None \<Rightarrow> (case companions of c # _ \<Rightarrow> bc_id c | [] \<Rightarrow> 0)),
       bf_type = opened_type t,
       bf_template = nullish (map_option tg_template t) [],
       bf_channels = named_channels channels (nullish (Option.bind t tg_channelIds) []),
       bf_match = nullish (Option.bind t tg_match) [],
       bf_failover = (pattern \<noteq> []),
       bf_failoverPattern = or_str pattern default_failover,
       bf_failoverTimeout = num (if timeout = 0 then 10 else timeout),
       bf_contacts = nullish (Option.bind t tg_contacts) [],
       bf_schedule = nullish sched [],
       bf_pollEvery = fst poll, bf_pollUnit = snd poll,
       bf_url = nullish (map_option tg_url t) [],
       bf_where = (if loc \<noteq> None then NearPoint else if regs \<noteq> None then InRegions else Anywhere),
       bf_regionIds = nullish regs [],
       bf_nearLat = number_box num (map_option tl_lat loc),
       bf_nearLon = number_box num (map_option tl_lon loc),
       bf_nearKm = (case loc of Some l \<Rightarrow> num (tl_radiusKm l) | None \<Rightarrow> ''0''),
       bf_maxRetries = (case Option.bind t tg_maxRetries of Some x \<Rightarrow> num x | None \<Rightarrow> ''3''),
       bf_retryTimeout = (case Option.bind t tg_retryTimeout of Some x \<Rightarrow> num x | None \<Rightarrow> ''5''),
       bf_pathHashSize = (case Option.bind t tg_pathHashSize of Some x \<Rightarrow> num x | None \<Rightarrow> ''default''),
       bf_floodScope = nullish (map_option tg_floodScope t) ''inherit''\<rparr>)"

definition pathHashSizeHint :: "(rat \<Rightarrow> string) \<Rightarrow> bot_companion list \<Rightarrow> bot_form \<Rightarrow> string option" where
  "pathHashSizeHint num companions f =
     (if bf_pathHashSize f = ''0'' then Some ''answers with the size the message arrived on''
      else if bf_pathHashSize f \<noteq> ''default'' then None
      else Some (case Option.bind (find (\<lambda>c. bc_id c = bf_companionId f) companions) bc_pathHashSize of
          Some own \<Rightarrow> ''this companion sends '' @ num own @ '' byte'' @ (if own > 1 then ''s'' else [])
        | None \<Rightarrow> ''this companion inherits the size from Settings''))"

definition bot_near :: "bot_form \<Rightarrow> trigger_location option" where
  "bot_near f =
     (if bf_type f = ''cap'' \<and> bf_where f = NearPoint then parseLocation (bf_nearLat f) (bf_nearLon f) (bf_nearKm f) else None)"

definition nearInvalid :: "bot_form \<Rightarrow> bool" where
  "nearInvalid f \<longleftrightarrow> bf_type f = ''cap'' \<and> bf_where f = NearPoint \<and> bot_near f = None"

definition bot_regions :: "bot_form \<Rightarrow> string list option" where
  "bot_regions f = (if bf_type f = ''cap'' \<and> bf_where f = InRegions then Some (bf_regionIds f) else None)"

definition regionsMissing :: "bot_form \<Rightarrow> bool" where
  "regionsMissing f \<longleftrightarrow> bot_regions f = Some []"

definition companionPosition :: "bot_companion list \<Rightarrow> bot_form \<Rightarrow> (rat \<times> rat) option" where
  "companionPosition companions f =
     (case find (\<lambda>c. bc_id c = bf_companionId f) companions of
        Some c \<Rightarrow> (case (bc_latitude c, bc_longitude c) of (Some la, Some lo) \<Rightarrow> Some (la, lo) | _ \<Rightarrow> None)
      | None \<Rightarrow> None)"

definition companionChannels :: "bot_channel list \<Rightarrow> bot_form \<Rightarrow> bot_channel list" where
  "companionChannels channels f = filter (\<lambda>ch. bh_companionId ch = bf_companionId f) channels"

definition nameToId :: "bot_channel list \<Rightarrow> bot_form \<Rightarrow> string \<Rightarrow> nat option" where
  "nameToId channels f n = map_of (rev (map (\<lambda>ch. (bh_name ch, bh_id ch)) (companionChannels channels f))) n"

section \<open>What a save sends\<close>

definition trimmed_entries :: "string list \<Rightarrow> string list" where
  "trimmed_entries xs = filter (\<lambda>s. s \<noteq> []) (map trim xs)"

definition unless_empty :: "bool \<Rightarrow> 'a list \<Rightarrow> 'a list option" where
  "unless_empty applies xs = (if applies \<and> xs \<noteq> [] then Some xs else None)"

definition bot_input :: "bot_channel list \<Rightarrow> bot_form \<Rightarrow> trigger_input" where
  "bot_input channels f =
     (let feed = isFeedType (bf_type f); fail = bf_type f = ''group'' \<and> bf_failover f in
      \<lparr>ti_companionId = bf_companionId f, ti_type = bf_type f, ti_template = bf_template f,
       ti_channelIds = List.map_filter (nameToId channels f) (bf_channels f),
       ti_match = unless_empty (bf_type f \<noteq> ''cron'') (trimmed_entries (bf_match f)),
       ti_contacts = unless_empty (bf_type f = ''dm'' \<or> feed) (trimmed_entries (bf_contacts f)),
       ti_schedule = (if feed then Some (every_prefix @ trim (bf_pollEvery f) @ bf_pollUnit f)
                      else if bf_type f = ''cron'' then Some (bf_schedule f) else None),
       ti_url = (if feed then Some (trim (bf_url f)) else None),
       ti_location = bot_near f, ti_regions = bot_regions f,
       ti_failoverPattern = (if fail then trim (bf_failoverPattern f) else []),
       ti_failoverTimeout = (if fail then js_number (bf_failoverTimeout f) else Some 0),
       ti_maxRetries = int_or (bf_maxRetries f) 3, ti_retryTimeout = int_or (bf_retryTimeout f) 5,
       ti_pathHashSize = (if bf_pathHashSize f = ''default'' then None else map_option of_int (parse_int (bf_pathHashSize f))),
       ti_floodScope = bf_floodScope f\<rparr>)"

definition bot_valid :: "bot_form \<Rightarrow> bool" where
  "bot_valid f \<longleftrightarrow>
     trim (bf_template f) \<noteq> []
     \<and> (bf_type f \<noteq> ''group'' \<or> \<not> bf_failover f \<or> trim (bf_failoverPattern f) \<noteq> [] \<and> seconds_text (bf_failoverTimeout f))
     \<and> (bf_type f = ''dm'' \<or> bf_channels f \<noteq> [] \<or> isFeedType (bf_type f) \<and> bf_contacts f \<noteq> [])
     \<and> (bf_type f \<noteq> ''cron'' \<or> trim (bf_schedule f) \<noteq> [])
     \<and> (\<not> isFeedType (bf_type f) \<or> positive_text (trim (bf_pollEvery f)))
     \<and> (\<not> isFeedType (bf_type f) \<or> feed_url (trim (bf_url f)))
     \<and> \<not> nearInvalid f \<and> \<not> regionsMissing f"

definition json_opt :: "('a \<Rightarrow> json) \<Rightarrow> 'a option \<Rightarrow> json" where
  "json_opt f x = (case x of Some v \<Rightarrow> f v | None \<Rightarrow> JNull)"

definition json_strs :: "string list \<Rightarrow> json" where
  "json_strs xs = JArr (map JStr xs)"

definition location_json :: "trigger_location \<Rightarrow> json" where
  "location_json l = JObj [(''lat'', JNum (tl_lat l)), (''lon'', JNum (tl_lon l)), (''radiusKm'', JNum (tl_radiusKm l))]"

definition trigger_json :: "trigger_input \<Rightarrow> json" where
  "trigger_json i = JObj
     [(''companionId'', JNum (of_nat (ti_companionId i))), (''type'', JStr (ti_type i)), (''template'', JStr (ti_template i)),
      (''channelIds'', JArr (map (\<lambda>n. JNum (of_nat n)) (ti_channelIds i))),
      (''match'', json_opt json_strs (ti_match i)), (''contacts'', json_opt json_strs (ti_contacts i)),
      (''schedule'', json_opt JStr (ti_schedule i)), (''url'', json_opt JStr (ti_url i)),
      (''location'', json_opt location_json (ti_location i)), (''regions'', json_opt json_strs (ti_regions i)),
      (''failoverPattern'', JStr (ti_failoverPattern i)), (''failoverTimeout'', json_num (ti_failoverTimeout i)),
      (''maxRetries'', JNum (of_int (ti_maxRetries i))), (''retryTimeout'', JNum (of_int (ti_retryTimeout i))),
      (''pathHashSize'', json_num (ti_pathHashSize i)), (''floodScope'', JStr (ti_floodScope i))]"

definition save_bot :: "bot_channel list \<Rightarrow> bot_trigger option \<Rightarrow> bool \<Rightarrow> bot_form \<Rightarrow> config_call option" where
  \<comment> \<open>the button is off while saving\<close>
  "save_bot channels t saving f =
     (if saving \<or> \<not> bot_valid f then None
      else Some (SaveTrigger (trigger_json (bot_input channels f)) (map_option tg_id t)))"

definition bot_saved :: "bot_trigger option \<Rightarrow> string option \<Rightarrow> bots_page \<Rightarrow> bots_page \<times> bool" where
  "bot_saved t denied p =
     (case denied of
        None \<Rightarrow> (p\<lparr>bp_toasts := bp_toasts p @ [(SuccessToast, if t \<noteq> None then ''Bot saved'' else ''Bot added'')], bp_editing := None\<rparr>, True)
      | Some e \<Rightarrow> (p\<lparr>bp_toasts := bp_toasts p @ [(ErrorToast, e)]\<rparr>, False))"

definition test_disabled :: "bot_form \<Rightarrow> string option" where
  "test_disabled f =
     (if \<not> feed_url (trim (bf_url f)) then Some ''Enter the feed's http or https address above to test it.''
      else if nearInvalid f then Some ''Finish the location above to test it.''
      else if regionsMissing f then Some ''Pick at least one region above to test it.''
      else None)"

section \<open>Editing the form\<close>

text \<open>A pattern is one text; with a picker of fields it is \<open>field:rest\<close>, and the field is what stands before the first
  colon.\<close>

definition splitEntry :: "string \<Rightarrow> string \<times> string" where
  "splitEntry entry =
     (case index_of '':'' entry of None \<Rightarrow> ([], entry) | Some i \<Rightarrow> (take i entry, drop (i + 1) entry))"

definition setEntry :: "string list \<Rightarrow> nat \<Rightarrow> string \<Rightarrow> string list" where
  "setEntry values i entry = map (\<lambda>(v, j). if j = i then entry else v) (zip values [0..<length values])"

definition entry_text :: "string list option \<Rightarrow> string \<Rightarrow> string" where  \<comment> \<open>what the row's input shows\<close>
  "entry_text prefixOptions value = (if prefixOptions \<noteq> None then snd (splitEntry value) else value)"

definition entry_typed :: "string list option \<Rightarrow> nat \<Rightarrow> string \<Rightarrow> string list \<Rightarrow> string list" where
  "entry_typed prefixOptions i t values =
     (if i < length values
      then setEntry values i (if prefixOptions \<noteq> None then fst (splitEntry (values ! i)) @ '':'' @ t else t) else values)"

definition entry_field :: "nat \<Rightarrow> string \<Rightarrow> string list \<Rightarrow> string list" where
  "entry_field i p values =
     (if i < length values then setEntry values i (p @ '':'' @ snd (splitEntry (values ! i))) else values)"

definition entry_removed :: "nat \<Rightarrow> string list \<Rightarrow> string list" where
  "entry_removed i values = map fst (filter (\<lambda>(v, j). j \<noteq> i) (zip values [0..<length values]))"

definition entry_added :: "string list option \<Rightarrow> string list \<Rightarrow> string list" where
  "entry_added prefixOptions values = values @ [case prefixOptions of Some (p # _) \<Rightarrow> p @ '':'' | _ \<Rightarrow> []]"

text \<open>The channels: what is not selected is offered.\<close>

definition available_channels :: "string list \<Rightarrow> string list \<Rightarrow> string list" where
  "available_channels options selected = filter (\<lambda>n. n \<notin> set selected) options"

definition channel_added :: "string \<Rightarrow> string list \<Rightarrow> string list" where
  "channel_added n selected = (if n \<in> set selected then selected else selected @ [n])"

definition channel_removed :: "string \<Rightarrow> string list \<Rightarrow> string list" where
  "channel_removed n selected = filter (\<lambda>c. c \<noteq> n) selected"

definition changeCompanion :: "nat \<Rightarrow> bot_form \<Rightarrow> bot_form" where
  "changeCompanion i f = f\<lparr>bf_companionId := i, bf_channels := []\<rparr>"

definition changeType :: "string \<Rightarrow> bot_form \<Rightarrow> bot_form" where
  "changeType u f =
     f\<lparr>bf_match := (if isFeedType u \<noteq> isFeedType (bf_type f) then [] else bf_match f),
       bf_pathHashSize := (if \<not> answersAMessage u \<and> bf_pathHashSize f = ''0'' then ''default'' else bf_pathHashSize f),
       bf_type := u\<rparr>"

definition path_options :: "string \<Rightarrow> string list" where
  "path_options t = ''default'' # (if answersAMessage t then [''0''] else []) @ [''1'', ''2'', ''3'']"

datatype bot_edit =
    PickCompanion nat
  | PickType string
  | TypeTemplate string
  | AddBotChannel string
  | RemoveBotChannel string
  | AddPattern
  | TypePattern nat string
  | FieldPattern nat string
  | RemovePattern nat
  | SwitchFailover bool
  | TypeFailoverPattern string
  | TypeFailoverTimeout string
  | AddContact string
  | RemoveContact nat
  | TypeSchedule string
  | TypePollEvery string
  | PickPollUnit string
  | TypeUrl string
  | PickWhere bot_where
  | PickBotRegions "string list"
  | TypeLat string
  | TypeLon string
  | TypeKm string
  | UseCompanionPosition
  | TypeMaxRetries string
  | TypeRetryTimeout string
  | PickPathHashSize string
  | PickFloodScope string

text \<open>An edit that no control offers does not happen.\<close>

fun bot_edited :: "(rat \<Rightarrow> string) \<Rightarrow> bot_companion list \<Rightarrow> bot_channel list \<Rightarrow> bot_edit \<Rightarrow> bot_form \<Rightarrow> bot_form" where
  "bot_edited num cs chs (PickCompanion i) f = (if i \<in> bc_id ` set cs then changeCompanion i f else f)"
| "bot_edited num cs chs (PickType t) f = (if t \<in> set type_opts then changeType t f else f)"
| "bot_edited num cs chs (TypeTemplate t) f = f\<lparr>bf_template := t\<rparr>"
| "bot_edited num cs chs (AddBotChannel n) f =
     (if n \<in> set (available_channels (map bh_name (companionChannels chs f)) (bf_channels f))
      then f\<lparr>bf_channels := channel_added n (bf_channels f)\<rparr> else f)"
| "bot_edited num cs chs (RemoveBotChannel n) f = f\<lparr>bf_channels := channel_removed n (bf_channels f)\<rparr>"
| "bot_edited num cs chs AddPattern f = f\<lparr>bf_match := entry_added (fieldOptions (bf_type f)) (bf_match f)\<rparr>"
| "bot_edited num cs chs (TypePattern i t) f = f\<lparr>bf_match := entry_typed (fieldOptions (bf_type f)) i t (bf_match f)\<rparr>"
| "bot_edited num cs chs (FieldPattern i p) f =
     (if p \<in> set (nullish (fieldOptions (bf_type f)) []) then f\<lparr>bf_match := entry_field i p (bf_match f)\<rparr> else f)"
| "bot_edited num cs chs (RemovePattern i) f = f\<lparr>bf_match := entry_removed i (bf_match f)\<rparr>"
| "bot_edited num cs chs (SwitchFailover b) f = f\<lparr>bf_failover := b\<rparr>"
| "bot_edited num cs chs (TypeFailoverPattern t) f = f\<lparr>bf_failoverPattern := t\<rparr>"
| "bot_edited num cs chs (TypeFailoverTimeout t) f = f\<lparr>bf_failoverTimeout := t\<rparr>"
| "bot_edited num cs chs (AddContact k) f = (if hex64 k then f\<lparr>bf_contacts := list_pick k (bf_contacts f)\<rparr> else f)"
| "bot_edited num cs chs (RemoveContact i) f = f\<lparr>bf_contacts := list_remove i (bf_contacts f)\<rparr>"
| "bot_edited num cs chs (TypeSchedule t) f = f\<lparr>bf_schedule := t\<rparr>"
| "bot_edited num cs chs (TypePollEvery t) f = f\<lparr>bf_pollEvery := t\<rparr>"
| "bot_edited num cs chs (PickPollUnit u) f = (if u \<in> {''m'', ''h''} then f\<lparr>bf_pollUnit := u\<rparr> else f)"
| "bot_edited num cs chs (TypeUrl t) f = f\<lparr>bf_url := t\<rparr>"
| "bot_edited num cs chs (PickWhere w) f = f\<lparr>bf_where := w\<rparr>"
| "bot_edited num cs chs (PickBotRegions ids) f = f\<lparr>bf_regionIds := ids\<rparr>"
| "bot_edited num cs chs (TypeLat t) f = f\<lparr>bf_nearLat := t\<rparr>"
| "bot_edited num cs chs (TypeLon t) f = f\<lparr>bf_nearLon := t\<rparr>"
| "bot_edited num cs chs (TypeKm t) f = f\<lparr>bf_nearKm := t\<rparr>"
| "bot_edited num cs chs UseCompanionPosition f =
     (case companionPosition cs f of Some (la, lo) \<Rightarrow> f\<lparr>bf_nearLat := num la, bf_nearLon := num lo\<rparr> | None \<Rightarrow> f)"
| "bot_edited num cs chs (TypeMaxRetries t) f = f\<lparr>bf_maxRetries := t\<rparr>"
| "bot_edited num cs chs (TypeRetryTimeout t) f = f\<lparr>bf_retryTimeout := t\<rparr>"
| "bot_edited num cs chs (PickPathHashSize s) f = (if s \<in> set (path_options (bf_type f)) then f\<lparr>bf_pathHashSize := s\<rparr> else f)"
| "bot_edited num cs chs (PickFloodScope s) f = f\<lparr>bf_floodScope := s\<rparr>"

section \<open>What a saved bot is\<close>

definition located_ok :: "trigger_location \<Rightarrow> bool" where
  "located_ok l \<longleftrightarrow> - 90 \<le> tl_lat l \<and> tl_lat l \<le> 90 \<and> - 180 \<le> tl_lon l \<and> tl_lon l \<le> 180
     \<and> 0 \<le> tl_radiusKm l \<and> tl_radiusKm l \<le> MAX_LOCATION_RADIUS_KM"

definition clean_texts :: "string list \<Rightarrow> bool" where
  "clean_texts xs \<longleftrightarrow> xs \<noteq> [] \<and> list_all (\<lambda>s. s \<noteq> [] \<and> trim s = s) xs"

definition poll_spec :: "string \<Rightarrow> bool" where
  "poll_spec s \<longleftrightarrow> (\<exists>k u. s = every_prefix @ k @ u \<and> positive_text k \<and> u \<in> {''m'', ''h''})"

text \<open>The rules of a trigger, field by field: which belong to which type, and what each may hold.\<close>

definition well_typed :: "bot_channel list \<Rightarrow> trigger_input \<Rightarrow> bool" where
  "well_typed chs i \<longleftrightarrow>
     ti_type i \<in> set type_opts
     \<and> trim (ti_template i) \<noteq> []
     \<and> list_all (\<lambda>n. n \<in> bh_id ` {ch \<in> set chs. bh_companionId ch = ti_companionId i}) (ti_channelIds i)
     \<and> (case ti_match i of None \<Rightarrow> True | Some xs \<Rightarrow> ti_type i \<noteq> ''cron'' \<and> clean_texts xs)
     \<and> (case ti_contacts i of None \<Rightarrow> True | Some xs \<Rightarrow> (ti_type i = ''dm'' \<or> isFeedType (ti_type i)) \<and> clean_texts xs)
     \<and> (ti_type i = ''dm'' \<or> ti_channelIds i \<noteq> [] \<or> isFeedType (ti_type i) \<and> ti_contacts i \<noteq> None)
     \<and> (case ti_schedule i of None \<Rightarrow> answersAMessage (ti_type i)
          | Some s \<Rightarrow> (if isFeedType (ti_type i) then poll_spec s else ti_type i = ''cron'' \<and> trim s \<noteq> []))
     \<and> (case ti_url i of None \<Rightarrow> \<not> isFeedType (ti_type i) | Some u \<Rightarrow> isFeedType (ti_type i) \<and> feed_url u)
     \<and> (case ti_location i of None \<Rightarrow> True | Some l \<Rightarrow> ti_type i = ''cap'' \<and> located_ok l \<and> ti_regions i = None)
     \<and> (case ti_regions i of None \<Rightarrow> True | Some r \<Rightarrow> ti_type i = ''cap'' \<and> r \<noteq> [])
     \<and> (if ti_failoverPattern i = [] then ti_failoverTimeout i = Some 0
        else ti_type i = ''group'' \<and> (\<exists>n\<le>3600. 1 \<le> n \<and> ti_failoverTimeout i = Some (of_nat n)))
     \<and> ti_maxRetries i \<noteq> 0 \<and> ti_retryTimeout i \<noteq> 0
     \<and> (ti_pathHashSize i \<noteq> Some 0 \<or> answersAMessage (ti_type i))"

text \<open>What the form keeps through every edit.\<close>

definition form_ok :: "bot_channel list \<Rightarrow> bot_form \<Rightarrow> bool" where
  "form_ok chs f \<longleftrightarrow>
     bf_type f \<in> set type_opts \<and> bf_pollUnit f \<in> {''m'', ''h''}
     \<and> set (bf_channels f) \<subseteq> bh_name ` set (companionChannels chs f)
     \<and> list_all (\<lambda>k. trim k \<noteq> []) (bf_contacts f)
     \<and> bf_pathHashSize f \<in> set (path_options (bf_type f))"

text \<open>A stored bot the server could hold: its channels are its companion's.\<close>

definition stored_ok :: "bot_channel list \<Rightarrow> bot_trigger \<Rightarrow> bool" where
  "stored_ok chs t \<longleftrightarrow>
     (tg_type t \<in> set type_opts \<or> tg_type t = ''channel'')
     \<and> (\<forall>ch\<in>set chs. bh_id ch \<in> set (nullish (tg_channelIds t) []) \<longrightarrow> bh_companionId ch = tg_companionId t)
     \<and> list_all (\<lambda>k. trim k \<noteq> []) (nullish (tg_contacts t) [])
     \<and> tg_pathHashSize t \<in> {None, Some 0, Some 1, Some 2, Some 3}
     \<and> (tg_pathHashSize t = Some 0 \<longrightarrow> answersAMessage (opened_type (Some t)))"

section \<open>Lemmas\<close>

lemma trim_ends: "trim s \<noteq> [] \<Longrightarrow> \<not> is_space (hd (trim s)) \<and> \<not> is_space (last (trim s))"
proof -
  assume ne: "trim s \<noteq> []"
  define u where "u = trim_start s"
  define r where "r = dropWhile is_space (rev u)"
  have t: "trim s = rev r" by (simp add: trim_def r_def u_def)
  with ne have "r \<noteq> []" by simp
  then have l: "\<not> is_space (last (trim s))" using hd_dropWhile [of is_space "rev u"] by (simp add: t r_def last_rev)
  have "rev u = takeWhile is_space (rev u) @ r" by (simp add: r_def)
  then have "u = rev r @ rev (takeWhile is_space (rev u))" by (metis rev_append rev_rev_ident)
  then have "hd u = hd (trim s)" and "u \<noteq> []" using \<open>r \<noteq> []\<close> by (metis t hd_append2 rev_is_Nil_conv, metis append_is_Nil_conv rev_is_Nil_conv)
  moreover have "\<not> is_space (hd u)" using \<open>u \<noteq> []\<close> unfolding u_def trim_start_def by (rule hd_dropWhile)
  ultimately show ?thesis using l by simp
qed

lemma trim_trim [simp]: "trim (trim s) = trim s"
  using trim_ends [of s] trim_tight [of "trim s"] by (cases "trim s = []") (simp_all add: trim_Nil)

lemma digits_tight: "s \<noteq> [] \<Longrightarrow> list_all is_digit s \<Longrightarrow> trim s = s"
  by (rule trim_tight) (simp_all add: list_all_iff digit_not_space)

lemma js_number_digits: "s \<noteq> [] \<Longrightarrow> list_all is_digit s \<Longrightarrow> js_number s = Some (of_nat (parse_digits s))"
proof -
  assume s: "s \<noteq> []" "list_all is_digit s"
  obtain c t where ct: "s = c # t" using s(1) by (cases s) auto
  have c: "c \<noteq> CHR ''-''" "c \<noteq> CHR ''+''" using s(2) by (auto simp: ct is_digit_def)
  have "digits_of s = (s, [])"
    using s(2) by (simp add: digits_of_def list_all_iff takeWhile_eq_all_conv dropWhile_eq_Nil_conv)
  then have u: "js_unsigned (c # t) = Some (of_nat (parse_digits s))"
    using s(1) by (simp add: js_unsigned_def read_exponent_def ct)
  have tr: "trim s = c # t" using digits_tight [OF s] ct by simp
  show ?thesis unfolding js_number_def tr using c u js_radix_digits [OF s(2)] by (simp add: ct)
qed

lemma int_or_nonzero: "d \<noteq> 0 \<Longrightarrow> int_or s d \<noteq> 0"
  by (simp add: int_or_def split: option.split)

lemma parsed_location: "parseLocation a b c = Some l \<Longrightarrow> located_ok l"
  by (auto simp: parseLocation_def located_ok_def split: option.splits if_splits)

lemma entries_clean: "unless_empty b (trimmed_entries xs) = Some ys \<Longrightarrow> b \<and> clean_texts ys"
  by (auto simp: unless_empty_def trimmed_entries_def clean_texts_def list_all_iff split: if_splits)

lemma entries_given: "list_all (\<lambda>k. trim k \<noteq> []) xs \<Longrightarrow> xs \<noteq> [] \<Longrightarrow> unless_empty True (trimmed_entries xs) \<noteq> None"
  by (cases xs) (simp_all add: unless_empty_def trimmed_entries_def)

lemma channel_name_Some: "channel_name chs i = Some n \<Longrightarrow> \<exists>ch\<in>set chs. bh_id ch = i \<and> bh_name ch = n"
  by (auto simp: channel_name_def dest!: map_of_SomeD)

lemma set_map_filter: "set (List.map_filter g xs) = {y. \<exists>x\<in>set xs. g x = Some y}"
  by (induction xs) (auto simp: List.map_filter_simps split: option.split)

lemma named_channel: "n \<in> set (named_channels chs ids) \<Longrightarrow> \<exists>ch\<in>set chs. bh_id ch \<in> set ids \<and> bh_name ch = n"
  by (auto simp: named_channels_def set_map_filter dest!: channel_name_Some)

lemma nameToId_Some: "nameToId chs f n = Some i \<Longrightarrow> \<exists>ch\<in>set chs. bh_companionId ch = bf_companionId f \<and> bh_id ch = i \<and> bh_name ch = n"
  by (auto simp: nameToId_def companionChannels_def dest!: map_of_SomeD)

lemma nameToId_given: "n \<in> bh_name ` set (companionChannels chs f) \<Longrightarrow> nameToId chs f n \<noteq> None"
  by (auto simp: nameToId_def map_of_eq_None_iff image_image)

lemma poll_unit: "snd (parsePollInterval s) \<in> {''m'', ''h''}"
  by (auto simp: parsePollInterval_def Let_def)

lemma type_opts_cases: "t \<in> set type_opts \<longleftrightarrow> answersAMessage t \<or> t = ''cron'' \<or> isFeedType t"
  by (auto simp: type_opts_def answersAMessage_def isFeedType_def)

lemma removed_subset: "set (list_remove i xs) \<subseteq> set xs"
  by (auto simp: list_remove_def dest: in_set_takeD in_set_dropD)

lemma hex_nonblank: "hex64 k \<Longrightarrow> trim k \<noteq> []"
proof -
  assume k: "hex64 k"
  then obtain c s where "k = c # s" by (cases k) (auto simp: hex64_def)
  with k have "c \<in> set k" "\<not> is_space c" by (auto simp: hex64_def is_hex_def is_digit_def is_space_def)
  then show ?thesis by (rule trim_nonempty)
qed

lemma form_ok_type: "form_ok chs f \<Longrightarrow> t \<in> set type_opts \<Longrightarrow> form_ok chs (changeType t f)"
  by (auto simp: form_ok_def changeType_def companionChannels_def path_options_def)

lemma form_ok_edited: "form_ok chs f \<Longrightarrow> form_ok chs (bot_edited num cs chs e f)"
proof (cases e)
  case (PickType t)
  then show "form_ok chs f \<Longrightarrow> form_ok chs (bot_edited num cs chs e f)" by (simp add: form_ok_type)
qed (auto simp: form_ok_def companionChannels_def changeCompanion_def available_channels_def channel_added_def
      channel_removed_def list_pick_def hex_nonblank list_all_iff split: option.split dest: removed_subset [THEN subsetD])

lemma form_ok_run: "form_ok chs f \<Longrightarrow> form_ok chs (fold (bot_edited num cs chs) es f)"
  by (induction es arbitrary: f) (simp_all add: form_ok_edited)

definition small_numbers :: "(rat \<Rightarrow> string) \<Rightarrow> bool" where  \<comment> \<open>\<open>String\<close> on the sizes a select offers\<close>
  "small_numbers num \<longleftrightarrow> num 0 = ''0'' \<and> num 1 = ''1'' \<and> num 2 = ''2'' \<and> num 3 = ''3''"

lemma form_ok_opened:
  assumes "\<forall>g. t = Some g \<longrightarrow> stored_ok chs g" and "small_numbers num"
  shows "form_ok chs (opened_bot num cs chs t)"
proof (cases t)
  case None
  then show ?thesis using poll_unit [of None]
    by (simp add: form_ok_def opened_bot_def opened_type_def type_opts_def path_options_def named_channels_def List.map_filter_def Let_def)
next
  case (Some g)
  with assms(1) have g: "stored_ok chs g" by simp
  have names: "set (named_channels chs (nullish (tg_channelIds g) [])) \<subseteq> bh_name ` {ch \<in> set chs. bh_companionId ch = tg_companionId g}"
    using g by (auto simp: stored_ok_def dest!: named_channel)
  have path: "(case tg_pathHashSize g of Some x \<Rightarrow> num x | None \<Rightarrow> ''default'') \<in> set (path_options (opened_type (Some g)))"
    using g assms(2) by (auto simp: stored_ok_def small_numbers_def path_options_def)
  have type: "opened_type (Some g) \<in> set type_opts"
    using g by (auto simp: stored_ok_def opened_type_def type_opts_def)
  show ?thesis using g names path type poll_unit [of "tg_schedule g"]
    by (simp add: form_ok_def opened_bot_def Some Let_def companionChannels_def stored_ok_def)
qed

lemma valid_channels: "form_ok chs f \<Longrightarrow> bf_channels f \<noteq> [] \<Longrightarrow> ti_channelIds (bot_input chs f) \<noteq> []"
proof -
  assume ok: "form_ok chs f" and "bf_channels f \<noteq> []"
  then obtain n ns where n: "bf_channels f = n # ns" by (cases "bf_channels f") auto
  with ok have "nameToId chs f n \<noteq> None" by (intro nameToId_given) (simp add: form_ok_def)
  then show ?thesis by (auto simp: bot_input_def Let_def n List.map_filter_simps)
qed

lemma channel_ids_own:
  "list_all (\<lambda>n. n \<in> bh_id ` {ch \<in> set chs. bh_companionId ch = bf_companionId f}) (ti_channelIds (bot_input chs f))"
  by (auto simp: bot_input_def Let_def list_all_iff set_map_filter dest!: nameToId_Some)

lemma valid_well_typed:
  assumes ok: "form_ok chs f" and v: "bot_valid f"
  shows "well_typed chs (bot_input chs f)"
proof -
  let ?i = "bot_input chs f"
  have type: "ti_type ?i = bf_type f" "ti_companionId ?i = bf_companionId f" "ti_template ?i = bf_template f"
    by (simp_all add: bot_input_def Let_def)
  have t: "bf_type f \<in> set type_opts" using ok by (simp add: form_ok_def)
  have feed: "isFeedType (bf_type f) \<Longrightarrow> bf_type f \<noteq> ''dm'' \<and> bf_type f \<noteq> ''cron'' \<and> bf_type f \<noteq> ''group'' \<and> \<not> answersAMessage (bf_type f)"
    by (auto simp: isFeedType_def answersAMessage_def)
  have m: "case ti_match ?i of None \<Rightarrow> True | Some xs \<Rightarrow> bf_type f \<noteq> ''cron'' \<and> clean_texts xs"
    by (auto simp: bot_input_def Let_def split: option.split dest: entries_clean)
  have c: "case ti_contacts ?i of None \<Rightarrow> True | Some xs \<Rightarrow> (bf_type f = ''dm'' \<or> isFeedType (bf_type f)) \<and> clean_texts xs"
    by (auto simp: bot_input_def Let_def split: option.split dest: entries_clean)
  have target: "bf_type f = ''dm'' \<or> ti_channelIds ?i \<noteq> [] \<or> isFeedType (bf_type f) \<and> ti_contacts ?i \<noteq> None"
  proof (cases "bf_type f = ''dm'' \<or> bf_channels f \<noteq> []")
    case True
    then show ?thesis using valid_channels [OF ok] by blast
  next
    case False
    with v have "isFeedType (bf_type f)" "bf_contacts f \<noteq> []" by (simp_all add: bot_valid_def)
    with ok entries_given [of "bf_contacts f"] show ?thesis by (simp add: bot_input_def Let_def form_ok_def)
  qed
  have s: "case ti_schedule ?i of None \<Rightarrow> answersAMessage (bf_type f)
      | Some s \<Rightarrow> (if isFeedType (bf_type f) then poll_spec s else bf_type f = ''cron'' \<and> trim s \<noteq> [])"
    using v ok t unfolding type_opts_cases by (auto simp: bot_input_def Let_def bot_valid_def poll_spec_def form_ok_def)
  have u: "case ti_url ?i of None \<Rightarrow> \<not> isFeedType (bf_type f) | Some u \<Rightarrow> isFeedType (bf_type f) \<and> feed_url u"
    using v by (simp add: bot_input_def Let_def bot_valid_def)
  have l: "case ti_location ?i of None \<Rightarrow> True | Some l \<Rightarrow> bf_type f = ''cap'' \<and> located_ok l \<and> ti_regions ?i = None"
    by (auto simp: bot_input_def Let_def bot_near_def bot_regions_def parsed_location split: option.split)
  have r: "case ti_regions ?i of None \<Rightarrow> True | Some r \<Rightarrow> bf_type f = ''cap'' \<and> r \<noteq> []"
    using v by (auto simp: bot_input_def Let_def bot_valid_def regionsMissing_def bot_regions_def)
  have fo: "if ti_failoverPattern ?i = [] then ti_failoverTimeout ?i = Some 0
      else bf_type f = ''group'' \<and> (\<exists>n\<le>3600. 1 \<le> n \<and> ti_failoverTimeout ?i = Some (of_nat n))"
    using v by (auto simp: bot_input_def Let_def bot_valid_def seconds_text_def js_number_digits)
  have p: "\<not> (ti_pathHashSize ?i = Some 0 \<and> \<not> answersAMessage (bf_type f))"
  proof -
    have "parse_int ''1'' = Some 1 \<and> parse_int ''2'' = Some 2 \<and> parse_int ''3'' = Some 3" by code_simp
    then show ?thesis using ok by (auto simp: bot_input_def Let_def form_ok_def path_options_def)
  qed
  have k: "ti_maxRetries ?i \<noteq> 0" "ti_retryTimeout ?i \<noteq> 0" by (simp_all add: bot_input_def Let_def int_or_nonzero)
  have n: "trim (bf_template f) \<noteq> []" using v by (simp add: bot_valid_def)
  show ?thesis unfolding well_typed_def type
    using t m c target s u l r fo p k n channel_ids_own [of chs f] by blast
qed


definition bot_companions :: "bot_companion list" where
  "bot_companions = [\<lparr>bc_id = 1, bc_name = ''hill'', bc_pathHashSize = None, bc_latitude = Some (- 41), bc_longitude = Some 174\<rparr>]"

definition bot_channels :: "bot_channel list" where
  "bot_channels =
     [\<lparr>bh_id = 4, bh_companionId = 1, bh_name = ''alerts''\<rparr>, \<lparr>bh_id = 5, bh_companionId = 2, bh_name = ''alerts''\<rparr>]"

definition new_alert_bot :: "bot_edit list" where
  "new_alert_bot =
     [PickType ''cap'', TypeUrl '' https://a.example/cap '', TypePollEvery ''15'', AddBotChannel ''alerts'', AddPattern,
      FieldPattern 0 ''severity'', TypePattern 0 ''^Extreme$'', PickWhere NearPoint, UseCompanionPosition, TypeKm ''20'',
      TypeTemplate ''{{.Headline}}'', TypeMaxRetries ''0'']"

lemma whole_text_small: "small_numbers whole_text"
  unfolding small_numbers_def by code_simp

lemma new_alert_sent:
  "bot_input bot_channels (fold (bot_edited whole_text bot_companions bot_channels) new_alert_bot
      (opened_bot whole_text bot_companions bot_channels None))
   = \<lparr>ti_companionId = 1, ti_type = ''cap'', ti_template = ''{{.Headline}}'', ti_channelIds = [4],
      ti_match = Some [''severity:^Extreme$''], ti_contacts = None, ti_schedule = Some ''@every 15m'',
      ti_url = Some ''https://a.example/cap'', ti_location = Some \<lparr>tl_lat = - 41, tl_lon = 174, tl_radiusKm = 20\<rparr>,
      ti_regions = None, ti_failoverPattern = [], ti_failoverTimeout = Some 0, ti_maxRetries = 3, ti_retryTimeout = 5,
      ti_pathHashSize = None, ti_floodScope = ''inherit''\<rparr>"
  by code_simp

lemma new_alert_valid:
  "bot_valid (fold (bot_edited whole_text bot_companions bot_channels) new_alert_bot
     (opened_bot whole_text bot_companions bot_channels None))"
  by code_simp


section \<open>A bot opened again\<close>

definition as_stored :: "nat \<Rightarrow> trigger_input \<Rightarrow> bot_trigger" where  \<comment> \<open>a server that keeps what it was sent\<close>
  "as_stored n i =
     \<lparr>tg_id = n, tg_companionId = ti_companionId i, tg_type = ti_type i, tg_template = ti_template i, tg_match = ti_match i,
      tg_contacts = ti_contacts i, tg_channelIds = Some (ti_channelIds i), tg_failoverPattern = ti_failoverPattern i,
      tg_failoverTimeout = nullish (ti_failoverTimeout i) 0, tg_retryTimeout = Some (of_int (ti_retryTimeout i)),
      tg_maxRetries = Some (of_int (ti_maxRetries i)), tg_pathHashSize = ti_pathHashSize i, tg_schedule = ti_schedule i,
      tg_url = nullish (ti_url i) [], tg_location = ti_location i, tg_regions = ti_regions i, tg_floodScope = ti_floodScope i\<rparr>"

definition sent_numbers :: "trigger_input \<Rightarrow> rat list" where
  "sent_numbers i =
     (case ti_location i of Some l \<Rightarrow> [tl_lat l, tl_lon l, tl_radiusKm l] | None \<Rightarrow> [])
     @ (if ti_failoverPattern i = [] then [] else given (ti_failoverTimeout i))"

definition texts_faithful :: "(rat \<Rightarrow> string) \<Rightarrow> trigger_input \<Rightarrow> bool" where
  "texts_faithful num i \<longleftrightarrow>
     small_numbers num \<and> (\<forall>x\<in>set (sent_numbers i). reads_back num x)
     \<and> (\<forall>n\<in>{ti_maxRetries i, ti_retryTimeout i}. parse_int (num (of_int n)) = Some n)"

definition channels_ok :: "bot_channel list \<Rightarrow> bool" where
  "channels_ok chs \<longleftrightarrow> distinct (map bh_id chs) \<and> [] \<notin> bh_name ` set chs"

lemma entries_again: "trimmed_entries (trimmed_entries xs) = trimmed_entries xs"
  by (induction xs) (simp_all add: trimmed_entries_def)

lemma unless_again:
  "unless_empty b (trimmed_entries (nullish (unless_empty b (trimmed_entries xs)) [])) = unless_empty b (trimmed_entries xs)"
  using entries_again [of xs] by (simp add: unless_empty_def trimmed_entries_def [of "[]"])

lemma channel_name_own: "channels_ok chs \<Longrightarrow> ch \<in> set chs \<Longrightarrow> channel_name chs (bh_id ch) = Some (bh_name ch)"
proof -
  assume a: "channels_ok chs" "ch \<in> set chs"
  let ?m = "map (\<lambda>ch. (bh_id ch, bh_name ch)) chs"
  have "distinct (map fst (rev ?m))" using a(1) by (simp add: channels_ok_def rev_map [symmetric] o_def)
  moreover have "(bh_id ch, bh_name ch) \<in> set (rev ?m)" using a(2) by auto
  ultimately show ?thesis unfolding channel_name_def by (rule map_of_is_SomeI)
qed

lemma names_and_back:
  "(\<And>i. i \<in> set ids \<Longrightarrow> \<exists>n. n \<noteq> [] \<and> channel_name chs i = Some n \<and> g n = Some i)
   \<Longrightarrow> List.map_filter g (named_channels chs ids) = ids"
proof (induction ids)
  case Nil
  then show ?case by (simp add: named_channels_def List.map_filter_simps)
next
  case (Cons i ids)
  from Cons.prems [of i] obtain n where "n \<noteq> []" "channel_name chs i = Some n" "g n = Some i" by auto
  moreover have "List.map_filter g (named_channels chs ids) = ids" using Cons.prems by (intro Cons.IH) simp
  ultimately show ?case by (simp add: named_channels_def List.map_filter_simps)
qed

lemma channels_again:
  assumes "channels_ok chs" and "bf_companionId f' = bf_companionId f"
  shows "List.map_filter (nameToId chs f') (named_channels chs (List.map_filter (nameToId chs f) ns))
    = List.map_filter (nameToId chs f) ns"
proof (rule names_and_back)
  fix i assume "i \<in> set (List.map_filter (nameToId chs f) ns)"
  then obtain n where n: "nameToId chs f n = Some i" by (auto simp: set_map_filter)
  then obtain ch where ch: "ch \<in> set chs" "bh_id ch = i" "bh_name ch = n" using nameToId_Some by blast
  have "n \<noteq> []" using assms(1) imageI [OF ch(1), of bh_name] ch(3) by (auto simp: channels_ok_def)
  moreover have "channel_name chs i = Some n" using channel_name_own [OF assms(1) ch(1)] ch by simp
  moreover have "nameToId chs f' n = Some i" using n assms(2) by (simp add: nameToId_def companionChannels_def)
  ultimately show "\<exists>n. n \<noteq> [] \<and> channel_name chs i = Some n \<and> nameToId chs f' n = Some i" by blast
qed

lemma positive_digits: "positive_text k \<Longrightarrow> k \<noteq> [] \<and> list_all is_digit k \<and> trim k = k"
  by (simp add: positive_text_def digits_tight)

lemma poll_again: "positive_text k \<Longrightarrow> u \<in> {''m'', ''h''} \<Longrightarrow> parsePollInterval (Some (every_prefix @ k @ u)) = (k, u)"
proof -
  assume k: "positive_text k" and u: "u \<in> {''m'', ''h''}"
  have d: "\<forall>c\<in>set k. is_digit c" "k \<noteq> []" using positive_digits [OF k] by (simp_all add: list_all_iff)
  have "\<not> is_digit (hd u) \<and> u \<noteq> []" using u by (auto simp: is_digit_def)
  then have "takeWhile is_digit u = []" "dropWhile is_digit u = u" by (cases u; simp)+
  then have "takeWhile is_digit (k @ u) = k" "dropWhile is_digit (k @ u) = u" using d by simp_all
  moreover have "starts_with every_prefix (every_prefix @ k @ u)" by (simp add: starts_with_iff)
  ultimately show ?thesis using u d by (simp add: parsePollInterval_def Let_def)
qed

lemma location_again:
  "located_ok l \<Longrightarrow> reads_back num (tl_lat l) \<Longrightarrow> reads_back num (tl_lon l) \<Longrightarrow> reads_back num (tl_radiusKm l)
   \<Longrightarrow> parseLocation (num (tl_lat l)) (num (tl_lon l)) (num (tl_radiusKm l)) = Some l"
  by (simp add: parseLocation_def parseNumber_def reads_back_def located_ok_def)

lemma path_again:
  assumes "small_numbers num" and "s \<in> set (path_options t)"
  shows "(case (if s = ''default'' then None else map_option of_int (parse_int s)) of Some x \<Rightarrow> num x | None \<Rightarrow> ''default'') = s"
proof -
  have "parse_int ''0'' = Some 0 \<and> parse_int ''1'' = Some 1 \<and> parse_int ''2'' = Some 2 \<and> parse_int ''3'' = Some 3" by code_simp
  moreover have "s \<in> {''default'', ''0'', ''1'', ''2'', ''3''}" using assms(2) by (auto simp: path_options_def split: if_splits)
  ultimately show ?thesis using assms(1) by (auto simp: small_numbers_def)
qed

lemma int_again: "parse_int (num (of_int (int_or s d))) = Some (int_or s d) \<Longrightarrow> d \<noteq> 0 \<Longrightarrow> int_or (num (of_int (int_or s d))) d' = int_or s d"
  using int_or_nonzero [of d s] by (simp add: int_or_def [of "num (of_int (int_or s d))"])

lemma bot_input_fields:
  "ti_companionId (bot_input chs g) = bf_companionId g" "ti_type (bot_input chs g) = bf_type g"
  "ti_template (bot_input chs g) = bf_template g"
  "ti_channelIds (bot_input chs g) = List.map_filter (nameToId chs g) (bf_channels g)"
  "ti_match (bot_input chs g) = unless_empty (bf_type g \<noteq> ''cron'') (trimmed_entries (bf_match g))"
  "ti_contacts (bot_input chs g) = unless_empty (bf_type g = ''dm'' \<or> isFeedType (bf_type g)) (trimmed_entries (bf_contacts g))"
  "ti_schedule (bot_input chs g) = (if isFeedType (bf_type g) then Some (every_prefix @ trim (bf_pollEvery g) @ bf_pollUnit g)
     else if bf_type g = ''cron'' then Some (bf_schedule g) else None)"
  "ti_url (bot_input chs g) = (if isFeedType (bf_type g) then Some (trim (bf_url g)) else None)"
  "ti_location (bot_input chs g) = bot_near g" "ti_regions (bot_input chs g) = bot_regions g"
  "ti_failoverPattern (bot_input chs g) = (if bf_type g = ''group'' \<and> bf_failover g then trim (bf_failoverPattern g) else [])"
  "ti_failoverTimeout (bot_input chs g) = (if bf_type g = ''group'' \<and> bf_failover g then js_number (bf_failoverTimeout g) else Some 0)"
  "ti_maxRetries (bot_input chs g) = int_or (bf_maxRetries g) 3" "ti_retryTimeout (bot_input chs g) = int_or (bf_retryTimeout g) 5"
  "ti_pathHashSize (bot_input chs g) =
     (if bf_pathHashSize g = ''default'' then None else map_option of_int (parse_int (bf_pathHashSize g)))"
  "ti_floodScope (bot_input chs g) = bf_floodScope g" "trigger_input.more (bot_input chs g) = ()"
  by (simp_all add: bot_input_def Let_def)

lemma bot_reopened:
  assumes ok: "form_ok chs f" and v: "bot_valid f" and c: "channels_ok chs" and num: "texts_faithful num (bot_input chs f)"
  shows "bot_input chs (opened_bot num cs chs (Some (as_stored n (bot_input chs f)))) = bot_input chs f"
proof -
  let ?i = "bot_input chs f"
  let ?f = "opened_bot num cs chs (Some (as_stored n ?i))"
  have num: "small_numbers num" "\<forall>x\<in>set (sent_numbers ?i). reads_back num x"
      "parse_int (num (of_int (ti_maxRetries ?i))) = Some (ti_maxRetries ?i)"
      "parse_int (num (of_int (ti_retryTimeout ?i))) = Some (ti_retryTimeout ?i)"
    using num by (simp_all add: texts_faithful_def)
  have t: "bf_type f \<in> set type_opts" "bf_pollUnit f \<in> {''m'', ''h''}" "bf_pathHashSize f \<in> set (path_options (bf_type f))"
    using ok by (simp_all add: form_ok_def)
  have type: "bf_type ?f = bf_type f" "bf_companionId ?f = bf_companionId f" "bf_template ?f = bf_template f"
      "bf_floodScope ?f = bf_floodScope f"
    using t(1) by (auto simp: opened_bot_def opened_type_def as_stored_def bot_input_def Let_def type_opts_def)
  have chans: "List.map_filter (nameToId chs ?f) (bf_channels ?f) = ti_channelIds ?i"
    using channels_again [OF c type(2)] by (simp add: opened_bot_def Let_def as_stored_def bot_input_def)
  have m: "unless_empty (bf_type f \<noteq> ''cron'') (trimmed_entries (bf_match ?f)) = ti_match ?i"
    by (simp add: opened_bot_def Let_def as_stored_def bot_input_def unless_again)
  have con: "unless_empty (bf_type f = ''dm'' \<or> isFeedType (bf_type f)) (trimmed_entries (bf_contacts ?f)) = ti_contacts ?i"
    by (simp add: opened_bot_def Let_def as_stored_def bot_input_def unless_again)
  have poll: "positive_text (trim (bf_pollEvery f))" if "isFeedType (bf_type f)" using that v by (simp add: bot_valid_def)
  have sched: "(if isFeedType (bf_type f) then Some (every_prefix @ trim (bf_pollEvery ?f) @ bf_pollUnit ?f)
      else if bf_type f = ''cron'' then Some (bf_schedule ?f) else None) = ti_schedule ?i"
    using poll poll_again [OF poll t(2)]
    by (simp add: opened_bot_def Let_def as_stored_def bot_input_def)
  have url: "(if isFeedType (bf_type f) then Some (trim (bf_url ?f)) else None) = ti_url ?i"
    by (simp add: opened_bot_def Let_def as_stored_def bot_input_def)
  have wh: "bf_where ?f = (if bot_near f \<noteq> None then NearPoint else if bot_regions f \<noteq> None then InRegions else Anywhere)"
      "bf_regionIds ?f = nullish (bot_regions f) []"
    by (simp_all add: opened_bot_def Let_def as_stored_def bot_input_def)
  have near: "bot_near ?f = bot_near f"
  proof (cases "bot_near f")
    case None
    then show ?thesis using wh by (simp add: bot_near_def)
  next
    case (Some l)
    then have "bf_type f = ''cap''" "located_ok l" by (auto simp: bot_near_def parsed_location split: if_splits)
    moreover have "reads_back num (tl_lat l)" "reads_back num (tl_lon l)" "reads_back num (tl_radiusKm l)"
      using num(2) Some by (simp_all add: sent_numbers_def bot_input_def Let_def)
    moreover have "bf_nearLat ?f = num (tl_lat l)" "bf_nearLon ?f = num (tl_lon l)" "bf_nearKm ?f = num (tl_radiusKm l)"
      using Some by (simp_all add: opened_bot_def Let_def as_stored_def bot_input_def number_box_def)
    moreover have "bf_where ?f = NearPoint" using wh Some by simp
    ultimately show ?thesis using Some location_again [of l num] by (simp add: bot_near_def [of ?f] type)
  qed
  have regs: "bot_regions ?f = bot_regions f"
    using wh type(1) by (auto simp: bot_regions_def bot_near_def split: if_splits)
  have path: "bf_pathHashSize ?f = bf_pathHashSize f"
    using path_again [OF num(1) t(3)] by (simp add: opened_bot_def Let_def as_stored_def bot_input_def)
  have ints: "int_or (bf_maxRetries ?f) 3 = ti_maxRetries ?i" "int_or (bf_retryTimeout ?f) 5 = ti_retryTimeout ?i"
    using num(3,4) int_again [of num "bf_maxRetries f" 3] int_again [of num "bf_retryTimeout f" 5]
    by (simp_all add: opened_bot_def Let_def as_stored_def bot_input_def)
  have fo: "(if bf_type f = ''group'' \<and> bf_failover ?f then trim (bf_failoverPattern ?f) else []) = ti_failoverPattern ?i"
    by (auto simp: opened_bot_def Let_def as_stored_def bot_input_def or_str_def)
  have ft: "(if bf_type f = ''group'' \<and> bf_failover ?f then js_number (bf_failoverTimeout ?f) else Some 0) = ti_failoverTimeout ?i"
  proof (cases "bf_type f = ''group'' \<and> bf_failover f")
    case True
    then have s: "trim (bf_failoverPattern f) \<noteq> []" "seconds_text (bf_failoverTimeout f)" using v by (simp_all add: bot_valid_def)
    then have x: "js_number (bf_failoverTimeout f) = Some (of_nat (parse_digits (bf_failoverTimeout f)))"
        "parse_digits (bf_failoverTimeout f) \<noteq> 0"
      by (simp_all add: seconds_text_def js_number_digits)
    then have "reads_back num (of_nat (parse_digits (bf_failoverTimeout f)))"
      using num(2) True s by (simp add: sent_numbers_def bot_input_def Let_def given_def)
    then show ?thesis using True s x
      by (simp add: opened_bot_def Let_def as_stored_def bot_input_def reads_back_def)
  next
    case False
    then show ?thesis by (auto simp: opened_bot_def Let_def as_stored_def bot_input_def)
  qed
  have rest: "ti_companionId ?i = bf_companionId f" "ti_type ?i = bf_type f" "ti_template ?i = bf_template f"
      "ti_location ?i = bot_near f" "ti_regions ?i = bot_regions f" "ti_floodScope ?i = bf_floodScope f"
      "ti_pathHashSize ?i = (if bf_pathHashSize f = ''default'' then None else map_option of_int (parse_int (bf_pathHashSize f)))"
      "trigger_input.more ?i = ()"
    by (simp_all add: bot_input_def Let_def)
  show ?thesis
    by (rule trigger_input.equality)
      (simp_all only: bot_input_fields [of chs ?f] type chans m con sched url near regs path ints fo ft rest)
qed

text \<open>C16: Round trip. A bot that was saved from the editor, opened again and saved without a change sends the same again:
  the same channels, found by name and turned back into ids, the same interval from the text of the schedule, the
  same place and numbers. Any edits may have been made, of a new bot or of a stored one.\<close>
theorem saved_bot_reopened:
  assumes "\<forall>g. t = Some g \<longrightarrow> stored_ok chs g" and "channels_ok chs"
    and "f = fold (bot_edited num cs chs) es (opened_bot num cs chs t)" and "bot_valid f"
    and "texts_faithful num (bot_input chs f)"
  shows "bot_input chs (opened_bot num cs chs (Some (as_stored n (bot_input chs f)))) = bot_input chs f"
proof -
  have "small_numbers num" using assms(5) by (simp add: texts_faithful_def)
  then have "form_ok chs f" unfolding assms(3) by (intro form_ok_run form_ok_opened assms(1))
  then show ?thesis using assms(2,4,5) by (intro bot_reopened)
qed

theorem saved_bot_reopened_witness:
  "bot_input bot_channels (opened_bot whole_text bot_companions bot_channels
     (Some (as_stored 7 (bot_input bot_channels (fold (bot_edited whole_text bot_companions bot_channels) new_alert_bot
       (opened_bot whole_text bot_companions bot_channels None))))))
   = bot_input bot_channels (fold (bot_edited whole_text bot_companions bot_channels) new_alert_bot
       (opened_bot whole_text bot_companions bot_channels None))"
proof (rule saved_bot_reopened [OF _ _ refl new_alert_valid])
  show "channels_ok bot_channels" by (simp add: channels_ok_def bot_channels_def)
  have "reads_back whole_text (- 41) \<and> reads_back whole_text 174 \<and> reads_back whole_text 20" by (intro conjI; code_simp)
  moreover have "parse_int (whole_text (of_int 3)) = Some 3 \<and> parse_int (whole_text (of_int 5)) = Some 5" by (intro conjI; code_simp)
  ultimately show "texts_faithful whole_text (bot_input bot_channels (fold (bot_edited whole_text bot_companions bot_channels)
      new_alert_bot (opened_bot whole_text bot_companions bot_channels None)))"
    unfolding new_alert_sent by (simp add: texts_faithful_def sent_numbers_def given_def whole_text_small)
qed simp

section \<open>What the editor does not keep\<close>

text \<open>A bot stored with no retries is shown with none and saved with three; so is one in which zero is typed.\<close>

lemma zero_retries_lost:
  "num 0 = ''0'' \<Longrightarrow> bf_maxRetries (opened_bot num cs chs (Some (t\<lparr>tg_maxRetries := Some 0\<rparr>))) = ''0''
     \<and> ti_maxRetries (bot_input chs (opened_bot num cs chs (Some (t\<lparr>tg_maxRetries := Some 0\<rparr>)))) = 3"
proof -
  assume "num 0 = ''0''"
  moreover have "int_or ''0'' 3 = 3" by code_simp
  ultimately show ?thesis by (simp add: opened_bot_def bot_input_def Let_def)
qed

text \<open>A feed whose interval is not whole minutes or hours (such as an hour and a half) is opened, and saved, with five
  minutes.\<close>

lemma odd_interval_lost:
  "tg_type t = ''rss'' \<Longrightarrow>
   ti_schedule (bot_input chs (opened_bot num cs chs (Some (t\<lparr>tg_schedule := Some ''@every 1h30m''\<rparr>)))) = Some ''@every 5m''"
proof -
  have "parsePollInterval (Some ''@every 1h30m'') = (''5'', ''m'') \<and> every_prefix @ trim ''5'' @ ''m'' = ''@every 5m''"
    by (intro conjI; code_simp)
  then show "tg_type t = ''rss'' \<Longrightarrow>
    ti_schedule (bot_input chs (opened_bot num cs chs (Some (t\<lparr>tg_schedule := Some ''@every 1h30m''\<rparr>)))) = Some ''@every 5m''"
    by (simp add: opened_bot_def opened_type_def bot_input_def Let_def isFeedType_def)
qed

text \<open>A change of type to direct messages hides the channels but still sends them.\<close>

lemma hidden_channels_sent:
  "ti_channelIds (bot_input chs (changeType ''dm'' f)) = ti_channelIds (bot_input chs f)"
proof -
  have "nameToId chs (changeType ''dm'' f) = nameToId chs f"
    by (rule ext) (simp add: nameToId_def companionChannels_def changeType_def)
  then show ?thesis by (simp add: bot_input_fields) (simp add: changeType_def)
qed

section \<open>Rows of patterns\<close>

lemma entry_rejoined: "splitEntry (fst (splitEntry v) @ '':'' @ t) = (fst (splitEntry v), t)"
proof (cases "index_of '':'' v")
  case None
  then show ?thesis by (simp add: splitEntry_def)
next
  case (Some i)
  have free: "index_of '':'' (take i v @ '':'' @ t) = Some i" using Some
    by (induction v arbitrary: i) (auto split: if_splits)
  have "length (take i v) = i" using index_of_Some_split [OF Some] by simp
  then show ?thesis using Some free by (simp add: splitEntry_def)
qed

end
