(* ===== verification/BotTest.thy ===== *)
theory BotTest
  imports BotForm
begin

text \<open>
  The test panel of a feed bot (\<open>components/BotTestPanel.tsx\<close>): the items are fetched, one is picked, and what the bot
  would send is rendered again whenever the bot or the item changes, after a pause. Requests overlap; a counter
  tells the latest. \<open>srv n r\<close> is what comes of request \<open>r\<close>, the one that was given the count \<open>n\<close>: the text of
  a failure, or a rendering.
\<close>

record test_item =
  it_id :: string
  it_title :: string
  it_link :: string
  it_published :: "string option"

record test_render =
  tr_message :: string
  tr_renderError :: string
  tr_matched :: bool
  tr_placement :: string
  tr_captures :: "(string \<times> string) list"
  tr_bytes :: nat
  tr_channelText :: string
  tr_channelLimit :: nat
  tr_dmLimit :: nat

record test_props =
  pp_companionId :: nat
  pp_type :: string
  pp_url :: string
  pp_match :: "string list"
  pp_template :: string
  pp_location :: "trigger_location option"
  pp_regions :: "string list option"
  pp_disabled :: "string option"

definition panel_props :: "bot_form \<Rightarrow> test_props" where
  "panel_props f =
     \<lparr>pp_companionId = bf_companionId f, pp_type = bf_type f, pp_url = bf_url f, pp_match = bf_match f,
      pp_template = bf_template f, pp_location = bot_near f, pp_regions = bot_regions f, pp_disabled = test_disabled f\<rparr>"

record test_request =
  rq_companionId :: nat
  rq_type :: string
  rq_url :: string
  rq_match :: "string list"
  rq_template :: string
  rq_location :: "trigger_location option"
  rq_regions :: "string list option"
  rq_itemId :: "string option"

definition test_json :: "test_request \<Rightarrow> json" where
  "test_json r = JObj
     ([(''companionId'', JNum (of_nat (rq_companionId r))), (''type'', JStr (rq_type r)), (''url'', JStr (rq_url r)),
       (''match'', json_strs (rq_match r)), (''template'', JStr (rq_template r)),
       (''location'', json_opt location_json (rq_location r)), (''regions'', json_opt json_strs (rq_regions r))]
      @ (case rq_itemId r of Some i \<Rightarrow> [(''itemId'', JStr i)] | None \<Rightarrow> []))"

definition feedKey :: "test_props \<Rightarrow> string" where
  "feedKey q = pp_type q @ '' '' @ trim (pp_url q)"

abbreviation newline :: char where "newline \<equiv> CHR 0x0A"

definition matchKey :: "test_props \<Rightarrow> string" where
  "matchKey q = join [newline] (trimmed_entries (pp_match q))"

definition key_patterns :: "string \<Rightarrow> string list" where
  "key_patterns k = (if k \<noteq> [] then split_on newline k else [])"

definition test_request_of :: "test_props \<Rightarrow> string option \<Rightarrow> test_request" where
  "test_request_of q item =
     \<lparr>rq_companionId = pp_companionId q, rq_type = pp_type q, rq_url = trim (pp_url q), rq_match = key_patterns (matchKey q),
      rq_template = pp_template q, rq_location = pp_location q, rq_regions = pp_regions q, rq_itemId = item\<rparr>"

record test_panel =
  tp_props :: test_props
  tp_items :: "test_item list option"
  tp_fetchedFor :: string
  tp_fetching :: "string option"  \<comment> \<open>the feed being fetched\<close>
  tp_fetchError :: "string option"
  tp_selected :: "string option"
  tp_render :: "test_render option"
  tp_renderFailed :: "string option"
  tp_rendering :: bool
  tp_seq :: nat
  tp_timer :: "(nat \<times> test_request) option"
  tp_flying :: "(nat \<times> test_request) list"

definition panel_opened :: "test_props \<Rightarrow> test_panel" where
  "panel_opened q =
     \<lparr>tp_props = q, tp_items = None, tp_fetchedFor = [], tp_fetching = None, tp_fetchError = None, tp_selected = None,
      tp_render = None, tp_renderFailed = None, tp_rendering = False, tp_seq = 0, tp_timer = None, tp_flying = []\<rparr>"

definition panel_current :: "test_panel \<Rightarrow> bool" where
  "panel_current p \<longleftrightarrow> tp_items p \<noteq> None \<and> tp_fetchedFor p = feedKey (tp_props p)"

text \<open>The effect: what it depends on, and what it does. The timer of its last run is stopped first.\<close>

definition effect_deps :: "test_panel \<Rightarrow> bool \<times> string option \<times> string \<times> string \<times> test_props" where
  "effect_deps p =
     (panel_current p, tp_selected p, pp_url (tp_props p), matchKey (tp_props p), (tp_props p)\<lparr>pp_url := [], pp_match := []\<rparr>)"

definition render_effect :: "test_panel \<Rightarrow> test_panel" where
  "render_effect p =
     (let p = p\<lparr>tp_timer := None\<rparr> in
      if \<not> panel_current p then p
      else case tp_selected p of
        None \<Rightarrow> p
      | Some i \<Rightarrow>
          if pp_disabled (tp_props p) \<noteq> None
          then p\<lparr>tp_seq := tp_seq p + 1, tp_render := None, tp_renderFailed := None, tp_rendering := False\<rparr>
          else p\<lparr>tp_seq := tp_seq p + 1, tp_rendering := True,
                 tp_timer := Some (tp_seq p + 1, test_request_of (tp_props p) (Some i))\<rparr>)"

definition rerun :: "test_panel \<Rightarrow> test_panel \<Rightarrow> test_panel" where
  "rerun old p = (if effect_deps p = effect_deps old then p else render_effect p)"

definition fetch_clicked :: "test_panel \<Rightarrow> test_panel \<times> test_request option" where
  "fetch_clicked p =
     (if tp_fetching p \<noteq> None \<or> pp_disabled (tp_props p) \<noteq> None then (p, None)
      else (p\<lparr>tp_fetching := Some (feedKey (tp_props p)), tp_fetchError := None\<rparr>, Some (test_request_of (tp_props p) None)))"

definition items_answered :: "string + test_item list \<Rightarrow> test_panel \<Rightarrow> test_panel" where
  "items_answered r p =
     (case tp_fetching p of
        None \<Rightarrow> p
      | Some k \<Rightarrow>
          (case r of
             Inr got \<Rightarrow> p\<lparr>tp_items := Some got, tp_fetchedFor := k,
               tp_selected := (case got of it # _ \<Rightarrow> Some (it_id it) | [] \<Rightarrow> None), tp_fetching := None\<rparr>
           | Inl e \<Rightarrow> p\<lparr>tp_items := None, tp_fetchError := Some e, tp_fetching := None\<rparr>))"

definition item_picked :: "string \<Rightarrow> test_panel \<Rightarrow> test_panel" where
  "item_picked i p =
     (if panel_current p \<and> i \<in> it_id ` set (nullish (tp_items p) []) then p\<lparr>tp_selected := Some i\<rparr> else p)"

definition render_timer :: "test_panel \<Rightarrow> test_panel" where
  "render_timer p =
     (case tp_timer p of Some nr \<Rightarrow> p\<lparr>tp_timer := None, tp_flying := tp_flying p @ [nr]\<rparr> | None \<Rightarrow> p)"

definition rendering_of :: "string + test_render \<Rightarrow> test_render option \<times> string option" where
  "rendering_of r = (case r of Inr x \<Rightarrow> (Some x, None) | Inl e \<Rightarrow> (None, Some e))"

definition render_answered :: "(nat \<Rightarrow> test_request \<Rightarrow> string + test_render) \<Rightarrow> nat \<Rightarrow> test_panel \<Rightarrow> test_panel" where
  "render_answered srv n p =
     (case map_of (tp_flying p) n of
        None \<Rightarrow> p
      | Some r \<Rightarrow>
          let p = p\<lparr>tp_flying := filter (\<lambda>x. fst x \<noteq> n) (tp_flying p)\<rparr> in
          if n \<noteq> tp_seq p then p
          else p\<lparr>tp_render := fst (rendering_of (srv n r)), tp_renderFailed := snd (rendering_of (srv n r)), tp_rendering := False\<rparr>)"

datatype test_event =
    FormEdited bot_form
  | FetchClicked
  | ItemsAnswered "string + test_item list"
  | ItemPicked string
  | TimerFired
  | RenderAnswered nat

fun test_step :: "(nat \<Rightarrow> test_request \<Rightarrow> string + test_render) \<Rightarrow> test_event \<Rightarrow> test_panel \<Rightarrow> test_panel" where
  "test_step srv (FormEdited f) p = rerun p (p\<lparr>tp_props := panel_props f\<rparr>)"
| "test_step srv FetchClicked p = rerun p (fst (fetch_clicked p))"
| "test_step srv (ItemsAnswered r) p = rerun p (items_answered r p)"
| "test_step srv (ItemPicked i) p = rerun p (item_picked i p)"
| "test_step srv TimerFired p = render_timer p"
| "test_step srv (RenderAnswered n) p = render_answered srv n p"

section \<open>What the panel shows\<close>

definition renderVerdict :: "test_render option \<Rightarrow> bool \<times> string" where
  "renderVerdict r =
     (if map_option tr_placement r = Some ''noShape'' then (False, ''No map shape in this alert'')
      else if map_option tr_placement r = Some ''outside'' then (False, ''Outside the chosen area'')
      else if map_option tr_matched r \<noteq> Some True then (False, ''Patterns skip this item'')
      else (True, ''Would send''))"

definition cut_text :: "test_render option \<Rightarrow> string" where
  "cut_text r = (case r of Some x \<Rightarrow> slice_from (int (length (tr_channelText x))) (tr_message x) | None \<Rightarrow> [])"

definition cut_note :: "test_render \<Rightarrow> string option" where
  "cut_note r =
     (if cut_text (Some r) = [] then None
      else Some (''A channel cuts the struck-through end. '' @
        (if tr_bytes r > tr_dmLimit r then ''A DM over '' @ show_nat (tr_dmLimit r) @ '' bytes is not sent at all.''
         else ''A DM would carry all of it.'')))"

definition panel_text :: "test_panel \<Rightarrow> string" where
  "panel_text p = nullish (pp_disabled (tp_props p))
     ''Fetch the feed and pick an item to see what this bot would send. Nothing is sent.''"

definition item_label :: "test_item \<Rightarrow> string" where
  "item_label it = or_str (or_str (it_title it) (it_link it)) (it_id it)"

definition panel_note :: "test_panel \<Rightarrow> string option" where
  "panel_note p =
     (if tp_items p \<noteq> None \<and> \<not> panel_current p \<and> tp_fetchError p = None
      then Some ''The feed address changed. Fetch again to test against it.''
      else if panel_current p \<and> tp_items p = Some [] then Some ''The feed has no items right now, so there is nothing to render.''
      else None)"

lemma verdict_sends:
  "fst (renderVerdict r) \<longleftrightarrow>
     (\<exists>x. r = Some x \<and> tr_matched x \<and> tr_placement x \<noteq> ''noShape'' \<and> tr_placement x \<noteq> ''outside'')"
  by (cases r) (simp_all add: renderVerdict_def)

lemma channel_and_cut:
  "tr_message x = tr_channelText x @ rest \<Longrightarrow> tr_channelText x @ cut_text (Some x) = tr_message x"
  by (simp add: cut_text_def slice_from_of_nat)

lemma split_free: "c \<notin> set s \<Longrightarrow> split_on c s = [s]"
  by (induction s) simp_all

lemma split_cons: "c \<notin> set s \<Longrightarrow> split_on c (s @ c # u) = s # split_on c u"
  by (induction s) simp_all

lemma split_joined: "xs \<noteq> [] \<Longrightarrow> \<forall>s\<in>set xs. c \<notin> set s \<Longrightarrow> split_on c (join [c] xs) = xs"
proof (induction xs)
  case (Cons s ss)
  then show ?case by (cases ss) (simp_all add: split_free split_cons)
qed simp

lemma trim_set: "c \<in> set (trim s) \<Longrightarrow> c \<in> set s"
  by (auto simp: trim_def trim_start_def dest!: set_dropWhileD)

lemma joined_nonempty: "list_all (\<lambda>s. s \<noteq> []) xs \<Longrightarrow> xs \<noteq> [] \<Longrightarrow> join sep xs \<noteq> []"
  by (induction xs rule: induct_list012) simp_all

text \<open>The panel tests the patterns that a save would send.\<close>

lemma patterns_sent:
  assumes "\<forall>s\<in>set (bf_match f). newline \<notin> set s" and "bf_type f \<noteq> ''cron''"
  shows "rq_match (test_request_of (panel_props f) item) = nullish (ti_match (bot_input chs f)) []"
proof -
  let ?xs = "trimmed_entries (bf_match f)"
  have free: "\<forall>s\<in>set ?xs. newline \<notin> set s" using assms(1) by (auto simp: trimmed_entries_def dest: trim_set)
  have ne: "list_all (\<lambda>s. s \<noteq> []) ?xs" by (simp add: trimmed_entries_def list_all_iff)
  show ?thesis
  proof (cases "?xs = []")
    case True
    then show ?thesis by (simp add: test_request_of_def panel_props_def matchKey_def key_patterns_def bot_input_def Let_def unless_empty_def)
  next
    case False
    then show ?thesis using split_joined [OF False free] joined_nonempty [OF ne False] assms(2)
      by (simp add: test_request_of_def panel_props_def matchKey_def key_patterns_def bot_input_def Let_def unless_empty_def)
  qed
qed

section \<open>The latest rendering\<close>

definition rendering_now :: "test_panel \<Rightarrow> string \<Rightarrow> bool" where  \<comment> \<open>item \<open>i\<close> is being tested\<close>
  "rendering_now p i \<longleftrightarrow> panel_current p \<and> tp_selected p = Some i \<and> pp_disabled (tp_props p) = None"

definition on_its_way :: "test_panel \<Rightarrow> nat \<times> test_request \<Rightarrow> bool" where
  "on_its_way p x \<longleftrightarrow> tp_timer p = Some x \<or> x \<in> set (tp_flying p)"

definition up_to_date :: "(nat \<Rightarrow> test_request \<Rightarrow> string + test_render) \<Rightarrow> test_panel \<Rightarrow> test_request \<Rightarrow> bool" where
  "up_to_date srv p r \<longleftrightarrow>
     (\<forall>x. on_its_way p x \<and> fst x = tp_seq p \<longrightarrow> snd x = r)
     \<and> (if tp_rendering p then on_its_way p (tp_seq p, r)
        else (tp_render p, tp_renderFailed p) = rendering_of (srv (tp_seq p) r))"

definition requests_ok :: "test_panel \<Rightarrow> bool" where
  "requests_ok p \<longleftrightarrow>
     (\<forall>x. on_its_way p x \<longrightarrow> fst x \<le> tp_seq p)
     \<and> distinct (map fst ((case tp_timer p of Some x \<Rightarrow> [x] | None \<Rightarrow> []) @ tp_flying p))"

definition panel_ok :: "(nat \<Rightarrow> test_request \<Rightarrow> string + test_render) \<Rightarrow> test_panel \<Rightarrow> bool" where
  "panel_ok srv p \<longleftrightarrow>
     requests_ok p \<and> (\<forall>i. rendering_now p i \<longrightarrow> up_to_date srv p (test_request_of (tp_props p) (Some i)))"

lemma current_updates [simp]:
  "panel_current (p\<lparr>tp_timer := x\<rparr>) = panel_current p" "panel_current (p\<lparr>tp_seq := n\<rparr>) = panel_current p"
  "panel_current (p\<lparr>tp_render := v\<rparr>) = panel_current p" "panel_current (p\<lparr>tp_renderFailed := w\<rparr>) = panel_current p"
  "panel_current (p\<lparr>tp_rendering := b\<rparr>) = panel_current p" "panel_current (p\<lparr>tp_flying := y\<rparr>) = panel_current p"
  by (simp_all add: panel_current_def)

lemma deps_request:
  "effect_deps p' = effect_deps p \<Longrightarrow> panel_current p' = panel_current p \<and> tp_selected p' = tp_selected p
    \<and> pp_disabled (tp_props p') = pp_disabled (tp_props p) \<and> test_request_of (tp_props p') j = test_request_of (tp_props p) j"
  by (cases "tp_props p"; cases "tp_props p'") (simp add: effect_deps_def test_request_of_def)

lemma effect_ok:
  assumes "\<forall>x. on_its_way p x \<longrightarrow> fst x \<le> tp_seq p" and "distinct (map fst (tp_flying p))"
  shows "panel_ok srv (render_effect p)"
proof -
  have f: "x \<in> set (tp_flying p) \<Longrightarrow> fst x \<le> tp_seq p" for x using assms(1) unfolding on_its_way_def by blast
  have new: "x \<in> set (tp_flying p) \<Longrightarrow> fst x \<noteq> Suc (tp_seq p)" for x using f [of x] by simp
  consider "\<not> panel_current p \<or> tp_selected p = None" | i where "panel_current p" "tp_selected p = Some i"
    by (cases "tp_selected p") auto
  then show ?thesis
  proof cases
    case 1
    then have "render_effect p = p\<lparr>tp_timer := None\<rparr>" by (auto simp: render_effect_def Let_def split: option.split)
    moreover have "requests_ok (p\<lparr>tp_timer := None\<rparr>)" using assms(2) f by (simp add: requests_ok_def on_its_way_def)
    ultimately show ?thesis using 1 by (auto simp: panel_ok_def rendering_now_def)
  next
    case 2
    show ?thesis
    proof (cases "pp_disabled (tp_props p) = None")
      case True
      let ?r = "test_request_of (tp_props p) (Some i)"
      let ?p = "p\<lparr>tp_seq := Suc (tp_seq p), tp_rendering := True, tp_timer := Some (Suc (tp_seq p), ?r)\<rparr>"
      have e: "render_effect p = ?p" using 2 True by (simp add: render_effect_def Let_def)
      have w: "on_its_way ?p x \<longleftrightarrow> x = (Suc (tp_seq p), ?r) \<or> x \<in> set (tp_flying p)" for x by (auto simp: on_its_way_def)
      have le: "\<forall>x. on_its_way ?p x \<longrightarrow> fst x \<le> Suc (tp_seq p)" unfolding w using f le_SucI by fastforce
      have "Suc (tp_seq p) \<notin> fst ` set (tp_flying p)" using new by force
      then have "requests_ok ?p" using le assms(2) by (simp add: requests_ok_def)
      moreover have "up_to_date srv ?p ?r" unfolding up_to_date_def w using new by fastforce
      moreover have "rendering_now ?p j \<Longrightarrow> j = i" for j using 2 by (simp add: rendering_now_def)
      ultimately show ?thesis unfolding e panel_ok_def by auto
    next
      case False
      let ?p = "p\<lparr>tp_timer := None, tp_seq := Suc (tp_seq p), tp_render := None, tp_renderFailed := None, tp_rendering := False\<rparr>"
      have "render_effect p = ?p" using 2 False by (simp add: render_effect_def Let_def)
      moreover have "requests_ok ?p" using f assms(2) le_SucI by (simp add: requests_ok_def on_its_way_def) fastforce
      ultimately show ?thesis using False by (auto simp: panel_ok_def rendering_now_def)
    qed
  qed
qed

definition same_requests :: "test_panel \<Rightarrow> test_panel \<Rightarrow> bool" where  \<comment> \<open>an event that only moves what the effect depends on\<close>
  "same_requests p p' \<longleftrightarrow> tp_seq p' = tp_seq p \<and> tp_timer p' = tp_timer p \<and> tp_flying p' = tp_flying p
     \<and> tp_rendering p' = tp_rendering p \<and> tp_render p' = tp_render p \<and> tp_renderFailed p' = tp_renderFailed p"

lemma same_requests_ok:
  "same_requests p p' \<Longrightarrow> requests_ok p' = requests_ok p \<and> up_to_date srv p' r = up_to_date srv p r"
  by (simp add: same_requests_def requests_ok_def up_to_date_def on_its_way_def)

lemma rerun_ok:
  assumes "panel_ok srv p" and "same_requests p p'"
  shows "panel_ok srv (rerun p p')"
proof (cases "effect_deps p' = effect_deps p")
  case True
  have "rendering_now p' i = rendering_now p i" for i using deps_request [OF True] by (simp add: rendering_now_def)
  then show ?thesis using assms(1) deps_request [OF True] same_requests_ok [OF assms(2)] True
    by (simp add: panel_ok_def rerun_def)
next
  case False
  have "requests_ok p'" using assms same_requests_ok by (auto simp: panel_ok_def)
  then have "panel_ok srv (render_effect p')" by (intro effect_ok) (simp_all add: requests_ok_def)
  then show ?thesis using False by (simp add: rerun_def)
qed

lemma timer_ok: "panel_ok srv p \<Longrightarrow> panel_ok srv (render_timer p)"
proof (cases "tp_timer p")
  case (Some x)
  assume ok: "panel_ok srv p"
  let ?p = "p\<lparr>tp_timer := None, tp_flying := tp_flying p @ [x]\<rparr>"
  have w: "on_its_way ?p y = on_its_way p y" for y using Some by (auto simp: on_its_way_def)
  have "distinct (map fst (tp_flying p @ [x]))" using ok Some by (simp add: panel_ok_def requests_ok_def)
  then have "requests_ok ?p" using ok w by (simp add: panel_ok_def requests_ok_def)
  moreover have "up_to_date srv ?p r = up_to_date srv p r" for r by (simp add: up_to_date_def w)
  ultimately have "panel_ok srv ?p" using ok by (simp add: panel_ok_def rendering_now_def)
  then show ?thesis using Some by (simp add: render_timer_def)
qed (simp add: render_timer_def)

lemma distinct_filter_right: "distinct (map f (xs @ ys)) \<Longrightarrow> distinct (map f (xs @ filter P ys))"
  by (auto simp: distinct_filter_map)

lemma answer_ok: "panel_ok srv p \<Longrightarrow> panel_ok srv (render_answered srv n p)"
proof (cases "map_of (tp_flying p) n")
  case (Some r)
  assume ok: "panel_ok srv p"
  let ?q = "p\<lparr>tp_flying := filter (\<lambda>x. fst x \<noteq> n) (tp_flying p)\<rparr>"
  let ?d = "?q\<lparr>tp_render := fst (rendering_of (srv n r)), tp_renderFailed := snd (rendering_of (srv n r)), tp_rendering := False\<rparr>"
  have r: "on_its_way p (n, r)" using map_of_SomeD [OF Some] by (simp add: on_its_way_def)
  have w: "on_its_way ?q x \<Longrightarrow> on_its_way p x" "on_its_way p x \<Longrightarrow> fst x \<noteq> n \<Longrightarrow> on_its_way ?q x" for x
    by (auto simp: on_its_way_def)
  have d: "on_its_way ?d x = on_its_way ?q x" for x by (simp add: on_its_way_def)
  have q: "requests_ok ?q"
  proof -
    have "distinct (map fst ((case tp_timer p of Some x \<Rightarrow> [x] | None \<Rightarrow> []) @ filter (\<lambda>x. fst x \<noteq> n) (tp_flying p)))"
      using ok by (intro distinct_filter_right) (simp add: panel_ok_def requests_ok_def)
    then show ?thesis using ok w(1) by (auto simp: panel_ok_def requests_ok_def)
  qed
  have now: "up_to_date srv p (test_request_of (tp_props p) (Some i))" if "rendering_now p i" for i
    using ok that by (simp add: panel_ok_def)
  show ?thesis
  proof (cases "n = tp_seq p")
    case True
    have "up_to_date srv ?d (test_request_of (tp_props p) (Some i))" if "rendering_now p i" for i
    proof -
      have "r = test_request_of (tp_props p) (Some i)" using now [OF that] r True by (auto simp: up_to_date_def)
      then show ?thesis using now [OF that] w(1) d True by (simp add: up_to_date_def)
    qed
    moreover have "requests_ok ?d" using q by (simp add: requests_ok_def d)
    ultimately have "panel_ok srv ?d" by (simp add: panel_ok_def rendering_now_def)
    then show ?thesis using Some True by (simp add: render_answered_def Let_def)
  next
    case False
    have "up_to_date srv ?q (test_request_of (tp_props p) (Some i))" if "rendering_now p i" for i
      using now [OF that] w False by (simp add: up_to_date_def split: if_splits)
    with q have "panel_ok srv ?q" by (simp add: panel_ok_def rendering_now_def)
    then show ?thesis using Some False by (simp add: render_answered_def Let_def)
  qed
qed (simp add: render_answered_def)

lemma step_ok: "panel_ok srv p \<Longrightarrow> panel_ok srv (test_step srv e p)"
  by (cases e) (auto simp: timer_ok answer_ok same_requests_def fetch_clicked_def items_answered_def item_picked_def
      intro!: rerun_ok split: option.split sum.split)

lemma run_ok: "panel_ok srv p \<Longrightarrow> panel_ok srv (fold (test_step srv) es p)"
  by (induction es arbitrary: p) (simp_all add: step_ok)

lemma opened_ok: "panel_ok srv (panel_opened q)"
  by (simp add: panel_ok_def requests_ok_def panel_opened_def on_its_way_def rendering_now_def panel_current_def)

text \<open>C30: Safety. In the test of a feed bot, whatever is edited, fetched and picked while requests are under way, and in
  whatever order the answers come, what is shown once no spinner turns is the answer to the bot and the item as they
  are now; and while one turns, that request is waiting or under way, so the spinner ends.\<close>
theorem test_shows_current_bot:
  assumes "rendering_now (fold (test_step srv) es (panel_opened q)) i"
  shows "case fold (test_step srv) es (panel_opened q) of p \<Rightarrow>
    case test_request_of (tp_props p) (Some i) of r \<Rightarrow>
    (if tp_rendering p then on_its_way p (tp_seq p, r)
     else (tp_render p, tp_renderFailed p) = rendering_of (srv (tp_seq p) r))"
  using run_ok [OF opened_ok, of srv es q] assms by (simp add: panel_ok_def up_to_date_def)

definition tested_form :: bot_form where
  "tested_form = fold (bot_edited whole_text bot_companions bot_channels) new_alert_bot (opened_bot whole_text bot_companions bot_channels None)"

definition alert_item :: test_item where
  "alert_item = \<lparr>it_id = ''a1'', it_title = ''Flood'', it_link = [], it_published = None\<rparr>"

definition echo_render :: "nat \<Rightarrow> test_request \<Rightarrow> string + test_render" where
  "echo_render n r = Inr \<lparr>tr_message = rq_template r, tr_renderError = [], tr_matched = True, tr_placement = ''inside'',
     tr_captures = [], tr_bytes = n, tr_channelText = rq_template r, tr_channelLimit = 160, tr_dmLimit = 150\<rparr>"

definition overlapping_test :: "test_event list" where
  "overlapping_test =
     [FormEdited tested_form, FetchClicked, ItemsAnswered (Inr [alert_item]), TimerFired,
      FormEdited (tested_form\<lparr>bf_template := ''now''\<rparr>), TimerFired, RenderAnswered 2, RenderAnswered 1]"

lemma overlapping_now: "rendering_now (fold (test_step echo_render) overlapping_test (panel_opened (panel_props tested_form))) ''a1''"
  unfolding rendering_now_def by code_simp

lemma overlapping_settled: "\<not> tp_rendering (fold (test_step echo_render) overlapping_test (panel_opened (panel_props tested_form)))"
  by code_simp

theorem test_shows_current_bot_witness:
  "(let p = fold (test_step echo_render) overlapping_test (panel_opened (panel_props tested_form)) in
    (tp_render p, tp_renderFailed p) = rendering_of (echo_render (tp_seq p) (test_request_of (tp_props p) (Some ''a1''))))
   \<and> map_option tr_message (tp_render (fold (test_step echo_render) overlapping_test (panel_opened (panel_props tested_form)))) = Some ''now''"
proof
  show "let p = fold (test_step echo_render) overlapping_test (panel_opened (panel_props tested_form)) in
    (tp_render p, tp_renderFailed p) = rendering_of (echo_render (tp_seq p) (test_request_of (tp_props p) (Some ''a1'')))"
    using test_shows_current_bot [OF overlapping_now] overlapping_settled unfolding Let_def by (simp only: if_False)
  show "map_option tr_message (tp_render (fold (test_step echo_render) overlapping_test (panel_opened (panel_props tested_form)))) = Some ''now''"
    by code_simp
qed

text \<open>The rendering of the item picked before stays on screen until the next one is answered.\<close>

lemma old_item_rendering_shown:
  "map_option tr_message (tp_render (fold (test_step echo_render)
     [FetchClicked, ItemsAnswered (Inr [alert_item, alert_item\<lparr>it_id := ''a2''\<rparr>]), TimerFired, RenderAnswered 1, ItemPicked ''a2'']
     (panel_opened (panel_props tested_form)))) = Some ''{{.Headline}}''"
  by code_simp

end
