(* ===== verification/MqttForm.thy ===== *)
theory MqttForm
  imports BotTest
begin

text \<open>
  The MQTT page (\<open>pages/MqttPage.tsx\<close>): the feed's settings with the node it speaks as, the list of brokers and how each
  is doing, the editor of a broker with its presets, and the first broker, whose save also saves the feed.
\<close>

section \<open>The feed\<close>

record mqtt_settings =
  ms_enabled :: "bool option"
  ms_nodeKind :: string
  ms_nodeCompanionId :: "nat option"
  ms_iataCode :: "string option"
  ms_statusInterval :: "rat option"
  ms_owner :: "string option"
  ms_email :: "string option"

record feed_form =
  ff_enabled :: bool
  ff_nodeId :: string
  ff_iataCode :: string
  ff_owner :: string
  ff_email :: string
  ff_statusInterval :: string

definition REPEATER_NODE :: string where
  "REPEATER_NODE = ''repeater''"

definition iata_ok :: "string \<Rightarrow> bool" where  \<comment> \<open>\<open>IATA_RE\<close>\<close>
  "iata_ok s \<longleftrightarrow> list_all (\<lambda>c. is_word c \<or> c = CHR ''-'') s"

definition MIN_STATUS_INTERVAL :: rat where "MIN_STATUS_INTERVAL = 60"
definition MAX_STATUS_INTERVAL :: rat where "MAX_STATUS_INTERVAL = 3600"

definition blank_feed :: feed_form where
  "blank_feed = \<lparr>ff_enabled = True, ff_nodeId = [], ff_iataCode = [], ff_owner = [], ff_email = [], ff_statusInterval = ''300''\<rparr>"

definition feed_opened :: "(rat \<Rightarrow> string) \<Rightarrow> mqtt_settings \<Rightarrow> feed_form" where  \<comment> \<open>the effect on \<open>mqtt\<close>\<close>
  "feed_opened num m =
     \<lparr>ff_enabled = (ms_enabled m \<noteq> Some False),
      ff_nodeId = (if ms_nodeKind m = ''repeater'' then REPEATER_NODE
                   else case ms_nodeCompanionId m of Some i \<Rightarrow> show_nat i | None \<Rightarrow> []),
      ff_iataCode = nullish (ms_iataCode m) [], ff_owner = nullish (ms_owner m) [], ff_email = nullish (ms_email m) [],
      ff_statusInterval = num (nullish (ms_statusInterval m) 300)\<rparr>"

definition default_node :: "bot_companion list option \<Rightarrow> repeater_config option \<Rightarrow> feed_form \<Rightarrow> feed_form" where
  \<comment> \<open>the effect that picks a node while none is picked\<close>
  "default_node companions repeater f =
     (case companions of
        None \<Rightarrow> f
      | Some cs \<Rightarrow>
          if ff_nodeId f \<noteq> [] then f
          else f\<lparr>ff_nodeId := (case cs of c # _ \<Rightarrow> show_nat (bc_id c)
             | [] \<Rightarrow> if map_option cr_configured repeater = Some True then REPEATER_NODE else [])\<rparr>)"

definition nodeOptions :: "bot_companion list option \<Rightarrow> repeater_config option \<Rightarrow> feed_form \<Rightarrow> (string \<times> string) list" where
  "nodeOptions companions repeater f =
     map (\<lambda>c. (show_nat (bc_id c), bc_name c)) (nullish companions [])
     @ (if map_option cr_configured repeater = Some True \<or> ff_nodeId f = REPEATER_NODE
        then [(REPEATER_NODE, if truthy_str (map_option cr_name repeater) then cr_name (the repeater) @ '' (repeater)'' else ''repeater'')]
        else [])"

definition feed_interval :: "feed_form \<Rightarrow> rat option option" where  \<comment> \<open>none is blank, \<open>Some None\<close> is no number\<close>
  "feed_interval f = (if trim (ff_statusInterval f) = [] then None else Some (js_number (ff_statusInterval f)))"

definition intervalInvalid :: "feed_form \<Rightarrow> bool" where
  "intervalInvalid f =
     (case feed_interval f of
        None \<Rightarrow> False
      | Some None \<Rightarrow> True
      | Some (Some x) \<Rightarrow> of_int \<lfloor>x\<rfloor> \<noteq> x \<or> x < MIN_STATUS_INTERVAL \<or> x > MAX_STATUS_INTERVAL)"

definition feed_invalid :: "feed_form \<Rightarrow> bool" where
  "feed_invalid f \<longleftrightarrow> \<not> iata_ok (ff_iataCode f) \<or> intervalInvalid f"

definition some_text :: "string \<Rightarrow> string option" where  \<comment> \<open>\<open>s || null\<close>\<close>
  "some_text s = (if s = [] then None else Some s)"

definition feedInput :: "feed_form \<Rightarrow> mqtt_settings" where
  "feedInput f =
     \<lparr>ms_enabled = Some (ff_enabled f),
      ms_nodeKind = (if ff_nodeId f = REPEATER_NODE then ''repeater'' else ''companion''),
      ms_nodeCompanionId = (if ff_nodeId f = [] \<or> ff_nodeId f = REPEATER_NODE then None else map_option nat (parse_int (ff_nodeId f))),
      ms_iataCode = some_text (ff_iataCode f), ms_statusInterval = Option.bind (feed_interval f) (\<lambda>x. x),
      ms_owner = some_text (ff_owner f), ms_email = some_text (ff_email f)\<rparr>"

definition feed_json :: "mqtt_settings \<Rightarrow> json" where
  "feed_json m = JObj
     [(''enabled'', json_opt JBool (ms_enabled m)), (''nodeKind'', JStr (ms_nodeKind m)),
      (''nodeCompanionId'', json_opt (\<lambda>n. JNum (of_nat n)) (ms_nodeCompanionId m)),
      (''iataCode'', json_opt JStr (ms_iataCode m)), (''owner'', json_opt JStr (ms_owner m)), (''email'', json_opt JStr (ms_email m)),
      (''statusInterval'', json_num (ms_statusInterval m))]"

record mqtt_page =
  mp_mqtt :: "mqtt_settings option"
  mp_companions :: "bot_companion list option"
  mp_repeater :: "repeater_config option"
  mp_feed :: feed_form
  mp_savingFeed :: bool
  mp_loading :: bool
  mp_toasts :: "(toast_kind \<times> string) list"

definition feed_saveable :: "mqtt_page \<Rightarrow> bool" where
  "feed_saveable p \<longleftrightarrow>
     \<not> mp_savingFeed p \<and> \<not> mp_loading p \<and> mp_mqtt p \<noteq> None \<and> mp_companions p \<noteq> None \<and> mp_repeater p \<noteq> None
     \<and> \<not> feed_invalid (mp_feed p)"

definition saveFeed :: "mqtt_page \<Rightarrow> mqtt_page \<times> config_call option" where
  "saveFeed p =
     (if feed_saveable p then (p\<lparr>mp_savingFeed := True\<rparr>, Some (PutMqtt (feed_json (feedInput (mp_feed p))))) else (p, None))"

definition feed_saved :: "string option \<Rightarrow> mqtt_page \<Rightarrow> mqtt_page \<times> bool" where  \<comment> \<open>and whether the settings are loaded again\<close>
  "feed_saved denied p =
     (p\<lparr>mp_savingFeed := False, mp_toasts := mp_toasts p @ [case denied of None \<Rightarrow> (SuccessToast, ''MQTT settings saved'') | Some e \<Rightarrow> (ErrorToast, e)]\<rparr>,
      denied = None)"

definition shownNode :: "mqtt_page \<Rightarrow> string option" where  \<comment> \<open>its label\<close>
  "shownNode p = map_of (nodeOptions (mp_companions p) (mp_repeater p) (mp_feed p)) (ff_nodeId (mp_feed p))"

record pending_node =
  pn_label :: string
  pn_invalid :: bool
  pn_save :: mqtt_settings

definition pendingNode :: "mqtt_page \<Rightarrow> pending_node option" where
  "pendingNode p =
     (case (mp_mqtt p, shownNode p) of
        (Some m, Some l) \<Rightarrow>
          if ms_nodeKind m \<noteq> ''repeater'' \<and> ms_nodeCompanionId m = None
          then Some \<lparr>pn_label = l, pn_invalid = feed_invalid (mp_feed p), pn_save = feedInput (mp_feed p)\<rparr> else None
      | _ \<Rightarrow> None)"

section \<open>How the brokers are doing\<close>

record broker_status =
  bs_name :: string
  bs_connected :: bool
  bs_enabled :: bool
  bs_lastError :: "string option"
  bs_lastErrorTs :: "int option"
  bs_connectedTs :: "int option"
  bs_published :: nat
  bs_dropped :: nat

record mqtt_status =
  mq_running :: bool
  mq_brokers :: "broker_status list"

record status_poll =
  po_live :: bool
  po_inFlight :: bool
  po_status :: "mqtt_status option"

definition status_tick :: "status_poll \<Rightarrow> status_poll \<times> bool" where  \<comment> \<open>the first, and every 5 s; and whether a request goes out\<close>
  "status_tick p = (if \<not> po_live p \<or> po_inFlight p then (p, False) else (p\<lparr>po_inFlight := True\<rparr>, True))"

definition status_answered :: "mqtt_status option \<Rightarrow> status_poll \<Rightarrow> status_poll" where  \<comment> \<open>none for any failure\<close>
  "status_answered r p = (if po_live p then p\<lparr>po_status := r\<rparr> else p)\<lparr>po_inFlight := False\<rparr>"

datatype feed_state = FeedUnknown | FeedStopped | FeedLive

definition feed_of :: "mqtt_status option \<Rightarrow> feed_state" where
  "feed_of s = (case s of None \<Rightarrow> FeedUnknown | Some s \<Rightarrow> if mq_running s then FeedLive else FeedStopped)"

definition statusFor :: "mqtt_status option \<Rightarrow> string \<Rightarrow> broker_status option" where
  "statusFor s nm = Option.bind s (\<lambda>s. find (\<lambda>b. bs_name b = nm) (mq_brokers s))"

definition connected_text :: "mqtt_status \<Rightarrow> string" where
  "connected_text s =
     (if mq_running s
      then show_nat (length (filter bs_connected (mq_brokers s))) @ ''/'' @ show_nat (length (filter bs_enabled (mq_brokers s))) @ '' connected''
      else ''observer stopped'')"

definition status_pill :: "broker_status option \<Rightarrow> feed_state \<Rightarrow> string option" where
  "status_pill st feed =
     (case feed of FeedUnknown \<Rightarrow> None | FeedStopped \<Rightarrow> Some ''feed off''
      | FeedLive \<Rightarrow> Some (if map_option bs_connected st = Some True then ''connected'' else ''offline''))"

definition nonzero :: "int option \<Rightarrow> int option" where  \<comment> \<open>a truthy number\<close>
  "nonzero x = (if x = Some 0 then None else x)"

definition status_line :: "(int \<Rightarrow> string) \<Rightarrow> broker_status option \<Rightarrow> bool \<Rightarrow> feed_state \<Rightarrow> (string \<times> string option) option" where
  \<comment> \<open>\<open>ago\<close> is how long since that second; the parts and the error\<close>
  "status_line ago st enabled feed =
     (case st of
        None \<Rightarrow> None
      | Some b \<Rightarrow>
          if \<not> enabled \<or> feed \<noteq> FeedLive then None
          else let parts =
                 (if bs_connected b then (case nonzero (bs_connectedTs b) of Some t \<Rightarrow> [''up '' @ ago t] | None \<Rightarrow> []) else [''retrying''])
                 @ (if bs_published b \<noteq> 0 then [show_nat (bs_published b) @ '' published''] else [])
                 @ (if bs_dropped b \<noteq> 0 then [show_nat (bs_dropped b) @ '' dropped''] else []) in
            if parts = [] \<and> \<not> truthy_str (bs_lastError b) then None
            else Some (join ('' '' @ [glyph_middot] @ '' '') parts,
              if truthy_str (bs_lastError b)
              then Some (the (bs_lastError b) @ (case nonzero (bs_lastErrorTs b) of Some t \<Rightarrow> '' '' @ [glyph_middot] @ '' '' @ ago t | None \<Rightarrow> []))
              else None))"

section \<open>A broker\<close>

record broker_draft =
  bd_name :: string
  bd_enabled :: bool
  bd_dedup :: bool
  bd_transport :: string
  bd_host :: string
  bd_port :: int
  bd_packetTopic :: "string option"
  bd_statusTopic :: "string option"
  bd_disallowed :: "string list option"
  bd_retainStatus :: bool
  bd_tlsEnabled :: bool
  bd_tlsInsecure :: bool
  bd_authType :: string
  bd_username :: string
  bd_path :: string
  bd_audience :: string

record broker = broker_draft +
  bk_id :: nat
  bk_passwordSet :: bool

definition EMPTY_BROKER :: broker_draft where
  "EMPTY_BROKER =
     \<lparr>bd_name = [], bd_enabled = True, bd_dedup = True, bd_transport = ''tcp'', bd_host = [], bd_port = 8883,
      bd_packetTopic = Some [], bd_statusTopic = Some [], bd_disallowed = None, bd_retainStatus = True, bd_tlsEnabled = True,
      bd_tlsInsecure = False, bd_authType = ''token'', bd_username = [], bd_path = ''/'', bd_audience = []\<rparr>"

definition tokenBrokerPreset :: "string \<Rightarrow> string \<Rightarrow> broker_draft" where
  "tokenBrokerPreset nm host =
     EMPTY_BROKER\<lparr>bd_name := nm, bd_host := host, bd_port := 443, bd_transport := ''websockets'', bd_audience := host,
       bd_packetTopic := Some ''meshcore/{IATA}/{PUBLIC_KEY}/packets'', bd_statusTopic := Some ''meshcore/{IATA}/{PUBLIC_KEY}/status''\<rparr>"

definition BROKER_PRESETS :: "(string \<times> broker_draft) list" where
  "BROKER_PRESETS =
     [(''letsmesh-us'', tokenBrokerPreset ''letsmesh-us'' ''mqtt-us-v1.letsmesh.net''),
      (''letsmesh-eu'', tokenBrokerPreset ''letsmesh-eu'' ''mqtt-eu-v1.letsmesh.net''),
      (''waev-a'', tokenBrokerPreset ''waev-a'' ''mqtt-a.waev.app''),
      (''waev-b'', tokenBrokerPreset ''waev-b'' ''mqtt-b.waev.app''),
      (''meshmapper'', tokenBrokerPreset ''meshmapper'' ''mqtt.meshmapper.net'')]"

definition brokerToDraft :: "broker \<Rightarrow> broker_draft" where
  "brokerToDraft b =
     (broker_draft.truncate b)\<lparr>bd_packetTopic := Some (nullish (bd_packetTopic b) []), bd_statusTopic := Some (nullish (bd_statusTopic b) [])\<rparr>"

record broker_form =
  be_draft :: broker_draft
  be_disallowed :: string
  be_password :: string
  be_preset :: string

definition types_text :: "string list option \<Rightarrow> string" where
  "types_text ts = join '', '' (nullish ts [])"

definition broker_opened :: "broker option \<Rightarrow> broker_form" where
  "broker_opened b =
     \<lparr>be_draft = (case b of Some b \<Rightarrow> brokerToDraft b | None \<Rightarrow> EMPTY_BROKER),
      be_disallowed = types_text (Option.bind b bd_disallowed), be_password = [], be_preset = ''custom''\<rparr>"

definition applyPreset :: "string \<Rightarrow> broker_form \<Rightarrow> broker_form" where
  "applyPreset v f =
     (case map_of BROKER_PRESETS v of
        None \<Rightarrow> f\<lparr>be_preset := v\<rparr>
      | Some d \<Rightarrow> f\<lparr>be_preset := v, be_draft := d, be_disallowed := types_text (bd_disallowed d)\<rparr>)"

definition draft_set :: "(broker_draft \<Rightarrow> broker_draft) \<Rightarrow> broker_form \<Rightarrow> broker_form" where  \<comment> \<open>\<open>set(k, v)\<close>\<close>
  "draft_set g f = f\<lparr>be_draft := g (be_draft f)\<rparr>"

definition port_typed :: "string \<Rightarrow> broker_form \<Rightarrow> broker_form" where
  "port_typed t = draft_set (bd_port_update (\<lambda>_. int_or t 0))"

definition broker_valid :: "broker_form \<Rightarrow> bool" where
  "broker_valid f \<longleftrightarrow> trim (bd_name (be_draft f)) \<noteq> [] \<and> trim (bd_host (be_draft f)) \<noteq> [] \<and> bd_port (be_draft f) > 0"

record broker_input = broker_draft +
  bi_password :: "string option"

definition split_types :: "string \<Rightarrow> string list" where
  "split_types s = filter (\<lambda>t. t \<noteq> []) (map trim (split_on CHR '','' s))"

definition broker_input_of :: "broker_form \<Rightarrow> broker_input" where
  "broker_input_of f =
     broker_draft.extend
       ((be_draft f)\<lparr>bd_packetTopic := Option.bind (bd_packetTopic (be_draft f)) some_text,
         bd_statusTopic := Option.bind (bd_statusTopic (be_draft f)) some_text,
         bd_disallowed := (let ts = split_types (be_disallowed f) in if ts \<noteq> [] then Some ts else None)\<rparr>)
       \<lparr>bi_password = some_text (be_password f)\<rparr>"

definition broker_json :: "broker_input \<Rightarrow> json" where
  "broker_json i = JObj
     ([(''name'', JStr (bd_name i)), (''enabled'', JBool (bd_enabled i)), (''dedup'', JBool (bd_dedup i)),
       (''transport'', JStr (bd_transport i)), (''host'', JStr (bd_host i)), (''port'', JNum (of_int (bd_port i))),
       (''packetTopic'', json_opt JStr (bd_packetTopic i)), (''statusTopic'', json_opt JStr (bd_statusTopic i)),
       (''disallowedPacketTypes'', json_opt json_strs (bd_disallowed i)), (''retainStatus'', JBool (bd_retainStatus i)),
       (''tlsEnabled'', JBool (bd_tlsEnabled i)), (''tlsInsecure'', JBool (bd_tlsInsecure i)), (''authType'', JStr (bd_authType i)),
       (''username'', JStr (bd_username i)), (''path'', JStr (bd_path i)), (''audience'', JStr (bd_audience i))]
      @ (case bi_password i of Some p \<Rightarrow> [(''password'', JStr p)] | None \<Rightarrow> []))"

definition broker_saveable :: "pending_node option \<Rightarrow> bool \<Rightarrow> broker_form \<Rightarrow> bool" where
  "broker_saveable pending saving f \<longleftrightarrow> \<not> saving \<and> broker_valid f \<and> map_option pn_invalid pending \<noteq> Some True"

text \<open>Saving: the feed first, when no node is stored, and the broker only when the feed was taken.\<close>

definition save_broker ::
    "'s config_server \<Rightarrow> pending_node option \<Rightarrow> nat option \<Rightarrow> broker_form \<Rightarrow> 's \<Rightarrow> string option \<times> 's" where
  "save_broker srv pending i f s =
     (case pending of
        None \<Rightarrow> srv s (SaveBroker (broker_json (broker_input_of f)) i)
      | Some p \<Rightarrow>
          (case srv s (PutMqtt (feed_json (pn_save p))) of
             (Some e, s') \<Rightarrow> (Some e, s')
           | (None, s') \<Rightarrow> srv s' (SaveBroker (broker_json (broker_input_of f)) i)))"

definition broker_said :: "nat option \<Rightarrow> broker_form \<Rightarrow> string option \<Rightarrow> toast_kind \<times> string" where
  "broker_said i f denied =
     (case denied of
        Some e \<Rightarrow> (ErrorToast, e)
      | None \<Rightarrow> (SuccessToast, if i = None then ''Broker \"'' @ bd_name (be_draft f) @ ''\" added'' else ''Broker saved''))"

definition broker_note :: "pending_node option \<Rightarrow> string option" where
  "broker_note pending =
     (case pending of
        None \<Rightarrow> None
      | Some p \<Rightarrow> Some (if pn_invalid p then ''Fix the feed settings first: saving a broker saves them too.''
          else ''Saving also saves the feed settings as the page shows them, with '' @ pn_label p @ '' as the node MQTT speaks as.''))"

definition broker_address :: "broker \<Rightarrow> string" where
  "broker_address b =
     (if bd_transport b = ''websockets'' then ''ws'' else ''tcp'') @ (if bd_tlsEnabled b then ''+tls'' else []) @ ''://''
     @ bd_host b @ '':'' @ show_int (bd_port b) @ '' '' @ [glyph_middot] @ '' ''
     @ or_str (nullish (bd_packetTopic b) []) (''meshcore/{iata}/{pubkey}/'' @ [glyph_ellipsis])
     @ '' '' @ [glyph_middot] @ '' auth '' @ or_str (bd_authType b) ''none''"

definition remove_broker :: "broker \<Rightarrow> config_call" where
  "remove_broker b = DeleteBroker (bk_id b)"

section \<open>Opened and saved\<close>

definition plain_type :: "string \<Rightarrow> bool" where
  "plain_type t \<longleftrightarrow> t \<noteq> [] \<and> trim t = t \<and> CHR '','' \<notin> set t"

definition broker_plain :: "broker \<Rightarrow> bool" where  \<comment> \<open>as a save leaves it\<close>
  "broker_plain b \<longleftrightarrow>
     bd_packetTopic b \<noteq> Some [] \<and> bd_statusTopic b \<noteq> Some [] \<and> bd_disallowed b \<noteq> Some []
     \<and> list_all plain_type (nullish (bd_disallowed b) [])"

lemma split_join_types:
  "list_all plain_type (t # ts) \<Longrightarrow> split_on CHR '','' (join '', '' (t # ts)) = t # map (\<lambda>u. CHR '' '' # u) ts"
proof (induction ts arbitrary: t)
  case Nil
  then show ?case by (simp add: split_free plain_type_def)
next
  case (Cons u us)
  have "split_on CHR '','' (CHR '' '' # join '', '' (u # us)) = (CHR '' '' # u) # map (\<lambda>u. CHR '' '' # u) us"
    using Cons by simp
  then show ?case using Cons.prems split_cons [of "CHR '',''" t] by (simp add: plain_type_def)
qed

lemma types_again: "list_all plain_type ts \<Longrightarrow> split_types (types_text (Some ts)) = ts"
proof (cases ts)
  case (Cons u us)
  assume p: "list_all plain_type ts"
  have "trim (CHR '' '' # v) = trim v" for v by (simp add: trim_def trim_start_def is_space_def)
  then have "map trim (u # map (\<lambda>u. CHR '' '' # u) us) = u # us"
    using p Cons by (auto simp: plain_type_def list_all_iff intro: map_idI)
  then have "split_types (types_text (Some ts)) = filter (\<lambda>t. t \<noteq> []) ts"
    using split_join_types [of u us] p unfolding split_types_def types_text_def Cons nullish_simps by simp
  also have "\<dots> = ts" using p by (simp add: filter_id_conv list_all_iff plain_type_def)
  finally show ?thesis .
qed (simp add: split_types_def types_text_def trim_Nil)

text \<open>Round trip. Opening a broker and saving it without a change sends every field as it is stored, with the packet
  types read back from one line of text, and no password, so that the stored one stays.\<close>
theorem opened_broker_unchanged:
  assumes "broker_plain b"
  shows "broker_input_of (broker_opened (Some b)) = broker_draft.extend (broker_draft.truncate b) \<lparr>bi_password = None\<rparr>"
proof -
  have t: "(let ts = split_types (types_text (bd_disallowed b)) in if ts \<noteq> [] then Some ts else None) = bd_disallowed b"
  proof (cases "bd_disallowed b")
    case None
    then show ?thesis by (simp add: split_types_def types_text_def trim_Nil)
  next
    case (Some ts)
    then show ?thesis using assms types_again [of ts] by (simp add: broker_plain_def)
  qed
  have "Option.bind (Some (nullish x [])) some_text = x" if "x \<noteq> Some []" for x
    using that by (cases x) (auto simp: some_text_def)
  with t assms show ?thesis
    by (simp add: broker_input_of_def broker_opened_def brokerToDraft_def broker_plain_def broker_draft.defs some_text_def)
qed

definition example_broker :: broker where
  "example_broker = broker_draft.extend (EMPTY_BROKER\<lparr>bd_name := ''hill'', bd_host := ''a.example'', bd_packetTopic := None,
     bd_statusTopic := Some ''s'', bd_disallowed := Some [''ADVERT'', ''TRACE'']\<rparr>) \<lparr>bk_id = 2, bk_passwordSet = True\<rparr>"

theorem opened_broker_unchanged_witness:
  "bd_disallowed (broker_input_of (broker_opened (Some example_broker))) = Some [''ADVERT'', ''TRACE'']
   \<and> bi_password (broker_input_of (broker_opened (Some example_broker))) = None"
proof -
  have "broker_plain example_broker" unfolding broker_plain_def plain_type_def by code_simp
  from opened_broker_unchanged [OF this] show ?thesis
    by (simp add: example_broker_def EMPTY_BROKER_def broker_draft.defs)
qed

definition feed_plain :: "(rat \<Rightarrow> string) \<Rightarrow> mqtt_settings \<Rightarrow> bool" where
  "feed_plain num m \<longleftrightarrow>
     (if ms_nodeKind m = ''repeater'' then ms_nodeCompanionId m = None else ms_nodeKind m = ''companion'' \<and> ms_nodeCompanionId m \<noteq> None)
     \<and> ms_iataCode m \<noteq> Some [] \<and> ms_owner m \<noteq> Some [] \<and> ms_email m \<noteq> Some []
     \<and> reads_back num (nullish (ms_statusInterval m) 300)"

lemma trim_start_digits: "list_all is_digit s \<Longrightarrow> trim_start s = s"
  by (cases s) (simp_all add: trim_start_def digit_not_space)

lemma parse_int_show: "parse_int (show_nat n) = Some (int n)"
proof -
  have s: "trim_start (show_nat n) = show_nat n" using show_nat_digits by (rule trim_start_digits)
  have "is_digit (hd (show_nat n))" using show_nat_set [of "hd (show_nat n)" n] by simp
  then have "\<not> starts_with ''-'' (show_nat n)" "\<not> starts_with ''+'' (show_nat n)"
    by (cases "show_nat n"; auto simp: is_digit_def)+
  then show ?thesis by (simp add: parse_int_def s Let_def takeWhile_show_nat)
qed

lemma show_nat_not_repeater: "show_nat n \<noteq> REPEATER_NODE"
proof
  assume "show_nat n = REPEATER_NODE"
  then have "is_digit CHR ''r''" using show_nat_set [of "CHR ''r''" n] by (simp add: REPEATER_NODE_def)
  then show False by (simp add: is_digit_def)
qed

text \<open>Round trip. Saving the feed as it was opened sends what is stored, with the defaults written out: on, and every
  five minutes.\<close>
theorem opened_feed_unchanged:
  assumes "feed_plain num m"
  shows "feedInput (feed_opened num m)
    = m\<lparr>ms_enabled := Some (ms_enabled m \<noteq> Some False), ms_statusInterval := Some (nullish (ms_statusInterval m) 300)\<rparr>"
proof -
  have "some_text (nullish x []) = x" if "x \<noteq> Some []" for x using that by (cases x) (simp_all add: some_text_def)
  moreover have "parse_int (show_nat n) = Some (int n)" "show_nat n \<noteq> REPEATER_NODE" for n
    by (rule parse_int_show, rule show_nat_not_repeater)
  ultimately show ?thesis using assms
    by (auto simp: feedInput_def feed_opened_def feed_plain_def feed_interval_def reads_back_def REPEATER_NODE_def split: if_splits)
qed

theorem opened_feed_unchanged_witness:
  "feedInput (feed_opened whole_text (feedInput (blank_feed\<lparr>ff_nodeId := ''12''\<rparr>))) = feedInput (blank_feed\<lparr>ff_nodeId := ''12''\<rparr>)"
proof -
  have "reads_back whole_text 300" by code_simp
  moreover have "feedInput (blank_feed\<lparr>ff_nodeId := ''12''\<rparr>) = \<lparr>ms_enabled = Some True, ms_nodeKind = ''companion'', ms_nodeCompanionId = Some 12,
      ms_iataCode = None, ms_statusInterval = Some 300, ms_owner = None, ms_email = None\<rparr>" by code_simp
  ultimately show ?thesis using opened_feed_unchanged [of whole_text "feedInput (blank_feed\<lparr>ff_nodeId := ''12''\<rparr>)"]
    by (simp add: feed_plain_def)
qed

section \<open>A broker needs a node\<close>

definition speaks :: "mqtt_settings \<Rightarrow> bool" where  \<comment> \<open>the feed has a node to speak as\<close>
  "speaks m \<longleftrightarrow> ms_nodeKind m = ''repeater'' \<or> ms_nodeCompanionId m \<noteq> None"

definition keeps_feed :: "'s config_server \<Rightarrow> ('s \<Rightarrow> mqtt_settings) \<Rightarrow> bool" where
  \<comment> \<open>a server that stores the settings it takes and leaves them alone when it saves a broker\<close>
  "keeps_feed srv stored \<longleftrightarrow>
     (\<forall>s m. fst (srv s (PutMqtt (feed_json m))) = None \<longrightarrow> stored (snd (srv s (PutMqtt (feed_json m)))) = m)
     \<and> (\<forall>s b i. stored (snd (srv s (SaveBroker b i))) = stored s)"

lemma offered_speaks: "shownNode p \<noteq> None \<Longrightarrow> speaks (feedInput (mp_feed p))"
proof -
  assume "shownNode p \<noteq> None"
  then have "ff_nodeId (mp_feed p) \<in> fst ` set (nodeOptions (mp_companions p) (mp_repeater p) (mp_feed p))"
    unfolding shownNode_def by (simp add: map_of_eq_None_iff)
  then consider "ff_nodeId (mp_feed p) = REPEATER_NODE" | n where "ff_nodeId (mp_feed p) = show_nat n"
    by (auto simp: nodeOptions_def split: if_splits)
  then show ?thesis by cases (auto simp: speaks_def feedInput_def parse_int_show)
qed


definition json_text_at :: "string \<Rightarrow> json \<Rightarrow> string option" where
  "json_text_at k j = (case json_field k j of Some (JStr s) \<Rightarrow> Some s | _ \<Rightarrow> None)"

definition json_num_at :: "string \<Rightarrow> json \<Rightarrow> rat option" where
  "json_num_at k j = (case json_field k j of Some (JNum x) \<Rightarrow> Some x | _ \<Rightarrow> None)"

definition feed_read :: "json \<Rightarrow> mqtt_settings" where
  "feed_read j =
     \<lparr>ms_enabled = (case json_field ''enabled'' j of Some (JBool b) \<Rightarrow> Some b | _ \<Rightarrow> None),
      ms_nodeKind = nullish (json_text_at ''nodeKind'' j) [],
      ms_nodeCompanionId = map_option (\<lambda>x. nat \<lfloor>x\<rfloor>) (json_num_at ''nodeCompanionId'' j),
      ms_iataCode = json_text_at ''iataCode'' j, ms_statusInterval = json_num_at ''statusInterval'' j,
      ms_owner = json_text_at ''owner'' j, ms_email = json_text_at ''email'' j\<rparr>"

lemma feed_read_json: "feed_read (feed_json m) = m"
proof -
  have t: "(case json_opt JStr x of JStr s \<Rightarrow> Some s | _ \<Rightarrow> None) = x" for x by (cases x) (simp_all add: json_opt_def)
  have n: "(case json_num y of JNum x \<Rightarrow> Some x | _ \<Rightarrow> None) = y" for y by (cases y) (simp_all add: json_num_def)
  have b: "(case json_opt JBool z of JBool b \<Rightarrow> Some b | _ \<Rightarrow> None) = z" for z by (cases z) (simp_all add: json_opt_def)
  have i: "map_option (\<lambda>x. nat \<lfloor>x\<rfloor>) (case json_opt (\<lambda>n. JNum (rat_of_nat n)) w of JNum x \<Rightarrow> Some x | _ \<Rightarrow> None) = w" for w
    by (cases w) (simp_all add: json_opt_def)
  show ?thesis
    by (rule mqtt_settings.equality) (simp_all add: feed_read_def feed_json_def json_text_at_def json_num_at_def t n b i)
qed

fun plain_server :: "mqtt_settings config_server" where
  "plain_server s (PutMqtt j) = (None, feed_read j)"
| "plain_server s c = (None, s)"

definition fresh_page :: mqtt_page where
  "fresh_page = \<lparr>mp_mqtt = Some (feedInput blank_feed), mp_companions = Some bot_companions, mp_repeater = None,
     mp_feed = default_node (Some bot_companions) None blank_feed, mp_savingFeed = False, mp_loading = False, mp_toasts = []\<rparr>"


lemma refused_feed_no_broker:
  "pendingNode p = Some q \<Longrightarrow> srv s (PutMqtt (feed_json (pn_save q))) = (Some e, t)
   \<Longrightarrow> save_broker srv (pendingNode p) i f s = (Some e, t)"
  by (simp add: save_broker_def)

end
