(* ===== verification/PeerSheet.thy ===== *)
theory PeerSheet
  imports ChatText LinkPath CompanionRef ApiClient RemoteNode
begin

text \<open>
  The sheet of a discovered peer (\<open>components/PeerDetailSheet.tsx\<close>, \<open>hooks/usePeerDetailSheet.ts\<close>): which peer it shows,
  the path of its advert, its sharing link and the text that shares it in a chat, which companions have it as a
  contact, and the dialogs that add it, show its QR code and pick a conversation.
\<close>

section \<open>A peer\<close>

record sheet_peer =
  sp_pubkey :: string
  sp_name :: string
  sp_type :: string
  sp_lat :: int
  sp_lon :: int
  sp_snr :: "rat option"
  sp_rssi :: "int option"
  sp_lastSeen :: string
  sp_outPath :: "string option"
  sp_outPathHashSize :: "int option"

record sheet_companion = companion +
  sc_pubkey :: "string option"

definition selected_peer :: "sheet_peer list \<Rightarrow> string option \<Rightarrow> sheet_peer option" where
  "selected_peer peers key = find (\<lambda>p. Some (sp_pubkey p) = key) peers"

definition sheet_open :: "string option \<Rightarrow> bool" where
  "sheet_open key \<longleftrightarrow> truthy_str key"

definition TYPE_INT :: "(string \<times> nat) list" where
  "TYPE_INT = [(''CHAT'', 1), (''REPEATER'', 2), (''ROOM'', 3), (''SENSOR'', 4)]"

definition CONTACT_TYPES :: "string list" where
  "CONTACT_TYPES = [''CHAT'', ''REPEATER'', ''ROOM'', ''SENSOR'']"

definition typeToInt :: "string \<Rightarrow> nat" where
  "typeToInt t = nullish (map_of TYPE_INT t) 1"

fun whole_chunks :: "nat \<Rightarrow> nat \<Rightarrow> string \<Rightarrow> string list" where  \<comment> \<open>the loop, at most \<open>k\<close> times\<close>
  "whole_chunks 0 n s = []"
| "whole_chunks (Suc k) n s = (if n \<le> length s then take n s # whole_chunks k n (drop n s) else [])"

record advert_path =
  av_hashSize :: nat
  av_path :: "string list"

definition advertPathInfo :: "string option \<Rightarrow> int option \<Rightarrow> advert_path" where
  "advertPathInfo outPath hashSize =
     (let hex = to_lower (nullish outPath []); hs = (case hashSize of Some h \<Rightarrow> if h > 0 then nat h else 1 | None \<Rightarrow> 1) in
      \<lparr>av_hashSize = hs, av_path = whole_chunks (length hex) (hs * 2) hex\<rparr>)"

definition shareLink :: "sheet_peer \<Rightarrow> string" where
  "shareLink p =
     ''meshcore://contact/add?name='' @ encode_uri (sp_name p) @ ''&public_key='' @ to_lower (sp_pubkey p)
     @ ''&type='' @ show_nat (typeToInt (sp_type p))"

definition contactEmbed :: "sheet_peer \<Rightarrow> string" where
  "contactEmbed p = ''<'' @ to_lower (sp_pubkey p) @ '':'' @ show_nat (typeToInt (sp_type p)) @ '':'' @ sp_name p @ ''>''"

definition copied :: "string \<Rightarrow> bool \<Rightarrow> toast_kind \<times> string" where
  "copied label ok = (if ok then (SuccessToast, label @ '' copied'') else (ErrorToast, ''Clipboard unavailable''))"

section \<open>The sheet\<close>

definition is_self :: "sheet_companion list \<Rightarrow> sheet_peer \<Rightarrow> bool" where
  "is_self companions p \<longleftrightarrow> list_ex (\<lambda>c. map_option to_lower (sc_pubkey c) = Some (to_lower (sp_pubkey p))) companions"

definition hasLocation :: "sheet_peer \<Rightarrow> bool" where
  "hasLocation p \<longleftrightarrow> sp_lat p \<noteq> 0 \<or> sp_lon p \<noteq> 0"

definition coords :: "sheet_peer \<Rightarrow> string" where
  "coords p = to_fixed 6 (of_int (sp_lat p) / 1000000) @ '', '' @ to_fixed 6 (of_int (sp_lon p) / 1000000)"

definition showMapLink :: "string \<Rightarrow> sheet_peer \<Rightarrow> bool" where
  "showMapLink pathname p \<longleftrightarrow> hasLocation p \<and> pathname \<noteq> ''/map''"

definition view_on_map :: "(rat \<Rightarrow> string) \<Rightarrow> sheet_peer \<Rightarrow> string" where
  "view_on_map num p =
     ''/map?lat='' @ num (of_int (sp_lat p) / 1000000) @ ''&lon='' @ num (of_int (sp_lon p) / 1000000)"

definition hops_text :: "sheet_peer \<Rightarrow> string" where
  "hops_text p =
     (let n = length (av_path (advertPathInfo (sp_outPath p) (sp_outPathHashSize p))) in
      if n = 0 then ''direct (0 hops)'' else show_nat n @ '' hops'')"

definition size_text :: "sheet_peer \<Rightarrow> string" where
  "size_text p =
     (let h = av_hashSize (advertPathInfo (sp_outPath p) (sp_outPathHashSize p)) in
      show_nat h @ ''-byte'' @ (if h > 1 then ''s'' else []) @ '' per hop'')"

definition signal_text :: "sheet_peer \<Rightarrow> string \<times> string option" where
  "signal_text p =
     ((case sp_snr p of Some x \<Rightarrow> to_fixed 1 x @ '' dB'' | None \<Rightarrow> [glyph_dash]),
      map_option (\<lambda>r. show_int r @ '' dBm'') (sp_rssi p))"

record sheet_state =
  sh_confirmDelete :: bool
  sh_deleting :: bool
  sh_open :: bool
  sh_toasts :: "(toast_kind \<times> string) list"

definition delete_peer_asked :: "sheet_peer \<Rightarrow> sheet_state \<Rightarrow> sheet_state \<times> http_request" where
  "delete_peer_asked p st = (st\<lparr>sh_deleting := True\<rparr>, deletePeer_request (sp_pubkey p))"

definition delete_done :: "string option \<Rightarrow> sheet_state \<Rightarrow> sheet_state" where
  "delete_done denied st =
     (case denied of
        None \<Rightarrow> st\<lparr>sh_toasts := sh_toasts st @ [(SuccessToast, ''Peer deleted'')], sh_open := False\<rparr>
      | Some e \<Rightarrow> st\<lparr>sh_toasts := sh_toasts st @ [(ErrorToast, ''Failed to delete: '' @ e)], sh_deleting := False, sh_confirmDelete := False\<rparr>)"

section \<open>Which companions have it\<close>

record member_contact =
  mc_type :: string
  mc_isRepeater :: bool

record membership_hit =
  mh_companion :: string
  mh_ref :: string
  mh_isRepeater :: bool
  mh_peerType :: string

definition membership_hit_of :: "companion \<Rightarrow> member_contact \<Rightarrow> membership_hit" where
  "membership_hit_of c k =
     \<lparr>mh_companion = cname c, mh_ref = companionRef c,
      mh_isRepeater = (mc_isRepeater k \<or> to_upper (mc_type k) = ''REPEATER''),
      mh_peerType = or_str (mc_type k) (if mc_isRepeater k then ''REPEATER'' else [])\<rparr>"

definition member_request :: "string \<Rightarrow> companion \<Rightarrow> http_request" where
  "member_request key c = req GET (''/api/companions/'' @ encode_uri (cname c) @ ''/contacts/'' @ key) None"

record member_deps =
  md_key :: string
  md_names :: string
  md_version :: nat

record membership =
  mb_hits :: "membership_hit list"
  mb_deps :: "member_deps option"  \<comment> \<open>of the last effect\<close>
  mb_run :: nat  \<comment> \<open>the effect that is not cancelled\<close>
  mb_asked :: "(nat \<times> string \<times> companion list) list"

definition member_start :: membership where
  "member_start = \<lparr>mb_hits = [], mb_deps = None, mb_run = 0, mb_asked = []\<rparr>"

definition member_deps_of :: "string \<Rightarrow> companion list \<Rightarrow> nat \<Rightarrow> member_deps" where
  "member_deps_of pubkey companions version =
     \<lparr>md_key = to_lower pubkey, md_names = join '','' (map cname companions), md_version = version\<rparr>"

definition member_render :: "string \<Rightarrow> companion list \<Rightarrow> nat \<Rightarrow> membership \<Rightarrow> membership" where
  "member_render pubkey companions version m =
     (let d = member_deps_of pubkey companions version in
      if mb_deps m = Some d then m
      else m\<lparr>mb_hits := [], mb_deps := Some d, mb_run := mb_run m + 1,
             mb_asked := mb_asked m @ [(mb_run m + 1, to_lower pubkey, companions)]\<rparr>)"

definition member_hits :: "(string \<Rightarrow> string \<Rightarrow> member_contact option) \<Rightarrow> string \<Rightarrow> companion list \<Rightarrow> membership_hit list" where
  \<comment> \<open>\<open>found\<close> of a companion and a key: the contact, none for a refusal or a failure\<close>
  "member_hits found key companions =
     List.map_filter (\<lambda>c. map_option (membership_hit_of c) (found (cname c) key)) companions"

definition member_answered :: "(nat \<Rightarrow> string \<Rightarrow> string \<Rightarrow> member_contact option) \<Rightarrow> nat \<Rightarrow> membership \<Rightarrow> membership" where
  "member_answered found n m =
     (case map_of (mb_asked m) n of
        None \<Rightarrow> m
      | Some (key, companions) \<Rightarrow>
          let m = m\<lparr>mb_asked := filter (\<lambda>x. fst x \<noteq> n) (mb_asked m)\<rparr> in
          if n \<noteq> mb_run m then m else m\<lparr>mb_hits := member_hits (found n) key companions\<rparr>)"

definition hit_link :: "string \<Rightarrow> membership_hit \<Rightarrow> string" where
  "hit_link key h = contactDetailPath (mh_ref h) key (Some (mh_peerType h))"

section \<open>Adding it to a companion's contacts\<close>

record add_dialog =
  ad_companion :: string
  ad_submitting :: bool
  ad_wasOpen :: bool
  ad_toasts :: "(toast_kind \<times> string) list"

definition first_name :: "companion list \<Rightarrow> string" where
  "first_name companions = (case companions of c # _ \<Rightarrow> cname c | [] \<Rightarrow> [])"

definition add_effect :: "bool \<Rightarrow> companion list \<Rightarrow> add_dialog \<Rightarrow> add_dialog" where
  "add_effect opn companions d =
     (if opn \<and> \<not> ad_wasOpen d then d\<lparr>ad_companion := first_name companions, ad_submitting := False\<rparr> else d)\<lparr>ad_wasOpen := opn\<rparr>"

definition add_body :: "sheet_peer \<Rightarrow> json" where
  "add_body p = JObj
     [(''pubkey'', JStr (to_lower (sp_pubkey p))), (''name'', JStr (sp_name p)),
      (''type'', JStr (if sp_type p \<in> set CONTACT_TYPES then sp_type p else []))]"

definition add_submit :: "sheet_peer \<Rightarrow> add_dialog \<Rightarrow> add_dialog \<times> http_request option" where
  "add_submit p d =
     (if ad_companion d = [] \<or> ad_submitting d then (d, None)
      else (d\<lparr>ad_submitting := True\<rparr>, Some (req POST (''/api/companions/'' @ encode_uri (ad_companion d) @ ''/contacts'') (Some (add_body p)))))"

definition add_answered :: "string option \<Rightarrow> string \<Rightarrow> add_dialog \<Rightarrow> add_dialog \<times> bool" where
  \<comment> \<open>and whether the membership is asked for again and the dialog closes\<close>
  "add_answered denied companion d =
     (case denied of
        None \<Rightarrow> (d\<lparr>ad_toasts := ad_toasts d @ [(SuccessToast, ''Added to '' @ companion @ CHR 0x27 # ''s contacts'')], ad_submitting := False\<rparr>, True)
      | Some e \<Rightarrow> (d\<lparr>ad_toasts := ad_toasts d @ [(ErrorToast, ''Failed to add contact: '' @ e)], ad_submitting := False\<rparr>, False))"

section \<open>The QR code\<close>

record qr_dialog =
  qr_open :: bool
  qr_link :: string
  qr_url :: string
  qr_run :: nat  \<comment> \<open>0: none that is not cancelled\<close>
  qr_last :: nat

definition qr_render :: "bool \<Rightarrow> string \<Rightarrow> qr_dialog \<Rightarrow> qr_dialog" where
  "qr_render opn link d =
     (if opn = qr_open d \<and> link = qr_link d then d
      else if opn then d\<lparr>qr_open := opn, qr_link := link, qr_run := qr_last d + 1, qr_last := qr_last d + 1\<rparr>
      else d\<lparr>qr_open := opn, qr_link := link, qr_run := 0\<rparr>)"

definition qr_drawn :: "nat \<Rightarrow> string option \<Rightarrow> qr_dialog \<Rightarrow> qr_dialog" where
  "qr_drawn n url d = (if n \<noteq> 0 \<and> n = qr_run d then d\<lparr>qr_url := nullish url []\<rparr> else d)"

section \<open>Sharing it in a message\<close>

record conv_choice =
  vc_id :: string
  vc_name :: string
  vc_channel :: string
  vc_isRepeater :: bool

record share_dialog =
  sm_open :: bool
  sm_companion :: string
  sm_conversations :: "conv_choice list"
  sm_channel :: string
  sm_loading :: bool
  sm_run :: nat
  sm_last :: nat

definition share_load :: "share_dialog \<Rightarrow> share_dialog" where  \<comment> \<open>the effect on the dialog being open and the companion\<close>
  "share_load d =
     (if \<not> sm_open d \<or> sm_companion d = [] then d\<lparr>sm_conversations := [], sm_channel := [], sm_run := 0\<rparr>
      else d\<lparr>sm_loading := True, sm_run := sm_last d + 1, sm_last := sm_last d + 1\<rparr>)"

definition share_moved :: "share_dialog \<Rightarrow> share_dialog \<Rightarrow> share_dialog" where
  "share_moved old d = (if sm_open d = sm_open old \<and> sm_companion d = sm_companion old then d else share_load d)"

definition share_render :: "bool \<Rightarrow> companion list \<Rightarrow> share_dialog \<Rightarrow> share_dialog" where
  \<comment> \<open>the dialog is opened or closed, or the companions are another list\<close>
  "share_render opn companions d =
     share_moved d (let d = d\<lparr>sm_open := opn\<rparr> in if opn then d\<lparr>sm_companion := first_name companions\<rparr> else d)"

definition share_picked :: "string \<Rightarrow> share_dialog \<Rightarrow> share_dialog" where
  "share_picked c d = share_moved d (d\<lparr>sm_companion := c\<rparr>)"

definition share_loaded :: "nat \<Rightarrow> conv_choice list option \<Rightarrow> share_dialog \<Rightarrow> share_dialog" where
  \<comment> \<open>none when the request failed; a refusal is an empty list\<close>
  "share_loaded n r d =
     (if n = 0 \<or> n \<noteq> sm_run d then d
      else (case r of
          Some cs \<Rightarrow> (let l = filter (\<lambda>c. \<not> vc_isRepeater c) cs in
            d\<lparr>sm_conversations := l, sm_channel := (case l of c # _ \<Rightarrow> vc_channel c | [] \<Rightarrow> [])\<rparr>)
        | None \<Rightarrow> d\<lparr>sm_conversations := []\<rparr>)\<lparr>sm_loading := False\<rparr>)"

definition share_go :: "companion list \<Rightarrow> sheet_peer \<Rightarrow> share_dialog \<Rightarrow> string option" where
  "share_go companions p d =
     (if sm_companion d = [] \<or> sm_channel d = [] then None
      else Some ((case find (\<lambda>c. cname c = sm_companion d) companions of
          Some c \<Rightarrow> companionPath c [] | None \<Rightarrow> ''/companions/'' @ encode_uri (sm_companion d))
        @ ''?channel='' @ encode_uri (sm_channel d) @ ''&compose='' @ encode_uri (contactEmbed p)))"

section \<open>The text that shares a contact\<close>

lemma type_digit: "\<exists>k\<in>set ''1234''. show_nat (typeToInt t) = [k]"
proof -
  have "show_nat 1 = ''1'' \<and> show_nat 2 = ''2'' \<and> show_nat 3 = ''3'' \<and> show_nat 4 = ''4''" by code_simp
  then show ?thesis by (auto simp: typeToInt_def TYPE_INT_def)
qed

lemma hex64_lower: "hex64 h \<Longrightarrow> hex64 (to_lower h)"
  by (auto simp: hex64_def to_lower_def list_all_iff is_hex_def is_digit_def lower_char_def Let_def)

lemma match_card:
  assumes "hex64 h" and "k \<in> set ''1234''" and "CHR ''>'' \<notin> set nm"
  shows "match_contact (CHR ''<'' # h @ [CHR '':'', k, CHR '':''] @ nm @ [CHR ''>'']) = Some (69 + length nm)"
proof -
  have h: "length h = 64" "list_all is_hex h" using assms(1) by (simp_all add: hex64_def)
  have "takeWhile (\<lambda>x. x \<noteq> CHR ''>'') (nm @ [CHR ''>'']) = nm" using assms(3) by (induction nm) auto
  then show ?thesis using h assms(2) by (simp add: Let_def)
qed


definition example_peer :: sheet_peer where
  "example_peer = \<lparr>sp_pubkey = replicate 32 CHR ''A'' @ replicate 32 CHR ''7'', sp_name = ''Hill (top)'', sp_type = ''ROOM'', sp_lat = - 41000000,
     sp_lon = 174000000, sp_snr = None, sp_rssi = None, sp_lastSeen = [], sp_outPath = Some ''aabb01'', sp_outPathHashSize = Some 2\<rparr>"


text \<open>A closing bracket in the name ends the card there, and the rest of the name is text.\<close>

lemma bracket_cuts_card:
  "MessageText [] (contactEmbed (example_peer\<lparr>sp_name := ''a>b''\<rparr>))
    = [ContactPart (replicate 32 CHR ''a'' @ replicate 32 CHR ''7'') CHR ''3'' ''a'', TextPart ''b>'']"
  by code_simp

section \<open>The advert's path\<close>

lemma chunks_cover: "0 < n \<Longrightarrow> length s \<le> k \<Longrightarrow> concat (whole_chunks k n s) = take (n * (length s div n)) s
   \<and> length (whole_chunks k n s) = length s div n \<and> list_all (\<lambda>c. length c = n) (whole_chunks k n s)"
proof (induction k arbitrary: s)
  case (Suc k)
  show ?case
  proof (cases "n \<le> length s")
    case True
    have d: "length s div n = Suc (length (drop n s) div n)" using True Suc.prems(1) by (simp add: div_if)
    have "concat (whole_chunks k n (drop n s)) = take (n * (length (drop n s) div n)) (drop n s)
      \<and> length (whole_chunks k n (drop n s)) = length (drop n s) div n \<and> list_all (\<lambda>c. length c = n) (whole_chunks k n (drop n s))"
      using Suc.prems True by (intro Suc.IH) simp_all
    then show ?thesis using True unfolding d by (simp add: take_add del: length_drop)
  next
    case False
    then show ?thesis by simp
  qed
qed simp

text \<open>A path of whole hops is split into them: joined again they are the path, each as long as the hash.\<close>

lemma advert_hops:
  assumes "length h = 2 * sz * n" and "0 < sz"
  shows "concat (av_path (advertPathInfo (Some h) (Some (int sz)))) = to_lower h
    \<and> length (av_path (advertPathInfo (Some h) (Some (int sz)))) = n"
proof -
  have "length (to_lower h) div (sz * 2) = n" using assms by (simp add: mult.commute mult.left_commute)
  then show ?thesis using chunks_cover [of "sz * 2" "to_lower h" "length (to_lower h)"] assms
    by (simp add: advertPathInfo_def Let_def mult.commute mult.left_commute)
qed

section \<open>The companions shown\<close>

datatype member_event = MemberRender string "companion list" nat | MemberAnswered nat

fun member_step :: "(nat \<Rightarrow> string \<Rightarrow> string \<Rightarrow> member_contact option) \<Rightarrow> member_event \<Rightarrow> membership \<Rightarrow> membership" where
  "member_step found (MemberRender pk cs v) m = member_render pk cs v m"
| "member_step found (MemberAnswered n) m = member_answered found n m"

definition members_ok :: "(nat \<Rightarrow> string \<Rightarrow> string \<Rightarrow> member_contact option) \<Rightarrow> membership \<Rightarrow> bool" where
  "members_ok found m \<longleftrightarrow>
     (\<forall>x\<in>set (mb_asked m). fst x \<le> mb_run m)
     \<and> (\<forall>k cs. (mb_run m, k, cs) \<in> set (mb_asked m) \<longrightarrow>
          (\<exists>d. mb_deps m = Some d \<and> md_key d = k \<and> md_names d = join '','' (map cname cs)))
     \<and> (mb_hits m = [] \<or> (\<exists>d cs. mb_deps m = Some d \<and> md_names d = join '','' (map cname cs)
          \<and> mb_hits m = member_hits (found (mb_run m)) (md_key d) cs))"

lemma member_render_ok: "members_ok found m \<Longrightarrow> members_ok found (member_render pk cs v m)"
  by (fastforce simp: members_ok_def member_render_def member_deps_of_def Let_def)

lemma member_answered_ok: "members_ok found m \<Longrightarrow> members_ok found (member_answered found n m)"
proof (cases "map_of (mb_asked m) n")
  case (Some kc)
  obtain k cs where kc: "kc = (k, cs)" by (cases kc)
  assume ok: "members_ok found m"
  have a: "(n, k, cs) \<in> set (mb_asked m)" using map_of_SomeD [OF Some] kc by simp
  let ?m = "m\<lparr>mb_asked := filter (\<lambda>x. fst x \<noteq> n) (mb_asked m)\<rparr>"
  have m: "members_ok found ?m" using ok by (auto simp: members_ok_def)
  show ?thesis
  proof (cases "n = mb_run m")
    case True
    with ok a obtain d where "mb_deps m = Some d" "md_key d = k" "md_names d = join '','' (map cname cs)"
      unfolding members_ok_def by blast
    then have "members_ok found (?m\<lparr>mb_hits := member_hits (found n) k cs\<rparr>)"
      using m True by (auto simp: members_ok_def)
    then show ?thesis using Some kc True by (simp add: member_answered_def Let_def)
  next
    case False
    then show ?thesis using Some kc m by (simp add: member_answered_def Let_def)
  qed
qed (simp add: member_answered_def)

lemma member_run_ok: "members_ok found m \<Longrightarrow> members_ok found (fold (member_step found) es m)"
proof (induction es arbitrary: m)
  case (Cons e es)
  then show ?case by (cases e) (simp_all add: member_render_ok member_answered_ok)
qed simp

text \<open>C35: Safety. The companions listed under a peer are found for that peer: after any sequence of peers shown and answers in
  any order, the list is empty or what the latest request, for the peer now shown and companions of the names now shown,
  brought back.\<close>
theorem members_of_shown_peer:
  "case member_render pk cs v (fold (member_step found) es member_start) of m \<Rightarrow>
     mb_hits m \<in> insert [] (member_hits (found (mb_run m)) (to_lower pk) ` {ds. join '','' (map cname ds) = join '','' (map cname cs)})"
proof -
  let ?m = "member_render pk cs v (fold (member_step found) es member_start)"
  have "members_ok found member_start" by (simp add: members_ok_def member_start_def)
  then have ok: "members_ok found ?m" by (intro member_render_ok member_run_ok)
  have "mb_deps ?m = Some (member_deps_of pk cs v)" by (simp add: member_render_def Let_def)
  then show ?thesis using ok by (auto simp: members_ok_def member_deps_of_def)
qed

section \<open>Sharing goes wrong\<close>

definition share_closed :: share_dialog where
  "share_closed = \<lparr>sm_open = False, sm_companion = [], sm_conversations = [], sm_channel = [], sm_loading = False, sm_run = 0, sm_last = 0\<rparr>"

definition two_companions :: "companion list" where
  "two_companions = [\<lparr>cid = 1, cname = ''one''\<rparr>, \<lparr>cid = 2, cname = ''two''\<rparr>]"

definition first_conversations :: "conv_choice list" where
  "first_conversations = [\<lparr>vc_id = ''c1'', vc_name = ''Alerts'', vc_channel = ''alerts'', vc_isRepeater = False\<rparr>]"

definition shared_from_one :: share_dialog where
  "shared_from_one = share_loaded 1 (Some first_conversations) (share_render True two_companions share_closed)"

text \<open>Another companion is picked: until its conversations are there, and after they failed to load, the button opens the new
  companion with the old one's channel.\<close>

lemma stale_channel_shared:
  "case share_picked ''two'' shared_from_one of d \<Rightarrow>
     sm_companion d = ''two'' \<and> sm_channel d = ''alerts'' \<and> share_go two_companions example_peer d \<noteq> None
     \<and> sm_channel (share_loaded 2 None d) = ''alerts'' \<and> sm_conversations (share_loaded 2 None d) = []"
  by code_simp

text \<open>The list of companions comes again (as it does when any companion changes): the companion picked is dropped.\<close>

lemma share_target_reset:
  "sm_companion (share_render True two_companions (share_picked ''two'' shared_from_one)) = ''one''"
  by code_simp

text \<open>The other dialog keeps what was picked.\<close>

lemma add_target_kept: "ad_wasOpen d \<Longrightarrow> ad_companion (add_effect True companions d) = ad_companion d"
  by (simp add: add_effect_def)

text \<open>The QR code of the link before stays until the new one is drawn.\<close>

lemma old_qr_shown: "qr_url (qr_render True link d) = qr_url d"
  by (simp add: qr_render_def)

end
