(* ===== verification/PeerPages.thy ===== *)
theory PeerPages
  imports PeerSheet JsSort Dates AccessList
begin

text \<open>
  The pages that list discovered peers: all of them (\<open>pages/PeersPage.tsx\<close>), with a search, a filter, a selection and a
  delete of many, and the repeaters of a companion (\<open>pages/RepeatersListPage.tsx\<close>). Both keep a list up to date from
  the same live messages.
\<close>

section \<open>Live messages\<close>

datatype peer_message = PeersGone "string list" | PeerHeard sheet_peer

definition merge_peer :: "sheet_peer \<Rightarrow> sheet_peer \<Rightarrow> sheet_peer" where
  \<comment> \<open>\<open>{ ...old, ...data }\<close>: the path and its hash size may be missing in the message, everything else is in it\<close>
  "merge_peer old p =
     p\<lparr>sp_outPath := (if sp_outPath p = None then sp_outPath old else sp_outPath p),
       sp_outPathHashSize := (if sp_outPathHashSize p = None then sp_outPathHashSize old else sp_outPathHashSize p)\<rparr>"

definition without_peers :: "string list \<Rightarrow> sheet_peer list \<Rightarrow> sheet_peer list" where
  "without_peers gone peers = filter (\<lambda>p. to_lower (sp_pubkey p) \<notin> set (map to_lower gone)) peers"

definition replace_peer :: "sheet_peer \<Rightarrow> sheet_peer list \<Rightarrow> sheet_peer list option" where
  "replace_peer p peers =
     (case index_where (\<lambda>x. sp_pubkey x = sp_pubkey p) peers of
        None \<Rightarrow> None
      | Some i \<Rightarrow> Some (peers[i := merge_peer (peers ! i) p]))"

fun peers_message :: "peer_message \<Rightarrow> sheet_peer list \<Rightarrow> sheet_peer list" where  \<comment> \<open>of the page of all peers\<close>
  "peers_message (PeersGone gone) peers = without_peers gone peers"
| "peers_message (PeerHeard p) peers = nullish (replace_peer p peers) (p # peers)"

fun repeaters_message :: "peer_message \<Rightarrow> sheet_peer list \<Rightarrow> sheet_peer list" where  \<comment> \<open>of the page of repeaters\<close>
  "repeaters_message (PeersGone gone) peers = without_peers gone peers"
| "repeaters_message (PeerHeard p) peers = nullish (replace_peer p peers) (peers @ [p])"

section \<open>All peers\<close>

definition TYPE_FILTERS :: "string list" where
  "TYPE_FILTERS = [''ALL'', ''CHAT'', ''REPEATER'', ''ROOM'', ''SENSOR'', ''NONE'']"

definition heard_last_first :: "sheet_peer \<Rightarrow> sheet_peer \<Rightarrow> rat" where  \<comment> \<open>a difference that is no number orders nothing\<close>
  "heard_last_first a b =
     (case (date_ms (sp_lastSeen b), date_ms (sp_lastSeen a)) of (Some x, Some y) \<Rightarrow> of_int (x - y) | _ \<Rightarrow> 0)"

definition peer_matches :: "string \<Rightarrow> string \<Rightarrow> sheet_peer \<Rightarrow> bool" where
  "peer_matches search typeFilter p \<longleftrightarrow>
     (let q = to_lower (trim search) in
      (typeFilter = ''ALL'' \<or> sp_type p = typeFilter)
      \<and> (q = [] \<or> str_includes (to_lower (sp_name p)) q \<or> str_includes (to_lower (sp_pubkey p)) q))"

definition filtered_peers :: "string \<Rightarrow> string \<Rightarrow> sheet_peer list \<Rightarrow> sheet_peer list" where
  "filtered_peers search typeFilter peers = js_sort heard_last_first (filter (peer_matches search typeFilter) peers)"

definition type_count :: "string \<Rightarrow> sheet_peer list \<Rightarrow> nat" where  \<comment> \<open>\<open>countFor\<close>\<close>
  "type_count t peers = (if t = ''ALL'' then length peers else length (filter (\<lambda>p. sp_type p = t) peers))"

definition withLocation :: "sheet_peer list \<Rightarrow> nat" where
  "withLocation peers = length (filter hasLocation peers)"

record peers_page =
  pp_peers :: "sheet_peer list"
  pp_search :: string
  pp_typeFilter :: string
  pp_selected :: "string list"
  pp_confirmBulk :: bool
  pp_bulkDeleting :: bool
  pp_toasts :: "(toast_kind \<times> string) list"

definition page_filtered :: "peers_page \<Rightarrow> sheet_peer list" where
  "page_filtered st = filtered_peers (pp_search st) (pp_typeFilter st) (pp_peers st)"

definition toggled :: "string \<Rightarrow> string list \<Rightarrow> string list" where
  "toggled k sel = (if k \<in> set sel then filter (\<lambda>x. x \<noteq> k) sel else sel @ [k])"

definition toggleSelect :: "string \<Rightarrow> peers_page \<Rightarrow> peers_page" where
  "toggleSelect k st = st\<lparr>pp_selected := toggled k (pp_selected st)\<rparr>"

definition allFilteredSelected :: "peers_page \<Rightarrow> bool" where
  "allFilteredSelected st \<longleftrightarrow>
     page_filtered st \<noteq> [] \<and> list_all (\<lambda>p. sp_pubkey p \<in> set (pp_selected st)) (page_filtered st)"

definition toggled_all :: "string list \<Rightarrow> string list \<Rightarrow> string list" where
  "toggled_all ks sel =
     (if list_all (\<lambda>k. k \<in> set sel) ks then foldl (\<lambda>s k. filter (\<lambda>x. x \<noteq> k) s) sel ks
      else foldl (\<lambda>s k. set_add k s) sel ks)"

definition toggleSelectAll :: "peers_page \<Rightarrow> peers_page" where
  "toggleSelectAll st = st\<lparr>pp_selected := toggled_all (map sp_pubkey (page_filtered st)) (pp_selected st)\<rparr>"

definition bulkDelete :: "peers_page \<Rightarrow> peers_page \<times> http_request" where
  "bulkDelete st = (st\<lparr>pp_bulkDeleting := True\<rparr>, deletePeers_request (pp_selected st))"

definition bulk_done :: "string + int \<times> int \<Rightarrow> peers_page \<Rightarrow> peers_page" where
  "bulk_done r st =
     (case r of
        Inr (deleted, skipped) \<Rightarrow>
          st\<lparr>pp_toasts := pp_toasts st @ [(SuccessToast, deletedPeersMessage deleted skipped)], pp_selected := [],
             pp_confirmBulk := False, pp_bulkDeleting := False\<rparr>
      | Inl e \<Rightarrow> st\<lparr>pp_toasts := pp_toasts st @ [(ErrorToast, ''Bulk delete failed: '' @ e)], pp_bulkDeleting := False\<rparr>)"

definition peers_meta :: "peers_page \<Rightarrow> string" where
  "peers_meta st =
     show_nat (length (page_filtered st)) @ ''/'' @ show_nat (length (pp_peers st)) @ '' '' @ [glyph_middot] @ '' ''
     @ show_nat (withLocation (pp_peers st)) @ '' located''"

definition hops_badge :: "sheet_peer \<Rightarrow> string \<times> string option" where  \<comment> \<open>its text, and the link to the map\<close>
  "hops_badge p =
     (let n = length (av_path (advertPathInfo (sp_outPath p) (sp_outPathHashSize p))) in
      if n = 0 then (''direct'', None)
      else (show_nat n @ '' hop'' @ (if n > 1 then ''s'' else []),
        Some (mapPathHref \<lparr>l_path = nullish (sp_outPath p) [], l_hashSize = sp_outPathHashSize p, l_origin = Some (sp_pubkey p),
          l_direction = None, l_route = None\<rparr>)))"

section \<open>The repeaters of a companion\<close>

record listed_contact =
  lc_pubkey :: string
  lc_name :: string
  lc_type :: string
  lc_addedAt :: string
  lc_isRepeater :: "bool option"
  lc_password :: "string option"

record repeaters_page =
  rl_companion :: string
  rl_contacts :: "listed_contact list option"
  rl_peers :: "sheet_peer list"
  rl_loading :: bool
  rl_error :: "string option"
  rl_confirmRemove :: "string option"
  rl_addOpen :: bool
  rl_toasts :: "(toast_kind \<times> string) list"

definition repeaters_load :: "repeaters_page \<Rightarrow> repeaters_page \<times> http_request list" where
  "repeaters_load st =
     (if rl_companion st = [] then (st, [])
      else (st\<lparr>rl_loading := True, rl_error := None\<rparr>,
        [req GET (''/api/companions/'' @ encode_uri (rl_companion st) @ ''/contacts'') None, req GET ''/api/peers'' None]))"

definition repeaters_loaded :: "(listed_contact list \<times> sheet_peer list) option \<Rightarrow> repeaters_page \<Rightarrow> repeaters_page" where
  \<comment> \<open>none when either request failed\<close>
  "repeaters_loaded r st =
     (case r of
        Some (cs, ps) \<Rightarrow> st\<lparr>rl_contacts := Some cs, rl_peers := ps, rl_loading := False\<rparr>
      | None \<Rightarrow> st\<lparr>rl_error := Some ''Failed to load repeaters'', rl_loading := False\<rparr>)"

definition companion_changed :: "string \<Rightarrow> repeaters_page \<Rightarrow> repeaters_page \<times> http_request list" where
  "companion_changed c st = (if c = rl_companion st then (st, []) else repeaters_load (st\<lparr>rl_companion := c\<rparr>))"

definition repeater_contacts :: "(string \<Rightarrow> string \<Rightarrow> rat) \<Rightarrow> repeaters_page \<Rightarrow> listed_contact list" where
  "repeater_contacts loc st =
     js_sort (\<lambda>a b. loc (lc_name a) (lc_name b))
       (filter (\<lambda>c. lc_type c = ''REPEATER'' \<or> lc_isRepeater c = Some True) (nullish (rl_contacts st) []))"

definition knownPubkeys :: "repeaters_page \<Rightarrow> string list" where
  "knownPubkeys st = map (\<lambda>c. to_lower (lc_pubkey c)) (nullish (rl_contacts st) [])"

definition candidatePeers :: "repeaters_page \<Rightarrow> sheet_peer list" where
  "candidatePeers st =
     filter (\<lambda>p. sp_type p = ''REPEATER'' \<and> to_lower (sp_pubkey p) \<notin> set (knownPubkeys st)) (rl_peers st)"

definition contact_url :: "string \<Rightarrow> string \<Rightarrow> string" where
  "contact_url companion pk = ''/api/companions/'' @ encode_uri companion @ ''/contacts/'' @ pk"

definition remove_repeater :: "string \<Rightarrow> repeaters_page \<Rightarrow> http_request" where
  "remove_repeater pk st = req DELETE (contact_url (rl_companion st) pk) None"

definition repeater_removed :: "string option \<Rightarrow> repeaters_page \<Rightarrow> repeaters_page \<times> http_request list" where
  "repeater_removed denied st =
     (case denied of
        None \<Rightarrow> repeaters_load (st\<lparr>rl_toasts := rl_toasts st @ [(SuccessToast, ''Repeater removed'')], rl_confirmRemove := None\<rparr>)
      | Some e \<Rightarrow> (st\<lparr>rl_toasts := rl_toasts st @ [(ErrorToast, ''Failed to remove: '' @ e)]\<rparr>, []))"

definition add_repeater :: "string \<Rightarrow> repeaters_page \<Rightarrow> http_request" where
  "add_repeater pk st =
     req POST (''/api/companions/'' @ encode_uri (rl_companion st) @ ''/contacts'') (Some (JObj [(''pubkey'', JStr pk)]))"

definition mark_repeater :: "string \<Rightarrow> repeaters_page \<Rightarrow> http_request" where  \<comment> \<open>sent once it is added; its failure is ignored\<close>
  "mark_repeater pk st = req PATCH (contact_url (rl_companion st) pk) (Some (JObj [(''isRepeater'', JBool True)]))"

definition repeater_added :: "string option \<Rightarrow> repeaters_page \<Rightarrow> repeaters_page \<times> http_request list" where
  "repeater_added denied st =
     (case denied of
        None \<Rightarrow> repeaters_load (st\<lparr>rl_toasts := rl_toasts st @ [(SuccessToast, ''Repeater added'')], rl_addOpen := False\<rparr>)
      | Some e \<Rightarrow> (st\<lparr>rl_toasts := rl_toasts st @ [(ErrorToast, ''Failed to add: '' @ e)]\<rparr>, []))"

definition repeater_row_link :: "string \<Rightarrow> listed_contact \<Rightarrow> string" where
  "repeater_row_link companion c =
     contactDetailPath companion (lc_pubkey c)
       (Some (if to_upper (lc_type c) \<in> {''ROOM'', ''SENSOR''} then lc_type c else ''REPEATER''))"

subsection \<open>The dialog that adds one\<close>

record add_repeater_dialog =
  ar_search :: string
  ar_byName :: bool
  ar_manualKey :: string
  ar_submitting :: bool

definition add_dialog_closed :: add_repeater_dialog where
  "add_dialog_closed = \<lparr>ar_search = [], ar_byName = False, ar_manualKey = [], ar_submitting = False\<rparr>"

definition available_repeaters :: "(string \<Rightarrow> string \<Rightarrow> rat) \<Rightarrow> sheet_peer list \<Rightarrow> add_repeater_dialog \<Rightarrow> sheet_peer list" where
  "available_repeaters loc cands d =
     (let q = to_lower (trim (ar_search d));
          pool = (if trim (ar_search d) = [] then cands
            else filter (\<lambda>p. str_includes (to_lower (sp_name p)) q \<or> str_includes (to_lower (sp_pubkey p)) q) cands)
      in if ar_byName d then js_sort (\<lambda>a b. loc (sp_name a) (sp_name b)) pool else js_sort heard_last_first pool)"

definition manual_ok :: "string list \<Rightarrow> add_repeater_dialog \<Rightarrow> bool" where
  "manual_ok known d \<longleftrightarrow>
     hex64 (trim (ar_manualKey d)) \<and> to_lower (trim (ar_manualKey d)) \<notin> set known \<and> \<not> ar_submitting d"

definition manual_submit :: "string list \<Rightarrow> add_repeater_dialog \<Rightarrow> string option" where
  "manual_submit known d = (if manual_ok known d then Some (to_lower (trim (ar_manualKey d))) else None)"

section \<open>Both pages list the same peers\<close>

text \<open>What a list of peers stands for: a map from public keys.\<close>

definition peer_map :: "sheet_peer list \<Rightarrow> string \<Rightarrow> sheet_peer option" where
  "peer_map peers k = find (\<lambda>p. sp_pubkey p = k) peers"

fun map_message :: "peer_message \<Rightarrow> (string \<Rightarrow> sheet_peer option) \<Rightarrow> string \<Rightarrow> sheet_peer option" where
  "map_message (PeersGone gone) m = (\<lambda>k. if to_lower k \<in> set (map to_lower gone) then None else m k)"
| "map_message (PeerHeard p) m =
     m(sp_pubkey p \<mapsto> (case m (sp_pubkey p) of None \<Rightarrow> p | Some old \<Rightarrow> merge_peer old p))"

definition once_each :: "sheet_peer list \<Rightarrow> bool" where
  "once_each peers \<longleftrightarrow> distinct (map sp_pubkey peers)"

lemma peer_map_Some: "peer_map peers k = Some p \<Longrightarrow> p \<in> set peers \<and> sp_pubkey p = k"
  by (auto simp: peer_map_def find_Some_iff)

lemma peer_map_Nil [simp]: "peer_map [] k = None"
  by (simp add: peer_map_def)

lemma peer_map_Cons [simp]: "peer_map (p # ps) k = (if sp_pubkey p = k then Some p else peer_map ps k)"
  by (simp add: peer_map_def)

lemma peer_map_None: "peer_map peers k = None \<longleftrightarrow> k \<notin> sp_pubkey ` set peers"
  by (induction peers) auto

lemma peer_map_snoc: "peer_map (ps @ [p]) k = (case peer_map ps k of None \<Rightarrow> if sp_pubkey p = k then Some p else None | Some q \<Rightarrow> Some q)"
  by (induction ps) auto

lemma map_without: "peer_map (without_peers gone ps) k = (if to_lower k \<in> set (map to_lower gone) then None else peer_map ps k)"
  by (induction ps) (auto simp: without_peers_def)

lemma merge_pubkey [simp]: "sp_pubkey (merge_peer old p) = sp_pubkey p"
  by (simp add: merge_peer_def)

lemma replace_Cons:
  "replace_peer p (x # xs) =
     (if sp_pubkey x = sp_pubkey p then Some (merge_peer x p # xs) else map_option ((#) x) (replace_peer p xs))"
  by (simp add: replace_peer_def split: option.split)

lemma replace_None: "replace_peer p ps = None \<longleftrightarrow> peer_map ps (sp_pubkey p) = None"
  by (induction ps) (auto simp: replace_Cons, simp add: replace_peer_def)

lemma replace_Some:
  "replace_peer p ps = Some qs \<Longrightarrow>
     map sp_pubkey qs = map sp_pubkey ps
     \<and> peer_map qs = (peer_map ps)(sp_pubkey p \<mapsto> merge_peer (the (peer_map ps (sp_pubkey p))) p)"
proof (induction ps arbitrary: qs)
  case (Cons x xs)
  show ?case
  proof (cases "sp_pubkey x = sp_pubkey p")
    case True
    then show ?thesis using Cons.prems by (auto simp: replace_Cons)
  next
    case False
    then obtain rs where "replace_peer p xs = Some rs" "qs = x # rs" using Cons.prems by (auto simp: replace_Cons)
    with Cons.IH [of rs] False show ?thesis by auto
  qed
qed (simp add: replace_peer_def)

lemma peers_message_map: "peer_map (peers_message m ps) = map_message m (peer_map ps)"
proof (cases m)
  case (PeersGone gone)
  then show ?thesis by (auto simp: map_without)
next
  case (PeerHeard p)
  show ?thesis
  proof (cases "replace_peer p ps")
    case None
    then have "peer_map ps (sp_pubkey p) = None" using replace_None [of p ps] by simp
    then show ?thesis using PeerHeard None by auto
  next
    case (Some qs)
    then have "peer_map ps (sp_pubkey p) \<noteq> None" using replace_None [of p ps] by simp
    then show ?thesis using PeerHeard Some replace_Some [OF Some] by auto
  qed
qed

lemma repeaters_message_map: "peer_map (repeaters_message m ps) = map_message m (peer_map ps)"
proof (cases m)
  case (PeersGone gone)
  then show ?thesis by (auto simp: map_without)
next
  case (PeerHeard p)
  show ?thesis
  proof (cases "replace_peer p ps")
    case None
    then have "peer_map ps (sp_pubkey p) = None" using replace_None [of p ps] by simp
    then show ?thesis using PeerHeard None by (auto simp: peer_map_snoc split: option.split)
  next
    case (Some qs)
    then have "peer_map ps (sp_pubkey p) \<noteq> None" using replace_None [of p ps] by simp
    then show ?thesis using PeerHeard Some replace_Some [OF Some] by auto
  qed
qed

lemma message_once: "once_each ps \<Longrightarrow> once_each (peers_message m ps) \<and> once_each (repeaters_message m ps)"
proof (cases m)
  case (PeersGone gone)
  then show "once_each ps \<Longrightarrow> ?thesis" by (simp add: once_each_def without_peers_def distinct_map_filter)
next
  case (PeerHeard p)
  assume o: "once_each ps"
  show ?thesis
  proof (cases "replace_peer p ps")
    case None
    then have "sp_pubkey p \<notin> sp_pubkey ` set ps" by (simp add: replace_None peer_map_None)
    then show ?thesis using PeerHeard None o by (auto simp: once_each_def)
  next
    case (Some qs)
    then show ?thesis using PeerHeard o replace_Some [OF Some] by (simp add: once_each_def)
  qed
qed

lemma peers_fold_map: "peer_map (fold peers_message ms ps) = fold map_message ms (peer_map ps)"
  by (induction ms arbitrary: ps) (simp_all add: peers_message_map)

lemma repeaters_fold_map: "peer_map (fold repeaters_message ms ps) = fold map_message ms (peer_map ps)"
  by (induction ms arbitrary: ps) (simp_all add: repeaters_message_map)

text \<open>C19: Refinement. The page of all peers and the page of a companion's repeaters keep their peers in different orders, but fed
  with the same live messages they hold the same peers: each list is the same map from public keys, in which a
  message replaces one peer, keeping only what it leaves out, or removes several whatever the case of
  their keys.\<close>
theorem peer_lists_refine_map:
  "peer_map (fold peers_message ms ps) = fold map_message ms (peer_map ps)
   \<and> peer_map (fold repeaters_message ms ps) = fold map_message ms (peer_map ps)"
  by (rule conjI [OF peers_fold_map repeaters_fold_map])

lemma messages_once: "once_each ps \<Longrightarrow> once_each (fold peers_message ms ps) \<and> once_each (fold repeaters_message ms ps)"
proof -
  have "once_each qs \<Longrightarrow> once_each (fold peers_message ms qs)" for qs
    by (induction ms arbitrary: qs) (simp_all add: message_once)
  moreover have "once_each qs \<Longrightarrow> once_each (fold repeaters_message ms qs)" for qs
    by (induction ms arbitrary: qs) (simp_all add: message_once)
  ultimately show "once_each ps \<Longrightarrow> ?thesis" by blast
qed

text \<open>With each peer listed once, both lists are the same up to their order.\<close>

lemma once_each_mset: "once_each ps \<Longrightarrow> once_each qs \<Longrightarrow> peer_map ps = peer_map qs \<Longrightarrow> mset ps = mset qs"
proof -
  assume o: "once_each ps" "once_each qs" and m: "peer_map ps = peer_map qs"
  have in_set: "p \<in> set xs \<longleftrightarrow> peer_map xs (sp_pubkey p) = Some p" if "once_each xs" for p xs
    using that by (induction xs) (auto simp: once_each_def)
  have "set ps = set qs" using in_set [OF o(1)] in_set [OF o(2)] m by auto
  moreover have "distinct ps" "distinct qs" using o by (simp_all add: once_each_def distinct_map)
  ultimately show ?thesis by (simp add: set_eq_iff_mset_eq_distinct)
qed

lemma same_peers_listed:
  "once_each ps \<Longrightarrow> mset (fold peers_message ms ps) = mset (fold repeaters_message ms ps)"
  using messages_once [of ps ms] by (intro once_each_mset) (simp_all add: peers_fold_map repeaters_fold_map)

section \<open>The selection\<close>

lemma fold_remove: "set (foldl (\<lambda>s k. filter (\<lambda>x. x \<noteq> k) s) sel ks) = set sel - set ks"
  by (induction ks arbitrary: sel) auto

lemma fold_add: "set (foldl (\<lambda>s k. set_add k s) sel ks) = set sel \<union> set ks"
  by (induction ks arbitrary: sel) auto

text \<open>The box in the table's head selects every peer that is shown, or none of them when all were selected; what is selected
  outside the filter stays as it was.\<close>

lemma select_all_shown:
  "set (pp_selected (toggleSelectAll st)) =
     (if list_all (\<lambda>p. sp_pubkey p \<in> set (pp_selected st)) (page_filtered st)
      then set (pp_selected st) - sp_pubkey ` set (page_filtered st)
      else set (pp_selected st) \<union> sp_pubkey ` set (page_filtered st))"
  by (simp add: toggleSelectAll_def toggled_all_def fold_remove fold_add list_all_iff)

lemma shown_peers_match:
  "set (filtered_peers search t peers) = {p \<in> set peers. peer_matches search t p}"
  by (simp add: filtered_peers_def)

text \<open>With readable times the peers are shown with the one heard last first.\<close>

lemma shown_newest_first:
  assumes "\<forall>p\<in>set peers. date_ms (sp_lastSeen p) \<noteq> None"
  shows "sorted_wrt (\<lambda>a b. the (date_ms (sp_lastSeen b)) \<le> the (date_ms (sp_lastSeen a))) (filtered_peers search t peers)"
proof -
  let ?t = "\<lambda>p. of_int (the (date_ms (sp_lastSeen p))) :: rat"
  let ?xs = "filter (peer_matches search t) peers"
  have eq: "heard_last_first x y = ?t y - ?t x" if "x \<in> set ?xs" "y \<in> set ?xs" for x y
    using assms that by (auto simp: heard_last_first_def split: option.splits)
  have "sorted_wrt (\<lambda>a b. heard_last_first a b \<le> 0) (js_sort heard_last_first ?xs)"
    by (rule sorted_js_sort_on [OF js_comparator_key_desc [of ?t]]) (rule eq)
  then show ?thesis unfolding filtered_peers_def
    by (rule sorted_wrt_mono_rel [rotated]) (simp add: eq)
qed

lemma candidates_new: "p \<in> set (candidatePeers st) \<Longrightarrow> to_lower (sp_pubkey p) \<notin> set (knownPubkeys st)"
  by (simp add: candidatePeers_def)

section \<open>What goes wrong\<close>

text \<open>Rows ticked while a delete is under way are cleared with it, and a peer that is removed elsewhere stays selected: it is
  counted, and asked for again.\<close>

lemma late_ticks_cleared: "pp_selected (bulk_done (Inr r) (toggleSelect k (fst (bulkDelete st)))) = []"
  by (cases r) (simp add: bulk_done_def)

lemma gone_peer_still_selected:
  "pp_selected (st\<lparr>pp_peers := peers_message (PeersGone gone) (pp_peers st)\<rparr>) = pp_selected st"
  by simp

text \<open>The companion of the page changes while a load is under way: an answer for the one before is shown under the
  one now chosen, and a failure hides what was loaded.\<close>

lemma stale_repeaters_shown:
  "rl_contacts (repeaters_loaded (Some (cs, ps)) (fst (companion_changed c st))) = Some cs"
  "rl_error (repeaters_loaded None (repeaters_loaded (Some (cs, ps)) st)) = Some ''Failed to load repeaters''"
  by (simp_all add: repeaters_loaded_def)

text \<open>Live peers heard while a load is under way are dropped by its answer.\<close>

lemma late_load_drops_peer:
  "rl_peers (repeaters_loaded (Some (cs, [])) (st\<lparr>rl_peers := repeaters_message (PeerHeard p) []\<rparr>)) = []"
  by (simp add: repeaters_loaded_def)

end
