(* ===== verification/PushWatch.thy ===== *)
theory PushWatch
  imports RemoteSettings Json
begin

text \<open>
  The readings a firmware 1.18 sensor watches (\<open>components/SensorPushSettings.tsx\<close>): which readings of a telemetry
  reply it can find and compare, which are ticked, and with how much change. The sensor has room for three readings and
  fourteen bytes of changes; the server checks the same (\<open>internal/api/subscription.go\<close>).
\<close>

section \<open>What a sensor can compare\<close>

record push_delta =
  pd_channel :: nat
  pd_type :: nat
  pd_value :: "rat option"  \<comment> \<open>none is written as null\<close>
  pd_name :: string
  pd_unit :: string

record watch_row =
  pr_channel :: nat
  pr_type :: nat
  pr_name :: string
  pr_unit :: string
  pr_on :: bool
  pr_value :: string

record tele_reading =
  te_channel :: nat
  te_type :: nat
  te_name :: string
  te_unit :: "string option"
  te_value :: json

record lpp_range =
  lr_mult :: nat
  lr_max :: nat
  lr_size :: nat

definition RANGE :: "nat \<Rightarrow> lpp_range option" where
  "RANGE t = map_option (\<lambda>(m, x, s). \<lparr>lr_mult = m, lr_max = x, lr_size = s\<rparr>) (map_of
     [(120, 1, 255, 1), (2, 100, 32767, 2), (103, 10, 32767, 2), (121, 1, 32767, 2), (101, 1, 65535, 2), (115, 10, 65535, 2),
      (116, 100, 65535, 2), (117, 1000, 65535, 2), (125, 1, 65535, 2), (128, 1, 65535, 2), (132, 1, 65535, 2),
      (100, 1, 2 ^ 24, 4), (130, 1000, 2 ^ 24, 4), (131, 1000, 2 ^ 24, 4)] t)"

definition TEMPERATURE :: nat where "TEMPERATURE = 103"

definition DEFAULT_DELTA :: "nat \<Rightarrow> string option" where
  "DEFAULT_DELTA t = map_of [(TEMPERATURE, ''0.5''), (116, ''0.1'')] t"

definition MAX_PUSH_READINGS :: nat where "MAX_PUSH_READINGS = 3"
definition MAX_PUSH_BYTES :: nat where "MAX_PUSH_BYTES = 14"

definition SIZE :: "nat \<Rightarrow> nat option" where  \<comment> \<open>the bytes of an LPP value as written\<close>
  "SIZE t = map_of ([(0, 1), (1, 1), (102, 1), (104, 1), (120, 1), (142, 1), (135, 3), (113, 6), (134, 6), (136, 9)]
     @ map (\<lambda>t. (t, 2)) [2, 3, 101, 103, 115, 116, 117, 121, 125, 128, 132]
     @ map (\<lambda>t. (t, 4)) [100, 118, 130, 131, 133]) t"

definition HUMIDITY :: nat where "HUMIDITY = 104"

definition rowKey :: "nat \<Rightarrow> nat \<Rightarrow> string" where
  "rowKey c t = show_nat c @ CHR ''-'' # show_nat t"

abbreviation row_key :: "watch_row \<Rightarrow> string" where
  "row_key r \<equiv> rowKey (pr_channel r) (pr_type r)"

abbreviation reading_key :: "tele_reading \<Rightarrow> string" where
  "reading_key r \<equiv> rowKey (te_channel r) (te_type r)"

section \<open>What the sensor can find\<close>

definition parse_hex :: "string \<Rightarrow> int option" where  \<comment> \<open>\<open>parseInt(h, 16)\<close>\<close>
  "parse_hex h =
     (let s = trim_start h;
          neg = (case s of c # _ \<Rightarrow> c = CHR ''-'' | [] \<Rightarrow> False);
          u = (case s of c # t \<Rightarrow> if c = CHR ''-'' \<or> c = CHR ''+'' then t else s | [] \<Rightarrow> []);
          v = (if starts_with ''0x'' u \<or> starts_with ''0X'' u then drop 2 u else u);
          ds = takeWhile is_hex v
      in if ds = [] then None
         else Some ((if neg then - 1 else 1) * int (foldl (\<lambda>n c. 16 * n + hex_value c) 0 ds)))"

fun char_pairs :: "string \<Rightarrow> string list" where  \<comment> \<open>\<open>raw.match(/../g)\<close>: a dot is no line end\<close>
  "char_pairs (c # d # s) =
     (if c = CHR 10 \<or> c = CHR 13 then char_pairs (d # s)
      else if d = CHR 10 \<or> d = CHR 13 then char_pairs s
      else [c, d] # char_pairs s)"
| "char_pairs s = []"

definition byte_text :: "int option \<Rightarrow> string" where  \<comment> \<open>in a template\<close>
  "byte_text b = (case b of Some n \<Rightarrow> show_int n | None \<Rightarrow> ''NaN'')"

definition byte_size :: "int option \<Rightarrow> nat option" where  \<comment> \<open>\<open>SIZE[b]\<close>\<close>
  "byte_size b = (case b of Some n \<Rightarrow> if n < 0 then None else SIZE (nat n) | None \<Rightarrow> None)"

function walk_bytes :: "int option list \<Rightarrow> string list" where  \<comment> \<open>the loop of \<open>findable\<close>, from \<open>b[i]\<close> on\<close>
  "walk_bytes (c # t # d # rest) =
     (if c = Some 0 then []
      else case byte_size t of
        None \<Rightarrow> []
      | Some n \<Rightarrow>
          if t = Some (int HUMIDITY) then []
          else (byte_text c @ CHR ''-'' # byte_text t) # walk_bytes (drop n (d # rest)))"
| "walk_bytes [] = []"
| "walk_bytes [c] = []"
| "walk_bytes [c, t] = []"
  by pat_completeness auto
termination
  by (relation "measure length") auto

definition findable :: "string \<Rightarrow> string list" where
  "findable raw = walk_bytes (map parse_hex (char_pairs raw))"

section \<open>The rows\<close>

definition range_size :: "nat \<Rightarrow> nat" where  \<comment> \<open>\<open>RANGE[t]?.size ?? 0\<close>\<close>
  "range_size t = nullish (map_option lr_size (RANGE t)) 0"

definition row_bytes :: "watch_row \<Rightarrow> nat" where
  "row_bytes r = (if pr_on r then 2 + range_size (pr_type r) else 0)"

definition bytesOf :: "watch_row list \<Rightarrow> nat" where
  "bytesOf rows = foldl (\<lambda>n r. n + row_bytes r) 0 rows"

definition rowsFromSaved :: "(rat \<Rightarrow> string) \<Rightarrow> push_delta list option \<Rightarrow> watch_row list" where
  "rowsFromSaved num saved = map (\<lambda>d. \<lparr>pr_channel = pd_channel d, pr_type = pd_type d, pr_name = pd_name d,
     pr_unit = pd_unit d, pr_on = True, pr_value = (case pd_value d of Some x \<Rightarrow> num x | None \<Rightarrow> ''null'')\<rparr>) (nullish saved [])"

definition row_delta :: "watch_row \<Rightarrow> push_delta" where
  "row_delta r = \<lparr>pd_channel = pr_channel r, pd_type = pr_type r, pd_value = js_number (pr_value r),
     pd_name = pr_name r, pd_unit = pr_unit r\<rparr>"

definition pushDeltas :: "watch_row list \<Rightarrow> push_delta list" where
  "pushDeltas rows = map row_delta (filter pr_on rows)"

definition row_problem :: "(rat \<Rightarrow> string) \<Rightarrow> watch_row \<Rightarrow> string option" where  \<comment> \<open>the body of the loop\<close>
  "row_problem num r =
     (case RANGE (pr_type r) of
        None \<Rightarrow> Some (pr_name r @ '' can't be watched; untick it'')
      | Some f \<Rightarrow>
          (case js_number (pr_value r) of
             Some x \<Rightarrow>
               if x * of_nat (lr_mult f) \<ge> 1 \<and> x * of_nat (lr_mult f) \<le> of_nat (lr_max f) then None
               else Some (pr_name r @ '': the change must be from '' @ num (1 / of_nat (lr_mult f)) @ '' to ''
                 @ num (of_nat (lr_max f) / of_nat (lr_mult f)))
           | None \<Rightarrow> Some (pr_name r @ '': the change must be from '' @ num (1 / of_nat (lr_mult f)) @ '' to ''
                 @ num (of_nat (lr_max f) / of_nat (lr_mult f)))))"

fun watch_problem :: "(rat \<Rightarrow> string) \<Rightarrow> watch_row list \<Rightarrow> string option" where
  "watch_problem num [] = None"
| "watch_problem num (r # rs) = (case row_problem num r of Some e \<Rightarrow> Some e | None \<Rightarrow> watch_problem num rs)"

definition pushProblem :: "(rat \<Rightarrow> string) \<Rightarrow> watch_row list \<Rightarrow> string option" where
  "pushProblem num rows =
     (let on = filter pr_on rows in
      if on = [] then Some ''Tick at least one reading for the sensor to watch'' else watch_problem num on)"

definition is_number :: "json \<Rightarrow> bool" where  \<comment> \<open>\<open>typeof v === "number"\<close>\<close>
  "is_number v = (case v of JNum x \<Rightarrow> True | _ \<Rightarrow> False)"

definition reading_row :: "tele_reading \<Rightarrow> watch_row" where
  "reading_row r = \<lparr>pr_channel = te_channel r, pr_type = te_type r, pr_name = te_name r, pr_unit = nullish (te_unit r) [],
     pr_on = False, pr_value = nullish (DEFAULT_DELTA (te_type r)) ''1''\<rparr>"

fun fresh_rows :: "string list \<Rightarrow> string list \<Rightarrow> tele_reading list \<Rightarrow> watch_row list" where  \<comment> \<open>with \<open>seen\<close>\<close>
  "fresh_rows found seen [] = []"
| "fresh_rows found seen (r # rs) =
     (if reading_key r \<in> set seen \<or> RANGE (te_type r) = None \<or> \<not> is_number (te_value r) \<or> reading_key r \<notin> set found
      then fresh_rows found seen rs
      else reading_row r # fresh_rows found (reading_key r # seen) rs)"

definition watchable :: "tele_reading list \<Rightarrow> string \<Rightarrow> watch_row list \<times> string list" where
  "watchable readings raw = (fresh_rows (findable raw) [] readings, as_set (map reading_key readings))"

definition kept_tick :: "watch_row list \<Rightarrow> watch_row \<Rightarrow> watch_row" where  \<comment> \<open>of \<open>had\<close>, whose last row counts\<close>
  "kept_tick rows r =
     (case map_of (rev (map (\<lambda>x. (row_key x, x)) rows)) (row_key r) of
        Some x \<Rightarrow> r\<lparr>pr_on := pr_on x, pr_value := pr_value x\<rparr>
      | None \<Rightarrow> r)"

definition ticked_now :: "watch_row \<Rightarrow> watch_row" where
  "ticked_now r = r\<lparr>pr_on := True\<rparr>"

definition pick_row :: "watch_row list \<Rightarrow> watch_row \<Rightarrow> watch_row list" where
  "pick_row pick r =
     (if length pick < MAX_PUSH_READINGS \<and> bytesOf (pick @ [ticked_now r]) \<le> MAX_PUSH_BYTES then pick @ [ticked_now r] else pick)"

definition first_pick :: "watch_row list \<Rightarrow> watch_row list" where  \<comment> \<open>temperature first, then the sensor's order\<close>
  "first_pick rows = foldl pick_row [] (filter (\<lambda>r. pr_type r = TEMPERATURE) rows @ filter (\<lambda>r. pr_type r \<noteq> TEMPERATURE) rows)"

definition merged_rows :: "watch_row list \<Rightarrow> watch_row list \<Rightarrow> string list \<Rightarrow> watch_row list" where  \<comment> \<open>\<open>next\<close> before the choice\<close>
  "merged_rows rows fresh sent =
     (let next = map (kept_tick rows) fresh; seen = map row_key next in
      next @ filter (\<lambda>r. pr_on r \<and> row_key r \<notin> set seen \<and> row_key r \<notin> set sent) rows)"

definition mergeReadings :: "watch_row list \<Rightarrow> watch_row list \<Rightarrow> string list \<Rightarrow> watch_row list" where
  "mergeReadings rows fresh sent =
     (let next = merged_rows rows fresh sent in
      if (\<exists>r\<in>set next. pr_on r) then next
      else let ticked = map row_key (first_pick next) in map (\<lambda>r. r\<lparr>pr_on := (row_key r \<in> set ticked)\<rparr>) next)"

definition ticked_count :: "watch_row list \<Rightarrow> nat" where
  "ticked_count rows = length (filter pr_on rows)"

definition tick_disabled :: "watch_row list \<Rightarrow> watch_row \<Rightarrow> bool" where  \<comment> \<open>of the row's checkbox\<close>
  "tick_disabled rows r \<longleftrightarrow>
     \<not> pr_on r \<and> (ticked_count rows \<ge> MAX_PUSH_READINGS \<or> bytesOf rows + 2 + range_size (pr_type r) > MAX_PUSH_BYTES)"

definition update_row :: "string \<Rightarrow> (watch_row \<Rightarrow> watch_row) \<Rightarrow> watch_row list \<Rightarrow> watch_row list" where
  "update_row key change rows = map (\<lambda>r. if row_key r = key then change r else r) rows"

definition tick_row :: "watch_row \<Rightarrow> watch_row list \<Rightarrow> watch_row list" where  \<comment> \<open>the checkbox of the row shown as \<open>r\<close>\<close>
  "tick_row r rows = (if tick_disabled rows r then rows else update_row (row_key r) (\<lambda>x. x\<lparr>pr_on := \<not> pr_on r\<rparr>) rows)"

definition type_change :: "watch_row \<Rightarrow> string \<Rightarrow> watch_row list \<Rightarrow> watch_row list" where  \<comment> \<open>the field beside it\<close>
  "type_change r v rows = (if pr_on r then update_row (row_key r) (\<lambda>x. x\<lparr>pr_value := v\<rparr>) rows else rows)"

section \<open>The watch as a set of readings\<close>

text \<open>While the keys of the rows are distinct, the count and the bytes are those of the set of ticked readings.\<close>

lemma rowKey_inject [simp]: "rowKey c t = rowKey d u \<longleftrightarrow> c = d \<and> t = u"
proof
  have digits: "takeWhile is_digit (rowKey a b) = show_nat a" "dropWhile is_digit (rowKey a b) = CHR ''-'' # show_nat b" for a b
    using show_nat_digits [of a]
    by (simp_all add: rowKey_def list_all_iff takeWhile_append2 dropWhile_append2 is_digit_def)
  assume same: "rowKey c t = rowKey d u"
  then have "takeWhile is_digit (rowKey c t) = takeWhile is_digit (rowKey d u)"
    "dropWhile is_digit (rowKey c t) = dropWhile is_digit (rowKey d u)" by simp_all
  then show "c = d \<and> t = u" by (simp add: digits)
qed simp

definition row_id :: "watch_row \<Rightarrow> nat \<times> nat" where
  "row_id r = (pr_channel r, pr_type r)"

definition id_bytes :: "nat \<times> nat \<Rightarrow> nat" where
  "id_bytes k = 2 + range_size (snd k)"

definition watch_set :: "watch_row list \<Rightarrow> (nat \<times> nat) set" where
  "watch_set rows = row_id ` set (filter pr_on rows)"

definition keys_distinct :: "watch_row list \<Rightarrow> bool" where
  "keys_distinct rows \<longleftrightarrow> distinct (map row_key rows)"

definition watch_fits :: "watch_row list \<Rightarrow> bool" where
  "watch_fits rows \<longleftrightarrow> ticked_count rows \<le> MAX_PUSH_READINGS \<and> bytesOf rows \<le> MAX_PUSH_BYTES"

lemma row_key_id: "row_key r = row_key s \<longleftrightarrow> row_id r = row_id s"
  by (simp add: row_id_def)

lemma finite_watch [simp]: "finite (watch_set rows)"
  by (simp add: watch_set_def)

lemma bytesOf_sum: "bytesOf rows = sum_list (map row_bytes rows)"
proof -
  have "foldl (\<lambda>n r. n + row_bytes r) k rows = k + sum_list (map row_bytes rows)" for k
    by (induction rows arbitrary: k) simp_all
  then show ?thesis by (simp add: bytesOf_def)
qed

lemma bytesOf_simps [simp]:
  "bytesOf [] = 0" "bytesOf (r # rows) = row_bytes r + bytesOf rows" "bytesOf (xs @ ys) = bytesOf xs + bytesOf ys"
  by (simp_all add: bytesOf_sum)

lemma keys_distinct_ids: "keys_distinct rows \<longleftrightarrow> distinct (map row_id rows)"
  by (simp add: keys_distinct_def distinct_map inj_on_def row_id_def)

lemma watch_set_simps [simp]:
  "watch_set [] = {}" "watch_set (r # rows) = (if pr_on r then insert (row_id r) (watch_set rows) else watch_set rows)"
  "watch_set (xs @ ys) = watch_set xs \<union> watch_set ys"
  by (auto simp: watch_set_def)

lemma watch_set_iff: "k \<in> watch_set rows \<longleftrightarrow> (\<exists>r\<in>set rows. pr_on r \<and> row_id r = k)"
  by (auto simp: watch_set_def)

lemma watch_set_sub: "watch_set rows \<subseteq> row_id ` set rows"
  by (auto simp: watch_set_def)

lemma fits_set:
  assumes "keys_distinct rows"
  shows "ticked_count rows = card (watch_set rows)" "bytesOf rows = sum id_bytes (watch_set rows)"
proof -
  have "ticked_count rows = card (watch_set rows) \<and> bytesOf rows = sum id_bytes (watch_set rows)"
    using assms
  proof (induction rows)
    case (Cons r rows)
    have "row_id r \<notin> watch_set rows"
      using Cons.prems watch_set_sub [of rows] by (auto simp: keys_distinct_ids)
    with Cons show ?case
      by (auto simp: keys_distinct_ids ticked_count_def row_bytes_def id_bytes_def row_id_def)
  qed (simp add: ticked_count_def)
  then show "ticked_count rows = card (watch_set rows)" "bytesOf rows = sum id_bytes (watch_set rows)" by simp_all
qed

lemma fits_iff:
  "keys_distinct rows \<Longrightarrow> watch_fits rows \<longleftrightarrow> card (watch_set rows) \<le> 3 \<and> sum id_bytes (watch_set rows) \<le> 14"
  by (simp add: watch_fits_def fits_set MAX_PUSH_READINGS_def MAX_PUSH_BYTES_def)

lemma fits_subset:
  assumes "keys_distinct rows" "watch_fits rows" "keys_distinct next" "watch_set next \<subseteq> watch_set rows"
  shows "watch_fits next"
proof -
  have "card (watch_set next) \<le> card (watch_set rows)"
    using assms(4) by (simp add: card_mono)
  moreover have "sum id_bytes (watch_set next) \<le> sum id_bytes (watch_set rows)"
    using assms(4) by (simp add: sum_mono2)
  ultimately show ?thesis using assms by (simp add: fits_iff)
qed

subsection \<open>A row is ticked\<close>

lemma update_row_ids: "(\<And>r. row_id (change r) = row_id r) \<Longrightarrow> map row_id (update_row key change rows) = map row_id rows"
  by (simp add: update_row_def)

lemma on_ids [simp]: "row_id (r\<lparr>pr_on := b\<rparr>) = row_id r" "row_id (r\<lparr>pr_value := v\<rparr>) = row_id r"
  by (simp_all add: row_id_def)

lemma tick_row_ids: "map row_id (tick_row r rows) = map row_id rows"
  by (simp add: tick_row_def update_row_ids)

lemma type_change_ids: "map row_id (type_change r v rows) = map row_id rows"
  by (simp add: type_change_def update_row_ids)

lemma type_change_watch: "watch_set (type_change r v rows) = watch_set rows"
proof (cases "pr_on r")
  case True
  have "watch_set (map (\<lambda>x. if row_key x = k then x\<lparr>pr_value := v\<rparr> else x) rows) = watch_set rows" for k
    by (induction rows) simp_all
  from this [of "row_key r"] True show ?thesis by (simp add: type_change_def update_row_def)
qed (simp add: type_change_def)

lemma tick_watch:
  assumes "\<not> tick_disabled rows r"
  shows "watch_set (tick_row r rows) \<subseteq> (if pr_on r then watch_set rows else insert (row_id r) (watch_set rows))"
proof -
  have "watch_set (map (\<lambda>x. if row_key x = row_key r then x\<lparr>pr_on := b\<rparr> else x) rows)
      \<subseteq> (if b then insert (row_id r) (watch_set rows) else watch_set rows)" for b
    by (induction rows) (auto simp: row_id_def)
  from this [of "\<not> pr_on r"] assms show ?thesis by (simp add: tick_row_def update_row_def split: if_splits)
qed

lemma tick_fits:
  assumes "keys_distinct rows" "watch_fits rows"
  shows "keys_distinct (tick_row r rows) \<and> watch_fits (tick_row r rows)"
proof (cases "tick_disabled rows r")
  case False
  have kept: "keys_distinct (tick_row r rows)"
    using assms(1) by (simp add: keys_distinct_ids tick_row_ids)
  show ?thesis
  proof (cases "pr_on r")
    case True
    with tick_watch [OF False] fits_subset [OF assms kept] kept show ?thesis by simp
  next
    case off: False
    let ?T = "watch_set rows" and ?k = "row_id r" and ?U = "watch_set (tick_row r rows)"
    have sub: "?U \<subseteq> insert ?k ?T" using tick_watch [OF False] off by simp
    have room: "card ?T < 3" "sum id_bytes ?T + id_bytes ?k \<le> 14"
      using False off fits_set [OF assms(1)]
      by (simp_all add: tick_disabled_def id_bytes_def row_id_def MAX_PUSH_READINGS_def MAX_PUSH_BYTES_def)
    have "card ?U \<le> card (insert ?k ?T)" "sum id_bytes ?U \<le> sum id_bytes (insert ?k ?T)"
      using sub by (simp_all add: card_mono sum_mono2)
    moreover have "card (insert ?k ?T) \<le> 3" "sum id_bytes (insert ?k ?T) \<le> 14"
      using room by (simp_all add: card_insert_if sum.insert_if)
    ultimately show ?thesis using kept by (simp add: fits_iff)
  qed
qed (use assms in \<open>simp add: tick_row_def\<close>)

subsection \<open>A reply is merged\<close>

lemma fresh_rows_ids:
  "distinct (map row_key (fresh_rows found seen rs))" (is ?d)
  "\<forall>r\<in>set (fresh_rows found seen rs). row_key r \<notin> set seen \<and> row_key r \<in> set found \<and> RANGE (pr_type r) \<noteq> None \<and> \<not> pr_on r" (is ?p)
proof -
  have "?d \<and> ?p"
  proof (induction rs arbitrary: seen)
    case (Cons r rs)
    from Cons.IH [of seen] Cons.IH [of "reading_key r # seen"]
    show ?case by (auto simp: reading_row_def)
  qed simp
  then show ?d ?p by simp_all
qed

lemma kept_tick_id [simp]: "row_id (kept_tick rows r) = row_id r"
  by (simp add: kept_tick_def split: option.splits)

lemma kept_tick_on:
  assumes "\<not> pr_on r" "pr_on (kept_tick rows r)"
  shows "row_id r \<in> watch_set rows"
proof -
  from assms obtain x where "map_of (rev (map (\<lambda>x. (row_key x, x)) rows)) (row_key r) = Some x" "pr_on x"
    by (auto simp: kept_tick_def split: option.splits)
  then have "(row_key r, x) \<in> set (map (\<lambda>x. (row_key x, x)) rows)" by (auto dest: map_of_SomeD)
  then have "x \<in> set rows" "row_id x = row_id r" by (auto simp: row_id_def)
  with \<open>pr_on x\<close> show ?thesis by (metis watch_set_iff)
qed

lemma merged_distinct:
  assumes "keys_distinct rows" "distinct (map row_key fresh)"
  shows "keys_distinct (merged_rows rows fresh sent)"
proof -
  have "distinct (map row_id fresh)" using assms(2) by (simp add: keys_distinct_ids [unfolded keys_distinct_def])
  then have kept: "distinct (map row_id (map (kept_tick rows) fresh))" by (simp add: comp_def)
  have rest: "distinct (map row_id (filter p rows))" for p
    using assms(1) by (simp add: keys_distinct_ids distinct_map_filter)
  have apart: "row_id ` set (filter (\<lambda>r. pr_on r \<and> row_key r \<notin> set (map row_key xs) \<and> row_key r \<notin> set sent) rows) \<inter> row_id ` set xs = {}" for xs
  proof -
    have "row_id r \<notin> row_id ` set xs" if "row_key r \<notin> set (map row_key xs)" for r
    proof
      assume "row_id r \<in> row_id ` set xs"
      then obtain x where "x \<in> set xs" "row_key x = row_key r" by (auto simp: row_id_def)
      moreover from this(1) have "row_key x \<in> set (map row_key xs)" unfolding set_map by (rule imageI)
      ultimately show False using that by (simp only:)
    qed
    then show ?thesis unfolding set_filter by blast
  qed
  show ?thesis
    unfolding keys_distinct_ids merged_rows_def Let_def map_append distinct_append
    using kept rest apart [of "map (kept_tick rows) fresh"] unfolding set_map by blast
qed

lemma merged_watch:
  assumes "\<forall>r\<in>set fresh. \<not> pr_on r"
  shows "watch_set (merged_rows rows fresh sent) \<subseteq> watch_set rows"
proof -
  have "watch_set (map (kept_tick rows) fresh) \<subseteq> watch_set rows"
    using assms kept_tick_on by (fastforce simp: watch_set_def)
  then show ?thesis by (auto simp: merged_rows_def Let_def watch_set_def)
qed

lemma first_pick_fits:
  "length (foldl pick_row acc rows) \<le> MAX_PUSH_READINGS \<and> bytesOf (foldl pick_row acc rows) \<le> MAX_PUSH_BYTES
   \<and> list_all pr_on (foldl pick_row acc rows)"
  if "length acc \<le> MAX_PUSH_READINGS" "bytesOf acc \<le> MAX_PUSH_BYTES" "list_all pr_on acc"
  using that
proof (induction rows arbitrary: acc)
  case (Cons r rows)
  have "length (pick_row acc r) \<le> MAX_PUSH_READINGS" "bytesOf (pick_row acc r) \<le> MAX_PUSH_BYTES" "list_all pr_on (pick_row acc r)"
    using Cons.prems by (auto simp: pick_row_def ticked_now_def)
  then show ?case using Cons.IH by simp
qed simp

lemma pick_ids: "row_id ` set (foldl pick_row acc rows) \<subseteq> row_id ` set acc \<union> row_id ` set rows"
proof (induction rows arbitrary: acc)
  case (Cons r rows)
  have "row_id ` set (pick_row acc r) \<subseteq> insert (row_id r) (row_id ` set acc)"
    by (auto simp: pick_row_def ticked_now_def)
  from subset_trans [OF Cons.IH [of "pick_row acc r"] Un_mono [OF this subset_refl]] show ?case by simp
qed simp

lemma pick_distinct:
  "distinct (map row_id (foldl pick_row acc rows))" if "distinct (map row_id (acc @ rows))"
  using that
proof (induction rows arbitrary: acc)
  case (Cons r rows)
  have "distinct (map row_id (pick_row acc r @ rows))"
    using Cons.prems by (auto simp: pick_row_def ticked_now_def)
  then show ?case using Cons.IH by simp
qed simp

lemma all_on_watch: "list_all pr_on rows \<Longrightarrow> watch_set rows = row_id ` set rows"
  by (induction rows) auto

lemma first_pick_ok:
  assumes "keys_distinct rows"
  shows "keys_distinct (first_pick rows)" "watch_fits (first_pick rows)" "list_all pr_on (first_pick rows)"
    "row_id ` set (first_pick rows) \<subseteq> row_id ` set rows"
proof -
  let ?sorted = "filter (\<lambda>r. pr_type r = TEMPERATURE) rows @ filter (\<lambda>r. pr_type r \<noteq> TEMPERATURE) rows"
  have "distinct (map row_id ?sorted)"
    using assms by (auto simp: keys_distinct_ids distinct_map_filter row_id_def)
  then show "keys_distinct (first_pick rows)"
    using pick_distinct [of "[]" ?sorted] by (simp add: keys_distinct_ids first_pick_def)
  have all: "length (first_pick rows) \<le> MAX_PUSH_READINGS \<and> bytesOf (first_pick rows) \<le> MAX_PUSH_BYTES \<and> list_all pr_on (first_pick rows)"
    unfolding first_pick_def by (rule first_pick_fits) simp_all
  then show "list_all pr_on (first_pick rows)" by simp
  show "watch_fits (first_pick rows)"
    using all length_filter_le [of pr_on "first_pick rows"]
    unfolding watch_fits_def ticked_count_def by linarith
  show "row_id ` set (first_pick rows) \<subseteq> row_id ` set rows"
    using pick_ids [of "[]" ?sorted] by (auto simp: first_pick_def)
qed

lemma merge_fits:
  assumes "keys_distinct rows" "watch_fits rows" "distinct (map row_key fresh)" "\<forall>r\<in>set fresh. \<not> pr_on r"
  shows "keys_distinct (mergeReadings rows fresh sent) \<and> watch_fits (mergeReadings rows fresh sent)"
proof -
  let ?next = "merged_rows rows fresh sent"
  note dist = merged_distinct [OF assms(1,3), of sent]
  show ?thesis
  proof (cases "\<exists>r\<in>set ?next. pr_on r")
    case True
    then show ?thesis
      using fits_subset [OF assms(1,2) dist merged_watch [OF assms(4)]] dist by (simp add: mergeReadings_def Let_def)
  next
    case False
    let ?pick = "first_pick ?next"
    let ?res = "map (\<lambda>r. r\<lparr>pr_on := (row_key r \<in> set (map row_key ?pick))\<rparr>) ?next"
    note pick = first_pick_ok [OF dist]
    have d: "keys_distinct ?res" using dist by (simp add: keys_distinct_ids comp_def)
    have "watch_set ?res \<subseteq> row_id ` set ?pick"
      by (force simp: watch_set_def row_id_def)
    then have "watch_set ?res \<subseteq> watch_set ?pick" using pick(3) by (simp add: all_on_watch)
    from fits_subset [OF pick(1,2) d this] d False show ?thesis by (simp add: mergeReadings_def Let_def)
  qed
qed

text \<open>A reply with a reading the sensor can watch never leaves the watch empty.\<close>

lemma range_size_le: "range_size t \<le> 4"
  by (simp add: range_size_def RANGE_def)

lemma pick_keeps: "set acc \<subseteq> set (foldl pick_row acc rows)"
proof (induction rows arbitrary: acc)
  case (Cons r rows)
  have "set acc \<subseteq> set (pick_row acc r)" by (auto simp: pick_row_def)
  with Cons.IH [of "pick_row acc r"] show ?case by auto
qed simp

lemma sorted_set:
  assumes "rows \<noteq> []"
  obtains r rest where "filter P rows @ filter (\<lambda>r. \<not> P r) rows = r # rest"
proof -
  have "filter P rows @ filter (\<lambda>r. \<not> P r) rows \<noteq> []"
    using assms by (cases rows) auto
  then show ?thesis using that by (metis list.exhaust)
qed

lemma first_pick_some: "rows \<noteq> [] \<Longrightarrow> first_pick rows \<noteq> []"
proof -
  assume "rows \<noteq> []"
  then obtain r rest where sorted: "filter (\<lambda>r. pr_type r = TEMPERATURE) rows @ filter (\<lambda>r. pr_type r \<noteq> TEMPERATURE) rows = r # rest"
    by (rule sorted_set)
  have "pick_row [] r = [ticked_now r]"
    using range_size_le [of "pr_type r"] by (simp add: pick_row_def ticked_now_def row_bytes_def MAX_PUSH_READINGS_def MAX_PUSH_BYTES_def)
  then show ?thesis using pick_keeps [of "[ticked_now r]" rest] by (auto simp: first_pick_def sorted)
qed

lemma reply_starts_watch:
  assumes "merged_rows rows fresh sent \<noteq> []"
  shows "watch_set (mergeReadings rows fresh sent) \<noteq> {}"
proof (cases "\<exists>r\<in>set (merged_rows rows fresh sent). pr_on r")
  case False
  let ?next = "merged_rows rows fresh sent"
  from first_pick_some [OF assms] obtain r where "r \<in> set (first_pick ?next)" by (cases "first_pick ?next") auto
  then have "row_id r \<in> row_id ` set (first_pick ?next)" by (rule imageI)
  then have "row_id r \<in> row_id ` set ?next"
    using pick_ids [of "[]" "filter (\<lambda>r. pr_type r = TEMPERATURE) ?next @ filter (\<lambda>r. pr_type r \<noteq> TEMPERATURE) ?next"]
    unfolding first_pick_def by auto
  then obtain x where x: "x \<in> set ?next" "row_id x = row_id r" by auto
  then have "row_key x \<in> set (map row_key (first_pick ?next))"
    using \<open>r \<in> set (first_pick ?next)\<close> by (force simp: row_id_def)
  with x(1) False have "\<exists>y\<in>set (mergeReadings rows fresh sent). pr_on y"
    unfolding mergeReadings_def Let_def by (simp del: rowKey_inject) blast
  then show ?thesis using watch_set_iff by blast
next
  case True
  then show ?thesis using watch_set_iff by (fastforce simp: mergeReadings_def Let_def)
qed

section \<open>What is found in a reply\<close>

record lpp_value =
  lv_channel :: nat
  lv_type :: nat
  lv_data :: "nat list"

definition value_bytes :: "lpp_value \<Rightarrow> nat list" where
  "value_bytes v = lv_channel v # lv_type v # lv_data v"

definition value_ok :: "lpp_value \<Rightarrow> bool" where  \<comment> \<open>as a node writes it\<close>
  "value_ok v \<longleftrightarrow>
     0 < lv_channel v \<and> lv_channel v < 256 \<and> SIZE (lv_type v) = Some (length (lv_data v)) \<and> list_all (\<lambda>b. b < 256) (lv_data v)"

definition hex_byte :: "nat \<Rightarrow> string" where
  "hex_byte n = [hex_low (n div 16), hex_low (n mod 16)]"

definition lpp_reply :: "lpp_value list \<Rightarrow> string" where  \<comment> \<open>the field \<open>raw\<close>\<close>
  "lpp_reply vs = concat (map hex_byte (concat (map value_bytes vs)))"

lemma SIZE_bounds: "SIZE t = Some n \<Longrightarrow> 0 < n \<and> t < 256"
  unfolding SIZE_def by (drule map_of_SomeD) auto

lemma hex_low_hex: "n < 16 \<Longrightarrow> is_hex (hex_low n)"
  unfolding hex_low_def by (auto simp: is_hex_def is_digit_def is_lower_def)

lemma hex_low_facts:
  assumes "n < 16"
  shows "hex_low n \<noteq> CHR 10" "hex_low n \<noteq> CHR 13" "hex_low n \<noteq> CHR ''-''" "hex_low n \<noteq> CHR ''+''" "\<not> is_space (hex_low n)"
    "hex_low n \<noteq> CHR ''x''" "hex_low n \<noteq> CHR ''X''" "hex_value (hex_low n) = n" "is_hex (hex_low n)"
proof -
  have "list_all (\<lambda>n. hex_low n \<noteq> CHR 10 \<and> hex_low n \<noteq> CHR 13 \<and> hex_low n \<noteq> CHR ''-'' \<and> hex_low n \<noteq> CHR ''+''
      \<and> \<not> is_space (hex_low n) \<and> hex_low n \<noteq> CHR ''x'' \<and> hex_low n \<noteq> CHR ''X'' \<and> hex_value (hex_low n) = n \<and> is_hex (hex_low n)) [0..<16]"
    by code_simp
  then show "hex_low n \<noteq> CHR 10" "hex_low n \<noteq> CHR 13" "hex_low n \<noteq> CHR ''-''" "hex_low n \<noteq> CHR ''+''" "\<not> is_space (hex_low n)"
    "hex_low n \<noteq> CHR ''x''" "hex_low n \<noteq> CHR ''X''" "hex_value (hex_low n) = n" "is_hex (hex_low n)"
    using assms by (simp_all add: list_all_iff)
qed

lemma parse_hex_byte:
  assumes "n < 256"
  shows "parse_hex (hex_byte n) = Some (int n)"
proof -
  have "n div 16 < 16" "n mod 16 < 16" using assms by auto
  note facts = hex_low_facts [OF this(1)] hex_low_facts [OF this(2)]
  show ?thesis
    using facts by (simp add: parse_hex_def hex_byte_def trim_start_def Let_def)
qed

lemma char_pairs_hex: "list_all (\<lambda>b. b < 256) bs \<Longrightarrow> char_pairs (concat (map hex_byte bs)) = map hex_byte bs"
proof (induction bs)
  case (Cons b bs)
  then have "b div 16 < 16" "b mod 16 < 16" by auto
  with Cons hex_low_facts(1,2) show ?case by (simp add: hex_byte_def)
qed simp

lemma value_bytes_ok: "value_ok v \<Longrightarrow> list_all (\<lambda>b. b < 256) (value_bytes v)"
  by (auto simp: value_ok_def value_bytes_def dest: SIZE_bounds)

lemma reply_bytes:
  assumes "list_all value_ok vs"
  shows "map parse_hex (char_pairs (lpp_reply vs)) = map (\<lambda>b. Some (int b)) (concat (map value_bytes vs))"
proof -
  have "list_all (\<lambda>b. b < 256) (concat (map value_bytes vs))"
    using assms value_bytes_ok by (induction vs) simp_all
  then show ?thesis
    by (auto simp: lpp_reply_def char_pairs_hex list_all_iff parse_hex_byte)
qed

lemma byte_text_nat [simp]: "byte_text (Some (int n)) = show_nat n"
  by (simp add: byte_text_def show_int_def)

lemma walk_value:
  assumes "value_ok v"
  shows "walk_bytes (map (\<lambda>b. Some (int b)) (value_bytes v @ rest)) =
    (if lv_type v = HUMIDITY then [] else rowKey (lv_channel v) (lv_type v) # walk_bytes (map (\<lambda>b. Some (int b)) rest))"
proof -
  have n: "SIZE (lv_type v) = Some (length (lv_data v))" using assms by (simp add: value_ok_def)
  with SIZE_bounds obtain d ds where data: "lv_data v = d # ds" by (cases "lv_data v") auto
  then show ?thesis
    using assms n by (simp add: value_bytes_def value_ok_def byte_size_def rowKey_def)
qed

text \<open>
  What \<open>findable\<close> gives for a reply whose values each take the bytes of their type is the channel and type of each value
  before the first humidity, in order: the sensor's own walk is out of step after it.
\<close>

theorem findable_before_humidity:
  assumes "list_all value_ok vs"
  shows "findable (lpp_reply vs) = map (\<lambda>v. rowKey (lv_channel v) (lv_type v)) (takeWhile (\<lambda>v. lv_type v \<noteq> HUMIDITY) vs)"
proof -
  have "walk_bytes (map (\<lambda>b. Some (int b)) (concat (map value_bytes vs)))
      = map (\<lambda>v. rowKey (lv_channel v) (lv_type v)) (takeWhile (\<lambda>v. lv_type v \<noteq> HUMIDITY) vs)"
    using assms
  proof (induction vs)
    case (Cons v vs)
    then show ?case
      using walk_value [of v "concat (map value_bytes vs)"] by simp
  qed simp
  then show ?thesis using reply_bytes [OF assms] by (simp add: findable_def)
qed

definition example_reply :: "lpp_value list" where
  "example_reply =
     [\<lparr>lv_channel = 1, lv_type = 116, lv_data = [1, 154]\<rparr>, \<lparr>lv_channel = 2, lv_type = 103, lv_data = [0, 215]\<rparr>,
      \<lparr>lv_channel = 2, lv_type = 104, lv_data = [90]\<rparr>, \<lparr>lv_channel = 2, lv_type = 115, lv_data = [39, 164]\<rparr>]"

theorem findable_before_humidity_witness:
  "findable (lpp_reply example_reply) = [''1-116'', ''2-103''] \<and> take 8 (lpp_reply example_reply) = ''0174019a''"
proof -
  have "list_all value_ok example_reply" by code_simp
  note findable_before_humidity [OF this]
  moreover have "map (\<lambda>v. rowKey (lv_channel v) (lv_type v)) (takeWhile (\<lambda>v. lv_type v \<noteq> HUMIDITY) example_reply) = [''1-116'', ''2-103'']"
    "take 8 (lpp_reply example_reply) = ''0174019a''" by code_simp+
  ultimately show ?thesis by simp
qed

section \<open>What the server takes\<close>

text \<open>
  \<open>checkPushDeltas\<close> of \<open>internal/api/subscription.go\<close>. Names and units of the readings are the server's own, within its
  limits. \<open>build\<close> is whether the library can build the request to the sensor, whose space it checks.
\<close>

definition subscribableLPP :: "nat \<Rightarrow> (nat \<times> nat) option" where
  "subscribableLPP t = map_of
     [(120, 1, 255), (2, 100, 32767), (103, 10, 32767), (121, 1, 32767), (101, 1, 65535), (115, 10, 65535), (116, 100, 65535),
      (117, 1000, 65535), (125, 1, 65535), (128, 1, 65535), (132, 1, 65535), (100, 1, 2 ^ 24), (130, 1000, 2 ^ 24), (131, 1000, 2 ^ 24)] t"

definition byte_length :: "string \<Rightarrow> nat" where  \<comment> \<open>\<open>len(s)\<close> in Go\<close>
  "byte_length s = length (concat (map utf8_bytes s))"

definition no_control :: "string \<Rightarrow> bool" where
  "no_control s \<longleftrightarrow> list_all (\<lambda>c. 32 \<le> (of_char c :: nat) \<and> (of_char c < (127 :: nat) \<or> (160 :: nat) \<le> of_char c)) s"

definition label_ok :: "string \<Rightarrow> string \<Rightarrow> bool" where
  "label_ok name unit \<longleftrightarrow>
     byte_length name \<le> 64 \<and> byte_length unit \<le> 16 \<and> no_control (name @ unit)"

definition delta_accepted :: "push_delta \<Rightarrow> bool" where
  "delta_accepted d \<longleftrightarrow>
     pd_channel d \<le> 255 \<and> pd_type d \<le> 255 \<and> label_ok (pd_name d) (pd_unit d) \<and> pd_type d \<noteq> HUMIDITY
     \<and> (case (subscribableLPP (pd_type d), pd_value d) of
          (Some f, Some x) \<Rightarrow> 1 \<le> x * of_nat (fst f) \<and> x * of_nat (fst f) \<le> of_nat (snd f)
        | _ \<Rightarrow> False)"

definition checkPushDeltas :: "(push_delta list \<Rightarrow> bool) \<Rightarrow> push_delta list \<Rightarrow> bool" where
  "checkPushDeltas build ds \<longleftrightarrow> length ds \<le> 3 \<and> list_all delta_accepted ds \<and> (ds \<noteq> [] \<longrightarrow> build ds)"

definition delta_bytes :: "push_delta list \<Rightarrow> nat" where
  "delta_bytes ds = sum_list (map (\<lambda>d. 2 + range_size (pd_type d)) ds)"

definition row_labelled :: "watch_row \<Rightarrow> bool" where
  "row_labelled r \<longleftrightarrow> pr_channel r \<le> 255 \<and> label_ok (pr_name r) (pr_unit r)"

lemma RANGE_server: "map_option (\<lambda>f. (lr_mult f, lr_max f)) (RANGE t) = subscribableLPP t"
  by (simp add: RANGE_def subscribableLPP_def)

lemma RANGE_type: "RANGE t = Some f \<Longrightarrow> t \<le> 255 \<and> t \<noteq> HUMIDITY"
  by (simp add: RANGE_def HUMIDITY_def split: if_splits)

lemma watch_problem_None: "watch_problem num rs = None \<longleftrightarrow> (\<forall>r\<in>set rs. row_problem num r = None)"
  by (induction rs) (auto split: option.splits)

lemma row_problem_None:
  assumes "row_problem num r = None" "row_labelled r"
  shows "delta_accepted (row_delta r)"
proof -
  from assms(1) obtain f x where f: "RANGE (pr_type r) = Some f" and x: "js_number (pr_value r) = Some x"
    and range: "1 \<le> x * of_nat (lr_mult f)" "x * of_nat (lr_mult f) \<le> of_nat (lr_max f)"
    by (auto simp: row_problem_def split: option.splits if_splits)
  have "subscribableLPP (pr_type r) = Some (lr_mult f, lr_max f)" by (simp add: RANGE_server [symmetric] f)
  then show ?thesis
    using range x assms(2) RANGE_type [OF f] by (simp add: delta_accepted_def row_delta_def row_labelled_def)
qed

lemma pushDeltas_size:
  "length (pushDeltas rows) = ticked_count rows" "delta_bytes (pushDeltas rows) = bytesOf rows"
proof -
  show "length (pushDeltas rows) = ticked_count rows" by (simp add: pushDeltas_def ticked_count_def)
  show "delta_bytes (pushDeltas rows) = bytesOf rows"
    by (induction rows) (auto simp: pushDeltas_def delta_bytes_def row_delta_def row_bytes_def)
qed

lemma deltas_accepted:
  assumes "pushProblem num rows = None" "watch_fits rows" "list_all row_labelled rows"
    and "\<And>ds. length ds \<le> 3 \<Longrightarrow> delta_bytes ds \<le> 14 \<Longrightarrow> build ds"
  shows "checkPushDeltas build (pushDeltas rows) \<and> pushDeltas rows \<noteq> []"
proof -
  have "filter pr_on rows \<noteq> []" "\<forall>r\<in>set (filter pr_on rows). row_problem num r = None"
    using assms(1) by (simp_all add: pushProblem_def Let_def watch_problem_None split: if_splits)
  moreover have "length (pushDeltas rows) \<le> 3" "delta_bytes (pushDeltas rows) \<le> 14"
    using assms(2) by (simp_all add: watch_fits_def pushDeltas_size MAX_PUSH_READINGS_def MAX_PUSH_BYTES_def)
  moreover have "list_all delta_accepted (pushDeltas rows)"
    using calculation(2) assms(3) row_problem_None by (fastforce simp: pushDeltas_def list_all_iff)
  ultimately show ?thesis
    using assms(4) by (simp add: checkPushDeltas_def) (simp add: pushDeltas_def)
qed
end
