(* ===== verification/MonitorForm.thy ===== *)
theory MonitorForm
  imports PushWatch BotForm
begin

text \<open>
  The form of a node's monitoring (\<open>components/MonitoringSettings.tsx\<close>): how often the node is polled, with which probes and
  retries, and for a sensor which changes it pushes. The server's side of a save is \<open>handleUpdateContactMetadata\<close> of
  \<open>internal/api/routes_contacts.go\<close>.
\<close>

section \<open>The metadata\<close>

record monitor_meta =  \<comment> \<open>a member that is left out is none\<close>
  mm_isRepeater :: "bool option"
  mm_repeaterPassword :: "string option"
  mm_monitor :: "bool option"
  mm_intervalSecs :: "rat option"
  mm_probes :: "string list option"
  mm_retrySecs :: "rat option"
  mm_maxRetries :: "rat option"
  mm_push :: "bool option"
  mm_pushDeltas :: "push_delta list option"
  mm_telemPerms :: "nat option"

definition no_meta :: monitor_meta where
  "no_meta = \<lparr>mm_isRepeater = None, mm_repeaterPassword = None, mm_monitor = None, mm_intervalSecs = None, mm_probes = None,
     mm_retrySecs = None, mm_maxRetries = None, mm_push = None, mm_pushDeltas = None, mm_telemPerms = None\<rparr>"

definition or_else :: "'a option \<Rightarrow> 'a option \<Rightarrow> 'a option" where
  "or_else new old = (if new = None then old else new)"

definition meta_spread :: "monitor_meta \<Rightarrow> monitor_meta \<Rightarrow> monitor_meta" where  \<comment> \<open>\<open>{ ...base, ...patch }\<close>\<close>
  "meta_spread b p =
     \<lparr>mm_isRepeater = or_else (mm_isRepeater p) (mm_isRepeater b),
      mm_repeaterPassword = or_else (mm_repeaterPassword p) (mm_repeaterPassword b),
      mm_monitor = or_else (mm_monitor p) (mm_monitor b), mm_intervalSecs = or_else (mm_intervalSecs p) (mm_intervalSecs b),
      mm_probes = or_else (mm_probes p) (mm_probes b), mm_retrySecs = or_else (mm_retrySecs p) (mm_retrySecs b),
      mm_maxRetries = or_else (mm_maxRetries p) (mm_maxRetries b), mm_push = or_else (mm_push p) (mm_push b),
      mm_pushDeltas = or_else (mm_pushDeltas p) (mm_pushDeltas b), mm_telemPerms = or_else (mm_telemPerms p) (mm_telemPerms b)\<rparr>"

section \<open>The form\<close>

definition INTERVAL_OPTS :: "(string \<times> string) list" where
  "INTERVAL_OPTS = [(''0'', ''Default (6h)''), (''900'', ''15 min''), (''1800'', ''30 min''), (''3600'', ''1 hour''),
     (''10800'', ''3 hours''), (''21600'', ''6 hours''), (''43200'', ''12 hours''), (''86400'', ''24 hours'')]"

definition MAX_PUSH_INTERVAL :: rat where "MAX_PUSH_INTERVAL = 64800"

definition at_most :: "string \<Rightarrow> rat \<Rightarrow> bool" where  \<comment> \<open>\<open>Number(s) <= m\<close>\<close>
  "at_most s m \<longleftrightarrow> (case js_number s of Some x \<Rightarrow> x \<le> m | None \<Rightarrow> False)"

definition more_than :: "string \<Rightarrow> rat \<Rightarrow> bool" where  \<comment> \<open>\<open>Number(s) > m\<close>\<close>
  "more_than s m \<longleftrightarrow> (case js_number s of Some x \<Rightarrow> x > m | None \<Rightarrow> False)"

definition PUSH_INTERVAL_OPTS :: "(string \<times> string) list" where
  "PUSH_INTERVAL_OPTS =
     map (\<lambda>p. if fst p = ''0'' then (fst p, ''Default (1h, 6h if refused)'') else p)
       (filter (\<lambda>p. at_most (fst p) MAX_PUSH_INTERVAL) INTERVAL_OPTS)"

datatype probe_key = ProbeStatus | ProbeTelemetry | ProbeNeighbors

definition PROBES :: "probe_key list" where
  "PROBES = [ProbeStatus, ProbeTelemetry, ProbeNeighbors]"

fun probe_name :: "probe_key \<Rightarrow> string" where
  "probe_name ProbeStatus = ''status''"
| "probe_name ProbeTelemetry = ''telemetry''"
| "probe_name ProbeNeighbors = ''neighbors''"

definition initialProbes :: "string list option \<Rightarrow> probe_key \<Rightarrow> bool" where
  "initialProbes ps = (case ps of None \<Rightarrow> (\<lambda>k. True) | Some l \<Rightarrow> if l = [] then (\<lambda>k. True) else (\<lambda>k. probe_name k \<in> set l))"

datatype monitor_kind = PollRepeater | PollCompanion | PollSensor

record monitor_form =
  mf_base :: monitor_meta
  mf_loaded :: bool
  mf_enabled :: bool
  mf_interval :: string
  mf_retry :: string
  mf_maxRetries :: string
  mf_password :: string
  mf_probes :: "probe_key \<Rightarrow> bool"
  mf_push :: bool
  mf_rows :: "watch_row list"
  mf_saving :: "monitor_meta option"  \<comment> \<open>the metadata that the save under way will have made\<close>
  mf_reading :: bool  \<comment> \<open>\<open>loading\<close> of the readings\<close>
  mf_toasts :: "(toast_kind \<times> string) list"

definition monitor_apply :: "(rat \<Rightarrow> string) \<Rightarrow> monitor_meta \<Rightarrow> monitor_form \<Rightarrow> monitor_form" where  \<comment> \<open>\<open>apply\<close>\<close>
  "monitor_apply num m f = f\<lparr>mf_base := m, mf_enabled := (mm_monitor m = Some True),
     mf_interval := num (nullish (mm_intervalSecs m) 0), mf_retry := num (nullish (mm_retrySecs m) 0),
     mf_maxRetries := num (nullish (mm_maxRetries m) 0), mf_password := nullish (mm_repeaterPassword m) [],
     mf_probes := initialProbes (mm_probes m), mf_push := (mm_push m = Some True),
     mf_rows := rowsFromSaved num (mm_pushDeltas m), mf_loaded := True\<rparr>"

definition monitor_start :: "monitor_meta option \<Rightarrow> monitor_form" where
  "monitor_start meta = \<lparr>mf_base = nullish meta no_meta, mf_loaded = (meta \<noteq> None), mf_enabled = False, mf_interval = ''0'',
     mf_retry = ''0'', mf_maxRetries = ''0'', mf_password = [], mf_probes = initialProbes None, mf_push = False, mf_rows = [],
     mf_saving = None, mf_reading = False, mf_toasts = []\<rparr>"

definition contacts_answered ::
  "(rat \<Rightarrow> string) \<Rightarrow> string \<Rightarrow> (string option \<times> monitor_meta option) list option \<Rightarrow> monitor_form \<Rightarrow> monitor_form" where
  \<comment> \<open>the list of contacts; none when it could not be loaded\<close>
  "contacts_answered num pubkey answer f =
     (case answer of
        None \<Rightarrow> monitor_apply num no_meta f
      | Some cs \<Rightarrow>
          (case find (\<lambda>x. map_option to_lower (fst x) = Some (to_lower pubkey)) cs of
             Some (k, Some m) \<Rightarrow> monitor_apply num m f
           | _ \<Rightarrow> monitor_apply num no_meta f))"

definition some_probe :: "(probe_key \<Rightarrow> bool) \<Rightarrow> bool" where
  "some_probe p \<longleftrightarrow> p ProbeStatus \<or> p ProbeTelemetry \<or> p ProbeNeighbors"

definition toggleProbe :: "probe_key \<Rightarrow> (probe_key \<Rightarrow> bool) \<Rightarrow> probe_key \<Rightarrow> bool" where
  "toggleProbe k prev = (let next = prev(k := \<not> prev k) in if some_probe next then next else prev)"

definition is_pushing :: "monitor_kind \<Rightarrow> monitor_form \<Rightarrow> bool" where
  "is_pushing kind f \<longleftrightarrow> kind = PollSensor \<and> mf_push f"

definition turnPush :: "bool \<Rightarrow> monitor_form \<Rightarrow> monitor_form" where
  "turnPush on f = f\<lparr>mf_push := on,
     mf_interval := (if on \<and> more_than (mf_interval f) MAX_PUSH_INTERVAL then ''0'' else mf_interval f)\<rparr>"

definition load_readings :: "monitor_form \<Rightarrow> monitor_form" where  \<comment> \<open>the request of \<open>loadReadings\<close>\<close>
  "load_readings f = f\<lparr>mf_reading := True\<rparr>"

definition turn_switch :: "bool \<Rightarrow> monitor_form \<Rightarrow> monitor_form" where  \<comment> \<open>\<open>turn\<close>\<close>
  "turn_switch on f = (let g = turnPush on f in if on \<and> mf_rows f = [] \<and> \<not> mf_reading f then load_readings g else g)"

definition monitor_toast :: "toast_kind \<Rightarrow> string \<Rightarrow> monitor_form \<Rightarrow> monitor_form" where
  "monitor_toast k s f = f\<lparr>mf_toasts := mf_toasts f @ [(k, s)]\<rparr>"

definition readings_answered :: "string + tele_reading list option \<times> string option \<Rightarrow> monitor_form \<Rightarrow> monitor_form" where
  "readings_answered answer f =
     (case answer of
        Inl e \<Rightarrow> (monitor_toast ErrorToast e f)\<lparr>mf_reading := False\<rparr>
      | Inr (readings, raw) \<Rightarrow>
          (let (fresh, sent) = watchable (nullish readings []) (nullish raw []);
               g = (if fresh = [] then monitor_toast ErrorToast ''The sensor sent no readings it can watch'' f else f)
           in g\<lparr>mf_rows := mergeReadings (mf_rows f) fresh sent, mf_reading := False\<rparr>))"

definition enabledProbes :: "(probe_key \<Rightarrow> bool) \<Rightarrow> string list" where
  "enabledProbes p = map probe_name (filter p PROBES)"

definition sent_probes :: "(probe_key \<Rightarrow> bool) \<Rightarrow> string list" where  \<comment> \<open>empty when all are on\<close>
  "sent_probes p = (if length (enabledProbes p) = length PROBES then [] else enabledProbes p)"

definition monitor_patch :: "monitor_kind \<Rightarrow> monitor_form \<Rightarrow> monitor_meta" where
  "monitor_patch kind f =
     (let patch = no_meta\<lparr>mm_monitor := Some (mf_enabled f), mm_intervalSecs := js_number (mf_interval f),
            mm_retrySecs := js_number (mf_retry f), mm_maxRetries := js_number (mf_maxRetries f), mm_probes := Some []\<rparr>
      in case kind of
        PollRepeater \<Rightarrow> patch\<lparr>mm_isRepeater := Some (nullish (mm_isRepeater (mf_base f)) True),
          mm_repeaterPassword := Some (mf_password f),
          mm_probes := Some (sent_probes (mf_probes f))\<rparr>
      | PollSensor \<Rightarrow> patch\<lparr>mm_push := Some (mf_push f), mm_repeaterPassword := Some (mf_password f),
          mm_pushDeltas := (if is_pushing kind f then Some (pushDeltas (mf_rows f)) else None)\<rparr>
      | PollCompanion \<Rightarrow> patch)"

definition save_problem :: "(rat \<Rightarrow> string) \<Rightarrow> monitor_kind \<Rightarrow> monitor_form \<Rightarrow> string option" where
  "save_problem num kind f = (if is_pushing kind f then pushProblem num (mf_rows f) else None)"

definition save_pressed :: "(rat \<Rightarrow> string) \<Rightarrow> monitor_kind \<Rightarrow> monitor_form \<Rightarrow> monitor_form \<times> monitor_meta option" where
  \<comment> \<open>and the patch that is sent\<close>
  "save_pressed num kind f =
     (if mf_saving f \<noteq> None \<or> \<not> mf_loaded f then (f, None)
      else case save_problem num kind f of
        Some e \<Rightarrow> (monitor_toast ErrorToast e f, None)
      | None \<Rightarrow> (f\<lparr>mf_saving := Some (meta_spread (mf_base f) (monitor_patch kind f))\<rparr>, Some (monitor_patch kind f)))"

definition monitor_save_answered :: "string option \<Rightarrow> monitor_form \<Rightarrow> monitor_form" where
  "monitor_save_answered denied f =
     (case (denied, mf_saving f) of
        (None, Some m) \<Rightarrow> (monitor_toast SuccessToast ''Monitoring settings saved'' f)\<lparr>mf_base := m, mf_saving := None\<rparr>
      | (Some e, _) \<Rightarrow> (monitor_toast ErrorToast e f)\<lparr>mf_saving := None\<rparr>
      | (None, None) \<Rightarrow> f)"

datatype monitor_event =
    MetadataGiven monitor_meta
  | ContactsAnswered "(string option \<times> monitor_meta option) list option"
  | SwitchEnabled bool
  | PickInterval string
  | PickRetry string
  | PickMaxRetries string
  | ProbeToggled probe_key
  | PasswordTyped string
  | PushTurned bool
  | ReadingsAsked
  | ReadingsAnswered "string + tele_reading list option \<times> string option"
  | RowTicked nat
  | ChangeTyped nat string
  | SavePressed
  | SaveAnswered "string option"

definition among_opts :: "string \<Rightarrow> (string \<times> string) list \<Rightarrow> bool" where
  "among_opts v opts \<longleftrightarrow> v \<in> set (map fst opts)"

fun monitor_step :: "(rat \<Rightarrow> string) \<Rightarrow> string \<Rightarrow> monitor_kind \<Rightarrow> monitor_event \<Rightarrow> monitor_form \<Rightarrow> monitor_form" where
  "monitor_step num pk kind (MetadataGiven m) f = monitor_apply num m f"
| "monitor_step num pk kind (ContactsAnswered cs) f = contacts_answered num pk cs f"
| "monitor_step num pk kind (SwitchEnabled b) f = (if mf_loaded f then f\<lparr>mf_enabled := b\<rparr> else f)"
| "monitor_step num pk kind (PickInterval v) f =
     (if among_opts v (if is_pushing kind f then PUSH_INTERVAL_OPTS else INTERVAL_OPTS) then f\<lparr>mf_interval := v\<rparr> else f)"
| "monitor_step num pk kind (PickRetry v) f = (if among_opts v RETRY_OPTS then f\<lparr>mf_retry := v\<rparr> else f)"
| "monitor_step num pk kind (PickMaxRetries v) f = (if among_opts v MAX_RETRIES_OPTS then f\<lparr>mf_maxRetries := v\<rparr> else f)"
| "monitor_step num pk kind (ProbeToggled k) f = (if kind = PollRepeater then f\<lparr>mf_probes := toggleProbe k (mf_probes f)\<rparr> else f)"
| "monitor_step num pk kind (PasswordTyped v) f = (if kind = PollRepeater \<or> is_pushing kind f then f\<lparr>mf_password := v\<rparr> else f)"
| "monitor_step num pk kind (PushTurned b) f = (if kind = PollSensor then turn_switch b f else f)"
| "monitor_step num pk kind ReadingsAsked f = (if is_pushing kind f \<and> \<not> mf_reading f then load_readings f else f)"
| "monitor_step num pk kind (ReadingsAnswered a) f = (if mf_reading f then readings_answered a f else f)"
| "monitor_step num pk kind (RowTicked i) f =
     (case list_at (mf_rows f) i of Some r \<Rightarrow> if is_pushing kind f then f\<lparr>mf_rows := tick_row r (mf_rows f)\<rparr> else f | None \<Rightarrow> f)"
| "monitor_step num pk kind (ChangeTyped i v) f =
     (case list_at (mf_rows f) i of Some r \<Rightarrow> if is_pushing kind f then f\<lparr>mf_rows := type_change r v (mf_rows f)\<rparr> else f | None \<Rightarrow> f)"
| "monitor_step num pk kind SavePressed f = fst (save_pressed num kind f)"
| "monitor_step num pk kind (SaveAnswered d) f = monitor_save_answered d f"

definition monitor_run :: "(rat \<Rightarrow> string) \<Rightarrow> string \<Rightarrow> monitor_kind \<Rightarrow> monitor_event list \<Rightarrow> monitor_form \<Rightarrow> monitor_form" where
  "monitor_run num pk kind es f = foldl (\<lambda>s e. monitor_step num pk kind e s) f es"

section \<open>The server's side of a save\<close>

record stored_meta =
  sm_isRepeater :: bool
  sm_repeaterPassword :: string
  sm_roomPassword :: string
  sm_monitor :: bool
  sm_intervalSecs :: int
  sm_probes :: "string list"
  sm_retrySecs :: int
  sm_maxRetries :: int
  sm_push :: bool
  sm_pushDeltas :: "push_delta list"
  sm_telemPerms :: nat
  sm_favourite :: bool

definition password_ok :: "string \<Rightarrow> bool" where
  "password_ok s \<longleftrightarrow> byte_length s \<le> 15 \<and> no_control s"

definition int_within :: "rat \<Rightarrow> rat \<Rightarrow> rat \<Rightarrow> bool" where
  "int_within lo hi x \<longleftrightarrow> of_int \<lfloor>x\<rfloor> = x \<and> lo \<le> x \<and> x \<le> hi"

definition default_or :: "(rat \<Rightarrow> bool) \<Rightarrow> rat \<Rightarrow> bool" where
  "default_or P x \<longleftrightarrow> x = 0 \<or> P x"

definition checkContactPatch :: "(push_delta list \<Rightarrow> bool) \<Rightarrow> monitor_meta \<Rightarrow> bool" where
  "checkContactPatch build p \<longleftrightarrow>
     pred_option password_ok (mm_repeaterPassword p)
     \<and> pred_option (default_or (int_within 900 86400)) (mm_intervalSecs p)
     \<and> pred_option (default_or (int_within 60 1800)) (mm_retrySecs p)
     \<and> pred_option (int_within (- 1) 10) (mm_maxRetries p)
     \<and> pred_option (\<lambda>ps. distinct ps \<and> set ps \<subseteq> {''status'', ''telemetry'', ''neighbors''}) (mm_probes p)
     \<and> pred_option (checkPushDeltas build) (mm_pushDeltas p)
     \<and> pred_option (\<lambda>n. n < 8) (mm_telemPerms p)"

definition merge_meta :: "monitor_meta \<Rightarrow> stored_meta \<Rightarrow> stored_meta" where  \<comment> \<open>the patch decoded onto what is stored\<close>
  "merge_meta p s =
     s\<lparr>sm_isRepeater := nullish (mm_isRepeater p) (sm_isRepeater s),
       sm_repeaterPassword := nullish (mm_repeaterPassword p) (sm_repeaterPassword s),
       sm_monitor := nullish (mm_monitor p) (sm_monitor s),
       sm_intervalSecs := nullish (map_option floor (mm_intervalSecs p)) (sm_intervalSecs s),
       sm_probes := nullish (mm_probes p) (sm_probes s),
       sm_retrySecs := nullish (map_option floor (mm_retrySecs p)) (sm_retrySecs s),
       sm_maxRetries := nullish (map_option floor (mm_maxRetries p)) (sm_maxRetries s),
       sm_push := nullish (mm_push p) (sm_push s), sm_pushDeltas := nullish (mm_pushDeltas p) (sm_pushDeltas s),
       sm_telemPerms := nullish (mm_telemPerms p) (sm_telemPerms s)\<rparr>"

definition checkPushSettings :: "string \<Rightarrow> stored_meta \<Rightarrow> bool" where
  "checkPushSettings ty m \<longleftrightarrow>
     \<not> sm_push m \<or> to_lower ty = ''sensor'' \<and> sm_pushDeltas m \<noteq> [] \<and> sm_intervalSecs m \<le> 64800"

definition updateMetadata :: "(push_delta list \<Rightarrow> bool) \<Rightarrow> string \<Rightarrow> monitor_meta \<Rightarrow> stored_meta \<Rightarrow> stored_meta option" where
  \<comment> \<open>none when the patch is refused\<close>
  "updateMetadata build ty p s =
     (if checkContactPatch build p \<and> checkPushSettings ty (merge_meta p s) then Some (merge_meta p s) else None)"

definition not_zero :: "'a::zero \<Rightarrow> 'a option" where  \<comment> \<open>\<open>omitempty\<close>\<close>
  "not_zero x = (if x = 0 then None else Some x)"

definition meta_wire :: "stored_meta \<Rightarrow> monitor_meta" where  \<comment> \<open>the members the form reads, as the server writes them\<close>
  "meta_wire s =
     \<lparr>mm_isRepeater = (if sm_isRepeater s then Some True else None),
      mm_repeaterPassword = (if sm_repeaterPassword s = [] then None else Some (sm_repeaterPassword s)),
      mm_monitor = (if sm_monitor s then Some True else None),
      mm_intervalSecs = map_option of_int (not_zero (sm_intervalSecs s)),
      mm_probes = (if sm_probes s = [] then None else Some (sm_probes s)),
      mm_retrySecs = map_option of_int (not_zero (sm_retrySecs s)),
      mm_maxRetries = map_option of_int (not_zero (sm_maxRetries s)),
      mm_push = (if sm_push s then Some True else None),
      mm_pushDeltas = (if sm_pushDeltas s = [] then None else Some (sm_pushDeltas s)),
      mm_telemPerms = not_zero (sm_telemPerms s)\<rparr>"

section \<open>Every save is one the server takes\<close>

definition int_text :: "(rat \<Rightarrow> string) \<Rightarrow> bool" where  \<comment> \<open>the text of a whole number reads back\<close>
  "int_text num \<longleftrightarrow> (\<forall>i::int. js_number (num (of_int i)) = Some (of_int i))"

definition reads_as :: "(rat \<Rightarrow> bool) \<Rightarrow> string \<Rightarrow> bool" where
  "reads_as P s \<longleftrightarrow> pred_option P (js_number s) \<and> js_number s \<noteq> None"

definition delta_sound :: "push_delta list \<Rightarrow> bool" where  \<comment> \<open>as a save leaves them\<close>
  "delta_sound ds \<longleftrightarrow>
     distinct (map (\<lambda>d. (pd_channel d, pd_type d)) ds) \<and> length ds \<le> 3 \<and> delta_bytes ds \<le> 14
     \<and> list_all (\<lambda>d. pd_channel d \<le> 255 \<and> label_ok (pd_name d) (pd_unit d)) ds"

definition meta_sound :: "monitor_meta \<Rightarrow> bool" where
  "meta_sound m \<longleftrightarrow>
     pred_option (default_or (int_within 900 86400)) (mm_intervalSecs m)
     \<and> pred_option (default_or (int_within 60 1800)) (mm_retrySecs m)
     \<and> pred_option (int_within (- 1) 10) (mm_maxRetries m)
     \<and> pred_option (\<lambda>ps. set ps \<subseteq> {''status'', ''telemetry'', ''neighbors''}) (mm_probes m)
     \<and> pred_option delta_sound (mm_pushDeltas m)
     \<and> (mm_push m = Some True \<longrightarrow> pred_option (\<lambda>x. x \<le> MAX_PUSH_INTERVAL) (mm_intervalSecs m))"

definition reading_sound :: "tele_reading \<Rightarrow> bool" where
  "reading_sound r \<longleftrightarrow> te_channel r \<le> 255 \<and> label_ok (te_name r) (nullish (te_unit r) [])"

fun event_sound :: "monitor_event \<Rightarrow> bool" where
  "event_sound (MetadataGiven m) = meta_sound m"
| "event_sound (ContactsAnswered (Some cs)) = list_all (\<lambda>x. pred_option meta_sound (snd x)) cs"
| "event_sound (ReadingsAnswered (Inr (Some rs, raw))) = list_all reading_sound rs"
| "event_sound e = True"

definition numbers_ok :: "monitor_form \<Rightarrow> bool" where
  "numbers_ok f \<longleftrightarrow>
     reads_as (default_or (int_within 900 86400)) (mf_interval f) \<and> reads_as (default_or (int_within 60 1800)) (mf_retry f)
     \<and> reads_as (int_within (- 1) 10) (mf_maxRetries f)"

definition rows_ok :: "watch_row list \<Rightarrow> bool" where
  "rows_ok rows \<longleftrightarrow> keys_distinct rows \<and> watch_fits rows \<and> list_all row_labelled rows"

definition push_in_time :: "monitor_form \<Rightarrow> bool" where
  "push_in_time f \<longleftrightarrow> (mf_push f \<longrightarrow> at_most (mf_interval f) MAX_PUSH_INTERVAL)"

definition form_sound :: "monitor_kind \<Rightarrow> monitor_form \<Rightarrow> bool" where
  "form_sound kind f \<longleftrightarrow> some_probe (mf_probes f) \<and> numbers_ok f \<and> rows_ok (mf_rows f) \<and> (kind = PollSensor \<longrightarrow> push_in_time f)"

lemma toggle_some: "some_probe p \<Longrightarrow> some_probe (toggleProbe k p)"
  by (simp add: toggleProbe_def Let_def)

lemma initial_some: "pred_option (\<lambda>ps. set ps \<subseteq> {''status'', ''telemetry'', ''neighbors''}) ps \<Longrightarrow> some_probe (initialProbes ps)"
proof (cases ps)
  case (Some l)
  assume "pred_option (\<lambda>ps. set ps \<subseteq> {''status'', ''telemetry'', ''neighbors''}) ps"
  with Some show ?thesis by (cases l) (auto simp: initialProbes_def some_probe_def)
qed (simp add: initialProbes_def some_probe_def)

lemma saved_rows_ok: "pred_option delta_sound ds \<Longrightarrow> rows_ok (rowsFromSaved num ds)"
proof (cases ds)
  case (Some l)
  assume "pred_option delta_sound ds"
  with Some have d: "delta_sound l" by simp
  let ?rows = "rowsFromSaved num ds"
  have "map row_id ?rows = map (\<lambda>d. (pd_channel d, pd_type d)) l"
    by (simp add: rowsFromSaved_def Some row_id_def comp_def)
  moreover have "ticked_count ?rows = length l"
    by (simp add: rowsFromSaved_def Some ticked_count_def filter_map comp_def)
  moreover have "bytesOf ?rows = delta_bytes l"
    by (simp add: rowsFromSaved_def Some bytesOf_sum delta_bytes_def row_bytes_def comp_def)
  ultimately show ?thesis
    using d by (simp add: rows_ok_def keys_distinct_ids watch_fits_def delta_sound_def MAX_PUSH_READINGS_def MAX_PUSH_BYTES_def)
      (simp add: rowsFromSaved_def Some list_all_iff row_labelled_def)
qed (simp add: rowsFromSaved_def rows_ok_def keys_distinct_def watch_fits_def ticked_count_def)

lemma tick_row_ok: "rows_ok rows \<Longrightarrow> rows_ok (tick_row r rows)"
  using tick_fits [of rows r]
  by (auto simp: rows_ok_def tick_row_def update_row_def list_all_iff row_labelled_def)

lemma type_change_ok: "rows_ok rows \<Longrightarrow> rows_ok (type_change r v rows)"
proof -
  assume ok: "rows_ok rows"
  have ids: "keys_distinct (type_change r v rows)"
    using ok by (simp add: rows_ok_def keys_distinct_ids type_change_ids)
  have "watch_fits (type_change r v rows)"
    using fits_subset [of rows, OF _ _ ids] ok by (simp add: rows_ok_def type_change_watch)
  with ids ok show ?thesis
    by (auto simp: rows_ok_def type_change_def update_row_def list_all_iff row_labelled_def)
qed

lemma kept_labelled [simp]: "row_labelled (kept_tick rows r) = row_labelled r"
  by (simp add: kept_tick_def row_labelled_def split: option.splits)

lemma fresh_labelled: "list_all reading_sound rs \<Longrightarrow> list_all row_labelled (fresh_rows found past rs)"
  by (induction rs arbitrary: past) (simp_all add: row_labelled_def reading_row_def reading_sound_def)

lemma merge_rows_ok:
  assumes "rows_ok rows" "list_all reading_sound rs"
  shows "rows_ok (mergeReadings rows (fst (watchable rs raw)) sent)"
proof -
  let ?fresh = "fresh_rows (findable raw) [] rs"
  have "list_all row_labelled (merged_rows rows ?fresh sent)"
    using assms(1) fresh_labelled [OF assms(2), of "findable raw" "[]"]
    by (auto simp: merged_rows_def Let_def rows_ok_def list_all_iff)
  then have "list_all row_labelled (mergeReadings rows ?fresh sent)"
    by (auto simp: mergeReadings_def Let_def list_all_iff row_labelled_def)
  moreover have "keys_distinct (mergeReadings rows ?fresh sent) \<and> watch_fits (mergeReadings rows ?fresh sent)"
    using merge_fits fresh_rows_ids assms(1) unfolding rows_ok_def by blast
  ultimately show ?thesis by (simp add: rows_ok_def watchable_def)
qed

lemma show_reads [simp]:
  "reads_as P (show_nat n) = P (of_nat n)" "at_most (show_nat n) m = (of_nat n \<le> m)"
  by (simp_all add: reads_as_def at_most_def js_number_show_nat)

lemma digits_read:
  assumes "s \<noteq> []" "list_all is_digit s"
  shows "reads_as P s = P (of_nat (parse_digits s))" "at_most s m = (of_nat (parse_digits s) \<le> m)"
  using js_number_digits [OF assms] by (simp_all add: reads_as_def at_most_def)

lemmas literal_reads = digits_read parse_digits_def digit_value_def is_digit_def

lemma minus_reads: "reads_as P ''-1'' = P (- 1)"
proof -
  have "show_nat 1 = ''1''" by code_simp
  then have "js_number ''-1'' = Some (- 1)" using js_number_negative [of 1] by simp
  then show ?thesis by (simp add: reads_as_def)
qed

lemma zero_reads: "reads_as (default_or P) ''0''" "reads_as (int_within (- 1) 10) ''0''" "at_most ''0'' MAX_PUSH_INTERVAL"
  by (simp_all add: literal_reads default_or_def int_within_def MAX_PUSH_INTERVAL_def)

lemma within_simps [simp]:
  "int_within lo hi (numeral n) \<longleftrightarrow> lo \<le> numeral n \<and> numeral n \<le> hi" "int_within lo hi 1 \<longleftrightarrow> lo \<le> 1 \<and> 1 \<le> hi"
  "int_within lo hi 0 \<longleftrightarrow> lo \<le> 0 \<and> 0 \<le> hi" "int_within lo hi (- 1) \<longleftrightarrow> lo \<le> - 1 \<and> - 1 \<le> hi"
  by (simp_all add: int_within_def)

lemma values_read:
  "reads_as P ''0'' = P 0" "reads_as P ''900'' = P 900" "reads_as P ''1800'' = P 1800" "reads_as P ''3600'' = P 3600"
  "reads_as P ''10800'' = P 10800" "reads_as P ''21600'' = P 21600" "reads_as P ''43200'' = P 43200"
  "reads_as P ''86400'' = P 86400" "reads_as P ''60'' = P 60" "reads_as P ''300'' = P 300" "reads_as P ''1'' = P 1"
  "reads_as P ''2'' = P 2" "reads_as P ''3'' = P 3" "reads_as P ''5'' = P 5" "reads_as P ''10'' = P 10"
  by (simp_all add: literal_reads)

lemma opts_values:
  "map fst INTERVAL_OPTS = [''0'', ''900'', ''1800'', ''3600'', ''10800'', ''21600'', ''43200'', ''86400'']"
  "map fst RETRY_OPTS = [''0'', ''60'', ''300'', ''900'', ''1800'']"
  "map fst MAX_RETRIES_OPTS = [''0'', ''-1'', ''1'', ''2'', ''3'', ''5'', ''10'']"
  by (simp_all add: INTERVAL_OPTS_def RETRY_OPTS_def MAX_RETRIES_OPTS_def)

lemma opts_read:
  "among_opts v INTERVAL_OPTS \<Longrightarrow> reads_as (default_or (int_within 900 86400)) v"
  "among_opts v RETRY_OPTS \<Longrightarrow> reads_as (default_or (int_within 60 1800)) v"
  "among_opts v MAX_RETRIES_OPTS \<Longrightarrow> reads_as (int_within (- 1) 10) v"
proof -
  have "list_all (reads_as (default_or (int_within 900 86400))) [''0'', ''900'', ''1800'', ''3600'']"
    "list_all (reads_as (default_or (int_within 900 86400))) [''10800'', ''21600'', ''43200'', ''86400'']"
    by (simp_all add: values_read default_or_def)
  then show "among_opts v INTERVAL_OPTS \<Longrightarrow> reads_as (default_or (int_within 900 86400)) v"
    unfolding among_opts_def opts_values by auto
  have "list_all (reads_as (default_or (int_within 60 1800))) [''0'', ''60'', ''300'', ''900'', ''1800'']"
    by (simp add: values_read default_or_def)
  then show "among_opts v RETRY_OPTS \<Longrightarrow> reads_as (default_or (int_within 60 1800)) v"
    unfolding among_opts_def opts_values by auto
  have "list_all (reads_as (int_within (- 1) 10)) [''0'', ''1'', ''2'', ''3'', ''5'', ''10'']" "reads_as (int_within (- 1) 10) ''-1''"
    by (simp_all add: values_read minus_reads)
  then show "among_opts v MAX_RETRIES_OPTS \<Longrightarrow> reads_as (int_within (- 1) 10) v"
    unfolding among_opts_def opts_values by auto
qed

lemma push_opts: "among_opts v PUSH_INTERVAL_OPTS \<longleftrightarrow> among_opts v INTERVAL_OPTS \<and> at_most v MAX_PUSH_INTERVAL"
proof -
  have "map fst (map (\<lambda>p. if fst p = ''0'' then (fst p, l) else p) (filter (\<lambda>p. P (fst p)) os)) = filter P (map fst os)" for l P os
    by (induction os) (simp_all add: prod_eq_iff)
  then have "map fst PUSH_INTERVAL_OPTS = filter (\<lambda>v. at_most v MAX_PUSH_INTERVAL) (map fst INTERVAL_OPTS)"
    unfolding PUSH_INTERVAL_OPTS_def .
  then show ?thesis unfolding among_opts_def by auto
qed

lemma whole_reads:
  assumes "int_text num" "of_int \<lfloor>x\<rfloor> = x"
  shows "js_number (num x) = Some x"
  using assms unfolding int_text_def by metis

lemma default_whole: "default_or (int_within lo hi) x \<Longrightarrow> of_int \<lfloor>x\<rfloor> = x"
  by (auto simp: default_or_def int_within_def)

lemma applied_number:
  assumes "int_text num" "pred_option (default_or (int_within lo hi)) v"
  shows "js_number (num (nullish v 0)) = Some (nullish v 0)" "reads_as (default_or (int_within lo hi)) (num (nullish v 0))"
proof -
  have "default_or (int_within lo hi) (nullish v 0)"
    using assms(2) by (cases v) (simp_all add: default_or_def)
  then show "js_number (num (nullish v 0)) = Some (nullish v 0)" "reads_as (default_or (int_within lo hi)) (num (nullish v 0))"
    using whole_reads [OF assms(1) default_whole] by (simp_all add: reads_as_def)
qed

lemma applied_retries:
  assumes "int_text num" "pred_option (int_within (- 1) 10) v"
  shows "reads_as (int_within (- 1) 10) (num (nullish v 0))"
proof -
  have "int_within (- 1) 10 (nullish v 0)"
    using assms(2) by (cases v) (simp_all add: int_within_def)
  then show ?thesis
    using whole_reads [OF assms(1)] by (simp add: reads_as_def int_within_def)
qed

lemma applied_sound:
  assumes "int_text num" "meta_sound m"
  shows "form_sound kind (monitor_apply num m f)"
proof -
  have "numbers_ok (monitor_apply num m f)"
    using assms applied_number applied_retries by (simp add: numbers_ok_def monitor_apply_def meta_sound_def)
  moreover have "push_in_time (monitor_apply num m f)"
    using assms applied_number(1) [OF assms(1), of 900 86400 "mm_intervalSecs m"]
    by (cases "mm_intervalSecs m") (auto simp: push_in_time_def monitor_apply_def meta_sound_def at_most_def MAX_PUSH_INTERVAL_def)
  ultimately show ?thesis
    using assms(2) by (simp add: form_sound_def meta_sound_def monitor_apply_def initial_some saved_rows_ok)
qed

lemma no_meta_sound: "meta_sound no_meta"
  by (simp add: meta_sound_def no_meta_def)

lemma contacts_sound:
  assumes "int_text num" "event_sound (ContactsAnswered cs)"
  shows "form_sound kind (contacts_answered num pk cs f)"
proof (cases cs)
  case (Some l)
  then show ?thesis
    using assms applied_sound [OF assms(1)] no_meta_sound
    by (auto simp: contacts_answered_def list_all_iff find_Some_iff split: option.splits) (metis nth_mem option.pred_inject(2) snd_conv)
qed (use applied_sound [OF assms(1) no_meta_sound] in \<open>simp add: contacts_answered_def\<close>)

lemma turn_sound: "form_sound PollSensor f \<Longrightarrow> form_sound PollSensor (turn_switch b f)"
proof -
  assume ok: "form_sound PollSensor f"
  then obtain x where x: "js_number (mf_interval f) = Some x"
    by (auto simp: form_sound_def numbers_ok_def reads_as_def)
  have "form_sound PollSensor (turnPush b f)"
    using ok x zero_reads by (auto simp: form_sound_def numbers_ok_def push_in_time_def turnPush_def at_most_def more_than_def)
  then show ?thesis
    by (cases b) (simp_all add: turn_switch_def load_readings_def Let_def form_sound_def numbers_ok_def push_in_time_def)
qed

lemma readings_sound:
  assumes "form_sound kind f" "event_sound (ReadingsAnswered a)"
  shows "form_sound kind (readings_answered a f)"
proof (cases a)
  case (Inl e)
  then show ?thesis using assms(1)
    by (simp add: readings_answered_def monitor_toast_def form_sound_def numbers_ok_def push_in_time_def)
next
  case (Inr p)
  obtain rs raw where p: "p = (rs, raw)" by (cases p)
  have "list_all reading_sound (nullish rs [])"
    using assms(2) by (cases rs) (simp_all add: Inr p)
  from merge_rows_ok [OF _ this, of "mf_rows f" "nullish raw []"]
  have "rows_ok (mergeReadings (mf_rows f) (fst (watchable (nullish rs []) (nullish raw []))) s)" for s
    using assms(1) by (simp add: form_sound_def)
  then show ?thesis using assms(1)
    by (cases "watchable (nullish rs []) (nullish raw [])")
      (simp add: Inr p readings_answered_def monitor_toast_def form_sound_def numbers_ok_def push_in_time_def)
qed

lemma step_sound:
  assumes "int_text num" "form_sound kind f" "event_sound e"
  shows "form_sound kind (monitor_step num pk kind e f)"
proof (cases e)
  case (MetadataGiven m)
  then show ?thesis using assms applied_sound by simp
next
  case (ContactsAnswered cs)
  then show ?thesis using assms contacts_sound by simp
next
  case (PickInterval v)
  then show ?thesis using assms(2) opts_read
    by (auto simp: push_opts form_sound_def numbers_ok_def push_in_time_def is_pushing_def split: if_splits)
next
  case (PickRetry v)
  then show ?thesis using assms(2) opts_read by (auto simp: form_sound_def numbers_ok_def push_in_time_def)
next
  case (PickMaxRetries v)
  then show ?thesis using assms(2) opts_read by (auto simp: form_sound_def numbers_ok_def push_in_time_def)
next
  case (ProbeToggled k)
  then show ?thesis using assms(2) toggle_some by (simp add: form_sound_def numbers_ok_def push_in_time_def)
next
  case (PushTurned b)
  then show ?thesis using assms(2) turn_sound by auto
next
  case (ReadingsAnswered a)
  then show ?thesis using assms readings_sound by simp
next
  case (RowTicked i)
  then show ?thesis using assms(2) tick_row_ok
    by (simp add: form_sound_def numbers_ok_def push_in_time_def split: option.split)
next
  case (ChangeTyped i v)
  then show ?thesis using assms(2) type_change_ok
    by (simp add: form_sound_def numbers_ok_def push_in_time_def split: option.split)
qed (use assms(2) in \<open>simp_all add: form_sound_def numbers_ok_def push_in_time_def load_readings_def save_pressed_def
  monitor_save_answered_def monitor_toast_def split: option.split\<close>)

lemma run_sound:
  assumes "int_text num" "list_all event_sound es" "form_sound kind f"
  shows "form_sound kind (monitor_run num pk kind es f)"
  using assms(2,3)
proof (induction es arbitrary: f)
  case (Cons e es)
  then show ?case using step_sound [OF assms(1)] by (simp add: monitor_run_def)
qed (simp add: monitor_run_def)

lemma start_sound: "form_sound kind (monitor_start meta)"
  by (simp add: form_sound_def monitor_start_def numbers_ok_def zero_reads push_in_time_def rows_ok_def keys_distinct_def
      watch_fits_def ticked_count_def initial_some)

lemma enabled_sub: "distinct (sent_probes p) \<and> set (sent_probes p) \<subseteq> {''status'', ''telemetry'', ''neighbors''}"
  by (auto simp: sent_probes_def enabledProbes_def PROBES_def)

lemma patch_numbers:
  assumes "numbers_ok f"
  shows "pred_option (default_or (int_within 900 86400)) (js_number (mf_interval f))"
    "pred_option (default_or (int_within 60 1800)) (js_number (mf_retry f))"
    "pred_option (int_within (- 1) 10) (js_number (mf_maxRetries f))"
  using assms by (simp_all add: numbers_ok_def reads_as_def)

lemma patch_checked:
  assumes "form_sound kind f" "save_problem num kind f = None" "password_ok (mf_password f)"
    and build: "\<And>ds. length ds \<le> 3 \<Longrightarrow> delta_bytes ds \<le> 14 \<Longrightarrow> build ds"
  shows "checkContactPatch build (monitor_patch kind f)"
proof -
  have "is_pushing kind f \<Longrightarrow> checkPushDeltas build (pushDeltas (mf_rows f))"
    using deltas_accepted [OF _ _ _ build] assms(1,2) by (simp add: save_problem_def form_sound_def rows_ok_def)
  then show ?thesis
    using patch_numbers [of f] assms(1,3) enabled_sub [of "mf_probes f"]
    by (cases kind) (simp_all add: checkContactPatch_def monitor_patch_def no_meta_def form_sound_def Let_def)
qed

lemma patch_settings:
  assumes "form_sound kind f" "save_problem num kind f = None" "checkPushSettings ty s" "kind = PollSensor \<longleftrightarrow> to_lower ty = ''sensor''"
  shows "checkPushSettings ty (merge_meta (monitor_patch kind f) s)"
proof (cases "is_pushing kind f")
  case True
  then have "kind = PollSensor" "mf_push f" by (simp_all add: is_pushing_def)
  moreover obtain x where "js_number (mf_interval f) = Some x" "x \<le> 64800"
    using assms(1) calculation by (auto simp: form_sound_def push_in_time_def at_most_def MAX_PUSH_INTERVAL_def split: option.splits)
  moreover have "pushDeltas (mf_rows f) \<noteq> []"
    using assms(2) True by (simp add: save_problem_def pushProblem_def pushDeltas_def Let_def split: if_splits)
  moreover have "\<lfloor>x\<rfloor> \<le> 64800" using calculation(4) by (simp add: floor_le_iff)
  ultimately show ?thesis
    using assms(4) True by (simp add: checkPushSettings_def merge_meta_def monitor_patch_def no_meta_def Let_def)
next
  case False
  then show ?thesis
    using assms(3,4) by (cases kind) (auto simp: checkPushSettings_def merge_meta_def monitor_patch_def no_meta_def is_pushing_def Let_def)
qed


definition example_stored :: stored_meta where
  "example_stored = \<lparr>sm_isRepeater = False, sm_repeaterPassword = [], sm_roomPassword = ''guest'', sm_monitor = False,
     sm_intervalSecs = 86400, sm_probes = [], sm_retrySecs = 0, sm_maxRetries = 0, sm_push = False, sm_pushDeltas = [],
     sm_telemPerms = 3, sm_favourite = True\<rparr>"

definition example_readings :: "tele_reading list" where
  "example_readings =
     [\<lparr>te_channel = 1, te_type = 116, te_name = ''Voltage'', te_unit = Some ''V'', te_value = JNum 4\<rparr>,
      \<lparr>te_channel = 2, te_type = 103, te_name = ''Temperature'', te_unit = Some ''C'', te_value = JNum 21\<rparr>,
      \<lparr>te_channel = 2, te_type = 104, te_name = ''Humidity'', te_unit = Some ''%'', te_value = JNum 45\<rparr>,
      \<lparr>te_channel = 2, te_type = 115, te_name = ''Pressure'', te_unit = Some ''hPa'', te_value = JNum 1014\<rparr>]"

definition example_monitor_run :: "monitor_event list" where
  "example_monitor_run =
     [MetadataGiven (meta_wire example_stored), PushTurned True,
      ReadingsAnswered (Inr (Some example_readings, Some (lpp_reply example_reply))), SwitchEnabled True,
      RowTicked 0, ChangeTyped 1 ''1'']"

lemma whole_int_text: "int_text whole_text"
  unfolding int_text_def whole_text_def show_int_def
  by (auto simp: js_number_show_nat js_number_negative)

definition example_rows :: "watch_row list" where
  "example_rows =
     [\<lparr>pr_channel = 1, pr_type = 116, pr_name = ''Voltage'', pr_unit = ''V'', pr_on = False, pr_value = ''0.1''\<rparr>,
      \<lparr>pr_channel = 2, pr_type = 103, pr_name = ''Temperature'', pr_unit = ''C'', pr_on = True, pr_value = ''1''\<rparr>]"

definition fresh_example :: "watch_row list" where
  "fresh_example =
     [\<lparr>pr_channel = 1, pr_type = 116, pr_name = ''Voltage'', pr_unit = ''V'', pr_on = False, pr_value = ''0.1''\<rparr>,
      \<lparr>pr_channel = 2, pr_type = 103, pr_name = ''Temperature'', pr_unit = ''C'', pr_on = False, pr_value = ''0.5''\<rparr>]"

lemma example_found: "findable (lpp_reply example_reply) = [''1-116'', ''2-103'']"
  by code_simp

lemma example_keys:
  "rowKey 1 116 = ''1-116''" "rowKey (Suc 0) 116 = ''1-116''" "rowKey 2 103 = ''2-103''" "rowKey 2 104 = ''2-104''" "rowKey 2 115 = ''2-115''"
  by code_simp+

lemma example_fresh: "fresh_rows [''1-116'', ''2-103''] [] example_readings = fresh_example"
  by (simp add: fresh_example_def example_readings_def RANGE_def is_number_def reading_row_def DEFAULT_DELTA_def TEMPERATURE_def
      example_keys del: rowKey_inject)

lemma range_example [simp]: "range_size 116 = 2" "range_size 103 = 2"
  by (simp_all add: range_size_def RANGE_def)

definition example_on :: "watch_row list" where
  "example_on = map (\<lambda>r. r\<lparr>pr_on := True\<rparr>) fresh_example"

lemma example_merged: "mergeReadings [] fresh_example sent = example_on"
  by (simp add: mergeReadings_def merged_rows_def kept_tick_def fresh_example_def first_pick_def pick_row_def ticked_now_def
      row_bytes_def TEMPERATURE_def MAX_PUSH_READINGS_def MAX_PUSH_BYTES_def example_on_def Let_def)

lemma example_typed:
  obtains v t mid where "list_at example_on 0 = Some v" "tick_row v example_on = mid" "list_at mid 1 = Some t"
    "type_change t ''1'' mid = example_rows"
proof
  show "list_at example_on 0 = Some (example_on ! 0)" "tick_row (example_on ! 0) example_on = tick_row (example_on ! 0) example_on"
    "list_at (tick_row (example_on ! 0) example_on) 1 = Some (example_on ! 1)"
    "type_change (example_on ! 1) ''1'' (tick_row (example_on ! 0) example_on) = example_rows"
    by (simp_all add: list_at_def example_on_def fresh_example_def example_rows_def tick_row_def tick_disabled_def type_change_def update_row_def)
qed

lemma example_opened:
  "mf_interval (monitor_apply num (meta_wire example_stored) f) = num 86400"
  "mf_rows (monitor_apply num (meta_wire example_stored) f) = []" "mf_password (monitor_apply num (meta_wire example_stored) f) = []"
  "mf_reading (monitor_apply num (meta_wire example_stored) f) = mf_reading f"
  "mf_saving (monitor_apply num (meta_wire example_stored) f) = mf_saving f" "mf_loaded (monitor_apply num (meta_wire example_stored) f)"
  by (simp_all add: monitor_apply_def meta_wire_def example_stored_def not_zero_def rowsFromSaved_def)

lemma example_read:
  "readings_answered (Inr (Some example_readings, Some (lpp_reply example_reply))) f =
     f\<lparr>mf_rows := mergeReadings (mf_rows f) fresh_example (snd (watchable example_readings (lpp_reply example_reply))), mf_reading := False\<rparr>"
proof -
  have "fst (watchable example_readings (lpp_reply example_reply)) = fresh_example"
    by (simp add: watchable_def example_found example_fresh)
  moreover have "fresh_example \<noteq> []" by (simp add: fresh_example_def)
  ultimately show ?thesis
    by (cases "watchable example_readings (lpp_reply example_reply)") (simp add: readings_answered_def)
qed

lemma example_run:
  "\<exists>f. monitor_run whole_text [] PollSensor example_monitor_run (monitor_start None) = f \<and> mf_rows f = example_rows \<and> mf_push f
     \<and> mf_saving f = None \<and> mf_loaded f \<and> mf_password f = []"
proof -
  obtain v t mid where "list_at example_on 0 = Some v" "tick_row v example_on = mid" "list_at mid 1 = Some t"
    "type_change t ''1'' mid = example_rows" by (rule example_typed)
  moreover have "mf_saving (monitor_start None) = None" "\<not> mf_reading (monitor_start None)" by (simp_all add: monitor_start_def)
  ultimately show ?thesis
    by (simp add: example_monitor_run_def monitor_run_def turn_switch_def turnPush_def load_readings_def is_pushing_def
        example_opened example_read example_merged Let_def)
qed


section \<open>What a save leaves alone, and what it does not\<close>

definition kept_probes :: "string list \<Rightarrow> string list" where
  "kept_probes ps = (let on = filter (\<lambda>n. n \<in> set ps) (map probe_name PROBES) in if length on = length PROBES then [] else on)"

definition deltas_read :: "(rat \<Rightarrow> string) \<Rightarrow> push_delta list \<Rightarrow> bool" where
  "deltas_read num ds \<longleftrightarrow> list_all (\<lambda>d. pred_option (\<lambda>x. js_number (num x) = Some x) (pd_value d) \<and> pd_value d \<noteq> None) ds"

lemma saved_deltas_back: "deltas_read num ds \<Longrightarrow> pushDeltas (rowsFromSaved num (Some ds)) = ds"
  by (induction ds) (auto simp: deltas_read_def rowsFromSaved_def pushDeltas_def row_delta_def)

lemma probes_back:
  "sent_probes (initialProbes ps) = (if ps = None \<or> ps = Some [] then [] else kept_probes (nullish ps []))"
  by (cases ps) (simp_all add: sent_probes_def enabledProbes_def initialProbes_def kept_probes_def PROBES_def Let_def)

lemma zero_or: "nullish (map_option of_int (not_zero (i::int))) 0 = of_int i"
  by (simp add: not_zero_def)

lemma int_back: "int_text num \<Longrightarrow> nullish (map_option floor (js_number (num (nullish (map_option of_int (not_zero i)) 0)))) d = i"
  unfolding zero_or by (simp add: int_text_def)


definition example_polled :: stored_meta where
  "example_polled = example_stored\<lparr>sm_isRepeater := True, sm_repeaterPassword := ''hunter2'', sm_monitor := True, sm_intervalSecs := 3600,
     sm_probes := [''neighbors'', ''status''], sm_maxRetries := - 1, sm_pushDeltas :=
       [\<lparr>pd_channel = 2, pd_type = 103, pd_value = Some 1, pd_name = ''Temperature'', pd_unit = ''C''\<rparr>]\<rparr>"


text \<open>
  A list of contacts that could not be loaded opens the form as if nothing were stored, and it can be saved: the save then clears the
  password and turns monitoring off.
\<close>

lemma failed_load_clears:
  assumes "int_text num"
  shows "mf_loaded (contacts_answered num pk None f)"
    "merge_meta (monitor_patch PollRepeater (contacts_answered num pk None f)) s =
      s\<lparr>sm_isRepeater := True, sm_repeaterPassword := [], sm_monitor := False, sm_intervalSecs := 0, sm_probes := [],
        sm_retrySecs := 0, sm_maxRetries := 0\<rparr>"
proof -
  have "js_number (num 0) = Some 0" using assms unfolding int_text_def by (metis of_int_0)
  then show "merge_meta (monitor_patch PollRepeater (contacts_answered num pk None f)) s =
      s\<lparr>sm_isRepeater := True, sm_repeaterPassword := [], sm_monitor := False, sm_intervalSecs := 0, sm_probes := [],
        sm_retrySecs := 0, sm_maxRetries := 0\<rparr>"
    by (simp add: contacts_answered_def monitor_apply_def monitor_patch_def merge_meta_def no_meta_def sent_probes_def enabledProbes_def
        initialProbes_def PROBES_def Let_def)
qed (simp add: contacts_answered_def monitor_apply_def)

text \<open>Metadata that arrives again, as after the contact's region is saved, takes back what was picked and typed.\<close>

lemma edits_taken_back:
  "monitor_step num pk kind (MetadataGiven m) (f\<lparr>mf_interval := i, mf_password := w, mf_probes := ps, mf_rows := rs, mf_enabled := b\<rparr>)
     = monitor_step num pk kind (MetadataGiven m) f"
  by (simp add: monitor_apply_def)
end
