(* ===== verification/LinkForm.thy ===== *)
theory LinkForm
  imports MonitorForm
begin

text \<open>
  The form of a monitored link (\<open>components/LinkMonitorSettings.tsx\<close>): its label, schedule and retries, loaded by the link's key,
  saved and deleted by its number. The server's check is \<open>handleUpdateLink\<close> of \<open>internal/api/routes_links.go\<close>.
\<close>

section \<open>The form\<close>

record link_info =
  li_id :: nat
  li_key :: string
  li_label :: string
  li_intervalSecs :: int
  li_enabled :: bool
  li_ignoreFirstHop :: bool
  li_retrySecs :: int
  li_maxRetries :: int
  li_hideLastSnr :: bool

definition LINK_INTERVAL_OPTS :: "(string \<times> string) list" where
  "LINK_INTERVAL_OPTS = [(''300'', ''5 min''), (''900'', ''15 min''), (''1800'', ''30 min''), (''3600'', ''1 hour''),
     (''10800'', ''3 hours''), (''21600'', ''6 hours''), (''43200'', ''12 hours''), (''86400'', ''24 hours'')]"

definition DEFAULT_RETRY_SECS :: rat where "DEFAULT_RETRY_SECS = 300"

record link_form =
  lf_link :: "link_info option"
  lf_loaded :: bool
  lf_label :: string
  lf_interval :: string
  lf_enabled :: bool
  lf_ignoreFirstHop :: bool
  lf_retry :: string
  lf_maxRetries :: string
  lf_hideLastSnr :: bool
  lf_saving :: bool
  lf_deleting :: bool
  lf_confirming :: bool
  lf_toasts :: "(toast_kind \<times> string) list"

definition link_start :: link_form where
  "link_start = \<lparr>lf_link = None, lf_loaded = False, lf_label = [], lf_interval = ''900'', lf_enabled = True, lf_ignoreFirstHop = False,
     lf_retry = ''0'', lf_maxRetries = ''0'', lf_hideLastSnr = False, lf_saving = False, lf_deleting = False,
     lf_confirming = False, lf_toasts = []\<rparr>"

definition link_opened :: "(rat \<Rightarrow> string) \<Rightarrow> link_info \<Rightarrow> link_form \<Rightarrow> link_form" where
  "link_opened num l f = f\<lparr>lf_link := Some l, lf_label := li_label l, lf_interval := num (of_int (li_intervalSecs l)),
     lf_enabled := li_enabled l, lf_ignoreFirstHop := li_ignoreFirstHop l, lf_retry := num (of_int (li_retrySecs l)),
     lf_maxRetries := num (of_int (li_maxRetries l)), lf_hideLastSnr := li_hideLastSnr l\<rparr>"

definition links_answered :: "(rat \<Rightarrow> string) \<Rightarrow> string \<Rightarrow> link_info list option \<Rightarrow> link_form \<Rightarrow> link_form" where
  \<comment> \<open>the answer of \<open>load\<close>: none when it failed, the empty list when it was refused\<close>
  "links_answered num linkKey answer f =
     (case answer of
        None \<Rightarrow> f\<lparr>lf_loaded := True\<rparr>
      | Some ls \<Rightarrow>
          (case find (\<lambda>l. to_lower (li_key l) = to_lower linkKey) ls of
             Some l \<Rightarrow> (link_opened num l f)\<lparr>lf_loaded := True\<rparr>
           | None \<Rightarrow> f\<lparr>lf_loaded := True\<rparr>))"

definition noRetries :: "link_form \<Rightarrow> bool" where
  "noRetries f \<longleftrightarrow> at_most (lf_maxRetries f) 0"

definition effRetry :: "link_form \<Rightarrow> rat" where  \<comment> \<open>\<open>Number(retrySecs) || DEFAULT_RETRY_SECS\<close>\<close>
  "effRetry f = (case js_number (lf_retry f) of Some r \<Rightarrow> if r = 0 then DEFAULT_RETRY_SECS else r | None \<Rightarrow> DEFAULT_RETRY_SECS)"

definition retryTooLong :: "link_form \<Rightarrow> bool" where  \<comment> \<open>a comparison with NaN is false\<close>
  "retryTooLong f =
     (if noRetries f then False
      else case (js_number (lf_maxRetries f), js_number (lf_interval f)) of
        (Some m, Some i) \<Rightarrow> effRetry f * m > i
      | _ \<Rightarrow> False)"

record link_patch =
  lp_label :: string
  lp_intervalSecs :: "rat option"
  lp_enabled :: bool
  lp_ignoreFirstHop :: bool
  lp_retrySecs :: "rat option"
  lp_maxRetries :: "rat option"
  lp_hideLastSnr :: bool

definition link_patch_of :: "link_form \<Rightarrow> link_patch" where
  "link_patch_of f = \<lparr>lp_label = lf_label f, lp_intervalSecs = js_number (lf_interval f), lp_enabled = lf_enabled f,
     lp_ignoreFirstHop = lf_ignoreFirstHop f, lp_retrySecs = js_number (lf_retry f), lp_maxRetries = js_number (lf_maxRetries f),
     lp_hideLastSnr = lf_hideLastSnr f\<rparr>"

definition link_toast :: "toast_kind \<Rightarrow> string \<Rightarrow> link_form \<Rightarrow> link_form" where
  "link_toast k s f = f\<lparr>lf_toasts := lf_toasts f @ [(k, s)]\<rparr>"

definition link_save :: "link_form \<Rightarrow> link_form \<times> (nat \<times> link_patch) option" where
  "link_save f =
     (case lf_link f of
        None \<Rightarrow> (f, None)
      | Some l \<Rightarrow>
          if retryTooLong f \<or> lf_saving f \<or> lf_deleting f then (f, None)
          else (f\<lparr>lf_saving := True\<rparr>, Some (li_id l, link_patch_of f)))"

definition link_saved :: "string option \<Rightarrow> link_form \<Rightarrow> link_form \<times> bool" where  \<comment> \<open>and whether \<open>onSaved\<close> is called\<close>
  "link_saved denied f =
     (case denied of
        None \<Rightarrow> ((link_toast SuccessToast ''Link monitor settings saved'' f)\<lparr>lf_saving := False\<rparr>, True)
      | Some e \<Rightarrow> ((link_toast ErrorToast e f)\<lparr>lf_saving := False\<rparr>, False))"

definition link_delete :: "link_form \<Rightarrow> link_form \<times> nat option" where
  "link_delete f =
     (case lf_link f of
        Some l \<Rightarrow> if lf_confirming f then (f\<lparr>lf_deleting := True\<rparr>, Some (li_id l)) else (f, None)
      | None \<Rightarrow> (f, None))"

definition link_deleted :: "string option \<Rightarrow> link_form \<Rightarrow> link_form \<times> bool" where  \<comment> \<open>and whether \<open>onDeleted\<close> is called\<close>
  "link_deleted denied f =
     (case denied of
        None \<Rightarrow> (link_toast SuccessToast ''Link monitor deleted'' f, True)
      | Some e \<Rightarrow> ((link_toast ErrorToast e f)\<lparr>lf_deleting := False\<rparr>, False))"

datatype link_event =
    LinksAnswered "link_info list option"
  | LabelTyped string
  | LinkEnabled bool
  | LinkInterval string
  | LinkRetry string
  | LinkMaxRetries string
  | FirstHopIgnored bool
  | SnrHidden bool
  | LinkSave
  | LinkSaved "string option"
  | DeleteAsked
  | DeleteCancelled
  | LinkDelete
  | LinkDeleted "string option"

fun link_step :: "(rat \<Rightarrow> string) \<Rightarrow> string \<Rightarrow> link_event \<Rightarrow> link_form \<Rightarrow> link_form" where
  "link_step num key (LinksAnswered a) f = links_answered num key a f"
| "link_step num key (LabelTyped s) f = (if lf_link f = None then f else f\<lparr>lf_label := s\<rparr>)"
| "link_step num key (LinkEnabled b) f = (if lf_link f = None then f else f\<lparr>lf_enabled := b\<rparr>)"
| "link_step num key (LinkInterval s) f = (if lf_link f = None \<or> \<not> among_opts s LINK_INTERVAL_OPTS then f else f\<lparr>lf_interval := s\<rparr>)"
| "link_step num key (LinkRetry s) f =
     (if lf_link f = None \<or> noRetries f \<or> \<not> among_opts s RETRY_OPTS then f else f\<lparr>lf_retry := s\<rparr>)"
| "link_step num key (LinkMaxRetries s) f = (if lf_link f = None \<or> \<not> among_opts s MAX_RETRIES_OPTS then f else f\<lparr>lf_maxRetries := s\<rparr>)"
| "link_step num key (FirstHopIgnored b) f = (if lf_link f = None then f else f\<lparr>lf_ignoreFirstHop := b\<rparr>)"
| "link_step num key (SnrHidden b) f = (if lf_link f = None then f else f\<lparr>lf_hideLastSnr := b\<rparr>)"
| "link_step num key LinkSave f = fst (link_save f)"
| "link_step num key (LinkSaved d) f = fst (link_saved d f)"
| "link_step num key DeleteAsked f = f\<lparr>lf_confirming := True\<rparr>"
| "link_step num key DeleteCancelled f = f\<lparr>lf_confirming := False\<rparr>"
| "link_step num key LinkDelete f = fst (link_delete f)"
| "link_step num key (LinkDeleted d) f = fst (link_deleted d f)"

definition link_run :: "(rat \<Rightarrow> string) \<Rightarrow> string \<Rightarrow> link_event list \<Rightarrow> link_form \<Rightarrow> link_form" where
  "link_run num key es f = foldl (\<lambda>s e. link_step num key e s) f es"

section \<open>The server's side\<close>

definition validateLinkRetry :: "int \<Rightarrow> int \<Rightarrow> int \<Rightarrow> bool" where
  "validateLinkRetry intervalSecs retrySecs maxRetries \<longleftrightarrow>
     maxRetries \<le> 0 \<or> (if retrySecs \<le> 0 then 300 else retrySecs) * maxRetries \<le> intervalSecs"

definition link_within :: "int \<Rightarrow> int \<Rightarrow> int \<Rightarrow> bool" where
  "link_within i r m \<longleftrightarrow> 60 \<le> i \<and> i \<le> 86400 \<and> 0 \<le> r \<and> r \<le> 86400 \<and> - 1 \<le> m \<and> m \<le> 100"

definition updateLink :: "link_patch \<Rightarrow> link_info \<Rightarrow> link_info option" where  \<comment> \<open>none when the request is refused\<close>
  "updateLink p l =
     (case (lp_intervalSecs p, lp_retrySecs p, lp_maxRetries p) of
        (Some i, Some r, Some m) \<Rightarrow>
          if of_int \<lfloor>i\<rfloor> = i \<and> of_int \<lfloor>r\<rfloor> = r \<and> of_int \<lfloor>m\<rfloor> = m \<and> link_within \<lfloor>i\<rfloor> \<lfloor>r\<rfloor> \<lfloor>m\<rfloor> \<and> validateLinkRetry \<lfloor>i\<rfloor> \<lfloor>r\<rfloor> \<lfloor>m\<rfloor>
          then Some (l\<lparr>li_label := lp_label p, li_intervalSecs := \<lfloor>i\<rfloor>, li_enabled := lp_enabled p,
            li_ignoreFirstHop := lp_ignoreFirstHop p, li_retrySecs := \<lfloor>r\<rfloor>, li_maxRetries := \<lfloor>m\<rfloor>, li_hideLastSnr := lp_hideLastSnr p\<rparr>)
          else None
      | _ \<Rightarrow> None)"

section \<open>The button and the server agree\<close>

definition reads_int :: "string \<Rightarrow> int \<Rightarrow> bool" where
  "reads_int s i \<longleftrightarrow> js_number s = Some (of_int i)"

definition link_sound :: "link_form \<Rightarrow> bool" where
  "link_sound f \<longleftrightarrow>
     (\<exists>i r m. reads_int (lf_interval f) i \<and> reads_int (lf_retry f) r \<and> reads_int (lf_maxRetries f) m \<and> link_within i r m)"

definition info_sound :: "link_info \<Rightarrow> bool" where
  "info_sound l \<longleftrightarrow> link_within (li_intervalSecs l) (li_retrySecs l) (li_maxRetries l)"

fun link_event_sound :: "link_event \<Rightarrow> bool" where
  "link_event_sound (LinksAnswered (Some ls)) = list_all info_sound ls"
| "link_event_sound e = True"

lemma digits_int: "s \<noteq> [] \<Longrightarrow> list_all is_digit s \<Longrightarrow> reads_int s (int (parse_digits s))"
  by (simp add: reads_int_def js_number_digits)

lemma reads_int_of: "reads_as P s \<Longrightarrow> (\<And>x. P x \<Longrightarrow> of_int \<lfloor>x\<rfloor> = x) \<Longrightarrow> \<exists>i. reads_int s i \<and> P (of_int i)"
proof -
  assume s: "reads_as P s" and whole: "\<And>x. P x \<Longrightarrow> of_int \<lfloor>x\<rfloor> = x"
  then obtain x where x: "js_number s = Some x" "P x" by (auto simp: reads_as_def)
  have "of_int \<lfloor>x\<rfloor> = x" by (rule whole [OF x(2)])
  with x show ?thesis unfolding reads_int_def by metis
qed

lemma link_opts:
  "among_opts s LINK_INTERVAL_OPTS \<Longrightarrow> \<exists>i. reads_int s i \<and> 60 \<le> i \<and> i \<le> 86400"
  "among_opts s RETRY_OPTS \<Longrightarrow> \<exists>i. reads_int s i \<and> 0 \<le> i \<and> i \<le> 86400"
  "among_opts s MAX_RETRIES_OPTS \<Longrightarrow> \<exists>i. reads_int s i \<and> - 1 \<le> i \<and> i \<le> 100"
proof -
  have "map fst LINK_INTERVAL_OPTS = [''300'', ''900'', ''1800'', ''3600'', ''10800'', ''21600'', ''43200'', ''86400'']"
    by (simp add: LINK_INTERVAL_OPTS_def)
  moreover have "list_all (reads_as (int_within 60 86400)) [''300'', ''900'', ''1800'', ''3600'', ''10800'', ''21600'', ''43200'', ''86400'']"
    by (simp add: values_read)
  ultimately have "among_opts s LINK_INTERVAL_OPTS \<Longrightarrow> reads_as (int_within 60 86400) s"
    unfolding among_opts_def by auto
  then show "among_opts s LINK_INTERVAL_OPTS \<Longrightarrow> \<exists>i. reads_int s i \<and> 60 \<le> i \<and> i \<le> 86400"
    using reads_int_of [of "int_within 60 86400" s] by (fastforce simp: int_within_def)
  show "among_opts s RETRY_OPTS \<Longrightarrow> \<exists>i. reads_int s i \<and> 0 \<le> i \<and> i \<le> 86400"
    using reads_int_of [OF opts_read(2) default_whole] by (fastforce simp: int_within_def default_or_def)
  show "among_opts s MAX_RETRIES_OPTS \<Longrightarrow> \<exists>i. reads_int s i \<and> - 1 \<le> i \<and> i \<le> 100"
    using reads_int_of [OF opts_read(3)] by (fastforce simp: int_within_def)
qed

lemma answered_sound:
  assumes "int_text num" "link_event_sound (LinksAnswered a)" "link_sound f"
  shows "link_sound (links_answered num key a f)"
proof -
  have "link_sound (link_opened num l f)" if "info_sound l" for l
    using that assms(1) unfolding link_sound_def reads_int_def link_opened_def info_sound_def int_text_def by fastforce
  moreover have "l \<in> set ls" if "find P ls = Some l" for P ls and l :: link_info
    using that by (auto simp: find_Some_iff)
  ultimately show ?thesis
    using assms(2,3) by (cases a) (auto simp: links_answered_def link_sound_def list_all_iff split: option.splits)
qed

lemma link_step_sound:
  assumes "int_text num" "link_event_sound e" "link_sound f"
  shows "link_sound (link_step num key e f)"
proof (cases e)
  case (LinksAnswered a)
  then show ?thesis using assms answered_sound by simp
next
  case (LinkInterval s)
  then show ?thesis using assms(3) link_opts(1) [of s] by (fastforce simp: link_sound_def link_within_def)
next
  case (LinkRetry s)
  then show ?thesis using assms(3) link_opts(2) [of s] by (fastforce simp: link_sound_def link_within_def)
next
  case (LinkMaxRetries s)
  then show ?thesis using assms(3) link_opts(3) [of s] by (fastforce simp: link_sound_def link_within_def)
qed (use assms(3) in \<open>simp_all add: link_sound_def link_save_def link_saved_def link_delete_def link_deleted_def link_toast_def
  split: option.split\<close>)

lemma link_run_sound:
  assumes "int_text num" "list_all link_event_sound es" "link_sound f"
  shows "link_sound (link_run num key es f)"
  using assms(2,3)
proof (induction es arbitrary: f)
  case (Cons e es)
  then show ?case using link_step_sound [OF assms(1)] by (simp add: link_run_def)
qed (simp add: link_run_def)

lemma link_start_sound: "link_sound link_start"
proof -
  have "reads_int ''900'' 900" "reads_int ''0'' 0"
    using digits_int [of "''900''"] digits_int [of "''0''"] by (simp_all add: is_digit_def parse_digits_def digit_value_def)
  moreover have "link_within 900 0 0" by (simp add: link_within_def)
  ultimately show ?thesis by (auto simp: link_sound_def link_start_def)
qed

lemma patch_taken:
  assumes "reads_int (lf_interval f) i" "reads_int (lf_retry f) r" "reads_int (lf_maxRetries f) m" "link_within i r m"
  shows "updateLink (link_patch_of f) l = None \<longleftrightarrow> \<not> validateLinkRetry i r m"
  using assms by (simp add: updateLink_def link_patch_of_def reads_int_def)

lemma too_long_iff:
  assumes "reads_int (lf_interval f) i" "reads_int (lf_retry f) r" "reads_int (lf_maxRetries f) m" "0 \<le> r"
  shows "retryTooLong f \<longleftrightarrow> \<not> validateLinkRetry i r m"
proof -
  have "effRetry f = of_int (if r \<le> 0 then 300 else r)"
    using assms(2,4) by (auto simp: effRetry_def reads_int_def DEFAULT_RETRY_SECS_def)
  then have "effRetry f * of_int m > of_int i \<longleftrightarrow> (if r \<le> 0 then 300 else r) * m > i"
    by (simp only: of_int_mult [symmetric] of_int_less_iff)
  then show ?thesis
    using assms(1,3) by (simp add: retryTooLong_def noRetries_def at_most_def reads_int_def validateLinkRetry_def not_le)
qed

text \<open>C25: 
  After any edits of a loaded link, the form holds its save back exactly when the server would refuse it: for no
  reachable form does the server refuse what the button sends, and none that the server would take is held back.
\<close>

theorem link_save_agrees:
  assumes "int_text num" "list_all link_event_sound es"
  shows "retryTooLong (link_run num key es link_start) \<longleftrightarrow> updateLink (link_patch_of (link_run num key es link_start)) l = None"
proof -
  obtain i r m where f: "reads_int (lf_interval (link_run num key es link_start)) i" "reads_int (lf_retry (link_run num key es link_start)) r"
    "reads_int (lf_maxRetries (link_run num key es link_start)) m" "link_within i r m"
    using link_run_sound [OF assms link_start_sound] unfolding link_sound_def by blast
  then show ?thesis
    using too_long_iff [OF f(1-3)] patch_taken [OF f] by (simp add: link_within_def)
qed

definition example_link :: link_info where
  "example_link = \<lparr>li_id = 7, li_key = ''AB01'', li_label = ''roof'', li_intervalSecs = 900, li_enabled = True, li_ignoreFirstHop = True,
     li_retrySecs = 300, li_maxRetries = 3, li_hideLastSnr = True\<rparr>"

theorem link_save_agrees_witness:
  "let f = link_run whole_text ''ab01'' [LinksAnswered (Some [example_link]), LinkMaxRetries ''5''] link_start in
     lf_link f = Some example_link \<and> lf_maxRetries f = ''5'' \<and> retryTooLong f \<and> updateLink (link_patch_of f) example_link = None"
proof -
  let ?es = "[LinksAnswered (Some [example_link]), LinkMaxRetries ''5'']"
  let ?f = "link_run whole_text ''ab01'' ?es link_start"
  have five: "js_number ''5'' = Some 5" using js_number_digits [of "''5''"] by (simp add: is_digit_def parse_digits_def digit_value_def)
  have texts: "js_number (whole_text 300) = Some 300" "js_number (whole_text 900) = Some 900"
    using whole_int_text unfolding int_text_def by (metis of_int_numeral)+
  have key: "to_lower ''AB01'' = to_lower ''ab01''" by code_simp
  have f: "lf_link ?f = Some example_link" "lf_maxRetries ?f = ''5''" "lf_interval ?f = whole_text 900" "lf_retry ?f = whole_text 300"
    using key by (simp_all add: link_run_def links_answered_def link_opened_def example_link_def among_opts_def opts_values)
  have "retryTooLong ?f" using five texts by (simp add: f retryTooLong_def noRetries_def at_most_def effRetry_def)
  moreover have "list_all link_event_sound ?es" by (simp add: example_link_def info_sound_def link_within_def)
  ultimately show ?thesis
    using link_save_agrees [OF whole_int_text, of ?es "''ab01''" example_link] f by simp
qed

text \<open>A link that is opened and saved untouched stays as it is.\<close>

lemma opened_link_unchanged:
  assumes "int_text num" "info_sound l" "validateLinkRetry (li_intervalSecs l) (li_retrySecs l) (li_maxRetries l)"
  shows "updateLink (link_patch_of (link_opened num l f)) l = Some l"
  using assms by (simp add: updateLink_def link_patch_of_def link_opened_def int_text_def info_sound_def)

text \<open>
  The load is not guarded. An answer for the link of an earlier address opens that link, which the save then changes; a
  link that is not found leaves the one before in the form.
\<close>

lemma late_link_opened:
  assumes "find (\<lambda>l. to_lower (li_key l) = to_lower old) ls = Some l"
  shows "lf_link (links_answered num old (Some ls) (links_answered num new (Some ls') f)) = Some l"
  using assms by (simp add: links_answered_def link_opened_def)

lemma gone_link_stays: "lf_link (links_answered num new (Some []) f) = lf_link f"
  by (simp add: links_answered_def)
end
