(* ===== verification/ContactView.thy ===== *)
theory ContactView
  imports MonitorForm PeerSheet RegionForms
begin

text \<open>
  The page of a contact (\<open>pages/ContactDetailPage.tsx\<close>): loading it, its route, region and position, and the telemetry it
  answers with (\<open>components/TelemetryPanel.tsx\<close>). Positions are kept in microdegrees and edited in degrees.
\<close>

section \<open>Reading a number from the front of a text\<close>

definition parse_float :: "string \<Rightarrow> rat option" where  \<comment> \<open>\<open>parseFloat(s)\<close>; \<open>None\<close> is not a number, or infinite\<close>
  "parse_float s =
     (let t = trim_start s;
          neg = (case t of c # _ \<Rightarrow> c = CHR ''-'' | [] \<Rightarrow> False);
          u = (case t of c # r \<Rightarrow> if c = CHR ''-'' \<or> c = CHR ''+'' then r else t | [] \<Rightarrow> []);
          ds = digits_of u;
          fs = (case snd ds of c # r \<Rightarrow> if c = CHR ''.'' then digits_of r else ([], c # r) | [] \<Rightarrow> ([], []))
      in if fst ds = [] \<and> fst fs = [] then None
         else Some ((if neg then - 1 else 1) * (of_nat (parse_digits (fst ds @ fst fs)) / 10 ^ length (fst fs)
           * (case read_exponent (snd fs) of Some (f, _) \<Rightarrow> f | None \<Rightarrow> 1))))"

section \<open>The position\<close>

record contact =
  co_pubkey :: string
  co_name :: string
  co_type :: "string option"
  co_lat :: int
  co_lon :: int
  co_outPath :: "string option"
  co_outPathHashSize :: "int option"
  co_pathHashSize :: nat
  co_floodScope :: string
  co_metadata :: "monitor_meta option"

record location_panel =
  lo_editing :: bool
  lo_saving :: bool
  lo_lat :: string
  lo_lon :: string
  lo_toasts :: "(toast_kind \<times> string) list"

definition micro :: rat where "micro = 1000000"

definition has_location :: "int \<Rightarrow> int \<Rightarrow> bool" where
  "has_location lat lon \<longleftrightarrow> lat \<noteq> 0 \<or> lon \<noteq> 0"

definition startEdit :: "int \<Rightarrow> int \<Rightarrow> location_panel \<Rightarrow> location_panel" where
  "startEdit lat lon p =
     p\<lparr>lo_lat := (if has_location lat lon then to_fixed 6 (of_int lat / micro) else []),
       lo_lon := (if has_location lat lon then to_fixed 6 (of_int lon / micro) else []), lo_editing := True\<rparr>"

definition location_toast :: "toast_kind \<Rightarrow> string \<Rightarrow> location_panel \<Rightarrow> location_panel" where
  "location_toast k s p = p\<lparr>lo_toasts := lo_toasts p @ [(k, s)]\<rparr>"

definition typed_position :: "string \<Rightarrow> string \<Rightarrow> (int \<times> int) option" where  \<comment> \<open>in microdegrees\<close>
  "typed_position lat lon =
     (case (parse_float lat, parse_float lon) of
        (Some la, Some lo) \<Rightarrow>
          if la < - 90 \<or> la > 90 \<or> lo < - 180 \<or> lo > 180 then None else Some (js_round (la * micro), js_round (lo * micro))
      | _ \<Rightarrow> None)"

definition location_save :: "location_panel \<Rightarrow> location_panel \<times> (int \<times> int) option" where  \<comment> \<open>and what is sent\<close>
  "location_save p =
     (case typed_position (lo_lat p) (lo_lon p) of
        None \<Rightarrow> (location_toast ErrorToast ''Enter a valid lat, lon'' p, None)
      | Some pos \<Rightarrow> (p\<lparr>lo_saving := True\<rparr>, Some pos))"

definition location_saved :: "string option \<Rightarrow> location_panel \<Rightarrow> location_panel \<times> bool" where  \<comment> \<open>and whether the page takes it over\<close>
  "location_saved denied p =
     (case denied of
        None \<Rightarrow> ((location_toast SuccessToast ''Location updated'' p)\<lparr>lo_editing := False, lo_saving := False\<rparr>, True)
      | Some e \<Rightarrow> ((location_toast ErrorToast (''Failed: '' @ e) p)\<lparr>lo_saving := False\<rparr>, False))"

definition round6 :: "(rat \<Rightarrow> string) \<Rightarrow> rat \<Rightarrow> string" where
  "round6 num v = num (of_int (js_round (v * micro)) / micro)"

definition position_picked :: "(rat \<Rightarrow> string) \<Rightarrow> rat \<Rightarrow> rat \<Rightarrow> location_panel \<Rightarrow> location_panel" where
  "position_picked num la lo p = p\<lparr>lo_lat := round6 num la, lo_lon := round6 num lo\<rparr>"

definition coordinates :: "int \<Rightarrow> int \<Rightarrow> string" where
  "coordinates lat lon =
     (if has_location lat lon then to_fixed 6 (of_int lat / micro) @ '', '' @ to_fixed 6 (of_int lon / micro) else ''not set'')"

section \<open>The page\<close>

type_synonym contact_route = "string \<times> string"  \<comment> \<open>the companion and the contact of the address\<close>

record contact_page =
  cv_route :: contact_route
  cv_run :: nat
  cv_contact :: "contact option"
  cv_loading :: bool
  cv_error :: "string option"
  cv_savingRegion :: bool
  cv_toasts :: "(toast_kind \<times> string) list"

datatype contact_outcome = ContactStatus nat | ContactBroken string | ContactGot contact

definition contact_goto :: "contact_route \<Rightarrow> contact_page \<Rightarrow> contact_page" where  \<comment> \<open>the cleanup and the effect\<close>
  "contact_goto r p =
     (let q = p\<lparr>cv_route := r, cv_run := Suc (cv_run p)\<rparr> in
      if fst r = [] \<or> snd r = [] then q else q\<lparr>cv_loading := True, cv_error := None\<rparr>)"

definition contact_answered :: "nat \<Rightarrow> contact_outcome \<Rightarrow> contact_page \<Rightarrow> contact_page" where
  "contact_answered n outcome p =
     (if n \<noteq> cv_run p then p
      else case outcome of
        ContactStatus s \<Rightarrow> p\<lparr>cv_error := Some (if s = 404 then ''Contact not found'' else ''contact''), cv_loading := False\<rparr>
      | ContactBroken e \<Rightarrow> p\<lparr>cv_error := Some e, cv_loading := False\<rparr>
      | ContactGot c \<Rightarrow> p\<lparr>cv_contact := Some c, cv_loading := False\<rparr>)"

definition contact_refreshed :: "contact option \<Rightarrow> contact_page \<Rightarrow> contact_page" where  \<comment> \<open>the answer of \<open>refreshContact\<close>\<close>
  "contact_refreshed c p = (case c of Some x \<Rightarrow> p\<lparr>cv_contact := Some x\<rparr> | None \<Rightarrow> p)"

definition region_asked :: "contact_page \<Rightarrow> contact_page" where
  "region_asked p = p\<lparr>cv_savingRegion := True\<rparr>"

definition region_answered :: "string option \<Rightarrow> contact_page \<Rightarrow> contact_page \<times> bool" where  \<comment> \<open>and whether the contact is fetched again\<close>
  "region_answered denied p =
     (p\<lparr>cv_savingRegion := False, cv_toasts := cv_toasts p @ [case denied of None \<Rightarrow> (SuccessToast, ''Region saved'') | Some e \<Rightarrow> (ErrorToast, e)]\<rparr>,
      denied = None)"

definition position_taken :: "int \<Rightarrow> int \<Rightarrow> contact_page \<Rightarrow> contact_page" where  \<comment> \<open>\<open>onSaved\<close> of the position\<close>
  "position_taken lat lon p = p\<lparr>cv_contact := map_option (\<lambda>c. c\<lparr>co_lat := lat, co_lon := lon\<rparr>) (cv_contact p)\<rparr>"

definition contact_shown :: "contact_page \<Rightarrow> contact option" where  \<comment> \<open>what the sections are about\<close>
  "contact_shown p = (if cv_loading p \<or> cv_error p \<noteq> None then None else cv_contact p)"

definition api_base :: "contact_route \<Rightarrow> string" where
  "api_base r = ''/api/companions/'' @ encode_uri (fst r) @ ''/contacts/'' @ encode_uri (snd r)"

definition contact_route_label :: "contact option \<Rightarrow> string" where
  "contact_route_label c =
     (case Option.bind c co_outPath of
        None \<Rightarrow> ''Flood''
      | Some path \<Rightarrow>
          (let n = length (av_path (advertPathInfo (Some path) (Option.bind c co_outPathHashSize))) in
           if n = 0 then ''Direct'' else show_nat n @ '' hop'' @ (if n = 1 then [] else ''s'')))"

definition contact_kind :: "contact option \<Rightarrow> string option" where
  "contact_kind c = map_option to_upper (Option.bind c co_type)"

definition manageTo :: "contact_route \<Rightarrow> contact option \<Rightarrow> string" where
  "manageTo r c =
     ''/companions/'' @ encode_uri (fst r)
     @ (if contact_kind c = Some ''SENSOR'' then ''/sensors/'' else if contact_kind c = Some ''ROOM'' then ''/rooms/'' else ''/repeaters/'')
     @ snd r"

definition messageTo :: "contact_route \<Rightarrow> string" where
  "messageTo r = ''/companions/'' @ encode_uri (fst r) @ ''?channel='' @ encode_uri (''dm:'' @ snd r)"

definition monitor_panel :: "contact option \<Rightarrow> monitor_kind option" where  \<comment> \<open>none when there is no such panel\<close>
  "monitor_panel c =
     (let t = contact_kind c in
      if t = Some ''SENSOR'' then Some PollSensor
      else if t = Some ''CHAT'' \<or> t = Some ''ROOM'' then Some PollCompanion else None)"

section \<open>Telemetry\<close>

record telemetry_panel =
  ty_readings :: "tele_reading list option"
  ty_raw :: string
  ty_pushedAt :: "string option"  \<comment> \<open>a time\<close>
  ty_loading :: bool
  ty_err :: "string option"
  ty_fetched :: bool

definition telemetry_start :: telemetry_panel where
  "telemetry_start = \<lparr>ty_readings = None, ty_raw = [], ty_pushedAt = None, ty_loading = False, ty_err = None, ty_fetched = False\<rparr>"

record telemetry_push =
  tq_pubkey :: "string option"
  tq_companionId :: "nat option"
  tq_readings :: "tele_reading list option"  \<comment> \<open>none when it is no list\<close>
  tq_receivedAt :: "string option"

definition onPush :: "string \<Rightarrow> (string \<times> nat) option \<Rightarrow> telemetry_push \<Rightarrow> telemetry_panel \<Rightarrow> telemetry_panel" where
  "onPush now live m p =
     (case tq_readings m of
        None \<Rightarrow> p
      | Some rs \<Rightarrow>
          if tq_pubkey m \<noteq> map_option fst live \<or> tq_companionId m \<noteq> map_option snd live then p
          else p\<lparr>ty_readings := Some rs, ty_pushedAt := Some (nullish (tq_receivedAt m) now)\<rparr>)"

definition telemetry_refresh :: "telemetry_panel \<Rightarrow> telemetry_panel" where
  "telemetry_refresh p = p\<lparr>ty_loading := True, ty_err := None\<rparr>"

definition telemetry_answered :: "string + tele_reading list \<times> string \<Rightarrow> telemetry_panel \<Rightarrow> telemetry_panel" where
  "telemetry_answered answer p =
     (case answer of
        Inl e \<Rightarrow> p\<lparr>ty_err := Some e, ty_loading := False\<rparr>
      | Inr (rs, raw) \<Rightarrow> p\<lparr>ty_readings := Some rs, ty_raw := raw, ty_pushedAt := None, ty_fetched := True, ty_loading := False\<rparr>)"

definition telemetry_effect :: "bool \<Rightarrow> telemetry_panel \<Rightarrow> telemetry_panel" where
  "telemetry_effect autoFetch p = (if autoFetch \<and> \<not> ty_fetched p then telemetry_refresh p else p)"

definition json_number :: "json option \<Rightarrow> rat option" where
  "json_number v = (case v of Some (JNum x) \<Rightarrow> Some x | _ \<Rightarrow> None)"

definition has_members :: "string list \<Rightarrow> json \<Rightarrow> bool" where  \<comment> \<open>\<open>k in obj\<close> for each\<close>
  "has_members ks v \<longleftrightarrow> list_all (\<lambda>k. json_field k v \<noteq> None) ks"

definition fixed_list :: "nat \<Rightarrow> string list \<Rightarrow> json \<Rightarrow> string option" where
  \<comment> \<open>members as \<open>x.toFixed(n)\<close>, none when one is no number and the code throws\<close>
  "fixed_list n ks v =
     (if list_all (\<lambda>k. json_number (json_field k v) \<noteq> None) ks
      then Some (join '', '' (map (\<lambda>k. to_fixed n (the (json_number (json_field k v)))) ks)) else None)"

fun shown_value :: "(rat \<Rightarrow> string) \<Rightarrow> json \<Rightarrow> string" where  \<comment> \<open>in a template\<close>
  "shown_value num (JStr s) = s"
| "shown_value num (JObj fs) = ''[object Object]''"
| "shown_value num (JArr js) = join '','' (map (\<lambda>j. if j = JNull then [] else shown_value num j) js)"
| "shown_value num v = json_text num v"

definition tile_display :: "(rat \<Rightarrow> string) \<Rightarrow> json \<Rightarrow> (string \<times> string option) option" where  \<comment> \<open>\<open>display\<close> and \<open>sub\<close>\<close>
  "tile_display num v =
     (case v of
        JNum x \<Rightarrow> Some (to_fixed (if \<bar>x\<bar> \<ge> 100 then 0 else if \<bar>x\<bar> \<ge> 10 then 1 else 2) x, None)
      | JObj fs \<Rightarrow>
          if has_members [''Latitude'', ''Longitude''] v then
            map_option (\<lambda>s. (s, map_option (\<lambda>a. ''alt '' @ to_fixed 0 a @ '' m'') (json_number (json_field ''Altitude'' v))))
              (fixed_list 5 [''Latitude'', ''Longitude''] v)
          else if has_members [''X'', ''Y'', ''Z''] v then map_option (\<lambda>s. (s, None)) (fixed_list 2 [''X'', ''Y'', ''Z''] v)
          else if has_members [''R'', ''G'', ''B''] v
            then Some (join '', '' (map (\<lambda>k. shown_value num (the (json_field k v))) [''R'', ''G'', ''B'']), None)
          else Some (json_text num v, None)
      | JArr js \<Rightarrow> Some (json_text num v, None)
      | JNull \<Rightarrow> Some (''null'', None)
      | JBool b \<Rightarrow> Some (if b then ''true'' else ''false'', None)
      | JStr s \<Rightarrow> Some (s, None))"

section \<open>A position that is opened is saved as it was\<close>

lemma digits_of_app: "list_all is_digit ds \<Longrightarrow> (case s of c # _ \<Rightarrow> \<not> is_digit c | [] \<Rightarrow> True) \<Longrightarrow> digits_of (ds @ s) = (ds, s)"
  by (cases s) (simp_all add: digits_of_def list_all_iff takeWhile_append2 dropWhile_append2)

lemma parse_digits_pad: "parse_digits (pad_zeros n s) = parse_digits s"
proof -
  have "parse_digits (replicate k CHR ''0'' @ s) = parse_digits s" for k
    by (induction k) (simp_all add: parse_digits_def digit_value_def)
  then show ?thesis by (simp add: pad_zeros_def)
qed

lemma pad_digits: "list_all is_digit s \<Longrightarrow> list_all is_digit (pad_zeros n s)"
  by (auto simp: pad_zeros_def list_all_iff is_digit_def)

lemma pad_length: "n \<le> length (pad_zeros n s)"
  by (simp add: pad_zeros_def)

definition fixed6 :: "nat \<Rightarrow> string" where  \<comment> \<open>the text of \<open>n\<close> millionths\<close>
  "fixed6 n = (let m = pad_zeros 7 (show_nat n); k = length m - 6 in take k m @ ''.'' @ drop k m)"

lemma to_fixed6: "to_fixed 6 (of_int i / micro) = (if i < 0 then CHR ''-'' # fixed6 (nat \<bar>i\<bar>) else fixed6 (nat \<bar>i\<bar>))"
proof -
  have "\<bar>of_int i / micro\<bar> * 10 ^ 6 = (of_int \<bar>i\<bar> :: rat)" by (simp add: micro_def)
  moreover have "\<lfloor>of_int \<bar>i\<bar> + (1 / 2 :: rat)\<rfloor> = \<bar>i\<bar>" by (rule floor_unique) simp_all
  moreover have "of_int i / micro < 0 \<longleftrightarrow> i < 0" by (simp add: micro_def)
  ultimately show ?thesis by (simp only: to_fixed_def Let_def fixed6_def) simp
qed

lemma fixed6_front: "fixed6 n = c # s \<Longrightarrow> is_digit c"
proof -
  let ?m = "pad_zeros 7 (show_nat n)"
  have "list_all is_digit ?m" "7 \<le> length ?m" by (simp_all add: pad_digits show_nat_digits pad_length)
  then obtain d t where m: "take (length ?m - 6) ?m = d # t" "is_digit d"
    by (cases ?m) (auto simp: take_Cons')
  assume "fixed6 n = c # s"
  with m show ?thesis by (simp add: fixed6_def Let_def)
qed

lemma parse_fixed6:
  "parse_float (if neg then CHR ''-'' # fixed6 n else fixed6 n) = Some ((if neg then - 1 else 1) * (of_nat n / micro))"
proof -
  let ?m = "pad_zeros 7 (show_nat n)"
  let ?k = "length ?m - 6"
  have m: "list_all is_digit ?m" "7 \<le> length ?m" "parse_digits ?m = n"
    by (simp_all add: pad_digits show_nat_digits pad_length parse_digits_pad)
  have parts: "list_all is_digit (take ?k ?m)" "list_all is_digit (drop ?k ?m)" "length (drop ?k ?m) = 6" "take ?k ?m \<noteq> []"
    using m by (auto simp: list_all_iff dest: in_set_takeD in_set_dropD)
  have whole: "digits_of (fixed6 n) = (take ?k ?m, ''.'' @ drop ?k ?m)"
    unfolding fixed6_def Let_def using digits_of_app [OF parts(1), of "''.'' @ drop ?k ?m"] by (simp add: is_digit_def)
  have frac: "digits_of (drop ?k ?m) = (drop ?k ?m, [])"
    using digits_of_app [OF parts(2), of "[]"] by simp
  obtain c s where front: "fixed6 n = c # s" by (cases "fixed6 n") (simp_all add: fixed6_def Let_def)
  have c: "is_digit c" by (rule fixed6_front [OF front])
  then have "\<not> is_space c" "c \<noteq> CHR ''-''" "c \<noteq> CHR ''+''" by (auto simp: is_digit_def is_space_def)
  moreover have "\<not> is_space (CHR ''-'')" by (simp add: is_space_def)
  ultimately have "trim_start (if neg then CHR ''-'' # fixed6 n else fixed6 n) = (if neg then CHR ''-'' # fixed6 n else fixed6 n)"
    using front by (simp add: trim_start_def)
  then show ?thesis
    using whole frac parts(3,4) m(3) front \<open>c \<noteq> CHR ''-''\<close> \<open>c \<noteq> CHR ''+''\<close>
    by (cases neg) (simp_all add: parse_float_def read_exponent_def micro_def Let_def)
qed

lemma micro_back: "parse_float (to_fixed 6 (of_int i / micro)) = Some (of_int i / micro)"
proof -
  have "(if i < 0 then - 1 else 1) * (of_nat (nat \<bar>i\<bar>) / micro) = of_int i / micro"
    by (simp add: micro_def)
  then show ?thesis unfolding to_fixed6 parse_fixed6 by simp
qed

lemma micro_round [simp]: "micro \<noteq> 0" "js_round (of_int i) = i"
  by (simp_all add: js_round_def micro_def floor_eq_iff)

text \<open>
  Opening the position of a contact that has one and saving it untouched sends the microdegrees it has: the six decimals
  shown stand for them exactly, and no rounding moves the contact.
\<close>

theorem opened_position_unchanged:
  assumes "has_location lat lon" "\<bar>lat\<bar> \<le> 90000000" "\<bar>lon\<bar> \<le> 180000000"
  shows "location_save (startEdit lat lon p) = ((startEdit lat lon p)\<lparr>lo_saving := True\<rparr>, Some (lat, lon))"
proof -
  have "- 90 \<le> of_int lat / micro" "of_int lat / micro \<le> 90" "- 180 \<le> of_int lon / micro" "of_int lon / micro \<le> 180"
    using assms(2,3) by (simp_all add: micro_def field_simps)
  then show ?thesis
    using assms(1) by (simp add: location_save_def startEdit_def typed_position_def micro_back)
qed

theorem opened_position_unchanged_witness:
  "\<exists>q. location_save (startEdit (- 36848461) 174763332 (\<lparr>lo_editing = False, lo_saving = False, lo_lat = [], lo_lon = [], lo_toasts = []\<rparr>))
     = (q, Some (- 36848461, 174763332)) \<and> lo_lat q = ''-36.848461''"
proof -
  let ?p = "\<lparr>lo_editing = False, lo_saving = False, lo_lat = [], lo_lon = [], lo_toasts = []\<rparr>"
  have "has_location (- 36848461) 174763332" by (simp add: has_location_def)
  note opened_position_unchanged [OF this, of ?p]
  moreover have "fixed6 36848461 = ''36.848461''" by (simp add: fixed6_def pad_zeros_def show_nat.simps Let_def) code_simp
  then have "lo_lat (startEdit (- 36848461) 174763332 ?p) = ''-36.848461''"
    using to_fixed6 [of "- 36848461"] by (simp add: startEdit_def has_location_def)
  ultimately show ?thesis by simp
qed

text \<open>A position that is sent lies on the globe.\<close>

lemma sent_position_valid:
  assumes "location_save p = (q, Some (lat, lon))"
  shows "\<bar>lat\<bar> \<le> 90000000 \<and> \<bar>lon\<bar> \<le> 180000000"
proof -
  from assms obtain la lo where at: "- 90 \<le> la" "la \<le> 90" "- 180 \<le> lo" "lo \<le> 180" "lat = js_round (la * micro)" "lon = js_round (lo * micro)"
    by (auto simp: location_save_def typed_position_def not_less split: option.splits if_splits)
  have bound: "\<bar>js_round (x * micro)\<bar> \<le> n * 1000000" if "- of_int n \<le> x" "x \<le> of_int n" for x :: rat and n :: int
    using that unfolding js_round_def micro_def abs_le_iff by (simp add: floor_le_iff le_floor_iff, linarith)
  show ?thesis using bound [of 90 la] bound [of 180 lo] at by simp
qed

section \<open>Which contact is shown\<close>

datatype contact_event = ContactGoto contact_route | ContactAnswered nat

fun contact_step :: "(nat \<Rightarrow> contact_route \<Rightarrow> contact_outcome) \<Rightarrow> contact_event \<Rightarrow> contact_page \<Rightarrow> contact_page" where
  "contact_step srv (ContactGoto r) p = contact_goto r p"
| "contact_step srv (ContactAnswered n) p = contact_answered n (srv n (cv_route p)) p"

definition shows_route :: "(nat \<Rightarrow> contact_route \<Rightarrow> contact_outcome) \<Rightarrow> contact_page \<Rightarrow> bool" where
  "shows_route srv p \<longleftrightarrow> pred_option (\<lambda>c. srv (cv_run p) (cv_route p) = ContactGot c) (contact_shown p)"

lemma contact_page_follows:
  assumes "shows_route srv p" "list_all (\<lambda>e. case e of ContactGoto r \<Rightarrow> fst r \<noteq> [] \<and> snd r \<noteq> [] | _ \<Rightarrow> True) es"
  shows "shows_route srv (foldl (\<lambda>p e. contact_step srv e p) p es)"
  using assms
proof (induction es arbitrary: p)
  case (Cons e es)
  have "shows_route srv (contact_step srv e p)"
    using Cons.prems
    by (cases e) (auto simp: shows_route_def contact_goto_def contact_answered_def contact_shown_def Let_def split: contact_outcome.split)
  then show ?case using Cons by simp
qed simp

text \<open>
  The answer of a refresh is not matched with the address: one that was asked for the contact before replaces the contact shown. So
  does the position, when the save of another contact's is answered late.
\<close>

lemma late_refresh_shown:
  assumes "contact_shown p \<noteq> None"
  shows "contact_shown (contact_refreshed (Some c) p) = Some c"
  using assms by (auto simp: contact_shown_def contact_refreshed_def split: if_splits)

lemma late_position_taken:
  assumes "contact_shown p = Some c"
  shows "contact_shown (position_taken lat lon p) = Some (c\<lparr>co_lat := lat, co_lon := lon\<rparr>)"
  using assms by (auto simp: contact_shown_def position_taken_def split: if_splits)

text \<open>A refusal other than not found is shown as the one word that the code throws.\<close>

lemma refusal_shown_as_contact: "n = cv_run p \<Longrightarrow> s \<noteq> 404 \<Longrightarrow> cv_error (contact_answered n (ContactStatus s) p) = Some ''contact''"
  by (simp add: contact_answered_def)

section \<open>Pushes and replies\<close>

text \<open>A push of another sensor, or to another companion, changes nothing; a reply that was asked before a push takes it back.\<close>

lemma foreign_push_ignored:
  "tq_pubkey m \<noteq> map_option fst live \<or> tq_companionId m \<noteq> map_option snd live \<Longrightarrow> onPush now live m p = p"
  by (simp add: onPush_def split: option.split)

lemma late_reply_over_push:
  assumes "tq_readings m = Some rs" "tq_pubkey m = map_option fst live" "tq_companionId m = map_option snd live"
  shows "ty_readings (onPush now live m p) = Some rs"
    "ty_readings (telemetry_answered (Inr (old, raw)) (onPush now live m p)) = Some old"
    "ty_pushedAt (telemetry_answered (Inr (old, raw)) (onPush now live m p)) = None"
  using assms by (simp_all add: onPush_def telemetry_answered_def)
end
