(* ===== verification/ChannelViews.thy ===== *)
theory ChannelViews
  imports ChatList RegionForms ApiHooks CompanionRef BotTest LinkPath
begin

text \<open>
  A companion's channels: adding one (\<open>components/AddChannelDialog.tsx\<close>), sharing one (\<open>components/ChannelShare.tsx\<close>), the
  list of them (\<open>pages/ChannelsPage.tsx\<close>), and the menu of a conversation with its dialogs (\<open>components/ChatHeaderMenu.tsx\<close>).
\<close>

section \<open>The text of a query\<close>

text \<open>\<open>URLSearchParams\<close> writes a form with \<open>form_encode\<close> of \<open>LinkPath\<close>; here is how it reads one.\<close>

definition form_decode :: "string \<Rightarrow> string" where
  "form_decode s = decode_uri (replace_char CHR ''+'' CHR '' '' s)"

definition split_pair :: "string \<Rightarrow> string \<times> string" where
  "split_pair s = (form_decode (takeWhile (\<lambda>c. c \<noteq> CHR ''='') s), form_decode (drop 1 (dropWhile (\<lambda>c. c \<noteq> CHR ''='') s)))"

definition form_read :: "string \<Rightarrow> (string \<times> string) list" where  \<comment> \<open>\<open>new URLSearchParams(s)\<close>\<close>
  "form_read s = map split_pair (filter (\<lambda>p. p \<noteq> []) (split_on CHR ''&'' s))"

definition link_query :: "string \<Rightarrow> string" where  \<comment> \<open>what follows the question mark\<close>
  "link_query s = drop 1 (dropWhile (\<lambda>c. c \<noteq> CHR ''?'') s)"

section \<open>Sharing a channel\<close>

definition with_hash :: "string \<Rightarrow> string" where
  "with_hash region = (if starts_with ''#'' region then region else CHR ''#'' # region)"

definition channelShareLink :: "string \<Rightarrow> string \<Rightarrow> string option \<Rightarrow> string" where
  "channelShareLink name keyHex region =
     ''meshcore://channel/add?'' @ form_encode ([(''name'', name), (''secret'', to_lower keyHex)]
       @ (if truthy_str region then [(''region_scope'', with_hash (the region))] else []))"

section \<open>Adding a channel\<close>

datatype channel_mode = HashtagChannel | PrivateChannel

record channel_form =
  ac_open :: bool
  ac_mode :: channel_mode
  ac_name :: string
  ac_key :: string
  ac_submitting :: bool

definition channel_opened :: "bool \<Rightarrow> string option \<Rightarrow> channel_form \<Rightarrow> channel_form" where  \<comment> \<open>the effect on \<open>open\<close> and the name\<close>
  "channel_opened on prefill f =
     (if on then \<lparr>ac_open = True, ac_mode = HashtagChannel, ac_name = nullish prefill [], ac_key = [], ac_submitting = False\<rparr>
      else f\<lparr>ac_open := False\<rparr>)"

definition key_hex :: "string \<Rightarrow> bool" where  \<comment> \<open>\<open>KEY_HEX\<close>\<close>
  "key_hex s \<longleftrightarrow> length s = 32 \<and> list_all is_hex s"

definition newKey :: "nat list \<Rightarrow> string" where  \<comment> \<open>of sixteen random bytes\<close>
  "newKey bs = concat (map (\<lambda>b. [lower_char (hex_digit (b div 16)), lower_char (hex_digit (b mod 16))]) bs)"

definition nameTaken :: "string list \<Rightarrow> channel_form \<Rightarrow> bool" where
  "nameTaken existing f \<longleftrightarrow> trim (ac_name f) \<in> set existing"

definition channel_can_submit :: "string list \<Rightarrow> channel_form \<Rightarrow> bool" where
  "channel_can_submit existing f \<longleftrightarrow>
     trim (ac_name f) \<noteq> [] \<and> \<not> nameTaken existing f \<and> (ac_mode f = HashtagChannel \<or> key_hex (trim (ac_key f))) \<and> \<not> ac_submitting f"

definition channel_submit :: "string list \<Rightarrow> channel_form \<Rightarrow> channel_form \<times> (string \<times> string option) option" where
  \<comment> \<open>and what \<open>onAdd\<close> is called with\<close>
  "channel_submit existing f =
     (if \<not> channel_can_submit existing f then (f, None)
      else (f\<lparr>ac_submitting := True\<rparr>,
        Some (trim (ac_name f), if ac_mode f = PrivateChannel then Some (trim (ac_key f)) else None)))"

definition channel_shared :: "channel_form \<Rightarrow> string option \<Rightarrow> string option" where  \<comment> \<open>the link of the \<open>ChannelShare\<close> that is shown\<close>
  "channel_shared f region =
     (if ac_mode f = PrivateChannel \<and> trim (ac_name f) \<noteq> [] \<and> key_hex (trim (ac_key f))
      then Some (channelShareLink (trim (ac_name f)) (trim (ac_key f)) region) else None)"

section \<open>The list of channels\<close>

record channel_row =
  cr_id :: nat
  cr_name :: string
  cr_floodScope :: string

record channels_page =
  cs_channels :: "string api_list"
  cs_config :: "channel_row api_list"
  cs_confirm :: "string option"
  cs_savingRegion :: "string option"
  cs_form :: channel_form
  cs_toasts :: "(toast_kind \<times> string) list"

definition channels_toast :: "toast_kind \<Rightarrow> string \<Rightarrow> channels_page \<Rightarrow> channels_page" where
  "channels_toast k s p = p\<lparr>cs_toasts := cs_toasts p @ [(k, s)]\<rparr>"

definition channels_reload :: "channels_page \<Rightarrow> channels_page" where  \<comment> \<open>both lists\<close>
  "channels_reload p = p\<lparr>cs_channels := list_load False (cs_channels p), cs_config := list_load False (cs_config p)\<rparr>"

definition channel_posted :: "string \<Rightarrow> string option \<Rightarrow> channels_page \<Rightarrow> channels_page" where  \<comment> \<open>what \<open>postChannel\<close> came to\<close>
  "channel_posted nm failed p =
     (case failed of
        None \<Rightarrow> channels_reload ((channels_toast SuccessToast (''Channel '' @ [CHR 0x22] @ nm @ [CHR 0x22] @ '' added'') p)
          \<lparr>cs_form := (channel_opened False None (cs_form p))\<lparr>ac_submitting := False\<rparr>\<rparr>)
      | Some e \<Rightarrow> (channels_toast ErrorToast (''Failed to add channel: '' @ e) p)\<lparr>cs_form := (cs_form p)\<lparr>ac_submitting := False\<rparr>\<rparr>)"

definition channel_deleted :: "string \<Rightarrow> string option \<Rightarrow> channels_page \<Rightarrow> channels_page" where
  "channel_deleted nm failed p =
     (case failed of
        None \<Rightarrow> channels_reload ((channels_toast SuccessToast (''Channel '' @ [CHR 0x22] @ nm @ [CHR 0x22] @ '' removed'') p)\<lparr>cs_confirm := None\<rparr>)
      | Some e \<Rightarrow> channels_toast ErrorToast (''Failed to remove channel: '' @ e) p)"

definition setChannelScope :: "channel_row \<Rightarrow> string \<Rightarrow> channels_page \<Rightarrow> channels_page \<times> (nat \<times> string \<times> string)" where
  \<comment> \<open>and the row that is sent\<close>
  "setChannelScope row scope p = (p\<lparr>cs_savingRegion := Some (cr_name row)\<rparr>, (cr_id row, cr_name row, scope))"

definition scope_answered :: "channel_row \<Rightarrow> string option \<Rightarrow> channels_page \<Rightarrow> channels_page" where
  "scope_answered row failed p =
     (case failed of
        None \<Rightarrow> (channels_toast SuccessToast (cr_name row @ '' region saved'') p)\<lparr>cs_config := list_load False (cs_config p), cs_savingRegion := None\<rparr>
      | Some e \<Rightarrow> (channels_toast ErrorToast e p)\<lparr>cs_savingRegion := None\<rparr>)"

definition row_region :: "channels_page \<Rightarrow> string \<Rightarrow> string option" where  \<comment> \<open>the region select of a row, none when it has none\<close>
  "row_region p nm = map_option cr_floodScope (Option.bind (al_items (cs_config p)) (find (\<lambda>c. cr_name c = nm)))"

section \<open>The menu of a conversation\<close>

datatype menu_item = MenuSearch | MenuShare | MenuRegion | MenuManage | MenuResume | MenuRename | MenuParticipants | MenuBlocked
  | MenuDetails | MenuPath | MenuDelete

definition is_managed :: "conversation \<Rightarrow> bool" where
  "is_managed c \<longleftrightarrow> truthy_str (cv_pubkey c) \<and> to_upper (nullish (cv_peerType c) []) \<in> {''ROOM'', ''SENSOR''}"

definition is_room :: "conversation \<Rightarrow> bool" where
  "is_room c \<longleftrightarrow> truthy_str (cv_pubkey c) \<and> map_option to_upper (cv_peerType c) = Some ''ROOM''"

definition menu_items :: "conversation \<Rightarrow> menu_item list" where
  "menu_items c =
     [MenuSearch, MenuShare, MenuRegion] @ (if is_managed c then [MenuManage] else []) @ (if is_room c then [MenuResume] else [])
     @ (if cv_type c = ''channel'' \<and> isPublic c then [MenuRename] else [])
     @ (if cv_type c = ''channel'' then [MenuParticipants, MenuBlocked] else [])
     @ (if cv_type c = ''contact'' \<and> truthy_str (cv_pubkey c) then [MenuDetails, MenuPath] else [])
     @ [MenuDelete]"

definition details_path :: "string \<Rightarrow> conversation \<Rightarrow> string" where
  "details_path companion c = ''/companions/'' @ encode_uri companion @ ''/contacts/'' @ nullish (cv_pubkey c) []"

subsection \<open>Sharing from the menu\<close>

record share_state =
  ss_open :: bool
  ss_conv :: conversation
  ss_key :: "(string \<times> string) option"  \<comment> \<open>the channel's name and key\<close>
  ss_qr :: "string option"
  ss_toasts :: "string list"

definition contact_type_number :: "conversation \<Rightarrow> nat" where
  "contact_type_number c =
     nullish (map_of [(''CHAT'', 1), (''REPEATER'', 2), (''ROOM'', 3), (''SENSOR'', 4)] (to_upper (nullish (cv_peerType c) []))) 1"

definition contact_link :: "conversation \<Rightarrow> string" where  \<comment> \<open>what the QR code says\<close>
  "contact_link c = ''meshcore://contact/add?'' @ form_encode [(''name'', cv_name c), (''public_key'', nullish (cv_pubkey c) []),
     (''type'', show_nat (contact_type_number c))]"

definition share_turned :: "bool \<Rightarrow> conversation \<Rightarrow> share_state \<Rightarrow> share_state \<times> bool" where
  \<comment> \<open>both effects, when \<open>open\<close> or the conversation changes, and whether the key is fetched\<close>
  "share_turned on c s =
     (let s1 = s\<lparr>ss_open := on, ss_conv := c, ss_qr := (if on \<and> cv_type c = ''contact'' \<and> truthy_str (cv_pubkey c) then ss_qr s else None)\<rparr> in
      if on \<and> cv_type c = ''channel'' then (s1, True) else (s1\<lparr>ss_key := None\<rparr>, False))"

definition key_answered :: "(string \<times> string) option \<Rightarrow> share_state \<Rightarrow> share_state" where
  "key_answered k s =
     (case k of Some x \<Rightarrow> s\<lparr>ss_key := Some x\<rparr> | None \<Rightarrow> s\<lparr>ss_toasts := ss_toasts s @ [''Could not load the channel key'']\<rparr>)"

definition qr_answered :: "string option \<Rightarrow> share_state \<Rightarrow> share_state" where
  "qr_answered url s = s\<lparr>ss_qr := url\<rparr>"

definition key_shown :: "string option \<Rightarrow> share_state \<Rightarrow> string option" where  \<comment> \<open>the link of the \<open>ChannelShare\<close>\<close>
  "key_shown region s =
     (case ss_key s of
        Some (nm, k) \<Rightarrow> if ss_open s \<and> cv_type (ss_conv s) = ''channel'' then Some (channelShareLink nm k region) else None
      | None \<Rightarrow> None)"

subsection \<open>The region of a thread\<close>

definition dm_key :: "conversation \<Rightarrow> string option" where
  "dm_key c = (if starts_with ''dm:'' (cv_channel c) then Some (slice_from 3 (cv_channel c)) else None)"

record scoped_contact =
  st_pubkey :: string
  st_floodScope :: string

record thread_region =
  tr_channels :: "channel_row api_list"
  tr_contact :: "scoped_contact api_object"
  tr_saving :: bool
  tr_toasts :: "(toast_kind \<times> string) list"

definition thread_row :: "conversation \<Rightarrow> thread_region \<Rightarrow> channel_row option" where
  "thread_row c s = Option.bind (al_items (tr_channels s)) (find (\<lambda>r. cr_name r = cv_channel c))"

definition thread_contact :: "conversation \<Rightarrow> thread_region \<Rightarrow> scoped_contact option" where
  "thread_contact c s =
     (case ao_item (tr_contact s) of
        Some x \<Rightarrow> if Some (to_lower (st_pubkey x)) = map_option to_lower (dm_key c) then Some x else None
      | None \<Rightarrow> None)"

definition region_value :: "conversation \<Rightarrow> thread_region \<Rightarrow> string option" where  \<comment> \<open>\<open>value\<close>\<close>
  "region_value c s = (if truthy_str (dm_key c) then map_option st_floodScope (thread_contact c s) else map_option cr_floodScope (thread_row c s))"

definition region_problem :: "conversation \<Rightarrow> thread_region \<Rightarrow> string option" where
  "region_problem c s =
     (if truthy_str (dm_key c) then
        (if ao_notFound (tr_contact s) then Some ''This node isn't a contact, so it sends in the companion's region.'' else ao_error (tr_contact s))
      else if al_error (tr_channels s) \<noteq> None then al_error (tr_channels s)
      else if al_items (tr_channels s) \<noteq> None \<and> thread_row c s = None
        then Some ''This channel isn't in the companion's settings, so its region can't be set here.'' else None)"

definition region_saved :: "conversation \<Rightarrow> channel_row option \<Rightarrow> string \<Rightarrow> string option \<Rightarrow> thread_region \<Rightarrow> thread_region" where
  \<comment> \<open>the row that was there when it was asked, and what came of it\<close>
  "region_saved c row scope failed s =
     (let s1 = s\<lparr>tr_saving := False, tr_toasts := tr_toasts s @ [case failed of None \<Rightarrow> (SuccessToast, ''Region saved'') | Some e \<Rightarrow> (ErrorToast, e)]\<rparr> in
      if failed \<noteq> None then s1
      else if truthy_str (dm_key c)
        then s1\<lparr>tr_contact := (tr_contact s)\<lparr>ao_item := map_option (\<lambda>x. x\<lparr>st_floodScope := scope\<rparr>) (ao_item (tr_contact s))\<rparr>\<rparr>
      else case row of
        Some r \<Rightarrow> s1\<lparr>tr_channels := (tr_channels s)\<lparr>al_items := map_option (map (\<lambda>x. if cr_id x = cr_id r then x\<lparr>cr_floodScope := scope\<rparr> else x))
          (al_items (tr_channels s))\<rparr>\<rparr>
      | None \<Rightarrow> s1)"

subsection \<open>Renaming\<close>

record rename_state =
  re_name :: string
  re_saving :: bool

definition rename_save :: "rename_state \<Rightarrow> rename_state \<times> string option" where  \<comment> \<open>and the name that is sent\<close>
  "rename_save s = (if trim (re_name s) = [] \<or> re_saving s then (s, None) else (s\<lparr>re_saving := True\<rparr>, Some (trim (re_name s))))"

definition rename_disabled :: "string \<Rightarrow> rename_state \<Rightarrow> bool" where  \<comment> \<open>of the button; the Enter key does not ask\<close>
  "rename_disabled current s \<longleftrightarrow> re_saving s \<or> trim (re_name s) = [] \<or> trim (re_name s) = current"

subsection \<open>Participants and blocked senders\<close>

record sender_list =
  sl_conv :: string  \<comment> \<open>the conversation the dialog is of\<close>
  sl_open :: bool
  sl_senders :: "string list"
  sl_loading :: bool
  sl_busy :: "string option"
  sl_toasts :: "(toast_kind \<times> string) list"

definition senders_turned :: "bool \<Rightarrow> string \<Rightarrow> sender_list \<Rightarrow> sender_list" where  \<comment> \<open>the effect; open, it asks for the list\<close>
  "senders_turned on conv s = (let s1 = s\<lparr>sl_open := on, sl_conv := conv\<rparr> in if on then s1\<lparr>sl_loading := True\<rparr> else s1)"

definition senders_answered :: "string \<Rightarrow> string list option option \<Rightarrow> sender_list \<Rightarrow> sender_list" where
  \<comment> \<open>none is a failure, the inner none is null\<close>
  "senders_answered what answer s =
     (case answer of
        Some xs \<Rightarrow> s\<lparr>sl_senders := nullish xs [], sl_loading := False\<rparr>
      | None \<Rightarrow> s\<lparr>sl_toasts := sl_toasts s @ [(ErrorToast, ''Failed to load '' @ what)], sl_loading := False\<rparr>)"

definition sender_pressed :: "string \<Rightarrow> sender_list \<Rightarrow> sender_list \<times> (string \<times> string) option" where
  \<comment> \<open>and the conversation and sender of the request\<close>
  "sender_pressed x s =
     (if x \<in> set (sl_senders s) \<and> \<not> sl_loading s \<and> sl_busy s \<noteq> Some x then (s\<lparr>sl_busy := Some x\<rparr>, Some (sl_conv s, x)) else (s, None))"

definition sender_answered :: "string \<Rightarrow> string \<Rightarrow> string \<Rightarrow> bool \<Rightarrow> sender_list \<Rightarrow> sender_list" where
  "sender_answered done failed x ok s =
     (if ok then s\<lparr>sl_toasts := sl_toasts s @ [(SuccessToast, done @ '' '' @ x)], sl_senders := filter (\<lambda>p. p \<noteq> x) (sl_senders s), sl_busy := None\<rparr>
      else s\<lparr>sl_toasts := sl_toasts s @ [(ErrorToast, failed)], sl_busy := None\<rparr>)"

subsection \<open>Deleting the history\<close>

definition history_deleted :: "bool \<Rightarrow> (toast_kind \<times> string) \<times> bool" where  \<comment> \<open>the notice, and whether the page clears the thread and the dialog closes\<close>
  "history_deleted ok = (if ok then ((SuccessToast, ''Message history cleared''), True) else ((ErrorToast, ''Failed to delete messages''), False))"

section \<open>A shared link reads back\<close>

definition form_part :: "string \<Rightarrow> string" where
  "form_part s = concat (map form_encode_char s)"

definition form_plain :: "char \<Rightarrow> bool" where
  "form_plain c \<longleftrightarrow> is_word c \<or> c \<in> set ''*-.''"

lemma form_encode_char_alt:
  "form_encode_char c = (let n = of_char c :: nat in
     if form_plain c then [c] else if c = CHR '' '' then ''+'' else if n < 128 then percent_byte n
     else percent_byte (192 + n div 64) @ percent_byte (128 + n mod 64))"
  by (auto simp: form_encode_char_def form_plain_def char_class_defs Let_def)

lemma form_encode_alt: "form_encode ps = join ''&'' (map (\<lambda>(k, v). form_part k @ CHR ''='' # form_part v) ps)"
  by (simp add: form_encode_def form_part_def)

lemma form_plain_facts: "form_plain c \<Longrightarrow> c \<noteq> CHR ''+'' \<and> c \<noteq> CHR ''%'' \<and> c \<noteq> CHR '' '' \<and> (of_char c :: nat) < 128"
  by (auto simp: form_plain_def char_class_defs)

lemma hex_digit_form: "n < 16 \<Longrightarrow> form_plain (hex_digit n)"
  using hex_digit_plain [of n] by (auto simp: form_plain_def char_class_defs)

lemma percent_plus: "b < 256 \<Longrightarrow> replace_char CHR ''+'' CHR '' '' (percent_byte b) = percent_byte b"
  using hex_digit_form [of "b div 16"] hex_digit_form [of "b mod 16"] form_plain_facts
  by (auto simp: percent_byte_def replace_char_def)

lemma replace_append: "replace_char a b (s @ t) = replace_char a b s @ replace_char a b t"
  by (simp add: replace_char_def)

lemma decode_form_char: "decode_bytes (replace_char CHR ''+'' CHR '' '' (form_encode_char c) @ s) = utf8_bytes c @ decode_bytes s"
proof (cases "form_plain c")
  case True
  then have "c \<noteq> CHR ''%''" "c \<noteq> CHR ''+''" "(of_char c :: nat) < 128" using form_plain_facts by blast+
  then show ?thesis
    using True decode_plain [of c s] by (simp add: form_encode_char_alt replace_char_def utf8_bytes_def Let_def del: decode_bytes.simps)
next
  case plain: False
  show ?thesis
  proof (cases "c = CHR '' ''")
    case True
    then show ?thesis
      using plain decode_plain [of "CHR '' ''" s]
      by (simp add: form_encode_char_alt replace_char_def utf8_bytes_def Let_def del: decode_bytes.simps)
  next
    case False
    then show ?thesis
      using plain lead_byte [of c]
      by (auto simp: form_encode_char_alt utf8_bytes_def Let_def replace_append percent_plus decode_percent_byte simp del: decode_bytes.simps)
  qed
qed

lemma form_decode_encode: "form_decode (form_part s) = s"
proof -
  have "decode_bytes (replace_char CHR ''+'' CHR '' '' (form_part s)) = concat (map utf8_bytes s)"
  proof (induction s)
    case (Cons c s)
    then show ?case using decode_form_char [of c] by (simp add: form_part_def replace_append del: decode_bytes.simps)
  qed (simp add: form_part_def replace_char_def)
  moreover have "decode_utf8 (concat (map utf8_bytes s)) = s"
    by (induction s) (simp_all add: decode_utf8_bytes)
  ultimately show ?thesis by (simp add: form_decode_def decode_uri_def)
qed

lemma form_char_safe:
  assumes "x \<in> set (form_encode_char c)"
  shows "form_plain x \<or> x = CHR ''%'' \<or> x = CHR ''+''"
proof -
  have "form_plain x \<or> x = CHR ''%''" if "x \<in> set (percent_byte k)" "k < 256" for k
    using that hex_digit_form by (auto simp: percent_byte_def)
  then show ?thesis
    using assms lead_byte [of c] by (auto simp: form_encode_char_alt Let_def split: if_splits)
qed

lemma form_encode_safe: "CHR ''&'' \<notin> set (form_part s)" "CHR ''='' \<notin> set (form_part s)"
  by (auto simp: form_part_def form_plain_def char_class_defs dest!: form_char_safe)

lemma form_read_text: "ps \<noteq> [] \<Longrightarrow> form_read (form_encode ps) = ps"
proof -
  assume ps: "ps \<noteq> []"
  let ?f = "\<lambda>(k, v). form_part k @ CHR ''='' # form_part v"
  have "\<forall>x\<in>set (map ?f ps). CHR ''&'' \<notin> set x" using form_encode_safe(1) by auto
  then have "split_on CHR ''&'' (form_encode ps) = map ?f ps"
    using split_joined [of "map ?f ps" "CHR ''&''"] ps by (simp add: form_encode_alt)
  moreover have "filter (\<lambda>p. p \<noteq> []) (map ?f ps) = map ?f ps" by (auto simp: filter_id_conv)
  moreover have "split_pair (?f p) = p" for p
  proof -
    obtain k v where p: "p = (k, v)" by fastforce
    have "\<And>x. x \<in> set (form_part k) \<Longrightarrow> x \<noteq> CHR ''=''" using form_encode_safe(2) by metis
    then show ?thesis by (simp add: p split_pair_def takeWhile_append2 dropWhile_append2 form_decode_encode)
  qed
  ultimately show ?thesis by (simp add: form_read_def comp_def)
qed

text \<open>
  The link that shares a channel reads back as the channel: its name whatever characters it holds, its key in
  lower case, and its region with one hash before it.
\<close>

theorem shared_channel_reads_back:
  "form_read (link_query (channelShareLink nm k r)) =
     [(''name'', nm), (''secret'', to_lower k)] @ (if truthy_str r then [(''region_scope'', with_hash (the r))] else [])"
  by (simp add: channelShareLink_def link_query_def) (simp add: form_read_text)

lemma shared_contact_link_reads_back:
  "form_read (link_query (contact_link c)) =
     [(''name'', cv_name c), (''public_key'', nullish (cv_pubkey c) []), (''type'', show_nat (contact_type_number c))]"
  by (simp add: contact_link_def link_query_def form_read_text)

section \<open>What is added\<close>

lemma lower_hex: "n < 16 \<Longrightarrow> is_hex (lower_char (hex_digit n))"
proof -
  assume n: "n < 16"
  have "(of_char (lower_char (hex_digit n)) :: nat) = (if n < 10 then 48 + n else 87 + n)"
    using n by (auto simp: lower_char_def hex_digit_def is_upper_def Let_def)
  then show ?thesis using n by (auto simp: is_hex_def is_digit_def)
qed

lemma new_key_valid:
  assumes "length bs = 16" "list_all (\<lambda>b. b < 256) bs"
  shows "key_hex (newKey bs)"
proof -
  have "length (newKey bs) = 2 * length bs" by (induction bs) (simp_all add: newKey_def)
  moreover have "list_all is_hex (newKey bs)"
    using assms(2)
  proof (induction bs)
    case (Cons b bs)
    then have "b div 16 < 16" "b mod 16 < 16" by auto
    with Cons show ?case by (simp add: newKey_def lower_hex)
  qed (simp add: newKey_def)
  ultimately show ?thesis using assms(1) by (simp add: key_hex_def)
qed

text \<open>What the dialog adds has a name that no channel listed has, and a key of sixteen bytes where it has one.\<close>

lemma added_channel_valid:
  assumes "channel_submit existing f = (g, Some (nm, k))"
  shows "nm \<noteq> [] \<and> nm \<notin> set existing \<and> pred_option key_hex k \<and> (k = None \<longleftrightarrow> ac_mode f = HashtagChannel)"
  using assms by (cases "ac_mode f") (auto simp: channel_submit_def channel_can_submit_def nameTaken_def split: if_splits)

section \<open>Answers that come late\<close>

text \<open>
  The key of a channel is not matched with the conversation it was asked for: the share dialog of one channel shows the link and
  the key of another.
\<close>

lemma stale_key_shown:
  assumes "cv_type a = ''channel''" "cv_type b = ''channel''"
  shows "key_shown r (key_answered (Some (nm, k)) (fst (share_turned True b (fst (share_turned False a (fst (share_turned True a s)))))))
    = Some (channelShareLink nm k r)"
  using assms by (simp add: share_turned_def key_answered_def key_shown_def Let_def)

text \<open>
  A failed load leaves the senders of the conversation before on screen, and the button beside one blocks that name in the
  conversation that is open.
\<close>

lemma stale_sender_blocked:
  assumes "x \<in> set (sl_senders s)" "sl_busy s = None"
  shows "snd (sender_pressed x (senders_answered ''participants'' None (senders_turned True b s))) = Some (b, x)"
  using assms by (simp add: senders_answered_def senders_turned_def sender_pressed_def Let_def)

text \<open>Saving a region sends the name the page loaded, so it takes back a renaming made since.\<close>

lemma scope_save_renames: "snd (setChannelScope row scope p) = (cr_id row, cr_name row, scope)"
  by (simp add: setChannelScope_def)

text \<open>The answer to an add closes whatever dialog is open by then, and what was typed in it is lost on the next opening.\<close>

lemma late_add_closes:
  "ac_open (cs_form (channel_posted nm None (p\<lparr>cs_form := channel_opened True prefill f\<rparr>))) = False"
  by (simp add: channel_posted_def channels_reload_def channel_opened_def channels_toast_def)

text \<open>Enter renames where the button is disabled: a name that is not changed is sent, and the page loads again.\<close>

lemma enter_renames_same:
  assumes "trim (re_name s) = current" "current \<noteq> []" "\<not> re_saving s"
  shows "rename_disabled current s" "snd (rename_save s) = Some current"
  using assms by (simp_all add: rename_disabled_def rename_save_def)

section \<open>Blocked senders follow the server\<close>

text \<open>
  While only this dialog changes them, the blocked senders it shows are those of the server: \<open>srv\<close> is the server's set.
\<close>

datatype block_event = UnblockDone string bool

fun block_step :: "block_event \<Rightarrow> sender_list \<times> string set \<Rightarrow> sender_list \<times> string set" where
  "block_step (UnblockDone x ok) (s, srv) = (sender_answered ''Unblocked'' ''Unblock failed'' x ok s, if ok then srv - {x} else srv)"

lemma blocked_follow:
  assumes "set (sl_senders s) = srv"
  shows "set (sl_senders (fst (foldl (\<lambda>p e. block_step e p) (s, srv) es))) = snd (foldl (\<lambda>p e. block_step e p) (s, srv) es)"
  using assms
proof (induction es arbitrary: s srv)
  case (Cons e es)
  obtain x ok where e: "e = UnblockDone x ok" by (cases e)
  have "set (sl_senders (fst (block_step e (s, srv)))) = snd (block_step e (s, srv))"
    using Cons.prems by (auto simp: e sender_answered_def)
  then show ?case using Cons.IH [of "fst (block_step e (s, srv))" "snd (block_step e (s, srv))"] by simp
qed simp
end
