(* ===== verification/MetricViews.thy ===== *)
theory MetricViews
  imports LinkForm ErrEvents Metrics "HOL-Library.Sublist"
begin

text \<open>
  How a node's readings are drawn: the tiles of a card (\<open>components/NodeStatTiles.tsx\<close>), the charts of a series
  (\<open>components/MetricChart.tsx\<close>) and the averages a sensor keeps itself (\<open>components/SeriesPanel.tsx\<close>). Readings are an
  association list by name, as the object's keys are listed.
\<close>

section \<open>Tiles\<close>

type_synonym readings = "(string \<times> rat) list"

definition compactUptime :: "rat \<Rightarrow> string" where
  "compactUptime secs =
     (case uptime_parts secs of (d, h, m) \<Rightarrow>
        if d > 0 then show_int d @ ''d '' @ show_int h @ ''h''
        else if h > 0 then show_int h @ ''h '' @ show_int m @ ''m''
        else show_int m @ ''m'')"

definition fmtLat :: "rat \<Rightarrow> string" where
  "fmtLat v = to_fixed 4 \<bar>v\<bar> @ [glyph_degree] @ (if v \<ge> 0 then ''N'' else ''S'')"

definition fmtLon :: "rat \<Rightarrow> string" where
  "fmtLon v = to_fixed 4 \<bar>v\<bar> @ [glyph_degree] @ (if v \<ge> 0 then ''E'' else ''W'')"

datatype tile_content = Figure string | Flags int | Place string string string

record tile =
  tl_key :: string
  tl_label :: string
  tl_content :: tile_content
  tl_unit :: "string option"
  tl_band :: band
  tl_extra :: "string option"
  tl_wide :: bool
  tl_metric :: "string option"

definition figure :: "string \<Rightarrow> string \<Rightarrow> string \<Rightarrow> string option \<Rightarrow> band \<Rightarrow> string option \<Rightarrow> tile" where
  "figure k l v u b s = \<lparr>tl_key = k, tl_label = l, tl_content = Figure v, tl_unit = u, tl_band = b, tl_extra = None,
     tl_wide = False, tl_metric = s\<rparr>"

definition wide :: "string \<Rightarrow> string \<Rightarrow> tile_content \<Rightarrow> tile" where
  "wide k l c = \<lparr>tl_key = k, tl_label = l, tl_content = c, tl_unit = None, tl_band = NoBand, tl_extra = None,
     tl_wide = True, tl_metric = None\<rparr>"

definition channelOf :: "string \<Rightarrow> nat" where
  "channelOf key = (case ch_suffix key of Some (_, n) \<Rightarrow> parse_digits n | None \<Rightarrow> 0)"

definition key_of_type :: "string \<Rightarrow> string \<Rightarrow> bool" where  \<comment> \<open>\<open>^base(_ch\d+)?$\<close>\<close>
  "key_of_type base k \<longleftrightarrow> k = base \<or> (case ch_suffix k of Some (b, _) \<Rightarrow> b = base | None \<Rightarrow> False)"

definition nat_order :: "('a \<Rightarrow> nat) \<Rightarrow> 'a \<Rightarrow> 'a \<Rightarrow> rat" where
  "nat_order f a b = of_nat (f a) - of_nat (f b)"

definition metricKeysOfType :: "readings \<Rightarrow> string \<Rightarrow> string list" where
  "metricKeysOfType m base = js_sort (nat_order channelOf) (filter (key_of_type base) (map fst m))"

definition hop_number :: "string \<Rightarrow> nat" where
  "hop_number k = parse_digits (drop 7 k)"

definition hopSNRKeys :: "readings \<Rightarrow> string list" where
  "hopSNRKeys m = js_sort (nat_order hop_number) (filter is_snr_hop (map fst m))"

definition batt_mv :: "readings \<Rightarrow> rat option" where
  "batt_mv m = (case map_of m ''battery_mv'' of
     Some v \<Rightarrow> Some v | None \<Rightarrow> map_option (\<lambda>v. v * 1000) (map_of m ''battery''))"

definition battery_tile :: "readings \<Rightarrow> tile list" where
  "battery_tile m = (case batt_mv m of None \<Rightarrow> [] | Some mv \<Rightarrow>
     [(figure ''battery'' ''Battery'' (show_int (batteryPercent mv)) (Some ''%'') (batteryBand mv)
        (Some (if map_of m ''battery_mv'' \<noteq> None then ''battery_mv'' else ''battery'')))
      \<lparr>tl_extra := Some (to_fixed 2 (mv / 1000) @ '' V'')\<rparr>])"

definition when_read :: "readings \<Rightarrow> string \<Rightarrow> (rat \<Rightarrow> tile) \<Rightarrow> tile list" where
  "when_read m k f = (case map_of m k of Some v \<Rightarrow> [f v] | None \<Rightarrow> [])"

definition radio_tiles :: "readings \<Rightarrow> tile list" where
  "radio_tiles m =
     when_read m ''last_rssi'' (\<lambda>v. figure ''rssi'' ''RSSI'' (show_int (js_round v)) (Some ''dBm'') (rssiBand v) (Some ''last_rssi''))
     @ when_read m ''last_snr'' (\<lambda>v. figure ''snr'' ''SNR'' (to_fixed 1 v) (Some ''dB'') (snrBand v) (Some ''last_snr''))"

definition hop_tile :: "readings \<Rightarrow> (int \<Rightarrow> string) option \<Rightarrow> string \<Rightarrow> tile" where
  "hop_tile m hopLabel k = (let v = the (map_of m k) in
     figure k (case hopLabel of Some f \<Rightarrow> f (int (hop_number k)) | None \<Rightarrow> md_label (metricDef k))
       (to_fixed 1 v) (Some ''dB'') (snrBand v) (Some k))"

definition link_tiles :: "readings \<Rightarrow> (int \<Rightarrow> string) option \<Rightarrow> tile list" where
  "link_tiles m hopLabel =
     when_read m ''success'' (\<lambda>v. figure ''success'' ''Delivery'' (if v \<ge> 1 then ''OK'' else ''LOST'') None
       (if v \<ge> 1 then Good else Bad) (Some ''success''))
     @ map (hop_tile m hopLabel) (hopSNRKeys m)
     @ when_read m ''elapsed_ms'' (\<lambda>v. figure ''elapsed_ms'' ''RTT'' (show_int (js_round v)) (Some ''ms'') NoBand (Some ''elapsed_ms''))"

definition reading_tiles :: "readings \<Rightarrow> tile list" where
  "reading_tiles m =
     when_read m ''noise_floor'' (\<lambda>v. figure ''noise'' ''Noise floor'' (show_int (js_round v)) (Some ''dBm'') NoBand (Some ''noise_floor''))
     @ when_read m ''uptime'' (\<lambda>v. figure ''uptime'' ''Uptime'' (compactUptime v) None NoBand None)
     @ when_read m ''neighbor_count'' (\<lambda>v. figure ''neighbors'' ''Neighbors'' (show_int (js_round v)) None NoBand None)
     @ when_read m ''chan_util'' (\<lambda>v. figure ''util'' ''Chan util'' (to_fixed 1 v) (Some ''%'') NoBand (Some ''chan_util''))
     @ (case map_of m ''err_events'' of
          Some v \<Rightarrow> if v > 0 then [wide ''err_events'' ''Errors'' (Flags \<lfloor>v\<rfloor>)] else [] | None \<Rightarrow> [])"

definition temp_key :: "readings \<Rightarrow> string option" where
  "temp_key m = (case metricKeysOfType m ''temperature'' of
     k # _ \<Rightarrow> Some k | [] \<Rightarrow> if map_of m ''mcu_temperature'' \<noteq> None then Some ''mcu_temperature'' else None)"

definition sensor_tiles :: "readings \<Rightarrow> tile list" where
  "sensor_tiles m =
     (case temp_key m of None \<Rightarrow> [] | Some k \<Rightarrow>
        [figure ''temp'' (if k = ''mcu_temperature'' then ''MCU temp'' else ''Temp'') (to_fixed 1 (the (map_of m k)))
           (Some (glyph_degree # ''C'')) NoBand (Some k)])
     @ (case metricKeysOfType m ''humidity'' of [] \<Rightarrow> [] | k # _ \<Rightarrow>
        [figure ''humidity'' ''Humidity'' (to_fixed 1 (the (map_of m k))) (Some ''%'') NoBand (Some k)])
     @ (case (map_of m ''location_lat'', map_of m ''location_lon'') of
          (Some la, Some lo) \<Rightarrow> [wide ''location'' ''Location'' (Place (fmtLat la) (fmtLon lo)
            (case map_of m ''location_alt'' of Some a \<Rightarrow> to_fixed 0 a @ '' m'' | None \<Rightarrow> ''view on map''))]
        | _ \<Rightarrow> [])"

definition nodeTiles :: "readings \<Rightarrow> (int \<Rightarrow> string) option \<Rightarrow> tile list" where
  "nodeTiles m hopLabel = battery_tile m @ radio_tiles m @ link_tiles m hopLabel @ reading_tiles m @ sensor_tiles m"

definition sparklineMetricKeys :: "readings \<Rightarrow> string list" where
  "sparklineMetricKeys m = filter (\<lambda>k. k \<noteq> []) (List.map_filter tl_metric (nodeTiles m None))"

section \<open>Charts\<close>

record point =
  pt_ts :: int
  pt_value :: rat

fun toDeltas :: "point list \<Rightarrow> point list" where
  "toDeltas (a # b # ps) =
     (let d = pt_value b - pt_value a in \<lparr>pt_ts = pt_ts b, pt_value = (if d > 0 then d else 0)\<rparr> # toDeltas (b # ps))"
| "toDeltas _ = []"

definition yTickFormatter :: "rat \<Rightarrow> string" where
  "yTickFormatter v =
     (if \<bar>v\<bar> \<ge> 10000 then to_fixed 0 (v / 1000) @ ''k''
      else if v = of_int \<lfloor>v\<rfloor> then show_int \<lfloor>v\<rfloor>
      else to_fixed (if \<bar>v\<bar> < 10 then 1 else 0) v)"

abbreviation glyph_delta :: char where "glyph_delta \<equiv> CHR 0x87"  \<comment> \<open>U+0394\<close>

datatype tick_style = TickTime | TickDay | TickMonth

definition xTickFormatter :: "(tick_style \<Rightarrow> int \<Rightarrow> string) \<Rightarrow> int \<Rightarrow> int \<Rightarrow> string" where
  "xTickFormatter date spanSecs ts =
     date (if spanSecs \<le> 86400 then TickTime else if spanSecs \<le> 30 * 86400 then TickDay else TickMonth) (ts * 1000)"

datatype chart_body =
    NoChart string                   \<comment> \<open>the text in place of the chart\<close>
  | Bars "point list"
  | Area "point list" bool           \<comment> \<open>with a dot at each point\<close>

record chart_view =
  cv_label :: string
  cv_suffix :: "string option"
  cv_latest :: string
  cv_zero :: bool                    \<comment> \<open>the axis starts at zero\<close>
  cv_body :: chart_body

definition is_counter :: "string \<Rightarrow> bool" where
  "is_counter metric \<longleftrightarrow> md_kind (metricDef metric) = Counter"

definition chart_data :: "string \<Rightarrow> point list \<Rightarrow> point list" where
  "chart_data metric data = (if is_counter metric then toDeltas data else data)"

definition MetricChart :: "(int \<Rightarrow> string) \<Rightarrow> string \<Rightarrow> point list \<Rightarrow> string option \<Rightarrow> chart_view" where
  "MetricChart loc metric data label =
     (let shown_data = chart_data metric data in
      \<lparr>cv_label = nullish label (metricLabel metric),
       cv_suffix = (if is_counter metric then Some ''rate''
         else case md_unit (metricDef metric) of Some u \<Rightarrow> if u = [] then None else Some u | None \<Rightarrow> None),
       cv_latest = (if data = [] then [glyph_dash] else formatMetric loc metric (pt_value (last data))),
       cv_zero = is_counter metric,
       cv_body = (if shown_data = [] then NoChart (if is_counter metric \<and> data \<noteq> [] then ''awaiting samples'' else ''no data'')
         else if is_counter metric then Bars shown_data else Area shown_data (length shown_data \<le> 12))\<rparr>)"

definition chart_tooltip :: "(int \<Rightarrow> string) \<Rightarrow> string \<Rightarrow> string option \<Rightarrow> rat \<Rightarrow> string \<times> string" where
  "chart_tooltip loc metric label v =
     (let l = nullish label (metricLabel metric) in
      if is_counter metric then (CHR ''+'' # formatMetric loc metric v, l @ '' '' @ [glyph_middot] @ '' '' @ [glyph_delta])
      else (formatMetric loc metric v, l))"

definition spark_bounds :: "point list \<Rightarrow> rat \<times> rat" where
  "spark_bounds data =
     (let lo = Min (set (map pt_value data)); hi = Max (set (map pt_value data));
          pad = (if (hi - lo) * (15 / 100) \<noteq> 0 then (hi - lo) * (15 / 100) else max (\<bar>hi\<bar> * (1 / 100)) (1 / 2))
      in (lo - pad, hi + pad))"

definition Sparkline :: "point list \<Rightarrow> (rat \<times> rat) option" where  \<comment> \<open>its axis; too short a series draws nothing\<close>
  "Sparkline data = (if length data < 2 then None else Some (spark_bounds data))"

definition tile_spark :: "(string \<Rightarrow> point list option) option \<Rightarrow> tile \<Rightarrow> point list option" where
  "tile_spark history t =
     (case (tl_metric t, history) of
        (Some k, Some h) \<Rightarrow>
          (case h k of Some s \<Rightarrow> if k \<noteq> [] \<and> length s \<ge> 2 then Some s else None | None \<Rightarrow> None)
      | _ \<Rightarrow> None)"

definition NodeStatGrid :: "readings \<Rightarrow> (string \<Rightarrow> point list option) option \<Rightarrow> (int \<Rightarrow> string) option
    \<Rightarrow> (tile \<times> point list option) list option" where  \<comment> \<open>none: no reading yet\<close>
  "NodeStatGrid m history hopLabel =
     (let ts = nodeTiles m hopLabel in
      if ts = [] then None else Some (map (\<lambda>t. (t, tile_spark history t)) ts))"

section \<open>A sensor's own averages\<close>

record series_entry =
  se_channel :: nat
  se_type :: nat
  se_name :: string
  se_unit :: "string option"
  se_min :: rat
  se_max :: rat
  se_avg :: rat

record series =
  sr_nodeTime :: int
  sr_entries :: "series_entry list"

definition WINDOWS :: "(string \<times> nat) list" where
  "WINDOWS = [(''1h'', 3600), (''6h'', 6 * 3600), (''24h'', 86400), (''7d'', 7 * 86400)]"

record series_panel =
  sq_win :: "string \<times> nat"
  sq_data :: "series option"
  sq_loading :: bool
  sq_err :: "string option"

definition series_start :: series_panel where
  "series_start = \<lparr>sq_win = WINDOWS ! 2, sq_data = None, sq_loading = False, sq_err = None\<rparr>"

definition request_series :: "string \<Rightarrow> string \<times> nat \<Rightarrow> series_panel \<Rightarrow> series_panel \<times> string" where
  "request_series apiBase w p =
     (p\<lparr>sq_loading := True, sq_err := None\<rparr>, apiBase @ ''/history?from='' @ show_nat (snd w) @ ''&to=0'')"

definition series_answered :: "string + series \<Rightarrow> series_panel \<Rightarrow> series_panel" where
  "series_answered answer p =
     (case answer of
        Inl e \<Rightarrow> p\<lparr>sq_err := Some e, sq_loading := False\<rparr>
      | Inr s \<Rightarrow> p\<lparr>sq_data := Some s, sq_loading := False\<rparr>)"

definition window_chosen :: "string \<Rightarrow> string \<times> nat \<Rightarrow> series_panel \<Rightarrow> series_panel \<times> string option" where
  "window_chosen apiBase w p =
     (if sq_loading p then (p, None)
      else (let q = p\<lparr>sq_win := w\<rparr> in
        if sq_data q \<noteq> None then (case request_series apiBase w q of (r, u) \<Rightarrow> (r, Some u)) else (q, None)))"

definition series_asked :: "string \<Rightarrow> series_panel \<Rightarrow> series_panel \<times> string option" where
  "series_asked apiBase p =
     (if sq_loading p then (p, None) else (case request_series apiBase (sq_win p) p of (r, u) \<Rightarrow> (r, Some u)))"

definition series_empty :: "series_panel \<Rightarrow> string option" where
  "series_empty p = (case sq_data p of
     Some s \<Rightarrow> if sr_entries s = [] then Some (''no readings in the last '' @ fst (sq_win p)) else None | None \<Rightarrow> None)"

definition series_fmt :: "rat \<Rightarrow> string" where
  "series_fmt v = to_fixed (if \<bar>v\<bar> \<ge> 100 then 0 else if \<bar>v\<bar> \<ge> 10 then 1 else 2) v"

definition series_pct :: "series_entry \<Rightarrow> rat" where
  "series_pct e = (let span = se_max e - se_min e in
     if span > 0 then (se_avg e - se_min e) / span * 100 else 50)"

definition SeriesTile :: "series_entry \<Rightarrow> string list \<times> rat" where
  "SeriesTile e = ([se_name e, ''ch'' @ show_nat (se_channel e), series_fmt (se_avg e), nullish (se_unit e) [],
     ''min '' @ series_fmt (se_min e), ''max '' @ series_fmt (se_max e)], series_pct e)"

section \<open>Properties\<close>

subsection \<open>Tiles\<close>

lemma subseq_distinct: "subseq xs ys \<Longrightarrow> distinct ys \<Longrightarrow> distinct xs"
  using subseqs_distinctD [of xs ys] by simp

lemma subseq_in: "subseq xs ys \<Longrightarrow> k \<in> set xs \<Longrightarrow> k \<in> set ys"
  by (auto elim: list_emb_set)

lemma fixed_no_hop: "list_all (\<lambda>k. \<not> is_snr_hop k) [''battery'', ''rssi'', ''snr'', ''success'', ''elapsed_ms'',
    ''noise'', ''uptime'', ''neighbors'', ''util'', ''err_events'', ''temp'', ''humidity'', ''location'']"
  by code_simp

lemma when_read_keys [intro]: "(\<And>v. tl_key (f v) = k) \<Longrightarrow> subseq (map tl_key (when_read m x f)) [k]"
  by (auto simp: when_read_def split: option.splits)

lemma keys_below: "subseq (map tl_key xs) [k] \<Longrightarrow> subseq (map tl_key ys) ks \<Longrightarrow> subseq (map tl_key (xs @ ys)) (k # ks)"
  using list_emb_append_mono [of "(=)" "map tl_key xs" "[k]" "map tl_key ys" ks] by simp

lemma link_keys_split: "\<exists>a b. map tl_key (link_tiles m h) = a @ hopSNRKeys m @ b
    \<and> subseq a [''success''] \<and> subseq b [''elapsed_ms'']"
proof -
  have "map tl_key (map (hop_tile m h) ks) = ks" for ks
    by (induction ks) (auto simp: hop_tile_def figure_def Let_def)
  then show ?thesis
    unfolding link_tiles_def map_append by (metis (no_types, lifting) figure_def tile.select_convs(1) when_read_keys)
qed

lemma top_keys: "subseq (map tl_key (battery_tile m @ radio_tiles m)) [''battery'', ''rssi'', ''snr'']"
  unfolding radio_tiles_def
  by (intro keys_below when_read_keys) (auto simp: battery_tile_def figure_def split: option.splits)

lemma bottom_keys: "subseq (map tl_key (reading_tiles m @ sensor_tiles m))
    [''noise'', ''uptime'', ''neighbors'', ''util'', ''err_events'', ''temp'', ''humidity'', ''location'']"
  unfolding reading_tiles_def sensor_tiles_def append_assoc
  by (intro keys_below when_read_keys) (auto simp: figure_def wide_def split: option.splits list.splits)

lemma hop_keys_set [simp]: "set (hopSNRKeys m) = {k \<in> fst ` set m. is_snr_hop k}"
  by (auto simp: hopSNRKeys_def)

lemma type_keys_read: "k \<in> set (metricKeysOfType m b) \<Longrightarrow> k \<in> fst ` set m"
  by (auto simp: metricKeysOfType_def)

text \<open>No two tiles of a card share their key, whatever readings a node reports: a temperature of several
  channels gives one tile, and a link gives one tile for each of its hops.\<close>
theorem tile_keys_distinct:
  assumes "distinct (map fst m)"
  shows "distinct (map tl_key (nodeTiles m h))"
proof -
  obtain a b where ab: "map tl_key (link_tiles m h) = a @ hopSNRKeys m @ b" "subseq a [''success'']" "subseq b [''elapsed_ms'']"
    using link_keys_split by blast
  let ?t = "map tl_key (battery_tile m @ radio_tiles m)" and ?u = "map tl_key (reading_tiles m @ sensor_tiles m)"
  have whole: "map tl_key (nodeTiles m h) = (?t @ a) @ hopSNRKeys m @ (b @ ?u)"
    by (simp add: nodeTiles_def ab(1))
  have "subseq ((?t @ a) @ (b @ ?u)) (([''battery'', ''rssi'', ''snr''] @ [''success'']) @ ([''elapsed_ms''] @
      [''noise'', ''uptime'', ''neighbors'', ''util'', ''err_events'', ''temp'', ''humidity'', ''location'']))"
    by (intro list_emb_append_mono top_keys bottom_keys ab)
  note fit = this
  have rest: "distinct ((?t @ a) @ (b @ ?u))" by (rule subseq_distinct [OF fit]) simp
  have fixed: "\<not> is_snr_hop k" if "k \<in> set ((?t @ a) @ (b @ ?u))" for k
    using subseq_in [OF fit that] fixed_no_hop unfolding list_all_iff append.simps by blast
  have "distinct (hopSNRKeys m)"
    using assms distinct_map_js_sort [of "id :: string \<Rightarrow> string"] by (simp add: hopSNRKeys_def)
  with rest fixed show ?thesis unfolding whole by (simp only: distinct_append set_append hop_keys_set) blast
qed

theorem tile_keys_distinct_witness:
  "distinct (map tl_key (nodeTiles [(''snr_hop1'', 1), (''temperature_ch1'', 20), (''temperature_ch2'', 21)] None))"
  by (rule tile_keys_distinct) simp

text \<open>The overview fetches a history only for readings the node has.\<close>

lemma read_key [dest]: "map_of m k = Some v \<Longrightarrow> k \<in> fst ` set m"
  by (force dest: map_of_SomeD)

lemma figure_metric [simp]: "tl_metric (figure k l v u b s) = s" "tl_metric (wide k l c) = None"
  by (simp_all add: figure_def wide_def)

definition reads_only :: "readings \<Rightarrow> tile list \<Rightarrow> bool" where
  "reads_only m ts \<longleftrightarrow> (\<forall>t \<in> set ts. \<forall>k. tl_metric t = Some k \<longrightarrow> k \<in> fst ` set m)"

lemma reads_only_simps [simp]:
  "reads_only m []" "reads_only m (xs @ ys) \<longleftrightarrow> reads_only m xs \<and> reads_only m ys"
  "reads_only m (t # ts) \<longleftrightarrow> (\<forall>k. tl_metric t = Some k \<longrightarrow> k \<in> fst ` set m) \<and> reads_only m ts"
  by (auto simp: reads_only_def)

lemma reads_when [intro!]: "(\<And>v. tl_metric (f v) = None \<or> tl_metric (f v) = Some x) \<Longrightarrow> reads_only m (when_read m x f)"
  by (auto simp: when_read_def split: option.splits) (metis option.distinct(1) option.inject read_key)

lemma reads_battery: "reads_only m (battery_tile m)"
  by (auto simp: battery_tile_def batt_mv_def split: option.splits)

lemma reads_link: "reads_only m (link_tiles m h)"
  unfolding link_tiles_def reads_only_simps
  by (intro conjI reads_when) (auto simp: reads_only_def hop_tile_def Let_def)

lemma reads_first_key: "metricKeysOfType m b = k # ks \<Longrightarrow> k \<in> fst ` set m"
  using type_keys_read [of k m b] by simp

lemma reads_sensor: "reads_only m (sensor_tiles m)"
  by (auto simp: sensor_tiles_def temp_key_def reads_first_key split: option.splits list.splits if_splits)

lemma reads_rest: "reads_only m (radio_tiles m)" "reads_only m (reading_tiles m)"
  unfolding radio_tiles_def reading_tiles_def reads_only_simps
  by (intro conjI reads_when; simp split: option.splits)+

lemma sparklines_read: "set (sparklineMetricKeys m) \<subseteq> fst ` set m"
proof -
  have "reads_only m (nodeTiles m None)"
    by (simp add: nodeTiles_def reads_battery reads_rest reads_link reads_sensor)
  then show ?thesis by (fastforce simp: sparklineMetricKeys_def reads_only_def List.map_filter_def)
qed

subsection \<open>Charts\<close>

lemma length_deltas: "length (toDeltas ps) = length ps - 1"
  by (induction ps rule: toDeltas.induct) (auto simp: Let_def)

lemma deltas_positive: "p \<in> set (toDeltas ps) \<Longrightarrow> 0 \<le> pt_value p"
  by (induction ps rule: toDeltas.induct) (auto simp: Let_def split: if_splits)

lemma deltas_times: "map pt_ts (toDeltas ps) = tl (map pt_ts ps)"
  by (induction ps rule: toDeltas.induct) (auto simp: Let_def)

lemma deltas_sum_bound: "pt_value (last (p # ps)) \<le> pt_value p + sum_list (map pt_value (toDeltas (p # ps)))"
  by (induction ps arbitrary: p) (fastforce simp: Let_def)+

lemma deltas_sum_rising:
  "sorted (map pt_value (p # ps)) \<Longrightarrow> pt_value p + sum_list (map pt_value (toDeltas (p # ps))) = pt_value (last (p # ps))"
  by (induction ps arbitrary: p) (fastforce simp: Let_def)+

text \<open>The bars of a counter: one for each sample after the first, at its time, never negative, and together at
  least what the counter grew by. Where the counter was never reset they add up to exactly that.\<close>
theorem counter_bars:
  "length (toDeltas ps) = length ps - 1 \<and> map pt_ts (toDeltas ps) = tl (map pt_ts ps)
    \<and> list_all (\<lambda>p. 0 \<le> pt_value p) (toDeltas ps)
    \<and> (ps = [] \<or> pt_value (last ps) - pt_value (hd ps) \<le> sum_list (map pt_value (toDeltas ps)))
    \<and> (if ps \<noteq> [] \<and> sorted (map pt_value ps)
       then sum_list (map pt_value (toDeltas ps)) = pt_value (last ps) - pt_value (hd ps) else True)"
proof (cases ps)
  case (Cons p qs)
  then show ?thesis
    using deltas_sum_bound [of p qs] deltas_sum_rising [of p qs]
    by (auto simp: length_deltas deltas_times list_all_iff deltas_positive)
qed simp

lemma spark_bounds_strict:
  assumes "p \<in> set data"
  shows "fst (spark_bounds data) < pt_value p \<and> pt_value p < snd (spark_bounds data)"
proof -
  let ?lo = "Min (set (map pt_value data))" and ?hi = "Max (set (map pt_value data))"
  have "?lo \<le> pt_value p" "pt_value p \<le> ?hi" using assms by auto
  moreover have "0 < (if (?hi - ?lo) * (15 / 100) \<noteq> 0 then (?hi - ?lo) * (15 / 100) else max (\<bar>?hi\<bar> * (1 / 100)) (1 / 2 :: rat))"
    using calculation by (auto simp: less_max_iff_disj)
  ultimately show ?thesis unfolding spark_bounds_def Let_def fst_conv snd_conv by linarith
qed

lemma series_pct_inside:
  "se_min e \<le> se_avg e \<Longrightarrow> se_avg e \<le> se_max e \<Longrightarrow> 0 \<le> series_pct e \<and> series_pct e \<le> 100"
  by (auto simp: series_pct_def Let_def field_simps)

text \<open>What a drawing of numbers keeps: each value of a trend lies strictly inside the axis that is drawn for it, and
  the mark of a sensor's average lies on its bar whenever the average is between the least and the greatest.\<close>
theorem drawn_inside:
  "list_all (\<lambda>p. fst (spark_bounds data) < pt_value p \<and> pt_value p < snd (spark_bounds data)) data
    \<and> (if se_min e \<le> se_avg e \<and> se_avg e \<le> se_max e then 0 \<le> series_pct e \<and> series_pct e \<le> 100 else True)"
  using spark_bounds_strict [of _ data] series_pct_inside [of e] by (auto simp: list_all_iff)

text \<open>A window that fails to load leaves the answer for the one before, under the new window's name: here six hours
  without a reading are called seven days without one.\<close>

definition empty_series :: series where "empty_series = \<lparr>sr_nodeTime = 0, sr_entries = []\<rparr>"

lemma failed_window_named:
  "series_empty (series_answered (Inl ''Timed out'') (fst (window_chosen [] (''7d'', 7 * 86400)
     (series_answered (Inr empty_series) (fst (window_chosen [] (''6h'', 6 * 3600) series_start))))))
   = Some ''no readings in the last 7d''"
  by (simp add: series_empty_def series_answered_def window_chosen_def request_series_def series_start_def empty_series_def)

end
