(* ===== verification/MonitorView.thy ===== *)
theory MonitorView
  imports MetricViews LinkPath
begin

text \<open>
  The pages of the monitored nodes: the overview with a card for each (\<open>pages/MonitoringPage.tsx\<close>) and one node's charts
  (\<open>pages/MonitoringDetailPage.tsx\<close>). Both follow the live \<open>metrics\<close> messages: a poll's answer, or a node's own push, which
  proves the node alive but is no poll. Times are in seconds; \<open>cmp\<close> is \<open>localeCompare\<close>.
\<close>

section \<open>The overview\<close>

record monitored =
  mn_pubkey :: string
  mn_kind :: string
  mn_name :: string
  mn_lastPollTs :: int
  mn_lastOkTs :: int
  mn_lastError :: string              \<comment> \<open>empty when it is left out\<close>
  mn_metrics :: readings

record card_node = monitored +
  cn_intervalSecs :: rat

record ws_metrics =
  wm_pubkey :: string
  wm_companionId :: string
  wm_kind :: string
  wm_name :: string
  wm_ts :: int
  wm_metrics :: readings
  wm_pushed :: bool

definition spread :: "readings \<Rightarrow> readings \<Rightarrow> readings" where  \<comment> \<open>\<open>{ ...old, ...new }\<close>\<close>
  "spread old new = foldl (\<lambda>m (k, v). AList.update k v m) old new"

definition staleThreshold :: "rat \<Rightarrow> rat" where
  "staleThreshold intervalSecs = (if intervalSecs \<le> 0 then 0 else intervalSecs + max (intervalSecs * (1 / 4)) 300)"

definition SPARK_SPAN_SECS :: int where "SPARK_SPAN_SECS = 24 * 3600"
definition SPARK_BUCKET_SECS :: nat where "SPARK_BUCKET_SECS = 900"

record monitor_link = link_info +
  ml_path :: string
  ml_pathHashSize :: int

type_synonym node_history = "string \<Rightarrow> point list option"

record overview =
  ov_nodes :: "card_node list"
  ov_history :: "string \<Rightarrow> node_history option"
  ov_loading :: bool
  ov_links :: "monitor_link list"
  ov_peers :: "path_peer list"

definition overview_start :: overview where
  "overview_start = \<lparr>ov_nodes = [], ov_history = (\<lambda>_. None), ov_loading = True, ov_links = [], ov_peers = []\<rparr>"

definition history_url :: "string \<Rightarrow> string \<Rightarrow> int \<Rightarrow> int \<Rightarrow> nat \<Rightarrow> string" where
  "history_url pubkey metric from to bucket =
     ''/api/nodes/'' @ pubkey @ ''/history?metric='' @ encode_uri metric @ ''&from='' @ show_int from
       @ ''&to='' @ show_int to @ ''&bucket='' @ show_nat bucket"

definition loadHistories :: "int \<Rightarrow> card_node list \<Rightarrow> string list" where  \<comment> \<open>the requests\<close>
  "loadHistories now nodes = concat (map (\<lambda>n. map (\<lambda>metric.
     history_url (mn_pubkey n) metric (now - SPARK_SPAN_SECS) now SPARK_BUCKET_SECS) (sparklineMetricKeys (mn_metrics n))) nodes)"

type_synonym history_row = "string \<times> string \<times> point list"  \<comment> \<open>empty when the request failed\<close>

definition put_row :: "(string \<Rightarrow> node_history option) \<Rightarrow> history_row \<Rightarrow> string \<Rightarrow> node_history option" where
  "put_row h row = (case row of (pubkey, metric, pts) \<Rightarrow> h(pubkey \<mapsto> (nullish (h pubkey) (\<lambda>_. None))(metric \<mapsto> pts)))"

definition histories_answered :: "history_row list \<Rightarrow> overview \<Rightarrow> overview" where
  "histories_answered rows v = v\<lparr>ov_history := foldl put_row (\<lambda>_. None) rows\<rparr>"

definition nodes_answered :: "int \<Rightarrow> card_node list option \<Rightarrow> overview \<Rightarrow> overview \<times> string list" where
  \<comment> \<open>none when the request failed; a refusal is the empty list. With the requests that follow\<close>
  "nodes_answered now answer v =
     (case answer of
        None \<Rightarrow> (v\<lparr>ov_nodes := [], ov_loading := False\<rparr>, [])
      | Some ns \<Rightarrow> (v\<lparr>ov_nodes := ns, ov_loading := False\<rparr>, loadHistories now ns))"

definition merge_node :: "ws_metrics \<Rightarrow> card_node option \<Rightarrow> card_node" where
  "merge_node m old =
     \<lparr>mn_pubkey = wm_pubkey m, mn_kind = wm_kind m,
      mn_name = or_str (wm_name m) (case old of Some n \<Rightarrow> mn_name n | None \<Rightarrow> []),
      mn_lastPollTs = (case old of Some n \<Rightarrow> if wm_pushed m then mn_lastPollTs n else wm_ts m | None \<Rightarrow> wm_ts m),
      mn_lastOkTs = wm_ts m,
      mn_lastError = (case old of Some n \<Rightarrow> if wm_pushed m then mn_lastError n else [] | None \<Rightarrow> []),
      mn_metrics = spread (case old of Some n \<Rightarrow> mn_metrics n | None \<Rightarrow> []) (wm_metrics m),
      cn_intervalSecs = (case old of Some n \<Rightarrow> cn_intervalSecs n | None \<Rightarrow> 0)\<rparr>"

definition metrics_nodes :: "ws_metrics \<Rightarrow> card_node list \<Rightarrow> card_node list" where
  "metrics_nodes m nodes =
     (case index_where (\<lambda>n. mn_pubkey n = wm_pubkey m) nodes of
        Some i \<Rightarrow> nodes[i := merge_node m (Some (nodes ! i))]
      | None \<Rightarrow> nodes @ [merge_node m None])"

definition extend_series :: "int \<Rightarrow> rat \<Rightarrow> point list \<Rightarrow> point list option" where  \<comment> \<open>none: nothing to add\<close>
  "extend_series ts v s = (if s \<noteq> [] \<and> pt_ts (last s) = ts then None else Some (s @ [\<lparr>pt_ts = ts, pt_value = v\<rparr>]))"

definition extend_metric :: "ws_metrics \<Rightarrow> node_history \<Rightarrow> string \<Rightarrow> node_history" where
  "extend_metric m h metric =
     (case map_of (wm_metrics m) metric of None \<Rightarrow> h | Some v \<Rightarrow>
        (case extend_series (wm_ts m) v (nullish (h metric) []) of None \<Rightarrow> h | Some s \<Rightarrow> h(metric \<mapsto> s)))"

definition metrics_history :: "ws_metrics \<Rightarrow> (string \<Rightarrow> node_history option) \<Rightarrow> string \<Rightarrow> node_history option" where
  "metrics_history m prev =
     (let h = nullish (prev (wm_pubkey m)) (\<lambda>_. None); keys = sparklineMetricKeys (wm_metrics m);
          adds = (\<lambda>k. case map_of (wm_metrics m) k of None \<Rightarrow> False
                   | Some v \<Rightarrow> extend_series (wm_ts m) v (nullish (h k) []) \<noteq> None) in
      if list_ex adds keys then prev(wm_pubkey m \<mapsto> foldl (extend_metric m) h keys) else prev)"

definition metrics_message :: "ws_metrics \<Rightarrow> overview \<Rightarrow> overview" where
  "metrics_message m v = v\<lparr>ov_nodes := metrics_nodes m (ov_nodes v), ov_history := metrics_history m (ov_history v)\<rparr>"

definition by_label :: "(string \<Rightarrow> string \<Rightarrow> rat) \<Rightarrow> card_node \<Rightarrow> card_node \<Rightarrow> rat" where
  "by_label cmp a b = cmp (or_str (mn_name a) (mn_pubkey a)) (or_str (mn_name b) (mn_pubkey b))"

definition sortedNodes :: "(string \<Rightarrow> string \<Rightarrow> rat) \<Rightarrow> overview \<Rightarrow> card_node list" where
  "sortedNodes cmp v = js_sort (by_label cmp) (ov_nodes v)"

record link_display =
  ld_hopLabel :: "int \<Rightarrow> string"
  ld_ignoreFirstHop :: bool
  ld_hideLastSnr :: bool

definition hop_labels :: "monitor_link \<Rightarrow> path_peer list \<Rightarrow> int \<Rightarrow> string" where
  "hop_labels l peers = hopDirectionLabel (ml_path l) (ml_pathHashSize l) peers ''you''"

definition link_of :: "string \<Rightarrow> monitor_link list \<Rightarrow> monitor_link option" where  \<comment> \<open>the last of a key in the \<open>Map\<close>\<close>
  "link_of pubkey links = find (\<lambda>l. to_lower (li_key l) = to_lower pubkey) (rev links)"

definition display_of :: "overview \<Rightarrow> card_node \<Rightarrow> link_display option" where
  "display_of v n =
     (if mn_kind n \<noteq> ''link'' then None
      else map_option (\<lambda>l. \<lparr>ld_hopLabel = hop_labels l (ov_peers v), ld_ignoreFirstHop = li_ignoreFirstHop l,
        ld_hideLastSnr = li_hideLastSnr l\<rparr>) (link_of (mn_pubkey n) (ov_links v)))"

definition links_loaded :: "monitor_link list option \<Rightarrow> overview \<Rightarrow> overview" where
  "links_loaded answer v = (case answer of Some ls \<Rightarrow> v\<lparr>ov_links := ls\<rparr> | None \<Rightarrow> v)"

definition peers_loaded :: "path_peer list option \<Rightarrow> overview \<Rightarrow> overview" where
  "peers_loaded answer v = (case answer of Some ps \<Rightarrow> v\<lparr>ov_peers := ps\<rparr> | None \<Rightarrow> v)"

datatype card_dot = DotPending | DotFailed | DotStale | DotLive

definition age_of :: "int \<Rightarrow> card_node \<Rightarrow> int" where
  "age_of now n = (if mn_lastOkTs n \<noteq> 0 then now - mn_lastOkTs n else - 1)"

definition is_pending :: "card_node \<Rightarrow> bool" where
  "is_pending n \<longleftrightarrow> mn_lastPollTs n = 0"

definition is_errored :: "card_node \<Rightarrow> bool" where
  "is_errored n \<longleftrightarrow> mn_lastError n \<noteq> [] \<and> mn_lastOkTs n = 0"

definition is_stale :: "int \<Rightarrow> card_node \<Rightarrow> bool" where
  "is_stale now n \<longleftrightarrow> (let threshold = staleThreshold (cn_intervalSecs n) in
     threshold > 0 \<and> age_of now n \<ge> 0 \<and> of_int (age_of now n) > threshold)"

definition card_dot_of :: "int \<Rightarrow> card_node \<Rightarrow> card_dot" where
  "card_dot_of now n =
     (if is_pending n then DotPending else if is_errored n then DotFailed else if is_stale now n then DotStale else DotLive)"

record card_view =
  kv_label :: string
  kv_sub :: string
  kv_dot :: card_dot
  kv_error :: "string option"
  kv_grid :: "(tile \<times> point list option) list option"
  kv_footer :: string
  kv_warned :: bool

definition card_label :: "card_node \<Rightarrow> string" where
  "card_label n = or_str (mn_name n) (take 12 (mn_pubkey n))"

definition card_grid :: "overview \<Rightarrow> card_node \<Rightarrow> (tile \<times> point list option) list option" where
  "card_grid v n =
     (let d = display_of v n in
      NodeStatGrid (filterMetrics (mn_metrics n) (case d of Some x \<Rightarrow> ld_ignoreFirstHop x | None \<Rightarrow> False)
          (case d of Some x \<Rightarrow> ld_hideLastSnr x | None \<Rightarrow> False))
        (ov_history v (mn_pubkey n)) (map_option ld_hopLabel d))"

definition card_footer :: "int \<Rightarrow> card_node \<Rightarrow> string" where
  "card_footer now n =
     (if is_pending n then ''waiting for first poll''
      else if age_of now n < 0 then ''never polled'' else ''polled '' @ formatSecsAgo (age_of now n))"

definition NodeCard :: "int \<Rightarrow> overview \<Rightarrow> card_node \<Rightarrow> card_view" where
  "NodeCard now v n =
     \<lparr>kv_label = card_label n,
      kv_sub = take 12 (mn_pubkey n) @ '' '' @ [glyph_middot] @ '' '' @ or_str (mn_kind n) ''node'',
      kv_dot = card_dot_of now n,
      kv_error = (if is_errored n then Some (mn_lastError n) else None),
      kv_grid = (if is_errored n then None else card_grid v n),
      kv_footer = card_footer now n,
      kv_warned = is_stale now n\<rparr>"

record poll_button =
  pb_polling :: bool
  pb_toasts :: "(toast_kind \<times> string) list"

definition handlePoll :: "poll_button \<Rightarrow> poll_button \<times> bool" where  \<comment> \<open>and whether a poll is asked for\<close>
  "handlePoll b = (if pb_polling b then (b, False) else (b\<lparr>pb_polling := True\<rparr>, True))"

definition poll_answered :: "string \<Rightarrow> string option \<Rightarrow> poll_button \<Rightarrow> poll_button" where
  "poll_answered label denied b =
     b\<lparr>pb_polling := False, pb_toasts := pb_toasts b @
        [case denied of None \<Rightarrow> (SuccessToast, ''Polled '' @ label)
         | Some e \<Rightarrow> (ErrorToast, label @ '': '' @ or_str e ''poll failed'')]\<rparr>"

section \<open>The page of a node\<close>

record detail_node = monitored +
  dn_companionId :: string

definition RANGES :: "(string \<times> int \<times> nat) list" where  \<comment> \<open>a range, its span and the seconds of a bucket\<close>
  "RANGES = [(''24h'', 86400, 60), (''7d'', 7 * 86400, 3600), (''30d'', 30 * 86400, 21600), (''1y'', 365 * 86400, 86400)]"

definition HERO_METRICS :: "string list" where "HERO_METRICS = [''battery_mv'', ''last_snr'']"

definition TRACK_METRICS :: "string list" where "TRACK_METRICS = [''location_lat'', ''location_lon'']"

definition linkHeroMetrics :: "string list \<Rightarrow> string list" where
  "linkHeroMetrics available =
     filter (\<lambda>m. m \<noteq> [] \<and> m \<in> set available)
       (''success'' # take 1 (js_sort (nat_order hop_number) (filter is_snr_hop available)))"

definition hopMetricLabel :: "string \<Rightarrow> (int \<Rightarrow> string) option \<Rightarrow> string option" where
  "hopMetricLabel metric hopLabel =
     (case hopLabel of None \<Rightarrow> None | Some f \<Rightarrow> if is_snr_hop metric then Some (f (int (hop_number metric))) else None)"

definition grid_order :: "(string \<Rightarrow> string \<Rightarrow> rat) \<Rightarrow> string \<Rightarrow> string \<Rightarrow> rat" where
  "grid_order cmp a b =
     (let ia = metricOrderIndex a; ib = metricOrderIndex b in
      if ia = ib then cmp a b
      else if ia < 0 then 1            \<comment> \<open>infinite\<close>
      else if ib < 0 then - 1
      else of_int (ia - ib))"

definition charted :: "string \<Rightarrow> bool" where
  "charted m \<longleftrightarrow> m \<notin> set TRACK_METRICS \<and> \<not> md_noChart (metricDef m)"

definition orderGridMetrics :: "(string \<Rightarrow> string \<Rightarrow> rat) \<Rightarrow> string list \<Rightarrow> string list \<Rightarrow> string list" where
  "orderGridMetrics cmp available hero = js_sort (grid_order cmp) (filter (\<lambda>m. m \<notin> set hero \<and> charted m) available)"

record detail_page =
  dt_pubkey :: string
  dt_node :: "detail_node option"
  dt_available :: "string list"
  dt_series :: "string \<Rightarrow> point list option"
  dt_range :: "string \<times> int \<times> nat"
  dt_loading :: bool
  dt_settings :: bool
  dt_link :: "monitor_link option"
  dt_peers :: "path_peer list"

definition detail_start :: "string \<Rightarrow> detail_page" where
  "detail_start pubkey = \<lparr>dt_pubkey = pubkey, dt_node = None, dt_available = [], dt_series = (\<lambda>_. None), dt_range = RANGES ! 0,
     dt_loading = True, dt_settings = False, dt_link = None, dt_peers = []\<rparr>"

definition is_link :: "detail_page \<Rightarrow> bool" where
  "is_link d = (case dt_node d of Some n \<Rightarrow> mn_kind n = ''link'' | None \<Rightarrow> False)"

definition displayAvailable :: "detail_page \<Rightarrow> string list" where
  "displayAvailable d = filterMetricNames (dt_available d)
     (case dt_link d of Some l \<Rightarrow> li_ignoreFirstHop l | None \<Rightarrow> False) (case dt_link d of Some l \<Rightarrow> li_hideLastSnr l | None \<Rightarrow> False)"

definition loadSeries :: "int \<Rightarrow> detail_page \<Rightarrow> detail_page \<times> string list" where
  "loadSeries now d =
     (if displayAvailable d = [] then (d\<lparr>dt_loading := False\<rparr>, [])
      else (d\<lparr>dt_loading := True\<rparr>, map (\<lambda>metric. history_url (dt_pubkey d) metric
        (now - fst (snd (dt_range d))) now (snd (snd (dt_range d)))) (displayAvailable d)))"

definition series_loaded :: "(string \<times> point list) list \<Rightarrow> detail_page \<Rightarrow> detail_page" where
  "series_loaded entries d = d\<lparr>dt_series := map_of (rev entries), dt_loading := False\<rparr>"

definition meta_loaded :: "string \<Rightarrow> (detail_node list \<times> string list) option \<Rightarrow> detail_page \<Rightarrow> detail_page" where
  \<comment> \<open>the answer to the load for a key; none when one of its requests failed\<close>
  "meta_loaded pubkey answer d =
     (case answer of
        Some (nodes, names) \<Rightarrow> d\<lparr>dt_node := find (\<lambda>n. mn_pubkey n = pubkey) nodes, dt_available := names\<rparr>
      | None \<Rightarrow> d)"

definition detail_link_loaded :: "string \<Rightarrow> monitor_link list option \<Rightarrow> detail_page \<Rightarrow> detail_page" where
  "detail_link_loaded pubkey answer d =
     (case answer of Some ls \<Rightarrow> d\<lparr>dt_link := find (\<lambda>l. to_lower (li_key l) = to_lower pubkey) ls\<rparr> | None \<Rightarrow> d)"

definition detail_message :: "ws_metrics \<Rightarrow> detail_page \<Rightarrow> detail_page" where
  "detail_message m d =
     (if wm_pubkey m \<noteq> dt_pubkey d then d
      else (let old = dt_node d in
        d\<lparr>dt_node := Some \<lparr>mn_pubkey = wm_pubkey m, mn_kind = wm_kind m,
            mn_name = or_str (wm_name m) (case old of Some n \<Rightarrow> mn_name n | None \<Rightarrow> []),
            mn_lastPollTs = (case old of Some n \<Rightarrow> if wm_pushed m then mn_lastPollTs n else wm_ts m | None \<Rightarrow> wm_ts m),
            mn_lastOkTs = wm_ts m,
            mn_lastError = (case old of Some n \<Rightarrow> if wm_pushed m then mn_lastError n else [] | None \<Rightarrow> []),
            mn_metrics = spread (case old of Some n \<Rightarrow> mn_metrics n | None \<Rightarrow> []) (wm_metrics m),
            dn_companionId = or_str (wm_companionId m) (case old of Some n \<Rightarrow> dn_companionId n | None \<Rightarrow> [])\<rparr>,
          dt_available := dt_available d @ filter (\<lambda>k. k \<notin> set (dt_available d)) (map fst (wm_metrics m))\<rparr>))"

definition heroMetrics :: "detail_page \<Rightarrow> string list" where
  "heroMetrics d = (if is_link d then linkHeroMetrics (displayAvailable d)
     else filter (\<lambda>m. m \<in> set (displayAvailable d)) HERO_METRICS)"

definition gridMetrics :: "(string \<Rightarrow> string \<Rightarrow> rat) \<Rightarrow> detail_page \<Rightarrow> string list" where
  "gridMetrics cmp d = orderGridMetrics cmp (displayAvailable d) (heroMetrics d)"

record track_point =
  tp_ts :: int
  tp_lat :: rat
  tp_lon :: rat
  tp_alt :: "rat option"

definition value_at :: "point list \<Rightarrow> int \<Rightarrow> rat option" where  \<comment> \<open>the \<open>Map\<close> by time\<close>
  "value_at ps ts = map_of (rev (map (\<lambda>p. (pt_ts p, pt_value p)) ps)) ts"

definition trackPoints :: "(string \<Rightarrow> point list option) \<Rightarrow> track_point list" where
  "trackPoints series =
     (let lat = nullish (series ''location_lat'') []; lon = nullish (series ''location_lon'') [];
          alt = nullish (series ''location_alt'') [] in
      if lat = [] \<or> lon = [] then []
      else List.map_filter (\<lambda>p. map_option (\<lambda>lo. \<lparr>tp_ts = pt_ts p, tp_lat = pt_value p, tp_lon = lo,
        tp_alt = value_at alt (pt_ts p)\<rparr>) (value_at lon (pt_ts p))) lat)"

definition LiveAgo :: "int \<Rightarrow> int \<Rightarrow> string \<Rightarrow> string \<Rightarrow> string" where
  "LiveAgo now ts before never = (if ts = 0 then never else before @ '' '' @ formatSecsAgo (max 0 (now - ts)))"

datatype detail_body = BodySkeleton | BodyEmpty | BodyCharts "chart_view list" "chart_view list"

definition charts_of :: "(int \<Rightarrow> string) \<Rightarrow> detail_page \<Rightarrow> string list \<Rightarrow> chart_view list" where
  "charts_of loc d ms = map (\<lambda>m. MetricChart loc m (nullish (dt_series d m) [])
     (hopMetricLabel m (map_option (\<lambda>l. hop_labels l (dt_peers d)) (dt_link d)))) ms"

definition detail_body_of :: "(string \<Rightarrow> string \<Rightarrow> rat) \<Rightarrow> (int \<Rightarrow> string) \<Rightarrow> string list \<Rightarrow> detail_page \<Rightarrow> detail_body" where
  \<comment> \<open>with the names the series has\<close>
  "detail_body_of cmp loc keys d =
     (if dt_loading d \<and> keys = [] then BodySkeleton
      else if dt_available d = [] then BodyEmpty
      else BodyCharts (charts_of loc d (heroMetrics d)) (charts_of loc d (gridMetrics cmp d)))"

datatype detail_settings = NoSettings | LinkSettings | NodeSettings string

definition settings_shown :: "detail_page \<Rightarrow> detail_settings" where
  "settings_shown d =
     (case dt_node d of
        None \<Rightarrow> NoSettings
      | Some n \<Rightarrow>
          if \<not> dt_settings d then NoSettings
          else if mn_kind n = ''link'' then LinkSettings
          else if dn_companionId n \<noteq> []
            then NodeSettings (if mn_kind n = ''companion'' \<or> mn_kind n = ''sensor'' then mn_kind n else ''repeater'')
          else NoSettings)"

section \<open>Properties\<close>

subsection \<open>The cards\<close>

lemma metrics_nodes_simps [simp]:
  "metrics_nodes m [] = [merge_node m None]"
  "metrics_nodes m (n # ns) = (if mn_pubkey n = wm_pubkey m then merge_node m (Some n) # ns else n # metrics_nodes m ns)"
  by (auto simp: metrics_nodes_def split: option.splits)

lemma merge_node_key [simp]: "mn_pubkey (merge_node m old) = wm_pubkey m"
  by (simp add: merge_node_def)

lemma metrics_nodes_keys:
  "map mn_pubkey (metrics_nodes m ns)
   = (if wm_pubkey m \<in> set (map mn_pubkey ns) then map mn_pubkey ns else map mn_pubkey ns @ [wm_pubkey m])"
  by (induction ns) auto

definition node_map :: "card_node list \<Rightarrow> string \<Rightarrow> card_node option" where
  "node_map ns k = find (\<lambda>n. mn_pubkey n = k) ns"

lemma metrics_nodes_map:
  "node_map (metrics_nodes m ns) = (node_map ns)(wm_pubkey m \<mapsto> merge_node m (node_map ns (wm_pubkey m)))"
  by (induction ns) (auto simp: node_map_def fun_eq_iff)

lemma metrics_fold_map:
  "node_map (fold metrics_nodes ms ns)
   = fold (\<lambda>m f. f(wm_pubkey m \<mapsto> merge_node m (f (wm_pubkey m)))) ms (node_map ns)"
  by (induction ms arbitrary: ns) (simp_all add: metrics_nodes_map)

lemma metrics_fold_once: "distinct (map mn_pubkey ns) \<Longrightarrow> distinct (map mn_pubkey (fold metrics_nodes ms ns))"
  by (induction ms arbitrary: ns) (simp_all add: metrics_nodes_keys)

text \<open>Refinement. Fed with any live messages the overview is a map from public keys: a message changes the card of its own node, or
  adds it, and no other; and nodes that were listed once each still are.\<close>
theorem overview_refines_map:
  "node_map (fold metrics_nodes ms ns)
     = fold (\<lambda>m f. f(wm_pubkey m \<mapsto> merge_node m (f (wm_pubkey m)))) ms (node_map ns)
   \<and> (if distinct (map mn_pubkey ns) then distinct (map mn_pubkey (fold metrics_nodes ms ns)) else True)"
  by (simp add: metrics_fold_map metrics_fold_once)

lemma spread_last: "map_of (spread old new) k = (case map_of (rev new) k of Some v \<Rightarrow> Some v | None \<Rightarrow> map_of old k)"
proof (induction new arbitrary: old)
  case (Cons p new)
  obtain x v where p: "p = (x, v)" by (cases p)
  have "map_of (spread old (p # new)) k = (case map_of (rev new) k of Some v \<Rightarrow> Some v | None \<Rightarrow> map_of (AList.update x v old) k)"
    using Cons [of "AList.update x v old"] by (simp add: spread_def p)
  then show ?case by (auto simp: p update_conv' map_add_def split: option.splits)
qed (simp add: spread_def)

text \<open>A node's own push is no poll: the card of a listed node keeps the time of its last poll, the error that poll ended in and its
  interval, while the node counts as heard and its readings are renewed; a poll's answer clears the error.\<close>
lemma push_is_no_poll:
  assumes "node_map ns (wm_pubkey m) = Some n"
  shows "\<exists>c. node_map (metrics_nodes m ns) (wm_pubkey m) = Some c \<and> mn_lastOkTs c = wm_ts m
    \<and> cn_intervalSecs c = cn_intervalSecs n
    \<and> (if wm_pushed m then mn_lastPollTs c = mn_lastPollTs n \<and> mn_lastError c = mn_lastError n
       else mn_lastPollTs c = wm_ts m \<and> mn_lastError c = [])"
  using assms by (simp add: metrics_nodes_map merge_node_def)

lemma cards_in_order:
  assumes "js_comparator cmp"
  shows "sorted_wrt (\<lambda>a b. by_label cmp a b \<le> 0) (sortedNodes cmp v) \<and> mset (sortedNodes cmp v) = mset (ov_nodes v)"
proof -
  have c: "js_comparator (by_label cmp)"
    using assms unfolding js_comparator_def by_label_def by blast
  show ?thesis using js_comparator.sorted_js_sort [OF c] by (simp add: sortedNodes_def)
qed

subsection \<open>The charts\<close>

lemma starts_with_append: "starts_with p s \<Longrightarrow> \<exists>r. s = p @ r"
  by (induction p s rule: starts_with.induct) auto

lemma hop_not_suffixed: "is_snr_hop k \<Longrightarrow> ch_suffix k = None"
proof -
  assume h: "is_snr_hop k"
  then obtain ds where k: "k = ''snr_hop'' @ ds" and ds: "all_digits ds"
    using starts_with_append by (fastforce simp: is_snr_hop_def)
  have "\<not> is_digit (CHR ''p'')" by (simp add: is_digit_def)
  from takeWhile_rev_digits [OF ds this, of "''snr_ho''"]
  have "takeWhile is_digit (rev k) = rev ds" by (simp add: k)
  then show ?thesis using ds by (simp add: ch_suffix_def Let_def k)
qed

lemma hop_charted: "is_snr_hop k \<Longrightarrow> charted k"
proof -
  assume h: "is_snr_hop k"
  then have "k \<notin> set METRIC_ORDER" using known_not_suffixed by (auto simp: list_all_iff)
  then have "map_of METRIC_DEFS k = None" by (simp add: METRIC_ORDER_def map_of_eq_None_iff)
  moreover have "md_noChart (the (map_of METRIC_DEFS ''last_snr'')) = False" by code_simp
  moreover have "k \<notin> set TRACK_METRICS" using h by (auto simp: TRACK_METRICS_def is_snr_hop_def)
  ultimately show ?thesis by (simp add: charted_def metricDef_def hop_not_suffixed h)
qed

lemma fixed_charted: "charted ''success'' \<and> charted ''battery_mv'' \<and> charted ''last_snr''"
  by code_simp

lemma hero_metrics_charted:
  "distinct (heroMetrics d) \<and> set (heroMetrics d) \<subseteq> {m \<in> set (displayAvailable d). charted m}"
proof -
  let ?av = "displayAvailable d"
  have not_hop: "\<not> is_snr_hop ''success''" by (simp add: is_snr_hop_def)
  have take: "x = y" if "take 1 zs = [x]" "y \<in> set (take 1 zs)" for x y and zs :: "string list" using that by simp
  have one: "take 1 zs = [] \<or> (\<exists>z. take 1 zs = [z] \<and> z \<in> set zs)" for zs :: "string list" by (cases zs) auto
  show ?thesis
    using one [of "js_sort (nat_order hop_number) (filter is_snr_hop ?av)"] not_hop fixed_charted hop_charted
    by (auto simp: heroMetrics_def linkHeroMetrics_def HERO_METRICS_def)
qed

lemma filter_names_distinct: "distinct ns \<Longrightarrow> distinct (filterMetricNames ns a b)"
  by (simp add: filterMetricNames_def)

text \<open>C36: A node's charts: each reading that may be shown and is not a place on the map or a mere figure has exactly one, in
  the large row or in the grid; no other reading has any. This holds of links and nodes, whatever the settings hide.\<close>
theorem charts_partition:
  assumes "distinct (dt_available d)"
  shows "distinct (heroMetrics d @ gridMetrics cmp d)
    \<and> set (heroMetrics d @ gridMetrics cmp d) = {m \<in> set (displayAvailable d). charted m}"
proof -
  have "distinct (displayAvailable d)" using assms by (simp add: displayAvailable_def filter_names_distinct)
  then have "distinct (gridMetrics cmp d)"
    using distinct_map_js_sort [of "id :: string \<Rightarrow> string" "grid_order cmp"] by (simp add: gridMetrics_def orderGridMetrics_def)
  moreover have "set (gridMetrics cmp d) = {m \<in> set (displayAvailable d). charted m} - set (heroMetrics d)"
    by (auto simp: gridMetrics_def orderGridMetrics_def)
  ultimately show ?thesis using hero_metrics_charted [of d] by auto
qed

theorem charts_partition_witness:
  "set (heroMetrics ((detail_start ''k'')\<lparr>dt_available := [''uptime'', ''last_snr'', ''location_lat'', ''humidity'']\<rparr>)
      @ gridMetrics (\<lambda>_ _. 0) ((detail_start ''k'')\<lparr>dt_available := [''uptime'', ''last_snr'', ''location_lat'', ''humidity'']\<rparr>))
   = {''last_snr'', ''humidity''}"
proof -
  let ?d = "(detail_start ''k'')\<lparr>dt_available := [''uptime'', ''last_snr'', ''location_lat'', ''humidity'']\<rparr>"
  have "charted ''humidity'' \<and> \<not> charted ''uptime'' \<and> \<not> charted ''location_lat''" by code_simp
  then have "{m \<in> set (displayAvailable ?d). charted m} = {''last_snr'', ''humidity''}"
    using fixed_charted by (auto simp: displayAvailable_def filterMetricNames_def detail_start_def)
  moreover have "distinct (dt_available ?d)" by simp
  ultimately show ?thesis using charts_partition [of ?d "\<lambda>_ _. 0"] by simp
qed

lemma order_index_bound: "metricOrderIndex k < 0 \<longleftrightarrow> metricOrderIndex k = - 1"
  by (auto simp: metricOrderIndex_def Let_def split: option.splits if_splits)

lemma grid_order_lawful: "js_comparator cmp \<Longrightarrow> js_comparator (grid_order cmp)"
proof
  assume c: "js_comparator cmp"
  note s = js_comparator.cmp_swap [OF c] and t = js_comparator.cmp_trans [OF c]
  show "grid_order cmp x y \<le> 0 \<or> grid_order cmp y x \<le> 0" for x y
    using s [of x y] by (auto simp: grid_order_def Let_def order_index_bound)
  show "grid_order cmp x z \<le> 0" if "grid_order cmp x y \<le> 0" "grid_order cmp y z \<le> 0" for x y z
    using that t [of x y z] by (auto simp: grid_order_def Let_def order_index_bound split: if_splits)
qed

lemma grid_in_order: "js_comparator cmp \<Longrightarrow> sorted_wrt (\<lambda>a b. grid_order cmp a b \<le> 0) (gridMetrics cmp d)"
  unfolding gridMetrics_def orderGridMetrics_def
  by (rule js_comparator.sorted_js_sort) (rule grid_order_lawful)

lemma message_names_once:
  "distinct (dt_available d) \<Longrightarrow> distinct (map fst (wm_metrics m)) \<Longrightarrow> distinct (dt_available (detail_message m d))"
  by (auto simp: detail_message_def Let_def)

lemma track_points_read:
  "t \<in> set (trackPoints series) \<longleftrightarrow>
     (\<exists>p \<in> set (nullish (series ''location_lat'') []). tp_ts t = pt_ts p \<and> tp_lat t = pt_value p
        \<and> value_at (nullish (series ''location_lon'') []) (pt_ts p) = Some (tp_lon t)
        \<and> tp_alt t = value_at (nullish (series ''location_alt'') []) (pt_ts p))"
proof -
  have "nullish (series ''location_lon'') [] = [] \<Longrightarrow> value_at (nullish (series ''location_lon'') []) ts = None" for ts
    by (simp add: value_at_def)
  then show ?thesis
    by (cases t) (auto simp: trackPoints_def Let_def List.map_filter_def image_iff Bex_def)
qed

subsection \<open>The trends\<close>

definition trends_ok :: "(string \<Rightarrow> node_history option) \<Rightarrow> bool" where  \<comment> \<open>no time twice in a row\<close>
  "trends_ok h \<longleftrightarrow> (\<forall>k f metric s. h k = Some f \<longrightarrow> f metric = Some s \<longrightarrow> distinct_adj (map pt_ts s))"

lemma extend_series_ok: "distinct_adj (map pt_ts s) \<Longrightarrow> extend_series ts v s = Some s' \<Longrightarrow> distinct_adj (map pt_ts s')"
  by (auto simp: extend_series_def distinct_adj_def successively_append_iff last_map split: if_splits)

lemma extend_metric_ok:
  "(\<forall>x s. h x = Some s \<longrightarrow> distinct_adj (map pt_ts s)) \<Longrightarrow>
   \<forall>x s. extend_metric m h metric x = Some s \<longrightarrow> distinct_adj (map pt_ts s)"
  by (auto simp: extend_metric_def nullish_def split: option.splits intro: extend_series_ok extend_series_ok [of "[]"])

lemma extend_fold_ok:
  "(\<forall>x s. h x = Some s \<longrightarrow> distinct_adj (map pt_ts s)) \<Longrightarrow>
   \<forall>x s. foldl (extend_metric m) h ks x = Some s \<longrightarrow> distinct_adj (map pt_ts s)"
proof (induction ks arbitrary: h)
  case (Cons k ks)
  show ?case using Cons.IH [OF extend_metric_ok [OF Cons.prems, of m k]] by simp
qed simp

lemma metrics_history_ok: "trends_ok h \<Longrightarrow> trends_ok (metrics_history m h)"
proof -
  assume h: "trends_ok h"
  then have "\<forall>x s. nullish (h (wm_pubkey m)) (\<lambda>_. None) x = Some s \<longrightarrow> distinct_adj (map pt_ts s)"
    by (auto simp: trends_ok_def nullish_def split: option.splits)
  note extend_fold_ok [OF this, of m "sparklineMetricKeys (wm_metrics m)"]
  with h show ?thesis by (auto simp: metrics_history_def Let_def trends_ok_def)
qed

lemma put_row_ok: "trends_ok h \<Longrightarrow> distinct_adj (map pt_ts (snd (snd row))) \<Longrightarrow> trends_ok (put_row h row)"
  by (cases row; cases "h (fst row)") (auto simp: put_row_def trends_ok_def nullish_def)

lemma histories_ok: "list_all (\<lambda>row. distinct_adj (map pt_ts (snd (snd row)))) rows \<Longrightarrow> trends_ok (ov_history (histories_answered rows v))"
proof -
  have "list_all (\<lambda>row. distinct_adj (map pt_ts (snd (snd row)))) rows \<Longrightarrow> trends_ok h \<Longrightarrow> trends_ok (foldl put_row h rows)" for h
    by (induction rows arbitrary: h) (auto intro: put_row_ok)
  moreover have "trends_ok (\<lambda>_. None)" by (simp add: trends_ok_def)
  ultimately show "list_all (\<lambda>row. distinct_adj (map pt_ts (snd (snd row)))) rows \<Longrightarrow> ?thesis"
    by (simp add: histories_answered_def)
qed

datatype overview_event =
    NodesAnswered int "card_node list option"
  | HistoriesAnswered "history_row list"
  | LinksAnswered "monitor_link list option"
  | PeersAnswered "path_peer list option"
  | MetricsMessage ws_metrics

fun overview_step :: "overview_event \<Rightarrow> overview \<Rightarrow> overview" where
  "overview_step (NodesAnswered now a) v = fst (nodes_answered now a v)"
| "overview_step (HistoriesAnswered rows) v = histories_answered rows v"
| "overview_step (LinksAnswered a) v = links_loaded a v"
| "overview_step (PeersAnswered a) v = peers_loaded a v"
| "overview_step (MetricsMessage m) v = metrics_message m v"

fun event_sound :: "overview_event \<Rightarrow> bool" where  \<comment> \<open>the server lists a node once, and no time of a series twice\<close>
  "event_sound (NodesAnswered _ (Some ns)) \<longleftrightarrow> distinct (map mn_pubkey ns)"
| "event_sound (HistoriesAnswered rows) \<longleftrightarrow> list_all (\<lambda>row. distinct_adj (map pt_ts (snd (snd row)))) rows"
| "event_sound _ \<longleftrightarrow> True"

definition overview_ok :: "overview \<Rightarrow> bool" where
  "overview_ok v \<longleftrightarrow> distinct (map mn_pubkey (ov_nodes v)) \<and> trends_ok (ov_history v)"

lemma overview_step_ok: "event_sound e \<Longrightarrow> overview_ok v \<Longrightarrow> overview_ok (overview_step e v)"
  by (cases e)
    (auto simp: overview_ok_def nodes_answered_def links_loaded_def peers_loaded_def metrics_message_def metrics_nodes_keys
      metrics_history_ok histories_ok split: option.splits, auto simp: histories_answered_def)

lemma overview_start_ok: "overview_ok overview_start"
  by (simp add: overview_ok_def overview_start_def trends_ok_def)

text \<open>C20: Whatever answers and live messages come, in any order, the overview never shows a node twice, and its trends never
  hold one time twice in a row: a message that repeats the last sample adds nothing.\<close>
theorem overview_invariant:
  assumes "list_all event_sound es"
  shows "overview_ok (fold overview_step es overview_start)"
proof -
  have "list_all event_sound es \<Longrightarrow> overview_ok v \<Longrightarrow> overview_ok (fold overview_step es v)" for v
    by (induction es arbitrary: v) (auto intro: overview_step_ok)
  then show ?thesis using assms overview_start_ok by blast
qed

definition sample_message :: "int \<Rightarrow> ws_metrics" where
  "sample_message t = \<lparr>wm_pubkey = ''ab'', wm_companionId = ''me'', wm_kind = ''repeater'', wm_name = ''Hill'', wm_ts = t,
     wm_metrics = [(''last_snr'', 5)], wm_pushed = False\<rparr>"

theorem overview_invariant_witness:
  "overview_ok (fold overview_step [MetricsMessage (sample_message 60), MetricsMessage (sample_message 60)] overview_start)"
  by (rule overview_invariant) simp

subsection \<open>Answers that come late\<close>

text \<open>A node's readings that come live while the list, or the histories, are still being fetched are gone when the answer
  arrives; a load of a node's own page does the same.\<close>

definition sample_node :: card_node where
  "sample_node = \<lparr>mn_pubkey = ''ab'', mn_kind = ''repeater'', mn_name = ''Hill'', mn_lastPollTs = 0, mn_lastOkTs = 0, mn_lastError = [],
     mn_metrics = [], cn_intervalSecs = 900\<rparr>"

lemma late_list_undoes_poll:
  "map mn_lastPollTs (ov_nodes (overview_step (MetricsMessage (sample_message 60)) (overview_start\<lparr>ov_nodes := [sample_node]\<rparr>))) = [60]
   \<and> map mn_lastPollTs (ov_nodes (fold overview_step [MetricsMessage (sample_message 60), NodesAnswered 61 (Some [sample_node])]
        (overview_start\<lparr>ov_nodes := [sample_node]\<rparr>))) = [0]"
  by (simp add: overview_start_def sample_message_def sample_node_def metrics_message_def nodes_answered_def merge_node_def)

lemma late_names_drop:
  "dt_available (detail_message (sample_message 60) (detail_start ''ab'')) = [''last_snr'']
   \<and> dt_available (meta_loaded ''ab'' (Some ([], [])) (detail_message (sample_message 60) (detail_start ''ab''))) = []"
  by (simp add: detail_message_def detail_start_def sample_message_def meta_loaded_def)

text \<open>Two ranges chosen quickly: the first one's answer comes last and is drawn under the second one's axis.\<close>

lemma late_range_drawn:
  "let d = (detail_start ''ab'')\<lparr>dt_available := [''humidity'']\<rparr>;
       week = [(''humidity'', [\<lparr>pt_ts = 1, pt_value = 40\<rparr>, \<lparr>pt_ts = 2, pt_value = 41\<rparr>])]; day = [(''humidity'', [\<lparr>pt_ts = 2, pt_value = 41\<rparr>])];
       e = series_loaded week (series_loaded day (fst (loadSeries 9 (d\<lparr>dt_range := RANGES ! 0\<rparr>))))
   in fst (dt_range e) = ''24h'' \<and> \<not> dt_loading e \<and> dt_series e ''humidity'' = Some (snd (hd week))"
  by (simp add: detail_start_def series_loaded_def loadSeries_def displayAvailable_def filterMetricNames_def RANGES_def)

text \<open>A push of a node the page does not list yet is taken for a poll.\<close>

lemma push_of_unlisted_polled:
  "map (\<lambda>n. (mn_lastPollTs n, card_dot_of 100000 n)) (metrics_nodes ((sample_message 60)\<lparr>wm_pushed := True\<rparr>) []) = [(60, DotLive)]"
  by (simp add: sample_message_def merge_node_def card_dot_of_def is_pending_def is_errored_def is_stale_def staleThreshold_def)

end
