(* ===== verification/RadioSettings.thy ===== *)
theory RadioSettings
  imports ContactView MqttForm ApiClient
begin

text \<open>
  How the radio is reached and set: the fields of the connection (\<open>components/ConnectionFields.tsx\<close>), the presets
  (\<open>components/RadioPresetSelect.tsx\<close>), the page of settings (\<open>pages/RadioPage.tsx\<close>), and the wizard of the first run
  (\<open>components/SetupWizard.tsx\<close>) with the restoring of a backup. A connection is one url; the fields only spare typing it.
  \<open>num\<close> is \<open>String(n)\<close>.
\<close>

section \<open>The connection\<close>

record serial_port =
  se_path :: string
  se_device :: string
  se_label :: "string option"
  se_stable :: bool

definition SPI_PORTS :: "string list" where
  "SPI_PORTS = [''SPI0.0'', ''SPI0.1'', ''SPI1.0'', ''SPI1.1'', ''SPI1.2'']"

definition DEFAULT_SERIAL :: string where "DEFAULT_SERIAL = ''/dev/ttyACM0''"
definition KISS_BAUD :: string where "KISS_BAUD = ''115200''"
definition OPENHOP_BAUD :: string where "OPENHOP_BAUD = ''921600''"

definition connectionScheme :: "string \<Rightarrow> string" where
  "connectionScheme c =
     (if starts_with ''tcp://'' c then ''tcp'' else if starts_with ''spi://'' c then ''spi''
      else if starts_with ''openhop://'' c then ''openhop'' else ''serial'')"

definition backendFor :: "string \<Rightarrow> string" where
  "backendFor c = (let s = connectionScheme c in if s = ''spi'' \<or> s = ''openhop'' then s else ''kiss'')"

definition BACKEND_LABELS :: "(string \<times> string) list" where
  "BACKEND_LABELS = [(''kiss'', ''kiss modem''), (''openhop'', ''openhop modem''), (''spi'', ''spi radio'')]"

definition connectionTarget :: "string \<Rightarrow> string" where  \<comment> \<open>without \<open>^[a-z0-9]+://\<close>\<close>
  "connectionTarget c =
     (let in_scheme = (\<lambda>x. is_lower x \<or> is_digit x); rest = dropWhile in_scheme c in
      if takeWhile in_scheme c \<noteq> [] \<and> starts_with ''://'' rest then drop 3 rest else c)"

definition split_port :: "string \<Rightarrow> (string \<times> string) option" where  \<comment> \<open>at the last colon, unless it comes first\<close>
  "split_port s =
     (let r = rev s; after = takeWhile (\<lambda>c. c \<noteq> CHR '':'') r; front = dropWhile (\<lambda>c. c \<noteq> CHR '':'') r in
      if length front > 1 then Some (rev (tl front), rev after) else None)"

record connection_form =
  cn_type :: string
  cn_connection :: string
  cn_baudRate :: string
  cn_spiBoard :: string
  cn_modemToken :: string

definition board_of :: "spi_board list \<Rightarrow> string \<Rightarrow> spi_board option" where
  "board_of boards nm = find (\<lambda>b. sb_name b = nm) boards"

definition port_of :: "serial_port list \<Rightarrow> string \<Rightarrow> serial_port option" where
  "port_of ports path = find (\<lambda>p. se_path p = path) ports"

type_synonym summary_row = "string \<times> string \<times> string option"

definition host_rows :: "string \<Rightarrow> string \<Rightarrow> summary_row list" where
  "host_rows dash target =
     (case split_port target of
        Some (h, p) \<Rightarrow> [(''Host'', h, None), (''Port'', p, None)]
      | None \<Rightarrow> [(''Host'', or_str target dash, None), (''Port'', dash, None)])"

definition connectionSummary :: "connection_form \<Rightarrow> spi_board list \<Rightarrow> serial_port list \<Rightarrow> bool \<Rightarrow> summary_row list" where
  "connectionSummary f boards ports modemTokenSet =
     (let target = connectionTarget (cn_connection f); dash = [glyph_dash] in
      if cn_type f = ''spi'' then
        (let board = board_of boards (cn_spiBoard f) in
         [(''Radio backend'', ''SPI radio hat'', None),
          (''Hat'', (case board of Some b \<Rightarrow> sb_label b | None \<Rightarrow> cn_spiBoard f), None),
          (''SPI port'', or_str target (or_str (case board of Some b \<Rightarrow> sb_spiPort b | None \<Rightarrow> []) dash), None)])
      else if cn_type f = ''openhop'' then
        (if starts_with ''/'' target
         then [(''Radio backend'', ''openHop Modem over serial'', None), (''Device'', target, None), (''Baud rate'', cn_baudRate f, None)]
         else (''Radio backend'', ''openHop Modem over the network'', None) # host_rows ''-'' target
           @ [(''Token'', if modemTokenSet then ''set'' else ''none'', None)])
      else if connectionScheme (cn_connection f) = ''tcp'' then
        (''Radio backend'', ''KISS modem over the network'', None) # host_rows dash target
      else
        (let l = Option.bind (port_of ports target) se_label in
         [(''Radio backend'', ''KISS modem over serial'', None),
          (''Device'', nullish l target, if truthy_str l then map_option se_device (port_of ports target) else None),
          (''Baud rate'', cn_baudRate f, None)]))"

definition serialHint :: "serial_port list \<Rightarrow> string \<Rightarrow> string" where
  "serialHint ports target =
     (case port_of ports target of
        Some p \<Rightarrow> if se_stable p then ''stored as '' @ se_path p @ '', which survives a replug''
          else ''serial devices this host can see right now''
      | None \<Rightarrow> ''serial devices this host can see right now'')"

definition transport_of :: "connection_form \<Rightarrow> string" where
  "transport_of f =
     (if cn_type f = ''spi'' then ''spi''
      else if cn_type f = ''openhop'' then (if starts_with ''/'' (connectionTarget (cn_connection f)) then ''serial'' else ''tcp'')
      else connectionScheme (cn_connection f))"

definition setTarget :: "string \<Rightarrow> connection_form \<Rightarrow> connection_form" where
  "setTarget v f = f\<lparr>cn_connection :=
     (if cn_type f = ''openhop'' then ''openhop'' else transport_of f) @ ''://'' @ trim v\<rparr>"

definition adopt_port :: "serial_port list \<Rightarrow> connection_form \<Rightarrow> connection_form" where  \<comment> \<open>the effect of new ports or a new connection\<close>
  "adopt_port ports f =
     (if cn_type f = ''spi'' \<or> cn_type f = ''openhop'' \<or> connectionScheme (cn_connection f) \<noteq> ''serial'' then f
      else (case find (\<lambda>p. se_stable p \<and> se_device p = connectionTarget (cn_connection f)) ports of
          Some p \<Rightarrow> f\<lparr>cn_connection := ''serial://'' @ se_path p\<rparr> | None \<Rightarrow> f))"

definition first_device :: "serial_port list \<Rightarrow> string" where
  "first_device ports = (case ports of p # _ \<Rightarrow> se_path p | [] \<Rightarrow> DEFAULT_SERIAL)"

definition pickBackend :: "spi_board list \<Rightarrow> serial_port list \<Rightarrow> string \<Rightarrow> connection_form \<Rightarrow> connection_form" where
  "pickBackend boards ports v f =
     (let scheme = connectionScheme (cn_connection f);
          f = f\<lparr>cn_type := v, cn_baudRate := (if v \<noteq> ''openhop'' \<and> cn_baudRate f = OPENHOP_BAUD then KISS_BAUD else cn_baudRate f)\<rparr> in
      if v = ''spi'' then
        (let pick = (case board_of boards (cn_spiBoard f) of Some b \<Rightarrow> Some b | None \<Rightarrow> defaultBoard boards);
             f = (case pick of Some b \<Rightarrow> if cn_spiBoard f = [] then f\<lparr>cn_spiBoard := sb_name b\<rparr> else f | None \<Rightarrow> f) in
         if scheme \<noteq> ''spi''
         then f\<lparr>cn_connection := ''spi://'' @ (case pick of Some b \<Rightarrow> sb_spiPort b | None \<Rightarrow> SPI_PORTS ! 0)\<rparr> else f)
      else if v = ''openhop'' then (if scheme \<noteq> ''openhop'' then f\<lparr>cn_connection := ''openhop://''\<rparr> else f)
      else if scheme = ''spi'' \<or> scheme = ''openhop'' then f\<lparr>cn_connection := ''serial://'' @ first_device ports\<rparr>
      else f)"

definition pickTransport :: "serial_port list \<Rightarrow> string \<Rightarrow> connection_form \<Rightarrow> connection_form" where
  "pickTransport ports v f =
     (let dev = first_device ports in
      if cn_type f = ''openhop'' then
        f\<lparr>cn_connection := (if v = ''tcp'' then ''openhop://'' else ''openhop://'' @ dev),
          cn_baudRate := (if v = ''serial'' then OPENHOP_BAUD else cn_baudRate f)\<rparr>
      else if v = ''tcp'' then f\<lparr>cn_connection := ''tcp://''\<rparr>
      else f\<lparr>cn_connection := ''serial://'' @ dev\<rparr>)"

definition pickBoard :: "spi_board list \<Rightarrow> string \<Rightarrow> connection_form \<Rightarrow> connection_form" where
  "pickBoard boards nm f =
     (case board_of boards nm of
        Some b \<Rightarrow> f\<lparr>cn_spiBoard := nm, cn_connection := ''spi://'' @ sb_spiPort b\<rparr>
      | None \<Rightarrow> f\<lparr>cn_spiBoard := nm\<rparr>)"

definition baud_locked :: "connection_form \<Rightarrow> bool" where  \<comment> \<open>the baud rate's field is disabled\<close>
  "baud_locked f \<longleftrightarrow> cn_type f = ''openhop''"

datatype connection_event =
    PickBackend string
  | PickTransport string
  | PickBoard string
  | TypeBoard string
  | PickSpiPort string
  | TypeTarget string
  | TypeBaud string
  | TypeToken string
  | AdoptPorts "serial_port list"    \<comment> \<open>the effect, with the ports it runs for\<close>

fun connection_step :: "spi_board list \<Rightarrow> serial_port list \<Rightarrow> connection_event \<Rightarrow> connection_form \<Rightarrow> connection_form" where
  "connection_step boards ports (PickBackend v) f = (if v \<in> {''kiss'', ''openhop'', ''spi''} then pickBackend boards ports v f else f)"
| "connection_step boards ports (PickTransport v) f =
     (if cn_type f \<noteq> ''spi'' \<and> v \<in> {''serial'', ''tcp''} then pickTransport ports v f else f)"
| "connection_step boards ports (PickBoard nm) f = (if cn_type f = ''spi'' \<and> boards \<noteq> [] then pickBoard boards nm f else f)"
| "connection_step boards ports (TypeBoard nm) f = (if cn_type f = ''spi'' \<and> boards = [] then f\<lparr>cn_spiBoard := nm\<rparr> else f)"
| "connection_step boards ports (PickSpiPort v) f = (if cn_type f = ''spi'' then f\<lparr>cn_connection := ''spi://'' @ v\<rparr> else f)"
| "connection_step boards ports (TypeTarget v) f = (if cn_type f \<noteq> ''spi'' then setTarget v f else f)"
| "connection_step boards ports (TypeBaud v) f =
     (if transport_of f = ''serial'' \<and> \<not> baud_locked f then f\<lparr>cn_baudRate := v\<rparr> else f)"
| "connection_step boards ports (TypeToken v) f =
     (if cn_type f = ''openhop'' \<and> transport_of f = ''tcp'' then f\<lparr>cn_modemToken := v\<rparr> else f)"
| "connection_step boards ports (AdoptPorts ps) f = adopt_port ps f"

definition spi_hint :: "spi_board list \<Rightarrow> connection_form \<Rightarrow> string" where
  "spi_hint boards f =
     (let target = connectionTarget (cn_connection f) in
      case board_of boards (cn_spiBoard f) of
        Some b \<Rightarrow> if target \<noteq> [] \<and> target \<noteq> sb_spiPort b
          then ''This hat is wired to '' @ sb_spiPort b @ ''; change it only if yours is on another bus.''
          else ''The chip-select line this hat's NSS is wired to.''
      | None \<Rightarrow> ''The chip-select line this hat's NSS is wired to.'')"

section \<open>Presets\<close>

record radio_preset =
  pr_name :: string
  pr_freq :: rat
  pr_bw :: rat
  pr_sf :: int
  pr_cr :: int
  pr_pathHashSize :: nat             \<comment> \<open>0 when it is left out\<close>

record rf_fields =
  rf_freq :: string
  rf_bw :: string
  rf_sf :: string
  rf_cr :: string
  rf_tx :: string
  rf_pathHashSize :: string

definition near :: "string \<Rightarrow> rat \<Rightarrow> bool" where  \<comment> \<open>\<open>Math.abs(parseFloat(s) - x) < 1e-6\<close>\<close>
  "near s x = (case parse_float s of Some v \<Rightarrow> \<bar>v - x\<bar> < 1 / 1000000 | None \<Rightarrow> False)"

definition preset_matches :: "radio_preset \<Rightarrow> rf_fields \<Rightarrow> bool" where
  "preset_matches p f \<longleftrightarrow> near (rf_freq f) (pr_freq p) \<and> near (rf_bw f) (pr_bw p)
     \<and> parse_int (rf_sf f) = Some (pr_sf p) \<and> parse_int (rf_cr f) = Some (pr_cr p)"

definition preset_shown :: "radio_preset list \<Rightarrow> string \<Rightarrow> rf_fields \<Rightarrow> string" where  \<comment> \<open>with the name last picked\<close>
  "preset_shown presets picked f =
     (case find (\<lambda>p. pr_name p = picked) presets of
        Some p \<Rightarrow> if preset_matches p f then picked
          else (case find (\<lambda>p. preset_matches p f) presets of Some q \<Rightarrow> pr_name q | None \<Rightarrow> ''custom'')
      | None \<Rightarrow> (case find (\<lambda>p. preset_matches p f) presets of Some q \<Rightarrow> pr_name q | None \<Rightarrow> ''custom''))"

definition preset_applied :: "(rat \<Rightarrow> string) \<Rightarrow> radio_preset \<Rightarrow> rf_fields \<Rightarrow> rf_fields" where
  "preset_applied num p f =
     f\<lparr>rf_freq := num (pr_freq p), rf_bw := num (pr_bw p), rf_sf := num (of_int (pr_sf p)), rf_cr := num (of_int (pr_cr p)),
       rf_pathHashSize := (if pr_pathHashSize p > 0 then num (of_nat (pr_pathHashSize p)) else rf_pathHashSize f)\<rparr>"

definition preset_picked :: "(rat \<Rightarrow> string) \<Rightarrow> radio_preset list \<Rightarrow> string \<Rightarrow> rf_fields \<Rightarrow> rf_fields" where
  "preset_picked num presets nm f =
     (case find (\<lambda>p. pr_name p = nm) presets of Some p \<Rightarrow> preset_applied num p f | None \<Rightarrow> f)"

definition preset_option :: "(rat \<Rightarrow> string) \<Rightarrow> radio_preset \<Rightarrow> string \<times> string" where
  "preset_option num p =
     (pr_name p, pr_name p @ '' '' @ [glyph_middot] @ '' '' @ num (pr_freq p) @ '' / SF'' @ num (of_int (pr_sf p))
        @ '' / BW'' @ num (pr_bw p) @ '' / CR'' @ num (of_int (pr_cr p))
        @ (if pr_pathHashSize p > 0 then '' / '' @ num (of_nat (pr_pathHashSize p)) @ ''B'' else []))"

section \<open>The settings page\<close>

record settings =
  gs_logLevel :: "string option"
  gs_connection :: "string option"
  gs_baudRate :: "int option"
  gs_spiBoard :: "string option"
  gs_freq :: "rat option"
  gs_bw :: "rat option"
  gs_sf :: "int option"
  gs_cr :: "int option"
  gs_tx :: "int option"
  gs_listenAddr :: "string option"
  gs_mapProvider :: string
  gs_mapDarkStyle :: string
  gs_mapTileKey :: "string option"
  gs_modemTokenSet :: bool
  gs_pathHashSize :: "int option"
  gs_dutyCycle :: "rat option"
  gs_packetRetentionDays :: int
  gs_floodRegions :: "region_node list"
  gs_floodScope :: string

record settings_input =
  gi_connectionType :: string
  gi_connection :: string
  gi_baudRate :: int
  gi_spiBoard :: "string option"     \<comment> \<open>left out but for an SPI radio\<close>
  gi_freq :: "rat option"
  gi_bw :: "rat option"
  gi_sf :: "int option"
  gi_cr :: "int option"
  gi_tx :: "int option"
  gi_listenAddr :: "string option"
  gi_map :: "(string \<times> string \<times> string) option"  \<comment> \<open>provider, dark style and key; the wizard leaves them out\<close>
  gi_modemToken :: "string option"
  gi_pathHashSize :: int
  gi_dutyCycle :: "rat option"
  gi_logLevel :: "string option"
  gi_packetRetentionDays :: rat
  gi_setupComplete :: bool

record settings_form =
  sf_conn :: connection_form
  sf_rf :: rf_fields
  sf_listenAddr :: string
  sf_mapProvider :: string
  sf_mapDarkStyle :: string
  sf_mapTileKey :: string
  sf_dutyCycle :: string
  sf_logLevel :: string
  sf_packetDays :: string
  sf_floodRegions :: "region_node list"
  sf_floodScope :: string

definition num_text :: "(rat \<Rightarrow> string) \<Rightarrow> rat option \<Rightarrow> string" where  \<comment> \<open>\<open>x != null ? String(x) : ""\<close>\<close>
  "num_text num x = (case x of Some v \<Rightarrow> num v | None \<Rightarrow> [])"

definition settings_opened :: "(rat \<Rightarrow> string) \<Rightarrow> settings \<Rightarrow> settings_form \<Rightarrow> settings_form" where
  "settings_opened num s f =
     (let c = nullish (gs_connection s) [] in
      f\<lparr>sf_conn := (sf_conn f)\<lparr>cn_type := backendFor c, cn_connection := c,
           cn_baudRate := num (of_int (nullish (gs_baudRate s) 115200)), cn_spiBoard := nullish (gs_spiBoard s) []\<rparr>,
        sf_rf := \<lparr>rf_freq = num_text num (gs_freq s), rf_bw = num_text num (gs_bw s),
           rf_sf = num_text num (map_option of_int (gs_sf s)), rf_cr = num_text num (map_option of_int (gs_cr s)),
           rf_tx = num_text num (map_option of_int (gs_tx s)), rf_pathHashSize = num (of_int (nullish (gs_pathHashSize s) 1))\<rparr>,
        sf_listenAddr := nullish (gs_listenAddr s) [], sf_mapProvider := gs_mapProvider s, sf_mapDarkStyle := gs_mapDarkStyle s,
        sf_mapTileKey := nullish (gs_mapTileKey s) [], sf_dutyCycle := num_text num (gs_dutyCycle s),
        sf_logLevel := nullish (gs_logLevel s) ''info'', sf_packetDays := num (of_int (gs_packetRetentionDays s)),
        sf_floodRegions := gs_floodRegions s, sf_floodScope := gs_floodScope s\<rparr>)"

definition float_or_null :: "string \<Rightarrow> rat option" where  \<comment> \<open>\<open>parseFloat(s) || null\<close>\<close>
  "float_or_null s = (case parse_float s of Some v \<Rightarrow> if v = 0 then None else Some v | None \<Rightarrow> None)"

definition int_or_null :: "string \<Rightarrow> int option" where  \<comment> \<open>\<open>parseInt(s, 10) || null\<close>\<close>
  "int_or_null s = (case parse_int s of Some v \<Rightarrow> if v = 0 then None else Some v | None \<Rightarrow> None)"

definition null_if_empty :: "string \<Rightarrow> string option" where  \<comment> \<open>\<open>s || null\<close>\<close>
  "null_if_empty s = (if s = [] then None else Some s)"

definition tx_sent :: "string \<Rightarrow> int option" where
  "tx_sent s = (if s = [] then None else parse_int s)"

definition duty_sent :: "string \<Rightarrow> rat option" where
  "duty_sent s = (if trim s = [] then None else js_number s)"

definition packet_days :: "string \<Rightarrow> rat option" where
  "packet_days s =
     (if trim s = [] then None
      else (case js_number s of
        Some d \<Rightarrow> if d \<noteq> of_int \<lfloor>d\<rfloor> \<or> d < 1 \<or> d > 365 then None else Some d | None \<Rightarrow> None))"

definition rf_input :: "connection_form \<Rightarrow> rf_fields \<Rightarrow> settings_input \<Rightarrow> settings_input" where
  \<comment> \<open>what the page and the wizard send alike; a number that is none is \<open>null\<close> in JSON\<close>
  "rf_input c f i = i\<lparr>gi_connectionType := cn_type c, gi_baudRate := int_or (cn_baudRate c) 115200,
     gi_spiBoard := (if cn_type c = ''spi'' then Some (cn_spiBoard c) else None),
     gi_freq := float_or_null (rf_freq f), gi_bw := float_or_null (rf_bw f), gi_sf := int_or_null (rf_sf f), gi_cr := int_or_null (rf_cr f),
     gi_tx := tx_sent (rf_tx f), gi_pathHashSize := int_or (rf_pathHashSize f) 1,
     gi_modemToken := null_if_empty (cn_modemToken c)\<rparr>"

definition blank_input :: settings_input where
  "blank_input = \<lparr>gi_connectionType = [], gi_connection = [], gi_baudRate = 0, gi_spiBoard = None, gi_freq = None, gi_bw = None,
     gi_sf = None, gi_cr = None, gi_tx = None, gi_listenAddr = None, gi_map = None, gi_modemToken = None, gi_pathHashSize = 0,
     gi_dutyCycle = None, gi_logLevel = None, gi_packetRetentionDays = 0, gi_setupComplete = False\<rparr>"

definition settings_sent :: "settings_form \<Rightarrow> rat \<Rightarrow> settings_input" where
  "settings_sent f days =
     (rf_input (sf_conn f) (sf_rf f) blank_input)\<lparr>gi_connection := cn_connection (sf_conn f),
       gi_listenAddr := null_if_empty (sf_listenAddr f),
       gi_map := Some (sf_mapProvider f, sf_mapDarkStyle f, trim (sf_mapTileKey f)),
       gi_dutyCycle := duty_sent (sf_dutyCycle f),
       gi_logLevel := null_if_empty (sf_logLevel f), gi_packetRetentionDays := days\<rparr>"

record settings_page =
  sg_settings :: "settings option"
  sg_form :: settings_form
  sg_saving :: bool
  sg_toasts :: "(toast_kind \<times> string) list"

datatype settings_request = PutRegions "region_node list" string | PutAll settings_input

definition settings_toast :: "toast_kind \<Rightarrow> string \<Rightarrow> settings_page \<Rightarrow> settings_page" where
  "settings_toast k t p = p\<lparr>sg_toasts := sg_toasts p @ [(k, t)]\<rparr>"

definition settings_save :: "settings_page \<Rightarrow> settings_page \<times> settings_request list" where
  \<comment> \<open>and the two requests, the second one sent once the first is answered\<close>
  "settings_save p =
     (if sg_settings p = None then (p, [])
      else (case packet_days (sf_packetDays (sg_form p)) of
        None \<Rightarrow> (settings_toast ErrorToast ''Packet history must be a whole number of days, 1-365. Nothing was saved.'' p, [])
      | Some d \<Rightarrow> (p\<lparr>sg_saving := True\<rparr>,
          [PutRegions (sf_floodRegions (sg_form p)) (sf_floodScope (sg_form p)), PutAll (settings_sent (sg_form p) d)])))"

definition settings_saved :: "string option \<Rightarrow> string option \<Rightarrow> settings_page \<Rightarrow> settings_page \<times> bool" where
  \<comment> \<open>what the server refused the regions or the rest with; and whether the settings are loaded again\<close>
  "settings_saved regions rest p =
     (case (regions, rest) of
        (Some e, _) \<Rightarrow> ((settings_toast ErrorToast (''Nothing was saved: '' @ e) p)\<lparr>sg_saving := False\<rparr>, False)
      | (None, Some e) \<Rightarrow>
          ((settings_toast ErrorToast (''Regions saved, but the other settings were not: '' @ e) p)\<lparr>sg_saving := False\<rparr>, False)
      | (None, None) \<Rightarrow> ((settings_toast SuccessToast ''Settings saved'' p)\<lparr>sg_saving := False\<rparr>, True))"

definition settings_loaded :: "(rat \<Rightarrow> string) \<Rightarrow> settings \<Rightarrow> settings_page \<Rightarrow> settings_page" where
  "settings_loaded num s p = p\<lparr>sg_settings := Some s, sg_form := settings_opened num s (sg_form p)\<rparr>"

section \<open>The wizard\<close>

datatype setup_step = Welcome | Restore | Radio | Companion | Review

definition STEPS :: "setup_step list" where "STEPS = [Welcome, Radio, Companion, Review]"

datatype finishing = Idle | ForCompanion | ForSettings  \<comment> \<open>the answer \<open>finish\<close> waits for\<close>

record setup_wizard =
  su_step :: setup_step
  su_wait :: finishing
  su_conn :: connection_form
  su_rf :: rf_fields
  su_skip :: bool
  su_name :: string
  su_lat :: string
  su_lon :: string
  su_advanced :: bool
  su_privateKey :: string
  su_advertInterval :: string
  su_added :: "string list"          \<comment> \<open>the companions the server has taken, by name\<close>
  su_toasts :: "string list"
  su_done :: bool

definition setup_start :: "(rat \<Rightarrow> string) \<Rightarrow> settings \<Rightarrow> setup_wizard" where
  "setup_start num s =
     \<lparr>su_step = Welcome, su_wait = Idle,
      su_conn = \<lparr>cn_type = backendFor (nullish (gs_connection s) []), cn_connection = nullish (gs_connection s) ''serial:///dev/ttyACM0'',
        cn_baudRate = num (of_int (nullish (gs_baudRate s) 115200)), cn_spiBoard = nullish (gs_spiBoard s) [], cn_modemToken = []\<rparr>,
      su_rf = \<lparr>rf_freq = (case gs_freq s of Some v \<Rightarrow> num v | None \<Rightarrow> ''917.375''), rf_bw = (case gs_bw s of Some v \<Rightarrow> num v | None \<Rightarrow> ''62.5''),
        rf_sf = (case gs_sf s of Some v \<Rightarrow> num (of_int v) | None \<Rightarrow> ''7''), rf_cr = (case gs_cr s of Some v \<Rightarrow> num (of_int v) | None \<Rightarrow> ''8''),
        rf_tx = (case gs_tx s of Some v \<Rightarrow> num (of_int v) | None \<Rightarrow> ''22''), rf_pathHashSize = num (of_int (nullish (gs_pathHashSize s) 1))\<rparr>,
      su_skip = False, su_name = [], su_lat = [], su_lon = [], su_advanced = False, su_privateKey = [], su_advertInterval = [],
      su_added = [], su_toasts = [], su_done = False\<rparr>"

definition radioValid :: "connection_form \<Rightarrow> rf_fields \<Rightarrow> bool" where
  "radioValid c f \<longleftrightarrow> trim (cn_connection c) \<noteq> [] \<and> (cn_type c \<noteq> ''spi'' \<or> cn_spiBoard c \<noteq> [])
     \<and> parse_float (rf_freq f) \<noteq> None \<and> rf_bw f \<noteq> [] \<and> rf_sf f \<noteq> [] \<and> rf_cr f \<noteq> [] \<and> parse_int (rf_tx f) \<noteq> None"

definition adds_companion :: "setup_wizard \<Rightarrow> bool" where
  "adds_companion u \<longleftrightarrow> \<not> su_skip u \<and> trim (su_name u) \<noteq> []"

definition su_busy :: "setup_wizard \<Rightarrow> bool" where
  "su_busy u \<longleftrightarrow> su_wait u \<noteq> Idle"

definition step_back :: "setup_step \<Rightarrow> setup_step" where
  "step_back s = (if s = Radio \<or> s = Restore then Welcome else if s = Companion then Radio else Companion)"

record companion_sent =
  cq_name :: string
  cq_latitude :: "rat option"
  cq_longitude :: "rat option"
  cq_privateKey :: "string option"
  cq_advertInterval :: "int option"

definition degrees_sent :: "string \<Rightarrow> rat option" where  \<comment> \<open>\<open>s === "" ? null : parseFloat(s) || 0\<close>\<close>
  "degrees_sent s = (if s = [] then None else Some (nullish (parse_float s) 0))"

definition setup_companion :: "setup_wizard \<Rightarrow> companion_sent" where
  "setup_companion u =
     \<lparr>cq_name = trim (su_name u), cq_latitude = degrees_sent (su_lat u), cq_longitude = degrees_sent (su_lon u),
      cq_privateKey = null_if_empty (trim (su_privateKey u)),
      cq_advertInterval = (if trim (su_advertInterval u) = [] then None else Some (nullish (parse_int (su_advertInterval u)) 0))\<rparr>"

definition setup_sent :: "settings \<Rightarrow> setup_wizard \<Rightarrow> settings_input" where
  "setup_sent s u =
     (rf_input (su_conn u) (su_rf u) blank_input)\<lparr>gi_connection := trim (cn_connection (su_conn u)), gi_listenAddr := gs_listenAddr s,
       gi_dutyCycle := gs_dutyCycle s, gi_logLevel := gs_logLevel s,
       gi_packetRetentionDays := of_int (gs_packetRetentionDays s), gi_setupComplete := True\<rparr>"

datatype setup_event =
    Begin | EnterRestore | Back | Next | Skip | ToReview
  | Connect connection_event         \<comment> \<open>in the connection's fields\<close>
  | SetRf rf_fields                  \<comment> \<open>in the fields of the radio\<close>
  | TypeName string
  | PlacePicked string string
  | ShowAdvanced
  | TypeKey string
  | TypeInterval string
  | Finish
  | CompanionSaved "string option"   \<comment> \<open>what it was refused with\<close>
  | SettingsSaved "string option"
  | Restored

fun setup_step_of :: "spi_board list \<Rightarrow> serial_port list \<Rightarrow> setup_event \<Rightarrow> setup_wizard \<Rightarrow> setup_wizard" where
  "setup_step_of bs ps Begin u = (if su_step u = Welcome then u\<lparr>su_step := Radio\<rparr> else u)"
| "setup_step_of bs ps EnterRestore u = (if su_step u = Welcome then u\<lparr>su_step := Restore\<rparr> else u)"
| "setup_step_of bs ps Back u = (if su_step u \<noteq> Welcome \<and> \<not> su_busy u then u\<lparr>su_step := step_back (su_step u)\<rparr> else u)"
| "setup_step_of bs ps Next u = (if su_step u = Radio \<and> radioValid (su_conn u) (su_rf u) then u\<lparr>su_step := Companion\<rparr> else u)"
| "setup_step_of bs ps Skip u = (if su_step u = Companion \<and> \<not> su_busy u then u\<lparr>su_skip := True, su_step := Review\<rparr> else u)"
| "setup_step_of bs ps ToReview u =
     (if su_step u = Companion \<and> trim (su_name u) \<noteq> [] then u\<lparr>su_skip := False, su_step := Review\<rparr> else u)"
| "setup_step_of bs ps (Connect e) u = (if su_step u = Radio then u\<lparr>su_conn := connection_step bs ps e (su_conn u)\<rparr> else u)"
| "setup_step_of bs ps (SetRf f) u = (if su_step u = Radio then u\<lparr>su_rf := f\<rparr> else u)"
| "setup_step_of bs ps (TypeName v) u = (if su_step u = Companion then u\<lparr>su_name := v\<rparr> else u)"
| "setup_step_of bs ps (PlacePicked la lo) u = (if su_step u = Companion then u\<lparr>su_lat := la, su_lon := lo\<rparr> else u)"
| "setup_step_of bs ps ShowAdvanced u = (if su_step u = Companion then u\<lparr>su_advanced := True\<rparr> else u)"
| "setup_step_of bs ps (TypeKey v) u = (if su_step u = Companion \<and> su_advanced u then u\<lparr>su_privateKey := v\<rparr> else u)"
| "setup_step_of bs ps (TypeInterval v) u = (if su_step u = Companion \<and> su_advanced u then u\<lparr>su_advertInterval := v\<rparr> else u)"
| "setup_step_of bs ps Finish u = (if su_step u = Review \<and> \<not> su_busy u 
      then u\<lparr>su_wait := (if adds_companion u then ForCompanion else ForSettings)\<rparr> else u)"
| "setup_step_of bs ps (CompanionSaved denied) u =
     (if su_wait u \<noteq> ForCompanion then u
      else (case denied of None \<Rightarrow> u\<lparr>su_added := su_added u @ [trim (su_name u)], su_wait := ForSettings\<rparr>
        | Some e \<Rightarrow> u\<lparr>su_toasts := su_toasts u @ [e], su_wait := Idle\<rparr>))"
| "setup_step_of bs ps (SettingsSaved denied) u =
     (if su_wait u \<noteq> ForSettings \<or> su_done u then u
      else (case denied of None \<Rightarrow> u\<lparr>su_done := True\<rparr> | Some e \<Rightarrow> u\<lparr>su_toasts := su_toasts u @ [e], su_wait := Idle\<rparr>))"
| "setup_step_of bs ps Restored u = (if su_step u = Restore then u\<lparr>su_done := True\<rparr> else u)"

definition step_dot :: "setup_step \<Rightarrow> nat \<Rightarrow> int" where  \<comment> \<open>before, at or after the step that is open\<close>
  "step_dot current i = (case index_where (\<lambda>s. s = current) STEPS of Some j \<Rightarrow> int i - int j | None \<Rightarrow> int i + 1)"

definition review_companion :: "setup_wizard \<Rightarrow> string" where
  "review_companion u =
     (if \<not> adds_companion u then ''view-only''
      else trim (su_name u) @ '' '' @ [glyph_middot] @ '' #Public''
        @ (if su_lat u \<noteq> [] \<and> su_lon u \<noteq> [] then '' '' @ [glyph_middot] @ '' '' @ su_lat u @ '', '' @ su_lon u else []))"

section \<open>Restoring a backup\<close>

record restore_panel =
  rb_file :: "string option"
  rb_busy :: bool
  rb_result :: "(string \<times> bool) option"  \<comment> \<open>its text, and whether a restart is needed\<close>
  rb_toasts :: "(toast_kind \<times> string) list"

definition restore_file :: "restore_panel \<Rightarrow> restore_panel \<times> string option" where
  "restore_file r = (case rb_file r of None \<Rightarrow> (r, None) | Some f \<Rightarrow> (r\<lparr>rb_busy := True, rb_result := None\<rparr>, Some f))"

definition restore_answered :: "string + (string \<times> bool) \<Rightarrow> restore_panel \<Rightarrow> restore_panel \<times> bool" where  \<comment> \<open>and \<open>onRestored\<close>\<close>
  "restore_answered answer r =
     (case answer of
        Inl e \<Rightarrow> (r\<lparr>rb_busy := False, rb_toasts := rb_toasts r @ [(ErrorToast, e)]\<rparr>, False)
      | Inr (detail, restart) \<Rightarrow>
          (r\<lparr>rb_busy := False, rb_file := None, rb_result := Some (detail, restart),
             rb_toasts := rb_toasts r @ [(SuccessToast, if restart then ''Backup accepted '' @ [glyph_dash] @ '' restart to finish'' else ''Settings imported'')]\<rparr>,
           \<not> restart))"

section \<open>Properties\<close>

subsection \<open>The backend and the connection\<close>

definition backend_ok :: "connection_form \<Rightarrow> bool" where
  "backend_ok f \<longleftrightarrow> cn_type f = backendFor (cn_connection f)"

lemma scheme_of:
  "connectionScheme (''serial://'' @ x) = ''serial''" "connectionScheme (''tcp://'' @ x) = ''tcp''"
  "connectionScheme (''spi://'' @ x) = ''spi''" "connectionScheme (''openhop://'' @ x) = ''openhop''"
  by (simp_all add: connectionScheme_def)

lemmas scheme_bare [simp] = scheme_of [unfolded append.simps] scheme_of [of "[]", unfolded append.simps]

lemma backend_of:
  "backendFor (''serial://'' @ x) = ''kiss''" "backendFor (''tcp://'' @ x) = ''kiss''"
  "backendFor (''spi://'' @ x) = ''spi''" "backendFor (''openhop://'' @ x) = ''openhop''"
  unfolding backendFor_def scheme_of by (simp_all add: Let_def)

lemmas backend_bare [simp] = backend_of [unfolded append.simps] backend_of [of "[]", unfolded append.simps]

lemma scheme_cases: "connectionScheme c = ''serial'' \<or> connectionScheme c = ''tcp'' \<or> connectionScheme c = ''spi'' \<or> connectionScheme c = ''openhop''"
  by (simp add: connectionScheme_def)

lemma backend_kiss: "backendFor c = ''kiss'' \<longleftrightarrow> connectionScheme c = ''serial'' \<or> connectionScheme c = ''tcp''"
  using scheme_cases [of c] by (auto simp: backendFor_def Let_def)

lemma backend_spi: "backendFor c = ''spi'' \<longleftrightarrow> connectionScheme c = ''spi''"
  by (simp add: backendFor_def Let_def)

lemma backend_openhop: "backendFor c = ''openhop'' \<longleftrightarrow> connectionScheme c = ''openhop''"
  by (simp add: backendFor_def Let_def)

lemma backend_cases: "backendFor c = ''kiss'' \<or> backendFor c = ''spi'' \<or> backendFor c = ''openhop''"
  by (simp add: backendFor_def Let_def)

lemmas backend_flip [simp] = eq_commute [of "''kiss''" "backendFor _"] eq_commute [of "''spi''" "backendFor _"]
  eq_commute [of "''openhop''" "backendFor _"]

lemma set_target_ok: "backend_ok f \<Longrightarrow> cn_type f \<noteq> ''spi'' \<Longrightarrow> backend_ok (setTarget v f)"
  using backend_cases [of "cn_connection f"] backend_of [of "trim v"]
  by (auto simp: backend_ok_def setTarget_def transport_of_def backend_kiss)

lemma pick_backend_ok:
  "v = ''kiss'' \<or> v = ''openhop'' \<or> v = ''spi'' \<Longrightarrow> backend_ok f \<Longrightarrow> backend_ok (pickBackend bs ps v f)"
  using scheme_cases [of "cn_connection f"]
  by (elim disjE)
    (auto simp: backend_ok_def pickBackend_def Let_def backend_kiss backend_spi backend_openhop split: option.splits)

lemma pick_transport_ok: "backend_ok f \<Longrightarrow> cn_type f \<noteq> ''spi'' \<Longrightarrow> backend_ok (pickTransport ps v f)"
  using backend_cases [of "cn_connection f"] by (auto simp: backend_ok_def pickTransport_def Let_def)

lemma adopt_ok: "backend_ok f \<Longrightarrow> backend_ok (adopt_port ps f)"
  using backend_cases [of "cn_connection f"] by (auto simp: backend_ok_def adopt_port_def split: option.splits)

lemma connection_step_ok: "backend_ok f \<Longrightarrow> backend_ok (connection_step bs ps e f)"
  by (cases e) (auto simp: pick_backend_ok pick_transport_ok set_target_ok adopt_ok,
      auto simp: backend_ok_def pickBoard_def split: option.splits)

lemma connection_fold_ok: "backend_ok f \<Longrightarrow> backend_ok (fold (\<lambda>(bs, ps, e). connection_step bs ps e) es f)"
  by (induction es arbitrary: f) (auto simp: connection_step_ok)

lemma opened_backend_ok: "backend_ok (sf_conn (settings_opened num s f))" "backend_ok (su_conn (setup_start num s))"
proof -
  have "backendFor [] = ''kiss''" "backendFor ''serial:///dev/ttyACM0'' = ''kiss''" by code_simp+
  then show "backend_ok (sf_conn (settings_opened num s f))" "backend_ok (su_conn (setup_start num s))"
    by (auto simp: backend_ok_def settings_opened_def setup_start_def Let_def nullish_def split: option.splits)
qed

text \<open>C4: Whatever an operator picks or types in the fields of the connection, and whatever boards and ports are found meanwhile,
  the backend that is shown is the one the connection's url selects: the server, which reads only the url, starts
  the driver the page names. This holds of the settings page and of the wizard.\<close>
theorem backend_agrees:
  "backend_ok (fold (\<lambda>(bs, ps, e). connection_step bs ps e) es (sf_conn (settings_opened num s f)))
   \<and> backend_ok (fold (\<lambda>(bs, ps, e). connection_step bs ps e) es (su_conn (setup_start num s)))"
  by (intro conjI connection_fold_ok opened_backend_ok)

text \<open>An openHop modem's serial link runs at one rate. Picking the serial transport sets it; typing a device as the address makes
  the same link without it, and the rate's field is then disabled.\<close>

definition openhop_form :: connection_form where
  "openhop_form = \<lparr>cn_type = ''openhop'', cn_connection = ''openhop://'', cn_baudRate = ''115200'', cn_spiBoard = [], cn_modemToken = []\<rparr>"

lemma typed_device_wrong_rate:
  "let f = connection_step [] [] (TypeTarget ''/dev/ttyUSB0'') openhop_form in
   transport_of openhop_form = ''tcp'' \<and> transport_of f = ''serial'' \<and> cn_baudRate f \<noteq> OPENHOP_BAUD \<and> baud_locked f
   \<and> cn_baudRate (connection_step [] [] (PickTransport ''serial'') openhop_form) = OPENHOP_BAUD"
  by code_simp

subsection \<open>Presets\<close>

lemma find_by_name: "distinct (map pr_name ps) \<Longrightarrow> p \<in> set ps \<Longrightarrow> find (\<lambda>q. pr_name q = pr_name p) ps = Some p"
  by (induction ps) auto

text \<open>A preset that has been picked is the one the list then shows, also when others have the same values, provided a
  number's text reads back.\<close>
theorem picked_preset_shown:
  assumes "distinct (map pr_name presets)" and "p \<in> set presets"
    and "parse_float (num (pr_freq p)) = Some (pr_freq p)" and "parse_float (num (pr_bw p)) = Some (pr_bw p)"
    and "parse_int (num (of_int (pr_sf p))) = Some (pr_sf p)" and "parse_int (num (of_int (pr_cr p))) = Some (pr_cr p)"
  shows "preset_shown presets (pr_name p) (preset_picked num presets (pr_name p) f) = pr_name p"
  using assms by (simp add: preset_shown_def preset_picked_def find_by_name preset_matches_def preset_applied_def near_def)

definition twin_presets :: "radio_preset list" where
  "twin_presets = [\<lparr>pr_name = ''A'', pr_freq = 915, pr_bw = 125, pr_sf = 7, pr_cr = 5, pr_pathHashSize = 0\<rparr>,
     \<lparr>pr_name = ''B'', pr_freq = 915, pr_bw = 125, pr_sf = 7, pr_cr = 5, pr_pathHashSize = 2\<rparr>]"

definition digits_text :: "rat \<Rightarrow> string" where "digits_text r = show_int \<lfloor>r\<rfloor>"

theorem picked_preset_shown_witness:
  "preset_shown twin_presets ''B'' (preset_picked digits_text twin_presets ''B''
     \<lparr>rf_freq = [], rf_bw = [], rf_sf = [], rf_cr = [], rf_tx = [], rf_pathHashSize = ''1''\<rparr>) = ''B''"
proof -
  have "distinct (map pr_name twin_presets)" "twin_presets ! 1 \<in> set twin_presets" "pr_name (twin_presets ! 1) = ''B''"
    by (simp_all add: twin_presets_def)
  moreover have "parse_float (digits_text (pr_freq (twin_presets ! 1))) = Some (pr_freq (twin_presets ! 1))"
    "parse_float (digits_text (pr_bw (twin_presets ! 1))) = Some (pr_bw (twin_presets ! 1))"
    "parse_int (digits_text (of_int (pr_sf (twin_presets ! 1)))) = Some (pr_sf (twin_presets ! 1))"
    "parse_int (digits_text (of_int (pr_cr (twin_presets ! 1)))) = Some (pr_cr (twin_presets ! 1))" by code_simp+
  ultimately show ?thesis using picked_preset_shown [of twin_presets "twin_presets ! 1" digits_text] by metis
qed

subsection \<open>The wizard\<close>

definition setup_ok :: "setup_wizard \<Rightarrow> bool" where
  "setup_ok u \<longleftrightarrow> backend_ok (su_conn u)
     \<and> (su_step u = Companion \<or> su_step u = Review \<longrightarrow> radioValid (su_conn u) (su_rf u))
     \<and> (su_step u = Review \<longrightarrow> su_skip u \<or> trim (su_name u) \<noteq> [])
     \<and> (su_wait u \<noteq> Idle \<longrightarrow> su_step u = Review) \<and> (su_wait u = ForCompanion \<longrightarrow> adds_companion u)
     \<and> list_all (\<lambda>n. n \<noteq> []) (su_added u)"

lemma setup_step_ok: "setup_ok u \<Longrightarrow> setup_ok (setup_step_of bs ps e u)"
  by (cases e; cases "su_step u")
    (auto simp: setup_ok_def su_busy_def step_back_def adds_companion_def connection_step_ok split: option.splits)

lemma setup_fold_ok: "setup_ok u \<Longrightarrow> setup_ok (fold (\<lambda>(bs, ps, e). setup_step_of bs ps e) es u)"
  by (induction es arbitrary: u) (auto simp: setup_step_ok)

lemma setup_start_ok: "setup_ok (setup_start num s)"
  using opened_backend_ok(2) [of num s] by (simp add: setup_ok_def) (simp add: setup_start_def)

definition sent_usable :: "settings_input \<Rightarrow> bool" where
  "sent_usable i \<longleftrightarrow> gi_connection i \<noteq> [] \<and> gi_tx i \<noteq> None
     \<and> (gi_connectionType i = ''spi'' \<longrightarrow> gi_spiBoard i \<noteq> None \<and> gi_spiBoard i \<noteq> Some []) \<and> gi_setupComplete i"

lemma setup_sent_usable: "radioValid (su_conn u) (su_rf u) \<Longrightarrow> sent_usable (setup_sent s u)"
  by (auto simp: sent_usable_def setup_sent_def radioValid_def rf_input_def blank_input_def tx_sent_def parse_int_def trim_start_def)


text \<open>When the settings are refused after the companion was taken, finishing again adds the companion a second time.\<close>

definition no_settings :: settings where
  "no_settings = \<lparr>gs_logLevel = None, gs_connection = None, gs_baudRate = None, gs_spiBoard = None, gs_freq = None, gs_bw = None,
     gs_sf = None, gs_cr = None, gs_tx = None, gs_listenAddr = None, gs_mapProvider = ''osm'', gs_mapDarkStyle = ''original'',
     gs_mapTileKey = None, gs_modemTokenSet = False, gs_pathHashSize = None, gs_dutyCycle = None, gs_packetRetentionDays = 30,
     gs_floodRegions = [], gs_floodScope = ''everywhere''\<rparr>"

lemma first_radio_valid: "radioValid (su_conn (setup_start digits_text no_settings)) (su_rf (setup_start digits_text no_settings))"
proof -
  have "parse_float ''917.375'' \<noteq> None"
    by (simp add: parse_float_def Let_def trim_start_def digits_of_def is_digit_def is_space_def)
  moreover have "parse_int ''22'' \<noteq> None" "trim ''serial:///dev/ttyACM0'' \<noteq> []" by code_simp+
  moreover have "backendFor [] = ''kiss''" by code_simp
  ultimately show ?thesis by (simp add: radioValid_def setup_start_def no_settings_def)
qed

lemma finish_again_adds_twice:
  "su_added (fold (setup_step_of [] []) [Begin, Next, TypeName ''Base'', ToReview, Finish, CompanionSaved None,
     SettingsSaved (Some ''Timed out''), Finish, CompanionSaved None, SettingsSaved None] (setup_start digits_text no_settings))
   = [''Base'', ''Base'']"
proof -
  have "trim ''Base'' = ''Base''" by code_simp
  moreover have "su_step (setup_start digits_text no_settings) = Welcome" "su_added (setup_start digits_text no_settings) = []"
    "su_done (setup_start digits_text no_settings) = False" "su_wait (setup_start digits_text no_settings) = Idle"
    by (simp_all add: setup_start_def)
  ultimately show ?thesis using first_radio_valid by (simp add: adds_companion_def su_busy_def)
qed

text \<open>A frequency of zero passes the wizard's check and is sent as none.\<close>

lemma zero_frequency_none:
  "let u = (setup_start digits_text no_settings)\<lparr>su_step := Radio\<rparr>;
       v = setup_step_of [] [] (SetRf ((su_rf u)\<lparr>rf_freq := ''0''\<rparr>)) u
   in radioValid (su_conn v) (su_rf v) \<and> gi_freq (setup_sent no_settings v) = None"
proof -
  have "parse_float ''0'' = Some 0" by code_simp
  then show ?thesis
    using first_radio_valid by (simp add: radioValid_def setup_sent_def rf_input_def float_or_null_def)
qed

subsection \<open>The settings page\<close>

text \<open>What is typed where a number is meant and is none is saved as no number at all, with a notice of success: a duty cycle of
  \<open>1%\<close> lifts the cap to the default, degrees that do not parse become zero, an interval with a unit loses the unit.\<close>

definition typed_percent :: settings_form where
  "typed_percent = (settings_opened digits_text no_settings \<lparr>sf_conn = openhop_form,
     sf_rf = \<lparr>rf_freq = [], rf_bw = [], rf_sf = [], rf_cr = [], rf_tx = [], rf_pathHashSize = []\<rparr>, sf_listenAddr = [],
     sf_mapProvider = [], sf_mapDarkStyle = [], sf_mapTileKey = [], sf_dutyCycle = [], sf_logLevel = [], sf_packetDays = [],
     sf_floodRegions = [], sf_floodScope = []\<rparr>)\<lparr>sf_dutyCycle := ''1%''\<rparr>"

lemma thirty_days: "packet_days (digits_text 30) = Some 30"
proof -
  have d: "show_nat 30 = ''30''" "digits_text 30 = ''30''" "trim ''30'' \<noteq> []" by code_simp+
  then show ?thesis using js_number_show_nat [of 30] unfolding d by (simp add: packet_days_def)
qed

lemma duty_cycle_dropped:
  "gi_dutyCycle (settings_sent typed_percent 30) = None" "packet_days (sf_packetDays typed_percent) = Some 30"
  "degrees_sent ''abc'' = Some 0" "degrees_sent '' '' = Some 0" "parse_int ''1h'' = Some 1"
proof -
  have "js_number ''1%'' = None" by code_simp
  then show "gi_dutyCycle (settings_sent typed_percent 30) = None" by (simp add: settings_sent_def typed_percent_def duty_sent_def trim_def trim_start_def is_space_def)
  show "packet_days (sf_packetDays typed_percent) = Some 30"
    using thirty_days by (simp add: typed_percent_def settings_opened_def no_settings_def Let_def)
  have "parse_float ''abc'' = None" "parse_float '' '' = None" by code_simp+
  then show "degrees_sent ''abc'' = Some 0" "degrees_sent '' '' = Some 0" by (simp_all add: degrees_sent_def)
qed code_simp

text \<open>A save loads the settings again, which takes back what was edited while it was under way; the token stays in its field and
  is sent again.\<close>

lemma save_takes_back_edit:
  "sf_listenAddr (sg_form (settings_loaded num s (p\<lparr>sg_form := (sg_form p)\<lparr>sf_listenAddr := '':9090''\<rparr>\<rparr>))) = nullish (gs_listenAddr s) []
   \<and> cn_modemToken (sf_conn (sg_form (settings_loaded num s p))) = cn_modemToken (sf_conn (sg_form p))"
  by (simp add: settings_loaded_def settings_opened_def Let_def)

definition reads_back_settings :: "(rat \<Rightarrow> string) \<Rightarrow> settings \<Rightarrow> bool" where
  "reads_back_settings num s \<longleftrightarrow>
     list_all (\<lambda>x. case x of Some v \<Rightarrow> v \<noteq> 0 \<and> parse_float (num v) = Some v | None \<Rightarrow> True) [gs_freq s, gs_bw s]
     \<and> list_all (\<lambda>x. case x of Some v \<Rightarrow> v \<noteq> 0 \<and> parse_int (num (of_int v)) = Some v | None \<Rightarrow> True)
         [gs_sf s, gs_cr s, gs_baudRate s, gs_pathHashSize s]
     \<and> (case gs_tx s of Some v \<Rightarrow> parse_int (num (of_int v)) = Some v | None \<Rightarrow> True)
     \<and> (case gs_dutyCycle s of Some v \<Rightarrow> trim (num v) \<noteq> [] \<and> js_number (num v) = Some v | None \<Rightarrow> True)
     \<and> packet_days (num (of_int (gs_packetRetentionDays s))) = Some (of_int (gs_packetRetentionDays s))
     \<and> gs_baudRate s \<noteq> None \<and> gs_pathHashSize s \<noteq> None \<and> gs_connection s \<noteq> None
     \<and> gs_listenAddr s \<noteq> Some [] \<and> gs_logLevel s \<noteq> None \<and> gs_logLevel s \<noteq> Some []
     \<and> (case gs_mapTileKey s of Some k \<Rightarrow> trim k = k | None \<Rightarrow> True)"

definition settings_kept :: "settings \<Rightarrow> settings_input \<Rightarrow> bool" where
  "settings_kept s i \<longleftrightarrow> Some (gi_connection i) = gs_connection s \<and> Some (gi_baudRate i) = gs_baudRate s
     \<and> gi_freq i = gs_freq s \<and> gi_bw i = gs_bw s \<and> gi_sf i = gs_sf s \<and> gi_cr i = gs_cr s \<and> gi_tx i = gs_tx s
     \<and> gi_listenAddr i = gs_listenAddr s \<and> gi_map i = Some (gs_mapProvider s, gs_mapDarkStyle s, nullish (gs_mapTileKey s) [])
     \<and> Some (gi_pathHashSize i) = gs_pathHashSize s \<and> gi_dutyCycle i = gs_dutyCycle s \<and> gi_logLevel i = gs_logLevel s
     \<and> gi_packetRetentionDays i = of_int (gs_packetRetentionDays s)"

lemma float_kept:
  "(case x of Some v \<Rightarrow> v \<noteq> 0 \<and> parse_float (num v) = Some v | None \<Rightarrow> True) \<Longrightarrow> float_or_null (num_text num x) = x"
proof (cases x)
  case None
  moreover have "parse_float [] = None" by code_simp
  ultimately show ?thesis by (simp add: float_or_null_def num_text_def)
qed (simp add: float_or_null_def num_text_def)

lemma int_kept:
  "(case x of Some v \<Rightarrow> v \<noteq> 0 \<and> parse_int (num (of_int v)) = Some v | None \<Rightarrow> True) \<Longrightarrow>
   int_or_null (num_text num (map_option of_int x)) = x"
proof (cases x)
  case None
  moreover have "parse_int [] = None" by code_simp
  ultimately show ?thesis by (simp add: int_or_null_def num_text_def)
qed (simp add: int_or_null_def num_text_def)

lemma power_kept:
  "(case x of Some v \<Rightarrow> parse_int (num (of_int v)) = Some v | None \<Rightarrow> True) \<Longrightarrow>
   tx_sent (num_text num (map_option of_int x)) = x"
proof (cases x)
  case (Some v)
  have "parse_int [] = None" by code_simp
  with Some show "(case x of Some v \<Rightarrow> parse_int (num (of_int v)) = Some v | None \<Rightarrow> True) \<Longrightarrow> ?thesis"
    by (auto simp: num_text_def tx_sent_def)
qed (simp add: num_text_def tx_sent_def)

lemma or_kept: "v \<noteq> 0 \<Longrightarrow> parse_int (num (of_int v)) = Some v \<Longrightarrow> int_or (num (of_int v)) d = v"
  by (simp add: int_or_def)

lemma duty_kept:
  "(case x of Some v \<Rightarrow> trim (num v) \<noteq> [] \<and> js_number (num v) = Some v | None \<Rightarrow> True) \<Longrightarrow>
   duty_sent (num_text num x) = x"
  by (cases x) (simp_all add: duty_sent_def num_text_def trim_def trim_start_def)

lemma text_kept: "x \<noteq> Some [] \<Longrightarrow> null_if_empty (nullish x []) = x"
  by (cases x) (simp_all add: null_if_empty_def nullish_def)

lemma settings_sent_kept:
  assumes "reads_back_settings num s"
  shows "settings_kept s (settings_sent (settings_opened num s f) (of_int (gs_packetRetentionDays s)))"
proof -
  obtain b h c l where s: "gs_baudRate s = Some b" "gs_pathHashSize s = Some h" "gs_connection s = Some c" "gs_logLevel s = Some l"
    using assms by (auto simp: reads_back_settings_def)
  note r = assms [unfolded reads_back_settings_def list.pred_inject s option.case]
  have k: "trim (nullish (gs_mapTileKey s) []) = nullish (gs_mapTileKey s) []"
    using r by (cases "gs_mapTileKey s") (simp_all add: trim_def trim_start_def)
  have l: "null_if_empty l = Some l" using r s by (simp add: null_if_empty_def)
  have t: "null_if_empty (nullish (gs_listenAddr s) []) = gs_listenAddr s" using r text_kept by blast
  show ?thesis
    using r unfolding settings_kept_def settings_sent_def settings_opened_def rf_input_def
    by (simp add: Let_def s k l t float_kept int_kept power_kept duty_kept or_kept)
qed

text \<open>Settings that are opened and saved as they are: every number is sent back, provided its text reads back, and the other texts are
  sent as they came; the regions go first, and nothing else is sent when they are refused.\<close>
theorem opened_radio_unchanged:
  assumes "reads_back_settings num s"
  shows "case settings_save (settings_loaded num s p) of (q, rs) \<Rightarrow>
    \<exists>i. rs = [PutRegions (gs_floodRegions s) (gs_floodScope s), PutAll i] \<and> settings_kept s i \<and> sg_saving q"
proof -
  have "sf_packetDays (settings_opened num s f) = num (of_int (gs_packetRetentionDays s))"
    "sf_floodRegions (settings_opened num s f) = gs_floodRegions s" "sf_floodScope (settings_opened num s f) = gs_floodScope s" for f
    by (simp_all add: settings_opened_def Let_def)
  then show ?thesis
    using assms settings_sent_kept [OF assms] by (simp add: settings_save_def settings_loaded_def reads_back_settings_def)
qed

definition sample_settings :: settings where
  "sample_settings = no_settings\<lparr>gs_connection := Some ''tcp://h'', gs_baudRate := Some 115200, gs_freq := Some 915, gs_bw := Some 125,
     gs_sf := Some 7, gs_cr := Some 5, gs_tx := Some 22, gs_pathHashSize := Some 1, gs_logLevel := Some ''info''\<rparr>"

lemma sample_reads_back: "reads_back_settings digits_text sample_settings"
proof -
  have w: "digits_text (of_int (int n)) = show_nat n" for n by (simp add: digits_text_def show_int_def)
  have "parse_int (digits_text (of_int (int n))) = Some (int n)" for n unfolding w by (rule parse_int_show)
  from this [of 115200] this [of 7] this [of 5] this [of 22] this [of 1]
  have "parse_int (digits_text 115200) = Some 115200" "parse_int (digits_text 7) = Some 7" "parse_int (digits_text 5) = Some 5"
    "parse_int (digits_text 22) = Some 22" "parse_int (digits_text 1) = Some 1" by simp_all
  moreover have "parse_float (digits_text 915) = Some 915" "parse_float (digits_text 125) = Some 125" by code_simp+
  ultimately show ?thesis by (simp add: reads_back_settings_def sample_settings_def no_settings_def thirty_days)
qed

theorem opened_radio_unchanged_witness:
  "\<forall>p. case settings_save (settings_loaded digits_text sample_settings p) of (q, rs) \<Rightarrow>
    \<exists>i. rs = [PutRegions [] ''everywhere'', PutAll i] \<and> settings_kept sample_settings i \<and> sg_saving q"
proof
  fix p
  have "gs_floodRegions sample_settings = []" "gs_floodScope sample_settings = ''everywhere''"
    by (simp_all add: sample_settings_def no_settings_def)
  then show "case settings_save (settings_loaded digits_text sample_settings p) of (q, rs) \<Rightarrow>
    \<exists>i. rs = [PutRegions [] ''everywhere'', PutAll i] \<and> settings_kept sample_settings i \<and> sg_saving q"
    using opened_radio_unchanged [OF sample_reads_back, of p] by simp
qed

end
