(* ===== verification/RegionSettings.thy ===== *)
theory RegionSettings
  imports RegionForms
begin

text \<open>
  The list of regions on the settings page (\<open>components/FloodRegionsSection.tsx\<close>): adding, moving and removing a region, copying
  those of the own repeater, and asking the repeaters in range which regions they carry.
\<close>

section \<open>The list\<close>

definition bare_name :: "string \<Rightarrow> string" where  \<comment> \<open>\<open>name.replace(/^#/, "")\<close>\<close>
  "bare_name s = (if starts_with ''#'' s then drop 1 s else s)"

definition names_of :: "region_node list \<Rightarrow> string list" where
  "names_of rs = map rn_name rs"

record region_draft =
  rd_name :: string
  rd_parent :: string

definition draft_name :: "region_draft \<Rightarrow> string" where
  "draft_name d = bare_name (trim (rd_name d))"

definition draft_under :: "region_node list \<Rightarrow> region_draft \<Rightarrow> string" where
  "draft_under rs d = (if rd_parent d \<in> set (names_of rs) then rd_parent d else ''*'')"

definition can_add :: "region_node list \<Rightarrow> region_draft \<Rightarrow> bool" where
  "can_add rs d \<longleftrightarrow> draft_name d \<noteq> [] \<and> draft_name d \<notin> set (names_of rs) \<and> regionNameError (draft_name d) False = None"

definition add_listed :: "region_draft \<Rightarrow> region_node list \<Rightarrow> region_draft \<times> region_node list" where
  "add_listed d rs =
     (if can_add rs d then (d\<lparr>rd_name := []\<rparr>, rs @ [\<lparr>rn_name = draft_name d, rn_parent = draft_under rs d\<rparr>]) else (d, rs))"

definition draft_hint :: "region_node list \<Rightarrow> region_draft \<Rightarrow> string" where
  "draft_hint rs d =
     (let n = draft_name d in
      case (if n = [] then None else regionNameError n False) of
        Some e \<Rightarrow> e
      | None \<Rightarrow> if n \<in> set (names_of rs) \<and> n \<noteq> [] then ''already in the list'' else ''as your local mesh names it'')"

definition lift_child :: "region_node \<Rightarrow> region_node \<Rightarrow> region_node" where
  "lift_child gone r = (if rn_parent r = rn_name gone then r\<lparr>rn_parent := rn_parent gone\<rparr> else r)"

definition remove_region :: "region_node \<Rightarrow> region_node list \<Rightarrow> region_node list" where
  "remove_region gone rs = map (lift_child gone) (filter (\<lambda>r. rn_name r \<noteq> rn_name gone) rs)"

definition repeaterRegions :: "region_node list option \<Rightarrow> region_node list" where  \<comment> \<open>none: no repeater is configured\<close>
  "repeaterRegions repeater = (case repeater of None \<Rightarrow> []
     | Some rs \<Rightarrow> filter (\<lambda>r. rn_name r \<noteq> ''*'' \<and> \<not> starts_with ''$'' (rn_name r)) rs)"

definition bare_region :: "region_node \<Rightarrow> region_node" where
  "bare_region r = \<lparr>rn_name = bare_name (rn_name r), rn_parent = bare_name (rn_parent r)\<rparr>"

definition toCopy :: "region_node list option \<Rightarrow> region_node list \<Rightarrow> region_node list" where
  "toCopy repeater rs = filter (\<lambda>r. rn_name r \<notin> set (names_of rs)) (map bare_region (repeaterRegions repeater))"

definition under_known :: "string set \<Rightarrow> region_node \<Rightarrow> region_node" where
  "under_known all r = r\<lparr>rn_parent := (if rn_parent r \<in> all then rn_parent r else ''*'')\<rparr>"

definition copy_regions :: "region_node list option \<Rightarrow> region_node list \<Rightarrow> region_node list" where
  "copy_regions repeater rs =
     (let new = toCopy repeater rs; all = set (names_of rs @ names_of new) in rs @ map (under_known all) new)"

definition copy_hint :: "region_node list option \<Rightarrow> region_node list \<Rightarrow> string" where
  "copy_hint repeater rs =
     (if toCopy repeater rs = [] then ''all of them are listed''
      else ''adds '' @ join '', '' (names_of (toCopy repeater rs)) @ '', nested as on your repeater'')"

definition add_found :: "string list \<Rightarrow> region_node list \<Rightarrow> region_node list" where
  "add_found found rs = rs @ map (\<lambda>n. \<lparr>rn_name = n, rn_parent = ''*''\<rparr>) found"

section \<open>Discovery\<close>

record scanned_repeater =
  sr_pubkey :: string
  sr_name :: string
  sr_regions :: "string list"
  sr_status :: string

record region_scan =
  rs_phase :: string
  rs_running :: bool
  rs_secsLeft :: int
  rs_startedAt :: string
  rs_repeaters :: "scanned_repeater list"

definition sendable :: "string \<Rightarrow> bool" where
  "sendable nm \<longleftrightarrow> nm \<noteq> ''*'' \<and> \<not> starts_with ''$'' nm"

definition add_finder :: "string \<Rightarrow> string \<Rightarrow> (string \<times> string list) list \<Rightarrow> (string \<times> string list) list" where
  "add_finder nm who found = AList.update nm (nullish (map_of found nm) [] @ [who]) found"

definition found_regions :: "scanned_repeater list \<Rightarrow> (string \<times> string list) list" where
  "found_regions rps =
     foldl (\<lambda>found rp. foldl (\<lambda>f nm. add_finder nm (or_str (sr_name rp) (take 8 (sr_pubkey rp))) f) found
       (filter sendable (sr_regions rp))) [] rps"

definition fresh_regions :: "region_scan option \<Rightarrow> region_node list \<Rightarrow> string list" where
  "fresh_regions scan rs =
     filter (\<lambda>n. n \<notin> set (names_of rs)) (map fst (found_regions (case scan of Some s \<Rightarrow> rs_repeaters s | None \<Rightarrow> [])))"

definition scan_row :: "scanned_repeater \<Rightarrow> string \<times> string" where
  "scan_row rp =
     (or_str (sr_name rp) (take 12 (sr_pubkey rp)),
      if sr_status rp = ''answered''
      then (if filter sendable (sr_regions rp) \<noteq> [] then join '', '' (filter sendable (sr_regions rp)) else ''no named regions'')
      else sr_status rp)"

definition scan_line :: "(string \<Rightarrow> string) \<Rightarrow> region_scan option \<Rightarrow> string" where  \<comment> \<open>with the browser's \<open>toLocaleTimeString\<close>\<close>
  "scan_line time scan =
     (let idle = ''asks the repeaters that hear you which regions they carry'' in
      case scan of
        None \<Rightarrow> idle
      | Some s \<Rightarrow>
          if rs_phase s = ''listening'' then ''listening for repeaters in range '' @ [glyph_middot] @ '' '' @ show_int (rs_secsLeft s) @ '' s''
          else if rs_phase s = ''asking'' then ''asking each repeater for its regions''
          else if rs_phase s = ''done'' then ''last run '' @ time (rs_startedAt s)
          else idle)"

text \<open>The poll of a run: an effect of whether one is running. What a stopped effect still receives is dropped.\<close>

record scan_poll =
  sp_scan :: "region_scan option"
  sp_effect :: nat                    \<comment> \<open>the effect that is live\<close>
  sp_timer :: "nat option"            \<comment> \<open>the milliseconds to its next poll\<close>

definition is_running :: "scan_poll \<Rightarrow> bool" where
  "is_running p = (case sp_scan p of Some s \<Rightarrow> rs_running s | None \<Rightarrow> False)"

definition scan_set :: "region_scan \<Rightarrow> scan_poll \<Rightarrow> scan_poll" where  \<comment> \<open>\<open>setScan\<close>, and the effect when that starts or ends a run\<close>
  "scan_set st p =
     (let q = p\<lparr>sp_scan := Some st\<rparr> in
      if is_running q = is_running p then q else q\<lparr>sp_effect := Suc (sp_effect p), sp_timer := None\<rparr>)"

definition poll_answered_scan :: "nat \<Rightarrow> region_scan option \<Rightarrow> scan_poll \<Rightarrow> scan_poll" where
  "poll_answered_scan effect answer p =
     (if effect \<noteq> sp_effect p then p
      else (case answer of
        Some st \<Rightarrow> (let q = scan_set st p in if sp_effect q = effect \<and> rs_running st then q\<lparr>sp_timer := Some 1000\<rparr> else q)
      | None \<Rightarrow> if is_running p then p\<lparr>sp_timer := Some 3000\<rparr> else p))"

section \<open>Editing keeps the tree whole\<close>

datatype region_edit =
    AddDraft region_draft
  | MoveRegion string string
  | RemoveRegion string
  | CopyRegions "region_node list option"
  | AddFound "string list" region_scan     \<comment> \<open>the names of one button, in a scan\<close>

fun region_edited :: "region_edit \<Rightarrow> region_node list \<Rightarrow> region_node list" where
  "region_edited (AddDraft d) rs = snd (add_listed d rs)"
| "region_edited (MoveRegion nm p) rs =
     (case regionTree (length rs) rs of
        Some t \<Rightarrow> if list_ex (\<lambda>row. rn_name (fst row) = nm \<and> p \<in> set (snd (snd row))) t then move_region nm p rs else rs
      | None \<Rightarrow> rs)"
| "region_edited (RemoveRegion nm) rs =
     (case find (\<lambda>r. rn_name r = nm) rs of Some r \<Rightarrow> remove_region r rs | None \<Rightarrow> rs)"
| "region_edited (CopyRegions rep) rs = copy_regions rep rs"
| "region_edited (AddFound ns scan) rs =
     (if ns = fresh_regions (Some scan) rs \<or> (\<exists>n \<in> set (fresh_regions (Some scan) rs). ns = [n]) then add_found ns rs else rs)"

definition hangs :: "region_node list \<Rightarrow> region_node \<Rightarrow> bool" where  \<comment> \<open>on a row, at the top or under a listed region\<close>
  "hangs rs r \<longleftrightarrow> shown rs r \<and> (rn_parent r = ''*'' \<or> rn_parent r \<in> rn_name ` set rs)"

definition whole_list :: "region_node list \<Rightarrow> bool" where
  "whole_list rs \<longleftrightarrow> distinct_names rs \<and> (\<forall>r \<in> set rs. hangs rs r)"

lemma whole_listD:
  assumes "whole_list rs"
  shows "distinct_names rs" "r \<in> set rs \<Longrightarrow> hangs rs r" "r \<in> set rs \<Longrightarrow> \<exists>d. placed rs r d" "r \<in> set rs \<Longrightarrow> rn_name r \<noteq> ''*''"
  using assms shown_in unfolding whole_list_def hangs_def shown_def by blast+

lemma hangs_top: "x \<in> set rs \<Longrightarrow> rn_name x \<noteq> ''*'' \<Longrightarrow> rn_parent x = ''*'' \<Longrightarrow> hangs rs x"
  unfolding hangs_def by (intro conjI shown_intros(1)) (simp_all add: top_level_def)

lemma hangs_below: "x \<in> set rs \<Longrightarrow> rn_name x \<noteq> ''*'' \<Longrightarrow> hangs rs p \<Longrightarrow> rn_parent x = rn_name p \<Longrightarrow> hangs rs x"
  using shown_in [of rs p] unfolding hangs_def by (auto intro!: shown_intros(2) [of rs p] simp: children_def)

lemma placed_cases_whole:
  assumes w: "whole_list rs" and "placed rs r d"
  obtains "rn_parent r = ''*''" | p e where "d = Suc e" "placed rs p e" "rn_parent r = rn_name p"
proof (cases d)
  case 0
  then have "r \<in> set (top_level rs)" using assms(2) placed_0 by blast
  then have "rn_parent r = ''*''" using whole_listD(2) [OF w, of r] by (auto simp: hangs_def top_level_def)
  then show ?thesis by (rule that(1))
next
  case (Suc e)
  with assms(2) obtain p where "placed rs p e" "r \<in> set (children rs (rn_name p))" by (auto elim: placed_Suc)
  then show ?thesis using that(2) [OF Suc] children_in by blast
qed

lemma hangs_append:
  assumes "whole_list rs"
  shows "placed rs r d \<Longrightarrow> hangs (rs @ xs) r"
proof (induction d arbitrary: r rule: less_induct)
  case (less d)
  have r: "r \<in> set (rs @ xs)" "rn_name r \<noteq> ''*''" using placed_in [OF less.prems] by simp_all
  show ?case
  proof (rule placed_cases_whole [OF assms less.prems])
    fix p e assume "d = Suc e" "placed rs p e" "rn_parent r = rn_name p"
    then show ?thesis using hangs_below [OF r] less.IH [of e p] by simp
  qed (rule hangs_top [OF r])
qed

lemma whole_append:
  assumes w: "whole_list rs" and d: "distinct_names (rs @ xs)" and xs: "\<And>x. x \<in> set xs \<Longrightarrow> hangs (rs @ xs) x"
  shows "whole_list (rs @ xs)"
proof -
  have "hangs (rs @ xs) r" if "r \<in> set rs" for r using whole_listD(3) [OF w that] hangs_append [OF w] by blast
  then show ?thesis using d xs unfolding whole_list_def set_append Un_iff by blast
qed

lemma distinct_append_names:
  "distinct_names (rs @ xs) \<longleftrightarrow> distinct_names rs \<and> distinct_names xs \<and> (\<forall>x \<in> set xs. rn_name x \<notin> rn_name ` set rs)"
  by (auto simp: distinct_names_def) (metis imageI)

lemma star_refused: "regionNameError ''*'' b \<noteq> None"
  by (simp add: regionNameError_def)

lemma add_whole:
  assumes w: "whole_list rs"
  shows "whole_list (snd (add_listed d rs))"
proof (cases "can_add rs d")
  case True
  let ?x = "\<lparr>rn_name = draft_name d, rn_parent = draft_under rs d\<rparr>"
  have n: "draft_name d \<notin> rn_name ` set rs" using True by (simp add: can_add_def names_of_def)
  have star: "rn_name ?x \<noteq> ''*''" using True star_refused [of False] by (metis can_add_def region_node.select_convs(1))
  have "hangs (rs @ [?x]) ?x"
  proof (cases "rd_parent d \<in> rn_name ` set rs")
    case True
    then obtain p where p: "p \<in> set rs" "rd_parent d = rn_name p" by auto
    have "hangs (rs @ [?x]) p" using whole_listD(3) [OF w p(1)] hangs_append [OF w] by blast
    then show ?thesis using True p by (intro hangs_below [OF _ star]) (simp_all add: draft_under_def names_of_def)
  next
    case False
    then show ?thesis by (intro hangs_top [OF _ star]) (simp_all add: draft_under_def names_of_def)
  qed
  moreover have "distinct_names (rs @ [?x])" using whole_listD(1) [OF w] n by (simp add: distinct_append_names distinct_names_def)
  ultimately have "whole_list (rs @ [?x])" by (intro whole_append [OF w]) simp_all
  then show ?thesis using True by (simp add: add_listed_def)
qed (simp add: add_listed_def w)

lemma lift_name [simp]: "rn_name (lift_child g r) = rn_name r"
  by (simp add: lift_child_def)

lemma lift_hangs:
  assumes w: "whole_list rs" and g: "g \<in> set rs"
  shows "placed rs r d \<Longrightarrow> r \<noteq> g \<Longrightarrow> hangs (remove_region g rs) (lift_child g r)"
proof (induction d arbitrary: r rule: less_induct)
  case (less d)
  note names = whole_listD(1) [OF w]
  have in_new: "lift_child g x \<in> set (remove_region g rs)" "rn_name (lift_child g x) \<noteq> ''*''" if "placed rs x e" "x \<noteq> g" for x e
    using placed_in [OF that(1)] that(2) same_name [OF names _ g] by (auto simp: remove_region_def)
  note r = in_new [OF less.prems]
  show ?case
  proof (rule placed_cases_whole [OF w less.prems(1)])
    assume "rn_parent r = ''*''"
    then show ?thesis using whole_listD(4) [OF w g] by (intro hangs_top [OF r]) (auto simp: lift_child_def)
  next
    fix p e assume p: "d = Suc e" "placed rs p e" "rn_parent r = rn_name p"
    show ?thesis
    proof (cases "p = g")
      case False
      then have "rn_name p \<noteq> rn_name g" using placed_in [OF p(2)] same_name [OF names _ g] by blast
      then show ?thesis using p less.IH [of e p] False by (intro hangs_below [OF r, of "lift_child g p"]) (auto simp: lift_child_def)
    next
      case True
      then have lifted: "rn_parent (lift_child g r) = rn_parent g" using p(3) by (simp add: lift_child_def)
      show ?thesis
      proof (rule placed_cases_whole [OF w p(2) [unfolded True]])
        assume "rn_parent g = ''*''"
        then show ?thesis using lifted by (intro hangs_top [OF r]) simp
      next
        fix q f assume q: "e = Suc f" "placed rs q f" "rn_parent g = rn_name q"
        have "q \<noteq> g" using q placed_unique [OF names, of g f "Suc f"] p(2) True by auto
        then show ?thesis using lifted q p(1) less.IH [of f q] by (intro hangs_below [OF r, of "lift_child g q"]) simp_all
      qed
    qed
  qed
qed

lemma remove_whole:
  assumes w: "whole_list rs" and g: "g \<in> set rs"
  shows "whole_list (remove_region g rs)"
proof -
  have "hangs (remove_region g rs) x" if "x \<in> set (remove_region g rs)" for x
  proof -
    from that obtain r where r: "r \<in> set rs" "r \<noteq> g" "x = lift_child g r" by (auto simp: remove_region_def)
    with whole_listD(3) [OF w r(1)] lift_hangs [OF w g] show ?thesis by blast
  qed
  moreover have "map rn_name (remove_region g rs) = map rn_name (filter (\<lambda>r. rn_name r \<noteq> rn_name g) rs)"
    by (simp add: remove_region_def)
  then have "distinct_names (remove_region g rs)"
    using whole_listD(1) [OF w] by (simp add: distinct_names_def distinct_map_filter)
  ultimately show ?thesis by (simp add: whole_list_def)
qed

lemma move_whole:
  assumes w: "whole_list rs" and ok: "move_ok rs r p"
  shows "whole_list (move_region (rn_name r) p rs)"
proof -
  let ?new = "move_region (rn_name r) p rs"
  note names = whole_listD(1) [OF w]
  have n: "distinct_names ?new" "rn_name ` set ?new = rn_name ` set rs"
    using names set_move_names by (simp_all add: distinct_names_def)
  have "hangs ?new x" if x: "x \<in> set ?new" for x
  proof -
    obtain y where y: "y \<in> set rs" "x = moved (rn_name r) p y" using x by (auto simp: move_region_moved)
    have "shown rs y" "rn_parent y = ''*'' \<or> rn_parent y \<in> rn_name ` set rs"
      using whole_listD(2) [OF w y(1)] by (simp_all add: hangs_def)
    note y_hangs = this
    have "rn_name x \<in> rn_name ` {z. shown ?new z}" using y y_hangs(1) by (simp add: moved_shown_names [OF ok])
    then obtain z where z: "shown ?new z" "rn_name x = rn_name z" by auto
    then have "x = z" using same_name [OF n(1) x] shown_in by blast
    moreover have "p = ''*'' \<or> p \<in> rn_name ` set rs" using ok shown_in by (auto simp: move_ok_def)
    then have "rn_parent x = ''*'' \<or> rn_parent x \<in> rn_name ` set rs" using y(2) y_hangs(2) by (simp add: moved_def)
    ultimately show ?thesis using z(1) n(2) by (simp add: hangs_def)
  qed
  with n(1) show ?thesis by (simp add: whole_list_def)
qed

definition tree_of_repeater :: "region_node list \<Rightarrow> bool" where  \<comment> \<open>without the sign of a hash name, still a tree of distinct names\<close>
  "tree_of_repeater R \<longleftrightarrow> distinct_names R \<and> (\<forall>r \<in> set R. shown R r)"

lemma copied_hangs:
  assumes w: "whole_list rs" and R: "R = map bare_region (repeaterRegions rep)" and star: "''*'' \<notin> rn_name ` set R"
  shows "placed R r d \<Longrightarrow> \<exists>x. rn_name x = rn_name r \<and> hangs (copy_regions rep rs) x"
proof (induction rule: placed.induct)
  have old: "\<exists>x. rn_name x = n \<and> hangs (copy_regions rep rs) x" if "n \<in> rn_name ` set rs" for n
    using that whole_listD(3) [OF w] hangs_append [OF w] unfolding copy_regions_def Let_def by blast
  define all where "all = set (names_of rs @ names_of (toCopy rep rs))"
  have new: "\<exists>x. rn_name x = rn_name r \<and> hangs (copy_regions rep rs) x"
    if r: "r \<in> set R" "rn_name r \<noteq> ''*''" and up: "rn_parent r \<in> all \<Longrightarrow> \<exists>x. rn_name x = rn_parent r \<and> hangs (copy_regions rep rs) x" for r
  proof (cases "rn_name r \<in> rn_name ` set rs")
    case False
    then have x: "under_known all r \<in> set (copy_regions rep rs)" "rn_name (under_known all r) \<noteq> ''*''"
      using r R by (auto simp: copy_regions_def toCopy_def names_of_def all_def under_known_def Let_def)
    show ?thesis
    proof (cases "rn_parent r \<in> all")
      case True
      then obtain p where "rn_name p = rn_parent r" "hangs (copy_regions rep rs) p" using up by blast
      then have "hangs (copy_regions rep rs) (under_known all r)" using True by (intro hangs_below [OF x, of p]) (simp_all add: under_known_def)
      then show ?thesis by (intro exI [of _ "under_known all r"]) (simp add: under_known_def)
    next
      case False
      then have "hangs (copy_regions rep rs) (under_known all r)" by (intro hangs_top [OF x]) (simp add: under_known_def)
      then show ?thesis by (intro exI [of _ "under_known all r"]) (simp add: under_known_def)
    qed
  qed (rule old)
  have copied: "n \<in> all \<Longrightarrow> n \<in> rn_name ` set rs \<or> n \<in> rn_name ` set R" for n
    using R by (auto simp: all_def names_of_def toCopy_def)
  {
    case (top r)
    show ?case
    proof (rule new)
      assume "rn_parent r \<in> all"
      moreover have "rn_parent r \<notin> rn_name ` set R" using top star unfolding top_level_def by auto
      ultimately have "rn_parent r \<in> rn_name ` set rs" using copied by blast
      then show "\<exists>x. rn_name x = rn_parent r \<and> hangs (copy_regions rep rs) x" by (rule old)
    qed (use top in auto)
  next
    case (sub p d r)
    have up: "rn_parent r = rn_name p" "r \<in> set R" "rn_name r \<noteq> ''*''" using children_in [OF sub.hyps(2)] by simp_all
    show ?case by (rule new [OF up(2,3)]) (use sub.IH up(1) in simp)
  }
qed

lemma toCopy_new:
  assumes "n \<in> set (map rn_name (toCopy rep rs))"
  shows "n \<notin> set (names_of rs)"
proof -
  from assms obtain r where r: "r \<in> set (toCopy rep rs)" "n = rn_name r" unfolding set_map by (rule imageE)
  from r(1) show ?thesis unfolding r(2) toCopy_def by simp
qed

lemma copy_whole:
  assumes w: "whole_list rs" and t: "tree_of_repeater (map bare_region (repeaterRegions rep))"
  shows "whole_list (copy_regions rep rs)"
proof -
  let ?R = "map bare_region (repeaterRegions rep)" and ?xs = "map (under_known (set (names_of rs @ names_of (toCopy rep rs)))) (toCopy rep rs)"
  have c: "copy_regions rep rs = rs @ ?xs" by (simp add: copy_regions_def Let_def)
  have star: "''*'' \<notin> rn_name ` set ?R" using t shown_in [of ?R] unfolding tree_of_repeater_def by (metis imageE)
  have "distinct (map rn_name (toCopy rep rs))"
    using t unfolding tree_of_repeater_def distinct_names_def toCopy_def by (intro distinct_map_filter) blast
  moreover have "set (map rn_name rs) \<inter> set (map rn_name (toCopy rep rs)) = {}"
    using toCopy_new [of _ rep rs] unfolding disjoint_iff names_of_def by blast
  moreover have "map rn_name (rs @ ?xs) = map rn_name rs @ map rn_name (toCopy rep rs)" by (simp add: under_known_def)
  ultimately have d: "distinct_names (rs @ ?xs)"
    using whole_listD(1) [OF w] by (simp only: distinct_names_def distinct_append simp_thms)
  have "hangs (rs @ ?xs) x" if x: "x \<in> set ?xs" for x
  proof -
    obtain r where "r \<in> set (toCopy rep rs)" "x = under_known (set (names_of rs @ names_of (toCopy rep rs))) r"
      using x unfolding set_map by (rule imageE)
    then have r: "r \<in> set ?R" "rn_name x = rn_name r" by (simp_all add: toCopy_def under_known_def)
    then obtain n where "placed ?R r n" using t by (auto simp: tree_of_repeater_def shown_def)
    then obtain y where y: "rn_name y = rn_name r" "hangs (rs @ ?xs) y" using copied_hangs [OF w refl star] unfolding c by blast
    have "y \<in> set (rs @ ?xs)" using y(2) shown_in unfolding hangs_def by blast
    moreover have "x \<in> set (rs @ ?xs)" using x unfolding set_append by (rule UnI2)
    ultimately have "x = y" using same_name [OF d] y(1) r(2) by metis
    with y show ?thesis by simp
  qed
  with d show ?thesis unfolding c by (intro whole_append [OF w])
qed

lemma found_distinct: "distinct (map fst (found_regions rps)) \<and> (\<forall>k \<in> fst ` set (found_regions rps). sendable k)"
proof -
  have inner: "distinct (map fst f) \<and> (\<forall>k \<in> fst ` set f. sendable k) \<Longrightarrow> list_all sendable ns \<Longrightarrow>
    distinct (map fst (foldl (\<lambda>f nm. add_finder nm w f) f ns)) \<and> (\<forall>k \<in> fst ` set (foldl (\<lambda>f nm. add_finder nm w f) f ns). sendable k)"
    for f :: "(string \<times> string list) list" and ns w
  proof (induction ns arbitrary: f)
    case (Cons n ns)
    have "distinct (map fst (add_finder n w f)) \<and> (\<forall>k \<in> fst ` set (add_finder n w f). sendable k)"
      using Cons.prems by (auto simp: add_finder_def distinct_update dom_update)
    with Cons show ?case by simp
  qed simp
  have "distinct (map fst f) \<and> (\<forall>k \<in> fst ` set f. sendable k) \<Longrightarrow>
    distinct (map fst (foldl (\<lambda>found rp. foldl (\<lambda>f nm. add_finder nm (or_str (sr_name rp) (take 8 (sr_pubkey rp))) f) found
       (filter sendable (sr_regions rp))) f rps))
    \<and> (\<forall>k \<in> fst ` set (foldl (\<lambda>found rp. foldl (\<lambda>f nm. add_finder nm (or_str (sr_name rp) (take 8 (sr_pubkey rp))) f) found
       (filter sendable (sr_regions rp))) f rps). sendable k)" for f
  proof (induction rps arbitrary: f)
    case (Cons rp rps)
    from inner [OF Cons.prems, of "filter sendable (sr_regions rp)" "or_str (sr_name rp) (take 8 (sr_pubkey rp))"]
    show ?case unfolding foldl_Cons by (intro Cons.IH) (simp add: list_all_iff)
  qed simp
  from this [of "[]"] show ?thesis by (simp add: found_regions_def)
qed

lemma found_whole:
  assumes w: "whole_list rs" and d: "distinct ns" and n: "\<And>n. n \<in> set ns \<Longrightarrow> n \<noteq> ''*'' \<and> n \<notin> rn_name ` set rs"
  shows "whole_list (add_found ns rs)"
  unfolding add_found_def
proof (rule whole_append [OF w])
  let ?xs = "map (\<lambda>n. \<lparr>rn_name = n, rn_parent = ''*''\<rparr>) ns"
  have "map rn_name ?xs = ns" by (simp add: comp_def)
  then show "distinct_names (rs @ ?xs)" using whole_listD(1) [OF w] d n by (auto simp: distinct_append_names distinct_names_def)
  fix x assume "x \<in> set ?xs"
  then show "hangs (rs @ ?xs) x" using n by (intro hangs_top) auto
qed

lemma fresh_names:
  "distinct (fresh_regions scan rs) \<and> (\<forall>n \<in> set (fresh_regions scan rs). n \<noteq> ''*'' \<and> n \<notin> rn_name ` set rs)"
  using found_distinct by (auto simp: fresh_regions_def names_of_def sendable_def)

fun edit_sound :: "region_edit \<Rightarrow> bool" where
  "edit_sound (CopyRegions rep) \<longleftrightarrow> tree_of_repeater (map bare_region (repeaterRegions rep))"
| "edit_sound _ \<longleftrightarrow> True"

lemma edited_whole:
  assumes w: "whole_list rs" and e: "edit_sound e"
  shows "whole_list (region_edited e rs)"
proof (cases e)
  case (AddDraft d)
  with add_whole [OF w] show ?thesis by simp
next
  case (MoveRegion nm p)
  have "move_ok rs r p" if "regionTree (length rs) rs = Some t" "(r, d, ps) \<in> set t" "p \<in> set ps" for t r d ps
    using offered_move_ok [OF whole_listD(1) [OF w]] that by blast
  then show ?thesis using w MoveRegion move_whole [OF w] by (auto simp: list_ex_iff split: option.splits)
next
  case (RemoveRegion nm)
  then show ?thesis using w remove_whole [OF w] by (auto simp: find_Some_iff split: option.splits)
next
  case (CopyRegions rep)
  with copy_whole [OF w] e show ?thesis by simp
next
  case (AddFound ns scan)
  have "whole_list (add_found ns rs)" if "ns = fresh_regions (Some scan) rs \<or> (\<exists>n \<in> set (fresh_regions (Some scan) rs). ns = [n])"
    using that fresh_names [of "Some scan" rs] by (intro found_whole [OF w]) auto
  with w AddFound show ?thesis by simp
qed

text \<open>C8: Editing keeps the tree of regions whole: however regions are typed in, moved where their rows offer, removed, copied from the
  repeater or taken from a scan, names stay distinct, each region has a row, and its parent is listed or the top; and so
  the tree has a row for every region, once each.\<close>
theorem region_edits_keep_tree:
  assumes "whole_list rs" and "list_all edit_sound es"
  shows "whole_list (fold region_edited es rs)
    \<and> (\<exists>t. regionTree (length (fold region_edited es rs)) (fold region_edited es rs) = Some t
         \<and> distinct (map fst t) \<and> fst ` set t = set (fold region_edited es rs))"
proof -
  have w: "whole_list (fold region_edited es rs)"
    using assms by (induction es arbitrary: rs) (auto intro: edited_whole)
  then have "{r. shown (fold region_edited es rs) r} = set (fold region_edited es rs)"
    using shown_in by (auto simp: whole_list_def hangs_def)
  with w tree_rows [OF whole_listD(1) [OF w]] show ?thesis by metis
qed

theorem region_edits_keep_tree_witness:
  "whole_list (fold region_edited [AddDraft \<lparr>rd_name = ''#nz'', rd_parent = ''*''\<rparr>, AddDraft \<lparr>rd_name = ''akl'', rd_parent = ''nz''\<rparr>,
     CopyRegions (Some [\<lparr>rn_name = ''*'', rn_parent = []\<rparr>, \<lparr>rn_name = ''#wlg'', rn_parent = ''#nz''\<rparr>]),
     MoveRegion ''akl'' ''wlg'', RemoveRegion ''nz''] [])"
proof -
  let ?R = "map bare_region (repeaterRegions (Some [\<lparr>rn_name = ''*'', rn_parent = []\<rparr>, \<lparr>rn_name = ''#wlg'', rn_parent = ''#nz''\<rparr>]))"
  have "?R = [\<lparr>rn_name = ''wlg'', rn_parent = ''nz''\<rparr>]" by code_simp
  then have "tree_of_repeater ?R"
    by (auto simp: tree_of_repeater_def distinct_names_def top_level_def intro!: shown_intros(1))
  moreover have "whole_list []" by (simp add: whole_list_def distinct_names_def)
  ultimately show ?thesis
    using region_edits_keep_tree [of "[]" "[AddDraft \<lparr>rd_name = ''#nz'', rd_parent = ''*''\<rparr>, AddDraft \<lparr>rd_name = ''akl'', rd_parent = ''nz''\<rparr>,
     CopyRegions (Some [\<lparr>rn_name = ''*'', rn_parent = []\<rparr>, \<lparr>rn_name = ''#wlg'', rn_parent = ''#nz''\<rparr>]),
     MoveRegion ''akl'' ''wlg'', RemoveRegion ''nz'']"] by (simp only: list.pred_inject edit_sound.simps simp_thms)
qed

text \<open>A repeater that carries a name with and without its sign gives the same region twice: both are copied, and the list then has
  two rows of one name.\<close>

lemma copied_twice:
  "names_of (copy_regions (Some [\<lparr>rn_name = ''nz'', rn_parent = ''*''\<rparr>, \<lparr>rn_name = ''#nz'', rn_parent = ''*''\<rparr>]) []) = [''nz'', ''nz'']"
  by code_simp

text \<open>Names a scan finds are added as they come, also those the field itself refuses.\<close>

lemma found_unchecked:
  "fresh_regions (Some \<lparr>rs_phase = ''done'', rs_running = False, rs_secsLeft = 0, rs_startedAt = [],
     rs_repeaters = [\<lparr>sr_pubkey = ''ab'', sr_name = ''Hill'', sr_regions = [''nz wlg''], sr_status = ''answered''\<rparr>]\<rparr>) [] = [''nz wlg'']
   \<and> regionNameError ''nz wlg'' False = Some ''no spaces''"
  by code_simp

lemma stopped_effect_ignored: "effect \<noteq> sp_effect p \<Longrightarrow> poll_answered_scan effect answer p = p"
  by (simp add: poll_answered_scan_def)

end
