(* ===== verification/TelemetryGrants.thy ===== *)
theory TelemetryGrants
  imports MonitorForm "HOL-Library.Word"
begin

text \<open>
  Who may read a companion's telemetry (\<open>components/TelemetryAccess.tsx\<close>): a mode for each class of readings, saved together, and
  for a class open to chosen contacts a grant for each of them, saved on the click. A contact's grants are the firmware's
  permission byte. Grants are shown at once and sent one at a time.
\<close>

unbundle bit_operations_syntax

section \<open>Modes\<close>

datatype telemetry_mode = Deny | Selected | Contacts

datatype telemetry_class = Base | Location | Environment

definition CLASSES :: "telemetry_class list" where "CLASSES = [Base, Location, Environment]"

type_synonym grant_byte = "8 word"

definition class_bit :: "telemetry_class \<Rightarrow> grant_byte" where
  "class_bit c = (case c of Base \<Rightarrow> 1 | Location \<Rightarrow> 2 | Environment \<Rightarrow> 4)"

definition class_text :: "telemetry_class \<Rightarrow> string \<times> string \<times> string" where  \<comment> \<open>label, short, note\<close>
  "class_text c = (case c of
     Base \<Rightarrow> (''Battery and device'', ''device'', [])
   | Location \<Rightarrow> (''Position'', ''position'', ''Only a GPS fix is sent, and this host has no GPS.'')
   | Environment \<Rightarrow> (''Sensor readings'', ''sensors'', []))"

type_synonym modes = "telemetry_class \<Rightarrow> telemetry_mode"

record grant_contact =
  gc_pubkey :: string
  gc_name :: string
  gc_perms :: grant_byte              \<comment> \<open>0 when it has none\<close>

record telemetry_access =
  ta_saved :: "modes option"
  ta_modes :: "modes option"
  ta_loadError :: "string option"
  ta_saving :: bool
  ta_contacts :: "grant_contact list option"
  ta_contactsError :: "string option"
  ta_seq :: nat
  ta_queue :: "(string \<times> grant_byte) list"  \<comment> \<open>the grants to send, the first of them under way\<close>
  ta_toasts :: "(toast_kind \<times> string) list"

definition access_start :: telemetry_access where
  "access_start = \<lparr>ta_saved = None, ta_modes = None, ta_loadError = None, ta_saving = False, ta_contacts = None,
     ta_contactsError = None, ta_seq = 0, ta_queue = [], ta_toasts = []\<rparr>"

definition access_load :: "telemetry_access \<Rightarrow> telemetry_access \<times> nat" where  \<comment> \<open>and the load's number\<close>
  "access_load a = (a\<lparr>ta_seq := Suc (ta_seq a), ta_loadError := None\<rparr>, Suc (ta_seq a))"

definition access_loaded :: "nat \<Rightarrow> string + modes \<Rightarrow> telemetry_access \<Rightarrow> telemetry_access" where
  "access_loaded load answer a =
     (if ta_seq a \<noteq> load then a
      else (case answer of
        Inl e \<Rightarrow> a\<lparr>ta_loadError := Some e\<rparr>
      | Inr m \<Rightarrow> a\<lparr>ta_saved := Some m, ta_modes := Some m\<rparr>))"

definition access_left :: "telemetry_access \<Rightarrow> telemetry_access" where  \<comment> \<open>the effect's end\<close>
  "access_left a = a\<lparr>ta_seq := Suc (ta_seq a)\<rparr>"

definition mode_picked :: "telemetry_class \<Rightarrow> telemetry_mode \<Rightarrow> telemetry_access \<Rightarrow> telemetry_access" where
  "mode_picked c v a = a\<lparr>ta_modes := map_option (\<lambda>m. m(c := v)) (ta_modes a)\<rparr>"

definition chosen_classes :: "telemetry_access \<Rightarrow> telemetry_class list" where
  "chosen_classes a = filter (\<lambda>c. case ta_saved a of Some m \<Rightarrow> m c = Selected | None \<Rightarrow> False) CLASSES"

definition unsavedChosen :: "telemetry_access \<Rightarrow> bool" where
  "unsavedChosen a \<longleftrightarrow> list_ex (\<lambda>c. (case ta_modes a of Some m \<Rightarrow> m c = Selected | None \<Rightarrow> False)
     \<and> \<not> (case ta_saved a of Some m \<Rightarrow> m c = Selected | None \<Rightarrow> False)) CLASSES"

definition access_dirty :: "telemetry_access \<Rightarrow> bool" where
  "access_dirty a \<longleftrightarrow> (case (ta_saved a, ta_modes a) of (Some s, Some m) \<Rightarrow> list_ex (\<lambda>c. s c \<noteq> m c) CLASSES | _ \<Rightarrow> False)"

definition access_save :: "telemetry_access \<Rightarrow> telemetry_access \<times> modes option" where  \<comment> \<open>and what is sent\<close>
  "access_save a =
     (if \<not> access_dirty a \<or> ta_saving a then (a, None) else (a\<lparr>ta_saving := True\<rparr>, ta_modes a))"

definition access_saved :: "modes \<Rightarrow> string option \<Rightarrow> telemetry_access \<Rightarrow> telemetry_access" where  \<comment> \<open>what was sent, and what it was refused with\<close>
  "access_saved sent denied a =
     (case denied of
        None \<Rightarrow> a\<lparr>ta_saved := Some sent, ta_saving := False, ta_toasts := ta_toasts a @ [(SuccessToast, ''Telemetry access saved'')]\<rparr>
      | Some e \<Rightarrow> a\<lparr>ta_saving := False, ta_toasts := ta_toasts a @ [(ErrorToast, e)]\<rparr>)"

section \<open>Grants\<close>

definition needContacts :: "telemetry_access \<Rightarrow> bool" where
  "needContacts a \<longleftrightarrow> chosen_classes a \<noteq> []"

definition contacts_wanted :: "telemetry_access \<Rightarrow> bool" where  \<comment> \<open>the effect asks for them\<close>
  "contacts_wanted a \<longleftrightarrow> needContacts a \<and> ta_contacts a = None \<and> ta_contactsError a = None"

definition grant_contacts_read :: "string + grant_contact list \<Rightarrow> telemetry_access \<Rightarrow> telemetry_access" where
  \<comment> \<open>dropped when the effect that asked has ended\<close>
  "grant_contacts_read answer a =
     (if \<not> contacts_wanted a then a
      else (case answer of Inl e \<Rightarrow> a\<lparr>ta_contactsError := Some e\<rparr> | Inr cs \<Rightarrow> a\<lparr>ta_contacts := Some cs\<rparr>))"

definition granted :: "grant_byte \<Rightarrow> grant_byte \<Rightarrow> bool \<Rightarrow> grant_byte" where
  "granted before b on = (if on then before OR b else before AND NOT b)"

definition has_grant :: "grant_contact \<Rightarrow> telemetry_class \<Rightarrow> bool" where
  "has_grant ct c \<longleftrightarrow> gc_perms ct AND class_bit c \<noteq> 0"

definition perms_shown :: "telemetry_access \<Rightarrow> string \<Rightarrow> grant_byte" where
  "perms_shown a pubkey =
     (case ta_contacts a of None \<Rightarrow> 0
      | Some cs \<Rightarrow> (case find (\<lambda>c. gc_pubkey c = pubkey) cs of Some c \<Rightarrow> gc_perms c | None \<Rightarrow> 0))"

definition grant :: "string \<Rightarrow> grant_byte \<Rightarrow> bool \<Rightarrow> telemetry_access \<Rightarrow> telemetry_access" where
  "grant pubkey b on a =
     (let p = granted (perms_shown a pubkey) b on in
      a\<lparr>ta_contacts := Some (map (\<lambda>c. if gc_pubkey c = pubkey then c\<lparr>gc_perms := p\<rparr> else c) (nullish (ta_contacts a) [])),
        ta_queue := ta_queue a @ [(pubkey, p)]\<rparr>)"

definition grant_pressed :: "string \<Rightarrow> telemetry_class \<Rightarrow> telemetry_access \<Rightarrow> telemetry_access" where
  \<comment> \<open>a button of a contact that is listed, for a class that is open\<close>
  "grant_pressed pubkey c a =
     (case ta_contacts a of
        None \<Rightarrow> a
      | Some cs \<Rightarrow>
          (case find (\<lambda>x. gc_pubkey x = pubkey) cs of
             Some ct \<Rightarrow> if c \<in> set (chosen_classes a) then grant pubkey (class_bit c) (\<not> has_grant ct c) a else a
           | None \<Rightarrow> a))"

definition grant_answered :: "string option \<Rightarrow> telemetry_access \<Rightarrow> telemetry_access" where
  "grant_answered denied a =
     (case ta_queue a of
        [] \<Rightarrow> a
      | _ # q \<Rightarrow>
          (case denied of
             None \<Rightarrow> a\<lparr>ta_queue := q\<rparr>
           | Some e \<Rightarrow> a\<lparr>ta_queue := q, ta_contacts := None, ta_toasts := ta_toasts a @ [(ErrorToast, e)]\<rparr>))"

section \<open>With the server\<close>

text \<open>The server keeps a byte for each contact. It takes the grant that is under way, or refuses it and keeps what it had; it answers the
  request for the contacts with what it has then.\<close>

record grant_world =
  gw_access :: telemetry_access
  gw_server :: "(string \<times> string \<times> grant_byte) list"  \<comment> \<open>key, name and grants, each contact once\<close>

datatype grant_event =
    Press string telemetry_class
  | Taken                            \<comment> \<open>the grant under way is stored\<close>
  | Refused string
  | ContactsRead
  | ContactsFailed string

definition server_contacts :: "(string \<times> string \<times> grant_byte) list \<Rightarrow> grant_contact list" where
  "server_contacts srv = map (\<lambda>(k, n, p). \<lparr>gc_pubkey = k, gc_name = n, gc_perms = p\<rparr>) srv"

definition stored :: "string \<Rightarrow> grant_byte \<Rightarrow> (string \<times> string \<times> grant_byte) list \<Rightarrow> (string \<times> string \<times> grant_byte) list" where
  "stored k p srv = map (\<lambda>(x, n, q). (x, n, if x = k then p else q)) srv"

fun grant_step :: "grant_event \<Rightarrow> grant_world \<Rightarrow> grant_world" where
  "grant_step (Press k c) w = w\<lparr>gw_access := grant_pressed k c (gw_access w)\<rparr>"
| "grant_step Taken w =
     (case ta_queue (gw_access w) of
        [] \<Rightarrow> w
      | (k, p) # _ \<Rightarrow> \<lparr>gw_access = grant_answered None (gw_access w), gw_server = stored k p (gw_server w)\<rparr>)"
| "grant_step (Refused e) w = w\<lparr>gw_access := grant_answered (Some e) (gw_access w)\<rparr>"
| "grant_step ContactsRead w = w\<lparr>gw_access := grant_contacts_read (Inr (server_contacts (gw_server w))) (gw_access w)\<rparr>"
| "grant_step (ContactsFailed e) w = w\<lparr>gw_access := grant_contacts_read (Inl e) (gw_access w)\<rparr>"

definition after_queue :: "(string \<times> grant_byte) list \<Rightarrow> (string \<times> string \<times> grant_byte) list \<Rightarrow> (string \<times> string \<times> grant_byte) list" where
  "after_queue q srv = fold (\<lambda>(k, p) s. stored k p s) q srv"

definition grants_agree :: "grant_world \<Rightarrow> bool" where
  \<comment> \<open>what is shown is what the server holds once it has taken what is to be sent; nothing is to be sent before contacts are listed\<close>
  "grants_agree w \<longleftrightarrow>
     (case ta_contacts (gw_access w) of
        None \<Rightarrow> ta_queue (gw_access w) = []
      | Some cs \<Rightarrow> cs = server_contacts (after_queue (ta_queue (gw_access w)) (gw_server w)))"

lemma after_queue_snoc: "after_queue (q @ [(k, p)]) srv = stored k p (after_queue q srv)"
  by (simp add: after_queue_def)

lemma after_queue_cons: "after_queue ((k, p) # q) srv = after_queue q (stored k p srv)"
  by (simp add: after_queue_def)

lemma stored_contacts:
  "server_contacts (stored k p srv) = map (\<lambda>c. if gc_pubkey c = k then c\<lparr>gc_perms := p\<rparr> else c) (server_contacts srv)"
  by (induction srv) (auto simp: server_contacts_def stored_def)

lemma press_agree: "grants_agree w \<Longrightarrow> grants_agree (grant_step (Press k c) w)"
  by (auto simp: grants_agree_def grant_pressed_def grant_def Let_def after_queue_snoc stored_contacts split: option.splits)

lemma taken_agree: "grants_agree w \<Longrightarrow> grants_agree (grant_step Taken w)"
  by (auto simp: grants_agree_def grant_answered_def after_queue_cons split: option.splits list.splits)

lemma read_agree: "grants_agree w \<Longrightarrow> grants_agree (grant_step ContactsRead w)"
  by (auto simp: grants_agree_def grant_contacts_read_def contacts_wanted_def after_queue_def split: option.splits)

lemma failed_agree: "grants_agree w \<Longrightarrow> grants_agree (grant_step (ContactsFailed e) w)"
  by (auto simp: grants_agree_def grant_contacts_read_def split: option.splits)

definition no_refusal :: "grant_event \<Rightarrow> bool" where
  "no_refusal e \<longleftrightarrow> (case e of Refused _ \<Rightarrow> False | _ \<Rightarrow> True)"

lemma step_agree: "no_refusal e \<Longrightarrow> grants_agree w \<Longrightarrow> grants_agree (grant_step e w)"
  by (cases e) (simp_all only: press_agree taken_agree read_agree failed_agree no_refusal_def grant_event.case)

text \<open>C21: However quickly grants are clicked and however late they are taken, as long as none is refused the buttons show what the server will
  hold when it has taken them all; and once nothing is left to send, what it holds.\<close>
theorem grants_settle:
  assumes "list_all no_refusal es" and "grants_agree w"
  shows "grants_agree (fold grant_step es w)
    \<and> (if ta_queue (gw_access (fold grant_step es w)) = []
       then ta_contacts (gw_access (fold grant_step es w)) \<in> {None, Some (server_contacts (gw_server (fold grant_step es w)))} else True)"
proof -
  have "grants_agree (fold grant_step es w)"
    using assms by (induction es arbitrary: w) (auto intro: step_agree)
  then show ?thesis by (auto simp: grants_agree_def after_queue_def split: option.splits)
qed

definition open_access :: telemetry_access where
  "open_access = access_start\<lparr>ta_saved := Some (\<lambda>_. Selected), ta_modes := Some (\<lambda>_. Selected)\<rparr>"

definition open_world :: grant_world where
  "open_world = \<lparr>gw_access = open_access, gw_server = [(''ab'', ''Ann'', 0)]\<rparr>"

theorem grants_settle_witness:
  "grants_agree (fold grant_step [ContactsRead, Press ''ab'' Base, Press ''ab'' Environment, Taken, Taken] open_world)"
proof -
  have "grants_agree open_world" by (simp add: grants_agree_def open_world_def open_access_def access_start_def)
  then show ?thesis
    using grants_settle [of "[ContactsRead, Press ''ab'' Base, Press ''ab'' Environment, Taken, Taken]" open_world]
    by (simp add: no_refusal_def)
qed

text \<open>A click changes its own class's grant and no other.\<close>

lemma class_bits: "class_bit c AND class_bit d = (if c = d then class_bit c else 0)" "class_bit c \<noteq> 0"
  by (cases c; cases d; simp add: class_bit_def)+

lemma granted_exact: "granted p (class_bit c) on AND class_bit d = (if c = d then (if on then class_bit c else 0) else p AND class_bit d)"
proof -
  have on_bit: "(p OR b) AND e = (p AND e) OR (b AND e)" "(p OR b) AND b = b" "(p AND NOT b) AND b = 0" for b e :: grant_byte
    by (auto simp: bit_eq_iff bit_simps)
  have off_bit: "(p AND NOT b) AND e = p AND e" if "b AND e = 0" for b e :: grant_byte
  proof -
    have "e = (b AND e) OR (NOT b AND e)" by (auto simp: bit_eq_iff bit_simps)
    with that have "NOT b AND e = e" by simp
    then show ?thesis by (simp only: and.assoc)
  qed
  show ?thesis
  proof (cases "c = d")
    case True
    with on_bit show ?thesis by (simp add: granted_def)
  next
    case False
    then have "class_bit c AND class_bit d = 0" by (simp add: class_bits)
    with False on_bit off_bit show ?thesis by (simp add: granted_def)
  qed
qed

text \<open>A grant that is refused makes the contacts load again, which may be answered before a later grant is taken: the buttons then show
  less than the server holds, and nothing loads them again.\<close>

lemma refused_grant_shows_old:
  "let w = fold grant_step [ContactsRead, Press ''ab'' Base, Press ''ab'' Environment, Refused ''Timed out'', ContactsRead, Taken] open_world
   in map gc_perms (the (ta_contacts (gw_access w))) = [0] \<and> map (snd \<circ> snd) (gw_server w) = [5]
      \<and> ta_queue (gw_access w) = [] \<and> \<not> contacts_wanted (gw_access w)"
  by code_simp

text \<open>A load that was overtaken, or whose page was left, changes nothing.\<close>

lemma late_access_ignored:
  "access_loaded (ta_seq a) answer (access_left a) = access_left a"
  "access_loaded (snd (access_load a)) answer (fst (access_load (fst (access_load a)))) = fst (access_load (fst (access_load a)))"
  by (simp_all add: access_loaded_def access_left_def access_load_def)

end
