(* ===== verification/Spec2Isabelle.thy ===== *)
theory Spec2Isabelle
  imports ErrEvents LinkPath CompanionsCache ChatState WebSocketHook Autocomplete ConnectionWeb SensorView Metrics SignalTest Packets CliTerminal RouteEditor Regions RegionForms Traces TelemetryMap SensorBoard RemoteSettings RemoteRegions OwnRepeater BotTest MqttForm PeerPages LinkForm ContactView ChannelViews MonitorView RadioSettings RegionSettings TelemetryGrants
begin

text \<open>
  OwlShack is an operator's console for a MeshCore radio mesh: a Go server that owns the radio, the nodes
  and the database, and a web front end in TypeScript under \<open>src/web/frontend/src\<close> that shows and
  configures all of it. This development models the front end, whose paths below are relative to that directory.

  \<^bold>\<open>The parts and how they interact.\<close> Pages fetch lists and objects over REST and
  keep them in the state of React components; one WebSocket connection delivers what changes live; a resume
  notice after a lost connection makes every page fetch again. Chat, packets, traces and sensors merge both
  sources. A remote node's page sends text commands which the server passes over the radio to the node's firmware.
  The model follows this: the state of a component is a record, a handler, an answer or a message is a function on it,
  and a run of the page is a list of such events. A network answer is an event of its own, so that answers arrive
  late, twice, in another order or never.

  \<^bold>\<open>Shared theories.\<close> \<open>Prelude\<close> holds the part of JavaScript's library the code uses: strings, lists,
  \<open>??\<close> and \<open>||\<close>, \<open>Map\<close> and \<open>Set\<close> in insertion order, rounding. \<open>JsSort\<close> is \<open>Array.prototype.sort\<close>, with the
  law of a comparator as a locale; \<open>Dates\<close> parses ISO dates; \<open>Json\<close> is \<open>JSON.stringify\<close>, \<open>JSON.parse\<close> and \<open>Number\<close>;
  \<open>Http\<close> has requests, responses and \<open>encodeURIComponent\<close>; \<open>ApiHooks\<close> the two fetching hooks
  (\<open>hooks/useApiList.ts\<close>, \<open>hooks/useApiObject.ts\<close>) and the locale of a fetcher whose latest load wins.

  \<^bold>\<open>The chat page\<close> (\<open>pages/CompanionDetailPage.tsx\<close>). \<open>ChatMessages\<close>: \<open>mergeMessages\<close> as a refinement of
  updating a finite map, grouping into bubbles. \<open>ChatList\<close>: the roster and its order. \<open>ChatText\<close>: how a
  message's text becomes links, mentions and map pins, with nothing lost. \<open>ChatState\<close>: loading, paging, live
  messages, unread counts, read marks, sending and scrolling as a state machine, with the invariants of its thread.
  \<open>Autocomplete\<close>: completion of emoji and mentions.

  \<^bold>\<open>Live data.\<close> \<open>WebSocketHook\<close>: the connection, its timers and reconnects (\<open>hooks/useWebSocket.ts\<close>).
  \<open>CompanionsCache\<close>: the list all pages share. \<open>CompanionRef\<close>: references in urls. \<open>Packets\<close>: the packet log.
  \<open>Traces\<close>: a trace from its request to its result or timeout. \<open>SignalTest\<close>: repeated probes. \<open>ConnectionWeb\<close>:
  routes folded into links for the map. \<open>LinkPath\<close>, \<open>MapGeo\<close>: hops of a path, positions.

  \<^bold>\<open>A remote node.\<close> \<open>RemoteNode\<close>: session, login, tabs, status, neighbours (\<open>pages/RepeaterDetailPage.tsx\<close>).
  \<open>AccessList\<close>: permission bytes and the list of admins. \<open>RemoteSettings\<close>: every settings section as a program over the
  node. \<open>RemoteRegions\<close> (\<open>pages/RemoteRegionsTab.tsx\<close>): the region editor, whose list on screen refines
  the node's memory. \<open>Regions\<close>, \<open>RegionForms\<close>: the tree of regions, where one may move, the editor, the scope of a send, the
  map picker. \<open>RouteEditor\<close>: a contact's route. \<open>CliTerminal\<close>: the command line.

  \<^bold>\<open>Sensors and telemetry.\<close> \<open>SensorFields\<close>, \<open>SensorForm\<close>: the form of a sensor (durations, rows, secrets,
  what stops it from being saved). \<open>SensorBoard\<close>: the sensors page and the parts catalogue. \<open>TelemetryMap\<close>: which
  readings a node publishes on which channel. \<open>SensorView\<close>, \<open>Metrics\<close>: how readings read.

  \<^bold>\<open>The operator's own nodes.\<close> \<open>OwnRepeater\<close>: a repeater the server itself runs, its rows and settings form
  (\<open>pages/RepeaterNodePage.tsx\<close>). \<open>BotForm\<close>, \<open>BotTest\<close>: the bots page, the form of a bot, the
  patterns that trigger one and the panel that tries them (\<open>pages/BotsPage.tsx\<close>, \<open>components/BotTestPanel.tsx\<close>).
  \<open>MqttForm\<close>: brokers and feeds (\<open>pages/MqttPage.tsx\<close>).

  \<^bold>\<open>People and channels.\<close> \<open>PeerSheet\<close>: what is known of one node, the card its QR code carries and the channels two
  nodes share (\<open>components/PeerDetailSheet.tsx\<close>). \<open>PeerPages\<close>: the lists of peers, repeaters and room servers, whose
  messages refine a map by public key. \<open>ContactView\<close>: the page of one contact (\<open>pages/ContactDetailPage.tsx\<close>).
  \<open>TelemetryGrants\<close>: which contacts may read a companion's telemetry (\<open>components/TelemetryAccess.tsx\<close>).
  \<open>ChannelViews\<close>: channels, their share link and the menu of a conversation (\<open>pages/ChannelsPage.tsx\<close>,
  \<open>components/ChatHeaderMenu.tsx\<close>).

  \<^bold>\<open>Monitoring.\<close> \<open>PushWatch\<close>: which readings a node pushes when they change (\<open>components/SensorPushSettings.tsx\<close>).
  \<open>MonitorForm\<close>, \<open>LinkForm\<close>: the settings of a monitored node and of a monitored link
  (\<open>components/MonitoringSettings.tsx\<close>, \<open>components/LinkMonitorSettings.tsx\<close>). For these three forms the server's own check
  of what they send is modelled too, from \<open>src/internal/api\<close>, and proved to accept what a form lets through.
  \<open>MetricViews\<close>, \<open>MonitorView\<close>: the pages that show what is monitored, their tiles, trends and charts
  (\<open>pages/MonitoringPage.tsx\<close>, \<open>pages/MonitoringDetailPage.tsx\<close>, \<open>components/NodeStatTiles.tsx\<close>,
  \<open>components/MetricChart.tsx\<close>, \<open>components/SeriesPanel.tsx\<close>).

  \<^bold>\<open>The radio.\<close> \<open>RadioSettings\<close>: how the modem is reached and set, the settings page and the wizard of the first run
  (\<open>components/ConnectionFields.tsx\<close>, \<open>pages/RadioPage.tsx\<close>, \<open>components/SetupWizard.tsx\<close>).
  \<open>RegionSettings\<close>: the list of regions on that page, its edits and the discovery of regions near by
  (\<open>components/FloodRegionsSection.tsx\<close>); every edit keeps the tree of \<open>Regions\<close> whole.

  \<^bold>\<open>Lemmas.\<close> Beside the lemmas on its definitions, each theory proves the properties that make its component correct
  and, where there is a concrete run that goes wrong, a lemma that shows it (such as \<open>stale_thread_shown\<close>,
  \<open>late_route_saved\<close> or \<open>recall_trapped\<close>). Locales state the interfaces: a lawful comparator, a fetcher, an abstract map
  that a list implements, a recall history; each is interpreted on the model's definitions.

  \<^bold>\<open>Bounds and fuel.\<close> The walk of the region tree is given as much fuel as there are regions, which
  \<open>region_tree_ends\<close> proves enough for distinct names. The reader of JSON is given its text's length plus one, enough
  because each value takes a character. A fresh name is found within one try more than there are names taken. The
  search for a free channel takes as many steps as there are channels. \<open>log10_floor\<close> moves at most twenty powers from
  one; beyond a millionth and ten millions the text no longer depends on it. The pages of a node's sensor
  variables are at most twenty in the code itself.

  \<^bold>\<open>Abstractions.\<close> Strings are lists of characters of the Latin-1 range, with the few display glyphs at codes that
  do not print; numbers that the code keeps as doubles are exact rationals, integers that JavaScript cuts to 32 bits are words, and a
  permission byte is an 8-bit word. A text that may be absent is an option or the empty text, as the code
  treats it; a list body that is null is the empty list. Effects run when the value they depend on has changed. What
  the browser or a package supplies (\<open>Intl\<close>, \<open>localeCompare\<close>, the distance of two positions, the text of a
  number, the emoji list, the host of a url), the server's answers and the firmware of a remote node are arguments of
  the definitions or events; where a property relies on them, its hypotheses say what on.

  \<^bold>\<open>Not modelled.\<close> The Go server under \<open>src/internal\<close>, another language and program, but for the checks of three forms named above; the layout, styles and icons of the
  components and the primitives under \<open>components/ui\<close>; drawing on the map with Leaflet; the service worker, themes
  and installation; the pages that the manifest lists as not modelled.
\<close>

end
